(* ===== verification/Prelude.thy ===== *)
theory Prelude
  imports Main
begin

text \<open>
  What every component of the development shares: the exceptions the modelled code raises,
  results and state-passing effects over them, a small calculus for facts that every step of an
  effect keeps, and JSON values with Python dictionary access.
\<close>

section \<open>Exceptions and results\<close>

text \<open>
  One constructor per exception class the modelled code raises or handles. The user-visible
  message of an exception is left out; its class is its code, and \<open>RepairPlanningError\<close> is the three
  codes it carries; \<open>RuntimeFailure\<close> is an \<open>AgentRuntimeError\<close> of code that is not modelled, with its
  retry flag. A pydantic \<open>ValidationError\<close>, the codes of a planning error and the id-format errors are
  kept apart although all are \<open>ValueError\<close>s in Python; \<open>is_value_error\<close> is the subclass test.
\<close>

datatype exn =
    KeyError
  | ValueError
  | ValidationError
  | ArtifactEffectFormatError
  | LedgerIdFormatError
  | EffectStageNotFound
  | EffectStageForbidden
  | EffectStageStaleRevision
  | EffectStageInvalidTransition
  | EffectStageDigestMismatch
  | EffectStageImmutableTarget
  | EffectStagePolicyBlocked
  | EffectStageNotStageable
  | EffectStageIdempotencyConflict
  | EffectStageProjectionUnbound
  | EffectClaimConflict
  | EffectClaimNotFound
  | EffectClaimInvalidTransition
  | EffectClaimStorageError
  | EffectExecutorRegistryError
  | EffectDescriptorCompositionError
  | LedgerSealViolation
  | RuntimeEventIdempotencyConflict
  | RunUnavailable
  | RunPermissionDenied
  | RuntimeFailure bool
  | RolloutConfigurationError
  | RolloutCohortConfigurationError
  | RolloutKillSwitchConfigurationError
  | RolloutAdmissionDenied
  | RepairCursorScopeMismatch
  | RepairCandidateTenantMismatch
  | RepairDuplicateCandidate
  | RepairPlanningStateError
  | TypeError
  | TimeoutError
  | ProviderError
  | CancelledError

definition is_value_error :: "exn \<Rightarrow> bool" where
  "is_value_error e \<longleftrightarrow>
     e \<in> {ValueError, ValidationError, ArtifactEffectFormatError, LedgerIdFormatError,
           RolloutConfigurationError, RolloutCohortConfigurationError, RolloutKillSwitchConfigurationError,
           RepairCursorScopeMismatch, RepairCandidateTenantMismatch, RepairDuplicateCandidate}"

text \<open>\<open>asyncio.CancelledError\<close> is no \<open>Exception\<close>: \<open>except Exception\<close> lets it through.\<close>

definition is_exception :: "exn \<Rightarrow> bool" where
  "is_exception e \<longleftrightarrow> e \<noteq> CancelledError"

type_synonym 'a result = "exn + 'a"

fun rbind :: "'a result \<Rightarrow> ('a \<Rightarrow> 'b result) \<Rightarrow> 'b result" where
  "rbind (Inl e) f = Inl e"
| "rbind (Inr x) f = f x"

definition require :: "bool \<Rightarrow> exn \<Rightarrow> unit result" where
  "require b e = (if b then Inr () else Inl e)"

definition ok :: "'a result \<Rightarrow> bool" where
  "ok r \<longleftrightarrow> (case r of Inl _ \<Rightarrow> False | Inr _ \<Rightarrow> True)"

lemma ok_simps [simp]: "\<not> ok (Inl e)" "ok (Inr x)"
  by (simp_all add: ok_def)

lemma ok_iff: "ok r \<longleftrightarrow> (\<exists>x. r = Inr x)"
  by (cases r) auto

lemma rbind_Inr_iff: "rbind m f = Inr y \<longleftrightarrow> (\<exists>x. m = Inr x \<and> f x = Inr y)"
  by (cases m) auto

lemma rbind_Inl_iff: "rbind m f = Inl e \<longleftrightarrow> m = Inl e \<or> (\<exists>x. m = Inr x \<and> f x = Inl e)"
  by (cases m) auto

lemma require_Inr_iff [simp]: "require b e = Inr u \<longleftrightarrow> b"
  by (cases u) (simp add: require_def)

lemma require_Inl_iff [simp]: "require b e = Inl e' \<longleftrightarrow> \<not> b \<and> e' = e"
  by (auto simp: require_def)

lemma require_True [simp]: "require True e = Inr ()"
  and require_False [simp]: "require False e = Inl e"
  by (simp_all add: require_def)

text \<open>A list of checks run in order, the first failure wins.\<close>

fun rmap :: "('a \<Rightarrow> 'b result) \<Rightarrow> 'a list \<Rightarrow> 'b list result" where
  "rmap f [] = Inr []"
| "rmap f (x # xs) = rbind (f x) (\<lambda>y. rbind (rmap f xs) (\<lambda>ys. Inr (y # ys)))"

lemma rmap_Inr_iff: "rmap f xs = Inr ys \<longleftrightarrow> list_all2 (\<lambda>x y. f x = Inr y) xs ys"
  by (induction xs arbitrary: ys) (auto simp: rbind_Inr_iff list_all2_Cons1)

lemma rmap_total: "(\<And>x. x \<in> set xs \<Longrightarrow> f x = Inr (g x)) \<Longrightarrow> rmap f xs = Inr (map g xs)"
  by (induction xs) auto

section \<open>Effects: state passing with exceptions\<close>

text \<open>
  A method that reads and writes state is a function from the state to its result and the new
  state. A raised exception keeps the state as it was when it was raised, as Python does.
\<close>

type_synonym ('s, 'a) eff = "'s \<Rightarrow> 'a result \<times> 's"

definition ret :: "'a \<Rightarrow> ('s, 'a) eff" where
  "ret x = (\<lambda>s. (Inr x, s))"

definition throw :: "exn \<Rightarrow> ('s, 'a) eff" where
  "throw e = (\<lambda>s. (Inl e, s))"

definition bnd :: "('s, 'a) eff \<Rightarrow> ('a \<Rightarrow> ('s, 'b) eff) \<Rightarrow> ('s, 'b) eff" where
  "bnd m f = (\<lambda>s. case m s of (Inl e, s') \<Rightarrow> (Inl e, s') | (Inr x, s') \<Rightarrow> f x s')"

definition lift :: "'a result \<Rightarrow> ('s, 'a) eff" where
  "lift r = (\<lambda>s. (r, s))"

definition demand :: "bool \<Rightarrow> exn \<Rightarrow> ('s, unit) eff" where
  "demand b e = lift (require b e)"

text \<open>\<open>try: m  except Exception: h\<close>.\<close>

definition catch :: "('s, 'a) eff \<Rightarrow> (exn \<Rightarrow> ('s, 'a) eff) \<Rightarrow> ('s, 'a) eff" where
  "catch m h = (\<lambda>s. case m s of
       (Inl e, s') \<Rightarrow> if is_exception e then h e s' else (Inl e, s')
     | (Inr x, s') \<Rightarrow> (Inr x, s'))"

named_theorems eff_simps "unfolding of effect combinators applied to a state"

lemma ret_apply [eff_simps]: "ret x s = (Inr x, s)"
  and throw_apply [eff_simps]: "throw e s = (Inl e, s)"
  and lift_apply [eff_simps]: "lift r s = (r, s)"
  by (simp_all add: ret_def throw_def lift_def)

lemma demand_apply [eff_simps]: "demand b e s = (require b e, s)"
  by (simp add: demand_def lift_def)

lemma bnd_apply_Inr [eff_simps]: "m s = (Inr x, s') \<Longrightarrow> bnd m f s = f x s'"
  and bnd_apply_Inl [eff_simps]: "m s = (Inl e, s') \<Longrightarrow> bnd m f s = (Inl e, s')"
  by (simp_all add: bnd_def)

lemma bnd_lift_Inr [simp]: "bnd (lift (Inr x)) f = f x"
  and bnd_lift_Inl [simp]: "bnd (lift (Inl e)) f = throw e"
  by (simp_all add: bnd_def lift_def throw_def)

lemma bnd_ret [simp]: "bnd (ret x) f = f x"
  and bnd_throw [simp]: "bnd (throw e) f = throw e"
  by (simp_all add: bnd_def ret_def throw_def)

lemma bnd_demand [simp]: "bnd (demand b e) f = (if b then f () else throw e)"
  by (simp add: demand_def require_def)

lemma bnd_Inr_iff: "bnd m f s = (Inr y, t) \<longleftrightarrow> (\<exists>x u. m s = (Inr x, u) \<and> f x u = (Inr y, t))"
  by (auto simp: bnd_def split: prod.splits sum.splits)

lemma bnd_cases:
  assumes "bnd m f s = (r, t)"
  obtains (raised) e where "m s = (Inl e, t)" and "r = Inl e"
        | (returned) x u where "m s = (Inr x, u)" and "f x u = (r, t)"
  using assms by (auto simp: bnd_def split: prod.splits sum.splits)

text \<open>Guards run: they never change the state.\<close>

lemma bnd_lift_run [eff_simps]:
    "bnd (lift x) f s = (case x of Inl e \<Rightarrow> (Inl e, s) | Inr a \<Rightarrow> f a s)"
  and bnd_demand_run [eff_simps]: "bnd (demand b e) f s = (if b then f () s else (Inl e, s))"
  by (simp_all add: bnd_def lift_def demand_def require_def split: sum.split)

lemma bnd_liftE:
  assumes "bnd (lift x) f s = (r, t)"
  obtains (raised) e where "x = Inl e" and "r = Inl e" and "t = s"
        | (returned) a where "x = Inr a" and "f a s = (r, t)"
  using assms by (cases x) (auto simp: throw_def)

lemma bnd_demandE:
  assumes "bnd (demand b e) f s = (r, t)"
  obtains (raised) "\<not> b" and "r = Inl e" and "t = s"
        | (returned) b and "f () s = (r, t)"
  using assms by (auto simp: throw_def split: if_splits)

subsection \<open>What every step of an effect keeps\<close>

text \<open>
  \<open>keeps R m\<close>: whatever \<open>m\<close> does, return or raise, its final state is related by \<open>R\<close> to
  the one it started from. For reflexive and transitive \<open>R\<close> the rule for \<open>bnd\<close> composes.
\<close>

definition keeps :: "('s \<Rightarrow> 's \<Rightarrow> bool) \<Rightarrow> ('s, 'a) eff \<Rightarrow> bool" where
  "keeps R m \<longleftrightarrow> (\<forall>s. R s (snd (m s)))"

named_theorems keeps_intros "rules that build keeps facts along an effect"

lemma keepsD: "keeps R m \<Longrightarrow> m s = (r, t) \<Longrightarrow> R s t"
  by (auto simp: keeps_def dest: spec [of _ s])

lemma keepsI: "(\<And>s r t. m s = (r, t) \<Longrightarrow> R s t) \<Longrightarrow> keeps R m"
  by (auto simp: keeps_def) (metis prod.collapse)

lemma keeps_ret [keeps_intros]: "reflp R \<Longrightarrow> keeps R (ret x)"
  and keeps_throw [keeps_intros]: "reflp R \<Longrightarrow> keeps R (throw e)"
  and keeps_lift [keeps_intros]: "reflp R \<Longrightarrow> keeps R (lift r)"
  and keeps_demand [keeps_intros]: "reflp R \<Longrightarrow> keeps R (demand b e)"
  by (simp_all add: keeps_def ret_def throw_def lift_def demand_def reflp_def)

lemma keeps_bnd [keeps_intros]:
  assumes "transp R" and m: "keeps R m" and f: "\<And>x. keeps R (f x)"
  shows "keeps R (bnd m f)"
proof (rule keepsI)
  fix s r t
  assume "bnd m f s = (r, t)"
  then show "R s t"
  proof (cases rule: bnd_cases)
    case (raised e)
    with m show ?thesis by (blast dest: keepsD)
  next
    case (returned x u)
    with m f have "R s u" and "R u t" by (blast dest: keepsD)+
    with assms(1) show ?thesis by (blast dest: transpD)
  qed
qed

lemma keeps_catch [keeps_intros]:
  assumes "transp R" and m: "keeps R m" and h: "\<And>e. keeps R (h e)"
  shows "keeps R (catch m h)"
proof (rule keepsI)
  fix s r t
  assume eq: "catch m h s = (r, t)"
  obtain r' u where ms: "m s = (r', u)" by (cases "m s")
  with m have su: "R s u" by (blast dest: keepsD)
  show "R s t"
  proof (cases "\<exists>e. r' = Inl e \<and> is_exception e")
    case True
    then obtain e where "r' = Inl e" and "is_exception e" by blast
    with eq ms have "h e u = (r, t)" by (simp add: catch_def)
    with h have "R u t" by (blast dest: keepsD)
    with su assms(1) show ?thesis by (blast dest: transpD)
  next
    case False
    with eq ms have "t = u" by (auto simp: catch_def split: sum.splits if_splits)
    with su show ?thesis by simp
  qed
qed

lemma keeps_if [keeps_intros]: "keeps R m \<Longrightarrow> keeps R n \<Longrightarrow> keeps R (if b then m else n)"
  by simp

lemma keeps_option [keeps_intros]:
  "keeps R n \<Longrightarrow> (\<And>x. keeps R (f x)) \<Longrightarrow> keeps R (case v of None \<Rightarrow> n | Some x \<Rightarrow> f x)"
  by (cases v) auto

section \<open>JSON values and dictionaries\<close>

text \<open>
  The \<open>object\<close> values of an event payload. A float is kept as its text: no modelled code
  looks inside one. A dictionary is an association list with distinct keys.
\<close>

datatype json =
    JNull
  | JBool bool
  | JInt int
  | JFloat string
  | JStr string
  | JArr "json list"
  | JObj "(string \<times> json) list"

type_synonym dict = "(string \<times> json) list"

text \<open>\<open>d.get(key, default)\<close> and \<open>d[key]\<close>.\<close>

definition dget :: "dict \<Rightarrow> string \<Rightarrow> json \<Rightarrow> json" where
  "dget d k v = (case map_of d k of None \<Rightarrow> v | Some w \<Rightarrow> w)"

definition dindex :: "dict \<Rightarrow> string \<Rightarrow> json result" where
  "dindex d k = (case map_of d k of None \<Rightarrow> Inl KeyError | Some w \<Rightarrow> Inr w)"

fun jstr_opt :: "string option \<Rightarrow> json" where
  "jstr_opt None = JNull"
| "jstr_opt (Some s) = JStr s"

lemma map_of_filter_key:
  "map_of (filter (\<lambda>(k, v). P v) d) k = (case map_of d k of None \<Rightarrow> None | Some v \<Rightarrow> if P v then Some v else None)"
  if "distinct (map fst d)"
  using that by (induction d) (auto split: option.splits simp: map_of_eq_None_iff image_iff)

text \<open>The lookup of an enumeration by its wire value, \<open>ValueError\<close> when there is none.\<close>

definition enum_of :: "(string \<times> 'a) list \<Rightarrow> string \<Rightarrow> 'a result" where
  "enum_of tab s = (case map_of tab s of None \<Rightarrow> Inl ValueError | Some x \<Rightarrow> Inr x)"

end
