(* ===== verification/PyText.thy ===== *)
theory PyText
  imports Prelude
begin

text \<open>
  The part of Python's \<open>str\<close>, \<open>re\<close> and \<open>urllib.parse\<close> (3.13) that the reference and id
  validators use. A \<open>str\<close> is a character list whose code points are below 256. Percent escapes
  that decode to code points above 127 are kept as their UTF-8 bytes: the validators look for
  ASCII characters only, so their answer is the same for every reference whose escapes denote
  ASCII text or whose decoded host has no compatibility form.
\<close>

section \<open>Characters\<close>

definition code :: "char \<Rightarrow> nat" where
  "code c = of_char c"

definition is_digit :: "char \<Rightarrow> bool" where
  "is_digit c \<longleftrightarrow> 48 \<le> code c \<and> code c \<le> 57"

definition is_lower :: "char \<Rightarrow> bool" where
  "is_lower c \<longleftrightarrow> 97 \<le> code c \<and> code c \<le> 122"

definition is_upper :: "char \<Rightarrow> bool" where
  "is_upper c \<longleftrightarrow> 65 \<le> code c \<and> code c \<le> 90"

definition is_alpha :: "char \<Rightarrow> bool" where
  "is_alpha c \<longleftrightarrow> is_lower c \<or> is_upper c"

definition is_alnum :: "char \<Rightarrow> bool" where
  "is_alnum c \<longleftrightarrow> is_alpha c \<or> is_digit c"

definition is_lower_hex :: "char \<Rightarrow> bool" where
  "is_lower_hex c \<longleftrightarrow> is_digit c \<or> (97 \<le> code c \<and> code c \<le> 102)"

definition is_hex :: "char \<Rightarrow> bool" where
  "is_hex c \<longleftrightarrow> is_lower_hex c \<or> (65 \<le> code c \<and> code c \<le> 70)"

text \<open>\<open>str.isspace\<close> below 256, the characters \<open>str.strip\<close> removes.\<close>

definition is_space :: "char \<Rightarrow> bool" where
  "is_space c \<longleftrightarrow> (9 \<le> code c \<and> code c \<le> 13) \<or> (28 \<le> code c \<and> code c \<le> 32)
     \<or> code c = 133 \<or> code c = 160"

definition char_lower :: "char \<Rightarrow> char" where
  "char_lower c = (if is_upper c \<or> (192 \<le> code c \<and> code c \<le> 222 \<and> code c \<noteq> 215)
     then char_of (code c + 32) else c)"

lemma code_char_of: "n < 256 \<Longrightarrow> code (char_of n) = n"
  by (simp add: code_def)

lemma code_less [simp]: "code c < 256"
  by (cases c) (simp add: code_def)

lemma code_char_lower:
  "code (char_lower c) =
     (if is_upper c \<or> (192 \<le> code c \<and> code c \<le> 222 \<and> code c \<noteq> 215) then code c + 32 else code c)"
  by (auto simp: char_lower_def is_upper_def code_char_of)

text \<open>Evaluation reads the classes off the bits of a character.\<close>

lemma is_digit_code [code]:
  "is_digit (Char b0 b1 b2 b3 b4 b5 b6 b7) \<longleftrightarrow> b5 \<and> b4 \<and> \<not> b6 \<and> \<not> b7 \<and> \<not> (b3 \<and> (b2 \<or> b1))"
  by (cases b7; cases b6; cases b5; cases b4; cases b3; simp add: is_digit_def code_def)

lemma is_lower_code [code]:
  "is_lower (Char b0 b1 b2 b3 b4 b5 b6 b7) \<longleftrightarrow> b6 \<and> b5 \<and> \<not> b7 \<and> (b0 \<or> b1 \<or> b2 \<or> b3 \<or> b4)
     \<and> \<not> (b4 \<and> b3 \<and> (b2 \<or> (b1 \<and> b0)))"
  by (cases b7; cases b6; cases b5; cases b4; cases b3; simp add: is_lower_def code_def; blast)

lemma is_upper_code [code]:
  "is_upper (Char b0 b1 b2 b3 b4 b5 b6 b7) \<longleftrightarrow> b6 \<and> \<not> b5 \<and> \<not> b7 \<and> (b0 \<or> b1 \<or> b2 \<or> b3 \<or> b4)
     \<and> \<not> (b4 \<and> b3 \<and> (b2 \<or> (b1 \<and> b0)))"
  by (cases b7; cases b6; cases b5; cases b4; cases b3; simp add: is_upper_def code_def; blast)

lemma is_lower_hex_code [code]:
  "is_lower_hex (Char b0 b1 b2 b3 b4 b5 b6 b7) \<longleftrightarrow> \<not> b7 \<and> b5
     \<and> (if b6 then \<not> b4 \<and> \<not> b3 \<and> (b0 \<or> b1 \<or> b2) \<and> \<not> (b0 \<and> b1 \<and> b2) else b4 \<and> \<not> (b3 \<and> (b2 \<or> b1)))"
  by (cases b7; cases b6; cases b5; cases b4; cases b3; cases b2; cases b1; simp add: is_lower_hex_def is_digit_def code_def)

lemma is_space_code [code]:
  "is_space (Char b0 b1 b2 b3 b4 b5 b6 b7) \<longleftrightarrow> \<not> b6
     \<and> (if b7 then (if b5 then \<not> b4 \<and> \<not> b3 \<and> \<not> b2 \<and> \<not> b1 \<and> \<not> b0 else \<not> b4 \<and> \<not> b3 \<and> b2 \<and> \<not> b1 \<and> b0)
        else if b5 then \<not> b4 \<and> \<not> b3 \<and> \<not> b2 \<and> \<not> b1 \<and> \<not> b0
        else b3 \<and> (if b4 then b2 else (b0 \<or> b1 \<or> b2) \<and> \<not> (b2 \<and> b1)))"
  by (cases b7; cases b6; cases b5; cases b4; cases b3; cases b2; cases b1; simp add: is_space_def code_def)

lemma char_lower_code [code]:
  "char_lower (Char b0 b1 b2 b3 b4 b5 b6 b7) =
     (let low = (if b7 then b6 \<and> \<not> (b0 \<and> b1 \<and> b2 \<and> b4)
                 else b6 \<and> (b0 \<or> b1 \<or> b2 \<or> b3 \<or> b4) \<and> \<not> (b4 \<and> b3 \<and> (b2 \<or> (b1 \<and> b0))))
      in Char b0 b1 b2 b3 b4 (b5 \<or> low) b6 b7)"
  by (cases b7; cases b6; cases b5; cases b4; cases b3; cases b2; cases b1; cases b0;
      simp add: char_lower_def is_upper_def code_def char_of_def bit_iff_odd)

section \<open>Strings\<close>

definition strip :: "string \<Rightarrow> string" where
  "strip s = rev (dropWhile is_space (rev (dropWhile is_space s)))"

definition lower :: "string \<Rightarrow> string" where
  "lower s = map char_lower s"

fun starts_with :: "string \<Rightarrow> string \<Rightarrow> bool" where
  "starts_with [] s = True"
| "starts_with (c # p) [] = False"
| "starts_with (c # p) (d # s) = (c = d \<and> starts_with p s)"

definition starts_any :: "string list \<Rightarrow> string \<Rightarrow> bool" where
  "starts_any ps s \<longleftrightarrow> list_ex (\<lambda>p. starts_with p s) ps"

fun contains :: "string \<Rightarrow> string \<Rightarrow> bool" where
  "contains p [] = (p = [])"
| "contains p (c # s) = (starts_with p (c # s) \<or> contains p s)"

text \<open>\<open>s.split(c)\<close>: the pieces between the separators, at least one.\<close>

fun split_on :: "char \<Rightarrow> string \<Rightarrow> string list" where
  "split_on c [] = [[]]"
| "split_on c (d # s) =
     (if d = c then [] # split_on c s
      else (case split_on c s of [] \<Rightarrow> [[d]] | p # ps \<Rightarrow> (d # p) # ps))"

text \<open>\<open>s.partition(c)\<close>: the text before the first separator, whether there is one, the rest.\<close>

fun partition_at :: "char \<Rightarrow> string \<Rightarrow> string \<times> bool \<times> string" where
  "partition_at c [] = ([], False, [])"
| "partition_at c (d # s) =
     (if d = c then ([], True, s)
      else (case partition_at c s of (a, b, r) \<Rightarrow> (d # a, b, r)))"

definition replace_char :: "char \<Rightarrow> char \<Rightarrow> string \<Rightarrow> string" where
  "replace_char a b s = map (\<lambda>c. if c = a then b else c) s"

lemma starts_with_iff: "starts_with p s \<longleftrightarrow> (\<exists>r. s = p @ r)"
  by (induction p s rule: starts_with.induct) auto

lemma starts_with_append [simp]: "starts_with p (p @ s)"
  by (auto simp: starts_with_iff)

lemma split_on_nonempty [simp]: "split_on c s \<noteq> []"
  by (induction s) (auto split: list.splits)

lemma split_on_none: "c \<notin> set s \<Longrightarrow> split_on c s = [s]"
  by (induction s) auto

lemma split_on_append: "c \<notin> set p \<Longrightarrow> split_on c (p @ c # s) = p # split_on c s"
  by (induction p) auto

lemma split_on_no_sep: "p \<in> set (split_on c s) \<Longrightarrow> c \<notin> set p"
  by (induction s arbitrary: p) (auto split: if_splits list.splits)

text \<open>The pieces, joined with the separator, are the string again.\<close>

lemma split_on_join: "split_on x s = p # ps \<Longrightarrow> s = p @ concat (map (\<lambda>q. x # q) ps)"
proof (induction s arbitrary: p ps)
  case Nil
  then show ?case by simp
next
  case (Cons d s)
  obtain q qs where e: "split_on x s = q # qs" by (cases "split_on x s") auto
  from Cons.IH [OF e] Cons.prems e show ?case by (cases "d = x") auto
qed

lemma dropWhile_none: "\<forall>c \<in> set s. \<not> P c \<Longrightarrow> dropWhile P s = s"
  by (cases s) simp_all

lemma strip_no_space: "\<forall>c \<in> set s. \<not> is_space c \<Longrightarrow> strip s = s"
  by (simp add: strip_def dropWhile_none)

section \<open>Decimal numbers\<close>

fun dec :: "nat \<Rightarrow> string" where
  "dec n = (if n < 10 then [char_of (n + 48)] else dec (n div 10) @ [char_of (n mod 10 + 48)])"

declare dec.simps [simp del]

definition digit_val :: "char \<Rightarrow> nat" where
  "digit_val c = code c - 48"

definition nat_of_dec :: "string \<Rightarrow> nat" where
  "nat_of_dec s = foldl (\<lambda>n c. 10 * n + digit_val c) 0 s"

text \<open>The regular expression \<open>[1-9][0-9]*\<close>.\<close>

definition is_pos_dec :: "string \<Rightarrow> bool" where
  "is_pos_dec s \<longleftrightarrow> (case s of [] \<Rightarrow> False | c # r \<Rightarrow> is_digit c \<and> code c \<noteq> 48 \<and> list_all is_digit r)"

lemma dec_ne [simp]: "dec n \<noteq> []"
  by (subst dec.simps) simp

lemma dec_digits: "list_all is_digit (dec n)"
proof (induction n rule: dec.induct)
  case (1 n)
  have m: "n mod 10 \<le> 9" by simp
  show ?case
  proof (cases "n < 10")
    case True
    then show ?thesis by (simp add: dec.simps [of n] is_digit_def code_char_of)
  next
    case False
    with 1 have "list_all is_digit (dec (n div 10))" by simp
    moreover have "is_digit (char_of (n mod 10 + 48))"
      using m by (simp add: is_digit_def code_char_of)
    ultimately show ?thesis using False by (simp add: dec.simps [of n])
  qed
qed

lemma nat_of_dec_snoc: "nat_of_dec (s @ [c]) = 10 * nat_of_dec s + digit_val c"
  by (simp add: nat_of_dec_def)

lemma nat_of_dec_dec: "nat_of_dec (dec n) = n"
proof (induction n rule: dec.induct)
  case (1 n)
  show ?case
  proof (cases "n < 10")
    case True
    then show ?thesis
      by (simp add: dec.simps [of n] nat_of_dec_def digit_val_def code_char_of)
  next
    case False
    with 1 have "nat_of_dec (dec (n div 10)) = n div 10" by simp
    moreover have "n mod 10 < 10" by simp
    ultimately show ?thesis using False
      by (simp add: dec.simps [of n] nat_of_dec_snoc digit_val_def code_char_of)
  qed
qed

lemma dec_head: "0 < n \<Longrightarrow> code (hd (dec n)) \<noteq> 48"
proof (induction n rule: dec.induct)
  case (1 n)
  show ?case
  proof (cases "n < 10")
    case True
    with 1 show ?thesis by (simp add: dec.simps [of n] code_char_of)
  next
    case False
    with 1 have "code (hd (dec (n div 10))) \<noteq> 48" by simp
    with False show ?thesis by (simp add: dec.simps [of n])
  qed
qed

lemma is_pos_dec_dec: "0 < n \<Longrightarrow> is_pos_dec (dec n)"
  using dec_digits [of n] dec_head [of n]
  by (cases "dec n") (auto simp: is_pos_dec_def)

text \<open>\<open>f"{n:03d}"\<close>: zero padding to a minimal width.\<close>

definition dec_pad :: "nat \<Rightarrow> nat \<Rightarrow> string" where
  "dec_pad w n = (let d = dec n in replicate (w - length d) (CHR ''0'') @ d)"

lemma digits_no_slash: "list_all is_digit s \<Longrightarrow> CHR ''/'' \<notin> set s"
  by (induction s) (auto simp: is_digit_def code_def)

lemma digits_no_space: "list_all is_digit s \<Longrightarrow> \<forall>c \<in> set s. \<not> is_space c"
  by (induction s) (auto simp: is_digit_def is_space_def)

section \<open>Percent decoding\<close>

definition hex_val :: "char \<Rightarrow> nat" where
  "hex_val c = (if is_digit c then code c - 48
     else if 97 \<le> code c then code c - 87 else code c - 55)"

text \<open>\<open>urllib.parse.unquote\<close>: every \<open>%XX\<close> becomes the byte it names, once.\<close>

fun unquote :: "string \<Rightarrow> string" where
  "unquote (c # a # b # s) =
     (if c = CHR ''%'' \<and> is_hex a \<and> is_hex b
      then char_of (16 * hex_val a + hex_val b) # unquote s
      else c # unquote (a # b # s))"
| "unquote s = s"

lemma unquote_length: "length (unquote s) \<le> length s"
  by (induction s rule: unquote.induct) auto

lemma unquote_change_shrinks: "unquote s \<noteq> s \<Longrightarrow> length (unquote s) < length s"
proof (induction s rule: unquote.induct)
  case (1 c a b s)
  show ?case
  proof (cases "c = CHR ''%'' \<and> is_hex a \<and> is_hex b")
    case True
    have "length (unquote s) \<le> length s" by (rule unquote_length)
    with True show ?thesis by simp
  next
    case False
    with 1 show ?thesis by auto
  qed
qed simp_all

text \<open>The loop \<open>while True: next = unquote(decoded); if next == decoded: break\<close>.\<close>

function unquote_all :: "string \<Rightarrow> string" where
  "unquote_all s = (let t = unquote s in if t = s then s else unquote_all t)"
  by pat_completeness auto
termination
  by (relation "measure length") (auto simp: unquote_change_shrinks)

declare unquote_all.simps [simp del]

lemma unquote_all_stable: "unquote (unquote_all s) = unquote_all s"
proof (induction s rule: unquote_all.induct)
  case (1 s)
  show ?case
  proof (cases "unquote s = s")
    case True
    then show ?thesis by (simp add: unquote_all.simps [of s])
  next
    case False
    with 1 show ?thesis by (simp add: unquote_all.simps [of s])
  qed
qed

lemma unquote_no_percent: "CHR ''%'' \<notin> set s \<Longrightarrow> unquote s = s"
  by (induction s rule: unquote.induct) auto

lemma unquote_all_no_percent: "CHR ''%'' \<notin> set s \<Longrightarrow> unquote_all s = s"
  by (simp add: unquote_all.simps unquote_no_percent)

lemma unquote_all_code [code]:
  "unquote_all s =
     (if CHR ''%'' \<in> set s then (let t = unquote s in if t = s then s else unquote_all t) else s)"
  by (simp add: unquote_all.simps [of s] unquote_no_percent Let_def)

text \<open>A length bound is checked by running down the list: a numeral is no chain of successors.\<close>

fun fits_in :: "'a list \<Rightarrow> int \<Rightarrow> bool" where
  "fits_in [] n \<longleftrightarrow> 0 \<le> n"
| "fits_in (x # xs) n \<longleftrightarrow> 1 \<le> n \<and> fits_in xs (n - 1)"

lemma fits_in_length: "fits_in xs n \<longleftrightarrow> int (length xs) \<le> n"
  by (induction xs arbitrary: n) auto

lemma fits_in_code [code_unfold]:
  "length xs \<le> numeral k \<longleftrightarrow> fits_in xs (numeral k)"
  by (simp add: fits_in_length)

section \<open>Splitting a URL\<close>

record url =
  u_scheme :: string
  u_netloc :: string
  u_path :: string
  u_query :: string
  u_fragment :: string

definition is_scheme_char :: "char \<Rightarrow> bool" where
  "is_scheme_char c \<longleftrightarrow> is_alnum c \<or> c \<in> {CHR ''+'', CHR ''-'', CHR ''.''}"

text \<open>\<open>_splitnetloc\<close>: the host part ends at the first of \<open>/ ? #\<close>.\<close>

definition ends_netloc :: "char \<Rightarrow> bool" where
  "ends_netloc c \<longleftrightarrow> c \<in> {CHR ''/'', CHR ''?'', CHR ''#''}"

text \<open>\<open>ipaddress.IPv4Address\<close> and \<open>IPv6Address\<close>, for a host in square brackets.\<close>

definition is_octet :: "string \<Rightarrow> bool" where
  "is_octet s \<longleftrightarrow> s \<noteq> [] \<and> list_all is_digit s \<and> length s \<le> 3
     \<and> (s = ''0'' \<or> code (hd s) \<noteq> 48) \<and> nat_of_dec s \<le> 255"

definition is_ipv4 :: "string \<Rightarrow> bool" where
  "is_ipv4 s \<longleftrightarrow> length (split_on (CHR ''.'') s) = 4 \<and> list_all is_octet (split_on (CHR ''.'') s)"

definition is_hextet :: "string \<Rightarrow> bool" where
  "is_hextet s \<longleftrightarrow> s \<noteq> [] \<and> length s \<le> 4 \<and> list_all is_hex s"

definition ipv6_parts :: "string \<Rightarrow> string list option" where
  "ipv6_parts s =
     (let ps = split_on (CHR '':'') s in
      if length ps < 3 then None
      else if CHR ''.'' \<in> set (last ps)
      then (if is_ipv4 (last ps) then Some (butlast ps @ [''0'', ''0'']) else None)
      else Some ps)"

definition ipv6_body_ok :: "string list \<Rightarrow> bool" where
  "ipv6_body_ok ps =
     (let n = length ps;
          inner = filter (\<lambda>i. ps ! i = []) [1 ..< n - 1]
      in n \<le> 9 \<and>
         (case inner of
            [] \<Rightarrow> n = 8 \<and> list_all is_hextet ps
          | [i] \<Rightarrow>
              (let hi = (if hd ps = [] then i - 1 else i);
                   lo = (if last ps = [] then n - i - 2 else n - i - 1)
               in (hd ps = [] \<longrightarrow> hi = 0) \<and> (last ps = [] \<longrightarrow> lo = 0) \<and> hi + lo \<le> 7
                  \<and> list_all is_hextet (take hi ps) \<and> list_all is_hextet (drop (n - lo) ps))
          | _ \<Rightarrow> False))"

definition is_ipv6 :: "string \<Rightarrow> bool" where
  "is_ipv6 s =
     (case partition_at (CHR ''%'') s of (addr, scoped, scope) \<Rightarrow>
        CHR ''/'' \<notin> set s \<and> (scoped \<longrightarrow> scope \<noteq> [] \<and> CHR ''%'' \<notin> set scope)
        \<and> (case ipv6_parts addr of None \<Rightarrow> False | Some ps \<Rightarrow> ipv6_body_ok ps))"

definition is_ip_future :: "string \<Rightarrow> bool" where
  "is_ip_future s =
     (case s of [] \<Rightarrow> False
      | v # r \<Rightarrow> (case partition_at (CHR ''.'') r of (h, dot, t) \<Rightarrow>
          v = CHR ''v'' \<and> h \<noteq> [] \<and> list_all is_hex h \<and> dot \<and> t \<noteq> [] \<and> CHR 0x0A \<notin> set t))"

definition bracketed_ok :: "string \<Rightarrow> bool" where
  "bracketed_ok netloc =
     (let hp = last (split_on (CHR ''@'') netloc) in
      case partition_at (CHR ''['') hp of (pre, opened, bracketed) \<Rightarrow>
      if opened then
        (case partition_at (CHR '']'') bracketed of (host, _, port) \<Rightarrow>
          pre = [] \<and> (port = [] \<or> hd port = CHR '':'')
          \<and> (if starts_with ''v'' host then is_ip_future host else is_ipv6 host))
      else (let host = fst (partition_at (CHR '':'') hp) in
          if starts_with ''v'' host then is_ip_future host else is_ipv6 host))"

text \<open>\<open>urlsplit\<close>: leading control characters and blanks go, then tabs and line ends.\<close>

definition urlsplit :: "string \<Rightarrow> url result" where
  "urlsplit raw =
     (let url0 = filter (\<lambda>c. c \<notin> {CHR 0x09, CHR 0x0A, CHR 0x0D}) (dropWhile (\<lambda>c. code c \<le> 32) raw);
          head = partition_at (CHR '':'') url0;
          has_scheme = (fst (snd head) \<and> fst head \<noteq> [] \<and> is_alpha (hd (fst head))
                        \<and> list_all is_scheme_char (fst head));
          scheme = (if has_scheme then lower (fst head) else []);
          url1 = (if has_scheme then snd (snd head) else url0);
          has_netloc = starts_with ''//'' url1;
          netloc = (if has_netloc then takeWhile (\<lambda>c. \<not> ends_netloc c) (drop 2 url1) else []);
          url2 = (if has_netloc then dropWhile (\<lambda>c. \<not> ends_netloc c) (drop 2 url1) else url1);
          opened = (CHR ''['' \<in> set netloc);
          closed = (CHR '']'' \<in> set netloc);
          frag = partition_at (CHR ''#'') url2;
          qry = partition_at (CHR ''?'') (fst frag)
      in if opened \<noteq> closed \<or> (opened \<and> closed \<and> \<not> bracketed_ok netloc) then Inl ValueError
         else Inr \<lparr>u_scheme = scheme, u_netloc = netloc, u_path = fst qry,
                   u_query = snd (snd qry), u_fragment = snd (snd frag)\<rparr>)"

end
