(* ===== verification/LedgerIds.thy ===== *)
theory LedgerIds
  imports PyText
begin

text \<open>
  The id and reference codecs of \<open>agent_runtime/surfaces_v2/ledger_ids.py\<close>: prefixed UUIDs,
  \<open>proposal://\<close>, \<open>artifact://\<close>, \<open>operation://\<close>, \<open>receipt://\<close> and \<open>workspace-target://\<close>
  references and the user-visible ledger id. The constants are those of the contract file
  \<open>work_ledger.json\<close>. The lemmas are the round trips: what a codec formats it parses back, and
  what it parses is the canonical text of its parts.
\<close>

definition MAX_REFERENCE_LENGTH :: nat where "MAX_REFERENCE_LENGTH = 2048"
definition CLAIM_ID_MAX_LENGTH :: nat where "CLAIM_ID_MAX_LENGTH = 128"
definition MAX_SAFE_INTEGER :: int where "MAX_SAFE_INTEGER = 9007199254740991"

lemma fits_in_bounds [code_unfold]:
  "length xs \<le> MAX_REFERENCE_LENGTH \<longleftrightarrow> fits_in xs 2048"
  "length xs \<le> CLAIM_ID_MAX_LENGTH \<longleftrightarrow> fits_in xs 128"
  by (simp_all add: fits_in_length MAX_REFERENCE_LENGTH_def CLAIM_ID_MAX_LENGTH_def)

section \<open>Canonical UUIDs and prefixed ids\<close>

text \<open>
  \<open>_UUID_CANONICAL\<close>. A string that matches it has version 4 or 7 and is the text of its own
  UUID, so the further tests of \<open>_parse_uuid\<close> cannot fail after it.
\<close>

definition uuid_group :: "nat \<Rightarrow> string \<Rightarrow> bool" where
  "uuid_group n s \<longleftrightarrow> length s = n \<and> list_all is_lower_hex s"

definition is_canonical_uuid :: "string \<Rightarrow> bool" where
  "is_canonical_uuid s =
     (case split_on (CHR ''-'') s of
        [a, b, c, d, e] \<Rightarrow>
          uuid_group 8 a \<and> uuid_group 4 b \<and> uuid_group 4 c \<and> uuid_group 4 d \<and> uuid_group 12 e
          \<and> (starts_with ''4'' c \<or> starts_with ''7'' c)
          \<and> (starts_with ''8'' d \<or> starts_with ''9'' d \<or> starts_with ''a'' d \<or> starts_with ''b'' d)
      | _ \<Rightarrow> False)"

definition parse_uuid :: "string \<Rightarrow> string result" where
  "parse_uuid raw = (if is_canonical_uuid raw then Inr raw else Inl ArtifactEffectFormatError)"

definition prefixed_format :: "string \<Rightarrow> string \<Rightarrow> string result" where
  "prefixed_format prefix raw = rbind (parse_uuid raw) (\<lambda>canonical. Inr (prefix @ canonical))"

definition prefixed_parse :: "string \<Rightarrow> string \<Rightarrow> string result" where
  "prefixed_parse prefix text =
     (if starts_with prefix text then parse_uuid (drop (length prefix) text)
      else Inl ArtifactEffectFormatError)"

definition operation_id_parse :: "string \<Rightarrow> string result" where
  "operation_id_parse = prefixed_parse ''op_''"

definition artifact_id_parse :: "string \<Rightarrow> string result" where
  "artifact_id_parse = prefixed_parse ''art_''"

definition stage_id_parse :: "string \<Rightarrow> string result" where
  "stage_id_parse = prefixed_parse ''stg_''"

definition stage_id_format :: "string \<Rightarrow> string result" where
  "stage_id_format = prefixed_format ''stg_''"

lemma stage_id_round_trip: "stage_id_format u = Inr t \<Longrightarrow> stage_id_parse t = Inr u"
  by (auto simp: stage_id_format_def prefixed_format_def stage_id_parse_def prefixed_parse_def
      parse_uuid_def rbind_Inr_iff split: if_splits)

lemma stage_id_parse_shape: "stage_id_parse t = Inr u \<Longrightarrow> t = ''stg_'' @ u \<and> is_canonical_uuid u"
  by (auto simp: stage_id_parse_def prefixed_parse_def parse_uuid_def starts_with_iff
      split: if_splits)

section \<open>References\<close>

text \<open>The guards of \<open>_reference_match\<close> around the pattern.\<close>

definition reference_text_ok :: "string \<Rightarrow> bool" where
  "reference_text_ok text \<longleftrightarrow> length text \<le> MAX_REFERENCE_LENGTH \<and> text = strip text"

definition is_dot_part :: "string \<Rightarrow> bool" where
  "is_dot_part s \<longleftrightarrow> s = ''.'' \<or> s = ''..''"

definition require_positive_revision :: "int \<Rightarrow> unit result" where
  "require_positive_revision r = require (1 \<le> r \<and> r \<le> MAX_SAFE_INTEGER) ArtifactEffectFormatError"

definition parse_revision :: "string \<Rightarrow> int result" where
  "parse_revision text =
     (let r = int (nat_of_dec text) in rbind (require_positive_revision r) (\<lambda>_. Inr r))"

definition is_claim_id_char :: "char \<Rightarrow> bool" where
  "is_claim_id_char c \<longleftrightarrow> is_lower c \<or> is_digit c \<or> c \<in> {CHR ''.'', CHR ''_'', CHR ''-''}"

definition validate_claim_id :: "string \<Rightarrow> unit result" where
  "validate_claim_id s = require
     (length s \<le> CLAIM_ID_MAX_LENGTH \<and> s \<noteq> [] \<and> (is_lower (hd s) \<or> is_digit (hd s))
      \<and> list_all is_claim_id_char s \<and> \<not> contains ''..'' s) ArtifactEffectFormatError"

definition validate_opaque_token :: "string \<Rightarrow> unit result" where
  "validate_opaque_token s = require
     (s \<noteq> [] \<and> length s \<le> 256
      \<and> list_all (\<lambda>c. is_alnum c \<or> c = CHR ''_'' \<or> c = CHR ''-'') s) ArtifactEffectFormatError"

text \<open>
  A pattern \<open>^<scheme>([^/]+)/revisions/([1-9][0-9]*)$\<close>: the part after the scheme splits at
  \<open>/\<close> into exactly three pieces.
\<close>

definition match_revisions :: "string \<Rightarrow> string \<Rightarrow> (string \<times> string) option" where
  "match_revisions scheme text =
     (if \<not> starts_with scheme text then None
      else (case split_on (CHR ''/'') (drop (length scheme) text) of
          [nm, word, rv] \<Rightarrow>
            if nm \<noteq> [] \<and> word = ''revisions'' \<and> is_pos_dec rv then Some (nm, rv) else None
        | _ \<Rightarrow> None))"

definition match_two :: "string \<Rightarrow> string \<Rightarrow> (string \<times> string) option" where
  "match_two scheme text =
     (if \<not> starts_with scheme text then None
      else (case split_on (CHR ''/'') (drop (length scheme) text) of
          [a, b] \<Rightarrow> if a \<noteq> [] \<and> b \<noteq> [] then Some (a, b) else None
        | _ \<Rightarrow> None))"

definition reference_match :: "(string \<Rightarrow> (string \<times> string) option) \<Rightarrow> string \<Rightarrow> (string \<times> string) result" where
  "reference_match pat text =
     (if \<not> reference_text_ok text then Inl ArtifactEffectFormatError
      else (case pat text of
          None \<Rightarrow> Inl ArtifactEffectFormatError
        | Some (a, b) \<Rightarrow>
            if is_dot_part a \<or> is_dot_part b then Inl ArtifactEffectFormatError else Inr (a, b)))"

subsection \<open>Proposal references\<close>

record parsed_proposal_ref =
  pp_stage_id :: string
  pp_revision :: int

definition proposal_format :: "string \<Rightarrow> int \<Rightarrow> string result" where
  "proposal_format stage_id revision =
     rbind (stage_id_parse stage_id) (\<lambda>_.
     rbind (require_positive_revision revision) (\<lambda>_.
     Inr (''proposal://'' @ stage_id @ ''/revisions/'' @ dec (nat revision))))"

definition proposal_parse :: "string \<Rightarrow> parsed_proposal_ref result" where
  "proposal_parse text =
     rbind (reference_match (match_revisions ''proposal://'') text) (\<lambda>(stage_id, rv).
     rbind (stage_id_parse stage_id) (\<lambda>_.
     rbind (parse_revision rv) (\<lambda>r.
     Inr \<lparr>pp_stage_id = stage_id, pp_revision = r\<rparr>)))"

subsection \<open>Artifact and operation references\<close>

definition artifact_ref_format :: "string \<Rightarrow> int \<Rightarrow> string result" where
  "artifact_ref_format artifact_id revision =
     rbind (artifact_id_parse artifact_id) (\<lambda>_.
     rbind (require_positive_revision revision) (\<lambda>_.
     Inr (''artifact://'' @ artifact_id @ ''/revisions/'' @ dec (nat revision))))"

definition artifact_ref_parse :: "string \<Rightarrow> (string \<times> int) result" where
  "artifact_ref_parse text =
     rbind (reference_match (match_revisions ''artifact://'') text) (\<lambda>(artifact_id, rv).
     rbind (artifact_id_parse artifact_id) (\<lambda>_.
     rbind (parse_revision rv) (\<lambda>r. Inr (artifact_id, r))))"

definition operation_args_format :: "string \<Rightarrow> string result" where
  "operation_args_format operation_id =
     rbind (operation_id_parse operation_id) (\<lambda>_. Inr (''operation://'' @ operation_id @ ''/args''))"

definition operation_args_parse :: "string \<Rightarrow> string result" where
  "operation_args_parse text =
     rbind (reference_match (match_two ''operation://'') text) (\<lambda>(operation_id, word).
     if word \<noteq> ''args'' then Inl ArtifactEffectFormatError
     else rbind (operation_id_parse operation_id) (\<lambda>_. Inr operation_id))"

subsection \<open>Receipt references and workspace targets\<close>

record parsed_receipt_ref =
  pr_stage_id :: string
  pr_claim_id :: string

definition receipt_format :: "string \<Rightarrow> string \<Rightarrow> string result" where
  "receipt_format stage_id claim_id =
     rbind (stage_id_parse stage_id) (\<lambda>_.
     rbind (validate_claim_id claim_id) (\<lambda>_.
     Inr (''receipt://effects/'' @ stage_id @ ''/'' @ claim_id)))"

definition receipt_parse :: "string \<Rightarrow> parsed_receipt_ref result" where
  "receipt_parse text =
     rbind (reference_match (match_two ''receipt://effects/'') text) (\<lambda>(stage_id, claim_id).
     rbind (stage_id_parse stage_id) (\<lambda>_.
     rbind (validate_claim_id claim_id) (\<lambda>_.
     Inr \<lparr>pr_stage_id = stage_id, pr_claim_id = claim_id\<rparr>)))"

definition workspace_target_format :: "string \<Rightarrow> string \<Rightarrow> string result" where
  "workspace_target_format grant_id path_token =
     rbind (validate_opaque_token grant_id) (\<lambda>_.
     rbind (validate_opaque_token path_token) (\<lambda>_.
     Inr (''workspace-target://'' @ grant_id @ ''/'' @ path_token)))"

definition workspace_target_parse :: "string \<Rightarrow> (string \<times> string) result" where
  "workspace_target_parse text =
     rbind (reference_match (match_two ''workspace-target://'') text) (\<lambda>(grant_id, path_token).
     rbind (validate_opaque_token grant_id) (\<lambda>_.
     rbind (validate_opaque_token path_token) (\<lambda>_. Inr (grant_id, path_token))))"

subsection \<open>Ledger ids\<close>

definition ledger_sep :: char where "ledger_sep = CHR 0xB7"

definition ledger_id_format :: "string \<Rightarrow> int \<Rightarrow> string result" where
  "ledger_id_format run_id sequence_no =
     (if sequence_no < 1 then Inl LedgerIdFormatError
      else (let normalized = filter (\<lambda>c. c \<noteq> CHR ''-'') (lower run_id) in
        if length normalized < 3 then Inl LedgerIdFormatError
        else Inr (''r'' @ take 3 normalized @ [ledger_sep] @ dec_pad 3 (nat sequence_no))))"

definition ledger_id_parse :: "string \<Rightarrow> (string \<times> int) result" where
  "ledger_id_parse text =
     (case text of
        p # a # b # c # sep # seq \<Rightarrow>
          if p = CHR ''r'' \<and> list_all (\<lambda>x. is_lower x \<or> is_digit x) [a, b, c] \<and> sep = ledger_sep
             \<and> 3 \<le> length seq \<and> list_all is_digit seq
          then (if nat_of_dec seq = 0 then Inl ValidationError
                else Inr ([a, b, c], int (nat_of_dec seq)))
          else Inl LedgerIdFormatError
      | _ \<Rightarrow> Inl LedgerIdFormatError)"

section \<open>Round trips\<close>

lemma split_on_chars: "c \<in> set s \<Longrightarrow> c = x \<or> (\<exists>p \<in> set (split_on x s). c \<in> set p)"
  by (induction s) (auto split: list.splits)

lemma uuid_chars: "is_canonical_uuid u \<Longrightarrow> c \<in> set u \<Longrightarrow> is_lower_hex c \<or> c = CHR ''-''"
  using split_on_chars [of c u "CHR ''-''"]
  by (auto simp: is_canonical_uuid_def uuid_group_def list_all_iff split: list.splits)

lemma lower_hex_plain: "is_lower_hex c \<Longrightarrow> c \<noteq> CHR ''/'' \<and> \<not> is_space c \<and> c \<noteq> CHR ''.''"
  by (auto simp: is_lower_hex_def is_digit_def is_space_def code_def)

lemma prefixed_id_plain:
  assumes "prefixed_parse p t = Inr u" and "\<forall>c \<in> set p. c \<noteq> CHR ''/'' \<and> \<not> is_space c" and "p \<noteq> []"
    and "hd p \<noteq> CHR ''.''"
  shows "CHR ''/'' \<notin> set t \<and> (\<forall>c \<in> set t. \<not> is_space c) \<and> t \<noteq> [] \<and> \<not> is_dot_part t"
proof -
  from assms(1) have t: "t = p @ u" and u: "is_canonical_uuid u"
    by (auto simp: prefixed_parse_def parse_uuid_def starts_with_iff split: if_splits)
  have dash: "CHR ''-'' \<noteq> CHR ''/''" "\<not> is_space (CHR ''-'')" by (simp_all add: is_space_def code_def)
  have "\<forall>c \<in> set u. c \<noteq> CHR ''/'' \<and> \<not> is_space c"
    using uuid_chars [OF u] lower_hex_plain dash by metis
  with assms(2-4) t show ?thesis by (cases p) (auto simp: is_dot_part_def)
qed

lemma stage_id_plain:
  "stage_id_parse t = Inr u \<Longrightarrow> CHR ''/'' \<notin> set t \<and> (\<forall>c \<in> set t. \<not> is_space c) \<and> t \<noteq> [] \<and> \<not> is_dot_part t"
  unfolding stage_id_parse_def by (rule prefixed_id_plain) (auto simp: is_space_def code_def)

lemma artifact_id_plain:
  "artifact_id_parse t = Inr u \<Longrightarrow> CHR ''/'' \<notin> set t \<and> (\<forall>c \<in> set t. \<not> is_space c) \<and> t \<noteq> [] \<and> \<not> is_dot_part t"
  unfolding artifact_id_parse_def by (rule prefixed_id_plain) (auto simp: is_space_def code_def)

lemma uuid_length: "is_canonical_uuid u \<Longrightarrow> length u = 36"
proof -
  have len: "Suc (length s) = (\<Sum>p\<leftarrow>split_on x s. Suc (length p))" for s :: string and x
    by (induction s) (auto split: list.splits)
  assume "is_canonical_uuid u"
  with len [of u "CHR ''-''"] show ?thesis
    by (auto simp: is_canonical_uuid_def uuid_group_def split: list.splits)
qed

lemma dec_length_le: "n < 10 ^ k \<Longrightarrow> 0 < k \<Longrightarrow> length (dec n) \<le> k"
proof (induction n arbitrary: k rule: dec.induct)
  case (1 n)
  show ?case
  proof (cases "n < 10")
    case True
    with 1 show ?thesis by (simp add: dec.simps [of n])
  next
    case False
    with "1.prems" obtain j where k: "k = Suc j" and "0 < j"
      by (cases k; cases "k - 1") auto
    moreover from k "1.prems" have "n div 10 < 10 ^ j" by (simp add: less_mult_imp_div_less mult.commute)
    ultimately show ?thesis using False 1(1) [of j] by (simp add: dec.simps [of n])
  qed
qed

lemma revision_text:
  assumes "require_positive_revision r = Inr u"
  shows "is_pos_dec (dec (nat r))" and "parse_revision (dec (nat r)) = Inr r"
    and "length (dec (nat r)) \<le> 16" and "CHR ''/'' \<notin> set (dec (nat r))"
    and "\<forall>c \<in> set (dec (nat r)). \<not> is_space c" and "\<not> is_dot_part (dec (nat r))"
proof -
  from assms have r: "1 \<le> r" "r \<le> MAX_SAFE_INTEGER" by (auto simp: require_positive_revision_def)
  then show "is_pos_dec (dec (nat r))" by (simp add: is_pos_dec_dec)
  from r show "parse_revision (dec (nat r)) = Inr r"
    by (simp add: parse_revision_def nat_of_dec_dec require_positive_revision_def Let_def)
  from r show "length (dec (nat r)) \<le> 16"
    by (intro dec_length_le) (simp_all add: MAX_SAFE_INTEGER_def nat_less_iff)
  show "CHR ''/'' \<notin> set (dec (nat r))" and "\<forall>c \<in> set (dec (nat r)). \<not> is_space c"
    using digits_no_slash digits_no_space dec_digits by blast+
  show "\<not> is_dot_part (dec (nat r))"
    using dec_digits [of "nat r"] by (auto simp: is_dot_part_def is_digit_def code_def)
qed

lemma match_revisions_text:
  assumes "CHR ''/'' \<notin> set i" and "i \<noteq> []" and "is_pos_dec d" and "CHR ''/'' \<notin> set d"
  shows "match_revisions sch (sch @ i @ ''/revisions/'' @ d) = Some (i, d)"
proof -
  have "split_on (CHR ''/'') (''revisions'' @ CHR ''/'' # d) = [''revisions'', d]"
    using assms by (subst split_on_append) (simp_all add: split_on_none)
  with assms have "split_on (CHR ''/'') (i @ CHR ''/'' # ''revisions'' @ CHR ''/'' # d) = [i, ''revisions'', d]"
    by (subst split_on_append) simp_all
  then have "split_on (CHR ''/'') (i @ ''/revisions/'' @ d) = [i, ''revisions'', d]" by simp
  with assms show ?thesis by (simp add: match_revisions_def)
qed

lemma reference_matchI:
  assumes "pat t = Some (a, b)" and "length t \<le> MAX_REFERENCE_LENGTH"
    and "\<forall>c \<in> set t. \<not> is_space c" and "\<not> is_dot_part a" and "\<not> is_dot_part b"
  shows "reference_match pat t = Inr (a, b)"
  using assms by (simp add: reference_match_def reference_text_ok_def strip_no_space)

lemma proposal_format_parse:
  assumes "proposal_format sid r = Inr t"
  shows "proposal_parse t = Inr \<lparr>pp_stage_id = sid, pp_revision = r\<rparr>"
proof -
  from assms obtain u v where sid: "stage_id_parse sid = Inr u"
    and rv: "require_positive_revision r = Inr v"
    and t: "t = ''proposal://'' @ sid @ ''/revisions/'' @ dec (nat r)"
    by (auto simp: proposal_format_def rbind_Inr_iff)
  note p = stage_id_plain [OF sid] and d = revision_text [OF rv]
  have m: "match_revisions ''proposal://'' t = Some (sid, dec (nat r))"
    unfolding t using p d by (intro match_revisions_text) auto
  from stage_id_parse_shape [OF sid] uuid_length have "length sid = 40" by auto
  with d(3) have l: "length t \<le> MAX_REFERENCE_LENGTH" by (simp add: t MAX_REFERENCE_LENGTH_def)
  have s: "\<forall>c \<in> set t. \<not> is_space c"
    using p d(5) by (auto simp: t is_space_def code_def)
  from reference_matchI [of "match_revisions ''proposal://''" t sid "dec (nat r)", OF m l s] p d(6) sid d(2) show ?thesis
    by (simp add: proposal_parse_def)
qed

lemma split_on_join3: "split_on x s = [a, b, c] \<Longrightarrow> s = a @ x # b @ x # c"
  by (drule split_on_join) simp

lemma dec_cons_step: "0 < nat_of_dec s \<Longrightarrow> is_digit c \<Longrightarrow> dec (10 * nat_of_dec s + digit_val c) = dec (nat_of_dec s) @ [c]"
proof -
  assume p: "0 < nat_of_dec s" and c: "is_digit c"
  then have v: "digit_val c \<le> 9" and ch: "char_of (digit_val c + 48) = c"
    by (auto simp: digit_val_def is_digit_def code_def)
  from p have "\<not> 10 * nat_of_dec s + digit_val c < 10" by simp
  moreover from v have "(10 * nat_of_dec s + digit_val c) div 10 = nat_of_dec s" and
    "(10 * nat_of_dec s + digit_val c) mod 10 = digit_val c" by presburger+
  ultimately show ?thesis using ch by (subst dec.simps) simp
qed

lemma dec_nat_of_dec: "is_pos_dec s \<Longrightarrow> dec (nat_of_dec s) = s \<and> 0 < nat_of_dec s"
proof (induction s rule: rev_induct)
  case Nil
  then show ?case by (simp add: is_pos_dec_def)
next
  case (snoc c s)
  show ?case
  proof (cases "s = []")
    case True
    with snoc.prems have "is_digit c" "code c \<noteq> 48" by (auto simp: is_pos_dec_def)
    with True show ?thesis
      by (auto simp: nat_of_dec_def digit_val_def is_digit_def dec.simps code_def)
  next
    case False
    with snoc.prems have "is_pos_dec s" and "is_digit c"
      by (cases s; auto simp: is_pos_dec_def)+
    with snoc.IH dec_cons_step [of s c] show ?thesis by (simp add: nat_of_dec_snoc)
  qed
qed

lemma proposal_parse_canonical:
  assumes "proposal_parse t = Inr p"
  shows "proposal_format (pp_stage_id p) (pp_revision p) = Inr t"
proof -
  from assms obtain sid d r u where m: "match_revisions ''proposal://'' t = Some (sid, d)"
    and sid: "stage_id_parse sid = Inr u" and r: "parse_revision d = Inr r"
    and p: "p = \<lparr>pp_stage_id = sid, pp_revision = r\<rparr>"
    by (auto simp: proposal_parse_def reference_match_def rbind_Inr_iff split: if_splits option.splits)
  from m have st: "starts_with ''proposal://'' t"
    by (simp add: match_revisions_def split: if_splits)
  from m have sp: "split_on (CHR ''/'') (drop (length ''proposal://'') t) = [sid, ''revisions'', d]"
    and pd: "is_pos_dec d"
    by (auto simp: match_revisions_def split: if_splits list.splits)
  from st obtain z where t: "t = ''proposal://'' @ z" by (auto simp: starts_with_iff)
  with split_on_join3 [OF sp] have z: "z = sid @ ''/revisions/'' @ d" by simp
  from r have r': "r = int (nat_of_dec d)" and q: "require_positive_revision r = Inr ()"
    by (auto simp: parse_revision_def rbind_Inr_iff Let_def)
  with dec_nat_of_dec [OF pd] sid p t z show ?thesis
    by (simp add: proposal_format_def)
qed

lemma split_two: "CHR ''/'' \<notin> set a \<Longrightarrow> CHR ''/'' \<notin> set b \<Longrightarrow> split_on (CHR ''/'') (a @ CHR ''/'' # b) = [a, b]"
  by (simp add: split_on_append split_on_none)

lemma claim_id_plain:
  "validate_claim_id s = Inr u \<Longrightarrow>
     CHR ''/'' \<notin> set s \<and> (\<forall>c \<in> set s. \<not> is_space c) \<and> s \<noteq> [] \<and> \<not> is_dot_part s \<and> length s \<le> 128"
  by (auto simp: validate_claim_id_def list_all_iff is_claim_id_char_def is_lower_def is_digit_def
      is_space_def code_def is_dot_part_def CLAIM_ID_MAX_LENGTH_def)

lemma receipt_format_parse:
  assumes "receipt_format sid cid = Inr t"
  shows "receipt_parse t = Inr \<lparr>pr_stage_id = sid, pr_claim_id = cid\<rparr>"
proof -
  from assms obtain u v where sid: "stage_id_parse sid = Inr u"
    and cid: "validate_claim_id cid = Inr v"
    and t: "t = ''receipt://effects/'' @ sid @ ''/'' @ cid"
    by (auto simp: receipt_format_def rbind_Inr_iff)
  note p = stage_id_plain [OF sid] and q = claim_id_plain [OF cid]
  have m: "match_two ''receipt://effects/'' t = Some (sid, cid)"
    using p q split_two [of sid cid] by (simp add: t match_two_def)
  from stage_id_parse_shape [OF sid] uuid_length have "length sid = 40" by auto
  with q have l: "length t \<le> MAX_REFERENCE_LENGTH" by (simp add: t MAX_REFERENCE_LENGTH_def)
  have s: "\<forall>c \<in> set t. \<not> is_space c" using p q by (auto simp: t is_space_def code_def)
  from reference_matchI [of "match_two ''receipt://effects/''" t sid cid, OF m l s] p q sid cid show ?thesis by (simp add: receipt_parse_def)
qed

lemma opaque_token_plain:
  "validate_opaque_token s = Inr u \<Longrightarrow>
     CHR ''/'' \<notin> set s \<and> (\<forall>c \<in> set s. \<not> is_space c) \<and> s \<noteq> [] \<and> \<not> is_dot_part s \<and> length s \<le> 256"
  by (auto simp: validate_opaque_token_def list_all_iff is_alnum_def is_alpha_def is_lower_def
      is_upper_def is_digit_def is_space_def code_def is_dot_part_def)

lemma workspace_target_format_parse:
  assumes "workspace_target_format g k = Inr t"
  shows "workspace_target_parse t = Inr (g, k)"
proof -
  from assms obtain u v where g: "validate_opaque_token g = Inr u"
    and k: "validate_opaque_token k = Inr v" and t: "t = ''workspace-target://'' @ g @ ''/'' @ k"
    by (auto simp: workspace_target_format_def rbind_Inr_iff)
  note p = opaque_token_plain [OF g] and q = opaque_token_plain [OF k]
  have m: "match_two ''workspace-target://'' t = Some (g, k)"
    using p q split_two [of g k] by (simp add: t match_two_def)
  have l: "length t \<le> MAX_REFERENCE_LENGTH" using p q by (simp add: t MAX_REFERENCE_LENGTH_def)
  have s: "\<forall>c \<in> set t. \<not> is_space c" using p q by (auto simp: t is_space_def code_def)
  from reference_matchI [of "match_two ''workspace-target://''" t g k, OF m l s] p q g k show ?thesis by (simp add: workspace_target_parse_def)
qed

end
