(* ===== verification/LedgerModels.thy ===== *)
theory LedgerModels
  imports LedgerIds
begin

text \<open>
  The effect vocabulary of \<open>agent_runtime/surfaces_v2/ledger_models.py\<close> and \<open>entities.py\<close>:
  the closed enumerations with their wire values, the reference validators and, for every effect
  event, the payload model that an append validates. A payload model is a table of fields (name,
  required, check) plus the model's cross-field validator; pydantic refuses extra keys, and
  \<open>model_dump(exclude_none=True)\<close> writes the fields in declaration order without nulls. The
  coercions of pydantic's lax mode (an integer written as digits, say) have no counterpart: every
  writer in the source passes values of the declared types.
\<close>

section \<open>Enumerations\<close>

datatype effect_class = NONE | INTERNAL_REVERSIBLE | EXTERNAL_REVERSIBLE | EXTERNAL_DESTRUCTIVE | UNKNOWN
datatype effect_policy = AUTO | ASK | REQUIRE | BLOCK
datatype effect_decision_kind = APPROVE | REJECT | RESTORE | CANCEL
datatype effect_actor = USER | POLICY | SYSTEM
datatype effect_outcome =
  APPLIED | PARTIAL | FAILED | CANCELLED_OUTCOME | INDETERMINATE_OUTCOME | ALREADY_APPLIED | PRECONDITION_DRIFT
datatype effect_executor_kind = MCP | WORKSPACE | BROWSER | SANDBOX | BUILTIN
datatype effect_proposal_kind =
  CANONICAL_ARGUMENTS | ARTIFACT_REVISION | WORKSPACE_CHANGE_SET | ROW_SET | BROWSER_SUBMISSION
  | SANDBOX_PATCH | BUILTIN_PAYLOAD
datatype row_outcome = ROW_APPLIED | ROW_FAILED

fun effect_class_value :: "effect_class \<Rightarrow> string" where
  "effect_class_value NONE = ''none''"
| "effect_class_value INTERNAL_REVERSIBLE = ''internal_reversible''"
| "effect_class_value EXTERNAL_REVERSIBLE = ''external_reversible''"
| "effect_class_value EXTERNAL_DESTRUCTIVE = ''external_destructive''"
| "effect_class_value UNKNOWN = ''unknown''"

fun effect_policy_value :: "effect_policy \<Rightarrow> string" where
  "effect_policy_value AUTO = ''auto''"
| "effect_policy_value ASK = ''ask''"
| "effect_policy_value REQUIRE = ''require''"
| "effect_policy_value BLOCK = ''block''"

fun decision_kind_value :: "effect_decision_kind \<Rightarrow> string" where
  "decision_kind_value APPROVE = ''approve''"
| "decision_kind_value REJECT = ''reject''"
| "decision_kind_value RESTORE = ''restore''"
| "decision_kind_value CANCEL = ''cancel''"

fun effect_actor_value :: "effect_actor \<Rightarrow> string" where
  "effect_actor_value USER = ''user''"
| "effect_actor_value POLICY = ''policy''"
| "effect_actor_value SYSTEM = ''system''"

fun effect_outcome_value :: "effect_outcome \<Rightarrow> string" where
  "effect_outcome_value APPLIED = ''applied''"
| "effect_outcome_value PARTIAL = ''partial''"
| "effect_outcome_value FAILED = ''failed''"
| "effect_outcome_value CANCELLED_OUTCOME = ''cancelled''"
| "effect_outcome_value INDETERMINATE_OUTCOME = ''indeterminate''"
| "effect_outcome_value ALREADY_APPLIED = ''already_applied''"
| "effect_outcome_value PRECONDITION_DRIFT = ''precondition_drift''"

fun executor_kind_value :: "effect_executor_kind \<Rightarrow> string" where
  "executor_kind_value MCP = ''mcp''"
| "executor_kind_value WORKSPACE = ''workspace''"
| "executor_kind_value BROWSER = ''browser''"
| "executor_kind_value SANDBOX = ''sandbox''"
| "executor_kind_value BUILTIN = ''builtin''"

fun proposal_kind_value :: "effect_proposal_kind \<Rightarrow> string" where
  "proposal_kind_value CANONICAL_ARGUMENTS = ''canonical_arguments''"
| "proposal_kind_value ARTIFACT_REVISION = ''artifact_revision''"
| "proposal_kind_value WORKSPACE_CHANGE_SET = ''workspace_change_set''"
| "proposal_kind_value ROW_SET = ''row_set''"
| "proposal_kind_value BROWSER_SUBMISSION = ''browser_submission''"
| "proposal_kind_value SANDBOX_PATCH = ''sandbox_patch''"
| "proposal_kind_value BUILTIN_PAYLOAD = ''builtin_payload''"

fun row_outcome_value :: "row_outcome \<Rightarrow> string" where
  "row_outcome_value ROW_APPLIED = ''applied''"
| "row_outcome_value ROW_FAILED = ''failed''"

text \<open>\<open>EffectPolicy(text)\<close> and its like: the member with that value, or \<open>ValueError\<close>.\<close>

definition by_value :: "('a \<Rightarrow> string) \<Rightarrow> 'a list \<Rightarrow> string \<Rightarrow> 'a result" where
  "by_value val members = enum_of (map (\<lambda>x. (val x, x)) members)"

definition effect_class_of :: "string \<Rightarrow> effect_class result" where
  "effect_class_of = by_value effect_class_value
     [NONE, INTERNAL_REVERSIBLE, EXTERNAL_REVERSIBLE, EXTERNAL_DESTRUCTIVE, UNKNOWN]"

definition effect_policy_of :: "string \<Rightarrow> effect_policy result" where
  "effect_policy_of = by_value effect_policy_value [AUTO, ASK, REQUIRE, BLOCK]"

definition decision_kind_of :: "string \<Rightarrow> effect_decision_kind result" where
  "decision_kind_of = by_value decision_kind_value [APPROVE, REJECT, RESTORE, CANCEL]"

definition effect_actor_of :: "string \<Rightarrow> effect_actor result" where
  "effect_actor_of = by_value effect_actor_value [USER, POLICY, SYSTEM]"

definition effect_outcome_of :: "string \<Rightarrow> effect_outcome result" where
  "effect_outcome_of = by_value effect_outcome_value
     [APPLIED, PARTIAL, FAILED, CANCELLED_OUTCOME, INDETERMINATE_OUTCOME, ALREADY_APPLIED, PRECONDITION_DRIFT]"

definition executor_kind_of :: "string \<Rightarrow> effect_executor_kind result" where
  "executor_kind_of = by_value executor_kind_value [MCP, WORKSPACE, BROWSER, SANDBOX, BUILTIN]"

definition proposal_kind_of :: "string \<Rightarrow> effect_proposal_kind result" where
  "proposal_kind_of = by_value proposal_kind_value
     [CANONICAL_ARGUMENTS, ARTIFACT_REVISION, WORKSPACE_CHANGE_SET, ROW_SET, BROWSER_SUBMISSION,
      SANDBOX_PATCH, BUILTIN_PAYLOAD]"

definition row_outcome_of :: "string \<Rightarrow> row_outcome result" where
  "row_outcome_of = by_value row_outcome_value [ROW_APPLIED, ROW_FAILED]"

lemma enum_round_trip [simp]:
  "effect_class_of (effect_class_value a) = Inr a"
  "effect_policy_of (effect_policy_value b) = Inr b"
  "decision_kind_of (decision_kind_value c) = Inr c"
  "effect_actor_of (effect_actor_value d) = Inr d"
  "effect_outcome_of (effect_outcome_value e) = Inr e"
  "executor_kind_of (executor_kind_value f) = Inr f"
  "proposal_kind_of (proposal_kind_value g) = Inr g"
  "row_outcome_of (row_outcome_value h) = Inr h"
proof -
  show "effect_class_of (effect_class_value a) = Inr a"
    by (cases a) (simp_all add: effect_class_of_def by_value_def enum_of_def)
  show "effect_policy_of (effect_policy_value b) = Inr b"
    by (cases b) (simp_all add: effect_policy_of_def by_value_def enum_of_def)
  show "decision_kind_of (decision_kind_value c) = Inr c"
    by (cases c) (simp_all add: decision_kind_of_def by_value_def enum_of_def)
  show "effect_actor_of (effect_actor_value d) = Inr d"
    by (cases d) (simp_all add: effect_actor_of_def by_value_def enum_of_def)
  show "effect_outcome_of (effect_outcome_value e) = Inr e"
    by (cases e) (simp_all add: effect_outcome_of_def by_value_def enum_of_def)
  show "executor_kind_of (executor_kind_value f) = Inr f"
    by (cases f) (simp_all add: executor_kind_of_def by_value_def enum_of_def)
  show "proposal_kind_of (proposal_kind_value g) = Inr g"
    by (cases g) (simp_all add: proposal_kind_of_def by_value_def enum_of_def)
  show "row_outcome_of (row_outcome_value h) = Inr h"
    by (cases h) (simp_all add: row_outcome_of_def by_value_def enum_of_def)
qed

text \<open>The order of \<open>EffectPolicy\<close> by restrictiveness is a linear order.\<close>

fun policy_rank :: "effect_policy \<Rightarrow> nat" where
  "policy_rank AUTO = 0"
| "policy_rank ASK = 1"
| "policy_rank REQUIRE = 2"
| "policy_rank BLOCK = 3"

lemma policy_rank_inj [simp]: "policy_rank p = policy_rank q \<longleftrightarrow> p = q"
  by (cases p; cases q) simp_all

instantiation effect_policy :: linorder
begin

definition less_eq_effect_policy :: "effect_policy \<Rightarrow> effect_policy \<Rightarrow> bool" where
  "p \<le> q \<longleftrightarrow> policy_rank p \<le> policy_rank q"

definition less_effect_policy :: "effect_policy \<Rightarrow> effect_policy \<Rightarrow> bool" where
  "p < q \<longleftrightarrow> policy_rank p < policy_rank q"

instance
  by standard (auto simp: less_eq_effect_policy_def less_effect_policy_def)

end

section \<open>Event types\<close>

definition EFFECT_STAGED :: string where "EFFECT_STAGED = ''effect.staged''"
definition EFFECT_PROJECTION_BOUND :: string where "EFFECT_PROJECTION_BOUND = ''effect.projection_bound''"
definition EFFECT_REVISED :: string where "EFFECT_REVISED = ''effect.revised''"
definition EFFECT_DECISION_RECORDED :: string where "EFFECT_DECISION_RECORDED = ''effect.decision_recorded''"
definition EFFECT_CLAIMED :: string where "EFFECT_CLAIMED = ''effect.claimed''"
definition EFFECT_APPLIED :: string where "EFFECT_APPLIED = ''effect.applied''"
definition EFFECT_INDETERMINATE :: string where "EFFECT_INDETERMINATE = ''effect.indeterminate''"
definition EFFECT_RECONCILED :: string where "EFFECT_RECONCILED = ''effect.reconciled''"
definition EFFECT_ROW_DECISIONS_RECORDED :: string where
  "EFFECT_ROW_DECISIONS_RECORDED = ''effect.row_decisions_recorded''"

lemmas event_type_defs =
  EFFECT_STAGED_def EFFECT_PROJECTION_BOUND_def EFFECT_REVISED_def EFFECT_DECISION_RECORDED_def
  EFFECT_CLAIMED_def EFFECT_APPLIED_def EFFECT_INDETERMINATE_def EFFECT_RECONCILED_def
  EFFECT_ROW_DECISIONS_RECORDED_def

section \<open>Reference validators\<close>

definition is_sha256_hex :: "string \<Rightarrow> bool" where
  "is_sha256_hex s \<longleftrightarrow> length s = 64 \<and> list_all is_lower_hex s"

definition forbidden_schemes :: "string list" where
  "forbidden_schemes = [''file'', ''filesystem'', ''data'', ''http'', ''https'']"

definition drive_path :: "string \<Rightarrow> bool" where
  "drive_path s \<longleftrightarrow> 3 \<le> length s \<and> take 2 (drop 1 s) \<in> {'':/'', [CHR '':'', CHR 0x5C]}"

definition has_dot_segment :: "string \<Rightarrow> bool" where
  "has_dot_segment s \<longleftrightarrow> list_ex is_dot_part (split_on (CHR ''/'') s)"

definition url_dot_segment :: "url \<Rightarrow> bool" where
  "url_dot_segment p \<longleftrightarrow> has_dot_segment (u_netloc p) \<or> has_dot_segment (u_path p)
     \<or> has_dot_segment (u_query p) \<or> has_dot_segment (u_fragment p)"

definition opaque_safe_uri :: "string \<Rightarrow> bool" where
  "opaque_safe_uri value =
     (let decoded = unquote_all value;
          normalised = replace_char (CHR 0x5C) (CHR ''/'') decoded
      in case (urlsplit value, urlsplit decoded) of
        (Inr parsed, Inr decoded_parts) \<Rightarrow>
          value \<noteq> [] \<and> length value \<le> MAX_REFERENCE_LENGTH \<and> value = strip value
          \<and> CHR 0x0A \<notin> set value \<and> CHR 0x0D \<notin> set value \<and> contains ''://'' value
          \<and> \<not> starts_any [''/'', ''~'', [CHR 0x5C]] value
          \<and> u_scheme parsed \<noteq> [] \<and> u_netloc parsed \<noteq> [] \<and> u_query parsed = [] \<and> u_fragment parsed = []
          \<and> lower (u_scheme parsed) \<notin> set forbidden_schemes
          \<and> \<not> drive_path value
          \<and> \<not> starts_any [''/'', ''~''] normalised
          \<and> u_query decoded_parts = [] \<and> u_fragment decoded_parts = []
          \<and> lower (u_scheme decoded_parts) \<notin> set forbidden_schemes
          \<and> \<not> (3 \<le> length normalised \<and> take 2 (drop 1 normalised) = '':/'')
          \<and> CHR 0x00 \<notin> set normalised \<and> CHR 0x5C \<notin> set decoded
          \<and> \<not> starts_with ''//'' (u_path decoded_parts)
          \<and> \<not> url_dot_segment decoded_parts
      | _ \<Rightarrow> False)"

definition immutable_content_ref :: "string \<Rightarrow> bool" where
  "immutable_content_ref value \<longleftrightarrow> opaque_safe_uri value \<and> \<not> starts_with ''proposal://'' (lower value)"

definition target_reference_ok :: "string \<Rightarrow> bool" where
  "target_reference_ok value \<longleftrightarrow>
     value \<noteq> [] \<and> length value \<le> MAX_REFERENCE_LENGTH \<and> value = strip value \<and> contains ''://'' value
     \<and> \<not> starts_any [''/'', ''~'', [CHR 0x5C]] value
     \<and> \<not> starts_any [''file://'', ''filesystem://''] (lower value)
     \<and> \<not> drive_path value \<and> \<not> has_dot_segment value"

section \<open>Payload models\<close>

type_synonym field_spec = "string \<times> bool \<times> (json \<Rightarrow> bool)"

fun str_such :: "(string \<Rightarrow> bool) \<Rightarrow> json \<Rightarrow> bool" where
  "str_such p (JStr s) = p s"
| "str_such p _ = False"

fun is_jbool :: "json \<Rightarrow> bool" where
  "is_jbool (JBool b) = True"
| "is_jbool _ = False"

fun safe_positive_int :: "json \<Rightarrow> bool" where
  "safe_positive_int (JInt i) = (1 \<le> i \<and> i \<le> MAX_SAFE_INTEGER)"
| "safe_positive_int _ = False"

definition short_text :: "nat \<Rightarrow> json \<Rightarrow> bool" where
  "short_text n = str_such (\<lambda>s. s \<noteq> [] \<and> length s \<le> n)"

definition is_media_name :: "string \<Rightarrow> bool" where
  "is_media_name s \<longleftrightarrow> s \<noteq> [] \<and> is_alnum (hd s)
     \<and> list_all (\<lambda>c. is_alnum c \<or> c \<in> {CHR ''.'', CHR ''+'', CHR ''-''}) s"

definition is_media_type :: "string \<Rightarrow> bool" where
  "is_media_type s =
     (case split_on (CHR ''/'') s of [a, b] \<Rightarrow> is_media_name a \<and> is_media_name b | _ \<Rightarrow> False)"

definition is_claim_id_text :: "string \<Rightarrow> bool" where
  "is_claim_id_text s \<longleftrightarrow> ok (validate_claim_id s)"

text \<open>The fields \<open>v\<close> and \<open>w\<close> of every payload.\<close>

definition base_fields :: "field_spec list" where
  "base_fields =
     [(''v'', True, \<lambda>j. j = JInt 1),
      (''w'', False, str_such (\<lambda>s. s = ''runtime.v2.1''))]"

definition fields_ok :: "field_spec list \<Rightarrow> dict \<Rightarrow> bool" where
  "fields_ok specs d \<longleftrightarrow>
     distinct (map fst d) \<and> list_all (\<lambda>(k, _). k \<in> set (map fst specs)) d
     \<and> list_all (\<lambda>(k, needed, chk).
          case map_of d k of
            None \<Rightarrow> \<not> needed
          | Some v \<Rightarrow> chk v \<or> (\<not> needed \<and> v = JNull)) specs"

fun drop_none :: "json \<Rightarrow> json" where
  "drop_none (JArr xs) = JArr (map drop_none xs)"
| "drop_none (JObj kvs) = JObj (filter (\<lambda>(k, v). v \<noteq> JNull) (map (\<lambda>(k, v). (k, drop_none v)) kvs))"
| "drop_none j = j"

definition dump_fields :: "field_spec list \<Rightarrow> dict \<Rightarrow> dict" where
  "dump_fields specs d = concat (map (\<lambda>(k, _). case map_of d k of
       None \<Rightarrow> [] | Some v \<Rightarrow> if v = JNull then [] else [(k, drop_none v)]) specs)"

definition str_field :: "dict \<Rightarrow> string \<Rightarrow> string" where
  "str_field d k = (case dget d k JNull of JStr s \<Rightarrow> s | _ \<Rightarrow> [])"

definition int_field :: "dict \<Rightarrow> string \<Rightarrow> int" where
  "int_field d k = (case dget d k JNull of JInt i \<Rightarrow> i | _ \<Rightarrow> 0)"

definition stage_id_field :: "field_spec" where
  "stage_id_field = (''stage_id'', True, str_such (\<lambda>s. ok (stage_id_parse s)))"

definition digest_field :: "string \<Rightarrow> bool \<Rightarrow> field_spec" where
  "digest_field k needed = (k, needed, str_such is_sha256_hex)"

definition safe_ref_field :: "string \<Rightarrow> field_spec" where
  "safe_ref_field k = (k, False, str_such opaque_safe_uri)"

definition staged_fields :: "field_spec list" where
  "staged_fields = base_fields @
     [stage_id_field,
      (''operation_id'', True, str_such (\<lambda>s. ok (operation_id_parse s))),
      (''executor'', True, str_such (\<lambda>s. ok (executor_kind_of s))),
      (''target_ref'', True, str_such (\<lambda>s. True)),
      digest_field ''target_digest'' True,
      (''proposal_ref'', True, str_such (\<lambda>s. True)),
      digest_field ''proposal_digest'' True,
      (''policy'', True, str_such (\<lambda>s. ok (effect_policy_of s))),
      (''capability'', False, short_text 128),
      (''op'', False, short_text 128),
      (''display_target'', False, short_text 512),
      (''proposal_kind'', False, str_such (\<lambda>s. ok (proposal_kind_of s))),
      (''proposal_content_ref'', False, str_such immutable_content_ref),
      (''proposal_media_type'', False, str_such is_media_type),
      safe_ref_field ''precondition_ref'',
      digest_field ''precondition_digest'' False,
      (''effect_class'', False, str_such (\<lambda>s. ok (effect_class_of s))),
      safe_ref_field ''policy_snapshot_ref'',
      (''agent_hold'', False, is_jbool),
      safe_ref_field ''safe_summary_ref'',
      (''projection_required'', False, is_jbool),
      safe_ref_field ''owner_ref'',
      (''author_actor'', False, str_such (\<lambda>s. ok (effect_actor_of s))),
      safe_ref_field ''author_ref'',
      (''created_at'', False, short_text 128)]"

definition staged_payload_ok :: "dict \<Rightarrow> bool" where
  "staged_payload_ok d \<longleftrightarrow> fields_ok staged_fields d
     \<and> opaque_safe_uri (str_field d ''target_ref'')
     \<and> (str_field d ''executor'' = ''workspace'' \<longrightarrow> ok (workspace_target_parse (str_field d ''target_ref'')))
     \<and> (case proposal_parse (str_field d ''proposal_ref'') of
          Inl _ \<Rightarrow> False
        | Inr p \<Rightarrow> pp_stage_id p = str_field d ''stage_id'' \<and> pp_revision p = 1)"

definition artifact_authors :: "string list" where
  "artifact_authors = [''model'', ''subagent'', ''user'', ''system'', ''import'']"

definition revised_fields :: "field_spec list" where
  "revised_fields = base_fields @
     [stage_id_field,
      (''revision'', True, safe_positive_int),
      (''proposal_ref'', True, str_such (\<lambda>s. True)),
      digest_field ''proposal_digest'' True,
      (''author'', False, str_such (\<lambda>s. s \<in> set artifact_authors)),
      (''proposal_kind'', False, str_such (\<lambda>s. ok (proposal_kind_of s))),
      (''proposal_content_ref'', False, str_such immutable_content_ref),
      (''proposal_media_type'', False, str_such is_media_type),
      safe_ref_field ''target_ref'',
      digest_field ''target_digest'' False,
      (''display_target'', False, short_text 512),
      safe_ref_field ''precondition_ref'',
      digest_field ''precondition_digest'' False,
      safe_ref_field ''safe_diff_ref'',
      (''author_actor'', False, str_such (\<lambda>s. ok (effect_actor_of s))),
      safe_ref_field ''author_ref'',
      (''created_at'', False, short_text 128)]"

definition revised_payload_ok :: "dict \<Rightarrow> bool" where
  "revised_payload_ok d \<longleftrightarrow> fields_ok revised_fields d
     \<and> (case proposal_parse (str_field d ''proposal_ref'') of
          Inl _ \<Rightarrow> False
        | Inr p \<Rightarrow> pp_stage_id p = str_field d ''stage_id'' \<and> pp_revision p = int_field d ''revision'')"

definition projection_bound_fields :: "field_spec list" where
  "projection_bound_fields = base_fields @
     [stage_id_field,
      (''revision'', True, safe_positive_int),
      (''projection_ref'', True, str_such opaque_safe_uri),
      digest_field ''proposal_digest'' True,
      digest_field ''target_digest'' True,
      (''bound_at'', True, short_text 128)]"

text \<open>A non-empty array of distinct row keys.\<close>

fun json_strs :: "json list \<Rightarrow> string list option" where
  "json_strs [] = Some []"
| "json_strs (JStr s # js) = map_option ((#) s) (json_strs js)"
| "json_strs _ = None"

fun row_keys_ok :: "json \<Rightarrow> bool" where
  "row_keys_ok (JArr js) =
     (case json_strs js of
        None \<Rightarrow> False
      | Some ks \<Rightarrow> ks \<noteq> [] \<and> distinct ks \<and> list_all (\<lambda>k. k \<noteq> [] \<and> length k \<le> 256) ks)"
| "row_keys_ok _ = False"

definition decision_recorded_fields :: "field_spec list" where
  "decision_recorded_fields = base_fields @
     [stage_id_field,
      (''revision'', True, safe_positive_int),
      (''decision'', True, str_such (\<lambda>s. ok (decision_kind_of s))),
      (''actor'', True, str_such (\<lambda>s. ok (effect_actor_of s))),
      digest_field ''proposal_digest'' True,
      digest_field ''target_digest'' True,
      safe_ref_field ''actor_ref'',
      (''decided_at'', False, short_text 128),
      (''row_keys'', False, row_keys_ok)]"

definition row_decision_fields :: "field_spec list" where
  "row_decision_fields =
     [(''row_key'', True, short_text 256),
      (''decision'', True, str_such (\<lambda>s. s = ''approve'' \<or> s = ''hold''))]"

text \<open>Objects of one shape in an array, their row keys distinct.\<close>

fun objects_of :: "field_spec list \<Rightarrow> json list \<Rightarrow> dict list option" where
  "objects_of specs [] = Some []"
| "objects_of specs (JObj d # js) =
     (if fields_ok specs d then map_option ((#) d) (objects_of specs js) else None)"
| "objects_of specs _ = None"

definition row_keys_of :: "dict list \<Rightarrow> string list" where
  "row_keys_of ds = map (\<lambda>d. str_field d ''row_key'') ds"

fun row_decisions_ok :: "json \<Rightarrow> bool" where
  "row_decisions_ok (JArr js) =
     (case objects_of row_decision_fields js of
        None \<Rightarrow> False
      | Some ds \<Rightarrow> ds \<noteq> [] \<and> distinct (row_keys_of ds))"
| "row_decisions_ok _ = False"

definition row_decisions_recorded_fields :: "field_spec list" where
  "row_decisions_recorded_fields = base_fields @
     [stage_id_field,
      (''revision'', True, safe_positive_int),
      (''decisions'', True, row_decisions_ok),
      (''actor'', True, str_such (\<lambda>s. ok (effect_actor_of s))),
      digest_field ''proposal_digest'' True,
      digest_field ''target_digest'' True,
      safe_ref_field ''actor_ref'',
      (''decided_at'', False, short_text 128)]"

definition claimed_fields :: "field_spec list" where
  "claimed_fields = base_fields @
     [stage_id_field,
      (''revision'', True, safe_positive_int),
      (''claim_id'', True, str_such is_claim_id_text),
      (''executor'', True, str_such (\<lambda>s. ok (executor_kind_of s))),
      (''attempt'', True, safe_positive_int)]"

definition row_result_fields :: "field_spec list" where
  "row_result_fields =
     [(''row_key'', True, str_such (\<lambda>s. True)),
      (''outcome'', True, str_such (\<lambda>s. ok (row_outcome_of s))),
      (''detail'', False, str_such (\<lambda>s. True))]"

fun row_results_ok :: "json \<Rightarrow> bool" where
  "row_results_ok (JArr js) = (objects_of row_result_fields js \<noteq> None)"
| "row_results_ok _ = False"

definition applied_fields :: "field_spec list" where
  "applied_fields = base_fields @
     [stage_id_field,
      (''revision'', True, safe_positive_int),
      (''outcome'', True, str_such (\<lambda>s. ok (effect_outcome_of s))),
      (''receipt_ref'', False, str_such (\<lambda>s. True)),
      digest_field ''result_digest'' False,
      (''row_results'', False, row_results_ok)]"

definition applied_payload_ok :: "dict \<Rightarrow> bool" where
  "applied_payload_ok d \<longleftrightarrow> fields_ok applied_fields d
     \<and> (case dget d ''receipt_ref'' JNull of
          JStr r \<Rightarrow> (case receipt_parse r of
              Inl _ \<Rightarrow> False | Inr p \<Rightarrow> pr_stage_id p = str_field d ''stage_id'')
        | _ \<Rightarrow> True)"

definition indeterminate_fields :: "field_spec list" where
  "indeterminate_fields = base_fields @
     [stage_id_field,
      (''revision'', True, safe_positive_int),
      (''claim_id'', True, str_such is_claim_id_text),
      (''reason'', True, short_text 512)]"

definition reconciled_fields :: "field_spec list" where
  "reconciled_fields = base_fields @
     [stage_id_field,
      (''revision'', True, safe_positive_int),
      (''claim_id'', True, str_such is_claim_id_text),
      (''outcome'', True, str_such (\<lambda>s. ok (effect_outcome_of s))),
      (''receipt_ref'', False, str_such (\<lambda>s. True))]"

definition reconciled_payload_ok :: "dict \<Rightarrow> bool" where
  "reconciled_payload_ok d \<longleftrightarrow> fields_ok reconciled_fields d
     \<and> (case dget d ''receipt_ref'' JNull of
          JStr r \<Rightarrow> (case receipt_parse r of
              Inl _ \<Rightarrow> False
            | Inr p \<Rightarrow> pr_stage_id p = str_field d ''stage_id'' \<and> pr_claim_id p = str_field d ''claim_id'')
        | _ \<Rightarrow> True)"

text \<open>
  \<open>WorkLedgerVocabulary.validate_payload\<close> followed by \<open>model_dump(exclude_none=True)\<close>, for the
  effect events. No other event type reaches it here.
\<close>

definition payload_model :: "string \<Rightarrow> (field_spec list \<times> (dict \<Rightarrow> bool)) option" where
  "payload_model ty =
     map_of [(EFFECT_STAGED, (staged_fields, staged_payload_ok)),
             (EFFECT_PROJECTION_BOUND, (projection_bound_fields, fields_ok projection_bound_fields)),
             (EFFECT_REVISED, (revised_fields, revised_payload_ok)),
             (EFFECT_DECISION_RECORDED, (decision_recorded_fields, fields_ok decision_recorded_fields)),
             (EFFECT_CLAIMED, (claimed_fields, fields_ok claimed_fields)),
             (EFFECT_APPLIED, (applied_fields, applied_payload_ok)),
             (EFFECT_INDETERMINATE, (indeterminate_fields, fields_ok indeterminate_fields)),
             (EFFECT_RECONCILED, (reconciled_fields, reconciled_payload_ok)),
             (EFFECT_ROW_DECISIONS_RECORDED,
              (row_decisions_recorded_fields, fields_ok row_decisions_recorded_fields))] ty"

definition validate_payload :: "string \<Rightarrow> dict \<Rightarrow> dict result" where
  "validate_payload ty d =
     (case payload_model ty of
        None \<Rightarrow> Inl ValueError
      | Some (specs, valid) \<Rightarrow> if valid d then Inr (dump_fields specs d) else Inl ValidationError)"

section \<open>What a dump contains\<close>

lemma map_of_dump_fields:
  "map_of (dump_fields specs d) k =
     (if k \<in> fst ` set specs
      then (case map_of d k of None \<Rightarrow> None | Some v \<Rightarrow> if v = JNull then None else Some (drop_none v))
      else None)"
  by (induction specs) (auto simp: dump_fields_def map_add_def split: option.splits)

lemma validate_payload_lookup:
  assumes "validate_payload ty d = Inr e" and "payload_model ty = Some (specs, valid)"
  shows "map_of e k = (if k \<in> fst ` set specs
      then (case map_of d k of None \<Rightarrow> None | Some v \<Rightarrow> if v = JNull then None else Some (drop_none v))
      else None)"
proof -
  from assms have "e = dump_fields specs d" by (simp add: validate_payload_def split: if_splits)
  then show ?thesis by (simp only: map_of_dump_fields)
qed

section \<open>Validation is idempotent\<close>

definition kept :: "json option \<Rightarrow> json option" where
  "kept v = (case v of None \<Rightarrow> None | Some j \<Rightarrow> if j = JNull then None else Some (drop_none j))"

lemma drop_none_JNull [simp]: "drop_none j = JNull \<longleftrightarrow> j = JNull"
  by (cases j) simp_all

lemma drop_none_idem: "drop_none (drop_none j) = drop_none j"
proof (induction j rule: drop_none.induct)
  case (2 kvs)
  have "map (\<lambda>(k, v). (k, drop_none v)) (filter (\<lambda>(k, v). v \<noteq> JNull) (map (\<lambda>(k, v). (k, drop_none v)) kvs)) =
      filter (\<lambda>(k, v). v \<noteq> JNull) (map (\<lambda>(k, v). (k, drop_none v)) kvs)"
    using 2 by (induction kvs) auto
  then show ?case by simp
qed auto

lemma kept_kept: "kept (kept v) = kept v"
  by (auto simp: kept_def drop_none_idem split: option.splits)

lemma map_of_dump: "map_of (dump_fields specs d) k = (if k \<in> fst ` set specs then kept (map_of d k) else None)"
  by (simp add: map_of_dump_fields kept_def split: option.split)

lemma dump_fields_dump: "dump_fields specs (dump_fields specs d) = dump_fields specs d"
proof -
  have unfold: "dump_fields ss e = concat (map (\<lambda>s. case kept (map_of e (fst s)) of None \<Rightarrow> [] | Some v \<Rightarrow> [(fst s, v)]) ss)"
    for ss e
    by (auto simp: dump_fields_def kept_def intro!: arg_cong [where f = concat] split: option.split prod.split)
  have "map (\<lambda>s. case kept (map_of (dump_fields specs d) (fst s)) of None \<Rightarrow> [] | Some v \<Rightarrow> [(fst s, v)]) specs =
      map (\<lambda>s. case kept (map_of d (fst s)) of None \<Rightarrow> [] | Some v \<Rightarrow> [(fst s, v)]) specs"
    by (simp add: map_of_dump kept_kept)
  then show ?thesis by (simp only: unfold [of specs])
qed

lemma dump_keys: "map fst (dump_fields specs d) = filter (\<lambda>k. kept (map_of d k) \<noteq> None) (map fst specs)"
  by (induction specs) (auto simp: dump_fields_def kept_def split: option.splits)

lemma distinct_dump: "distinct (map fst specs) \<Longrightarrow> distinct (map fst (dump_fields specs d))"
  by (simp add: dump_keys)

text \<open>A check that a value passes after \<open>exclude_none\<close> if it passes before.\<close>

definition stable_check :: "(json \<Rightarrow> bool) \<Rightarrow> bool" where
  "stable_check c \<longleftrightarrow> (\<forall>v. c v \<longrightarrow> v \<noteq> JNull \<and> c (drop_none v))"

lemma fields_ok_dump:
  assumes "fields_ok specs d" and "distinct (map fst specs)"
    and "list_all (\<lambda>(k, n, c). stable_check c) specs"
  shows "fields_ok specs (dump_fields specs d)"
proof -
  have "list_all (\<lambda>(k, _). k \<in> set (map fst specs)) (dump_fields specs d)"
    by (auto simp: list_all_iff dump_fields_def split: option.splits if_splits prod.splits) force
  moreover have "case map_of (dump_fields specs d) k of None \<Rightarrow> \<not> n | Some v \<Rightarrow> c v \<or> (\<not> n \<and> v = JNull)"
    if s: "(k, n, c) \<in> set specs" for k n c
  proof -
    from s assms(1) have "case map_of d k of None \<Rightarrow> \<not> n | Some v \<Rightarrow> c v \<or> (\<not> n \<and> v = JNull)"
      by (auto simp: fields_ok_def list_all_iff)
    moreover from s have "k \<in> fst ` set specs" by force
    moreover from assms(3) s have "c v \<Longrightarrow> v \<noteq> JNull \<and> c (drop_none v)" for v
      by (auto simp: stable_check_def list_all_iff)
    ultimately show ?thesis by (auto simp: map_of_dump kept_def split: option.splits)
  qed
  ultimately show ?thesis
    using distinct_dump [OF assms(2)] by (auto simp: fields_ok_def list_all_iff)
qed

lemma stable_str_such [simp]: "stable_check (str_such p)"
proof -
  have "str_such p v \<Longrightarrow> v \<noteq> JNull \<and> str_such p (drop_none v)" for v by (cases v) simp_all
  then show ?thesis by (simp add: stable_check_def)
qed

lemma stable_simple [simp]:
  "stable_check is_jbool" "stable_check safe_positive_int" "stable_check (short_text n)"
  "stable_check (\<lambda>j. j = JInt 1)"
proof -
  have "is_jbool v \<Longrightarrow> v \<noteq> JNull \<and> is_jbool (drop_none v)" for v by (cases v) simp_all
  then show "stable_check is_jbool" by (simp add: stable_check_def)
  have "safe_positive_int v \<Longrightarrow> v \<noteq> JNull \<and> safe_positive_int (drop_none v)" for v by (cases v) simp_all
  then show "stable_check safe_positive_int" by (simp add: stable_check_def)
  show "stable_check (short_text n)" by (simp add: short_text_def)
  show "stable_check (\<lambda>j. j = JInt 1)" by (simp add: stable_check_def)
qed

lemma json_strs_drop: "json_strs js = Some ks \<Longrightarrow> map drop_none js = js"
  by (induction js arbitrary: ks rule: json_strs.induct) auto

lemma stable_row_keys [simp]: "stable_check row_keys_ok"
proof -
  have "row_keys_ok v \<Longrightarrow> v \<noteq> JNull \<and> row_keys_ok (drop_none v)" for v
  proof (cases v)
    case (JArr js)
    assume "row_keys_ok v"
    with JArr obtain ks where "json_strs js = Some ks" by (auto split: option.splits)
    with JArr \<open>row_keys_ok v\<close> json_strs_drop [of js ks] show ?thesis by simp
  qed simp_all
  then show ?thesis by (simp add: stable_check_def)
qed

lemma map_of_drop_obj:
  assumes "drop_none (JObj d) = JObj e" and "distinct (map fst d)"
  shows "map_of e k = kept (map_of d k)" and "distinct (map fst e)" and "fst ` set e \<subseteq> fst ` set d"
proof -
  from assms(1) have e: "e = filter (\<lambda>(k, v). v \<noteq> JNull) (map (\<lambda>(k, v). (k, drop_none v)) d)" by simp
  have d': "map fst (map (\<lambda>(k, v). (k, drop_none v)) d) = map fst d" by (induction d) auto
  from assms(2) have dd: "distinct (map fst (map (\<lambda>(k, v). (k, drop_none v)) d))" by (simp only: d')
  have "map_of (map (\<lambda>(k, v). (k, drop_none v)) d) k = map_option drop_none (map_of d k)"
    by (induction d) auto
  then show "map_of e k = kept (map_of d k)"
    by (simp add: e map_of_filter_key [OF dd] kept_def split: option.split)
  have "distinct (map fst (filter P d))" if "distinct (map fst d)" for P and d :: dict
    using that by (induction d) (auto simp: image_iff)
  with dd show "distinct (map fst e)" by (simp add: e)
  show "fst ` set e \<subseteq> fst ` set d" by (auto simp: e image_iff split: prod.splits) force
qed

lemma fields_ok_drop_obj:
  assumes "fields_ok specs d" and "list_all (\<lambda>(k, n, c). stable_check c) specs"
    and "drop_none (JObj d) = JObj e"
  shows "fields_ok specs e"
proof -
  from assms(1) have dd: "distinct (map fst d)" by (simp add: fields_ok_def)
  note e = map_of_drop_obj [OF assms(3) dd]
  have "case map_of e k of None \<Rightarrow> \<not> n | Some v \<Rightarrow> c v \<or> (\<not> n \<and> v = JNull)"
    if s: "(k, n, c) \<in> set specs" for k n c
  proof -
    from s assms(1) have "case map_of d k of None \<Rightarrow> \<not> n | Some v \<Rightarrow> c v \<or> (\<not> n \<and> v = JNull)"
      by (auto simp: fields_ok_def list_all_iff)
    moreover from assms(2) s have "c v \<Longrightarrow> v \<noteq> JNull \<and> c (drop_none v)" for v
      by (auto simp: stable_check_def list_all_iff)
    ultimately show ?thesis by (auto simp: e(1) kept_def split: option.splits)
  qed
  moreover have "list_all (\<lambda>(k, _). k \<in> set (map fst specs)) e"
    using assms(1) e(3) by (force simp: fields_ok_def list_all_iff)
  ultimately show ?thesis using e(2) by (auto simp: fields_ok_def list_all_iff)
qed

lemma str_field_kept: "map_of e k = kept (map_of d k) \<Longrightarrow> str_field e k = str_field d k"
proof -
  assume "map_of e k = kept (map_of d k)"
  moreover have "(case drop_none j of JStr s \<Rightarrow> s | _ \<Rightarrow> []) = (case j of JStr s \<Rightarrow> s | _ \<Rightarrow> [])" for j
    by (cases j) simp_all
  ultimately show ?thesis by (auto simp: str_field_def dget_def kept_def split: option.split)
qed

lemma int_field_kept: "map_of e k = kept (map_of d k) \<Longrightarrow> int_field e k = int_field d k"
proof -
  assume "map_of e k = kept (map_of d k)"
  moreover have "(case drop_none j of JInt i \<Rightarrow> i | _ \<Rightarrow> 0) = (case j of JInt i \<Rightarrow> i | _ \<Rightarrow> 0)" for j
    by (cases j) simp_all
  ultimately show ?thesis by (auto simp: int_field_def dget_def kept_def split: option.split)
qed

lemma objects_of_drop:
  assumes "objects_of specs js = Some ds" and "list_all (\<lambda>(k, n, c). stable_check c) specs"
  shows "\<exists>es. objects_of specs (map drop_none js) = Some es \<and> row_keys_of es = row_keys_of ds"
  using assms(1)
proof (induction js arbitrary: ds)
  case (Cons j js)
  then obtain d ds' where j: "j = JObj d" "fields_ok specs d" and ds: "objects_of specs js = Some ds'" "ds = d # ds'"
    by (cases j) (auto split: if_splits)
  obtain e where e: "drop_none (JObj d) = JObj e" by simp
  from Cons.IH [OF ds(1)] obtain es where es: "objects_of specs (map drop_none js) = Some es"
    "row_keys_of es = row_keys_of ds'" by blast
  have "fields_ok specs e" using fields_ok_drop_obj [OF j(2) assms(2) e] .
  moreover have "distinct (map fst d)" using j(2) by (simp add: fields_ok_def)
  then have "str_field e ''row_key'' = str_field d ''row_key''"
    by (intro str_field_kept map_of_drop_obj(1) [OF e])
  ultimately have "objects_of specs (drop_none j # map drop_none js) = Some (e # es)
      \<and> row_keys_of (e # es) = row_keys_of ds"
    using e es j(1) ds(2) by (simp add: row_keys_of_def)
  then show ?case by auto
qed simp

lemma stable_row_decisions [simp]: "stable_check row_decisions_ok"
proof -
  have st: "list_all (\<lambda>(k, n, c). stable_check c) row_decision_fields"
    by (simp add: row_decision_fields_def)
  have "row_decisions_ok v \<Longrightarrow> v \<noteq> JNull \<and> row_decisions_ok (drop_none v)" for v
  proof (cases v)
    case (JArr js)
    assume "row_decisions_ok v"
    with JArr obtain ds where ds: "objects_of row_decision_fields js = Some ds" "ds \<noteq> []" "distinct (row_keys_of ds)"
      by (auto split: option.splits)
    from objects_of_drop [OF ds(1) st] obtain es where
      es: "objects_of row_decision_fields (map drop_none js) = Some es" "row_keys_of es = row_keys_of ds" by blast
    from es(2) ds(2) have "es \<noteq> []" by (auto simp: row_keys_of_def)
    with es ds(3) JArr show ?thesis by simp
  qed simp_all
  then show ?thesis by (simp add: stable_check_def)
qed

lemma stable_row_results [simp]: "stable_check row_results_ok"
proof -
  have st: "list_all (\<lambda>(k, n, c). stable_check c) row_result_fields"
    by (simp add: row_result_fields_def)
  have "row_results_ok v \<Longrightarrow> v \<noteq> JNull \<and> row_results_ok (drop_none v)" for v
  proof (cases v)
    case (JArr js)
    assume "row_results_ok v"
    with JArr obtain ds where "objects_of row_result_fields js = Some ds" by auto
    from objects_of_drop [OF this st] JArr show ?thesis by auto
  qed simp_all
  then show ?thesis by (simp add: stable_check_def)
qed

lemmas payload_field_defs =
  base_fields_def stage_id_field_def digest_field_def safe_ref_field_def staged_fields_def
  revised_fields_def projection_bound_fields_def decision_recorded_fields_def
  row_decisions_recorded_fields_def claimed_fields_def applied_fields_def indeterminate_fields_def
  reconciled_fields_def

lemma payload_model_cases:
  assumes "payload_model ty = Some (specs, valid)"
  obtains (staged) "ty = EFFECT_STAGED" "specs = staged_fields" "valid = staged_payload_ok"
    | (bound) "ty = EFFECT_PROJECTION_BOUND" "specs = projection_bound_fields" "valid = fields_ok projection_bound_fields"
    | (revised) "ty = EFFECT_REVISED" "specs = revised_fields" "valid = revised_payload_ok"
    | (decided) "ty = EFFECT_DECISION_RECORDED" "specs = decision_recorded_fields" "valid = fields_ok decision_recorded_fields"
    | (claimed) "ty = EFFECT_CLAIMED" "specs = claimed_fields" "valid = fields_ok claimed_fields"
    | (applied) "ty = EFFECT_APPLIED" "specs = applied_fields" "valid = applied_payload_ok"
    | (indeterminate) "ty = EFFECT_INDETERMINATE" "specs = indeterminate_fields" "valid = fields_ok indeterminate_fields"
    | (reconciled) "ty = EFFECT_RECONCILED" "specs = reconciled_fields" "valid = reconciled_payload_ok"
    | (rows) "ty = EFFECT_ROW_DECISIONS_RECORDED" "specs = row_decisions_recorded_fields"
        "valid = fields_ok row_decisions_recorded_fields"
  using assms that unfolding payload_model_def by (simp split: if_splits)

lemma model_specs:
  assumes "payload_model ty = Some (specs, valid)"
  shows "distinct (map fst specs)" and "list_all (\<lambda>(k, n, c). stable_check c) specs"
    and "set base_fields \<subseteq> set specs" and "valid d \<Longrightarrow> fields_ok specs d"
  using assms
  by (cases rule: payload_model_cases;
      auto simp: payload_field_defs staged_payload_ok_def revised_payload_ok_def applied_payload_ok_def
        reconciled_payload_ok_def)+

lemma validate_twice:
  assumes "validate_payload ty d = Inr e"
  shows "validate_payload ty e = Inr e"
proof -
  from assms obtain specs valid where m: "payload_model ty = Some (specs, valid)" and v: "valid d"
    and e: "e = dump_fields specs d"
    by (auto simp: validate_payload_def split: option.splits if_splits)
  note ms = model_specs [OF m]
  have f: "fields_ok specs e" unfolding e by (rule fields_ok_dump [OF ms(4) [OF v] ms(1) ms(2)])
  have l: "k \<in> fst ` set specs \<Longrightarrow> map_of e k = kept (map_of d k)" for k by (simp add: e map_of_dump)
  have sf: "str_field e k = str_field d k" and nf: "int_field e k = int_field d k" if "k \<in> fst ` set specs" for k
    using l [OF that] by (simp_all add: str_field_kept int_field_kept)
  have rc: "(case dget e k JNull of JStr t \<Rightarrow> P t | _ \<Rightarrow> True) = (case dget d k JNull of JStr t \<Rightarrow> P t | _ \<Rightarrow> True)"
    if "k \<in> fst ` set specs" for k P
  proof -
    have "(case drop_none j of JStr t \<Rightarrow> P t | _ \<Rightarrow> True) = (case j of JStr t \<Rightarrow> P t | _ \<Rightarrow> True)" for j
      by (cases j) simp_all
    with l [OF that] show ?thesis by (auto simp: dget_def kept_def split: option.split)
  qed
  have "valid e" using m
  proof (cases rule: payload_model_cases)
    case staged
    have "{''stage_id'', ''target_ref'', ''executor'', ''proposal_ref''} \<subseteq> fst ` set specs"
      by (simp add: staged payload_field_defs)
    with v f staged show ?thesis by (simp add: staged_payload_ok_def sf cong: sum.case_cong)
  next
    case revised
    have "{''stage_id'', ''revision'', ''proposal_ref''} \<subseteq> fst ` set specs"
      by (simp add: revised payload_field_defs)
    with v f revised show ?thesis by (simp add: revised_payload_ok_def sf nf cong: sum.case_cong)
  next
    case applied
    have "{''stage_id'', ''receipt_ref''} \<subseteq> fst ` set specs" by (simp add: applied payload_field_defs)
    with v f applied show ?thesis by (simp add: applied_payload_ok_def sf rc cong: sum.case_cong json.case_cong)
  next
    case reconciled
    have "{''stage_id'', ''claim_id'', ''receipt_ref''} \<subseteq> fst ` set specs" by (simp add: reconciled payload_field_defs)
    with v f reconciled show ?thesis by (simp add: reconciled_payload_ok_def sf rc cong: sum.case_cong json.case_cong)
  qed (use f in simp_all)
  then show ?thesis using m by (simp add: validate_payload_def e dump_fields_dump)
qed

text \<open>The fields of a payload model, and what of a payload they keep.\<close>

definition model_fields :: "string \<Rightarrow> string set" where
  "model_fields ty = (case payload_model ty of None \<Rightarrow> {} | Some (specs, _) \<Rightarrow> fst ` set specs)"

lemma validate_payload_fields:
  assumes "validate_payload ty d = Inr e"
  shows "map_of e k = (if k \<in> model_fields ty then kept (map_of d k) else None)"
proof -
  from assms obtain specs valid where m: "payload_model ty = Some (specs, valid)"
    by (auto simp: validate_payload_def split: option.splits)
  show ?thesis
    using validate_payload_lookup [OF assms m, of k] by (simp add: model_fields_def m kept_def)
qed

text \<open>Validating an event payload and dumping it without nulls is idempotent: the dump of a
  valid payload validates again, to itself. The ledger validates every effect payload twice (in
  the effect ledger and again in the event projection), so nothing is lost or refused the second
  time.\<close>

theorem validate_payload_idempotent:
  assumes "validate_payload ty d = Inr e"
  shows "validate_payload ty e = Inr e"
  using assms by (rule validate_twice)

theorem validate_payload_idempotent_witness:
  "\<exists>e. validate_payload EFFECT_CLAIMED
       [(''v'', JInt 1), (''w'', JNull), (''attempt'', JInt 1), (''executor'', JStr ''mcp''),
        (''claim_id'', JStr ''c-1''), (''revision'', JInt 1),
        (''stage_id'', JStr ''stg_00000000-0000-4000-8000-000000000001'')] = Inr e
     \<and> validate_payload EFFECT_CLAIMED e = Inr e"
proof -
  let ?d = "[(''v'', JInt 1), (''w'', JNull), (''attempt'', JInt 1), (''executor'', JStr ''mcp''),
        (''claim_id'', JStr ''c-1''), (''revision'', JInt 1),
        (''stage_id'', JStr ''stg_00000000-0000-4000-8000-000000000001'')]"
  have "ok (validate_payload EFFECT_CLAIMED ?d)" by code_simp
  then obtain e where e: "validate_payload EFFECT_CLAIMED ?d = Inr e" by (auto simp: ok_iff)
  with validate_payload_idempotent [OF e] show ?thesis by blast
qed

end
