(* ===== verification/EffectContracts.thy ===== *)
theory EffectContracts
  imports LedgerModels
begin

text \<open>
  The contracts of \<open>agent_runtime/effects/contracts.py\<close> and the effect entities of
  \<open>surfaces_v2/entities.py\<close>. Every pydantic model is a record; its field and model validators
  are one predicate \<open><model>_ok\<close>, and constructing it is \<open><model>_make\<close>, which raises
  \<open>ValidationError\<close> or returns the record (with the media type in lower case where the
  validator rewrites it). \<open>model_copy\<close> is a record update: it validates nothing.
\<close>

section \<open>Validators\<close>

text \<open>\<open>_safe_reference\<close>: the text itself and its full percent decoding are both checked.\<close>

definition unsafe_prefixes :: "string list" where
  "unsafe_prefixes = [''file://'', ''filesystem://'', ''data:'']"

definition safe_reference_ok :: "string \<Rightarrow> bool" where
  "safe_reference_ok value =
     (let decoded = unquote_all value;
          normalised = replace_char (CHR 0x5C) (CHR ''/'') decoded
      in value \<noteq> [] \<and> length value \<le> MAX_REFERENCE_LENGTH \<and> value = strip value
         \<and> CHR 0x0A \<notin> set value \<and> CHR 0x0D \<notin> set value \<and> contains ''://'' value
         \<and> \<not> starts_any [''/'', ''~'', [CHR 0x5C]] value
         \<and> \<not> starts_any unsafe_prefixes (lower value)
         \<and> \<not> drive_path value
         \<and> \<not> starts_any [''/'', ''~''] normalised
         \<and> \<not> starts_any unsafe_prefixes (lower normalised)
         \<and> \<not> (3 \<le> length normalised \<and> take 2 (drop 1 normalised) = '':/'')
         \<and> CHR 0x00 \<notin> set normalised
         \<and> \<not> has_dot_segment normalised)"

fun opt_ok :: "('a \<Rightarrow> bool) \<Rightarrow> 'a option \<Rightarrow> bool" where
  "opt_ok p None = True"
| "opt_ok p (Some x) = p x"

lemma opt_ok_iff: "opt_ok p v \<longleftrightarrow> (\<forall>x. v = Some x \<longrightarrow> p x)"
  by (cases v) auto

text \<open>The patterns \<open>_IDEMPOTENCY_KEY\<close> and \<open>_RUN_ID\<close>, which are the same.\<close>

definition is_opaque_key :: "string \<Rightarrow> bool" where
  "is_opaque_key s \<longleftrightarrow> s \<noteq> [] \<and> length s \<le> 256 \<and> is_alnum (hd s)
     \<and> list_all (\<lambda>c. is_alnum c \<or> c \<in> {CHR ''.'', CHR ''_'', CHR '':'', CHR ''-''}) (tl s)"

definition validate_idempotency_key :: "string \<Rightarrow> unit result" where
  "validate_idempotency_key s = require (is_opaque_key s) ValueError"

definition display_label_ok :: "string \<Rightarrow> bool" where
  "display_label_ok s \<longleftrightarrow> strip s \<noteq> [] \<and> length s \<le> 512 \<and> CHR 0x0A \<notin> set s \<and> CHR 0x0D \<notin> set s"

definition pinned_pair :: "string option \<Rightarrow> string option \<Rightarrow> bool" where
  "pinned_pair r d \<longleftrightarrow> (r = None) = (d = None)"

definition row_scope_ok :: "string list option \<Rightarrow> bool" where
  "row_scope_ok = opt_ok (\<lambda>ks. ks \<noteq> [] \<and> distinct ks)"

definition opaque_token_ok :: "string \<Rightarrow> bool" where
  "opaque_token_ok s \<longleftrightarrow> s = strip s \<and> CHR ''/'' \<notin> set s \<and> CHR 0x5C \<notin> set s"

fun executors_for :: "effect_proposal_kind \<Rightarrow> effect_executor_kind list" where
  "executors_for CANONICAL_ARGUMENTS = [MCP, BUILTIN]"
| "executors_for ARTIFACT_REVISION = [MCP, WORKSPACE, BROWSER, SANDBOX, BUILTIN]"
| "executors_for WORKSPACE_CHANGE_SET = [WORKSPACE]"
| "executors_for ROW_SET = [MCP, BUILTIN]"
| "executors_for BROWSER_SUBMISSION = [BROWSER]"
| "executors_for SANDBOX_PATCH = [SANDBOX]"
| "executors_for BUILTIN_PAYLOAD = [BUILTIN]"

definition validate_proposal_executor_pair :: "effect_proposal_kind \<Rightarrow> effect_executor_kind \<Rightarrow> unit result" where
  "validate_proposal_executor_pair kind executor = require (executor \<in> set (executors_for kind)) ValueError"

section \<open>Identities, scope and policy\<close>

datatype stage_status = PROPOSED | HELD | REVISED | APPROVED | REJECTED | CANCELLED | SUPERSEDED

record actor_identity =
  ai_actor :: effect_actor
  ai_ref :: string

definition actor_make :: "effect_actor \<Rightarrow> string \<Rightarrow> actor_identity result" where
  "actor_make a r = (if safe_reference_ok r then Inr \<lparr>ai_actor = a, ai_ref = r\<rparr> else Inl ValidationError)"

record stage_scope =
  sc_run_id :: string
  sc_owner_ref :: string

definition scope_ok :: "stage_scope \<Rightarrow> bool" where
  "scope_ok s \<longleftrightarrow> is_opaque_key (sc_run_id s) \<and> safe_reference_ok (sc_owner_ref s)"

definition scope_make :: "string \<Rightarrow> string \<Rightarrow> stage_scope result" where
  "scope_make run owner = (let s = \<lparr>sc_run_id = run, sc_owner_ref = owner\<rparr> in
     if scope_ok s then Inr s else Inl ValidationError)"

record policy_snapshot =
  ps_snapshot_ref :: string
  ps_descriptor_known :: bool
  ps_deployment :: "effect_policy option"
  ps_organization :: "effect_policy option"
  ps_grant :: "effect_policy option"
  ps_capability :: "effect_policy option"
  ps_user :: "effect_policy option"
  ps_allow_always :: bool
  ps_sensitive_target :: bool

record policy_resolution =
  res_policy :: effect_policy
  res_auto_approval_allowed :: bool
  res_reasons :: "string list"

section \<open>Targets and proposals\<close>

record effect_target =
  tg_executor :: effect_executor_kind
  tg_capability :: string
  tg_op :: string
  tg_target_ref :: string
  tg_precondition_ref :: "string option"
  tg_display_label :: string

definition target_ok :: "effect_target \<Rightarrow> bool" where
  "target_ok t \<longleftrightarrow> target_reference_ok (tg_target_ref t) \<and> opt_ok target_reference_ok (tg_precondition_ref t)"

definition target_make :: "effect_target \<Rightarrow> effect_target result" where
  "target_make t = (if target_ok t then Inr t else Inl ValidationError)"

record proposed_effect =
  pe_operation_id :: string
  pe_executor :: effect_executor_kind
  pe_target :: effect_target
  pe_target_digest :: string
  pe_display_target :: string
  pe_kind :: effect_proposal_kind
  pe_content_ref :: string
  pe_digest :: string
  pe_media_type :: string
  pe_precondition_ref :: "string option"
  pe_precondition_digest :: "string option"
  pe_effect_class :: effect_class
  pe_policy_snapshot_ref :: string
  pe_agent_hold :: bool
  pe_safe_summary_ref :: "string option"
  pe_projection_required :: bool

definition proposed_effect_ok :: "proposed_effect \<Rightarrow> bool" where
  "proposed_effect_ok p \<longleftrightarrow>
     ok (operation_id_parse (pe_operation_id p)) \<and> target_ok (pe_target p)
     \<and> is_sha256_hex (pe_target_digest p) \<and> display_label_ok (pe_display_target p)
     \<and> immutable_content_ref (pe_content_ref p) \<and> is_sha256_hex (pe_digest p)
     \<and> is_media_type (pe_media_type p) \<and> opt_ok is_sha256_hex (pe_precondition_digest p)
     \<and> safe_reference_ok (pe_policy_snapshot_ref p) \<and> opt_ok safe_reference_ok (pe_safe_summary_ref p)
     \<and> tg_executor (pe_target p) = pe_executor p
     \<and> tg_display_label (pe_target p) = pe_display_target p
     \<and> pinned_pair (pe_precondition_ref p) (pe_precondition_digest p)
     \<and> ok (validate_proposal_executor_pair (pe_kind p) (pe_executor p))"

definition proposed_effect_make :: "proposed_effect \<Rightarrow> proposed_effect result" where
  "proposed_effect_make p =
     (if proposed_effect_ok p then Inr (p\<lparr>pe_media_type := lower (pe_media_type p)\<rparr>)
      else Inl ValidationError)"

record revision_proposal =
  rp_kind :: effect_proposal_kind
  rp_content_ref :: string
  rp_digest :: string
  rp_media_type :: string
  rp_target_ref :: string
  rp_target_digest :: string
  rp_display_target :: string
  rp_precondition_ref :: "string option"
  rp_precondition_digest :: "string option"
  rp_safe_diff_ref :: "string option"

definition revision_proposal_ok :: "revision_proposal \<Rightarrow> bool" where
  "revision_proposal_ok p \<longleftrightarrow>
     immutable_content_ref (rp_content_ref p) \<and> is_sha256_hex (rp_digest p)
     \<and> is_media_type (rp_media_type p) \<and> safe_reference_ok (rp_target_ref p)
     \<and> is_sha256_hex (rp_target_digest p) \<and> display_label_ok (rp_display_target p)
     \<and> opt_ok safe_reference_ok (rp_precondition_ref p) \<and> opt_ok is_sha256_hex (rp_precondition_digest p)
     \<and> opt_ok safe_reference_ok (rp_safe_diff_ref p)
     \<and> pinned_pair (rp_precondition_ref p) (rp_precondition_digest p)"

definition revision_proposal_make :: "revision_proposal \<Rightarrow> revision_proposal result" where
  "revision_proposal_make p =
     (if revision_proposal_ok p then Inr (p\<lparr>rp_media_type := lower (rp_media_type p)\<rparr>)
      else Inl ValidationError)"

section \<open>Stage revisions, decisions and bindings\<close>

record stage_revision =
  rv_revision :: int
  rv_kind :: effect_proposal_kind
  rv_proposal_ref :: string
  rv_content_ref :: "string option"
  rv_digest :: string
  rv_media_type :: string
  rv_target_ref :: string
  rv_target_digest :: string
  rv_display_target :: string
  rv_precondition_ref :: "string option"
  rv_precondition_digest :: "string option"
  rv_safe_diff_ref :: "string option"
  rv_author :: actor_identity
  rv_created_at :: string

definition stage_revision_ok :: "stage_revision \<Rightarrow> bool" where
  "stage_revision_ok r \<longleftrightarrow>
     1 \<le> rv_revision r \<and> ok (proposal_parse (rv_proposal_ref r))
     \<and> opt_ok immutable_content_ref (rv_content_ref r) \<and> is_sha256_hex (rv_digest r)
     \<and> is_media_type (rv_media_type r) \<and> safe_reference_ok (rv_target_ref r)
     \<and> is_sha256_hex (rv_target_digest r) \<and> opt_ok safe_reference_ok (rv_precondition_ref r)
     \<and> opt_ok is_sha256_hex (rv_precondition_digest r) \<and> opt_ok safe_reference_ok (rv_safe_diff_ref r)
     \<and> pinned_pair (rv_precondition_ref r) (rv_precondition_digest r)"

definition stage_revision_make :: "stage_revision \<Rightarrow> stage_revision result" where
  "stage_revision_make r =
     (if stage_revision_ok r then Inr (r\<lparr>rv_media_type := lower (rv_media_type r)\<rparr>)
      else Inl ValidationError)"

definition is_executable :: "stage_revision \<Rightarrow> bool" where
  "is_executable r \<longleftrightarrow> rv_content_ref r \<noteq> None"

record stage_decision =
  dc_revision :: int
  dc_decision :: effect_decision_kind
  dc_actor :: actor_identity
  dc_proposal_digest :: string
  dc_target_digest :: string
  dc_decided_at :: string
  dc_ledger_id :: string
  dc_row_keys :: "string list option"

definition stage_decision_make :: "stage_decision \<Rightarrow> stage_decision result" where
  "stage_decision_make d =
     (if 1 \<le> dc_revision d \<and> is_sha256_hex (dc_proposal_digest d) \<and> is_sha256_hex (dc_target_digest d)
         \<and> row_scope_ok (dc_row_keys d)
      then Inr d else Inl ValidationError)"

datatype row_posture = ROW_APPROVE | ROW_HOLD

fun row_posture_value :: "row_posture \<Rightarrow> string" where
  "row_posture_value ROW_APPROVE = ''approve''"
| "row_posture_value ROW_HOLD = ''hold''"

definition row_posture_of :: "string \<Rightarrow> row_posture result" where
  "row_posture_of = by_value row_posture_value [ROW_APPROVE, ROW_HOLD]"

record row_decision_state =
  rd_row_key :: string
  rd_decision :: row_posture
  rd_actor :: actor_identity
  rd_decided_at :: string
  rd_ledger_id :: string

definition row_decision_make :: "row_decision_state \<Rightarrow> row_decision_state result" where
  "row_decision_make r =
     (if rd_row_key r \<noteq> [] \<and> length (rd_row_key r) \<le> 256 then Inr r else Inl ValidationError)"

record projection_binding =
  pb_revision :: int
  pb_projection_ref :: string
  pb_proposal_digest :: string
  pb_target_digest :: string
  pb_bound_at :: string
  pb_ledger_id :: string

definition projection_binding_make :: "projection_binding \<Rightarrow> projection_binding result" where
  "projection_binding_make b =
     (if 1 \<le> pb_revision b \<and> safe_reference_ok (pb_projection_ref b)
         \<and> is_sha256_hex (pb_proposal_digest b) \<and> is_sha256_hex (pb_target_digest b)
      then Inr b else Inl ValidationError)"

section \<open>Stage state\<close>

record stage_state =
  st_stage_id :: string
  st_scope :: stage_scope
  st_operation_id :: string
  st_executor :: effect_executor_kind
  st_target :: effect_target
  st_target_digest :: string
  st_display_target :: string
  st_effect_class :: effect_class
  st_policy_snapshot_ref :: string
  st_policy :: effect_policy
  st_agent_hold :: bool
  st_revisions :: "stage_revision list"
  st_status :: stage_status
  st_projection_required :: bool
  st_projection_binding :: "projection_binding option"
  st_decision :: "stage_decision option"
  st_row_decisions :: "row_decision_state list"
  st_superseded_revision :: "int option"
  st_created_at :: string
  st_updated_at :: string

text \<open>\<open>current_revision\<close> is only read of states that have a revision.\<close>

definition current_revision :: "stage_state \<Rightarrow> stage_revision" where
  "current_revision s = last (st_revisions s)"

definition revision_in_stage :: "stage_state \<Rightarrow> stage_revision \<Rightarrow> bool" where
  "revision_in_stage s r \<longleftrightarrow>
     rv_target_ref r = tg_target_ref (st_target s) \<and> rv_target_digest r = st_target_digest s
     \<and> rv_display_target r = st_display_target s
     \<and> rv_precondition_ref r = rv_precondition_ref (hd (st_revisions s))
     \<and> rv_precondition_digest r = rv_precondition_digest (hd (st_revisions s))
     \<and> proposal_parse (rv_proposal_ref r) = Inr \<lparr>pp_stage_id = st_stage_id s, pp_revision = rv_revision r\<rparr>"

definition binding_current :: "stage_state \<Rightarrow> projection_binding \<Rightarrow> bool" where
  "binding_current s b \<longleftrightarrow>
     pb_revision b = rv_revision (current_revision s)
     \<and> pb_proposal_digest b = rv_digest (current_revision s)
     \<and> pb_target_digest b = st_target_digest s"

definition stage_consistent :: "stage_state \<Rightarrow> bool" where
  "stage_consistent s \<longleftrightarrow>
     st_revisions s \<noteq> []
     \<and> list_all (revision_in_stage s) (st_revisions s)
     \<and> opt_ok (\<lambda>d. dc_revision d = rv_revision (current_revision s)) (st_decision s)
     \<and> opt_ok (binding_current s) (st_projection_binding s)"

definition stage_state_make :: "stage_state \<Rightarrow> stage_state result" where
  "stage_state_make s =
     (if ok (stage_id_parse (st_stage_id s)) \<and> ok (operation_id_parse (st_operation_id s))
         \<and> is_sha256_hex (st_target_digest s) \<and> stage_consistent s
      then Inr s else Inl ValidationError)"

definition approval_ready :: "stage_state \<Rightarrow> bool" where
  "approval_ready s \<longleftrightarrow>
     \<not> st_projection_required s
     \<or> (case st_projection_binding s of None \<Rightarrow> False | Some b \<Rightarrow> binding_current s b)"

section \<open>Commands and dispatch requests\<close>

datatype rollout_capability =
  ARTIFACT_REPOSITORY | OPERATION_GATEWAY | EFFECT_STAGER | EFFECT_COMMIT | PRESENTATION_V2_1
  | WORKSPACE_OVERLAY | WORKSPACE_COMMIT | MCP_GATEWAY | SANDBOX_ADAPTER | BROWSER_ADAPTER

record commit_command =
  cc_run_id :: string
  cc_stage_id :: string
  cc_revision :: int
  cc_decision_ledger_id :: string
  cc_proposal_digest :: string
  cc_target_digest :: string
  cc_idempotency_key :: string
  cc_row_keys :: "string list option"
  cc_retry_basis :: "string option"
  cc_governed :: "rollout_capability list option"

definition retry_basis_ok :: "string \<Rightarrow> bool" where
  "retry_basis_ok s \<longleftrightarrow> s \<noteq> [] \<and> length s \<le> 255 \<and> opaque_token_ok s"

definition commit_command_make :: "commit_command \<Rightarrow> commit_command result" where
  "commit_command_make c =
     (if is_opaque_key (cc_run_id c) \<and> ok (stage_id_parse (cc_stage_id c)) \<and> 1 \<le> cc_revision c
         \<and> is_sha256_hex (cc_proposal_digest c) \<and> is_sha256_hex (cc_target_digest c)
         \<and> is_opaque_key (cc_idempotency_key c) \<and> row_scope_ok (cc_row_keys c)
         \<and> opt_ok retry_basis_ok (cc_retry_basis c)
      then Inr c else Inl ValidationError)"

record dispatch_request =
  dr_stage_id :: string
  dr_revision :: int
  dr_idempotency_key :: string
  dr_executor :: effect_executor_kind
  dr_target_ref :: string
  dr_target_digest :: string
  dr_proposal_ref :: string
  dr_content_ref :: string
  dr_proposal_digest :: string
  dr_actor :: effect_actor
  dr_decision_ledger_id :: string
  dr_row_keys :: "string list option"

definition token_255 :: "string \<Rightarrow> bool" where
  "token_255 s \<longleftrightarrow> s \<noteq> [] \<and> length s \<le> 255 \<and> opaque_token_ok s"

definition dispatch_request_ok :: "dispatch_request \<Rightarrow> bool" where
  "dispatch_request_ok r \<longleftrightarrow>
     token_255 (dr_stage_id r) \<and> 1 \<le> dr_revision r \<and> token_255 (dr_idempotency_key r)
     \<and> safe_reference_ok (dr_target_ref r) \<and> is_sha256_hex (dr_target_digest r)
     \<and> safe_reference_ok (dr_proposal_ref r) \<and> safe_reference_ok (dr_content_ref r)
     \<and> is_sha256_hex (dr_proposal_digest r) \<and> token_255 (dr_decision_ledger_id r)
     \<and> row_scope_ok (dr_row_keys r)"

definition dispatch_request_make :: "dispatch_request \<Rightarrow> dispatch_request result" where
  "dispatch_request_make r = (if dispatch_request_ok r then Inr r else Inl ValidationError)"

section \<open>Execution results\<close>

record row_result =
  wr_row_key :: string
  wr_outcome :: row_outcome
  wr_detail :: "string option"

record execution_result =
  xr_outcome :: effect_outcome
  xr_receipt_ref :: "string option"
  xr_result_digest :: "string option"
  xr_retryable :: bool
  xr_safe_message :: "string option"
  xr_row_results :: "row_result list option"

definition execution_result_ok :: "execution_result \<Rightarrow> bool" where
  "execution_result_ok x \<longleftrightarrow>
     opt_ok (\<lambda>r. ok (receipt_parse r)) (xr_receipt_ref x) \<and> opt_ok is_sha256_hex (xr_result_digest x)"

definition execution_result_make :: "execution_result \<Rightarrow> execution_result result" where
  "execution_result_make x = (if execution_result_ok x then Inr x else Inl ValidationError)"

section \<open>What a constructed model satisfies\<close>

lemma actor_make_Inr: "actor_make a r = Inr i \<longleftrightarrow> safe_reference_ok r \<and> i = \<lparr>ai_actor = a, ai_ref = r\<rparr>"
  by (auto simp: actor_make_def)

lemma is_media_type_lower: "is_media_type s \<Longrightarrow> is_media_type (lower s)"
proof -
  have low: "is_alnum (char_lower c)" if "is_alnum c" for c
    using that
    by (auto simp: is_alnum_def is_alpha_def is_lower_def is_upper_def is_digit_def code_char_lower)
  have keep: "char_lower c = c" if "c \<in> {CHR ''.'', CHR ''+'', CHR ''-'', CHR ''/''}" for c
    using that by (auto simp: char_lower_def is_upper_def code_def)
  have chr: "is_alnum (char_lower c) \<or> char_lower c \<in> {CHR ''.'', CHR ''+'', CHR ''-''}"
    if "is_alnum c \<or> c \<in> {CHR ''.'', CHR ''+'', CHR ''-''}" for c
    using that low [of c] keep [of c] by (metis insert_iff)
  have nm: "is_media_name (lower p)" if p: "is_media_name p" for p
  proof -
    from p have "p \<noteq> []" and h: "is_alnum (hd p)"
      and all: "list_all (\<lambda>c. is_alnum c \<or> c \<in> {CHR ''.'', CHR ''+'', CHR ''-''}) p"
      unfolding is_media_name_def by blast+
    moreover from all have "list_all (\<lambda>c. is_alnum c \<or> c \<in> {CHR ''.'', CHR ''+'', CHR ''-''}) (lower p)"
      unfolding lower_def list_all_iff set_map using chr by blast
    moreover from \<open>p \<noteq> []\<close> low [OF h] have "is_alnum (hd (lower p))" by (simp add: lower_def hd_map)
    ultimately show ?thesis unfolding is_media_name_def by (simp add: lower_def)
  qed
  have name_slash: "CHR ''/'' \<notin> set p" if "is_media_name p" for p
    using that by (auto simp: is_media_name_def list_all_iff is_alnum_def is_alpha_def is_lower_def
        is_upper_def is_digit_def code_def)
  assume "is_media_type s"
  then obtain a b where sp: "split_on (CHR ''/'') s = [a, b]" and a: "is_media_name a" and b: "is_media_name b"
    by (auto simp: is_media_type_def split: list.splits)
  from split_on_join [OF sp] have "lower s = lower a @ CHR ''/'' # lower b"
    using keep [of "CHR ''/''"] by (simp add: lower_def)
  with name_slash [OF nm [OF a]] name_slash [OF nm [OF b]] nm [OF a] nm [OF b]
  show ?thesis by (simp add: is_media_type_def split_on_append split_on_none)
qed

lemma stage_revision_make_ok:
  "stage_revision_make r = Inr r' \<Longrightarrow> stage_revision_ok r' \<and> r' = r\<lparr>rv_media_type := lower (rv_media_type r)\<rparr>"
  by (auto simp: stage_revision_make_def stage_revision_ok_def is_media_type_lower split: if_splits)

lemma dispatch_request_make_Inr [simp]:
  "dispatch_request_make r = Inr r' \<longleftrightarrow> dispatch_request_ok r \<and> r' = r"
  by (auto simp: dispatch_request_make_def)

end
