(* ===== verification/EffectPolicy.thy ===== *)
theory EffectPolicy
  imports EffectContracts
begin

text \<open>
  The stage policy resolver of \<open>agent_runtime/effects/policy.py\<close>. The lemmas reduce the
  resolved policy to its candidates: it is the most restrictive of them, hence at least every
  configured policy and every risk floor, and it only grows when a snapshot is tightened.
\<close>

section \<open>The resolver\<close>

definition allow_always_eligible :: "proposed_effect \<Rightarrow> policy_snapshot \<Rightarrow> bool" where
  "allow_always_eligible p s \<longleftrightarrow>
     ps_allow_always s \<and> ps_descriptor_known s \<and> pe_effect_class p = EXTERNAL_REVERSIBLE
     \<and> \<not> ps_sensitive_target s \<and> \<not> pe_agent_hold p"

definition class_candidates :: "proposed_effect \<Rightarrow> policy_snapshot \<Rightarrow> (effect_policy \<times> string) list" where
  "class_candidates p s =
     (if pe_effect_class p = EXTERNAL_DESTRUCTIVE then [(REQUIRE, ''external_destructive'')]
      else if pe_effect_class p = UNKNOWN then [(ASK, ''unknown_effect'')]
      else if pe_effect_class p = EXTERNAL_REVERSIBLE
      then (if allow_always_eligible p s then [] else [(ASK, ''external_reversible_default'')])
      else [(BLOCK, ''not_external'')])"

definition risk_candidates :: "proposed_effect \<Rightarrow> policy_snapshot \<Rightarrow> (effect_policy \<times> string) list" where
  "risk_candidates p s =
     (if pe_agent_hold p then [(REQUIRE, ''agent_hold'')] else [])
     @ (if ps_sensitive_target s then [(REQUIRE, ''sensitive_target'')] else [])
     @ (if \<not> ps_descriptor_known s then [(ASK, ''descriptor_unknown'')] else [])"

definition named_policies :: "policy_snapshot \<Rightarrow> (effect_policy option \<times> string) list" where
  "named_policies s =
     [(ps_deployment s, ''deployment''), (ps_organization s, ''organization''),
      (ps_grant s, ''grant''), (ps_capability s, ''capability''), (ps_user s, ''user'')]"

fun configured_candidate :: "bool \<Rightarrow> effect_policy option \<times> string \<Rightarrow> (effect_policy \<times> string) list" where
  "configured_candidate eligible (None, label) = []"
| "configured_candidate eligible (Some c, label) =
     (if c = AUTO \<and> \<not> eligible then [(ASK, label @ ''_auto_not_eligible'')] else [(c, label)])"

definition policy_candidates :: "proposed_effect \<Rightarrow> policy_snapshot \<Rightarrow> (effect_policy \<times> string) list" where
  "policy_candidates p s =
     class_candidates p s @ risk_candidates p s
     @ concat (map (configured_candidate (allow_always_eligible p s)) (named_policies s))
     @ (if allow_always_eligible p s then [(AUTO, ''allow_always'')] else [])"

text \<open>\<open>max(candidates, key=rank)\<close>: the first of the highest rank, \<open>ValueError\<close> on none.\<close>

fun max_by_rank :: "(effect_policy \<times> string) list \<Rightarrow> (effect_policy \<times> string) result" where
  "max_by_rank [] = Inl ValueError"
| "max_by_rank (c # cs) =
     Inr (foldl (\<lambda>m d. if policy_rank (fst m) < policy_rank (fst d) then d else m) c cs)"

definition resolve :: "proposed_effect \<Rightarrow> policy_snapshot \<Rightarrow> policy_resolution result" where
  "resolve p s =
     (let candidates = policy_candidates p s in
      rbind (max_by_rank candidates) (\<lambda>(policy, _).
      Inr \<lparr>res_policy = policy,
           res_auto_approval_allowed = (policy = AUTO \<and> allow_always_eligible p s),
           res_reasons = map snd (filter (\<lambda>(c, _). c = policy) candidates)\<rparr>))"

section \<open>The most restrictive candidate\<close>

lemma rank_fold:
  "(let m = foldl (\<lambda>m d. if policy_rank (fst m) < policy_rank (fst d) then d else m) c cs
    in m \<in> set (c # cs) \<and> (\<forall>d \<in> set (c # cs). fst d \<le> fst m))"
proof (induction cs arbitrary: c)
  case Nil
  then show ?case by simp
next
  case (Cons d cs)
  define e where "e = (if policy_rank (fst c) < policy_rank (fst d) then d else c)"
  have "fst c \<le> fst e" and "fst d \<le> fst e" and "e = c \<or> e = d"
    by (auto simp: e_def less_eq_effect_policy_def)
  with Cons.IH [of e] show ?case
    by (auto simp: Let_def e_def intro: order.trans)
qed

lemma max_by_rank_Inr:
  assumes "max_by_rank cs = Inr m"
  shows "m \<in> set cs" and "d \<in> set cs \<Longrightarrow> fst d \<le> fst m"
proof -
  from assms obtain c ds where cs: "cs = c # ds" by (cases cs) auto
  with assms rank_fold [of c ds] show "m \<in> set cs" and "d \<in> set cs \<Longrightarrow> fst d \<le> fst m"
    by (auto simp: Let_def)
qed

lemma candidates_nonempty: "policy_candidates p s \<noteq> []"
  by (cases "pe_effect_class p") (auto simp: policy_candidates_def class_candidates_def)

lemma resolve_total: "\<exists>r. resolve p s = Inr r"
  using candidates_nonempty [of p s]
  by (cases "policy_candidates p s") (auto simp: resolve_def Let_def split: prod.splits)

lemma resolve_cases:
  assumes "resolve p s = Inr r"
  obtains label where "(res_policy r, label) \<in> set (policy_candidates p s)"
    and "\<And>c l. (c, l) \<in> set (policy_candidates p s) \<Longrightarrow> c \<le> res_policy r"
    and "res_auto_approval_allowed r = (res_policy r = AUTO \<and> allow_always_eligible p s)"
    and "res_reasons r = map snd (filter (\<lambda>(c, _). c = res_policy r) (policy_candidates p s))"
proof -
  from assms obtain m where m: "max_by_rank (policy_candidates p s) = Inr m"
    by (auto simp: resolve_def Let_def rbind_Inr_iff)
  with assms have "res_policy r = fst m"
    and "res_auto_approval_allowed r = (res_policy r = AUTO \<and> allow_always_eligible p s)"
    and "res_reasons r = map snd (filter (\<lambda>(c, _). c = res_policy r) (policy_candidates p s))"
    by (auto simp: resolve_def Let_def split: prod.splits)
  with max_by_rank_Inr [OF m] that [of "snd m"] show ?thesis
    by (metis fst_conv prod.collapse)
qed

lemma resolve_ge_iff:
  assumes "resolve p s = Inr r"
  shows "q \<le> res_policy r \<longleftrightarrow> (\<exists>c l. (c, l) \<in> set (policy_candidates p s) \<and> q \<le> c)"
  by (rule resolve_cases [OF assms]) (blast intro: order.trans)

lemma auto_least [simp]: "AUTO \<le> q"
  by (simp add: less_eq_effect_policy_def)

lemma le_auto [simp]: "q \<le> AUTO \<longleftrightarrow> q = AUTO"
  by (cases q) (simp_all add: less_eq_effect_policy_def)

lemma policy_le_numeral [simp]:
  "ASK \<le> q \<longleftrightarrow> q \<noteq> AUTO" "REQUIRE \<le> q \<longleftrightarrow> q = REQUIRE \<or> q = BLOCK" "BLOCK \<le> q \<longleftrightarrow> q = BLOCK"
  by (cases q; simp add: less_eq_effect_policy_def)+

definition configured :: "policy_snapshot \<Rightarrow> effect_policy set" where
  "configured s = {c. Some c \<in> fst ` set (named_policies s)}"

text \<open>Which candidates there are, without their labels.\<close>

lemma candidate_iff:
  "(\<exists>l. (c, l) \<in> set (policy_candidates p s)) \<longleftrightarrow>
     (case c of
        AUTO \<Rightarrow> allow_always_eligible p s
      | ASK \<Rightarrow> pe_effect_class p = UNKNOWN
          \<or> (pe_effect_class p = EXTERNAL_REVERSIBLE \<and> \<not> allow_always_eligible p s)
          \<or> \<not> ps_descriptor_known s \<or> ASK \<in> configured s
          \<or> (AUTO \<in> configured s \<and> \<not> allow_always_eligible p s)
      | REQUIRE \<Rightarrow> pe_effect_class p = EXTERNAL_DESTRUCTIVE \<or> pe_agent_hold p \<or> ps_sensitive_target s
          \<or> REQUIRE \<in> configured s
      | BLOCK \<Rightarrow> pe_effect_class p = NONE \<or> pe_effect_class p = INTERNAL_REVERSIBLE \<or> BLOCK \<in> configured s)"
proof -
  have cfg: "(\<exists>l. (c, l) \<in> set (concat (map (configured_candidate e) (named_policies s)))) \<longleftrightarrow>
       (if c = ASK then ASK \<in> configured s \<or> (AUTO \<in> configured s \<and> \<not> e)
        else if c = AUTO then AUTO \<in> configured s \<and> e else c \<in> configured s)" for e
  proof -
    have one: "(\<exists>l. (c, l) \<in> set (configured_candidate e (v, nm))) \<longleftrightarrow>
        (if c = ASK then v = Some ASK \<or> (v = Some AUTO \<and> \<not> e)
         else if c = AUTO then v = Some AUTO \<and> e else v = Some c)" for v nm
      by (cases v) auto
    have "(\<exists>l. (c, l) \<in> set (concat (map (configured_candidate e) xs))) \<longleftrightarrow>
        (\<exists>v nm. (v, nm) \<in> set xs \<and> (\<exists>l. (c, l) \<in> set (configured_candidate e (v, nm))))" for xs
      by (induction xs) auto
    then show ?thesis unfolding one configured_def by (auto simp: image_iff) force+
  qed
  have cls: "(\<exists>l. (c, l) \<in> set (class_candidates p s)) \<longleftrightarrow>
      (c = REQUIRE \<and> pe_effect_class p = EXTERNAL_DESTRUCTIVE)
      \<or> (c = ASK \<and> (pe_effect_class p = UNKNOWN
            \<or> (pe_effect_class p = EXTERNAL_REVERSIBLE \<and> \<not> allow_always_eligible p s)))
      \<or> (c = BLOCK \<and> (pe_effect_class p = NONE \<or> pe_effect_class p = INTERNAL_REVERSIBLE))"
    by (cases "pe_effect_class p") (simp_all add: class_candidates_def)
  have risk: "(\<exists>l. (c, l) \<in> set (risk_candidates p s)) \<longleftrightarrow>
      (c = REQUIRE \<and> (pe_agent_hold p \<or> ps_sensitive_target s)) \<or> (c = ASK \<and> \<not> ps_descriptor_known s)"
    by (cases "pe_agent_hold p"; cases "ps_sensitive_target s"; cases "ps_descriptor_known s")
       (simp_all add: risk_candidates_def ex_disj_distrib)
  have allow: "(\<exists>l. (c, l) \<in> set (if allow_always_eligible p s then [(AUTO, ''allow_always'')] else [])) \<longleftrightarrow>
      c = AUTO \<and> allow_always_eligible p s"
    by simp
  show ?thesis
    unfolding policy_candidates_def set_append Un_iff ex_disj_distrib cfg cls risk allow
    by (cases c) auto
qed

lemma configured_candidate_ge:
  assumes "c \<in> configured s"
  shows "\<exists>d l. (d, l) \<in> set (policy_candidates p s) \<and> c \<le> d"
proof (cases "c = AUTO")
  case True
  with candidates_nonempty [of p s] show ?thesis by (cases "policy_candidates p s") auto
next
  case False
  with assms have "\<exists>l. (c, l) \<in> set (policy_candidates p s)"
    unfolding candidate_iff by (cases c) simp_all
  then show ?thesis by blast
qed

text \<open>A tighter snapshot: fewer permissions, more risk, every configured policy at least as strict.\<close>

fun policy_opt_le :: "effect_policy option \<Rightarrow> effect_policy option \<Rightarrow> bool" where
  "policy_opt_le None q = True"
| "policy_opt_le (Some p) None = False"
| "policy_opt_le (Some p) (Some q) = (p \<le> q)"

definition tighter :: "policy_snapshot \<Rightarrow> policy_snapshot \<Rightarrow> bool" where
  "tighter s t \<longleftrightarrow>
     (ps_descriptor_known t \<longrightarrow> ps_descriptor_known s)
     \<and> (ps_allow_always t \<longrightarrow> ps_allow_always s)
     \<and> (ps_sensitive_target s \<longrightarrow> ps_sensitive_target t)
     \<and> list_all2 (\<lambda>(v, _) (w, _). policy_opt_le v w) (named_policies s) (named_policies t)"

lemma tighter_configured:
  assumes "tighter s t" and "c \<in> configured s"
  shows "\<exists>d \<in> configured t. c \<le> d"
proof -
  from assms(2) obtain n where v: "(Some c, n) \<in> set (named_policies s)"
    by (auto simp: configured_def)
  from assms(1) have "list_all2 (\<lambda>(v, _) (w, _). policy_opt_le v w) (named_policies s) (named_policies t)"
    by (simp add: tighter_def)
  with v obtain w m where w: "(w, m) \<in> set (named_policies t)" and le: "policy_opt_le (Some c) w"
    by (auto simp: list_all2_conv_all_nth in_set_conv_nth) fastforce
  from le obtain d where "w = Some d" and "c \<le> d" by (cases w) auto
  with w show ?thesis by (force simp: configured_def)
qed

lemma tighter_eligible: "tighter s t \<Longrightarrow> allow_always_eligible p t \<Longrightarrow> allow_always_eligible p s"
  by (auto simp: tighter_def allow_always_eligible_def)

section \<open>The resolver against its specification\<close>

text \<open>
  What the resolver promises: a floor that depends on the risk of the proposal alone, raised to
  the strictest configured policy.
\<close>

definition policy_floor :: "proposed_effect \<Rightarrow> policy_snapshot \<Rightarrow> effect_policy" where
  "policy_floor p s =
     (if pe_effect_class p = NONE \<or> pe_effect_class p = INTERNAL_REVERSIBLE then BLOCK
      else if pe_effect_class p = EXTERNAL_DESTRUCTIVE \<or> pe_agent_hold p \<or> ps_sensitive_target s then REQUIRE
      else if allow_always_eligible p s then AUTO else ASK)"

lemma finite_configured: "finite (configured s)"
  by (rule finite_subset [of _ "{AUTO, ASK, REQUIRE, BLOCK}"])
     (auto, metis effect_policy.exhaust)

lemma policy_eqI: "(\<And>q :: effect_policy. q \<le> a \<longleftrightarrow> q \<le> b) \<Longrightarrow> a = b"
  by (meson order.antisym order.refl)

lemma floor_candidate: "\<exists>l. (policy_floor p s, l) \<in> set (policy_candidates p s)"
  unfolding candidate_iff
  by (cases "pe_effect_class p") (auto simp: policy_floor_def allow_always_eligible_def)

lemma candidate_below_spec:
  assumes "(c, l) \<in> set (policy_candidates p s)"
  shows "c \<le> policy_floor p s \<or> (\<exists>d \<in> configured s. c \<le> d)"
proof -
  from assms have "\<exists>l. (c, l) \<in> set (policy_candidates p s)" by blast
  then show ?thesis
    unfolding candidate_iff
    by (cases c; cases "pe_effect_class p") (auto simp: policy_floor_def allow_always_eligible_def)
qed

lemma resolve_policy_spec:
  assumes "resolve p s = Inr r"
  shows "res_policy r = Max (insert (policy_floor p s) (configured s))"
proof (rule policy_eqI)
  fix q
  have "q \<le> res_policy r \<longleftrightarrow> q \<le> policy_floor p s \<or> (\<exists>d \<in> configured s. q \<le> d)"
    unfolding resolve_ge_iff [OF assms]
    using floor_candidate [of p s] configured_candidate_ge [of _ s p] candidate_below_spec [of _ _ p s]
    by (meson order.trans)
  also have "\<dots> \<longleftrightarrow> q \<le> Max (insert (policy_floor p s) (configured s))"
    by (subst Max_ge_iff) (auto simp: finite_configured)
  finally show "q \<le> res_policy r \<longleftrightarrow> q \<le> Max (insert (policy_floor p s) (configured s))" .
qed

lemma resolve_auto_eligible:
  assumes "resolve p s = Inr r" and "res_policy r = AUTO"
  shows "allow_always_eligible p s"
proof -
  from assms(1) have "policy_floor p s \<le> res_policy r"
    by (simp add: resolve_policy_spec finite_configured)
  with assms(2) show ?thesis by (simp add: policy_floor_def split: if_splits)
qed

text \<open>C18: The resolver never raises. The policy it returns is exactly the larger of the risk
  floor of the proposal and every configured policy, automatic approval is allowed exactly when
  that policy is \<open>AUTO\<close>, and at least one reason is given.\<close>

theorem resolve_refines_policy_spec:
  "\<exists>r. resolve p s = Inr r
     \<and> res_policy r = Max (insert (policy_floor p s) (configured s))
     \<and> res_auto_approval_allowed r = (res_policy r = AUTO)
     \<and> res_reasons r \<noteq> []"
proof -
  obtain r where r: "resolve p s = Inr r" using resolve_total by blast
  obtain l where "(res_policy r, l) \<in> set (policy_candidates p s)"
    and a: "res_auto_approval_allowed r = (res_policy r = AUTO \<and> allow_always_eligible p s)"
    and reasons: "res_reasons r = map snd (filter (\<lambda>(c, _). c = res_policy r) (policy_candidates p s))"
    by (rule resolve_cases [OF r])
  then have "l \<in> set (res_reasons r)" by force
  then have "res_reasons r \<noteq> []" by auto
  with r a resolve_policy_spec [OF r] resolve_auto_eligible [OF r] show ?thesis by blast
qed

text \<open>Tightening a policy snapshot (revoking allow-always, marking the target sensitive,
  losing the descriptor, or making any of the five configured policies stricter) never yields a
  more permissive stage policy.\<close>

theorem resolve_monotone:
  assumes "tighter s t" and "resolve p s = Inr r" and "resolve p t = Inr q"
  shows "res_policy r \<le> res_policy q"
proof -
  have fl: "policy_floor p s \<le> policy_floor p t"
    using tighter_eligible [OF assms(1), of p] assms(1)
    by (auto simp: policy_floor_def tighter_def)
  have "\<exists>d \<in> insert (policy_floor p t) (configured t). c \<le> d"
    if "c \<in> insert (policy_floor p s) (configured s)" for c
    using that fl tighter_configured [OF assms(1), of c] by blast
  then show ?thesis
    unfolding resolve_policy_spec [OF assms(2)] resolve_policy_spec [OF assms(3)]
    by (subst Max_le_iff) (auto simp: finite_configured Max_ge_iff)
qed

definition sample_target :: effect_target where
  "sample_target = \<lparr>tg_executor = MCP, tg_capability = ''crm'', tg_op = ''update'',
     tg_target_ref = ''mcp://crm/contact-7'', tg_precondition_ref = None, tg_display_label = ''Contact''\<rparr>"

definition sample_effect :: proposed_effect where
  "sample_effect = \<lparr>pe_operation_id = ''op_00000000-0000-4000-8000-000000000001'', pe_executor = MCP,
     pe_target = sample_target, pe_target_digest = replicate 64 (CHR ''a''),
     pe_display_target = ''Contact'', pe_kind = CANONICAL_ARGUMENTS,
     pe_content_ref = ''artifact://a1/revisions/1'', pe_digest = replicate 64 (CHR ''b''),
     pe_media_type = ''application/json'', pe_precondition_ref = None, pe_precondition_digest = None,
     pe_effect_class = EXTERNAL_REVERSIBLE, pe_policy_snapshot_ref = ''policy://s1'',
     pe_agent_hold = False, pe_safe_summary_ref = None, pe_projection_required = False\<rparr>"

definition sample_snapshot :: policy_snapshot where
  "sample_snapshot = \<lparr>ps_snapshot_ref = ''policy://s1'', ps_descriptor_known = True,
     ps_deployment = Some AUTO, ps_organization = None, ps_grant = None, ps_capability = None,
     ps_user = None, ps_allow_always = True, ps_sensitive_target = False\<rparr>"

theorem resolve_monotone_witness:
  "\<exists>r q. resolve sample_effect sample_snapshot = Inr r \<and> res_policy r = AUTO
     \<and> resolve sample_effect (sample_snapshot\<lparr>ps_user := Some REQUIRE\<rparr>) = Inr q
     \<and> res_policy r \<le> res_policy q"
proof -
  let ?t = "sample_snapshot\<lparr>ps_user := Some REQUIRE\<rparr>"
  obtain r where r: "resolve sample_effect sample_snapshot = Inr r" and "res_policy r = AUTO"
    by (simp add: resolve_def policy_candidates_def class_candidates_def risk_candidates_def
        named_policies_def allow_always_eligible_def sample_effect_def sample_snapshot_def Let_def)
  moreover obtain q where q: "resolve sample_effect ?t = Inr q" using resolve_total by blast
  moreover have "tighter sample_snapshot ?t"
    by (simp add: tighter_def named_policies_def sample_snapshot_def)
  ultimately show ?thesis using resolve_monotone [of sample_snapshot ?t sample_effect r q] by blast
qed

end
