(* ===== verification/EffectFold.thy ===== *)
theory EffectFold
  imports EffectContracts "HOL-Library.Product_Lexorder" "HOL-Library.List_Lexorder" "HOL-Library.Char_ord"
begin

text \<open>
  The fold of \<open>agent_runtime/effects/fold.py\<close> that turns the events of one stage into its
  state, and the event envelope of \<open>effects/ports.py\<close>. The fold is tolerant: an event that
  does not parse or does not fit leaves the state as it was. The invariant \<open>stage_wf\<close> says what
  every state it returns satisfies, for any list of events whatsoever.
\<close>

section \<open>Events and payload access\<close>

record structural_event =
  ev_run_id :: string
  ev_ledger_id :: string
  ev_sequence_no :: int
  ev_event_type :: string
  ev_payload :: dict
  ev_created_at :: string

definition p_string :: "dict \<Rightarrow> string \<Rightarrow> string result" where
  "p_string d k = rbind (dindex d k) (\<lambda>v. case v of JStr s \<Rightarrow> Inr s | _ \<Rightarrow> Inl ValueError)"

definition p_optional_string :: "dict \<Rightarrow> string \<Rightarrow> string option result" where
  "p_optional_string d k =
     (case dget d k JNull of JNull \<Rightarrow> Inr None | JStr s \<Rightarrow> Inr (Some s) | _ \<Rightarrow> Inl ValueError)"

definition p_integer :: "dict \<Rightarrow> string \<Rightarrow> int result" where
  "p_integer d k = rbind (dindex d k) (\<lambda>v. case v of JInt i \<Rightarrow> Inr i | _ \<Rightarrow> Inl ValueError)"

definition p_bool :: "dict \<Rightarrow> string \<Rightarrow> bool result" where
  "p_bool d k = (case dget d k (JBool False) of JBool b \<Rightarrow> Inr b | _ \<Rightarrow> Inl ValueError)"

definition p_version :: "dict \<Rightarrow> unit result" where
  "p_version d = require (dget d ''v'' (JInt 1) = JInt 1) ValueError"

definition p_optional_row_keys :: "dict \<Rightarrow> string list option result" where
  "p_optional_row_keys d =
     (case dget d ''row_keys'' JNull of
        JNull \<Rightarrow> Inr None
      | JArr js \<Rightarrow>
          (case json_strs js of
             None \<Rightarrow> Inl ValueError
           | Some ks \<Rightarrow>
               if ks \<noteq> [] \<and> [] \<notin> set ks \<and> distinct ks then Inr (Some ks) else Inl ValueError)
      | _ \<Rightarrow> Inl ValueError)"

text \<open>\<open>bool(value)\<close>; a float is false when its digits are all zero.\<close>

fun truthy :: "json \<Rightarrow> bool" where
  "truthy JNull = False"
| "truthy (JBool b) = b"
| "truthy (JInt i) = (i \<noteq> 0)"
| "truthy (JFloat s) = (\<not> list_all (\<lambda>c. c \<in> {CHR ''0'', CHR ''.'', CHR ''-''}) (takeWhile (\<lambda>c. c \<noteq> CHR ''e'') s))"
| "truthy (JStr s) = (s \<noteq> [])"
| "truthy (JArr js) = (js \<noteq> [])"
| "truthy (JObj kvs) = (kvs \<noteq> [])"

definition event_stage_id :: "structural_event \<Rightarrow> string option" where
  "event_stage_id ev = (case dget (ev_payload ev) ''stage_id'' JNull of JStr s \<Rightarrow> Some s | _ \<Rightarrow> None)"

definition validate_proposal_content_ref :: "string \<Rightarrow> string result" where
  "validate_proposal_content_ref s = (if immutable_content_ref s then Inr s else Inl ValueError)"

definition normalise_proposal_references :: "dict \<Rightarrow> string \<Rightarrow> int \<Rightarrow> (string \<times> string option) result" where
  "normalise_proposal_references d stage_id revision =
     rbind (p_string d ''proposal_ref'') (\<lambda>raw.
     rbind (p_optional_string d ''proposal_content_ref'') (\<lambda>content.
     rbind (proposal_format stage_id revision) (\<lambda>canonical.
     case proposal_parse raw of
       Inl _ \<Rightarrow>
         if content \<noteq> None then Inl ValueError
         else rbind (validate_proposal_content_ref raw) (\<lambda>c. Inr (canonical, Some c))
     | Inr p \<Rightarrow>
         if pp_stage_id p \<noteq> stage_id \<or> pp_revision p \<noteq> revision then Inl ValueError
         else Inr (raw, content))))"

section \<open>The first event of a stage\<close>

definition parse_author :: "dict \<Rightarrow> string \<Rightarrow> string \<Rightarrow> actor_identity result" where
  "parse_author d kind ref =
     rbind (p_string d kind) (\<lambda>a.
     rbind (effect_actor_of a) (\<lambda>actor.
     rbind (p_string d ref) (actor_make actor)))"

definition parse_target :: "dict \<Rightarrow> effect_executor_kind \<Rightarrow> effect_target result" where
  "parse_target d executor =
     rbind (p_string d ''capability'') (\<lambda>capability.
     rbind (p_string d ''op'') (\<lambda>operation.
     rbind (p_string d ''target_ref'') (\<lambda>target_ref.
     rbind (p_optional_string d ''precondition_ref'') (\<lambda>precondition_ref.
     rbind (p_string d ''display_target'') (\<lambda>label.
     target_make \<lparr>tg_executor = executor, tg_capability = capability, tg_op = operation,
       tg_target_ref = target_ref, tg_precondition_ref = precondition_ref,
       tg_display_label = label\<rparr>)))))"

text \<open>
  The fields that \<open>_state_from_staged\<close> and \<open>_apply_revision\<close> read for a revision, with the
  target reference and the diff reference as each of them passes it.
\<close>

definition parse_revision_fields ::
  "dict \<Rightarrow> int \<Rightarrow> string \<Rightarrow> string option \<Rightarrow> string \<Rightarrow> string option \<Rightarrow> actor_identity \<Rightarrow> string
     \<Rightarrow> stage_revision result" where
  "parse_revision_fields d revision proposal_ref content target_ref diff author created_at =
     rbind (p_string d ''proposal_kind'') (\<lambda>kind_text.
     rbind (proposal_kind_of kind_text) (\<lambda>kind.
     rbind (p_string d ''proposal_digest'') (\<lambda>digest.
     rbind (p_string d ''proposal_media_type'') (\<lambda>media.
     rbind (p_string d ''target_digest'') (\<lambda>target_digest.
     rbind (p_string d ''display_target'') (\<lambda>display.
     rbind (p_optional_string d ''precondition_ref'') (\<lambda>pre_ref.
     rbind (p_optional_string d ''precondition_digest'') (\<lambda>pre_digest.
     stage_revision_make
       \<lparr>rv_revision = revision, rv_kind = kind, rv_proposal_ref = proposal_ref,
        rv_content_ref = content, rv_digest = digest, rv_media_type = media,
        rv_target_ref = target_ref, rv_target_digest = target_digest, rv_display_target = display,
        rv_precondition_ref = pre_ref, rv_precondition_digest = pre_digest,
        rv_safe_diff_ref = diff, rv_author = author, rv_created_at = created_at\<rparr>))))))))"

definition staged_state :: "structural_event \<Rightarrow> stage_state result" where
  "staged_state ev = (let d = ev_payload ev in
     rbind (p_version d) (\<lambda>_.
     rbind (p_string d ''stage_id'') (\<lambda>stage_id.
     rbind (normalise_proposal_references d stage_id 1) (\<lambda>(proposal_ref, content).
     rbind (p_string d ''executor'') (\<lambda>executor_text.
     rbind (executor_kind_of executor_text) (\<lambda>executor.
     rbind (parse_target d executor) (\<lambda>target.
     rbind (p_string d ''policy'') (\<lambda>policy_text.
     rbind (effect_policy_of policy_text) (\<lambda>policy.
     rbind (parse_author d ''author_actor'' ''author_ref'') (\<lambda>author.
     rbind (p_string d ''owner_ref'') (\<lambda>owner_ref.
     rbind (p_string d ''created_at'') (\<lambda>created_at.
     rbind (parse_revision_fields d 1 proposal_ref content (tg_target_ref target) None author created_at)
       (\<lambda>revision.
     rbind (scope_make (ev_run_id ev) owner_ref) (\<lambda>scope.
     rbind (p_string d ''operation_id'') (\<lambda>operation_id.
     rbind (p_string d ''target_digest'') (\<lambda>target_digest.
     rbind (p_string d ''display_target'') (\<lambda>display.
     rbind (p_string d ''effect_class'') (\<lambda>class_text.
     rbind (effect_class_of class_text) (\<lambda>cls.
     rbind (p_string d ''policy_snapshot_ref'') (\<lambda>snapshot_ref.
     rbind (p_bool d ''agent_hold'') (\<lambda>agent_hold.
     stage_state_make
       \<lparr>st_stage_id = stage_id, st_scope = scope, st_operation_id = operation_id,
        st_executor = executor, st_target = target, st_target_digest = target_digest,
        st_display_target = display, st_effect_class = cls, st_policy_snapshot_ref = snapshot_ref,
        st_policy = policy, st_agent_hold = agent_hold, st_revisions = [revision],
        st_status = (if policy = AUTO then PROPOSED else HELD),
        st_projection_required = truthy (dget d ''projection_required'' (JBool False)),
        st_projection_binding = None, st_decision = None, st_row_decisions = [],
        st_superseded_revision = None, st_created_at = created_at,
        st_updated_at = created_at\<rparr>)))))))))))))))))))))"

text \<open>
  \<open>except (KeyError, TypeError, ValueError, ValidationError)\<close>: every exception these parsers
  raise is one of them.
\<close>

definition state_from_staged :: "structural_event \<Rightarrow> stage_state option" where
  "state_from_staged ev = (case staged_state ev of Inl _ \<Rightarrow> None | Inr s \<Rightarrow> Some s)"

section \<open>The later events\<close>

definition revision_retains_target :: "stage_state \<Rightarrow> stage_revision \<Rightarrow> bool" where
  "revision_retains_target s r \<longleftrightarrow>
     rv_target_ref r = tg_target_ref (st_target s) \<and> rv_target_digest r = st_target_digest s
     \<and> rv_display_target r = st_display_target s
     \<and> rv_precondition_ref r = rv_precondition_ref (current_revision s)
     \<and> rv_precondition_digest r = rv_precondition_digest (current_revision s)"

definition parse_revised :: "stage_state \<Rightarrow> structural_event \<Rightarrow> stage_revision result" where
  "parse_revised s ev = (let d = ev_payload ev in
     rbind (p_version d) (\<lambda>_.
     rbind (p_integer d ''revision'') (\<lambda>revision_no.
     rbind (require (revision_no = rv_revision (current_revision s) + 1) ValueError) (\<lambda>_.
     rbind (normalise_proposal_references d (st_stage_id s) revision_no) (\<lambda>(proposal_ref, content).
     rbind (p_string d ''target_ref'') (\<lambda>target_ref.
     rbind (p_optional_string d ''safe_diff_ref'') (\<lambda>diff.
     rbind (parse_author d ''author_actor'' ''author_ref'') (\<lambda>author.
     rbind (p_string d ''created_at'') (\<lambda>created_at.
     parse_revision_fields d revision_no proposal_ref content target_ref diff author created_at)))))))))"

definition approved_revision :: "stage_state \<Rightarrow> int option" where
  "approved_revision s =
     (if st_status s = APPROVED then map_option dc_revision (st_decision s) else None)"

definition apply_revision :: "stage_state \<Rightarrow> structural_event \<Rightarrow> stage_state" where
  "apply_revision s ev =
     (if st_status s = CANCELLED then s
      else (case parse_revised s ev of
          Inl _ \<Rightarrow> s
        | Inr revision \<Rightarrow>
            if \<not> revision_retains_target s revision then s
            else s\<lparr>st_revisions := st_revisions s @ [revision],
                   st_status := (if approved_revision s \<noteq> None then HELD else REVISED),
                   st_decision := None,
                   st_row_decisions := [],
                   st_projection_binding := None,
                   st_superseded_revision := approved_revision s,
                   st_updated_at := ev_created_at ev\<rparr>))"

definition parse_binding :: "structural_event \<Rightarrow> projection_binding result" where
  "parse_binding ev = (let d = ev_payload ev in
     rbind (p_version d) (\<lambda>_.
     rbind (p_integer d ''revision'') (\<lambda>revision.
     rbind (p_string d ''projection_ref'') (\<lambda>projection_ref.
     rbind (p_string d ''proposal_digest'') (\<lambda>digest.
     rbind (p_string d ''target_digest'') (\<lambda>target_digest.
     rbind (p_string d ''bound_at'') (\<lambda>bound_at.
     projection_binding_make
       \<lparr>pb_revision = revision, pb_projection_ref = projection_ref, pb_proposal_digest = digest,
        pb_target_digest = target_digest, pb_bound_at = bound_at,
        pb_ledger_id = ev_ledger_id ev\<rparr>)))))))"

definition apply_projection_binding :: "stage_state \<Rightarrow> structural_event \<Rightarrow> stage_state" where
  "apply_projection_binding s ev =
     (if \<not> st_projection_required s \<or> st_status s = CANCELLED then s
      else (case parse_binding ev of
          Inl _ \<Rightarrow> s
        | Inr binding \<Rightarrow>
            if \<not> binding_current s binding then s
            else if st_projection_binding s \<noteq> None then s
            else s\<lparr>st_projection_binding := Some binding, st_updated_at := ev_created_at ev\<rparr>))"

definition undecided :: "stage_status \<Rightarrow> bool" where
  "undecided st \<longleftrightarrow> st = PROPOSED \<or> st = HELD \<or> st = REVISED"

definition parse_decision :: "structural_event \<Rightarrow> stage_decision result" where
  "parse_decision ev = (let d = ev_payload ev in
     rbind (p_version d) (\<lambda>_.
     rbind (p_integer d ''revision'') (\<lambda>revision.
     rbind (p_string d ''decision'') (\<lambda>kind_text.
     rbind (decision_kind_of kind_text) (\<lambda>kind.
     rbind (parse_author d ''actor'' ''actor_ref'') (\<lambda>actor.
     rbind (p_string d ''proposal_digest'') (\<lambda>digest.
     rbind (p_string d ''target_digest'') (\<lambda>target_digest.
     rbind (p_string d ''decided_at'') (\<lambda>decided_at.
     rbind (p_optional_row_keys d) (\<lambda>row_keys.
     stage_decision_make
       \<lparr>dc_revision = revision, dc_decision = kind, dc_actor = actor, dc_proposal_digest = digest,
        dc_target_digest = target_digest, dc_decided_at = decided_at,
        dc_ledger_id = ev_ledger_id ev, dc_row_keys = row_keys\<rparr>))))))))))"

definition decision_fits :: "stage_state \<Rightarrow> stage_decision \<Rightarrow> bool" where
  "decision_fits s d \<longleftrightarrow>
     dc_revision d = rv_revision (current_revision s)
     \<and> dc_proposal_digest d = rv_digest (current_revision s)
     \<and> dc_target_digest d = st_target_digest s
     \<and> dc_decision d \<in> {APPROVE, REJECT, CANCEL}
     \<and> \<not> (ai_actor (dc_actor d) = POLICY \<and> st_policy s \<noteq> AUTO)
     \<and> \<not> (dc_decision d = APPROVE \<and> \<not> approval_ready s)"

text \<open>\<open>status_by_decision\<close>; \<open>RESTORE\<close> has no status and never gets this far.\<close>

fun status_of_decision :: "effect_decision_kind \<Rightarrow> stage_status" where
  "status_of_decision APPROVE = APPROVED"
| "status_of_decision REJECT = REJECTED"
| "status_of_decision CANCEL = CANCELLED"
| "status_of_decision RESTORE = SUPERSEDED"

definition apply_decision :: "stage_state \<Rightarrow> structural_event \<Rightarrow> stage_state" where
  "apply_decision s ev =
     (if \<not> undecided (st_status s) \<or> st_policy s = BLOCK then s
      else (case parse_decision ev of
          Inl _ \<Rightarrow> s
        | Inr d \<Rightarrow>
            if \<not> decision_fits s d then s
            else s\<lparr>st_status := status_of_decision (dc_decision d), st_decision := Some d,
                   st_updated_at := ev_created_at ev\<rparr>))"

text \<open>
  The loop over \<open>raw_decisions\<close>: it gives up on the whole event at the first bad item, and a
  row key that repeats is a bad item.
\<close>

fun parse_row_updates ::
  "actor_identity \<Rightarrow> string \<Rightarrow> string \<Rightarrow> json list \<Rightarrow> row_decision_state list \<Rightarrow> row_decision_state list result" where
  "parse_row_updates actor decided_at ledger_id [] updates = Inr updates"
| "parse_row_updates actor decided_at ledger_id (JObj item # items) updates =
     rbind (p_string item ''row_key'') (\<lambda>row_key.
     rbind (p_string item ''decision'') (\<lambda>decision.
     rbind (row_posture_of decision) (\<lambda>posture.
     if row_key \<in> rd_row_key ` set updates then Inl ValueError
     else rbind (row_decision_make \<lparr>rd_row_key = row_key, rd_decision = posture, rd_actor = actor,
                   rd_decided_at = decided_at, rd_ledger_id = ledger_id\<rparr>) (\<lambda>r.
          parse_row_updates actor decided_at ledger_id items (updates @ [r])))))"
| "parse_row_updates actor decided_at ledger_id (_ # items) updates = Inl ValueError"

definition parse_row_decisions :: "stage_state \<Rightarrow> structural_event \<Rightarrow> row_decision_state list result" where
  "parse_row_decisions s ev = (let d = ev_payload ev in
     rbind (p_version d) (\<lambda>_.
     rbind (p_integer d ''revision'') (\<lambda>revision.
     rbind (require (revision = rv_revision (current_revision s)) ValueError) (\<lambda>_.
     rbind (p_string d ''proposal_digest'') (\<lambda>digest.
     rbind (require (digest = rv_digest (current_revision s)) ValueError) (\<lambda>_.
     rbind (p_string d ''target_digest'') (\<lambda>target_digest.
     rbind (require (target_digest = st_target_digest s) ValueError) (\<lambda>_.
     rbind (parse_author d ''actor'' ''actor_ref'') (\<lambda>actor.
     rbind (p_string d ''decided_at'') (\<lambda>decided_at.
     rbind (dindex d ''decisions'') (\<lambda>raw.
     case raw of
       JArr (item # items) \<Rightarrow>
         parse_row_updates actor decided_at (ev_ledger_id ev) (item # items) []
     | _ \<Rightarrow> Inl ValueError)))))))))))"

definition merge_row_decisions ::
  "row_decision_state list \<Rightarrow> row_decision_state list \<Rightarrow> row_decision_state list" where
  "merge_row_decisions old updates =
     (let merged = map_of (rev (map (\<lambda>r. (rd_row_key r, r)) (old @ updates)))
      in map (\<lambda>k. the (merged k)) (sort (remdups (map rd_row_key (old @ updates)))))"

definition apply_row_decisions :: "stage_state \<Rightarrow> structural_event \<Rightarrow> stage_state" where
  "apply_row_decisions s ev =
     (if rv_kind (current_revision s) \<noteq> ROW_SET \<or> \<not> undecided (st_status s) then s
      else (case parse_row_decisions s ev of
          Inl _ \<Rightarrow> s
        | Inr updates \<Rightarrow>
            s\<lparr>st_row_decisions := merge_row_decisions (st_row_decisions s) updates,
              st_updated_at := ev_created_at ev\<rparr>))"

section \<open>The fold\<close>

definition apply_event :: "stage_state \<Rightarrow> structural_event \<Rightarrow> stage_state" where
  "apply_event s ev =
     (if event_stage_id ev \<noteq> Some (st_stage_id s) then s
      else if ev_event_type ev = EFFECT_REVISED then apply_revision s ev
      else if ev_event_type ev = EFFECT_PROJECTION_BOUND then apply_projection_binding s ev
      else if ev_event_type ev = EFFECT_DECISION_RECORDED then apply_decision s ev
      else if ev_event_type ev = EFFECT_ROW_DECISIONS_RECORDED then apply_row_decisions s ev
      else s)"

definition fold_step :: "stage_state option \<Rightarrow> structural_event \<Rightarrow> stage_state option" where
  "fold_step state ev =
     (if ev_event_type ev = EFFECT_STAGED
      then (case state of None \<Rightarrow> state_from_staged ev | Some s \<Rightarrow> Some s)
      else map_option (\<lambda>s. apply_event s ev) state)"

definition event_key :: "structural_event \<Rightarrow> int \<times> string" where
  "event_key ev = (ev_sequence_no ev, ev_ledger_id ev)"

definition fold_events :: "structural_event list \<Rightarrow> stage_state option" where
  "fold_events evs = foldl fold_step None (sort_key event_key evs)"

definition stage_fold :: "structural_event list \<Rightarrow> stage_state result" where
  "stage_fold evs = (case fold_events evs of None \<Rightarrow> Inl EffectStageNotFound | Some s \<Rightarrow> Inr s)"

end
