(* ===== verification/StageInvariant.thy ===== *)
theory StageInvariant
  imports EffectFold
begin

text \<open>
  What every state of \<open>EffectFold\<close> satisfies (\<open>stage_wf\<close>), how one event may change a state
  (\<open>stage_step\<close>), and the properties of the fold that follow: decisions are pinned to the exact
  current revision, an approval does not survive a revision, a cancelled stage stays cancelled,
  events of other stages are ignored and the order of delivery does not matter.
\<close>

section \<open>The invariant\<close>

definition decision_pinned :: "stage_state \<Rightarrow> stage_decision \<Rightarrow> bool" where
  "decision_pinned s d \<longleftrightarrow>
     dc_revision d = rv_revision (current_revision s)
     \<and> dc_proposal_digest d = rv_digest (current_revision s)
     \<and> dc_target_digest d = st_target_digest s
     \<and> dc_decision d \<in> {APPROVE, REJECT, CANCEL}
     \<and> st_status s = status_of_decision (dc_decision d)
     \<and> (ai_actor (dc_actor d) = POLICY \<longrightarrow> st_policy s = AUTO)
     \<and> (dc_decision d = APPROVE \<longrightarrow> approval_ready s)"

definition decision_wf :: "stage_state \<Rightarrow> bool" where
  "decision_wf s \<longleftrightarrow>
     (case st_decision s of
        None \<Rightarrow> undecided (st_status s)
      | Some d \<Rightarrow> decision_pinned s d \<and> st_policy s \<noteq> BLOCK)"

definition rows_wf :: "stage_state \<Rightarrow> bool" where
  "rows_wf s \<longleftrightarrow>
     sorted (map rd_row_key (st_row_decisions s)) \<and> distinct (map rd_row_key (st_row_decisions s))
     \<and> (st_row_decisions s \<noteq> [] \<longrightarrow> rv_kind (current_revision s) = ROW_SET)"

definition revisions_wf :: "stage_state \<Rightarrow> bool" where
  "revisions_wf s \<longleftrightarrow>
     map rv_revision (st_revisions s) = map (\<lambda>i. int i + 1) [0 ..< length (st_revisions s)]
     \<and> list_all stage_revision_ok (st_revisions s)"

definition stage_wf :: "stage_state \<Rightarrow> bool" where
  "stage_wf s \<longleftrightarrow>
     ok (stage_id_parse (st_stage_id s)) \<and> scope_ok (st_scope s) \<and> target_ok (st_target s)
     \<and> stage_consistent s \<and> revisions_wf s \<and> decision_wf s \<and> rows_wf s
     \<and> (st_projection_binding s \<noteq> None \<longrightarrow> st_projection_required s)"

lemma stage_wf_revisions: "stage_wf s \<Longrightarrow> st_revisions s \<noteq> []"
  by (simp add: stage_wf_def stage_consistent_def)

lemma current_in: "st_revisions s \<noteq> [] \<Longrightarrow> current_revision s \<in> set (st_revisions s)"
  by (simp add: current_revision_def)

lemma current_revision_number:
  assumes "stage_wf s"
  shows "rv_revision (current_revision s) = int (length (st_revisions s))"
proof -
  from assms have ne: "st_revisions s \<noteq> []" by (rule stage_wf_revisions)
  from assms have "map rv_revision (st_revisions s) = map (\<lambda>i. int i + 1) [0 ..< length (st_revisions s)]"
    by (simp add: stage_wf_def revisions_wf_def)
  then have "last (map rv_revision (st_revisions s)) = last (map (\<lambda>i. int i + 1) [0 ..< length (st_revisions s)])"
    by simp
  with ne have "rv_revision (current_revision s) = int (length (st_revisions s) - 1) + 1"
    by (simp add: current_revision_def last_map)
  with ne show ?thesis by (cases "st_revisions s") simp_all
qed

section \<open>Parsed parts are valid\<close>

lemma normalise_identifies:
  assumes "normalise_proposal_references d sid n = Inr (ref, content)"
  shows "proposal_parse ref = Inr \<lparr>pp_stage_id = sid, pp_revision = n\<rparr>"
proof -
  from assms obtain raw canonical content' where f: "proposal_format sid n = Inr canonical"
    and c: "(case proposal_parse raw of
       Inl _ \<Rightarrow> if content' \<noteq> None then Inl ValueError
         else rbind (validate_proposal_content_ref raw) (\<lambda>c. Inr (canonical, Some c))
     | Inr p \<Rightarrow> if pp_stage_id p \<noteq> sid \<or> pp_revision p \<noteq> n then Inl ValueError
         else Inr (raw, content')) = Inr (ref, content)"
    unfolding normalise_proposal_references_def rbind_Inr_iff by blast
  show ?thesis
  proof (cases "proposal_parse raw")
    case (Inl e)
    with c have "ref = canonical" by (auto simp: rbind_Inr_iff split: if_splits)
    with proposal_format_parse [OF f] show ?thesis by simp
  next
    case (Inr p)
    with c have "ref = raw" and "pp_stage_id p = sid" and "pp_revision p = n"
      by (auto split: if_splits)
    with Inr show ?thesis by simp
  qed
qed

lemma parse_revision_fields_Inr:
  assumes "parse_revision_fields d n ref content target diff author created = Inr r"
  shows "stage_revision_ok r" and "rv_revision r = n" and "rv_proposal_ref r = ref"
    and "rv_target_ref r = target" and "rv_author r = author"
    and "p_string d ''target_digest'' = Inr (rv_target_digest r)"
    and "p_string d ''display_target'' = Inr (rv_display_target r)"
    and "p_string d ''proposal_digest'' = Inr (rv_digest r)"
proof -
  from assms obtain r' where m: "stage_revision_make r' = Inr r" and "rv_revision r' = n"
    and "rv_proposal_ref r' = ref" and "rv_target_ref r' = target" and "rv_author r' = author"
    and "p_string d ''target_digest'' = Inr (rv_target_digest r')"
    and "p_string d ''display_target'' = Inr (rv_display_target r')"
    and "p_string d ''proposal_digest'' = Inr (rv_digest r')"
    unfolding parse_revision_fields_def rbind_Inr_iff by fastforce
  moreover from m show "stage_revision_ok r" by (blast dest: stage_revision_make_ok)
  moreover from m have "r = r'\<lparr>rv_media_type := lower (rv_media_type r')\<rparr>"
    by (blast dest: stage_revision_make_ok)
  ultimately show "rv_revision r = n" and "rv_proposal_ref r = ref"
    and "rv_target_ref r = target" and "rv_author r = author"
    and "p_string d ''target_digest'' = Inr (rv_target_digest r)"
    and "p_string d ''display_target'' = Inr (rv_display_target r)"
    and "p_string d ''proposal_digest'' = Inr (rv_digest r)"
    by simp_all
qed

lemma stage_state_make_Inr:
  "stage_state_make s = Inr t \<Longrightarrow>
     t = s \<and> ok (stage_id_parse (st_stage_id s)) \<and> stage_consistent s"
  by (auto simp: stage_state_make_def split: if_splits)

lemma scope_make_Inr: "scope_make run owner = Inr sc \<Longrightarrow>
    scope_ok sc \<and> sc = \<lparr>sc_run_id = run, sc_owner_ref = owner\<rparr>"
  by (auto simp: scope_make_def Let_def split: if_splits)

lemma parse_target_Inr: "parse_target d x = Inr t \<Longrightarrow> target_ok t \<and> tg_executor t = x"
  by (auto simp: parse_target_def target_make_def rbind_Inr_iff split: if_splits)

lemma state_from_staged_wf:
  assumes "state_from_staged ev = Some s"
  shows "stage_wf s" and "length (st_revisions s) = 1" and "sc_run_id (st_scope s) = ev_run_id ev"
    and "event_stage_id ev = Some (st_stage_id s)" and "st_decision s = None"
    and "tg_executor (st_target s) = st_executor s"
proof -
  from assms have "staged_state ev = Inr s" by (simp add: state_from_staged_def split: sum.splits)
  then obtain ref content exec target author created r owner where
    sid: "p_string (ev_payload ev) ''stage_id'' = Inr (st_stage_id s)"
    and target: "parse_target (ev_payload ev) exec = Inr target"
    and r: "parse_revision_fields (ev_payload ev) 1 ref content (tg_target_ref target) None author created = Inr r"
    and scope: "scope_make (ev_run_id ev) owner = Inr (st_scope s)"
    and made: "ok (stage_id_parse (st_stage_id s))" "stage_consistent s"
    and s: "st_target s = target" "st_revisions s = [r]" "st_decision s = None"
      "st_projection_binding s = None" "st_row_decisions s = []" "st_executor s = exec"
      "st_status s = (if st_policy s = AUTO then PROPOSED else HELD)"
    unfolding staged_state_def Let_def rbind_Inr_iff
    by (auto dest!: stage_state_make_Inr simp: rbind_Inr_iff)
  note target = parse_target_Inr [OF target]
  from scope_make_Inr [OF scope] have "scope_ok (st_scope s)" by blast
  with s made target parse_revision_fields_Inr [OF r]
  show "stage_wf s"
    by (simp add: stage_wf_def revisions_wf_def decision_wf_def rows_wf_def undecided_def)
  from s show "length (st_revisions s) = 1" and "st_decision s = None" by simp_all
  from s target show "tg_executor (st_target s) = st_executor s" by simp
  from scope_make_Inr [OF scope] show "sc_run_id (st_scope s) = ev_run_id ev"
    by (cases "st_scope s") simp
  from sid show "event_stage_id ev = Some (st_stage_id s)"
    by (auto simp: p_string_def dindex_def event_stage_id_def dget_def rbind_Inr_iff
        split: option.splits json.splits)
qed

section \<open>One event\<close>

lemma parse_revised_Inr:
  assumes "parse_revised s ev = Inr r"
  shows "stage_revision_ok r" and "rv_revision r = rv_revision (current_revision s) + 1"
    and "proposal_parse (rv_proposal_ref r) = Inr \<lparr>pp_stage_id = st_stage_id s, pp_revision = rv_revision r\<rparr>"
proof -
  from assms obtain n ref content target diff author created where
    n: "n = rv_revision (current_revision s) + 1"
    and nr: "normalise_proposal_references (ev_payload ev) (st_stage_id s) n = Inr (ref, content)"
    and r: "parse_revision_fields (ev_payload ev) n ref content target diff author created = Inr r"
    unfolding parse_revised_def Let_def rbind_Inr_iff by (auto simp: rbind_Inr_iff)
  from parse_revision_fields_Inr [OF r] n normalise_identifies [OF nr]
  show "stage_revision_ok r" and "rv_revision r = rv_revision (current_revision s) + 1"
    and "proposal_parse (rv_proposal_ref r) = Inr \<lparr>pp_stage_id = st_stage_id s, pp_revision = rv_revision r\<rparr>"
    by simp_all
qed

lemma apply_revision_split:
  "apply_revision s ev = s \<or> (\<exists>r. st_status s \<noteq> CANCELLED \<and> parse_revised s ev = Inr r \<and> revision_retains_target s r
     \<and> apply_revision s ev = s\<lparr>st_revisions := st_revisions s @ [r],
             st_status := (if approved_revision s \<noteq> None then HELD else REVISED),
             st_decision := None, st_row_decisions := [], st_projection_binding := None,
             st_superseded_revision := approved_revision s, st_updated_at := ev_created_at ev\<rparr>)"
  by (auto simp: apply_revision_def split: sum.split)

lemma apply_revision_cases:
  obtains (kept) "apply_revision s ev = s"
    | (revised) r where "st_status s \<noteq> CANCELLED" and "parse_revised s ev = Inr r" and "revision_retains_target s r"
      and "apply_revision s ev = s\<lparr>st_revisions := st_revisions s @ [r],
             st_status := (if approved_revision s \<noteq> None then HELD else REVISED),
             st_decision := None, st_row_decisions := [], st_projection_binding := None,
             st_superseded_revision := approved_revision s, st_updated_at := ev_created_at ev\<rparr>"
  using apply_revision_split [of s ev] that by blast

lemma apply_projection_binding_split:
  "apply_projection_binding s ev = s \<or> (\<exists>b. st_projection_required s \<and> binding_current s b \<and> st_projection_binding s = None \<and> st_status s \<noteq> CANCELLED
     \<and> apply_projection_binding s ev = s\<lparr>st_projection_binding := Some b, st_updated_at := ev_created_at ev\<rparr>)"
  by (auto simp: apply_projection_binding_def split: sum.split)

lemma apply_binding_cases:
  obtains (kept) "apply_projection_binding s ev = s"
    | (bound) b where "st_projection_required s" and "binding_current s b" and "st_projection_binding s = None" and "st_status s \<noteq> CANCELLED"
      and "apply_projection_binding s ev = s\<lparr>st_projection_binding := Some b, st_updated_at := ev_created_at ev\<rparr>"
  using apply_projection_binding_split [of s ev] that by blast

lemma apply_decision_split:
  "apply_decision s ev = s \<or> (\<exists>d. undecided (st_status s) \<and> st_policy s \<noteq> BLOCK \<and> parse_decision ev = Inr d \<and> decision_fits s d
     \<and> apply_decision s ev = s\<lparr>st_status := status_of_decision (dc_decision d), st_decision := Some d,
             st_updated_at := ev_created_at ev\<rparr>)"
  by (auto simp: apply_decision_def split: sum.split)

lemma apply_decision_cases:
  obtains (kept) "apply_decision s ev = s"
    | (decided) d where "undecided (st_status s)" and "st_policy s \<noteq> BLOCK" and "parse_decision ev = Inr d" and "decision_fits s d"
      and "apply_decision s ev = s\<lparr>st_status := status_of_decision (dc_decision d), st_decision := Some d,
             st_updated_at := ev_created_at ev\<rparr>"
  using apply_decision_split [of s ev] that by blast

lemma apply_row_decisions_split:
  "apply_row_decisions s ev = s \<or> (\<exists>us. undecided (st_status s) \<and> rv_kind (current_revision s) = ROW_SET \<and> parse_row_decisions s ev = Inr us
     \<and> apply_row_decisions s ev = s\<lparr>st_row_decisions := merge_row_decisions (st_row_decisions s) us,
             st_updated_at := ev_created_at ev\<rparr>)"
  by (auto simp: apply_row_decisions_def split: sum.split)

lemma apply_rows_cases:
  obtains (kept) "apply_row_decisions s ev = s"
    | (recorded) us where "undecided (st_status s)" and "rv_kind (current_revision s) = ROW_SET" and "parse_row_decisions s ev = Inr us"
      and "apply_row_decisions s ev = s\<lparr>st_row_decisions := merge_row_decisions (st_row_decisions s) us,
             st_updated_at := ev_created_at ev\<rparr>"
  using apply_row_decisions_split [of s ev] that by blast

lemma apply_event_split:
  "apply_event s ev \<in> {s, apply_revision s ev, apply_projection_binding s ev, apply_decision s ev,
     apply_row_decisions s ev}"
  by (simp add: apply_event_def)

lemma apply_event_cases:
  obtains (kept) "apply_event s ev = s"
    | (revision) "apply_event s ev = apply_revision s ev"
    | (binding) "apply_event s ev = apply_projection_binding s ev"
    | (decision) "apply_event s ev = apply_decision s ev"
    | (rows) "apply_event s ev = apply_row_decisions s ev"
  using apply_event_split [of s ev] that by blast

lemma wf_initial_precondition:
  assumes "stage_wf s"
  shows "rv_precondition_ref (current_revision s) = rv_precondition_ref (hd (st_revisions s))"
    and "rv_precondition_digest (current_revision s) = rv_precondition_digest (hd (st_revisions s))"
proof -
  from assms have "list_all (revision_in_stage s) (st_revisions s)" and "st_revisions s \<noteq> []"
    by (simp_all add: stage_wf_def stage_consistent_def)
  then have "revision_in_stage s (current_revision s)"
    using current_in [of s] by (simp add: list_all_iff)
  then show "rv_precondition_ref (current_revision s) = rv_precondition_ref (hd (st_revisions s))"
    and "rv_precondition_digest (current_revision s) = rv_precondition_digest (hd (st_revisions s))"
    by (simp_all add: revision_in_stage_def)
qed

text \<open>The fields no event changes, and those a revision alone changes.\<close>

definition same_stage :: "stage_state \<Rightarrow> stage_state \<Rightarrow> bool" where
  "same_stage s t \<longleftrightarrow>
     st_stage_id t = st_stage_id s \<and> st_scope t = st_scope s \<and> st_operation_id t = st_operation_id s
     \<and> st_executor t = st_executor s \<and> st_target t = st_target s
     \<and> st_target_digest t = st_target_digest s \<and> st_display_target t = st_display_target s
     \<and> st_effect_class t = st_effect_class s \<and> st_policy_snapshot_ref t = st_policy_snapshot_ref s
     \<and> st_policy t = st_policy s \<and> st_agent_hold t = st_agent_hold s
     \<and> st_projection_required t = st_projection_required s \<and> st_created_at t = st_created_at s"

lemma same_stageD:
  assumes "same_stage s t"
  shows "st_stage_id t = st_stage_id s" "st_scope t = st_scope s" "st_target t = st_target s"
    "st_target_digest t = st_target_digest s" "st_display_target t = st_display_target s"
    "st_policy t = st_policy s" "st_projection_required t = st_projection_required s"
    "st_executor t = st_executor s" "st_operation_id t = st_operation_id s"
  using assms by (simp_all add: same_stage_def)

lemma same_stage_refl [simp]: "same_stage s s"
  by (simp add: same_stage_def)

lemma same_stage_trans: "same_stage s t \<Longrightarrow> same_stage t u \<Longrightarrow> same_stage s u"
  by (simp add: same_stage_def)

lemma same_revisions:
  assumes "same_stage s t" and "st_revisions t = st_revisions s"
  shows "current_revision t = current_revision s" and "revision_in_stage t = revision_in_stage s"
    and "binding_current t = binding_current s" and "revisions_wf t = revisions_wf s"
  using assms
  by (simp_all add: fun_eq_iff current_revision_def revision_in_stage_def binding_current_def
      revisions_wf_def same_stage_def)

lemma apply_revision_wf:
  assumes "stage_wf s"
  shows "stage_wf (apply_revision s ev)"
proof (cases rule: apply_revision_cases [of s ev])
  case kept
  with assms show ?thesis by simp
next
  case (revised r)
  define t where "t = apply_revision s ev"
  have t: "same_stage s t" "st_revisions t = st_revisions s @ [r]" "st_decision t = None"
    "st_row_decisions t = []" "st_projection_binding t = None" "undecided (st_status t)"
    by (simp_all add: t_def revised same_stage_def undecided_def)
  note r = parse_revised_Inr [OF revised(2)] and ne = stage_wf_revisions [OF assms]
  have same: "revision_in_stage t q = revision_in_stage s q" for q
    using ne t(1,2) by (simp add: revision_in_stage_def hd_append same_stage_def)
  have "revision_in_stage s r"
    using revised(3) wf_initial_precondition [OF assms] r(3)
    by (simp add: revision_in_stage_def revision_retains_target_def)
  moreover from assms have "list_all (revision_in_stage s) (st_revisions s)"
    by (simp add: stage_wf_def stage_consistent_def)
  ultimately have "stage_consistent t"
    using t by (simp add: stage_consistent_def list_all_iff same)
  moreover from assms r current_revision_number [OF assms] have "revisions_wf t"
    by (simp add: t(2) stage_wf_def revisions_wf_def)
  ultimately have "stage_wf t"
    using assms t by (simp add: stage_wf_def decision_wf_def rows_wf_def same_stageD [OF t(1)])
  then show ?thesis by (simp add: t_def)
qed

lemma apply_binding_wf:
  assumes "stage_wf s"
  shows "stage_wf (apply_projection_binding s ev)"
proof (cases rule: apply_binding_cases [of s ev])
  case kept
  with assms show ?thesis by simp
next
  case (bound b)
  define t where "t = apply_projection_binding s ev"
  have t: "same_stage s t" "st_revisions t = st_revisions s" "st_decision t = st_decision s"
    "st_row_decisions t = st_row_decisions s" "st_projection_binding t = Some b" "st_status t = st_status s"
    by (simp_all add: t_def bound same_stage_def)
  note same = same_revisions [OF t(1,2)] same_stageD [OF t(1)]
  from assms bound have "stage_consistent t"
    by (simp add: stage_wf_def stage_consistent_def same t)
  moreover have "decision_pinned t d" if "decision_pinned s d" for d
    using that bound by (auto simp: decision_pinned_def approval_ready_def same t)
  with assms have "decision_wf t"
    by (auto simp: stage_wf_def decision_wf_def same t split: option.splits)
  ultimately have "stage_wf t"
    using assms bound(1) by (simp add: stage_wf_def rows_wf_def same t)
  then show ?thesis by (simp add: t_def)
qed

lemma apply_decision_wf:
  assumes "stage_wf s"
  shows "stage_wf (apply_decision s ev)"
proof (cases rule: apply_decision_cases [of s ev])
  case kept
  with assms show ?thesis by simp
next
  case (decided d)
  define t where "t = apply_decision s ev"
  have t: "same_stage s t" "st_revisions t = st_revisions s" "st_decision t = Some d"
    "st_row_decisions t = st_row_decisions s" "st_projection_binding t = st_projection_binding s"
    "st_status t = status_of_decision (dc_decision d)"
    by (simp_all add: t_def decided same_stage_def)
  note same = same_revisions [OF t(1,2)] same_stageD [OF t(1)]
  have ready: "approval_ready t = approval_ready s" by (simp add: approval_ready_def same t split: option.split)
  from assms decided(4) have "stage_consistent t"
    by (simp add: stage_wf_def stage_consistent_def same t decision_fits_def)
  moreover have "decision_pinned t d"
    using decided(4) by (auto simp: decision_pinned_def ready same t decision_fits_def)
  ultimately have "stage_wf t"
    using assms decided(2) by (simp add: stage_wf_def rows_wf_def decision_wf_def same t)
  then show ?thesis by (simp add: t_def)
qed

text \<open>The dictionary a list of row decisions stands for, the later entry of a key winning.\<close>

definition row_map :: "row_decision_state list \<Rightarrow> string \<rightharpoonup> row_decision_state" where
  "row_map rs = map_of (rev (map (\<lambda>r. (rd_row_key r, r)) rs))"

lemma row_map_append: "row_map (old @ us) = row_map old ++ row_map us"
  by (simp add: row_map_def)

lemma dom_row_map: "dom (row_map rs) = rd_row_key ` set rs"
  unfolding row_map_def dom_map_of_conv_image_fst by (auto simp: image_image)

lemma row_map_key: "row_map rs k = Some r \<Longrightarrow> rd_row_key r = k"
  by (auto simp: row_map_def dest: map_of_SomeD)

lemma row_map_tabulate:
  assumes "\<And>k. k \<in> set ks \<Longrightarrow> rd_row_key (the (m k)) = k"
  shows "row_map (map (\<lambda>k. the (m k)) ks) = (\<lambda>k. Some (the (m k))) |` set ks"
proof -
  have "map (\<lambda>r. (rd_row_key r, r)) (map (\<lambda>k. the (m k)) ks) = map (\<lambda>k. (k, the (m k))) ks"
    using assms by simp
  then have "row_map (map (\<lambda>k. the (m k)) ks) = map_of (rev (map (\<lambda>k. (k, the (m k))) ks))"
    unfolding row_map_def by (simp only:)
  then have "row_map (map (\<lambda>k. the (m k)) ks) = map_of (map (\<lambda>k. (k, the (m k))) (rev ks))"
    by (simp add: rev_map)
  then show ?thesis by (simp add: map_of_map_restrict comp_def)
qed

lemma merge_alt:
  "merge_row_decisions old us =
     map (\<lambda>k. the (row_map (old @ us) k)) (sorted_list_of_set (rd_row_key ` set (old @ us)))"
  unfolding merge_row_decisions_def Let_def row_map_def [symmetric]
    sorted_list_of_set_sort_remdups [symmetric]
  by (simp add: image_Un)

lemma row_map_lookup:
  assumes "k \<in> rd_row_key ` set rs"
  shows "\<exists>r. row_map rs k = Some r \<and> rd_row_key r = k"
proof -
  from assms have "k \<in> dom (row_map rs)" by (simp add: dom_row_map)
  then obtain r where "row_map rs k = Some r" by blast
  then show ?thesis by (auto dest: row_map_key)
qed

lemma row_map_the:
  "k \<in> set (sorted_list_of_set (rd_row_key ` set rs)) \<Longrightarrow> rd_row_key (the (row_map rs k)) = k"
  using row_map_lookup [of k rs] by auto

lemma merge_row_decisions_keys:
  "map rd_row_key (merge_row_decisions old us) = sorted_list_of_set (rd_row_key ` set (old @ us))"
  unfolding merge_alt map_map comp_def using row_map_the by (intro map_idI) blast

lemma row_map_merge: "row_map (merge_row_decisions old us) = row_map (old @ us)"
proof -
  have "row_map (merge_row_decisions old us) = (\<lambda>k. Some (the (row_map (old @ us) k))) |` (rd_row_key ` set (old @ us))"
    unfolding merge_alt by (subst row_map_tabulate [OF row_map_the]) auto
  also have "\<dots> = row_map (old @ us)"
  proof
    fix k
    show "((\<lambda>k. Some (the (row_map (old @ us) k))) |` (rd_row_key ` set (old @ us))) k = row_map (old @ us) k"
    proof (cases "k \<in> rd_row_key ` set (old @ us)")
      case True
      then show ?thesis using row_map_lookup [of k "old @ us"] by (auto simp: restrict_map_def)
    next
      case False
      then have "row_map (old @ us) k = None" by (simp add: dom_row_map [symmetric] domIff del: set_append)
      with False show ?thesis by (simp add: restrict_map_def)
    qed
  qed
  finally show ?thesis .
qed

lemma merge_again: "merge_row_decisions (merge_row_decisions old us) us = merge_row_decisions old us"
proof -
  have "row_map (merge_row_decisions old us @ us) = row_map (old @ us)"
    by (auto simp: row_map_append row_map_merge map_add_def fun_eq_iff split: option.splits)
  moreover from this have "rd_row_key ` set (merge_row_decisions old us @ us) = rd_row_key ` set (old @ us)"
    by (metis dom_row_map)
  ultimately have "merge_row_decisions (merge_row_decisions old us) us =
      map (\<lambda>k. the (row_map (old @ us) k)) (sorted_list_of_set (rd_row_key ` set (old @ us)))"
    by (subst merge_alt) (simp only:)
  then show ?thesis by (simp only: merge_alt [of old us])
qed

lemma apply_rows_wf:
  assumes "stage_wf s"
  shows "stage_wf (apply_row_decisions s ev)"
proof (cases rule: apply_rows_cases [of s ev])
  case kept
  with assms show ?thesis by simp
next
  case (recorded us)
  define t where "t = apply_row_decisions s ev"
  have t: "same_stage s t" "st_revisions t = st_revisions s" "st_decision t = st_decision s"
    "st_row_decisions t = merge_row_decisions (st_row_decisions s) us"
    "st_projection_binding t = st_projection_binding s" "st_status t = st_status s"
    by (simp_all add: t_def recorded same_stage_def)
  note same = same_revisions [OF t(1,2)] same_stageD [OF t(1)]
  have ready: "approval_ready t = approval_ready s" by (simp add: approval_ready_def same t split: option.split)
  from assms have "stage_consistent t"
    by (simp add: stage_wf_def stage_consistent_def same t)
  moreover have "rows_wf t"
    by (simp add: rows_wf_def same t merge_row_decisions_keys recorded)
  moreover have "decision_wf t"
    using assms by (simp add: stage_wf_def decision_wf_def decision_pinned_def ready same t
        split: option.splits)
  ultimately have "stage_wf t"
    using assms by (simp add: stage_wf_def same t)
  then show ?thesis by (simp add: t_def)
qed

lemma apply_event_wf: "stage_wf s \<Longrightarrow> stage_wf (apply_event s ev)"
  by (cases rule: apply_event_cases [of s ev])
     (simp_all add: apply_revision_wf apply_binding_wf apply_decision_wf apply_rows_wf)

section \<open>The whole fold\<close>

lemma fold_step_Some: "fold_step (Some s) ev = Some (if ev_event_type ev = EFFECT_STAGED then s else apply_event s ev)"
  by (simp add: fold_step_def)

lemma fold_from_Some: "\<exists>t. foldl fold_step (Some s) evs = Some t"
  by (induction evs arbitrary: s) (simp_all add: fold_step_Some)

text \<open>An invariant of every state the fold reaches, by the event that starts it and each later one.\<close>

lemma fold_steps_invariant:
  assumes start: "\<And>ev s. ev \<in> set evs \<Longrightarrow> ev_event_type ev = EFFECT_STAGED \<Longrightarrow> state_from_staged ev = Some s \<Longrightarrow> P s"
    and step: "\<And>ev s. ev \<in> set evs \<Longrightarrow> P s \<Longrightarrow> P (apply_event s ev)"
    and init: "\<And>s. st = Some s \<Longrightarrow> P s"
    and "foldl fold_step st evs = Some t"
  shows "P t"
  using assms
proof (induction evs arbitrary: st)
  case Nil
  then show ?case by simp
next
  case (Cons ev evs)
  have "P s" if "fold_step st ev = Some s" for s
    using that Cons.prems(1-3)
    by (cases st) (auto simp: fold_step_def split: if_splits)
  then show ?case using Cons.prems by (intro Cons.IH [of "fold_step st ev"]) auto
qed

lemma stage_fold_invariant:
  assumes "stage_fold evs = Inr t"
    and "\<And>ev s. ev \<in> set evs \<Longrightarrow> ev_event_type ev = EFFECT_STAGED \<Longrightarrow> state_from_staged ev = Some s \<Longrightarrow> P s"
    and "\<And>ev s. ev \<in> set evs \<Longrightarrow> P s \<Longrightarrow> P (apply_event s ev)"
  shows "P t"
proof -
  from assms(1) have "foldl fold_step None (sort_key event_key evs) = Some t"
    by (simp add: stage_fold_def fold_events_def split: option.splits)
  with assms(2,3) show ?thesis
    by (intro fold_steps_invariant [of "sort_key event_key evs" P None t]) auto
qed

lemma fold_wf: "stage_fold evs = Inr s \<Longrightarrow> stage_wf s"
  by (erule stage_fold_invariant) (simp_all add: state_from_staged_wf apply_event_wf)

lemma apply_event_same_stage: "same_stage s (apply_event s ev)"
proof (cases rule: apply_event_cases [of s ev])
  case revision
  then show ?thesis by (cases rule: apply_revision_cases [of s ev]) (simp_all add: same_stage_def)
next
  case binding
  then show ?thesis by (cases rule: apply_binding_cases [of s ev]) (simp_all add: same_stage_def)
next
  case decision
  then show ?thesis by (cases rule: apply_decision_cases [of s ev]) (simp_all add: same_stage_def)
next
  case rows
  then show ?thesis by (cases rule: apply_rows_cases [of s ev]) (simp_all add: same_stage_def)
qed simp

subsection \<open>Where a decision comes from\<close>

lemma apply_event_decision:
  assumes "st_decision (apply_event s ev) = Some d"
  shows "st_decision s = Some d
     \<or> (ev_event_type ev = EFFECT_DECISION_RECORDED \<and> event_stage_id ev = Some (st_stage_id s)
        \<and> parse_decision ev = Inr d)"
proof -
  have "st_decision (apply_revision s ev) \<in> {None, st_decision s}"
    by (cases rule: apply_revision_cases [of s ev]) simp_all
  moreover have "st_decision (apply_projection_binding s ev) = st_decision s"
    by (cases rule: apply_binding_cases [of s ev]) simp_all
  moreover have "st_decision (apply_row_decisions s ev) = st_decision s"
    by (cases rule: apply_rows_cases [of s ev]) simp_all
  moreover have "st_decision (apply_decision s ev) = st_decision s
      \<or> (\<exists>d. st_decision (apply_decision s ev) = Some d \<and> parse_decision ev = Inr d)"
    by (cases rule: apply_decision_cases [of s ev]) simp_all
  ultimately show ?thesis
    using assms by (auto simp: apply_event_def split: if_splits)
qed

lemma stage_fold_decision_event:
  assumes "stage_fold evs = Inr s" and "st_decision s = Some d"
  shows "\<exists>ev \<in> set evs. ev_event_type ev = EFFECT_DECISION_RECORDED
     \<and> event_stage_id ev = Some (st_stage_id s) \<and> parse_decision ev = Inr d"
proof -
  let ?P = "\<lambda>s. \<forall>d. st_decision s = Some d \<longrightarrow>
     (\<exists>ev \<in> set evs. ev_event_type ev = EFFECT_DECISION_RECORDED
        \<and> event_stage_id ev = Some (st_stage_id s) \<and> parse_decision ev = Inr d)"
  have "?P s"
  proof (rule stage_fold_invariant [OF assms(1)])
    show "?P s" if "state_from_staged ev = Some s" for ev s
      using state_from_staged_wf(5) [OF that] by simp
    show "?P (apply_event s ev)" if "ev \<in> set evs" and "?P s" for ev s
      using that same_stageD(1) [OF apply_event_same_stage [of s ev]]
      by (auto dest!: apply_event_decision)
  qed
  with assms(2) show ?thesis by blast
qed

subsection \<open>Redelivery\<close>

lemma apply_event_twice:
  assumes "stage_wf s"
  shows "apply_event (apply_event s ev) ev = apply_event s ev"
proof -
  have rev: "apply_revision (apply_revision s ev) ev = apply_revision s ev"
  proof (cases rule: apply_revision_cases [of s ev])
    case (revised r)
    define t where "t = apply_revision s ev"
    have cur: "current_revision t = r" by (simp add: t_def revised current_revision_def)
    have "\<not> (\<exists>q. parse_revised t ev = Inr q)"
    proof
      assume "\<exists>q. parse_revised t ev = Inr q"
      then obtain q where q: "parse_revised t ev = Inr q" by blast
      then have "p_integer (ev_payload ev) ''revision'' = Inr (rv_revision r + 1)"
        unfolding parse_revised_def Let_def rbind_Inr_iff cur by auto
      moreover from revised(2) have "p_integer (ev_payload ev) ''revision'' = Inr (rv_revision (current_revision s) + 1)"
        unfolding parse_revised_def Let_def rbind_Inr_iff by auto
      ultimately show False using parse_revised_Inr(2) [OF revised(2)] by simp
    qed
    then have "apply_revision t ev = t"
      by (cases "parse_revised t ev") (auto simp: apply_revision_def)
    then show ?thesis by (simp add: t_def)
  qed simp
  have bind: "apply_projection_binding (apply_projection_binding s ev) ev = apply_projection_binding s ev"
  proof (cases rule: apply_binding_cases [of s ev])
    case (bound b)
    define t where "t = apply_projection_binding s ev"
    have "st_projection_binding t \<noteq> None" by (simp add: t_def bound)
    then have "apply_projection_binding t ev = t"
      by (auto simp: apply_projection_binding_def split: sum.split)
    then show ?thesis by (simp add: t_def)
  qed simp
  have dec: "apply_decision (apply_decision s ev) ev = apply_decision s ev"
  proof (cases rule: apply_decision_cases [of s ev])
    case (decided d)
    define t where "t = apply_decision s ev"
    from decided(4) have "\<not> undecided (st_status t)"
      by (auto simp: t_def decided(5) undecided_def decision_fits_def)
    then have "apply_decision t ev = t" by (simp add: apply_decision_def)
    then show ?thesis by (simp add: t_def)
  qed simp
  have rows: "apply_row_decisions (apply_row_decisions s ev) ev = apply_row_decisions s ev"
  proof (cases rule: apply_rows_cases [of s ev])
    case (recorded us)
    define t where "t = apply_row_decisions s ev"
    have t: "st_status t = st_status s" "current_revision t = current_revision s"
      "st_target_digest t = st_target_digest s"
      by (simp_all add: t_def recorded current_revision_def)
    then have "parse_row_decisions t ev = Inr us"
      using recorded(3) by (simp add: parse_row_decisions_def)
    then have "apply_row_decisions t ev =
        t\<lparr>st_row_decisions := merge_row_decisions (st_row_decisions t) us, st_updated_at := ev_created_at ev\<rparr>"
      using recorded(1,2) t by (simp add: apply_row_decisions_def)
    also have "\<dots> = t" by (simp add: t_def recorded(4) merge_again)
    finally show ?thesis by (simp add: t_def)
  qed simp
  have sid: "st_stage_id (apply_event s ev) = st_stage_id s"
    by (rule same_stageD(1) [OF apply_event_same_stage])
  from rev bind dec rows show ?thesis
    using sid by (auto simp: apply_event_def split: if_splits)
qed

lemma fold_step_twice: "fold_step (fold_step st ev) ev = fold_step st ev"
  if "\<And>s. st = Some s \<Longrightarrow> stage_wf s"
  using that apply_event_twice
  by (cases st) (auto simp: fold_step_def split: option.splits)

subsection \<open>Duplicated and reordered delivery\<close>

lemma fold_adjacent_duplicates:
  assumes "\<And>a x. P a \<Longrightarrow> f (f a x) x = f a x" and "\<And>a x. P a \<Longrightarrow> P (f a x)" and "P a"
  shows "foldl f a (remdups_adj xs) = foldl f a xs"
  using assms(3)
proof (induction xs arbitrary: a rule: remdups_adj.induct)
  case (3 x y xs)
  show ?case
  proof (cases "x = y")
    case True
    with 3 show ?thesis using assms by simp
  next
    case False
    with 3 show ?thesis using assms(2) by simp
  qed
qed simp_all

lemma sorted_remdups_adj_distinct:
  fixes xs :: "'a :: linorder list"
  shows "sorted xs \<Longrightarrow> sorted (remdups_adj xs) \<and> distinct (remdups_adj xs)"
proof (induction xs rule: remdups_adj.induct)
  case (3 x y xs)
  then show ?case by (cases "x = y") auto
qed simp_all

lemma map_remdups_adj_inj: "inj_on f (set xs) \<Longrightarrow> map f (remdups_adj xs) = remdups_adj (map f xs)"
  by (induction xs rule: remdups_adj.induct) (auto simp: inj_on_def)

lemma sort_key_same_set:
  fixes f :: "'a \<Rightarrow> 'b :: linorder"
  assumes "inj_on f (set xs)" and "set xs = set ys"
  shows "remdups_adj (sort_key f xs) = remdups_adj (sort_key f ys)"
proof -
  have "inj_on f (set (sort_key f xs))" and "inj_on f (set (sort_key f ys))" using assms by simp_all
  then have "map f (remdups_adj (sort_key f xs)) = remdups_adj (map f (sort_key f xs))"
    and "map f (remdups_adj (sort_key f ys)) = remdups_adj (map f (sort_key f ys))"
    by (simp_all add: map_remdups_adj_inj)
  moreover have "remdups_adj (map f (sort_key f xs)) = remdups_adj (map f (sort_key f ys))"
    by (rule sorted_distinct_set_unique) (simp_all add: sorted_remdups_adj_distinct assms(2))
  ultimately have "map f (remdups_adj (sort_key f xs)) = map f (remdups_adj (sort_key f ys))" by simp
  moreover have "inj_on f (set (remdups_adj (sort_key f xs)) \<union> set (remdups_adj (sort_key f ys)))"
    using assms by simp
  ultimately show ?thesis by (simp add: inj_on_map_eq_map)
qed

lemma fold_events_remdups:
  "foldl fold_step None (remdups_adj evs) = foldl fold_step None evs"
proof (rule fold_adjacent_duplicates [where P = "\<lambda>st. \<forall>s. st = Some s \<longrightarrow> stage_wf s"])
  show "fold_step (fold_step st ev) ev = fold_step st ev" if "\<forall>s. st = Some s \<longrightarrow> stage_wf s" for st ev
    using that by (simp add: fold_step_twice)
  show "\<forall>s. fold_step st ev = Some s \<longrightarrow> stage_wf s" if "\<forall>s. st = Some s \<longrightarrow> stage_wf s" for st ev
    using that by (cases st) (auto simp: fold_step_def apply_event_wf state_from_staged_wf split: if_splits)
qed simp

lemma fold_events_same_set:
  assumes "inj_on event_key (set evs)" and "set evs' = set evs"
  shows "fold_events evs' = fold_events evs"
  unfolding fold_events_def
  using sort_key_same_set [OF assms(1), of evs'] assms(2) fold_events_remdups by metis

subsection \<open>Foreign and unknown events\<close>

definition effect_relevant :: "string \<Rightarrow> structural_event \<Rightarrow> bool" where
  "effect_relevant sid ev \<longleftrightarrow> event_stage_id ev = Some sid"

lemma fold_same_stage: "foldl fold_step (Some s) evs = Some t \<Longrightarrow> same_stage s t"
proof (induction evs arbitrary: s)
  case (Cons ev evs)
  then show ?case
    using apply_event_same_stage [of s ev] same_stage_trans
    by (auto simp: fold_step_Some split: if_splits)
qed simp

lemma fold_irrelevant_later:
  assumes "foldl fold_step (Some s) evs = Some t"
  shows "foldl fold_step (Some s) (filter (effect_relevant (st_stage_id s)) evs) = Some t"
  using assms
proof (induction evs arbitrary: s)
  case (Cons ev evs)
  show ?case
  proof (cases "effect_relevant (st_stage_id s) ev")
    case True
    then show ?thesis using Cons same_stageD(1) [OF apply_event_same_stage [of s ev]]
      by (auto simp: fold_step_Some split: if_splits) metis
  next
    case False
    then have "fold_step (Some s) ev = Some s" by (simp add: fold_step_Some apply_event_def effect_relevant_def)
    with False Cons show ?thesis by simp
  qed
qed simp

lemma fold_irrelevant:
  assumes "foldl fold_step None evs = Some t"
  shows "foldl fold_step None (filter (effect_relevant (st_stage_id t)) evs) = Some t"
  using assms
proof (induction evs)
  case (Cons ev evs)
  show ?case
  proof (cases "fold_step None ev")
    case None
    with Cons have "foldl fold_step None (filter (effect_relevant (st_stage_id t)) evs) = Some t" by simp
    with None show ?thesis by simp
  next
    case (Some s)
    then have st: "state_from_staged ev = Some s" by (simp add: fold_step_def split: if_splits)
    from Cons.prems Some fold_same_stage [of s evs t] have P: "st_stage_id t = st_stage_id s"
      by (simp add: same_stage_def)
    with state_from_staged_wf(4) [OF st] have "effect_relevant (st_stage_id t) ev"
      by (simp add: effect_relevant_def)
    with Some Cons.prems fold_irrelevant_later [of s evs t] P show ?thesis by simp
  qed
qed simp

lemma filter_sort_key: "sort_key f (filter P xs) = filter P (sort_key f xs)"
  by (simp add: filter_sort)

subsection \<open>Appending the latest event\<close>

lemma sort_key_snoc:
  fixes f :: "'a \<Rightarrow> 'b :: linorder"
  assumes "\<And>e. e \<in> set xs \<Longrightarrow> f e < f x"
  shows "sort_key f (xs @ [x]) = sort_key f xs @ [x]"
  using assms
proof (induction xs)
  case (Cons y xs)
  have "insort_key f y (zs @ [x]) = insort_key f y zs @ [x]" for zs
    using Cons.prems [of y] by (induction zs) auto
  with Cons show ?case by simp
qed simp

lemma fold_events_snoc:
  assumes "\<And>e. e \<in> set evs \<Longrightarrow> event_key e < event_key ev"
  shows "fold_events (evs @ [ev]) = fold_step (fold_events evs) ev"
  using sort_key_snoc [of evs event_key ev] assms by (simp add: fold_events_def)

end
