(* ===== verification/StageSamples.thy ===== *)
theory StageSamples
  imports EffectFold
begin

text \<open>
  One concrete stage history, for the examples that show the theorems apply: a staged effect, its
  approval, a revision, a cancellation and an event of another stage.
\<close>

definition sample_sid :: string where
  "sample_sid = ''stg_00000000-0000-4000-8000-000000000001''"

definition sample_digest :: "char \<Rightarrow> string" where
  "sample_digest c = replicate 64 c"

definition sample_staged_payload :: dict where
  "sample_staged_payload =
     [(''v'', JInt 1), (''stage_id'', JStr sample_sid),
      (''operation_id'', JStr ''op_00000000-0000-4000-8000-000000000001''),
      (''executor'', JStr ''mcp''), (''capability'', JStr ''crm''), (''op'', JStr ''update''),
      (''target_ref'', JStr ''mcp://crm/7''), (''target_digest'', JStr (sample_digest (CHR ''a''))),
      (''display_target'', JStr ''Contact''), (''proposal_kind'', JStr ''canonical_arguments''),
      (''proposal_ref'', JStr (''proposal://'' @ sample_sid @ ''/revisions/1'')),
      (''proposal_content_ref'', JStr ''artifact://a1/1''),
      (''proposal_digest'', JStr (sample_digest (CHR ''b''))), (''proposal_media_type'', JStr ''text/plain''),
      (''effect_class'', JStr ''external_reversible''),
      (''policy_snapshot_ref'', JStr ''policy://s1''), (''policy'', JStr ''ask''),
      (''owner_ref'', JStr ''user://u1''), (''author_actor'', JStr ''user''),
      (''author_ref'', JStr ''user://u1''), (''created_at'', JStr ''t1'')]"

definition sample_staged :: structural_event where
  "sample_staged = \<lparr>ev_run_id = ''run1'', ev_ledger_id = ''l1'', ev_sequence_no = 1,
     ev_event_type = EFFECT_STAGED, ev_payload = sample_staged_payload, ev_created_at = ''t1''\<rparr>"

definition sample_actor :: actor_identity where
  "sample_actor = \<lparr>ai_actor = USER, ai_ref = ''user://u1''\<rparr>"

definition sample_revision :: stage_revision where
  "sample_revision =
     \<lparr>rv_revision = 1, rv_kind = CANONICAL_ARGUMENTS,
      rv_proposal_ref = ''proposal://'' @ sample_sid @ ''/revisions/1'',
      rv_content_ref = Some ''artifact://a1/1'', rv_digest = sample_digest (CHR ''b''),
      rv_media_type = ''text/plain'', rv_target_ref = ''mcp://crm/7'',
      rv_target_digest = sample_digest (CHR ''a''), rv_display_target = ''Contact'',
      rv_precondition_ref = None, rv_precondition_digest = None, rv_safe_diff_ref = None,
      rv_author = sample_actor, rv_created_at = ''t1''\<rparr>"

definition sample_state :: stage_state where
  "sample_state =
     \<lparr>st_stage_id = sample_sid,
      st_scope = \<lparr>sc_run_id = ''run1'', sc_owner_ref = ''user://u1''\<rparr>,
      st_operation_id = ''op_00000000-0000-4000-8000-000000000001'', st_executor = MCP,
      st_target = \<lparr>tg_executor = MCP, tg_capability = ''crm'', tg_op = ''update'',
        tg_target_ref = ''mcp://crm/7'', tg_precondition_ref = None, tg_display_label = ''Contact''\<rparr>,
      st_target_digest = sample_digest (CHR ''a''), st_display_target = ''Contact'',
      st_effect_class = EXTERNAL_REVERSIBLE, st_policy_snapshot_ref = ''policy://s1'',
      st_policy = ASK, st_agent_hold = False, st_revisions = [sample_revision], st_status = HELD,
      st_projection_required = False, st_projection_binding = None, st_decision = None,
      st_row_decisions = [], st_superseded_revision = None, st_created_at = ''t1'',
      st_updated_at = ''t1''\<rparr>"

definition sample_decision_event :: "int \<Rightarrow> string \<Rightarrow> string \<Rightarrow> structural_event" where
  "sample_decision_event seq lid kind =
     \<lparr>ev_run_id = ''run1'', ev_ledger_id = lid, ev_sequence_no = seq,
      ev_event_type = EFFECT_DECISION_RECORDED,
      ev_payload =
        [(''v'', JInt 1), (''stage_id'', JStr sample_sid), (''revision'', JInt 1),
         (''decision'', JStr kind), (''actor'', JStr ''user''), (''actor_ref'', JStr ''user://u1''),
         (''proposal_digest'', JStr (sample_digest (CHR ''b''))),
         (''target_digest'', JStr (sample_digest (CHR ''a''))), (''decided_at'', JStr ''t2'')],
      ev_created_at = ''t2''\<rparr>"

definition sample_decision :: "string \<Rightarrow> effect_decision_kind \<Rightarrow> stage_decision" where
  "sample_decision lid kind =
     \<lparr>dc_revision = 1, dc_decision = kind, dc_actor = sample_actor,
      dc_proposal_digest = sample_digest (CHR ''b''), dc_target_digest = sample_digest (CHR ''a''),
      dc_decided_at = ''t2'', dc_ledger_id = lid, dc_row_keys = None\<rparr>"

definition sample_revised_event :: structural_event where
  "sample_revised_event =
     \<lparr>ev_run_id = ''run1'', ev_ledger_id = ''l3'', ev_sequence_no = 3, ev_event_type = EFFECT_REVISED,
      ev_payload =
        [(''v'', JInt 1), (''stage_id'', JStr sample_sid), (''revision'', JInt 2),
         (''proposal_kind'', JStr ''canonical_arguments''),
         (''proposal_ref'', JStr (''proposal://'' @ sample_sid @ ''/revisions/2'')),
         (''proposal_content_ref'', JStr ''artifact://a1/2''),
         (''proposal_digest'', JStr (sample_digest (CHR ''c''))),
         (''proposal_media_type'', JStr ''text/plain''), (''target_ref'', JStr ''mcp://crm/7''),
         (''target_digest'', JStr (sample_digest (CHR ''a''))), (''display_target'', JStr ''Contact''),
         (''author_actor'', JStr ''user''), (''author_ref'', JStr ''user://u1''),
         (''created_at'', JStr ''t3'')],
      ev_created_at = ''t3''\<rparr>"

definition sample_foreign_event :: structural_event where
  "sample_foreign_event = (sample_decision_event 4 ''l4'' ''reject'')
     \<lparr>ev_payload := [(''v'', JInt 1), (''stage_id'', JStr ''stg_other'')]\<rparr>"

lemma sample_fold_step: "fold_step None sample_staged = Some sample_state"
  by code_simp

lemma sample_decided:
  "fold_step (Some sample_state) (sample_decision_event 2 ''l2'' ''approve'') =
     Some (sample_state\<lparr>st_status := APPROVED, st_decision := Some (sample_decision ''l2'' APPROVE),
                        st_updated_at := ''t2''\<rparr>)"
  by code_simp

lemma sample_cancelled:
  "fold_step (Some sample_state) (sample_decision_event 2 ''l2'' ''cancel'') =
     Some (sample_state\<lparr>st_status := CANCELLED, st_decision := Some (sample_decision ''l2'' CANCEL),
                        st_updated_at := ''t2''\<rparr>)"
  by code_simp

lemma sample_fold: "stage_fold [sample_staged] = Inr sample_state"
  by (simp add: stage_fold_def fold_events_def sample_fold_step)

lemma sample_keys:
  "event_key sample_staged = (1, ''l1'')" "event_key (sample_decision_event n l k) = (n, l)"
  "event_key sample_foreign_event = (4, ''l4'')" "event_key sample_revised_event = (3, ''l3'')"
  by (simp_all add: event_key_def sample_staged_def sample_decision_event_def sample_foreign_event_def
      sample_revised_event_def)

end
