(* ===== verification/StageProperties.thy ===== *)
theory StageProperties
  imports StageInvariant StageSamples
begin

text \<open>
  The properties of the stage fold, each with an example on the history of \<open>StageSamples\<close>.
\<close>

section \<open>Every history\<close>

text \<open>C8: Whatever list of events a stage is folded from (malformed, foreign, duplicated or
  out of order), the state it yields satisfies the stage invariant: revisions numbered from one
  that all keep the target and precondition of the first, a decision only on the current
  revision with its exact digests and a status that agrees with it, no policy approval unless the
  policy is \<open>AUTO\<close>, no decision on a blocked stage, no approval without a required projection
  binding, and row decisions keyed once and sorted.\<close>

theorem stage_fold_wf:
  assumes "stage_fold evs = Inr s"
  shows "stage_wf s"
  using assms by (rule fold_wf)

theorem stage_fold_wf_witness: "stage_wf sample_state"
  using stage_fold_wf [OF sample_fold] .

text \<open>C7: A stage is \<open>APPROVED\<close> only if its history holds a decision event for this very stage
  that parses to an approval of the latest revision with that revision's proposal digest and the
  stage's target digest.\<close>

theorem approved_only_by_exact_decision:
  assumes "stage_fold evs = Inr s" and "st_status s = APPROVED"
  shows "\<exists>ev d. ev \<in> set evs \<and> ev_event_type ev = EFFECT_DECISION_RECORDED
     \<and> event_stage_id ev = Some (st_stage_id s) \<and> parse_decision ev = Inr d
     \<and> st_decision s = Some d \<and> dc_decision d = APPROVE
     \<and> dc_revision d = int (length (st_revisions s))
     \<and> dc_proposal_digest d = rv_digest (current_revision s)
     \<and> dc_target_digest d = st_target_digest s \<and> approval_ready s"
proof -
  from assms have wf: "stage_wf s" by (simp add: fold_wf)
  then have "decision_wf s" by (simp add: stage_wf_def)
  with assms(2) obtain d where d: "st_decision s = Some d" and p: "decision_pinned s d"
    by (auto simp: decision_wf_def undecided_def split: option.splits)
  from p assms(2) have "dc_decision d = APPROVE"
    by (auto simp: decision_pinned_def)
  with p d stage_fold_decision_event [OF assms(1) d] current_revision_number [OF wf] show ?thesis
    by (auto simp: decision_pinned_def)
qed

theorem approved_only_by_exact_decision_witness:
  "\<exists>ev \<in> set [sample_staged, sample_decision_event 2 ''l2'' ''approve''].
     ev_event_type ev = EFFECT_DECISION_RECORDED"
proof -
  have "stage_fold [sample_staged, sample_decision_event 2 ''l2'' ''approve''] =
      Inr (sample_state\<lparr>st_status := APPROVED, st_decision := Some (sample_decision ''l2'' APPROVE),
                        st_updated_at := ''t2''\<rparr>)"
    by (simp add: stage_fold_def fold_events_def sample_keys sample_fold_step sample_decided)
  from approved_only_by_exact_decision [OF this] show ?thesis by auto
qed

text \<open>C22: The state depends only on which events there are: at-least-once delivery, in any
  order and with any duplicates, folds to the same state as long as two different events never
  carry the same position.\<close>

theorem stage_fold_delivery:
  assumes "inj_on event_key (set evs)" and "set evs' = set evs"
  shows "stage_fold evs' = stage_fold evs"
  using fold_events_same_set [OF assms] by (simp add: stage_fold_def)

theorem stage_fold_delivery_witness:
  "stage_fold [sample_foreign_event, sample_staged, sample_foreign_event, sample_staged] =
     stage_fold [sample_staged, sample_foreign_event]"
  by (rule stage_fold_delivery) (auto simp: inj_on_def sample_keys)

text \<open>Events of other stages change nothing: removing every event that does not carry the
  stage's own id leaves the folded state as it was.\<close>

theorem stage_fold_ignores_foreign:
  assumes "stage_fold evs = Inr s"
  shows "stage_fold (filter (\<lambda>ev. event_stage_id ev = Some (st_stage_id s)) evs) = Inr s"
proof -
  from assms have "foldl fold_step None (sort_key event_key evs) = Some s"
    by (simp add: stage_fold_def fold_events_def split: option.splits)
  from fold_irrelevant [OF this] have
    "foldl fold_step None (sort_key event_key (filter (effect_relevant (st_stage_id s)) evs)) = Some s"
    by (simp add: filter_sort_key)
  then show ?thesis by (simp add: stage_fold_def fold_events_def effect_relevant_def [abs_def])
qed

theorem stage_fold_ignores_foreign_witness:
  "stage_fold (filter (\<lambda>ev. event_stage_id ev = Some sample_sid) [sample_staged]) = Inr sample_state"
  using stage_fold_ignores_foreign [OF sample_fold] by (simp add: sample_state_def)

section \<open>One event\<close>

text \<open>A revision discards the approval it found: when an event adds a revision, the new
  state has no decision, no row decisions and no projection binding, its status is undecided, and
  it keeps the identity, target, policy and every earlier revision of the stage. If the stage was
  approved, the approved revision is recorded as superseded.\<close>

theorem revision_discards_approval:
  assumes "stage_wf s" and "st_revisions (apply_event s ev) \<noteq> st_revisions s"
  shows "let t = apply_event s ev in
     (\<exists>r. st_revisions t = st_revisions s @ [r] \<and> rv_revision r = rv_revision (current_revision s) + 1)
     \<and> st_decision t = None \<and> undecided (st_status t) \<and> st_row_decisions t = []
     \<and> st_projection_binding t = None \<and> same_stage s t \<and> stage_wf t
     \<and> (st_status s = APPROVED \<longrightarrow>
          st_superseded_revision t = Some (rv_revision (current_revision s)) \<and> st_status t = HELD)"
proof -
  have eq: "apply_event s ev = apply_revision s ev"
  proof (cases rule: apply_event_cases [of s ev])
    case binding
    with assms(2) show ?thesis by (cases rule: apply_binding_cases [of s ev]) simp_all
  next
    case decision
    with assms(2) show ?thesis by (cases rule: apply_decision_cases [of s ev]) simp_all
  next
    case rows
    with assms(2) show ?thesis by (cases rule: apply_rows_cases [of s ev]) simp_all
  qed (use assms(2) in simp_all)
  show ?thesis
  proof (cases rule: apply_revision_cases [of s ev])
    case kept
    with eq assms(2) show ?thesis by simp
  next
    case (revised r)
    have "approved_revision s = Some (rv_revision (current_revision s))" if "st_status s = APPROVED"
    proof -
      from assms(1) have "decision_wf s" by (simp add: stage_wf_def)
      with that show ?thesis
        by (auto simp: approved_revision_def decision_wf_def decision_pinned_def undecided_def split: option.splits)
    qed
    with revised eq parse_revised_Inr(2) [OF revised(2)] apply_event_same_stage [of s ev]
      apply_event_wf [OF assms(1), of ev]
    show ?thesis by (simp add: Let_def undecided_def)
  qed
qed

theorem revision_discards_approval_witness:
  "let s = sample_state\<lparr>st_status := APPROVED, st_decision := Some (sample_decision ''l2'' APPROVE),
                        st_updated_at := ''t2''\<rparr> in
   st_decision (apply_event s sample_revised_event) = None
   \<and> st_superseded_revision (apply_event s sample_revised_event) = Some 1"
proof -
  let ?s = "sample_state\<lparr>st_status := APPROVED, st_decision := Some (sample_decision ''l2'' APPROVE),
                         st_updated_at := ''t2''\<rparr>"
  have "stage_fold [sample_staged, sample_decision_event 2 ''l2'' ''approve''] = Inr ?s"
    by (simp add: stage_fold_def fold_events_def sample_keys sample_fold_step sample_decided)
  then have wf: "stage_wf ?s" by (rule fold_wf)
  have "length (st_revisions (apply_event ?s sample_revised_event)) = 2" by code_simp
  then have "st_revisions (apply_event ?s sample_revised_event) \<noteq> st_revisions ?s"
    by (auto simp: sample_state_def)
  from revision_discards_approval [OF wf this] show ?thesis
    by (simp add: Let_def current_revision_def sample_state_def sample_revision_def)
qed

text \<open>A cancelled stage is final: no event, of any type and content, changes it.\<close>

theorem cancelled_is_final:
  assumes "st_status s = CANCELLED"
  shows "apply_event s ev = s"
  using assms
  by (simp add: apply_event_def apply_revision_def apply_projection_binding_def apply_decision_def
      apply_row_decisions_def undecided_def)

theorem cancelled_is_final_witness:
  "apply_event (sample_state\<lparr>st_status := CANCELLED\<rparr>) sample_revised_event =
     sample_state\<lparr>st_status := CANCELLED\<rparr>"
  by (rule cancelled_is_final) simp

end
