(* ===== verification/EffectLedger.thy ===== *)
theory EffectLedger
  imports EffectFold
begin

text \<open>
  The event stream under the effects: the seal of \<open>api/ledger_seal.py\<close>, the append of
  \<open>api/events.py\<close> onto the in-memory event store (\<open>runtime_adapters/in_memory\<close>) with the
  redelivery rule of \<open>_event_idempotency.py\<close>, the payload projection of
  \<open>runtime_api/schemas/events.py\<close>, and on top of them \<open>RuntimeEffectLedger\<close>
  (\<open>api/effect_ledger.py\<close>). An envelope keeps the fields that the ledger reads or that the
  redelivery rule compares; the presentation fields, which the producer computes from the event
  type and the payload, are left out. The clock, the generated event ids and SHA-256 are
  parameters.
\<close>

section \<open>The state\<close>

record run_record =
  rn_org_id :: string
  rn_user_id :: string
  rn_run_id :: string
  rn_conversation_id :: string
  rn_trace_id :: string
  rn_latest_sequence_no :: int

record envelope =
  en_event_id :: string
  en_run_id :: string
  en_conversation_id :: string
  en_sequence_no :: int
  en_event_type :: string
  en_trace_id :: string
  en_payload :: dict
  en_metadata :: dict
  en_created_at :: string

record event_draft =
  ed_event_id :: "string option"
  ed_run_id :: string
  ed_conversation_id :: string
  ed_org_id :: string
  ed_event_type :: string
  ed_trace_id :: string
  ed_payload :: dict
  ed_metadata :: dict
  ed_created_at :: "string option"

record event_world =
  ew_events :: "string \<Rightarrow> envelope list"
  ew_runs :: "string \<Rightarrow> run_record option"
  ew_deleted :: "string \<Rightarrow> bool"
  ew_sealed :: "string \<Rightarrow> string option"
  ew_tick :: nat

record event_env =
  env_clock :: "nat \<Rightarrow> string"
  env_new_id :: "nat \<Rightarrow> string"
  env_hash :: "string \<Rightarrow> string"

section \<open>The seal\<close>

datatype amendment_reason = RECONCILIATION | LATE_CAUSAL_RECOVERY

fun amendment_reason_value :: "amendment_reason \<Rightarrow> string" where
  "amendment_reason_value RECONCILIATION = ''reconciliation''"
| "amendment_reason_value LATE_CAUSAL_RECOVERY = ''late_causal_recovery''"

record ledger_amendment =
  am_reason :: amendment_reason
  am_amends :: "string option"

definition amendment_keys :: "string list" where
  "amendment_keys = [''ledger_amendment_reason'', ''ledger_amends'']"

definition amendment_metadata :: "ledger_amendment \<Rightarrow> dict" where
  "amendment_metadata a =
     (''ledger_amendment_reason'', JStr (amendment_reason_value (am_reason a)))
     # (case am_amends a of None \<Rightarrow> [] | Some l \<Rightarrow> [(''ledger_amends'', JStr l)])"

definition sealing_event_types :: "string list" where
  "sealing_event_types = [''run_completed'', ''run_failed'', ''run_cancelled'', ''run_rejected'']"

definition seal_guard ::
  "string \<Rightarrow> string \<Rightarrow> ledger_amendment option \<Rightarrow> ('z event_world_scheme, unit) eff" where
  "seal_guard run_id ty amendment = (\<lambda>w.
     if ty \<in> set sealing_event_types
     then (Inr (), if ew_sealed w run_id = None then w\<lparr>ew_sealed := (ew_sealed w)(run_id := Some ty)\<rparr> else w)
     else if amendment \<noteq> None then (Inr (), w)
     else (case ew_sealed w run_id of
         Some _ \<Rightarrow> (Inl LedgerSealViolation, w)
       | None \<Rightarrow> (Inr (), w)))"

section \<open>Payload projection\<close>

text \<open>\<open>d | e\<close> of dictionaries: a key of \<open>d\<close> keeps its place and takes the value of \<open>e\<close>.\<close>

definition dict_merge :: "dict \<Rightarrow> dict \<Rightarrow> dict" where
  "dict_merge d e =
     map (\<lambda>(k, v). (k, dget e k v)) d @ filter (\<lambda>(k, _). k \<notin> fst ` set d) e"

definition dict_pop :: "dict \<Rightarrow> string \<Rightarrow> dict" where
  "dict_pop d k = filter (\<lambda>(j, _). j \<noteq> k) d"

definition effect_ledger_payload :: "string \<Rightarrow> dict \<Rightarrow> dict" where
  "effect_ledger_payload ty d = (case validate_payload ty d of Inl _ \<Rightarrow> [] | Inr e \<Rightarrow> e)"

definition CURRENT_LEDGER_WRITER :: string where
  "CURRENT_LEDGER_WRITER = ''runtime.v2.1''"

text \<open>\<open>_sign_ledger_writer\<close> for the ledger event types: an unknown writer raises.\<close>

definition sign_ledger_writer :: "dict \<Rightarrow> dict \<Rightarrow> dict result" where
  "sign_ledger_writer payload projected =
     (let stripped = dict_pop projected ''w'' in
      rbind (case dget payload ''w'' JNull of
               JNull \<Rightarrow> Inr CURRENT_LEDGER_WRITER
             | JStr w \<Rightarrow> if w = CURRENT_LEDGER_WRITER then Inr w else Inl ValueError
             | _ \<Rightarrow> Inl ValueError) (\<lambda>writer.
      Inr (if stripped \<noteq> [] then stripped @ [(''w'', JStr writer)] else stripped)))"

definition payload_for_event :: "string \<Rightarrow> dict \<Rightarrow> dict result" where
  "payload_for_event ty d = sign_ledger_writer d (effect_ledger_payload ty d)"

section \<open>The event store\<close>

text \<open>Equality of dictionaries does not depend on the order of their keys.\<close>

definition dict_eq :: "dict \<Rightarrow> dict \<Rightarrow> bool" where
  "dict_eq d e \<longleftrightarrow>
     list_all (\<lambda>(k, _). map_of d k = map_of e k) d \<and> list_all (\<lambda>(k, _). map_of d k = map_of e k) e"

definition matches_envelope :: "event_draft \<Rightarrow> envelope \<Rightarrow> bool" where
  "matches_envelope d e \<longleftrightarrow>
     ed_event_id d = Some (en_event_id e) \<and> en_run_id e = ed_run_id d
     \<and> en_conversation_id e = ed_conversation_id d \<and> en_event_type e = ed_event_type d
     \<and> en_trace_id e = ed_trace_id d
     \<and> dict_eq (en_payload e) (ed_payload d) \<and> dict_eq (en_metadata e) (ed_metadata d)
     \<and> (ed_created_at d = None \<or> ed_created_at d = Some (en_created_at e))"

definition without_annotations :: "dict \<Rightarrow> dict" where
  "without_annotations d = filter (\<lambda>(k, _). k \<notin> set amendment_keys) d"

definition matches_undelivered :: "event_draft \<Rightarrow> envelope \<Rightarrow> bool" where
  "matches_undelivered d e \<longleftrightarrow>
     matches_envelope (d\<lparr>ed_metadata := without_annotations (ed_metadata d)\<rparr>)
       (e\<lparr>en_metadata := without_annotations (en_metadata e)\<rparr>)"

definition resolve_redelivery :: "event_draft \<Rightarrow> envelope \<Rightarrow> envelope result" where
  "resolve_redelivery d existing =
     (if matches_envelope d existing \<or> matches_undelivered d existing then Inr existing
      else Inl RuntimeEventIdempotencyConflict)"

definition set_run_latest_sequence :: "string \<Rightarrow> int \<Rightarrow> 'z event_world_scheme \<Rightarrow> 'z event_world_scheme" where
  "set_run_latest_sequence run_id n w =
     (case ew_runs w run_id of
        None \<Rightarrow> w
      | Some r \<Rightarrow>
          if n \<le> rn_latest_sequence_no r then w
          else w\<lparr>ew_runs := (ew_runs w)(run_id := Some (r\<lparr>rn_latest_sequence_no := n\<rparr>))\<rparr>)"

definition stored_event :: "string \<Rightarrow> envelope list \<Rightarrow> envelope option" where
  "stored_event event_id = List.find (\<lambda>e. en_event_id e = event_id)"

definition new_envelope :: "event_env \<Rightarrow> event_draft \<Rightarrow> envelope list \<Rightarrow> nat \<Rightarrow> envelope" where
  "new_envelope env d events tick =
     \<lparr>en_event_id = (case ed_event_id d of None \<Rightarrow> env_new_id env tick | Some i \<Rightarrow> i),
      en_run_id = ed_run_id d, en_conversation_id = ed_conversation_id d,
      en_sequence_no = int (length events) + 1, en_event_type = ed_event_type d,
      en_trace_id = ed_trace_id d, en_payload = ed_payload d, en_metadata = ed_metadata d,
      en_created_at = (case ed_created_at d of None \<Rightarrow> env_clock env tick | Some t \<Rightarrow> t)\<rparr>"

definition append_event :: "event_env \<Rightarrow> event_draft \<Rightarrow> ('z event_world_scheme, envelope) eff" where
  "append_event env d = (\<lambda>w.
     let events = ew_events w (ed_run_id d) in
     case Option.bind (ed_event_id d) (\<lambda>i. stored_event i events) of
       Some existing \<Rightarrow> (resolve_redelivery d existing, w)
     | None \<Rightarrow>
         let e = new_envelope env d events (ew_tick w);
             w' = w\<lparr>ew_events := (ew_events w)(ed_run_id d := events @ [e]), ew_tick := Suc (ew_tick w)\<rparr>
         in (Inr e, set_run_latest_sequence (ed_run_id d) (en_sequence_no e) w'))"

definition get_run :: "string \<Rightarrow> string \<Rightarrow> 'z event_world_scheme \<Rightarrow> run_record option" where
  "get_run org_id run_id w =
     (case ew_runs w run_id of
        None \<Rightarrow> None
      | Some r \<Rightarrow> if rn_org_id r \<noteq> org_id then None else Some r)"

definition list_events_after :: "string \<Rightarrow> string \<Rightarrow> int \<Rightarrow> 'z event_world_scheme \<Rightarrow> envelope list" where
  "list_events_after org_id run_id after w =
     (case get_run org_id run_id w of
        None \<Rightarrow> []
      | Some r \<Rightarrow>
          if ew_deleted w (rn_conversation_id r) then []
          else filter (\<lambda>e. after < en_sequence_no e) (ew_events w run_id))"

section \<open>The producer\<close>

definition append_api_event ::
  "event_env \<Rightarrow> run_record \<Rightarrow> string \<Rightarrow> dict \<Rightarrow> dict \<Rightarrow> string option \<Rightarrow> ledger_amendment option
     \<Rightarrow> ('z event_world_scheme, envelope) eff" where
  "append_api_event env run ty payload metadata event_id amendment =
     bnd (seal_guard (rn_run_id run) ty amendment) (\<lambda>_.
     bnd (lift (payload_for_event ty payload)) (\<lambda>safe_payload.
     append_event env
       \<lparr>ed_event_id = event_id, ed_run_id = rn_run_id run,
        ed_conversation_id = rn_conversation_id run, ed_org_id = rn_org_id run,
        ed_event_type = ty, ed_trace_id = rn_trace_id run, ed_payload = safe_payload,
        ed_metadata = (case amendment of None \<Rightarrow> metadata
                       | Some a \<Rightarrow> dict_merge metadata (amendment_metadata a)),
        ed_created_at = None\<rparr>))"

section \<open>The effect ledger of a run\<close>

definition effect_event_types :: "string list" where
  "effect_event_types =
     [EFFECT_STAGED, EFFECT_PROJECTION_BOUND, EFFECT_REVISED, EFFECT_DECISION_RECORDED,
      EFFECT_CLAIMED, EFFECT_APPLIED, EFFECT_INDETERMINATE, EFFECT_RECONCILED]"

record effect_ledger =
  el_run :: run_record
  el_owner_ref :: string
  el_append_metadata :: dict

definition assert_ledger_scope :: "effect_ledger \<Rightarrow> stage_scope \<Rightarrow> unit result" where
  "assert_ledger_scope led sc =
     require (sc_run_id sc = rn_run_id (el_run led) \<and> sc_owner_ref sc = el_owner_ref led) ValueError"

definition structural_of :: "envelope \<Rightarrow> structural_event result" where
  "structural_of e =
     rbind (ledger_id_format (en_run_id e) (en_sequence_no e)) (\<lambda>lid.
     Inr \<lparr>ev_run_id = en_run_id e, ev_ledger_id = lid, ev_sequence_no = en_sequence_no e,
          ev_event_type = en_event_type e, ev_payload = en_payload e,
          ev_created_at = en_created_at e\<rparr>)"

definition list_stage_events ::
  "effect_ledger \<Rightarrow> stage_scope \<Rightarrow> string \<Rightarrow> ('z event_world_scheme, structural_event list) eff" where
  "list_stage_events led sc stage_id = (\<lambda>w.
     (rbind (assert_ledger_scope led sc) (\<lambda>_.
      rmap structural_of
        (filter (\<lambda>e. en_event_type e \<in> set effect_event_types
                   \<and> dget (en_payload e) ''stage_id'' JNull = JStr stage_id)
           (list_events_after (rn_org_id (el_run led)) (rn_run_id (el_run led)) 0 w))), w))"

definition effect_event_id :: "event_env \<Rightarrow> effect_ledger \<Rightarrow> string \<Rightarrow> string" where
  "effect_event_id env led key =
     ''effevt_'' @ env_hash env (rn_run_id (el_run led) @ [CHR 0x00] @ key)"

definition reconciled_amendment :: "effect_ledger \<Rightarrow> string \<Rightarrow> ledger_amendment option result" where
  "reconciled_amendment led ty =
     (if ty = EFFECT_RECONCILED
      then rbind (ledger_id_format (rn_run_id (el_run led)) (rn_latest_sequence_no (el_run led)))
             (\<lambda>lid. Inr (Some \<lparr>am_reason = RECONCILIATION, am_amends = Some lid\<rparr>))
      else Inr None)"

text \<open>\<open>except RuntimeEventIdempotencyConflict\<close>: re-raised as the domain's conflict.\<close>

definition as_stage_conflict :: "('s, 'a) eff \<Rightarrow> ('s, 'a) eff" where
  "as_stage_conflict m = (\<lambda>s. case m s of
       (Inl e, s') \<Rightarrow> (Inl (if e = RuntimeEventIdempotencyConflict then EffectStageIdempotencyConflict else e), s')
     | (Inr x, s') \<Rightarrow> (Inr x, s'))"

definition append_stage_event ::
  "event_env \<Rightarrow> effect_ledger \<Rightarrow> stage_scope \<Rightarrow> string \<Rightarrow> dict \<Rightarrow> string \<Rightarrow> string
     \<Rightarrow> ('z event_world_scheme, structural_event) eff" where
  "append_stage_event env led sc ty payload key fingerprint =
     bnd (lift (assert_ledger_scope led sc)) (\<lambda>_.
     bnd (demand (ty \<in> set effect_event_types) ValueError) (\<lambda>_.
     bnd (as_stage_conflict
       (bnd (lift (validate_payload ty payload)) (\<lambda>safe_payload.
        bnd (lift (reconciled_amendment led ty)) (\<lambda>amendment.
        append_api_event env (el_run led) ty safe_payload
          (dict_merge (el_append_metadata led) [(''effect_stage_request_fingerprint'', JStr fingerprint)])
          (Some (effect_event_id env led key)) amendment)))) (\<lambda>envelope.
     lift (structural_of envelope))))"

end
