(* ===== verification/StagePorts.thy ===== *)
theory StagePorts
  imports StageInvariant
begin

text \<open>
  The ledger port of \<open>effects/ports.py\<close>, through which the stager reads and appends stage
  events, and the contract its docstring gives: a stage history in append order, an append that
  either refuses, replays an event of the history or adds one at its end. What the stager relies
  on is proved once here, for every provider of that contract.
\<close>

record 's ledger_port =
  lp_list :: "stage_scope \<Rightarrow> string \<Rightarrow> ('s, structural_event list) eff"
  lp_append :: "stage_scope \<Rightarrow> string \<Rightarrow> dict \<Rightarrow> string \<Rightarrow> string \<Rightarrow> ('s, structural_event) eff"

locale stage_ledger =
  fixes port :: "'s ledger_port"
    and history :: "'s \<Rightarrow> string \<Rightarrow> structural_event list"
    and ready :: "'s \<Rightarrow> bool"
  assumes list_outcome: "ready s \<Longrightarrow> lp_list port sc sid s = (listed, t) \<Longrightarrow>
      t = s \<and> (listed = Inr (history s sid) \<or> listed = Inl ValueError)"
    and history_stage: "ready s \<Longrightarrow> ev \<in> set (history s sid) \<Longrightarrow> event_stage_id ev = Some sid"
    and append_ready: "ready s \<Longrightarrow> lp_append port sc ty p k f s = (r, t) \<Longrightarrow> ready t"
    and append_refused: "ready s \<Longrightarrow> lp_append port sc ty p k f s = (Inl e, t) \<Longrightarrow> t = s"
    and append_type: "ready s \<Longrightarrow> lp_append port sc ty p k f s = (Inr ev, t) \<Longrightarrow> ev_event_type ev = ty"
    and append_fields: "ready s \<Longrightarrow> lp_append port sc ty p k f s = (Inr ev, t) \<Longrightarrow>
      ev_run_id ev = sc_run_id sc \<and> ok (validate_payload ty p)
      \<and> (\<forall>j. j \<noteq> ''w'' \<longrightarrow> map_of (ev_payload ev) j = (if j \<in> model_fields ty then kept (map_of p j) else None))"
    and append_outcome: "ready s \<Longrightarrow> lp_append port sc ty p k f s = (Inr ev, t) \<Longrightarrow>
      (t = s \<and> (\<forall>sid. event_stage_id ev = Some sid \<longrightarrow> ev \<in> set (history s sid)))
      \<or> (\<forall>sid. history t sid = history s sid @ (if event_stage_id ev = Some sid then [ev] else [])
            \<and> (\<forall>e \<in> set (history s sid). event_key e < event_key ev))"
begin

text \<open>After an append the history folds to the old state, or to that state after the new event.\<close>

lemma fold_after_append:
  assumes "ready s" and "lp_append port sc ty p k f s = (Inr ev, t)"
  shows "fold_events (history t sid) = fold_events (history s sid)
     \<or> (event_stage_id ev = Some sid
        \<and> fold_events (history t sid) = fold_step (fold_events (history s sid)) ev)"
  using append_outcome [OF assms]
proof
  assume "t = s \<and> (\<forall>sid. event_stage_id ev = Some sid \<longrightarrow> ev \<in> set (history s sid))"
  then show ?thesis by simp
next
  assume fresh: "\<forall>sid. history t sid = history s sid @ (if event_stage_id ev = Some sid then [ev] else [])
      \<and> (\<forall>e \<in> set (history s sid). event_key e < event_key ev)"
  show ?thesis
  proof (cases "event_stage_id ev = Some sid")
    case True
    with fresh have "history t sid = history s sid @ [ev]" by simp
    with fresh True show ?thesis by (simp add: fold_events_snoc)
  next
    case False
    with fresh show ?thesis by simp
  qed
qed

lemma history_grows:
  assumes "ready s" and "lp_append port sc ty p k f s = (r, t)"
  shows "\<exists>ext. history t sid = history s sid @ ext \<and> length ext \<le> 1"
proof (cases r)
  case (Inl e)
  with append_refused assms show ?thesis by fastforce
next
  case (Inr ev)
  with append_outcome [of s sc ty p k f ev t] assms
  have "history t sid = history s sid \<or> history t sid = history s sid @ [ev]" by (metis append_Nil2)
  then show ?thesis by auto
qed

end

end
