(* ===== verification/LedgerLaws.thy ===== *)
theory LedgerLaws
  imports EffectLedger StagePorts
begin

text \<open>
  The laws of the effect ledger: what an append changes (\<open>append_cases\<close>), that a retry returns
  the stored event and a changed request is refused, that the stream is append-only with gapless
  positions, and what the seal admits.
\<close>

section \<open>Dictionaries\<close>

lemma dict_eq_iff: "dict_eq d e \<longleftrightarrow> map_of d = map_of e"
proof
  assume eq: "dict_eq d e"
  show "map_of d = map_of e"
  proof
    fix k
    show "map_of d k = map_of e k"
    proof (cases "k \<in> fst ` set d \<or> k \<in> fst ` set e")
      case True
      with eq show ?thesis by (auto simp: dict_eq_def list_all_iff)
    next
      case False
      then have "map_of d k = None" and "map_of e k = None" by (simp_all add: map_of_eq_None_iff)
      then show ?thesis by simp
    qed
  qed
qed (simp add: dict_eq_def list_all_iff)

lemma map_of_dict_pop: "map_of (dict_pop d k) j = (if j = k then None else map_of d j)"
  by (induction d) (auto simp: dict_pop_def)

lemma map_of_dict_merge: "map_of (dict_merge d e) k = (case map_of e k of None \<Rightarrow> map_of d k | Some v \<Rightarrow> Some v)"
proof -
  have a: "map_of (map (\<lambda>(k, v). (k, dget e k v)) d) k =
      (case map_of d k of None \<Rightarrow> None | Some v \<Rightarrow> Some (dget e k v))"
    by (induction d) (auto split: option.splits)
  have b: "map_of (filter (\<lambda>(k, _). k \<notin> S) e) k = (if k \<in> S then None else map_of e k)" for S
    by (induction e) auto
  show ?thesis
  proof (cases "map_of d k")
    case None
    then have "k \<notin> fst ` set d" by (simp add: map_of_eq_None_iff)
    with None show ?thesis
      by (simp add: dict_merge_def map_add_def a b split: option.splits)
  next
    case (Some v)
    then have "k \<in> fst ` set d" by (force dest: map_of_SomeD)
    with Some show ?thesis
      unfolding dict_merge_def map_of_append map_add_def a b
      by (simp add: dget_def split: option.split)
  qed
qed

lemma map_of_without_annotations:
  "map_of (without_annotations d) k = (if k \<in> set amendment_keys then None else map_of d k)"
  by (induction d) (auto simp: without_annotations_def)

lemma matches_stripped:
  "matches_undelivered d e \<longleftrightarrow>
     ed_event_id d = Some (en_event_id e) \<and> en_run_id e = ed_run_id d
     \<and> en_conversation_id e = ed_conversation_id d \<and> en_event_type e = ed_event_type d
     \<and> en_trace_id e = ed_trace_id d \<and> map_of (en_payload e) = map_of (ed_payload d)
     \<and> map_of (without_annotations (en_metadata e)) = map_of (without_annotations (ed_metadata d))
     \<and> (ed_created_at d = None \<or> ed_created_at d = Some (en_created_at e))"
  by (simp add: matches_undelivered_def matches_envelope_def dict_eq_iff)

lemma matches_envelope_undelivered: "matches_envelope d e \<Longrightarrow> matches_undelivered d e"
  unfolding matches_stripped by (auto simp: matches_envelope_def dict_eq_iff fun_eq_iff map_of_without_annotations)

lemma resolve_redelivery_iff:
  "resolve_redelivery d e = (if matches_undelivered d e then Inr e else Inl RuntimeEventIdempotencyConflict)"
  by (auto simp: resolve_redelivery_def matches_envelope_undelivered)

section \<open>The store\<close>

definition store_wf :: "'z event_world_scheme \<Rightarrow> bool" where
  "store_wf w \<longleftrightarrow>
     (\<forall>run. map en_sequence_no (ew_events w run) = map (\<lambda>i. int i + 1) [0 ..< length (ew_events w run)]
        \<and> (\<forall>e \<in> set (ew_events w run). en_run_id e = run)
        \<and> distinct (map en_event_id (ew_events w run)))"

lemma set_run_latest_simps [simp]:
  "ew_events (set_run_latest_sequence r n w) = ew_events w"
  "ew_deleted (set_run_latest_sequence r n w) = ew_deleted w"
  "ew_sealed (set_run_latest_sequence r n w) = ew_sealed w"
  "ew_tick (set_run_latest_sequence r n w) = ew_tick w"
  by (simp_all add: set_run_latest_sequence_def split: option.split)

lemma stored_event_Some: "stored_event i evs = Some e \<Longrightarrow> e \<in> set evs \<and> en_event_id e = i"
  by (auto simp: stored_event_def find_Some_iff)

lemma stored_event_None: "stored_event i evs = None \<longleftrightarrow> i \<notin> en_event_id ` set evs"
  by (auto simp: stored_event_def find_None_iff)

lemma stored_event_append:
  "stored_event i (evs @ fs) = (case stored_event i evs of None \<Rightarrow> stored_event i fs | Some e \<Rightarrow> Some e)"
  by (induction evs) (auto simp: stored_event_def)

lemma append_event_cases:
  assumes "append_event env d w = (r, w')" and "ed_event_id d = Some i"
  obtains (stored) e where "stored_event i (ew_events w (ed_run_id d)) = Some e"
      and "w' = w" and "r = resolve_redelivery d e"
    | (fresh) "stored_event i (ew_events w (ed_run_id d)) = None"
      and "r = Inr (new_envelope env d (ew_events w (ed_run_id d)) (ew_tick w))"
      and "ew_events w' = (ew_events w)(ed_run_id d :=
             ew_events w (ed_run_id d) @ [new_envelope env d (ew_events w (ed_run_id d)) (ew_tick w)])"
      and "ew_sealed w' = ew_sealed w" and "ew_deleted w' = ew_deleted w"
  using assms
  by (cases "stored_event i (ew_events w (ed_run_id d))") (auto simp: append_event_def Let_def)

lemma append_event_wf:
  assumes "append_event env d w = (r, w')" and "ed_event_id d = Some i" and "store_wf w"
  shows "store_wf w'"
  using assms(1,2)
proof (cases rule: append_event_cases)
  case (stored e)
  with assms(3) show ?thesis by simp
next
  case fresh
  with assms(2,3) show ?thesis
    by (auto simp: store_wf_def new_envelope_def stored_event_None)
qed

section \<open>An append through the ledger\<close>

definition ledger_run :: "effect_ledger \<Rightarrow> string" where
  "ledger_run led = rn_run_id (el_run led)"

text \<open>The draft that \<open>append_stage_event\<close> hands to the store.\<close>

definition stage_draft ::
  "event_env \<Rightarrow> effect_ledger \<Rightarrow> string \<Rightarrow> dict \<Rightarrow> string \<Rightarrow> string \<Rightarrow> ledger_amendment option \<Rightarrow> event_draft" where
  "stage_draft env led ty safe_payload key fingerprint amendment =
     \<lparr>ed_event_id = Some (effect_event_id env led key), ed_run_id = rn_run_id (el_run led),
      ed_conversation_id = rn_conversation_id (el_run led), ed_org_id = rn_org_id (el_run led),
      ed_event_type = ty, ed_trace_id = rn_trace_id (el_run led), ed_payload = safe_payload,
      ed_metadata =
        (let m = dict_merge (el_append_metadata led) [(''effect_stage_request_fingerprint'', JStr fingerprint)]
         in case amendment of None \<Rightarrow> m | Some a \<Rightarrow> dict_merge m (amendment_metadata a)),
      ed_created_at = None\<rparr>"

lemma effect_not_sealing: "ty \<in> set effect_event_types \<Longrightarrow> ty \<notin> set sealing_event_types"
  by (auto simp: effect_event_types_def sealing_event_types_def event_type_defs)

text \<open>
  Every way an append can end: refused before the store is reached (the world is then as it
  was), or handed to the store, whose answer is the result, turned into a structural event.
\<close>

lemma append_cases:
  assumes "append_stage_event env led sc ty payload key fp w = (r, w')"
  obtains (refused) e where "r = Inl e" and "w' = w"
    | (handed) safe stored_payload amendment r' where "ty \<in> set effect_event_types"
      and "validate_payload ty payload = Inr safe"
      and "reconciled_amendment led ty = Inr amendment"
      and "amendment \<noteq> None \<or> ew_sealed w (ledger_run led) = None"
      and "payload_for_event ty safe = Inr stored_payload"
      and "append_event env (stage_draft env led ty stored_payload key fp amendment) w = (r', w')"
      and "r = (case r' of Inl e \<Rightarrow> Inl (if e = RuntimeEventIdempotencyConflict then EffectStageIdempotencyConflict else e)
               | Inr env \<Rightarrow> structural_of env)"
proof -
  consider "assert_ledger_scope led sc \<noteq> Inr ()" | "ty \<notin> set effect_event_types"
    | "\<exists>e. validate_payload ty payload = Inl e" | "\<exists>e. reconciled_amendment led ty = Inl e"
    | safe amendment where "assert_ledger_scope led sc = Inr ()" and "ty \<in> set effect_event_types"
      and "validate_payload ty payload = Inr safe" and "reconciled_amendment led ty = Inr amendment"
    by (metis sum.exhaust_sel)
  then show thesis
  proof cases
    case 1
    then obtain e where "assert_ledger_scope led sc = Inl e" by (cases "assert_ledger_scope led sc") auto
    with assms show thesis by (intro refused [of e]) (auto simp: append_stage_event_def throw_def)
  next
    case 2
    with assms show thesis
      by (cases "assert_ledger_scope led sc") (auto simp: append_stage_event_def throw_def intro: refused)
  next
    case 3
    with assms show thesis
      by (cases "assert_ledger_scope led sc"; cases "ty \<in> set effect_event_types")
         (auto simp: append_stage_event_def throw_def as_stage_conflict_def bnd_def lift_def demand_def intro: refused)
  next
    case 4
    with assms show thesis
      by (cases "assert_ledger_scope led sc"; cases "ty \<in> set effect_event_types"; cases "validate_payload ty payload")
         (auto simp: append_stage_event_def throw_def as_stage_conflict_def bnd_def lift_def demand_def intro: refused)
  next
    case 5
    note ns = effect_not_sealing [OF 5(2)]
    show thesis
    proof (cases "amendment = None \<and> ew_sealed w (ledger_run led) \<noteq> None")
      case True
      then have "seal_guard (rn_run_id (el_run led)) ty amendment w = (Inl LedgerSealViolation, w)"
        using ns by (auto simp: seal_guard_def ledger_run_def)
      with 5 assms show thesis
        by (intro refused [of LedgerSealViolation])
           (auto simp: append_stage_event_def as_stage_conflict_def bnd_def append_api_event_def lift_def demand_def)
    next
      case False
      then have g: "seal_guard (rn_run_id (el_run led)) ty amendment w = (Inr (), w)"
        using ns by (auto simp: seal_guard_def ledger_run_def)
      show thesis
      proof (cases "payload_for_event ty safe")
        case (Inl e)
        with 5 g assms show thesis
          by (intro refused [of "if e = RuntimeEventIdempotencyConflict then EffectStageIdempotencyConflict else e"])
             (auto simp: append_stage_event_def as_stage_conflict_def bnd_def append_api_event_def lift_def demand_def)
      next
        case (Inr sp)
        let ?d = "stage_draft env led ty sp key fp amendment"
        obtain r' u where ae: "append_event env ?d w = (r', u)" by (cases "append_event env ?d w")
        have api: "append_api_event env (el_run led) ty safe
            (dict_merge (el_append_metadata led) [(''effect_stage_request_fingerprint'', JStr fp)])
            (Some (effect_event_id env led key)) amendment w = (r', u)"
          using ae by (simp add: append_api_event_def bnd_def g Inr lift_def stage_draft_def Let_def)
        from 5 assms api have "u = w'" and "r = (case r' of
              Inl e \<Rightarrow> Inl (if e = RuntimeEventIdempotencyConflict then EffectStageIdempotencyConflict else e)
            | Inr env \<Rightarrow> structural_of env)"
          by (auto simp: append_stage_event_def as_stage_conflict_def bnd_def lift_def demand_def split: sum.splits)
        with ae False 5 Inr show thesis by (intro handed [of safe amendment sp r']) auto
      qed
    qed
  qed
qed

section \<open>What a stored payload contains\<close>

text \<open>
  The payload that reaches the store is, field by field, the one that was appended, with the
  writer stamp \<open>w\<close>.
\<close>

lemma validated_version:
  assumes "validate_payload ty d = Inr e"
  shows "map_of e ''v'' = Some (JInt 1)"
proof -
  from assms obtain specs valid where m: "payload_model ty = Some (specs, valid)" and v: "valid d"
    and e: "e = dump_fields specs d"
    by (auto simp: validate_payload_def split: option.splits if_splits)
  from model_specs(3) [OF m] have s: "(''v'', True, \<lambda>j. j = JInt 1) \<in> set specs" by (auto simp: base_fields_def)
  with model_specs(4) [OF m v] have "map_of d ''v'' = Some (JInt 1)"
    by (auto simp: fields_ok_def list_all_iff split: option.splits dest!: bspec)
  moreover from s have "''v'' \<in> fst ` set specs" by force
  ultimately show ?thesis by (simp add: e map_of_dump kept_def)
qed

lemma payload_for_event_lookup:
  assumes "validate_payload ty d = Inr safe" and "payload_for_event ty safe = Inr p" and "k \<noteq> ''w''"
  shows "map_of p k = (if k \<in> model_fields ty then kept (map_of d k) else None)"
proof -
  have "effect_ledger_payload ty safe = safe"
    by (simp add: effect_ledger_payload_def validate_twice [OF assms(1)])
  with assms(2,3) have "map_of p k = map_of (dict_pop safe ''w'') k"
    by (auto simp: payload_for_event_def sign_ledger_writer_def Let_def rbind_Inr_iff map_add_def
        split: if_splits option.splits)
  with assms(3) show ?thesis
    using validate_payload_fields [OF assms(1)] by (simp add: map_of_dict_pop)
qed

section \<open>Retries and conflicts\<close>

lemma validated_writer:
  assumes "validate_payload ty d = Inr e"
  shows "dget e ''w'' JNull \<in> {JNull, JStr CURRENT_LEDGER_WRITER}"
proof -
  from assms obtain specs valid where m: "payload_model ty = Some (specs, valid)" and "valid d"
    by (auto simp: validate_payload_def split: option.splits if_splits)
  note b = model_specs(3,4) [OF m]
  from b(1) have w: "(''w'', False, str_such (\<lambda>s. s = ''runtime.v2.1'')) \<in> set specs"
    by (auto simp: base_fields_def)
  from b(2) [OF \<open>valid d\<close>] have "list_all (\<lambda>(k, needed, chk).
          case map_of d k of
            None \<Rightarrow> \<not> needed
          | Some v \<Rightarrow> chk v \<or> (\<not> needed \<and> v = JNull)) specs" by (simp add: fields_ok_def)
  with w have "case map_of d ''w'' of None \<Rightarrow> True | Some v \<Rightarrow> str_such (\<lambda>s. s = ''runtime.v2.1'') v \<or> v = JNull"
    by (fastforce simp: list_all_iff split: option.splits)
  then have "map_of d ''w'' \<in> {None, Some JNull, Some (JStr CURRENT_LEDGER_WRITER)}"
    by (cases "map_of d ''w''") (auto simp: CURRENT_LEDGER_WRITER_def elim!: str_such.elims)
  then show ?thesis
    using validate_payload_lookup [OF assms m, of "''w''"] by (auto simp: dget_def split: option.splits if_splits)
qed

lemma payload_for_event_total:
  assumes "validate_payload ty d = Inr safe"
  obtains p where "payload_for_event ty safe = Inr p"
  using validated_writer [OF assms] that
  by (auto simp: payload_for_event_def sign_ledger_writer_def Let_def)

text \<open>After an append that returned, the store holds the event under its id, as the draft has it.\<close>

lemma append_stored:
  assumes "append_event env d w = (Inr e, w')" and "ed_event_id d = Some i"
  shows "stored_event i (ew_events w' (ed_run_id d)) = Some e" and "matches_undelivered d e"
proof -
  have "stored_event i (ew_events w' (ed_run_id d)) = Some e \<and> matches_undelivered d e"
    using assms
  proof (cases rule: append_event_cases)
    case (stored e0)
    then show ?thesis by (auto simp: resolve_redelivery_iff split: if_splits)
  next
    case fresh
    then have e: "e = new_envelope env d (ew_events w (ed_run_id d)) (ew_tick w)" by simp
    with assms(2) have id: "en_event_id e = i" by (simp add: new_envelope_def)
    then have "stored_event i [e] = Some e" by (simp add: stored_event_def)
    with fresh(1,3) e have "stored_event i (ew_events w' (ed_run_id d)) = Some e"
      by (simp add: stored_event_append)
    moreover have "matches_undelivered d e"
      unfolding matches_stripped using assms(2) id
      by (auto simp: e new_envelope_def split: option.split)
    ultimately show ?thesis by blast
  qed
  then show "stored_event i (ew_events w' (ed_run_id d)) = Some e" and "matches_undelivered d e" by simp_all
qed

text \<open>The same ledger of the same run, read again later: only the sequence cursor may differ.\<close>

definition same_ledger :: "effect_ledger \<Rightarrow> effect_ledger \<Rightarrow> bool" where
  "same_ledger a b \<longleftrightarrow>
     b = a\<lparr>el_run := (el_run a)\<lparr>rn_latest_sequence_no := rn_latest_sequence_no (el_run b)\<rparr>\<rparr>"

lemma same_ledgerD:
  assumes "same_ledger a b"
  shows "rn_run_id (el_run b) = rn_run_id (el_run a)" "rn_org_id (el_run b) = rn_org_id (el_run a)"
    "rn_conversation_id (el_run b) = rn_conversation_id (el_run a)"
    "rn_trace_id (el_run b) = rn_trace_id (el_run a)" "el_owner_ref b = el_owner_ref a"
    "el_append_metadata b = el_append_metadata a"
proof -
  from assms have b: "b = a\<lparr>el_run := (el_run a)\<lparr>rn_latest_sequence_no := rn_latest_sequence_no (el_run b)\<rparr>\<rparr>"
    by (simp add: same_ledger_def)
  show "rn_run_id (el_run b) = rn_run_id (el_run a)" by (subst b) simp
  show "rn_org_id (el_run b) = rn_org_id (el_run a)" by (subst b) simp
  show "rn_conversation_id (el_run b) = rn_conversation_id (el_run a)" by (subst b) simp
  show "rn_trace_id (el_run b) = rn_trace_id (el_run a)" by (subst b) simp
  show "el_owner_ref b = el_owner_ref a" by (subst b) simp
  show "el_append_metadata b = el_append_metadata a" by (subst b) simp
qed

lemma amendment_without:
  "k \<notin> set amendment_keys \<Longrightarrow> map_of (amendment_metadata a) k = None"
  by (auto simp: amendment_metadata_def amendment_keys_def split: option.splits)

lemma stage_draft_metadata:
  "map_of (without_annotations (ed_metadata (stage_draft env led ty p key fp am))) =
     (\<lambda>k. if k \<in> set amendment_keys then None
          else if k = ''effect_stage_request_fingerprint'' then Some (JStr fp)
          else map_of (el_append_metadata led) k)"
  by (auto simp: fun_eq_iff stage_draft_def Let_def map_of_without_annotations map_of_dict_merge
      amendment_without split: option.splits)

lemma stage_draft_simps [simp]:
  "ed_event_id (stage_draft env led ty p key fp am) = Some (effect_event_id env led key)"
  "ed_run_id (stage_draft env led ty p key fp am) = ledger_run led"
  "ed_created_at (stage_draft env led ty p key fp am) = None"
  "ed_payload (stage_draft env led ty p key fp am) = p"
  "ed_event_type (stage_draft env led ty p key fp am) = ty"
  by (simp_all add: stage_draft_def ledger_run_def)

text \<open>A request that is well formed for a ledger reaches its store unless the run is sealed.\<close>

definition admits :: "effect_ledger \<Rightarrow> stage_scope \<Rightarrow> string \<Rightarrow> dict \<Rightarrow> 'z event_world_scheme \<Rightarrow> bool" where
  "admits led sc ty payload w \<longleftrightarrow>
     ok (assert_ledger_scope led sc) \<and> ty \<in> set effect_event_types \<and> ok (validate_payload ty payload)
     \<and> ok (reconciled_amendment led ty)
     \<and> (ty = EFFECT_RECONCILED \<or> ew_sealed w (ledger_run led) = None)"

lemma append_sealed:
  assumes "ew_sealed w (ledger_run led) \<noteq> None" and "ty \<noteq> EFFECT_RECONCILED"
  shows "\<exists>e. append_stage_event env led sc ty payload key fp w = (Inl e, w)"
proof -
  obtain r w' where a: "append_stage_event env led sc ty payload key fp w = (r, w')"
    by (cases "append_stage_event env led sc ty payload key fp w")
  then show ?thesis
  proof (cases rule: append_cases)
    case (handed safe p am r')
    then show ?thesis using assms by (auto simp: reconciled_amendment_def)
  qed (use a in simp)
qed

lemma append_admitted:
  assumes "admits led sc ty payload w"
  obtains safe p am where "validate_payload ty payload = Inr safe" and "payload_for_event ty safe = Inr p"
    and "append_stage_event env led sc ty payload key fp w =
      (case append_event env (stage_draft env led ty p key fp am) w of
         (Inl e, w') \<Rightarrow> (Inl (if e = RuntimeEventIdempotencyConflict then EffectStageIdempotencyConflict else e), w')
       | (Inr x, w') \<Rightarrow> (structural_of x, w'))"
proof -
  from assms obtain safe am where f: "assert_ledger_scope led sc = Inr ()" "ty \<in> set effect_event_types"
    "validate_payload ty payload = Inr safe" "reconciled_amendment led ty = Inr am"
    by (auto simp: admits_def ok_iff)
  obtain p where p: "payload_for_event ty safe = Inr p" using payload_for_event_total [OF f(3)] .
  have "am \<noteq> None \<or> ew_sealed w (ledger_run led) = None"
    using assms f(4) by (auto simp: admits_def reconciled_amendment_def rbind_Inr_iff split: if_splits)
  then have g: "seal_guard (rn_run_id (el_run led)) ty am w = (Inr (), w)"
    using effect_not_sealing [OF f(2)] by (auto simp: seal_guard_def ledger_run_def)
  have "append_api_event env (el_run led) ty safe
      (dict_merge (el_append_metadata led) [(''effect_stage_request_fingerprint'', JStr fp)])
      (Some (effect_event_id env led key)) am w = append_event env (stage_draft env led ty p key fp am) w"
    by (simp add: append_api_event_def bnd_def g p lift_def stage_draft_def Let_def)
  with f have "append_stage_event env led sc ty payload key fp w =
      (case append_event env (stage_draft env led ty p key fp am) w of
         (Inl e, w') \<Rightarrow> (Inl (if e = RuntimeEventIdempotencyConflict then EffectStageIdempotencyConflict else e), w')
       | (Inr x, w') \<Rightarrow> (structural_of x, w'))"
    by (auto simp: append_stage_event_def as_stage_conflict_def bnd_def lift_def demand_def
        split: prod.splits sum.splits)
  with f(3) p show thesis by (rule that)
qed

lemma effect_event_id_same: "same_ledger a b \<Longrightarrow> effect_event_id env b key = effect_event_id env a key"
  by (simp add: effect_event_id_def same_ledgerD)

lemma draft_same_ledger:
  assumes "same_ledger a b"
  shows "matches_undelivered (stage_draft env b ty p key fp am) e =
         matches_undelivered (stage_draft env a ty p key fp am') e"
proof -
  have "effect_event_id env b key = effect_event_id env a key" using assms by (rule effect_event_id_same)
  moreover have "ed_conversation_id (stage_draft env b ty p key fp am) = ed_conversation_id (stage_draft env a ty p key fp am')"
    "ed_trace_id (stage_draft env b ty p key fp am) = ed_trace_id (stage_draft env a ty p key fp am')"
    using same_ledgerD [OF assms] by (simp_all add: stage_draft_def)
  ultimately show ?thesis
    unfolding matches_stripped stage_draft_metadata same_ledgerD(6) [OF assms]
    by (simp add: ledger_run_def same_ledgerD [OF assms])
qed

lemma append_returned:
  assumes "append_stage_event env led sc ty payload key fp w = (Inr ev, w')"
  obtains safe p am e where "admits led sc ty payload w" and "validate_payload ty payload = Inr safe"
    and "payload_for_event ty safe = Inr p" and "structural_of e = Inr ev"
    and "append_event env (stage_draft env led ty p key fp am) w = (Inr e, w')"
    and "stored_event (effect_event_id env led key) (ew_events w' (ledger_run led)) = Some e"
    and "matches_undelivered (stage_draft env led ty p key fp am) e"
proof -
  have sc: "assert_ledger_scope led sc = Inr ()"
    using assms by (cases "assert_ledger_scope led sc") (auto simp: append_stage_event_def throw_def)
  from assms show thesis
  proof (cases rule: append_cases)
    case (handed safe p am r')
    then obtain e where r': "r' = Inr e" and st: "structural_of e = Inr ev" by (cases r') auto
    with handed have ae: "append_event env (stage_draft env led ty p key fp am) w = (Inr e, w')" by simp
    have "am \<noteq> None \<longleftrightarrow> ty = EFFECT_RECONCILED"
      using handed(3) by (auto simp: reconciled_amendment_def rbind_Inr_iff split: if_splits)
    with handed sc have "admits led sc ty payload w" by (auto simp: admits_def ok_iff)
    from that [OF this handed(2,5) st ae] append_stored [OF ae] show thesis by simp
  qed simp
qed

lemma append_stored_again:
  assumes "admits led sc ty payload w" and "validate_payload ty payload = Inr safe"
    and "payload_for_event ty safe = Inr p"
    and "stored_event (effect_event_id env led key) (ew_events w (ledger_run led)) = Some e"
  shows "append_stage_event env led sc ty payload key fp w =
     ((if matches_undelivered (stage_draft env led ty p key fp None) e then structural_of e
       else Inl EffectStageIdempotencyConflict), w)"
proof -
  obtain safe' p' am where v: "validate_payload ty payload = Inr safe'" "payload_for_event ty safe' = Inr p'"
    and a': "append_stage_event env led sc ty payload key fp w =
      (case append_event env (stage_draft env led ty p' key fp am) w of
         (Inl e, w') \<Rightarrow> (Inl (if e = RuntimeEventIdempotencyConflict then EffectStageIdempotencyConflict else e), w')
       | (Inr x, w') \<Rightarrow> (structural_of x, w'))"
    by (rule append_admitted [OF assms(1)])
  from v assms(2,3) have "p' = p" by simp
  note a = a' [unfolded this]
  have "append_event env (stage_draft env led ty p key fp am) w =
      (resolve_redelivery (stage_draft env led ty p key fp am) e, w)"
    using assms(4) by (simp add: append_event_def Let_def)
  moreover have "matches_undelivered (stage_draft env led ty p key fp am) e =
      matches_undelivered (stage_draft env led ty p key fp None) e"
    by (rule draft_same_ledger) (simp add: same_ledger_def)
  ultimately show ?thesis by (simp add: a resolve_redelivery_iff)
qed

lemma admits_again:
  assumes "admits led sc ty payload w" and "same_ledger led led'"
    and "ty = EFFECT_RECONCILED \<Longrightarrow> 1 \<le> rn_latest_sequence_no (el_run led')"
    and "ty \<noteq> EFFECT_RECONCILED \<Longrightarrow> ew_sealed v (ledger_run led) = None"
  shows "admits led' sc ty payload v"
proof -
  have "ok (reconciled_amendment led' ty)"
  proof (cases "ty = EFFECT_RECONCILED")
    case True
    with assms(1) have "ok (ledger_id_format (rn_run_id (el_run led)) (rn_latest_sequence_no (el_run led)))"
      by (auto simp: admits_def reconciled_amendment_def ok_iff rbind_Inr_iff)
    with assms(3) [OF True] have "ok (ledger_id_format (rn_run_id (el_run led)) (rn_latest_sequence_no (el_run led')))"
      by (auto simp: ledger_id_format_def Let_def split: if_splits)
    with True show ?thesis
      by (auto simp: reconciled_amendment_def ok_iff same_ledgerD [OF assms(2)])
  qed (simp add: reconciled_amendment_def)
  moreover have "ty = EFFECT_RECONCILED \<or> ew_sealed v (ledger_run led) = None"
    by (cases "ty = EFFECT_RECONCILED") (simp_all add: assms(4))
  ultimately show ?thesis using assms(1)
    by (auto simp: admits_def assert_ledger_scope_def same_ledgerD [OF assms(2)] ledger_run_def)
qed

lemma retry_returns_stored:
  assumes "append_stage_event env led sc ty payload key fp w = (Inr ev, w')"
    and "same_ledger led led'"
    and "stored_event (effect_event_id env led key) (ew_events v (ledger_run led)) =
         stored_event (effect_event_id env led key) (ew_events w' (ledger_run led))"
    and "ty = EFFECT_RECONCILED \<Longrightarrow> 1 \<le> rn_latest_sequence_no (el_run led')"
    and "ty \<noteq> EFFECT_RECONCILED \<Longrightarrow> ew_sealed v (ledger_run led) = None"
  shows "append_stage_event env led' sc ty payload key fp v = (Inr ev, v)"
  using assms(1)
proof (cases rule: append_returned)
  case (1 safe p am e)
  have "admits led' sc ty payload v" using admits_again [OF 1(1) assms(2,4,5)] .
  moreover have "stored_event (effect_event_id env led' key) (ew_events v (ledger_run led')) = Some e"
    using 1(6) assms(3) same_ledgerD(1) [OF assms(2)] effect_event_id_same [OF assms(2)]
    by (simp add: ledger_run_def)
  ultimately have "append_stage_event env led' sc ty payload key fp v =
      ((if matches_undelivered (stage_draft env led' ty p key fp None) e then structural_of e
        else Inl EffectStageIdempotencyConflict), v)"
    using 1(2,3) by (intro append_stored_again)
  with 1(4,7) draft_same_ledger [OF assms(2), of env ty p key fp None e am] show ?thesis by simp
qed

lemma changed_request_conflicts:
  assumes "append_stage_event env led sc ty payload key fp w = (Inr ev, w')"
    and "stored_event (effect_event_id env led key) (ew_events v (ledger_run led)) =
         stored_event (effect_event_id env led key) (ew_events w' (ledger_run led))"
    and "admits led sc ty' payload' v" and "fp' \<noteq> fp"
  shows "append_stage_event env led sc ty' payload' key fp' v = (Inl EffectStageIdempotencyConflict, v)"
  using assms(1)
proof (cases rule: append_returned)
  case (1 safe p am e)
  obtain safe' p' where s: "validate_payload ty' payload' = Inr safe'" "payload_for_event ty' safe' = Inr p'"
    using append_admitted [OF assms(3)] by metis
  have "\<not> matches_undelivered (stage_draft env led ty' p' key fp' None) e"
  proof
    assume "matches_undelivered (stage_draft env led ty' p' key fp' None) e"
    with 1(7) have "map_of (without_annotations (ed_metadata (stage_draft env led ty' p' key fp' None))) =
        map_of (without_annotations (ed_metadata (stage_draft env led ty p key fp am)))"
      unfolding matches_stripped by metis
    from fun_cong [OF this, of "''effect_stage_request_fingerprint''"] assms(4) show False
      by (simp add: stage_draft_metadata amendment_keys_def)
  qed
  with append_stored_again [OF assms(3) s, of env key e fp'] 1(6) assms(2) show ?thesis by simp
qed

section \<open>History\<close>

text \<open>The stream of the run, as \<open>list_stage_events\<close> reads it.\<close>

definition ledger_ready :: "effect_ledger \<Rightarrow> 'z event_world_scheme \<Rightarrow> bool" where
  "ledger_ready led w \<longleftrightarrow>
     store_wf w \<and> ok (ledger_id_format (ledger_run led) 1)
     \<and> (\<exists>r. ew_runs w (ledger_run led) = Some r \<and> rn_org_id r = rn_org_id (el_run led)
            \<and> \<not> ew_deleted w (rn_conversation_id r))"

definition the_structural :: "envelope \<Rightarrow> structural_event" where
  "the_structural e = (case structural_of e of Inr ev \<Rightarrow> ev
     | Inl _ \<Rightarrow> \<lparr>ev_run_id = [], ev_ledger_id = [], ev_sequence_no = 0, ev_event_type = [], ev_payload = [], ev_created_at = []\<rparr>)"

definition stage_history :: "effect_ledger \<Rightarrow> 'z event_world_scheme \<Rightarrow> string \<Rightarrow> structural_event list" where
  "stage_history led w sid = map the_structural
     (filter (\<lambda>e. en_event_type e \<in> set effect_event_types \<and> dget (en_payload e) ''stage_id'' JNull = JStr sid)
        (ew_events w (ledger_run led)))"

lemma structural_total:
  assumes "ok (ledger_id_format (ledger_run led) 1)" and "en_run_id e = ledger_run led" and "1 \<le> en_sequence_no e"
  shows "structural_of e = Inr (the_structural e)"
proof -
  from assms obtain lid where "ledger_id_format (en_run_id e) (en_sequence_no e) = Inr lid"
    by (auto simp: ledger_id_format_def Let_def ok_iff split: if_splits)
  then show ?thesis by (simp add: structural_of_def the_structural_def)
qed

lemma the_structural_fields:
  assumes "structural_of e = Inr ev"
  shows "ev_sequence_no ev = en_sequence_no e" "ev_payload ev = en_payload e"
    "ev_event_type ev = en_event_type e" "ev_run_id ev = en_run_id e" "the_structural e = ev"
  using assms by (auto simp: structural_of_def the_structural_def rbind_Inr_iff)

lemma store_positions:
  assumes "store_wf w" and "e \<in> set (ew_events w run)"
  shows "en_run_id e = run" and "1 \<le> en_sequence_no e" and "en_sequence_no e \<le> int (length (ew_events w run))"
proof -
  from assms show "en_run_id e = run" by (simp add: store_wf_def)
  from assms have "en_sequence_no e \<in> set (map (\<lambda>i. int i + 1) [0 ..< length (ew_events w run)])"
    by (metis store_wf_def image_eqI set_map)
  then show "1 \<le> en_sequence_no e" and "en_sequence_no e \<le> int (length (ew_events w run))" by auto
qed

lemma list_stage_events_ready:
  assumes "ledger_ready led w"
  shows "list_stage_events led sc sid w =
     ((if ok (assert_ledger_scope led sc) then Inr (stage_history led w sid) else Inl ValueError), w)"
proof -
  from assms obtain r where r: "ew_runs w (ledger_run led) = Some r" "rn_org_id r = rn_org_id (el_run led)"
    "\<not> ew_deleted w (rn_conversation_id r)" and wf: "store_wf w" and okl: "ok (ledger_id_format (ledger_run led) 1)"
    by (auto simp: ledger_ready_def)
  note pos = store_positions [OF wf]
  have "list_events_after (rn_org_id (el_run led)) (rn_run_id (el_run led)) 0 w = ew_events w (ledger_run led)"
    using r pos by (force simp: list_events_after_def get_run_def ledger_run_def intro: filter_True)
  moreover have "rmap structural_of (filter P (ew_events w (ledger_run led))) =
      Inr (map the_structural (filter P (ew_events w (ledger_run led))))" for P
    using pos by (intro rmap_total structural_total [OF okl]) auto
  ultimately show ?thesis
    by (cases "assert_ledger_scope led sc")
       (auto simp: list_stage_events_def stage_history_def assert_ledger_scope_def require_def split: if_splits)
qed

lemma set_run_latest_runs:
  assumes "ew_runs v run = Some rr"
  shows "\<exists>n. ew_runs (set_run_latest_sequence a b v) run = Some (rr\<lparr>rn_latest_sequence_no := n\<rparr>)"
proof -
  have same: "Some rr = Some (rr\<lparr>rn_latest_sequence_no := rn_latest_sequence_no rr\<rparr>)" by simp
  show ?thesis
  proof (cases "a = run \<and> \<not> b \<le> rn_latest_sequence_no rr")
    case True
    with assms show ?thesis by (auto simp: set_run_latest_sequence_def)
  next
    case False
    with assms have "ew_runs (set_run_latest_sequence a b v) run = Some rr"
      by (auto simp: set_run_latest_sequence_def split: option.split)
    with same show ?thesis by metis
  qed
qed

lemma append_event_runs:
  assumes "append_event env d w = (r, w')" and "ew_runs w run = Some rr"
  shows "\<exists>n. ew_runs w' run = Some (rr\<lparr>rn_latest_sequence_no := n\<rparr>)"
proof -
  have same: "Some rr = Some (rr\<lparr>rn_latest_sequence_no := rn_latest_sequence_no rr\<rparr>)" by simp
  show ?thesis
  proof (cases "Option.bind (ed_event_id d) (\<lambda>i. stored_event i (ew_events w (ed_run_id d)))")
    case None
    with assms show ?thesis by (auto simp: append_event_def Let_def intro!: set_run_latest_runs)
  next
    case (Some e)
    with assms have "w' = w" by (simp add: append_event_def)
    with assms(2) same show ?thesis by metis
  qed
qed

lemma append_event_ready:
  assumes "append_event env d w = (r, w')" and "ed_event_id d = Some i" and "ledger_ready led w"
  shows "ledger_ready led w'"
proof -
  from assms(3) obtain rr where rr: "ew_runs w (ledger_run led) = Some rr" "rn_org_id rr = rn_org_id (el_run led)"
    "\<not> ew_deleted w (rn_conversation_id rr)" and "store_wf w"
    by (auto simp: ledger_ready_def)
  have "ew_deleted w' = ew_deleted w"
    using assms(1,2) by (cases rule: append_event_cases) auto
  moreover obtain n where "ew_runs w' (ledger_run led) = Some (rr\<lparr>rn_latest_sequence_no := n\<rparr>)"
    using append_event_runs [OF assms(1) rr(1)] by blast
  ultimately show ?thesis
    using append_event_wf [OF assms(1,2) \<open>store_wf w\<close>] assms(3) rr by (simp add: ledger_ready_def)
qed

lemma stage_history_member:
  assumes "ledger_ready led w" and "e \<in> set (ew_events w (ledger_run led))"
    and "structural_of e = Inr ev" and "ev_event_type ev \<in> set effect_event_types"
    and "event_stage_id ev = Some sid"
  shows "ev \<in> set (stage_history led w sid)"
proof -
  note f = the_structural_fields [OF assms(3)]
  from assms(5) f(2) have "dget (en_payload e) ''stage_id'' JNull = JStr sid"
    by (auto simp: event_stage_id_def split: json.splits)
  with assms(2,4) f(3,5) show ?thesis by (force simp: stage_history_def)
qed

lemma stage_history_key:
  assumes "ledger_ready led w" and "ev \<in> set (stage_history led w sid)"
  shows "ev_sequence_no ev \<le> int (length (ew_events w (ledger_run led)))" and "event_stage_id ev = Some sid"
proof -
  from assms(2) obtain e where e: "e \<in> set (ew_events w (ledger_run led))" "ev = the_structural e"
    "dget (en_payload e) ''stage_id'' JNull = JStr sid"
    by (auto simp: stage_history_def)
  from assms(1) have wf: "store_wf w" and okl: "ok (ledger_id_format (ledger_run led) 1)"
    by (simp_all add: ledger_ready_def)
  note pos = store_positions [OF wf e(1)]
  from the_structural_fields [OF structural_total [OF okl pos(1,2)]] pos e
  show "ev_sequence_no ev \<le> int (length (ew_events w (ledger_run led)))" and "event_stage_id ev = Some sid"
    by (simp_all add: event_stage_id_def)
qed

text \<open>
  What an append through the ledger does to its history: a refusal changes nothing, a replay
  returns an event of the history, and otherwise the event returned is the new last one.
\<close>

lemma append_history:
  assumes ready: "ledger_ready led w"
    and ap: "append_stage_event env led sc ty payload key fp w = (r, w')"
  shows "ledger_ready led w'"
    and "r = Inl e \<Longrightarrow> w' = w"
    and "r = Inr ev \<Longrightarrow> ev_event_type ev = ty"
    and "r = Inr ev \<Longrightarrow>
      (w' = w \<and> (\<forall>sid. event_stage_id ev = Some sid \<longrightarrow> ev \<in> set (stage_history led w sid)))
      \<or> (stored_event (effect_event_id env led key) (ew_events w (ledger_run led)) = None
         \<and> (\<forall>sid. stage_history led w' sid = stage_history led w sid @ (if event_stage_id ev = Some sid then [ev] else [])
                \<and> (\<forall>e \<in> set (stage_history led w sid). event_key e < event_key ev)))"
proof -
  from ready have okl: "ok (ledger_id_format (ledger_run led) 1)" by (simp add: ledger_ready_def)
  have "ledger_ready led w' \<and> (\<forall>e. r = Inl e \<longrightarrow> w' = w)
    \<and> (\<forall>ev. r = Inr ev \<longrightarrow> ev_event_type ev = ty \<and>
      ((w' = w \<and> (\<forall>sid. event_stage_id ev = Some sid \<longrightarrow> ev \<in> set (stage_history led w sid)))
      \<or> (stored_event (effect_event_id env led key) (ew_events w (ledger_run led)) = None
         \<and> (\<forall>sid. stage_history led w' sid = stage_history led w sid @ (if event_stage_id ev = Some sid then [ev] else [])
                \<and> (\<forall>e \<in> set (stage_history led w sid). event_key e < event_key ev)))))"
    using ap
  proof (cases rule: append_cases)
    case (refused e)
    with ready show ?thesis by simp
  next
    case (handed safe p am r')
    let ?d = "stage_draft env led ty p key fp am"
    note ready' = append_event_ready [OF handed(6) _ ready, simplified]
    have id: "ed_event_id ?d = Some (effect_event_id env led key)" by simp
    from handed(6) id show ?thesis
    proof (cases rule: append_event_cases)
      case (stored e)
      note 2 = stored [unfolded stage_draft_simps]
      then have mem: "e \<in> set (ew_events w (ledger_run led))" by (simp add: stored_event_Some)
      have st: "structural_of e = Inr (the_structural e)"
        using store_positions [OF _ mem] ready structural_total [OF okl] by (simp add: ledger_ready_def)
      show ?thesis
      proof (cases r)
        case (Inl x)
        with 2(2) ready show ?thesis by simp
      next
        case (Inr ev)
        with handed(7) 2(3) st have m: "matches_undelivered ?d e" and ev: "ev = the_structural e"
          by (auto simp: resolve_redelivery_iff split: if_splits)
        from m have "en_event_type e = ty" by (simp add: matches_stripped)
        with ev the_structural_fields [OF st] have ty: "ev_event_type ev = ty" by simp
        with handed(1) ev st stage_history_member [OF ready mem, of ev]
        have "\<forall>sid. event_stage_id ev = Some sid \<longrightarrow> ev \<in> set (stage_history led w sid)" by simp
        with Inr 2(2) ready ty show ?thesis by simp
      qed
    next
      case fresh
      note 3 = fresh [unfolded stage_draft_simps]
      let ?e = "new_envelope env ?d (ew_events w (ledger_run led)) (ew_tick w)"
      have ne: "en_run_id ?e = ledger_run led" "en_sequence_no ?e = int (length (ew_events w (ledger_run led))) + 1"
        "en_event_type ?e = ty" by (simp_all add: new_envelope_def)
      have st: "structural_of ?e = Inr (the_structural ?e)"
        by (rule structural_total [OF okl]) (simp_all add: ne)
      note f = the_structural_fields [OF st]
      have r: "r = Inr (the_structural ?e)" using handed(7) 3(2) st by simp
      have "stage_history led w' sid = stage_history led w sid @ (if event_stage_id (the_structural ?e) = Some sid then [the_structural ?e] else [])"
        for sid
        using 3(3) handed(1) f ne by (auto simp: stage_history_def event_stage_id_def split: json.splits)
      moreover have "event_key e < event_key (the_structural ?e)" if "e \<in> set (stage_history led w sid)" for e sid
        using stage_history_key(1) [OF ready that] f(1) ne(2) by (simp add: event_key_def less_prod_def)
      ultimately show ?thesis using ready' r f(3) ne(3) 3(1) by (simp add: ledger_run_def [symmetric])
    qed
  qed
  then show "ledger_ready led w'"
    and "r = Inl e \<Longrightarrow> w' = w"
    and "r = Inr ev \<Longrightarrow> ev_event_type ev = ty"
    and "r = Inr ev \<Longrightarrow>
      (w' = w \<and> (\<forall>sid. event_stage_id ev = Some sid \<longrightarrow> ev \<in> set (stage_history led w sid)))
      \<or> (stored_event (effect_event_id env led key) (ew_events w (ledger_run led)) = None
         \<and> (\<forall>sid. stage_history led w' sid = stage_history led w sid @ (if event_stage_id ev = Some sid then [ev] else [])
                \<and> (\<forall>e \<in> set (stage_history led w sid). event_key e < event_key ev)))"
    by blast+
qed

lemma append_payload:
  assumes "append_stage_event env led sc ty payload key fp w = (Inr ev, w')"
  shows "ev_run_id ev = sc_run_id sc" and "ok (validate_payload ty payload)"
    and "k \<noteq> ''w'' \<Longrightarrow> map_of (ev_payload ev) k = (if k \<in> model_fields ty then kept (map_of payload k) else None)"
  using assms
proof (atomize (full), cases rule: append_returned)
  case (1 safe p am e)
  note f = the_structural_fields [OF 1(4)]
  from 1(7) have "map_of (en_payload e) = map_of p" and "en_run_id e = ledger_run led"
    by (auto simp: matches_stripped)
  moreover from 1(1) have "sc_run_id sc = ledger_run led"
    by (auto simp: admits_def assert_ledger_scope_def ok_iff ledger_run_def)
  ultimately show "ev_run_id ev = sc_run_id sc \<and> ok (validate_payload ty payload)
      \<and> (k \<noteq> ''w'' \<longrightarrow> map_of (ev_payload ev) k = (if k \<in> model_fields ty then kept (map_of payload k) else None))"
    using payload_for_event_lookup [OF 1(2,3)] 1(2) f by simp
qed

section \<open>The runtime ledger meets the stager's contract\<close>

definition runtime_ledger_port :: "event_env \<Rightarrow> effect_ledger \<Rightarrow> 'z event_world_scheme ledger_port" where
  "runtime_ledger_port env led = \<lparr>lp_list = list_stage_events led, lp_append = append_stage_event env led\<rparr>"

interpretation rl: stage_ledger "runtime_ledger_port env led" "stage_history led" "ledger_ready led" for env led
proof (unfold_locales, unfold runtime_ledger_port_def ledger_port.simps)
  fix s t :: "'z event_world_scheme" and sc sid listed
  assume "ledger_ready led s" and "list_stage_events led sc sid s = (listed, t)"
  then show "t = s \<and> (listed = Inr (stage_history led s sid) \<or> listed = Inl ValueError)"
    by (auto simp: list_stage_events_ready split: if_splits)
qed (blast intro: append_history append_payload stage_history_key dest: append_history append_payload)+

end
