(* ===== verification/LedgerProperties.thy ===== *)
theory LedgerProperties
  imports LedgerLaws
begin

text \<open>
  The properties of the runtime effect ledger: append-only streams, idempotent retries, refused
  conflicts, the seal, and what the ledger does not admit.
\<close>

section \<open>A concrete run\<close>

definition sample_run :: run_record where
  "sample_run = \<lparr>rn_org_id = ''org'', rn_user_id = ''u1'', rn_run_id = ''run1'', rn_conversation_id = ''conv'',
     rn_trace_id = ''tr'', rn_latest_sequence_no = 0\<rparr>"

definition sample_ledger :: effect_ledger where
  "sample_ledger = \<lparr>el_run = sample_run, el_owner_ref = ''principal://users/u1'', el_append_metadata = []\<rparr>"

definition sample_scope :: stage_scope where
  "sample_scope = \<lparr>sc_run_id = ''run1'', sc_owner_ref = ''principal://users/u1''\<rparr>"

definition sample_env :: event_env where
  "sample_env = \<lparr>env_clock = (\<lambda>_. ''now''), env_new_id = (\<lambda>n. dec n), env_hash = (\<lambda>s. s)\<rparr>"

definition sample_world :: event_world where
  "sample_world = \<lparr>ew_events = (\<lambda>_. []), ew_runs = (\<lambda>r. if r = ''run1'' then Some sample_run else None),
     ew_deleted = (\<lambda>_. False), ew_sealed = (\<lambda>_. None), ew_tick = 0\<rparr>"

definition sample_claimed_payload :: "int \<Rightarrow> dict" where
  "sample_claimed_payload attempt =
     [(''v'', JInt 1), (''stage_id'', JStr ''stg_00000000-0000-4000-8000-000000000001''),
      (''revision'', JInt 1), (''claim_id'', JStr ''c-1''), (''executor'', JStr ''mcp''),
      (''attempt'', JInt attempt)]"

abbreviation sample_append where
  "sample_append payload fp \<equiv>
     append_stage_event sample_env sample_ledger sample_scope EFFECT_CLAIMED payload ''k1'' fp"

lemma sample_append_ok: "\<exists>ev w. sample_append (sample_claimed_payload 1) ''fp1'' sample_world = (Inr ev, w)"
proof -
  have "ok (fst (sample_append (sample_claimed_payload 1) ''fp1'' sample_world))" by code_simp
  then show ?thesis by (metis ok_iff prod.collapse)
qed

lemma sample_world_wf: "store_wf sample_world"
  by (simp add: store_wf_def sample_world_def)

lemma sample_unsealed:
  assumes "sample_append (sample_claimed_payload 1) ''fp1'' sample_world = (r, w)"
  shows "ew_sealed w = (\<lambda>_. None)"
  using assms
proof (cases rule: append_cases)
  case (handed safe p am r')
  have id: "ed_event_id (stage_draft sample_env sample_ledger EFFECT_CLAIMED p ''k1'' ''fp1'' am) =
      Some (effect_event_id sample_env sample_ledger ''k1'')" by simp
  from handed(6) id show ?thesis
    by (cases rule: append_event_cases) (simp_all add: sample_world_def)
qed (simp_all add: sample_world_def)

section \<open>Append-only streams\<close>

text \<open>The effect ledger is append-only: whatever an append answers, the stream of its run is
  the old one with at most one event behind it, the streams of the other runs are untouched, and
  positions stay gapless from one with every event id used once.\<close>

theorem ledger_append_only:
  assumes "store_wf w" and "append_stage_event env led sc ty payload key fp w = (r, w')"
  shows "store_wf w'
     \<and> (\<exists>ext. length ext \<le> 1 \<and> ew_events w' = (ew_events w)(ledger_run led := ew_events w (ledger_run led) @ ext))"
  using assms(2)
proof (cases rule: append_cases)
  case (refused e)
  with assms(1) show ?thesis by (intro conjI exI [of _ "[]"]) simp_all
next
  case (handed safe p am r')
  have id: "ed_event_id (stage_draft env led ty p key fp am) = Some (effect_event_id env led key)" by simp
  have wf: "store_wf w'" by (rule append_event_wf [OF handed(6) id assms(1)])
  from handed(6) id show ?thesis
  proof (cases rule: append_event_cases)
    case (stored e)
    with wf show ?thesis by (intro conjI exI [of _ "[]"]) simp_all
  next
    case fresh
    with wf show ?thesis
      by (intro conjI exI [where x = "[new_envelope env (stage_draft env led ty p key fp am)
            (ew_events w (ledger_run led)) (ew_tick w)]"]) simp_all
  qed
qed

theorem ledger_append_only_witness:
  "\<exists>ev w. sample_append (sample_claimed_payload 1) ''fp1'' sample_world = (Inr ev, w) \<and> store_wf w"
  using sample_append_ok ledger_append_only [OF sample_world_wf] by blast

section \<open>Retries\<close>

text \<open>A retry returns the original event. After an append succeeded, the same request under
  the same key, made later by the ledger of the same run (whose sequence cursor may have moved)
  while the stream has grown, returns the very event that was stored and changes nothing, as long
  as the run is not sealed or the event is a reconciliation.\<close>

theorem ledger_retry_returns_original:
  assumes "append_stage_event env led sc ty payload key fp w = (Inr ev, w')"
    and "same_ledger led led'"
    and "ew_events v (ledger_run led) = ew_events w' (ledger_run led) @ later"
    and "ty = EFFECT_RECONCILED \<Longrightarrow> 1 \<le> rn_latest_sequence_no (el_run led')"
    and "ty \<noteq> EFFECT_RECONCILED \<Longrightarrow> ew_sealed v (ledger_run led) = None"
  shows "append_stage_event env led' sc ty payload key fp v = (Inr ev, v)"
proof (rule retry_returns_stored [OF assms(1,2) _ assms(4,5)])
  from assms(1) obtain e where "stored_event (effect_event_id env led key) (ew_events w' (ledger_run led)) = Some e"
    by (rule append_returned)
  then show "stored_event (effect_event_id env led key) (ew_events v (ledger_run led)) =
      stored_event (effect_event_id env led key) (ew_events w' (ledger_run led))"
    by (simp add: assms(3) stored_event_append)
qed

theorem ledger_retry_returns_original_witness:
  "\<exists>ev w. sample_append (sample_claimed_payload 1) ''fp1'' sample_world = (Inr ev, w)
     \<and> sample_append (sample_claimed_payload 1) ''fp1'' w = (Inr ev, w)"
proof -
  obtain ev w where a: "sample_append (sample_claimed_payload 1) ''fp1'' sample_world = (Inr ev, w)"
    using sample_append_ok by blast
  have "sample_append (sample_claimed_payload 1) ''fp1'' w = (Inr ev, w)"
    by (rule ledger_retry_returns_original [OF a, where later = "[]"])
       (simp_all add: same_ledger_def sample_unsealed [OF a] event_type_defs)
  with a show ?thesis by blast
qed

text \<open>One key names one request: once an append under a key has succeeded, a request under
  the same key with another fingerprint is refused with the idempotency conflict and changes
  nothing, whatever its event type and payload.\<close>

theorem ledger_changed_request_conflicts:
  assumes "append_stage_event env led sc ty payload key fp w = (Inr ev, w')"
    and "ew_events v (ledger_run led) = ew_events w' (ledger_run led) @ later"
    and "admits led sc ty' payload' v" and "fp' \<noteq> fp"
  shows "append_stage_event env led sc ty' payload' key fp' v = (Inl EffectStageIdempotencyConflict, v)"
proof (rule changed_request_conflicts [OF assms(1) _ assms(3,4)])
  from assms(1) obtain e where "stored_event (effect_event_id env led key) (ew_events w' (ledger_run led)) = Some e"
    by (rule append_returned)
  then show "stored_event (effect_event_id env led key) (ew_events v (ledger_run led)) =
      stored_event (effect_event_id env led key) (ew_events w' (ledger_run led))"
    by (simp add: assms(2) stored_event_append)
qed

theorem ledger_changed_request_conflicts_witness:
  "\<exists>ev w. sample_append (sample_claimed_payload 1) ''fp1'' sample_world = (Inr ev, w)
     \<and> sample_append (sample_claimed_payload 2) ''fp2'' w = (Inl EffectStageIdempotencyConflict, w)"
proof -
  obtain ev w where a: "sample_append (sample_claimed_payload 1) ''fp1'' sample_world = (Inr ev, w)"
    using sample_append_ok by blast
  have "ok (assert_ledger_scope sample_ledger sample_scope)
      \<and> EFFECT_CLAIMED \<in> set effect_event_types
      \<and> ok (validate_payload EFFECT_CLAIMED (sample_claimed_payload 2))
      \<and> ok (reconciled_amendment sample_ledger EFFECT_CLAIMED)" by code_simp
  then have "admits sample_ledger sample_scope EFFECT_CLAIMED (sample_claimed_payload 2) w"
    by (simp add: admits_def sample_unsealed [OF a])
  then have "sample_append (sample_claimed_payload 2) ''fp2'' w = (Inl EffectStageIdempotencyConflict, w)"
    by (intro ledger_changed_request_conflicts [OF a, where later = "[]"]) simp_all
  with a show ?thesis by blast
qed

section \<open>The seal\<close>

text \<open>Once a run is sealed by its terminal event, the ledger refuses every effect event but a
  reconciliation, and the refusal changes nothing.\<close>

theorem sealed_ledger_refuses:
  assumes "ew_sealed w (ledger_run led) \<noteq> None" and "ty \<noteq> EFFECT_RECONCILED"
  shows "\<exists>e. append_stage_event env led sc ty payload key fp w = (Inl e, w)"
  by (rule append_sealed [OF assms])

theorem sealed_ledger_refuses_witness:
  "\<exists>e. sample_append (sample_claimed_payload 1) ''fp1'' (sample_world\<lparr>ew_sealed := (\<lambda>_. Some ''run_completed'')\<rparr>)
     = (Inl e, sample_world\<lparr>ew_sealed := (\<lambda>_. Some ''run_completed'')\<rparr>)"
  by (rule sealed_ledger_refuses) (simp_all add: event_type_defs)

text \<open>C24: The runtime ledger never accepts a row-decision event: \<open>effect.row_decisions_recorded\<close>
  is missing from its list of effect events, so the append always raises \<open>ValueError\<close> although
  the event has a payload model and the fold and the stager handle it.\<close>

theorem runtime_ledger_refuses_row_decisions:
  "append_stage_event env led sc EFFECT_ROW_DECISIONS_RECORDED payload key fp w = (Inl ValueError, w)
     \<and> payload_model EFFECT_ROW_DECISIONS_RECORDED \<noteq> None"
proof
  have "EFFECT_ROW_DECISIONS_RECORDED \<notin> set effect_event_types"
    by (simp add: effect_event_types_def event_type_defs)
  then show "append_stage_event env led sc EFFECT_ROW_DECISIONS_RECORDED payload key fp w = (Inl ValueError, w)"
    by (cases "sc_run_id sc = rn_run_id (el_run led) \<and> sc_owner_ref sc = el_owner_ref led")
       (auto simp: append_stage_event_def assert_ledger_scope_def throw_def)
  show "payload_model EFFECT_ROW_DECISIONS_RECORDED \<noteq> None"
    by (simp add: payload_model_def event_type_defs)
qed

end
