(* ===== verification/EffectStaging.thy ===== *)
theory EffectStaging
  imports StagePorts EffectPolicy
begin

text \<open>
  The stager of \<open>agent_runtime/effects/staging.py\<close>: \<open>stage\<close>, \<open>bind_projection\<close>, \<open>revise\<close>,
  \<open>record_row_decisions\<close>, \<open>decide\<close> and \<open>get_state\<close>, as effects over its ports. The clock, the
  stage-id generator and the SHA-256 of the fingerprint are among the ports.
\<close>

section \<open>Ports\<close>

record 's stager =
  sg_ledger :: "'s ledger_port"
  sg_enqueue :: "commit_command \<Rightarrow> ('s, unit) eff"
  sg_now :: "('s, string) eff"
  sg_new_stage_id :: "('s, string) eff"
  sg_hash :: "string \<Rightarrow> string"

section \<open>Fingerprints\<close>

text \<open>\<open>json.dumps(..., sort_keys=True, separators=(",", ":"), ensure_ascii=False)\<close>.\<close>

definition hex_digit :: "nat \<Rightarrow> char" where
  "hex_digit n = (if n < 10 then char_of (n + 48) else char_of (n + 87))"

definition json_escape_char :: "char \<Rightarrow> string" where
  "json_escape_char c =
     (if c = CHR 0x22 then [CHR 0x5C, CHR 0x22]
      else if c = CHR 0x5C then [CHR 0x5C, CHR 0x5C]
      else if c = CHR 0x0A then [CHR 0x5C, CHR ''n'']
      else if c = CHR 0x0D then [CHR 0x5C, CHR ''r'']
      else if c = CHR 0x09 then [CHR 0x5C, CHR ''t'']
      else if c = CHR 0x08 then [CHR 0x5C, CHR ''b'']
      else if c = CHR 0x0C then [CHR 0x5C, CHR ''f'']
      else if code c < 32 then [CHR 0x5C, CHR ''u'', CHR ''0'', CHR ''0'', hex_digit (code c div 16), hex_digit (code c mod 16)]
      else [c])"

definition json_quote :: "string \<Rightarrow> string" where
  "json_quote s = [CHR 0x22] @ concat (map json_escape_char s) @ [CHR 0x22]"

fun join_with :: "char \<Rightarrow> string list \<Rightarrow> string" where
  "join_with c [] = []"
| "join_with c [s] = s"
| "join_with c (s # ss) = s @ c # join_with c ss"

fun json_text :: "json \<Rightarrow> string" where
  "json_text JNull = ''null''"
| "json_text (JBool b) = (if b then ''true'' else ''false'')"
| "json_text (JInt i) = (if i < 0 then CHR ''-'' # dec (nat (- i)) else dec (nat i))"
| "json_text (JFloat s) = s"
| "json_text (JStr s) = json_quote s"
| "json_text (JArr js) = ''['' @ join_with (CHR '','') (map json_text js) @ '']''"
| "json_text (JObj kvs) =
     ''{'' @ join_with (CHR '','') (map snd (sort_key fst
        (map (\<lambda>(k, v). (k, json_quote k @ '':'' @ json_text v)) kvs))) @ ''}''"

definition fingerprint :: "(string \<Rightarrow> string) \<Rightarrow> string \<Rightarrow> dict \<Rightarrow> string" where
  "fingerprint hash kind v = hash (json_text (JObj [(''kind'', JStr kind), (''value'', JObj v)]))"

text \<open>\<open>model_dump(mode="json")\<close> of the models a fingerprint covers.\<close>

definition dump_actor :: "actor_identity \<Rightarrow> json" where
  "dump_actor a = JObj [(''actor'', JStr (effect_actor_value (ai_actor a))), (''principal_ref'', JStr (ai_ref a))]"

definition dump_scope :: "stage_scope \<Rightarrow> json" where
  "dump_scope s = JObj [(''run_id'', JStr (sc_run_id s)), (''owner_ref'', JStr (sc_owner_ref s))]"

fun dump_policy :: "effect_policy option \<Rightarrow> json" where
  "dump_policy None = JNull"
| "dump_policy (Some p) = JStr (effect_policy_value p)"

definition dump_snapshot :: "policy_snapshot \<Rightarrow> json" where
  "dump_snapshot s = JObj
     [(''snapshot_ref'', JStr (ps_snapshot_ref s)), (''descriptor_known'', JBool (ps_descriptor_known s)),
      (''deployment_policy'', dump_policy (ps_deployment s)),
      (''organization_policy'', dump_policy (ps_organization s)),
      (''grant_policy'', dump_policy (ps_grant s)), (''capability_policy'', dump_policy (ps_capability s)),
      (''user_policy'', dump_policy (ps_user s)), (''allow_always'', JBool (ps_allow_always s)),
      (''sensitive_target'', JBool (ps_sensitive_target s))]"

definition dump_target :: "effect_target \<Rightarrow> json" where
  "dump_target t = JObj
     [(''executor'', JStr (executor_kind_value (tg_executor t))), (''capability'', JStr (tg_capability t)),
      (''op'', JStr (tg_op t)), (''target_ref'', JStr (tg_target_ref t)),
      (''precondition_ref'', jstr_opt (tg_precondition_ref t)),
      (''display_label'', JStr (tg_display_label t))]"

definition dump_proposed :: "proposed_effect \<Rightarrow> json" where
  "dump_proposed p = JObj
     [(''operation_id'', JStr (pe_operation_id p)), (''executor'', JStr (executor_kind_value (pe_executor p))),
      (''target'', dump_target (pe_target p)), (''target_digest'', JStr (pe_target_digest p)),
      (''display_target'', JStr (pe_display_target p)),
      (''proposal_kind'', JStr (proposal_kind_value (pe_kind p))),
      (''proposal_content_ref'', JStr (pe_content_ref p)), (''proposal_digest'', JStr (pe_digest p)),
      (''proposal_media_type'', JStr (pe_media_type p)),
      (''precondition_ref'', jstr_opt (pe_precondition_ref p)),
      (''precondition_digest'', jstr_opt (pe_precondition_digest p)),
      (''effect_class'', JStr (effect_class_value (pe_effect_class p))),
      (''policy_snapshot_ref'', JStr (pe_policy_snapshot_ref p)), (''agent_hold'', JBool (pe_agent_hold p)),
      (''safe_summary_ref'', jstr_opt (pe_safe_summary_ref p)),
      (''projection_required'', JBool (pe_projection_required p))]"

definition dump_revision_proposal :: "revision_proposal \<Rightarrow> json" where
  "dump_revision_proposal p = JObj
     [(''proposal_kind'', JStr (proposal_kind_value (rp_kind p))),
      (''proposal_content_ref'', JStr (rp_content_ref p)), (''proposal_digest'', JStr (rp_digest p)),
      (''proposal_media_type'', JStr (rp_media_type p)), (''target_ref'', JStr (rp_target_ref p)),
      (''target_digest'', JStr (rp_target_digest p)), (''display_target'', JStr (rp_display_target p)),
      (''precondition_ref'', jstr_opt (rp_precondition_ref p)),
      (''precondition_digest'', jstr_opt (rp_precondition_digest p)),
      (''safe_diff_ref'', jstr_opt (rp_safe_diff_ref p))]"

section \<open>Guards\<close>

definition assert_stageable :: "proposed_effect \<Rightarrow> unit result" where
  "assert_stageable p =
     require (pe_effect_class p \<notin> {NONE, INTERNAL_REVERSIBLE}) EffectStageNotStageable"

definition assert_owner :: "stage_scope \<Rightarrow> actor_identity \<Rightarrow> bool \<Rightarrow> unit result" where
  "assert_owner sc actor allow_policy_or_system =
     require ((ai_actor actor = USER \<and> ai_ref actor = sc_owner_ref sc)
              \<or> (allow_policy_or_system \<and> (ai_actor actor = POLICY \<or> ai_actor actor = SYSTEM)))
       EffectStageForbidden"

definition assert_revision_retains_target :: "stage_state \<Rightarrow> revision_proposal \<Rightarrow> unit result" where
  "assert_revision_retains_target s p =
     require (rp_target_ref p = tg_target_ref (st_target s) \<and> rp_target_digest p = st_target_digest s
              \<and> rp_display_target p = st_display_target s
              \<and> rp_precondition_ref p = rv_precondition_ref (current_revision s)
              \<and> rp_precondition_digest p = rv_precondition_digest (current_revision s))
       EffectStageImmutableTarget"

definition is_identical_decision ::
  "stage_state \<Rightarrow> effect_decision_kind \<Rightarrow> actor_identity \<Rightarrow> string \<Rightarrow> string \<Rightarrow> string list option \<Rightarrow> bool" where
  "is_identical_decision s decision actor proposal_digest target_digest row_keys =
     (case st_decision s of
        None \<Rightarrow> False
      | Some c \<Rightarrow> dc_decision c = decision \<and> dc_actor c = actor \<and> dc_proposal_digest c = proposal_digest
          \<and> dc_target_digest c = target_digest \<and> dc_row_keys c = row_keys)"

section \<open>Reading\<close>

definition get_state :: "'s stager \<Rightarrow> stage_scope \<Rightarrow> string \<Rightarrow> ('s, stage_state) eff" where
  "get_state sg sc stage_id =
     bnd (lift (stage_id_parse stage_id)) (\<lambda>_.
     bnd (lp_list (sg_ledger sg) sc stage_id) (\<lambda>events.
     bnd (lift (stage_fold events)) (\<lambda>state.
     bnd (demand (st_scope state = sc) EffectStageForbidden) (\<lambda>_.
     ret state))))"

section \<open>Staging\<close>

definition staged_payload ::
  "stage_scope \<Rightarrow> proposed_effect \<Rightarrow> effect_policy \<Rightarrow> actor_identity \<Rightarrow> string \<Rightarrow> string \<Rightarrow> string \<Rightarrow> dict" where
  "staged_payload sc p policy actor stage_id proposal_ref created_at =
     [(''v'', JInt 1), (''stage_id'', JStr stage_id), (''operation_id'', JStr (pe_operation_id p)),
      (''executor'', JStr (executor_kind_value (pe_executor p))),
      (''capability'', JStr (tg_capability (pe_target p))), (''op'', JStr (tg_op (pe_target p))),
      (''target_ref'', JStr (tg_target_ref (pe_target p))), (''target_digest'', JStr (pe_target_digest p)),
      (''display_target'', JStr (pe_display_target p)),
      (''proposal_kind'', JStr (proposal_kind_value (pe_kind p))), (''proposal_ref'', JStr proposal_ref),
      (''proposal_content_ref'', JStr (pe_content_ref p)), (''proposal_digest'', JStr (pe_digest p)),
      (''proposal_media_type'', JStr (pe_media_type p)),
      (''precondition_ref'', jstr_opt (pe_precondition_ref p)),
      (''precondition_digest'', jstr_opt (pe_precondition_digest p)),
      (''effect_class'', JStr (effect_class_value (pe_effect_class p))),
      (''policy_snapshot_ref'', JStr (pe_policy_snapshot_ref p)),
      (''policy'', JStr (effect_policy_value policy)), (''agent_hold'', JBool (pe_agent_hold p)),
      (''safe_summary_ref'', jstr_opt (pe_safe_summary_ref p)),
      (''projection_required'', JBool (pe_projection_required p)),
      (''owner_ref'', JStr (sc_owner_ref sc)), (''author_actor'', JStr (effect_actor_value (ai_actor actor))),
      (''author_ref'', JStr (ai_ref actor)), (''created_at'', JStr created_at)]"

definition stage_effect ::
  "'s stager \<Rightarrow> stage_scope \<Rightarrow> proposed_effect \<Rightarrow> policy_snapshot \<Rightarrow> actor_identity \<Rightarrow> string \<Rightarrow> ('s, stage_state) eff" where
  "stage_effect sg sc p snapshot actor key =
     bnd (lift (validate_idempotency_key key)) (\<lambda>_.
     bnd (lift (assert_stageable p)) (\<lambda>_.
     bnd (lift (assert_owner sc actor True)) (\<lambda>_.
     bnd (demand (pe_policy_snapshot_ref p = ps_snapshot_ref snapshot) EffectStageDigestMismatch) (\<lambda>_.
     bnd (lift (resolve p snapshot)) (\<lambda>resolution.
     bnd (demand (res_policy resolution \<noteq> BLOCK) EffectStagePolicyBlocked) (\<lambda>_.
     bnd (sg_new_stage_id sg) (\<lambda>stage_id.
     bnd (lift (stage_id_parse stage_id)) (\<lambda>_.
     bnd (sg_now sg) (\<lambda>created_at.
     bnd (lift (proposal_format stage_id 1)) (\<lambda>proposal_ref.
     bnd (lp_append (sg_ledger sg) sc EFFECT_STAGED
            (staged_payload sc p (res_policy resolution) actor stage_id proposal_ref created_at) key
            (fingerprint (sg_hash sg) ''stage''
               [(''scope'', dump_scope sc), (''proposed_effect'', dump_proposed p),
                (''policy_snapshot'', dump_snapshot snapshot), (''actor'', dump_actor actor)])) (\<lambda>event.
     bnd (lift (stage_fold [event])) (\<lambda>state.
     bnd (demand (st_scope state = sc) EffectStageForbidden) (\<lambda>_.
     ret state)))))))))))))"

section \<open>Binding a projection\<close>

definition binding_payload :: "string \<Rightarrow> int \<Rightarrow> string \<Rightarrow> string \<Rightarrow> string \<Rightarrow> string \<Rightarrow> dict" where
  "binding_payload stage_id revision projection_ref proposal_digest target_digest bound_at =
     [(''v'', JInt 1), (''stage_id'', JStr stage_id), (''revision'', JInt revision),
      (''projection_ref'', JStr projection_ref), (''proposal_digest'', JStr proposal_digest),
      (''target_digest'', JStr target_digest), (''bound_at'', JStr bound_at)]"

definition binding_is :: "projection_binding \<Rightarrow> int \<Rightarrow> string \<Rightarrow> string \<Rightarrow> string \<Rightarrow> bool" where
  "binding_is b revision projection_ref proposal_digest target_digest \<longleftrightarrow>
     pb_revision b = revision \<and> pb_projection_ref b = projection_ref
     \<and> pb_proposal_digest b = proposal_digest \<and> pb_target_digest b = target_digest"

definition decided_status :: "stage_status \<Rightarrow> bool" where
  "decided_status st \<longleftrightarrow> st = APPROVED \<or> st = REJECTED \<or> st = CANCELLED"

definition bind_projection ::
  "'s stager \<Rightarrow> stage_scope \<Rightarrow> string \<Rightarrow> int \<Rightarrow> string \<Rightarrow> string \<Rightarrow> string \<Rightarrow> actor_identity \<Rightarrow> string
     \<Rightarrow> ('s, stage_state) eff" where
  "bind_projection sg sc stage_id revision projection_ref proposal_digest target_digest actor key =
     bnd (lift (validate_idempotency_key key)) (\<lambda>_.
     bnd (lp_list (sg_ledger sg) sc stage_id) (\<lambda>events.
     bnd (lift (stage_fold events)) (\<lambda>state.
     bnd (demand (st_scope state = sc) EffectStageForbidden) (\<lambda>_.
     bnd (lift (assert_owner sc actor True)) (\<lambda>_.
     bnd (demand (st_projection_required state) EffectStageInvalidTransition) (\<lambda>_.
     bnd (demand (\<not> decided_status (st_status state)) EffectStageInvalidTransition) (\<lambda>_.
     bnd (demand (revision = rv_revision (current_revision state)) EffectStageStaleRevision) (\<lambda>_.
     bnd (demand (proposal_digest = rv_digest (current_revision state)
                  \<and> target_digest = st_target_digest state) EffectStageDigestMismatch) (\<lambda>_.
     case st_projection_binding state of
       Some b \<Rightarrow>
         if binding_is b revision projection_ref proposal_digest target_digest then ret state
         else throw EffectStageInvalidTransition
     | None \<Rightarrow>
         bnd (sg_now sg) (\<lambda>bound_at.
         bnd (lp_append (sg_ledger sg) sc EFFECT_PROJECTION_BOUND
                (binding_payload stage_id revision projection_ref proposal_digest target_digest bound_at) key
                (fingerprint (sg_hash sg) ''bind_projection''
                   [(''stage_id'', JStr stage_id), (''revision'', JInt revision),
                    (''projection_ref'', JStr projection_ref), (''proposal_digest'', JStr proposal_digest),
                    (''target_digest'', JStr target_digest), (''actor'', dump_actor actor)])) (\<lambda>_.
         bnd (get_state sg sc stage_id) (\<lambda>bound.
         bnd (demand (rv_revision (current_revision bound) = revision) EffectStageStaleRevision) (\<lambda>_.
         bnd (demand (approval_ready bound
                      \<and> (case st_projection_binding bound of None \<Rightarrow> False
                         | Some b \<Rightarrow> binding_is b revision projection_ref proposal_digest target_digest))
                EffectStageInvalidTransition) (\<lambda>_.
         ret bound))))))))))))))"

section \<open>Revising\<close>

definition revised_payload ::
  "string \<Rightarrow> int \<Rightarrow> revision_proposal \<Rightarrow> string \<Rightarrow> actor_identity \<Rightarrow> string \<Rightarrow> dict" where
  "revised_payload stage_id revision p proposal_ref actor revised_at =
     [(''v'', JInt 1), (''stage_id'', JStr stage_id), (''revision'', JInt revision),
      (''proposal_kind'', JStr (proposal_kind_value (rp_kind p))), (''proposal_ref'', JStr proposal_ref),
      (''proposal_content_ref'', JStr (rp_content_ref p)), (''proposal_digest'', JStr (rp_digest p)),
      (''proposal_media_type'', JStr (rp_media_type p)), (''target_ref'', JStr (rp_target_ref p)),
      (''target_digest'', JStr (rp_target_digest p)), (''display_target'', JStr (rp_display_target p)),
      (''precondition_ref'', jstr_opt (rp_precondition_ref p)),
      (''precondition_digest'', jstr_opt (rp_precondition_digest p)),
      (''safe_diff_ref'', jstr_opt (rp_safe_diff_ref p)),
      (''author_actor'', JStr (effect_actor_value (ai_actor actor))), (''author_ref'', JStr (ai_ref actor)),
      (''created_at'', JStr revised_at)]"

definition revise ::
  "'s stager \<Rightarrow> stage_scope \<Rightarrow> string \<Rightarrow> int \<Rightarrow> revision_proposal \<Rightarrow> actor_identity \<Rightarrow> string \<Rightarrow> ('s, stage_state) eff" where
  "revise sg sc stage_id expected_revision p actor key =
     bnd (lift (validate_idempotency_key key)) (\<lambda>_.
     bnd (get_state sg sc stage_id) (\<lambda>state.
     bnd (lift (assert_owner sc actor False)) (\<lambda>_.
     bnd (demand (expected_revision = rv_revision (current_revision state)) EffectStageStaleRevision) (\<lambda>_.
     bnd (demand (st_status state \<noteq> CANCELLED) EffectStageInvalidTransition) (\<lambda>_.
     bnd (lift (validate_proposal_executor_pair (rp_kind p) (st_executor state))) (\<lambda>_.
     bnd (lift (assert_revision_retains_target state p)) (\<lambda>_.
     bnd (sg_now sg) (\<lambda>revised_at.
     bnd (lift (proposal_format stage_id (expected_revision + 1))) (\<lambda>proposal_ref.
     bnd (lp_append (sg_ledger sg) sc EFFECT_REVISED
            (revised_payload stage_id (expected_revision + 1) p proposal_ref actor revised_at) key
            (fingerprint (sg_hash sg) ''revise''
               [(''stage_id'', JStr stage_id), (''expected_revision'', JInt expected_revision),
                (''proposal'', dump_revision_proposal p), (''actor'', dump_actor actor)])) (\<lambda>_.
     get_state sg sc stage_id))))))))))"

section \<open>Row decisions\<close>

text \<open>\<open>decisions\<close> is a dictionary from row keys to the words it was called with.\<close>

definition row_decisions_payload ::
  "string \<Rightarrow> int \<Rightarrow> (string \<times> string) list \<Rightarrow> actor_identity \<Rightarrow> string \<Rightarrow> string \<Rightarrow> string \<Rightarrow> dict" where
  "row_decisions_payload stage_id revision decisions actor proposal_digest target_digest decided_at =
     [(''v'', JInt 1), (''stage_id'', JStr stage_id), (''revision'', JInt revision),
      (''decisions'', JArr (map (\<lambda>(k, d). JObj [(''row_key'', JStr k), (''decision'', JStr d)]) decisions)),
      (''actor'', JStr (effect_actor_value (ai_actor actor))), (''actor_ref'', JStr (ai_ref actor)),
      (''proposal_digest'', JStr proposal_digest), (''target_digest'', JStr target_digest),
      (''decided_at'', JStr decided_at)]"

definition record_row_decisions ::
  "'s stager \<Rightarrow> stage_scope \<Rightarrow> string \<Rightarrow> int \<Rightarrow> (string \<times> string) list \<Rightarrow> string \<Rightarrow> string \<Rightarrow> actor_identity \<Rightarrow> string
     \<Rightarrow> ('s, stage_state) eff" where
  "record_row_decisions sg sc stage_id revision decisions proposal_digest target_digest actor key =
     bnd (lift (validate_idempotency_key key)) (\<lambda>_.
     bnd (get_state sg sc stage_id) (\<lambda>state.
     bnd (lift (assert_owner sc actor False)) (\<lambda>_.
     bnd (demand (rv_kind (current_revision state) = ROW_SET \<and> undecided (st_status state))
            EffectStageInvalidTransition) (\<lambda>_.
     bnd (demand (revision = rv_revision (current_revision state)) EffectStageStaleRevision) (\<lambda>_.
     bnd (demand (proposal_digest = rv_digest (current_revision state)
                  \<and> target_digest = st_target_digest state) EffectStageDigestMismatch) (\<lambda>_.
     let normalized = sort decisions in
     bnd (demand (normalized \<noteq> [] \<and> list_all (\<lambda>(k, d). k \<noteq> [] \<and> (d = ''approve'' \<or> d = ''hold'')) normalized)
            EffectStageInvalidTransition) (\<lambda>_.
     bnd (sg_now sg) (\<lambda>decided_at.
     bnd (lp_append (sg_ledger sg) sc EFFECT_ROW_DECISIONS_RECORDED
            (row_decisions_payload stage_id revision normalized actor proposal_digest target_digest decided_at) key
            (fingerprint (sg_hash sg) ''row-decisions''
               [(''stage_id'', JStr stage_id), (''revision'', JInt revision),
                (''decisions'', JArr (map (\<lambda>(k, d). JArr [JStr k, JStr d]) normalized)),
                (''proposal_digest'', JStr proposal_digest), (''target_digest'', JStr target_digest),
                (''actor'', dump_actor actor)])) (\<lambda>_.
     get_state sg sc stage_id)))))))))"

section \<open>Deciding\<close>

definition row_keys_json :: "string list option \<Rightarrow> json" where
  "row_keys_json ks = (case ks of None \<Rightarrow> JNull | Some xs \<Rightarrow> JArr (map JStr xs))"

definition decision_payload ::
  "string \<Rightarrow> int \<Rightarrow> effect_decision_kind \<Rightarrow> actor_identity \<Rightarrow> string \<Rightarrow> string \<Rightarrow> string \<Rightarrow> string list option \<Rightarrow> dict" where
  "decision_payload stage_id revision decision actor proposal_digest target_digest decided_at row_keys =
     [(''v'', JInt 1), (''stage_id'', JStr stage_id), (''revision'', JInt revision),
      (''decision'', JStr (decision_kind_value decision)),
      (''actor'', JStr (effect_actor_value (ai_actor actor))), (''actor_ref'', JStr (ai_ref actor)),
      (''proposal_digest'', JStr proposal_digest), (''target_digest'', JStr target_digest),
      (''decided_at'', JStr decided_at)]
     @ (case row_keys of None \<Rightarrow> [] | Some ks \<Rightarrow> [(''row_keys'', JArr (map JStr ks))])"

text \<open>The checks of \<open>decide\<close> on an undecided stage, in their order.\<close>

definition check_decidable ::
  "stage_state \<Rightarrow> effect_decision_kind \<Rightarrow> actor_identity \<Rightarrow> string list option \<Rightarrow> unit result" where
  "check_decidable state decision actor row_keys =
     rbind (require (undecided (st_status state)) EffectStageInvalidTransition) (\<lambda>_.
     rbind (require (st_policy state \<noteq> BLOCK) EffectStagePolicyBlocked) (\<lambda>_.
     rbind (require (decision = APPROVE \<longrightarrow> approval_ready state) EffectStageProjectionUnbound) (\<lambda>_.
     let is_rowset = (rv_kind (current_revision state) = ROW_SET) in
     rbind (require
        (if decision = APPROVE
         then (if is_rowset then (case row_keys of None \<Rightarrow> False | Some ks \<Rightarrow> ks \<noteq> [] \<and> distinct ks)
               else row_keys = None)
         else row_keys = None) EffectStageInvalidTransition) (\<lambda>_.
     rbind (require (ai_actor actor = POLICY \<longrightarrow> st_policy state = AUTO) EffectStageForbidden) (\<lambda>_.
     require (ai_actor actor = POLICY \<longrightarrow> decision = APPROVE) EffectStageForbidden)))))"

definition approved_command ::
  "stage_scope \<Rightarrow> string \<Rightarrow> int \<Rightarrow> string \<Rightarrow> string \<Rightarrow> string \<Rightarrow> string \<Rightarrow> string list option
     \<Rightarrow> rollout_capability list option \<Rightarrow> commit_command result" where
  "approved_command sc stage_id revision decision_ledger_id proposal_digest target_digest key row_keys governed =
     commit_command_make
       \<lparr>cc_run_id = sc_run_id sc, cc_stage_id = stage_id, cc_revision = revision,
        cc_decision_ledger_id = decision_ledger_id, cc_proposal_digest = proposal_digest,
        cc_target_digest = target_digest, cc_idempotency_key = key, cc_row_keys = row_keys,
        cc_retry_basis = None, cc_governed = governed\<rparr>"

definition decide ::
  "'s stager \<Rightarrow> stage_scope \<Rightarrow> string \<Rightarrow> int \<Rightarrow> effect_decision_kind \<Rightarrow> string \<Rightarrow> string \<Rightarrow> actor_identity \<Rightarrow> string
     \<Rightarrow> string list option \<Rightarrow> rollout_capability list option \<Rightarrow> ('s, stage_state) eff" where
  "decide sg sc stage_id revision decision proposal_digest target_digest actor key row_keys governed =
     bnd (lift (validate_idempotency_key key)) (\<lambda>_.
     bnd (get_state sg sc stage_id) (\<lambda>state.
     bnd (lift (assert_owner sc actor True)) (\<lambda>_.
     bnd (demand (revision = rv_revision (current_revision state)) EffectStageStaleRevision) (\<lambda>_.
     bnd (demand (proposal_digest = rv_digest (current_revision state)
                  \<and> target_digest = st_target_digest state) EffectStageDigestMismatch) (\<lambda>_.
     bnd (demand (decision \<noteq> RESTORE) EffectStageInvalidTransition) (\<lambda>_.
     if decided_status (st_status state)
     then (if is_identical_decision state decision actor proposal_digest target_digest row_keys
           then ret state else throw EffectStageInvalidTransition)
     else
       bnd (lift (check_decidable state decision actor row_keys)) (\<lambda>_.
       bnd (sg_now sg) (\<lambda>decided_at.
       bnd (lp_append (sg_ledger sg) sc EFFECT_DECISION_RECORDED
              (decision_payload stage_id revision decision actor proposal_digest target_digest decided_at row_keys) key
              (fingerprint (sg_hash sg) ''decide''
                 [(''stage_id'', JStr stage_id), (''revision'', JInt revision),
                  (''decision'', JStr (decision_kind_value decision)),
                  (''proposal_digest'', JStr proposal_digest), (''target_digest'', JStr target_digest),
                  (''row_keys'', row_keys_json row_keys), (''actor'', dump_actor actor)])) (\<lambda>event.
       bnd (if decision = APPROVE
            then bnd (lift (approved_command sc stage_id revision (ev_ledger_id event) proposal_digest
                              target_digest key row_keys governed)) (\<lambda>command.
                 sg_enqueue sg command)
            else ret ()) (\<lambda>_.
       get_state sg sc stage_id))))))))))"

end
