(* ===== verification/StagingLaws.thy ===== *)
theory StagingLaws
  imports EffectStaging
begin

text \<open>
  What the stager promises over any ports that keep their contract: the locale \<open>effect_stager\<close>
  adds the outbox, the clock and the id generator to \<open>stage_ledger\<close>, and the lemmas in it
  follow one call of an operation from its guards to its last read.
\<close>

section \<open>Reading a payload back\<close>

text \<open>An event carries a payload: field by field, without nulls, the writer stamp aside.\<close>

definition carries :: "structural_event \<Rightarrow> string \<Rightarrow> dict \<Rightarrow> bool" where
  "carries ev ty p \<longleftrightarrow> (\<forall>k. k \<noteq> ''w'' \<longrightarrow>
     map_of (ev_payload ev) k = (if k \<in> model_fields ty then kept (map_of p k) else None))"

lemma carries_field:
  assumes "carries ev ty p" and "k \<in> model_fields ty" and "k \<noteq> ''w''"
  shows "map_of (ev_payload ev) k = kept (map_of p k)"
  using assms by (simp add: carries_def)

lemma kept_simps [simp]:
  "kept None = None" "kept (Some JNull) = None" "kept (Some (JStr s)) = Some (JStr s)"
  "kept (Some (JInt i)) = Some (JInt i)" "kept (Some (JBool b)) = Some (JBool b)"
  "kept (Some (JArr js)) = Some (JArr (map drop_none js))"
  by (simp_all add: kept_def)

lemma p_readers:
  "map_of d k = Some (JStr s) \<Longrightarrow> p_string d k = Inr s"
  "map_of d k = Some (JInt i) \<Longrightarrow> p_integer d k = Inr i"
  "map_of d k = Some (JStr s) \<Longrightarrow> p_optional_string d k = Inr (Some s)"
  "map_of d k = None \<Longrightarrow> p_optional_string d k = Inr None"
  "map_of d k = Some (JBool b) \<Longrightarrow> p_bool d k = Inr b"
  "map_of d ''v'' = Some (JInt 1) \<Longrightarrow> p_version d = Inr ()"
  by (simp_all add: p_string_def p_integer_def p_optional_string_def p_bool_def p_version_def dindex_def dget_def)

lemma kept_jstr_opt: "kept (Some (jstr_opt v)) = map_option JStr v"
  by (cases v) simp_all

lemma p_optional_jstr: "map_of d k = map_option JStr v \<Longrightarrow> p_optional_string d k = Inr v"
  by (cases v) (simp_all add: p_readers)

lemma json_strs_map [simp]: "json_strs (map JStr ks) = Some ks"
  by (induction ks) simp_all

lemma map_drop_none_strs [simp]: "map (drop_none \<circ> JStr) ks = map JStr ks"
  by (induction ks) simp_all

lemma decision_fields: "model_fields EFFECT_DECISION_RECORDED =
    {''v'', ''w'', ''stage_id'', ''revision'', ''decision'', ''actor'', ''proposal_digest'',
     ''target_digest'', ''actor_ref'', ''decided_at'', ''row_keys''}"
  by (auto simp: model_fields_def payload_model_def event_type_defs payload_field_defs)

lemma validated_row_keys:
  assumes "ok (validate_payload EFFECT_DECISION_RECORDED
      (decision_payload sid revision decision actor pd td now (Some ks)))"
  shows "ks \<noteq> [] \<and> [] \<notin> set ks \<and> distinct ks"
proof -
  have m: "payload_model EFFECT_DECISION_RECORDED = Some (decision_recorded_fields, fields_ok decision_recorded_fields)"
    by (simp add: payload_model_def event_type_defs)
  with assms have "fields_ok decision_recorded_fields (decision_payload sid revision decision actor pd td now (Some ks))"
    by (simp add: validate_payload_def split: if_splits)
  then have "row_keys_ok (JArr (map JStr ks))"
    by (simp add: fields_ok_def decision_recorded_fields_def decision_payload_def base_fields_def
        stage_id_field_def digest_field_def safe_ref_field_def)
  then show ?thesis by (auto simp: list_all_iff)
qed

lemma parse_carried_decision:
  assumes c: "carries ev EFFECT_DECISION_RECORDED
      (decision_payload sid revision decision actor pd td now row_keys)"
    and valid: "ok (validate_payload EFFECT_DECISION_RECORDED
      (decision_payload sid revision decision actor pd td now row_keys))"
    and "safe_reference_ok (ai_ref actor)" and "1 \<le> revision" and "is_sha256_hex pd" and "is_sha256_hex td"
  shows "parse_decision ev = Inr \<lparr>dc_revision = revision, dc_decision = decision, dc_actor = actor,
      dc_proposal_digest = pd, dc_target_digest = td, dc_decided_at = now,
      dc_ledger_id = ev_ledger_id ev, dc_row_keys = row_keys\<rparr>"
    and "event_stage_id ev = Some sid"
proof -
  have f: "map_of (ev_payload ev) ''v'' = Some (JInt 1)" "map_of (ev_payload ev) ''stage_id'' = Some (JStr sid)"
    "map_of (ev_payload ev) ''revision'' = Some (JInt revision)"
    "map_of (ev_payload ev) ''decision'' = Some (JStr (decision_kind_value decision))"
    "map_of (ev_payload ev) ''actor'' = Some (JStr (effect_actor_value (ai_actor actor)))"
    "map_of (ev_payload ev) ''actor_ref'' = Some (JStr (ai_ref actor))"
    "map_of (ev_payload ev) ''proposal_digest'' = Some (JStr pd)"
    "map_of (ev_payload ev) ''target_digest'' = Some (JStr td)"
    "map_of (ev_payload ev) ''decided_at'' = Some (JStr now)"
    "map_of (ev_payload ev) ''row_keys'' = map_option (\<lambda>ks. JArr (map JStr ks)) row_keys"
    by (cases row_keys; simp add: carries_field [OF c] decision_fields decision_payload_def)+
  have rk: "p_optional_row_keys (ev_payload ev) = Inr row_keys" and rs: "row_scope_ok row_keys"
  proof -
    show "p_optional_row_keys (ev_payload ev) = Inr row_keys"
      using validated_row_keys valid f(10)
      by (cases row_keys) (auto simp: p_optional_row_keys_def dget_def)
    show "row_scope_ok row_keys"
      using validated_row_keys valid by (cases row_keys) (auto simp: row_scope_ok_def)
  qed
  have au: "parse_author (ev_payload ev) ''actor'' ''actor_ref'' = Inr actor"
    using assms(3) by (simp add: parse_author_def p_readers(1) [OF f(5)] p_readers(1) [OF f(6)] actor_make_def)
  show "parse_decision ev = Inr \<lparr>dc_revision = revision, dc_decision = decision, dc_actor = actor,
      dc_proposal_digest = pd, dc_target_digest = td, dc_decided_at = now,
      dc_ledger_id = ev_ledger_id ev, dc_row_keys = row_keys\<rparr>"
    using assms(4-6) rs
    by (simp add: parse_decision_def Let_def p_readers(6) [OF f(1)] p_readers(2) [OF f(3)] p_readers(1) [OF f(4)]
        au p_readers(1) [OF f(7)] p_readers(1) [OF f(8)] p_readers(1) [OF f(9)] rk stage_decision_make_def)
  show "event_stage_id ev = Some sid" using f(2) by (simp add: event_stage_id_def dget_def)
qed

section \<open>Staging\<close>

text \<open>What staging a proposal means: one revision, the resolved policy, nothing decided.\<close>

definition staged_stage ::
  "stage_scope \<Rightarrow> proposed_effect \<Rightarrow> effect_policy \<Rightarrow> actor_identity \<Rightarrow> string \<Rightarrow> string \<Rightarrow> string \<Rightarrow> stage_state" where
  "staged_stage sc p policy actor sid proposal_ref now =
     \<lparr>st_stage_id = sid, st_scope = sc, st_operation_id = pe_operation_id p, st_executor = pe_executor p,
      st_target = (pe_target p)\<lparr>tg_executor := pe_executor p, tg_precondition_ref := pe_precondition_ref p,
                                tg_display_label := pe_display_target p\<rparr>,
      st_target_digest = pe_target_digest p, st_display_target = pe_display_target p,
      st_effect_class = pe_effect_class p, st_policy_snapshot_ref = pe_policy_snapshot_ref p,
      st_policy = policy, st_agent_hold = pe_agent_hold p,
      st_revisions =
        [\<lparr>rv_revision = 1, rv_kind = pe_kind p, rv_proposal_ref = proposal_ref,
          rv_content_ref = Some (pe_content_ref p), rv_digest = pe_digest p,
          rv_media_type = lower (pe_media_type p), rv_target_ref = tg_target_ref (pe_target p),
          rv_target_digest = pe_target_digest p, rv_display_target = pe_display_target p,
          rv_precondition_ref = pe_precondition_ref p, rv_precondition_digest = pe_precondition_digest p,
          rv_safe_diff_ref = None, rv_author = actor, rv_created_at = now\<rparr>],
      st_status = (if policy = AUTO then PROPOSED else HELD),
      st_projection_required = pe_projection_required p, st_projection_binding = None,
      st_decision = None, st_row_decisions = [], st_superseded_revision = None,
      st_created_at = now, st_updated_at = now\<rparr>"

lemma staged_model_fields: "model_fields EFFECT_STAGED = fst ` set staged_fields"
  by (simp add: model_fields_def payload_model_def event_type_defs)

lemma staged_field_names:
  "fst ` set staged_fields = {''v'', ''w'', ''stage_id'', ''operation_id'', ''executor'', ''target_ref'', ''target_digest'',
     ''proposal_ref'', ''proposal_digest'', ''policy'', ''capability'', ''op'', ''display_target'',
     ''proposal_kind'', ''proposal_content_ref'', ''proposal_media_type'', ''precondition_ref'',
     ''precondition_digest'', ''effect_class'', ''policy_snapshot_ref'', ''agent_hold'',
     ''safe_summary_ref'', ''projection_required'', ''owner_ref'', ''author_actor'', ''author_ref'', ''created_at''}"
  by (auto simp: payload_field_defs)

lemma stage_revision_make_Inr_iff:
  "stage_revision_make r = Inr q \<longleftrightarrow> stage_revision_ok r \<and> q = r\<lparr>rv_media_type := lower (rv_media_type r)\<rparr>"
  by (auto simp: stage_revision_make_def)

lemma parse_carried_stage:
  assumes c: "carries ev EFFECT_STAGED (staged_payload sc p policy actor sid ref now)"
    and f: "proposal_format sid 1 = Inr ref" and run: "ev_run_id ev = sc_run_id sc"
    and st: "staged_state ev = Inr st"
  shows "st = staged_stage sc p policy actor sid ref now"
proof -
  let ?d = "ev_payload ev"
  note cf = carries_field [OF c, unfolded staged_model_fields staged_field_names]
  have strs: "p_string ?d ''stage_id'' = Inr sid" "p_string ?d ''operation_id'' = Inr (pe_operation_id p)"
    "p_string ?d ''executor'' = Inr (executor_kind_value (pe_executor p))"
    "p_string ?d ''capability'' = Inr (tg_capability (pe_target p))" "p_string ?d ''op'' = Inr (tg_op (pe_target p))"
    "p_string ?d ''target_ref'' = Inr (tg_target_ref (pe_target p))"
    "p_string ?d ''target_digest'' = Inr (pe_target_digest p)"
    "p_string ?d ''display_target'' = Inr (pe_display_target p)"
    "p_string ?d ''proposal_kind'' = Inr (proposal_kind_value (pe_kind p))"
    "p_string ?d ''proposal_ref'' = Inr ref" "p_string ?d ''proposal_digest'' = Inr (pe_digest p)"
    "p_string ?d ''proposal_media_type'' = Inr (pe_media_type p)"
    "p_string ?d ''effect_class'' = Inr (effect_class_value (pe_effect_class p))"
    "p_string ?d ''policy_snapshot_ref'' = Inr (pe_policy_snapshot_ref p)"
    "p_string ?d ''policy'' = Inr (effect_policy_value policy)"
    "p_string ?d ''owner_ref'' = Inr (sc_owner_ref sc)"
    "p_string ?d ''author_actor'' = Inr (effect_actor_value (ai_actor actor))"
    "p_string ?d ''author_ref'' = Inr (ai_ref actor)" "p_string ?d ''created_at'' = Inr now"
    by (simp_all add: p_readers(1) cf staged_payload_def)
  have opts: "p_optional_string ?d ''proposal_content_ref'' = Inr (Some (pe_content_ref p))"
    "p_optional_string ?d ''precondition_ref'' = Inr (pe_precondition_ref p)"
    "p_optional_string ?d ''precondition_digest'' = Inr (pe_precondition_digest p)"
    by (intro p_optional_jstr; simp add: cf staged_payload_def kept_jstr_opt)+
  have misc: "p_version ?d = Inr ()" "p_bool ?d ''agent_hold'' = Inr (pe_agent_hold p)"
    "dget ?d ''projection_required'' (JBool False) = JBool (pe_projection_required p)"
    by (simp_all add: p_readers cf staged_payload_def dget_def)
  have norm: "normalise_proposal_references ?d sid 1 = Inr (ref, Some (pe_content_ref p))"
    by (simp add: normalise_proposal_references_def strs opts f proposal_format_parse [OF f])
  have mkt: "target_make t = Inr u \<Longrightarrow> u = t" for t u
    by (simp add: target_make_def split: if_splits)
  show ?thesis
    using st
    by (auto simp: staged_state_def Let_def strs opts misc norm parse_target_def parse_author_def
        parse_revision_fields_def rbind_Inr_iff stage_revision_make_Inr_iff actor_make_Inr run staged_stage_def
        dest!: mkt stage_state_make_Inr scope_make_Inr)
qed

section \<open>Deciding\<close>

text \<open>The guards that a decision passes before it is appended.\<close>

definition decision_admitted ::
  "stage_scope \<Rightarrow> stage_state \<Rightarrow> int \<Rightarrow> effect_decision_kind \<Rightarrow> string \<Rightarrow> string \<Rightarrow> actor_identity
     \<Rightarrow> string list option \<Rightarrow> bool" where
  "decision_admitted sc st revision decision pd td actor row_keys \<longleftrightarrow>
     assert_owner sc actor True = Inr () \<and> revision = rv_revision (current_revision st)
     \<and> pd = rv_digest (current_revision st) \<and> td = st_target_digest st \<and> decision \<noteq> RESTORE
     \<and> \<not> decided_status (st_status st) \<and> check_decidable st decision actor row_keys = Inr ()"

text \<open>The state a decision leads to.\<close>

definition decided_state :: "stage_state \<Rightarrow> stage_decision \<Rightarrow> structural_event \<Rightarrow> stage_state" where
  "decided_state st d ev = st\<lparr>st_status := status_of_decision (dc_decision d), st_decision := Some d,
     st_updated_at := ev_created_at ev\<rparr>"

lemma admitted_fits:
  assumes "decision_admitted sc st revision decision pd td actor row_keys"
    and "dc_revision d = revision" and "dc_decision d = decision" and "dc_actor d = actor"
    and "dc_proposal_digest d = pd" and "dc_target_digest d = td"
  shows "undecided (st_status st)" and "st_policy st \<noteq> BLOCK" and "decision_fits st d"
proof -
  from assms(1) have "undecided (st_status st) \<and> st_policy st \<noteq> BLOCK
      \<and> (decision = APPROVE \<longrightarrow> approval_ready st) \<and> (ai_actor actor = POLICY \<longrightarrow> st_policy st = AUTO)"
    by (simp add: decision_admitted_def check_decidable_def rbind_Inr_iff Let_def)
  with assms show "undecided (st_status st)" and "st_policy st \<noteq> BLOCK" and "decision_fits st d"
    by (auto simp: decision_admitted_def decision_fits_def intro: effect_decision_kind.exhaust [of decision])
qed

section \<open>The stager over its ports\<close>

locale effect_stager = stage_ledger "sg_ledger sg" history ready
  for sg :: "'s stager" and history :: "'s \<Rightarrow> string \<Rightarrow> structural_event list" and ready :: "'s \<Rightarrow> bool" +
  fixes queue :: "'s \<Rightarrow> commit_command list"
  assumes now_keeps: "ready s \<Longrightarrow> sg_now sg s = (told, t) \<Longrightarrow> ready t \<and> history t = history s \<and> queue t = queue s"
    and id_keeps: "ready s \<Longrightarrow> sg_new_stage_id sg s = (made, t) \<Longrightarrow> ready t \<and> history t = history s \<and> queue t = queue s"
    and enqueue_outcome: "ready s \<Longrightarrow> sg_enqueue sg c s = (sent, t) \<Longrightarrow>
      ready t \<and> history t = history s
      \<and> ((sent = Inr () \<and> queue t = queue s @ [c]) \<or> ((\<exists>e. sent = Inl e) \<and> queue t = queue s))"
    and append_queue: "ready s \<Longrightarrow> lp_append (sg_ledger sg) sc ty p k f s = (appended, t) \<Longrightarrow> queue t = queue s"
begin

lemma history_fold_stage:
  assumes "ready s" and "fold_events (history s sid) = Some st"
  shows "st_stage_id st = sid" and "stage_wf st" and "stage_fold (history s sid) = Inr st"
proof -
  show f: "stage_fold (history s sid) = Inr st" using assms(2) by (simp add: stage_fold_def)
  then show "stage_wf st" by (rule fold_wf)
  show "st_stage_id st = sid"
  proof (rule stage_fold_invariant [OF f])
    show "st_stage_id s' = sid" if "ev \<in> set (history s sid)" and "state_from_staged ev = Some s'" for ev s'
      using history_stage [OF assms(1) that(1)] state_from_staged_wf(4) [OF that(2)] by simp
    show "st_stage_id (apply_event s' ev) = sid" if "st_stage_id s' = sid" for ev s'
      using that same_stageD(1) [OF apply_event_same_stage [of s' ev]] by simp
  qed
qed

lemma get_state_outcome:
  assumes "ready s" and "get_state sg sc sid s = (r, t)"
  shows "t = s"
    and "r = Inr st \<Longrightarrow> fold_events (history s sid) = Some st \<and> st_scope st = sc \<and> st_stage_id st = sid
          \<and> stage_wf st"
proof -
  have "t = s \<and> (\<forall>st. r = Inr st \<longrightarrow> fold_events (history s sid) = Some st \<and> st_scope st = sc)"
    using assms(2) unfolding get_state_def
  proof (cases rule: bnd_liftE)
    case (returned u)
    from returned(2) show ?thesis
    proof (cases rule: bnd_cases)
      case (raised e)
      with list_outcome [OF assms(1) raised(1)] show ?thesis by simp
    next
      case (returned evs v)
      with list_outcome [OF assms(1) returned(1)] have v: "v = s" "evs = history s sid" by auto
      from returned(2) show ?thesis
      proof (cases rule: bnd_liftE)
        case (returned st)
        with v show ?thesis
          by (auto simp: stage_fold_def ret_def throw_def split: option.splits if_splits)
      qed (use v in simp)
    qed
  qed simp
  then show "t = s" and "r = Inr st \<Longrightarrow> fold_events (history s sid) = Some st \<and> st_scope st = sc \<and> st_stage_id st = sid
          \<and> stage_wf st"
    using history_fold_stage [OF assms(1), of sid st] by blast+
qed

subsection \<open>Deciding\<close>

lemma decide_cases:
  assumes "ready s" and "decide sg sc sid revision decision pd td actor key row_keys governed s = (r, t)"
  obtains (refused) e where "r = Inl e" and "ready t" and "history t = history s" and "queue t = queue s"
    | (repeated) st where "get_state sg sc sid s = (Inr st, s)" and "t = s" and "r = Inr st"
        and "decided_status (st_status st)"
        and "is_identical_decision st decision actor pd td row_keys"
    | (appended) st now s1 f ev s2 where "get_state sg sc sid s = (Inr st, s)"
        and "decision_admitted sc st revision decision pd td actor row_keys"
        and "ready s1" and "history s1 = history s" and "queue s1 = queue s"
        and "lp_append (sg_ledger sg) sc EFFECT_DECISION_RECORDED
               (decision_payload sid revision decision actor pd td now row_keys) key f s1 = (Inr ev, s2)"
        and "bnd (if decision = APPROVE
            then bnd (lift (approved_command sc sid revision (ev_ledger_id ev) pd td key row_keys governed))
                   (sg_enqueue sg)
            else ret ()) (\<lambda>_. get_state sg sc sid) s2 = (r, t)"
proof -
  obtain gr where g: "get_state sg sc sid s = (gr, s)"
    using get_state_outcome(1) [OF assms(1)] by (cases "get_state sg sc sid s") blast
  have ref: thesis if "decide sg sc sid revision decision pd td actor key row_keys governed s = (Inl e, s)" for e
    using that assms refused [of e] by simp
  show thesis
  proof (cases "\<exists>st u. gr = Inr st \<and> validate_idempotency_key key = Inr u
      \<and> decision_admitted sc st revision decision pd td actor row_keys")
    case False
    show thesis
    proof (cases "\<exists>st. gr = Inr st \<and> decide sg sc sid revision decision pd td actor key row_keys governed s = (Inr st, s)
        \<and> decided_status (st_status st) \<and> is_identical_decision st decision actor pd td row_keys")
      case True
      with g assms(2) show thesis by (auto intro: repeated)
    next
      case not_repeated: False
      have "\<exists>e. decide sg sc sid revision decision pd td actor key row_keys governed s = (Inl e, s)"
      proof (cases gr)
        case (Inl e)
        with g show ?thesis by (simp add: decide_def eff_simps split: sum.split)
      next
        case (Inr st)
        with g False not_repeated show ?thesis
          by (cases "validate_idempotency_key key"; cases "assert_owner sc actor True";
              cases "check_decidable st decision actor row_keys")
             (auto simp: decide_def eff_simps decision_admitted_def split: if_splits)
      qed
      with ref show thesis by blast
    qed
  next
    case True
    then obtain st u where gr: "gr = Inr st" and u: "validate_idempotency_key key = Inr u"
      and adm: "decision_admitted sc st revision decision pd td actor row_keys" by blast
    let ?fp = "fingerprint (sg_hash sg) ''decide''
        [(''stage_id'', JStr sid), (''revision'', JInt revision),
         (''decision'', JStr (decision_kind_value decision)), (''proposal_digest'', JStr pd),
         (''target_digest'', JStr td), (''row_keys'', row_keys_json row_keys), (''actor'', dump_actor actor)]"
    have run: "bnd (sg_now sg) (\<lambda>decided_at.
        bnd (lp_append (sg_ledger sg) sc EFFECT_DECISION_RECORDED
               (decision_payload sid revision decision actor pd td decided_at row_keys) key ?fp) (\<lambda>event.
        bnd (if decision = APPROVE
             then bnd (lift (approved_command sc sid revision (ev_ledger_id event) pd td key row_keys governed))
                    (sg_enqueue sg)
             else ret ()) (\<lambda>_. get_state sg sc sid))) s = (r, t)"
      using assms(2) g adm by (simp add: decide_def eff_simps gr u decision_admitted_def)
    from run show thesis
    proof (cases rule: bnd_cases)
      case (raised e)
      with now_keeps [OF assms(1) raised(1)] show thesis by (intro refused [of e]) simp_all
    next
      case (returned now s1)
      note nk = now_keeps [OF assms(1) returned(1)]
      from returned(2) show thesis
      proof (cases rule: bnd_cases)
        case (raised e)
        with append_refused [of s1] nk have "t = s1" by blast
        with raised nk show thesis by (intro refused [of e]) simp_all
      next
        case (returned ev s2)
        from appended [OF g [unfolded gr] adm _ _ _ returned] nk show thesis by simp
      qed
    qed
  qed
qed

text \<open>
  The decision event that an admitted call appends parses to exactly that decision, and folded
  onto the state it was decided on it yields the decided state.
\<close>

lemma appended_decision:
  assumes "ready s1" and "stage_wf st" and "st_stage_id st = sid" and "safe_reference_ok (ai_ref actor)"
    and adm: "decision_admitted sc st revision decision pd td actor row_keys"
    and ap: "lp_append (sg_ledger sg) sc EFFECT_DECISION_RECORDED
               (decision_payload sid revision decision actor pd td now row_keys) key f s1 = (Inr ev, s2)"
  shows "\<exists>d. parse_decision ev = Inr d \<and> event_stage_id ev = Some sid \<and> ev_event_type ev = EFFECT_DECISION_RECORDED
     \<and> dc_decision d = decision \<and> dc_revision d = revision \<and> dc_actor d = actor
     \<and> dc_proposal_digest d = pd \<and> dc_target_digest d = td \<and> dc_row_keys d = row_keys
     \<and> dc_ledger_id d = ev_ledger_id ev
     \<and> fold_step (Some st) ev = Some (decided_state st d ev)"
proof -
  from adm have eqs: "revision = rv_revision (current_revision st)" "pd = rv_digest (current_revision st)"
    "td = st_target_digest st" by (simp_all add: decision_admitted_def)
  from assms(2) have rv: "stage_revision_ok (current_revision st)"
    and tg: "revision_in_stage st (current_revision st)"
    using current_in [OF stage_wf_revisions [OF assms(2)]]
    by (auto simp: stage_wf_def revisions_wf_def stage_consistent_def list_all_iff)
  then have sha: "is_sha256_hex pd" "is_sha256_hex td" "1 \<le> revision"
    using eqs by (auto simp: stage_revision_ok_def revision_in_stage_def)
  from append_fields [OF assms(1) ap] have c: "carries ev EFFECT_DECISION_RECORDED
      (decision_payload sid revision decision actor pd td now row_keys)"
    and v: "ok (validate_payload EFFECT_DECISION_RECORDED (decision_payload sid revision decision actor pd td now row_keys))"
    by (simp_all add: carries_def)
  note pd = parse_carried_decision [OF c v assms(4) sha(3,1,2)]
  let ?d = "\<lparr>dc_revision = revision, dc_decision = decision, dc_actor = actor,
      dc_proposal_digest = pd, dc_target_digest = td, dc_decided_at = now,
      dc_ledger_id = ev_ledger_id ev, dc_row_keys = row_keys\<rparr>"
  note ty = append_type [OF assms(1) ap]
  note fit = admitted_fits [OF adm, of ?d, simplified]
  have "apply_decision st ev = decided_state st ?d ev"
    using fit by (simp add: apply_decision_def pd(1) decided_state_def)
  then have "fold_step (Some st) ev = Some (decided_state st ?d ev)"
    using pd(2) ty assms(3) by (simp add: fold_step_def apply_event_def event_type_defs)
  with pd ty show ?thesis by (intro exI [of _ ?d]) simp
qed

text \<open>The command that \<open>decide\<close> enqueues for an approval.\<close>

lemma decide_tail:
  assumes "ready s2"
    and "bnd (if decision = APPROVE
            then bnd (lift (approved_command sc sid revision lid pd td key row_keys governed)) (sg_enqueue sg)
            else ret ()) (\<lambda>_. get_state sg sc sid) s2 = (r, t)"
  shows "ready t" and "history t = history s2"
    and "queue t = queue s2
       \<or> (\<exists>c. decision = APPROVE \<and> approved_command sc sid revision lid pd td key row_keys governed = Inr c
            \<and> queue t = queue s2 @ [c])"
    and "r = Inr st \<Longrightarrow> fold_events (history t sid) = Some st \<and> st_scope st = sc
       \<and> queue t = queue s2 @ (if decision = APPROVE
            then [case approved_command sc sid revision lid pd td key row_keys governed of Inr c \<Rightarrow> c] else [])"
proof -
  have "ready t \<and> history t = history s2 \<and> (queue t = queue s2
       \<or> (\<exists>c. decision = APPROVE \<and> approved_command sc sid revision lid pd td key row_keys governed = Inr c
            \<and> queue t = queue s2 @ [c]))
     \<and> (\<forall>st. r = Inr st \<longrightarrow> fold_events (history t sid) = Some st \<and> st_scope st = sc
       \<and> queue t = queue s2 @ (if decision = APPROVE
            then [case approved_command sc sid revision lid pd td key row_keys governed of Inr c \<Rightarrow> c] else []))"
  proof (cases "decision = APPROVE")
    case False
    with assms have g: "get_state sg sc sid s2 = (r, t)" by (simp add: bnd_def ret_def)
    from get_state_outcome [OF assms(1) g] assms(1) False show ?thesis by auto
  next
    case True
    show ?thesis
    proof (cases "approved_command sc sid revision lid pd td key row_keys governed")
      case (Inl e)
      with True assms show ?thesis by (auto simp: bnd_def throw_def lift_def)
    next
      case (Inr c)
      obtain er s3 where e: "sg_enqueue sg c s2 = (er, s3)" by (cases "sg_enqueue sg c s2")
      note en = enqueue_outcome [OF assms(1) e]
      show ?thesis
      proof (cases er)
        case (Inl x)
        with True Inr e en assms(2) show ?thesis by (auto simp: bnd_def lift_def)
      next
        case (Inr u)
        with True \<open>approved_command _ _ _ _ _ _ _ _ _ = Inr c\<close> e assms(2)
        have g: "get_state sg sc sid s3 = (r, t)" by (simp add: bnd_def lift_def)
        from en have "ready s3" by simp
        from get_state_outcome [OF this g] en Inr True \<open>approved_command _ _ _ _ _ _ _ _ _ = Inr c\<close>
        show ?thesis by auto
      qed
    qed
  qed
  then show "ready t" and "history t = history s2"
    and "queue t = queue s2
       \<or> (\<exists>c. decision = APPROVE \<and> approved_command sc sid revision lid pd td key row_keys governed = Inr c
            \<and> queue t = queue s2 @ [c])"
    and "r = Inr st \<Longrightarrow> fold_events (history t sid) = Some st \<and> st_scope st = sc
       \<and> queue t = queue s2 @ (if decision = APPROVE
            then [case approved_command sc sid revision lid pd td key row_keys governed of Inr c \<Rightarrow> c] else [])"
    by blast+
qed

lemma decide_enqueues_recorded_approval:
  assumes "ready s" and "safe_reference_ok (ai_ref actor)"
    and "decide sg sc sid revision decision pd td actor key row_keys governed s = (r, t)"
  shows "ready t
     \<and> (queue t = queue s
        \<or> (decision = APPROVE
           \<and> (\<exists>st ev d c. get_state sg sc sid s = (Inr st, s)
                \<and> decision_admitted sc st revision decision pd td actor row_keys
                \<and> queue t = queue s @ [c]
                \<and> approved_command sc sid revision (ev_ledger_id ev) pd td key row_keys governed = Inr c
                \<and> ev \<in> set (history t sid) \<and> ev_event_type ev = EFFECT_DECISION_RECORDED
                \<and> parse_decision ev = Inr d \<and> dc_decision d = APPROVE \<and> dc_revision d = revision
                \<and> dc_actor d = actor \<and> dc_proposal_digest d = pd \<and> dc_target_digest d = td
                \<and> dc_row_keys d = row_keys)))"
  using assms(1,3)
proof (cases rule: decide_cases)
  case (refused e)
  then show ?thesis by simp
next
  case (repeated st)
  with assms(1) show ?thesis by simp
next
  case (appended st now s1 f ev s2)
  have wf: "stage_wf st" "st_stage_id st = sid" using get_state_outcome(2) [OF assms(1) appended(1)] by blast+
  from appended_decision [OF appended(3) wf assms(2) appended(2,6)] obtain d where
    d: "parse_decision ev = Inr d" "event_stage_id ev = Some sid" "ev_event_type ev = EFFECT_DECISION_RECORDED"
      "dc_decision d = decision" "dc_revision d = revision" "dc_actor d = actor"
      "dc_proposal_digest d = pd" "dc_target_digest d = td" "dc_row_keys d = row_keys" by blast
  note r2 = append_ready [OF appended(3,6)] and q2 = append_queue [OF appended(3,6)]
  note tail = decide_tail [OF r2 appended(7)]
  have "ev \<in> set (history t sid)"
    using append_outcome [OF appended(3,6)] d(2) tail(2) by auto
  with tail(1,3) q2 d appended(1,2,5) show ?thesis by auto
qed

lemma decide_outcome:
  assumes "ready s" and "safe_reference_ok (ai_ref actor)"
    and "decide sg sc sid revision decision pd td actor key row_keys governed s = (Inr st', t)"
    and "get_state sg sc sid s = (Inr st, s)" and "\<not> decided_status (st_status st)"
  shows "\<exists>ev d. parse_decision ev = Inr d \<and> dc_decision d = decision \<and> dc_revision d = revision
     \<and> dc_actor d = actor \<and> dc_proposal_digest d = pd \<and> dc_target_digest d = td \<and> dc_row_keys d = row_keys
     \<and> ((history t sid = history s sid @ [ev] \<and> st' = decided_state st d ev)
        \<or> (ev \<in> set (history s sid) \<and> history t sid = history s sid \<and> st' = st))
     \<and> queue t = queue s @ (if decision = APPROVE
          then [case approved_command sc sid revision (ev_ledger_id ev) pd td key row_keys governed of Inr c \<Rightarrow> c] else [])"
  using assms(1,3)
proof (cases rule: decide_cases)
  case (refused e)
  then show ?thesis by simp
next
  case (repeated st0)
  with assms(4,5) show ?thesis by simp
next
  case (appended st0 now s1 f ev s2)
  with assms(4) have st0: "st0 = st" by simp
  have fe: "fold_events (history s sid) = Some st" and wf: "stage_wf st" "st_stage_id st = sid"
    using get_state_outcome(2) [OF assms(1,4)] by blast+
  from appended_decision [OF appended(3) wf assms(2) appended(2) [unfolded st0] appended(6)] obtain d where
    d: "parse_decision ev = Inr d" "event_stage_id ev = Some sid"
      "dc_decision d = decision" "dc_revision d = revision" "dc_actor d = actor"
      "dc_proposal_digest d = pd" "dc_target_digest d = td" "dc_row_keys d = row_keys"
    and step: "fold_step (Some st) ev = Some (decided_state st d ev)" by blast
  note tail = decide_tail [OF append_ready [OF appended(3,6)] appended(7)]
  have q: "queue s2 = queue s" using append_queue [OF appended(3,6)] appended(5) by simp
  from tail(4) [of st'] have f': "fold_events (history s2 sid) = Some st'" using tail(2) by simp
  from append_outcome [OF appended(3,6)] d(2) have
    "(s2 = s1 \<and> ev \<in> set (history s1 sid))
     \<or> (history s2 sid = history s1 sid @ [ev] \<and> (\<forall>e \<in> set (history s1 sid). event_key e < event_key ev))"
    by fastforce
  then have "(history t sid = history s sid @ [ev] \<and> st' = decided_state st d ev)
      \<or> (ev \<in> set (history s sid) \<and> history t sid = history s sid \<and> st' = st)"
  proof
    assume "s2 = s1 \<and> ev \<in> set (history s1 sid)"
    with f' fe appended(4) tail(2) show ?thesis by simp
  next
    assume h: "history s2 sid = history s1 sid @ [ev] \<and> (\<forall>e \<in> set (history s1 sid). event_key e < event_key ev)"
    with appended(4) have "fold_events (history s2 sid) = fold_step (Some st) ev"
      by (simp add: fold_events_snoc fe)
    with f' step h appended(4) tail(2) show ?thesis by simp
  qed
  with d q tail(4) [of st'] show ?thesis by (intro exI [of _ ev] exI [of _ d]) simp
qed

lemma stage_outcome:
  assumes "ready s" and "stage_effect sg sc p snapshot actor key s = (Inr st, t)"
  shows "\<exists>res sid ref now. resolve p snapshot = Inr res \<and> res_policy res \<noteq> BLOCK
     \<and> pe_effect_class p \<notin> {NONE, INTERNAL_REVERSIBLE} \<and> assert_owner sc actor True = Inr ()
     \<and> proposal_format sid 1 = Inr ref
     \<and> st = staged_stage sc p (res_policy res) actor sid ref now
     \<and> queue t = queue s"
proof -
  obtain res where res: "resolve p snapshot = Inr res"
    using resolve_total by blast
  from assms(2) have key: "validate_idempotency_key key = Inr ()"
    and cls: "pe_effect_class p \<notin> {NONE, INTERNAL_REVERSIBLE}" and own: "assert_owner sc actor True = Inr ()"
    and snap: "pe_policy_snapshot_ref p = ps_snapshot_ref snapshot" and nb: "res_policy res \<noteq> BLOCK"
    unfolding stage_effect_def
    by (auto simp: assert_stageable_def res eff_simps split: sum.splits if_splits)
  let ?fp = "fingerprint (sg_hash sg) ''stage''
               [(''scope'', dump_scope sc), (''proposed_effect'', dump_proposed p),
                (''policy_snapshot'', dump_snapshot snapshot), (''actor'', dump_actor actor)]"
  from assms(2) have "bnd (sg_new_stage_id sg) (\<lambda>stage_id.
     bnd (lift (stage_id_parse stage_id)) (\<lambda>_.
     bnd (sg_now sg) (\<lambda>created_at.
     bnd (lift (proposal_format stage_id 1)) (\<lambda>proposal_ref.
     bnd (lp_append (sg_ledger sg) sc EFFECT_STAGED
            (staged_payload sc p (res_policy res) actor stage_id proposal_ref created_at) key ?fp) (\<lambda>event.
     bnd (lift (stage_fold [event])) (\<lambda>state.
     bnd (demand (st_scope state = sc) EffectStageForbidden) (\<lambda>_.
     ret state))))))) s = (Inr st, t)"
    using cls nb by (simp add: stage_effect_def assert_stageable_def eff_simps key own snap res)
  then obtain sid s1 now s2 ref ev s3 where
    id: "sg_new_stage_id sg s = (Inr sid, s1)" and nw: "sg_now sg s1 = (Inr now, s2)"
    and ref: "proposal_format sid 1 = Inr ref"
    and ap: "lp_append (sg_ledger sg) sc EFFECT_STAGED (staged_payload sc p (res_policy res) actor sid ref now) key ?fp s2 = (Inr ev, s3)"
    and fold: "stage_fold [ev] = Inr st" and t: "t = s3"
    by (auto simp: bnd_Inr_iff lift_def demand_def require_def ret_def split: if_splits)
  have r1: "ready s1" "queue s1 = queue s" using id_keeps [OF assms(1) id] by simp_all
  have r2: "ready s2" "queue s2 = queue s" using now_keeps [OF r1(1) nw] r1 by simp_all
  have q: "queue t = queue s" using append_queue [OF r2(1) ap] r2 t by simp
  from append_fields [OF r2(1) ap] have run: "ev_run_id ev = sc_run_id sc"
    and c: "carries ev EFFECT_STAGED (staged_payload sc p (res_policy res) actor sid ref now)"
    by (simp_all add: carries_def)
  from fold append_type [OF r2(1) ap] have "staged_state ev = Inr st"
    by (auto simp: stage_fold_def fold_events_def fold_step_def state_from_staged_def split: sum.splits option.splits)
  from parse_carried_stage [OF c ref run this] cls own res nb ref q show ?thesis by blast
qed

end

end
