(* ===== verification/EffectOutbox.thy ===== *)
theory EffectOutbox
  imports StagingLaws LedgerProperties
begin

text \<open>
  The stager as the runtime composes it: the outbox of \<open>api/effect_commit_queue.py\<close> over the
  in-memory command queue, the clock and the id generator of \<open>effects/staging.py\<close>, and the
  effect ledger of the run. The locale of the stager is interpreted on that composition.
\<close>

section \<open>The command queue\<close>

text \<open>
  The transport envelope of an approved command, without its telemetry (trace propagation and
  creation time), and its validation.
\<close>

record runtime_commit_command =
  rc_command_id :: string
  rc_org_id :: string
  rc_user_id :: string
  rc_conversation_id :: string
  rc_run_id :: string
  rc_stage_id :: string
  rc_revision :: int
  rc_decision_ledger_id :: string
  rc_proposal_digest :: string
  rc_target_digest :: string
  rc_idempotency_key :: string
  rc_row_keys :: "string list option"
  rc_retry_basis :: "string option"
  rc_governed :: "rollout_capability list option"

definition bounded_text :: "nat \<Rightarrow> string \<Rightarrow> bool" where
  "bounded_text n s \<longleftrightarrow> s \<noteq> [] \<and> length s \<le> n"

definition runtime_commit_command_make :: "runtime_commit_command \<Rightarrow> runtime_commit_command result" where
  "runtime_commit_command_make c =
     (if bounded_text 128 (rc_org_id c) \<and> bounded_text 128 (rc_user_id c)
         \<and> bounded_text 128 (rc_conversation_id c) \<and> bounded_text 128 (rc_run_id c)
         \<and> bounded_text 128 (rc_stage_id c) \<and> 1 \<le> rc_revision c
         \<and> bounded_text 128 (rc_decision_ledger_id c)
         \<and> is_sha256_hex (rc_proposal_digest c) \<and> is_sha256_hex (rc_target_digest c)
         \<and> bounded_text 256 (rc_idempotency_key c) \<and> row_scope_ok (rc_row_keys c)
         \<and> opt_ok (bounded_text 128) (rc_retry_basis c)
      then Inr c else Inl ValidationError)"

datatype outbox_status =
  OUTBOX_PENDING | OUTBOX_CLAIMED | OUTBOX_COMPLETED | OUTBOX_RETRY | OUTBOX_DEAD_LETTER | OUTBOX_CANCELLED

text \<open>
  The store with its queue. A payload is kept as the command itself; a second registration of an
  id appends it to the order again and resets its status and attempts.
\<close>

record commit_world = event_world +
  cw_commands :: "runtime_commit_command list"
  cw_queue_order :: "string list"
  cw_queue_payloads :: "string \<Rightarrow> runtime_commit_command option"
  cw_queue_statuses :: "string \<Rightarrow> outbox_status option"
  cw_queue_attempts :: "string \<Rightarrow> nat"

definition register_command :: "string \<Rightarrow> runtime_commit_command \<Rightarrow> 'z commit_world_scheme \<Rightarrow> 'z commit_world_scheme" where
  "register_command i c w =
     w\<lparr>cw_queue_order := cw_queue_order w @ [i],
       cw_queue_payloads := (cw_queue_payloads w)(i := Some c),
       cw_queue_statuses := (cw_queue_statuses w)(i := Some OUTBOX_PENDING),
       cw_queue_attempts := (cw_queue_attempts w)(i := 0)\<rparr>"

definition enqueue_effect_commit :: "runtime_commit_command \<Rightarrow> ('z commit_world_scheme, unit) eff" where
  "enqueue_effect_commit c = (\<lambda>w.
     (Inr (), register_command (rc_command_id c) c (w\<lparr>cw_commands := cw_commands w @ [c]\<rparr>)))"

section \<open>The outbox\<close>

record execution_scope =
  xs_org_id :: string
  xs_user_id :: string
  xs_conversation_id :: "string option"
  xs_run_id :: string
  xs_owner_ref :: string

definition execution_scope_make :: "execution_scope \<Rightarrow> execution_scope result" where
  "execution_scope_make x =
     (if bounded_text 255 (xs_org_id x) \<and> bounded_text 255 (xs_user_id x)
         \<and> opt_ok (\<lambda>c. length c \<le> 255) (xs_conversation_id x)
         \<and> bounded_text 255 (xs_run_id x) \<and> bounded_text 2048 (xs_owner_ref x)
      then Inr x else Inl ValidationError)"

text \<open>\<open>ensure_ascii=True\<close> escapes everything outside the printable ASCII characters.\<close>

definition ascii_char :: "char \<Rightarrow> string" where
  "ascii_char c =
     (if code c < 127 then [c]
      else [CHR 0x5C, CHR ''u'', CHR ''0'', CHR ''0'', hex_digit (code c div 16), hex_digit (code c mod 16)])"

definition ascii_json :: "json \<Rightarrow> string" where
  "ascii_json j = concat (map ascii_char (json_text j))"

definition command_id :: "(string \<Rightarrow> string) \<Rightarrow> execution_scope \<Rightarrow> commit_command \<Rightarrow> string" where
  "command_id hash sc c = ''effcmd_'' @ hash (ascii_json (JObj
     [(''org_id'', JStr (xs_org_id sc)), (''run_id'', JStr (cc_run_id c)), (''stage_id'', JStr (cc_stage_id c)),
      (''revision'', JInt (cc_revision c)), (''decision_ledger_id'', JStr (cc_decision_ledger_id c)),
      (''proposal_digest'', JStr (cc_proposal_digest c)), (''target_digest'', JStr (cc_target_digest c)),
      (''idempotency_key'', JStr (cc_idempotency_key c)), (''row_keys'', row_keys_json (cc_row_keys c)),
      (''retry_basis_ledger_id'', jstr_opt (cc_retry_basis c))]))"

definition runtime_command ::
  "(string \<Rightarrow> string) \<Rightarrow> execution_scope \<Rightarrow> string \<Rightarrow> commit_command \<Rightarrow> runtime_commit_command result" where
  "runtime_command hash sc conversation_id c = runtime_commit_command_make
     \<lparr>rc_command_id = command_id hash sc c, rc_org_id = xs_org_id sc, rc_user_id = xs_user_id sc,
      rc_conversation_id = conversation_id, rc_run_id = cc_run_id c, rc_stage_id = cc_stage_id c,
      rc_revision = cc_revision c, rc_decision_ledger_id = cc_decision_ledger_id c,
      rc_proposal_digest = cc_proposal_digest c, rc_target_digest = cc_target_digest c,
      rc_idempotency_key = cc_idempotency_key c, rc_row_keys = cc_row_keys c,
      rc_retry_basis = cc_retry_basis c, rc_governed = cc_governed c\<rparr>"

definition enqueue_after_decision ::
  "(string \<Rightarrow> string) \<Rightarrow> execution_scope \<Rightarrow> commit_command \<Rightarrow> ('z commit_world_scheme, unit) eff" where
  "enqueue_after_decision hash sc c =
     bnd (demand (cc_run_id c = xs_run_id sc) ValueError) (\<lambda>_.
     case xs_conversation_id sc of
       None \<Rightarrow> throw ValueError
     | Some conversation_id \<Rightarrow>
         bnd (demand (conversation_id \<noteq> []) ValueError) (\<lambda>_.
         bnd (lift (runtime_command hash sc conversation_id c)) enqueue_effect_commit))"

section \<open>The composed stager\<close>

definition utc_now :: "event_env \<Rightarrow> ('z event_world_scheme, string) eff" where
  "utc_now env = (\<lambda>w. (Inr (env_clock env (ew_tick w)), w\<lparr>ew_tick := Suc (ew_tick w)\<rparr>))"

definition new_stage_id :: "event_env \<Rightarrow> ('z event_world_scheme, string) eff" where
  "new_stage_id env = (\<lambda>w. (stage_id_format (env_new_id env (ew_tick w)), w\<lparr>ew_tick := Suc (ew_tick w)\<rparr>))"

definition runtime_stager ::
  "event_env \<Rightarrow> effect_ledger \<Rightarrow> execution_scope \<Rightarrow> 'z commit_world_scheme stager" where
  "runtime_stager env led sc =
     \<lparr>sg_ledger = runtime_ledger_port env led, sg_enqueue = enqueue_after_decision (env_hash env) sc,
      sg_now = utc_now env, sg_new_stage_id = new_stage_id env, sg_hash = env_hash env\<rparr>"

section \<open>The laws of the stager's ports\<close>

text \<open>The abstraction of the queue: the domain commands it carries, in order.\<close>

definition domain_command :: "runtime_commit_command \<Rightarrow> commit_command" where
  "domain_command c =
     \<lparr>cc_run_id = rc_run_id c, cc_stage_id = rc_stage_id c, cc_revision = rc_revision c,
      cc_decision_ledger_id = rc_decision_ledger_id c, cc_proposal_digest = rc_proposal_digest c,
      cc_target_digest = rc_target_digest c, cc_idempotency_key = rc_idempotency_key c,
      cc_row_keys = rc_row_keys c, cc_retry_basis = rc_retry_basis c, cc_governed = rc_governed c\<rparr>"

definition queued :: "'z commit_world_scheme \<Rightarrow> commit_command list" where
  "queued w = map domain_command (cw_commands w)"

lemma runtime_command_domain: "runtime_command hash sc conv c = Inr rc \<Longrightarrow> domain_command rc = c"
  by (auto simp: runtime_command_def runtime_commit_command_make_def domain_command_def split: if_splits)

lemma ready_tick [simp]: "ledger_ready led (w\<lparr>ew_tick := n\<rparr>) = ledger_ready led w"
  "stage_history led (w\<lparr>ew_tick := n\<rparr>) = stage_history led w"
  by (simp_all add: ledger_ready_def store_wf_def stage_history_def fun_eq_iff)

lemma ready_queue [simp]:
  "ledger_ready led (register_command i c w) = ledger_ready led w"
  "stage_history led (register_command i c w) = stage_history led w"
  "cw_commands (register_command i c w) = cw_commands w"
  "ledger_ready led (cw_commands_update f w) = ledger_ready led w"
  "stage_history led (cw_commands_update f w) = stage_history led w"
  by (simp_all add: register_command_def ledger_ready_def store_wf_def stage_history_def fun_eq_iff)

lemma enqueue_cases:
  assumes "enqueue_after_decision hash sc c w = (r, w')"
  obtains (refused) e where "r = Inl e" and "w' = w"
        | (sent) rc where "r = Inr ()" and "domain_command rc = c"
            and "w' = register_command (rc_command_id rc) rc (w\<lparr>cw_commands := cw_commands w @ [rc]\<rparr>)"
  using assms
  by (auto simp: enqueue_after_decision_def enqueue_effect_commit_def throw_def
      dest: runtime_command_domain elim!: bnd_liftE split: option.splits if_splits)

lemma set_run_latest_commands [simp]:
  "cw_commands (set_run_latest_sequence r n w) = cw_commands w"
  by (simp add: set_run_latest_sequence_def split: option.split)

lemma append_commands:
  fixes w :: "'z commit_world_scheme"
  assumes "append_stage_event env led sc ty p k f w = (r, w')"
  shows "cw_commands w' = cw_commands w"
  using assms
proof (cases rule: append_cases)
  case (handed safe p am r')
  from handed(6) show ?thesis
    by (auto simp: append_event_def Let_def split: option.splits)
qed simp

interpretation rs: effect_stager "runtime_stager env led sc" "stage_history led" "ledger_ready led" queued
  for env led and sc :: execution_scope
proof -
  have l: "sg_ledger (runtime_stager env led sc) = runtime_ledger_port env led"
    for env led sc by (simp add: runtime_stager_def)
  show "effect_stager (runtime_stager env led sc) (stage_history led) (ledger_ready led) queued"
    for env led and sc :: execution_scope
  proof (unfold_locales, unfold l)
    fix s t :: "'z commit_world_scheme" and told made sent c
    assume r: "ledger_ready led s"
    show "ledger_ready led t \<and> stage_history led t = stage_history led s \<and> queued t = queued s"
      if "sg_now (runtime_stager env led sc) s = (told, t)"
      using that r by (auto simp: runtime_stager_def utc_now_def queued_def)
    show "ledger_ready led t \<and> stage_history led t = stage_history led s \<and> queued t = queued s"
      if "sg_new_stage_id (runtime_stager env led sc) s = (made, t)"
      using that r by (auto simp: runtime_stager_def new_stage_id_def queued_def)
    show "ledger_ready led t \<and> stage_history led t = stage_history led s
      \<and> ((sent = Inr () \<and> queued t = queued s @ [c]) \<or> ((\<exists>e. sent = Inl e) \<and> queued t = queued s))"
      if "sg_enqueue (runtime_stager env led sc) c s = (sent, t)"
    proof -
      from that have "enqueue_after_decision (env_hash env) sc c s = (sent, t)" by (simp add: runtime_stager_def)
      then show ?thesis using r by (cases rule: enqueue_cases) (simp_all add: queued_def)
    qed
  next
    fix s t :: "'z commit_world_scheme" and ssc ty p k f appended
    assume "lp_append (runtime_ledger_port env led) ssc ty p k f s = (appended, t)"
    then show "queued t = queued s"
      by (simp add: runtime_ledger_port_def queued_def append_commands)
  qed (fact rl.list_outcome rl.history_stage rl.append_ready rl.append_refused rl.append_type
        rl.append_fields rl.append_outcome)+
qed

end
