(* ===== verification/StagingProperties.thy ===== *)
theory StagingProperties
  imports EffectOutbox StageProperties
begin

text \<open>
  The properties of the stager as the runtime composes it, each an instance of the locale's
  lemmas: what staging records, what a decision records, and when a command reaches the queue.
\<close>

section \<open>A concrete proposal, decided on\<close>

definition staging_env :: event_env where
  "staging_env = \<lparr>env_clock = (\<lambda>_. ''t2''),
     env_new_id = (\<lambda>n. ''00000000-0000-4000-8000-00000000000'' @ dec (n mod 10)), env_hash = (\<lambda>_. ''h'')\<rparr>"

definition staging_scope :: "string option \<Rightarrow> execution_scope" where
  "staging_scope conversation = \<lparr>xs_org_id = ''org'', xs_user_id = ''u1'', xs_conversation_id = conversation,
     xs_run_id = ''run1'', xs_owner_ref = ''user://u1''\<rparr>"

definition staging_ledger :: effect_ledger where
  "staging_ledger = sample_ledger\<lparr>el_owner_ref := ''user://u1''\<rparr>"

definition staging_world :: "envelope list \<Rightarrow> commit_world" where
  "staging_world events = \<lparr>ew_events = (\<lambda>r. if r = ''run1'' then events else []),
     ew_runs = (\<lambda>r. if r = ''run1'' then Some sample_run else None),
     ew_deleted = (\<lambda>_. False), ew_sealed = (\<lambda>_. None), ew_tick = 1,
     cw_commands = [], cw_queue_order = [], cw_queue_payloads = (\<lambda>_. None),
     cw_queue_statuses = (\<lambda>_. None), cw_queue_attempts = (\<lambda>_. 0)\<rparr>"

definition staged_envelope :: envelope where
  "staged_envelope = \<lparr>en_event_id = ''e1'', en_run_id = ''run1'', en_conversation_id = ''conv'',
     en_sequence_no = 1, en_event_type = EFFECT_STAGED, en_trace_id = ''tr'',
     en_payload = sample_staged_payload, en_metadata = [], en_created_at = ''t1''\<rparr>"

definition staging_proposal :: proposed_effect where
  "staging_proposal =
     \<lparr>pe_operation_id = ''op_00000000-0000-4000-8000-000000000001'', pe_executor = MCP,
      pe_target = \<lparr>tg_executor = MCP, tg_capability = ''crm'', tg_op = ''update'', tg_target_ref = ''mcp://crm/7'',
        tg_precondition_ref = None, tg_display_label = ''Contact''\<rparr>,
      pe_target_digest = sample_digest (CHR ''a''), pe_display_target = ''Contact'',
      pe_kind = CANONICAL_ARGUMENTS, pe_content_ref = ''artifact://a1/1'',
      pe_digest = sample_digest (CHR ''b''), pe_media_type = ''text/plain'',
      pe_precondition_ref = None, pe_precondition_digest = None, pe_effect_class = EXTERNAL_REVERSIBLE,
      pe_policy_snapshot_ref = ''policy://s1'', pe_agent_hold = False, pe_safe_summary_ref = None,
      pe_projection_required = False\<rparr>"

definition staging_snapshot :: policy_snapshot where
  "staging_snapshot = \<lparr>ps_snapshot_ref = ''policy://s1'', ps_descriptor_known = True, ps_deployment = None,
     ps_organization = None, ps_grant = None, ps_capability = None, ps_user = None,
     ps_allow_always = False, ps_sensitive_target = False\<rparr>"

abbreviation staging_stager where
  "staging_stager conversation \<equiv> runtime_stager staging_env staging_ledger (staging_scope conversation)"

abbreviation staging_owner_scope :: stage_scope where
  "staging_owner_scope \<equiv> \<lparr>sc_run_id = ''run1'', sc_owner_ref = ''user://u1''\<rparr>"

definition stage_run :: "commit_world \<Rightarrow> stage_state result \<times> commit_world" where
  "stage_run = stage_effect (staging_stager (Some ''conv'')) staging_owner_scope staging_proposal staging_snapshot
     sample_actor ''key1''"

definition approve_run :: "string option \<Rightarrow> commit_world \<Rightarrow> stage_state result \<times> commit_world" where
  "approve_run conversation = decide (staging_stager conversation) staging_owner_scope sample_sid 1 APPROVE
     (sample_digest (CHR ''b'')) (sample_digest (CHR ''a'')) sample_actor ''key2'' None None"

lemma staging_ready:
  assumes "events \<in> {[], [staged_envelope]}"
  shows "ledger_ready staging_ledger (staging_world events)"
proof -
  have "ok (ledger_id_format ''run1'' 1)" by code_simp
  with assms show ?thesis
    by (auto simp: ledger_ready_def store_wf_def staging_world_def staging_ledger_def sample_ledger_def
        sample_run_def ledger_run_def staged_envelope_def)
qed

lemma approve_run_queues:
  "\<exists>st w. approve_run (Some ''conv'') (staging_world [staged_envelope]) = (Inr st, w) \<and> length (cw_commands w) = 1"
proof -
  have "case approve_run (Some ''conv'') (staging_world [staged_envelope]) of (r, w) \<Rightarrow>
      ok r \<and> length (cw_commands w) = 1" by code_simp
  then show ?thesis by (auto simp: ok_iff split: prod.splits)
qed

lemma staging_get_state:
  "\<exists>st. get_state (staging_stager c) staging_owner_scope sample_sid (staging_world [staged_envelope])
      = (Inr st, staging_world [staged_envelope]) \<and> \<not> decided_status (st_status st)"
proof -
  obtain r w where g: "get_state (staging_stager c) staging_owner_scope sample_sid (staging_world [staged_envelope]) = (r, w)"
    by fastforce
  have "case get_state (staging_stager c) staging_owner_scope sample_sid (staging_world [staged_envelope]) of
      (r, w) \<Rightarrow> ok r \<and> (case r of Inr st \<Rightarrow> st_status st = HELD)" by code_simp
  then show ?thesis
    using rs.get_state_outcome(1) [OF staging_ready g] g by (auto simp: ok_iff decided_status_def)
qed

lemma sample_actor_safe: "safe_reference_ok (ai_ref sample_actor)"
  by code_simp

section \<open>Staging\<close>

text \<open>What is staged is exactly what was proposed. A call of \<open>stage\<close> that returns has resolved
  the policy to something other than a block for an effect that may be staged, and its state is
  the one-revision, undecided stage of that very proposal, target and actor under the resolved
  policy (\<open>PROPOSED\<close> only under \<open>AUTO\<close>); nothing is queued for execution.\<close>

theorem stage_records_the_proposal:
  assumes "ledger_ready led w"
    and "stage_effect (runtime_stager env led xsc) sc p snapshot actor key w = (Inr st, w')"
  shows "\<exists>res sid ref now. resolve p snapshot = Inr res \<and> res_policy res \<noteq> BLOCK
     \<and> pe_effect_class p \<notin> {NONE, INTERNAL_REVERSIBLE} \<and> assert_owner sc actor True = Inr ()
     \<and> proposal_format sid 1 = Inr ref
     \<and> st = staged_stage sc p (res_policy res) actor sid ref now
     \<and> queued w' = queued w"
  using rs.stage_outcome [OF assms] .

theorem stage_records_the_proposal_witness:
  "\<exists>st w. stage_run (staging_world []) = (Inr st, w) \<and> st_status st = HELD \<and> queued w = []"
proof -
  have "ok (fst (stage_run (staging_world [])))" by code_simp
  then obtain st w where s: "stage_run (staging_world []) = (Inr st, w)"
    by (auto simp: ok_iff) (metis prod.collapse)
  have "case resolve staging_proposal staging_snapshot of Inl _ \<Rightarrow> False | Inr res \<Rightarrow> res_policy res = ASK"
    by code_simp
  with stage_records_the_proposal [OF staging_ready s [unfolded stage_run_def]] s show ?thesis
    by (auto simp: staged_stage_def queued_def staging_world_def)
qed

section \<open>Deciding\<close>

text \<open>C1: A command reaches the queue only behind a recorded approval. Whatever \<open>decide\<close> answers,
  the queue is as before, or it holds exactly one more command, the call approved the current
  revision with its exact digests past every guard, and the stage history contains the decision
  event that records that approval and whose ledger id the command names.\<close>

theorem queue_only_recorded_approvals:
  assumes "ledger_ready led w" and "safe_reference_ok (ai_ref actor)"
    and "decide (runtime_stager env led xsc) sc sid revision decision pd td actor key row_keys governed w = (r, w')"
  shows "ledger_ready led w'
     \<and> (queued w' = queued w
        \<or> (decision = APPROVE
           \<and> (\<exists>st ev d c. get_state (runtime_stager env led xsc) sc sid w = (Inr st, w)
                \<and> decision_admitted sc st revision decision pd td actor row_keys
                \<and> queued w' = queued w @ [c]
                \<and> approved_command sc sid revision (ev_ledger_id ev) pd td key row_keys governed = Inr c
                \<and> ev \<in> set (stage_history led w' sid) \<and> ev_event_type ev = EFFECT_DECISION_RECORDED
                \<and> parse_decision ev = Inr d \<and> dc_decision d = APPROVE \<and> dc_revision d = revision
                \<and> dc_actor d = actor \<and> dc_proposal_digest d = pd \<and> dc_target_digest d = td
                \<and> dc_row_keys d = row_keys)))"
  using rs.decide_enqueues_recorded_approval [OF assms] .

theorem queue_only_recorded_approvals_witness:
  "\<exists>w c ev. snd (approve_run (Some ''conv'') (staging_world [staged_envelope])) = w \<and> queued w = [c]
     \<and> ev \<in> set (stage_history staging_ledger w sample_sid) \<and> cc_decision_ledger_id c = ev_ledger_id ev"
proof -
  obtain st w where a: "approve_run (Some ''conv'') (staging_world [staged_envelope]) = (Inr st, w)"
    and l: "length (cw_commands w) = 1" using approve_run_queues by blast
  from l have "queued w \<noteq> queued (staging_world [staged_envelope])"
    by (auto simp: queued_def staging_world_def)
  moreover have "queued (staging_world [staged_envelope]) = []" by (simp add: queued_def staging_world_def)
  ultimately show ?thesis
    using queue_only_recorded_approvals [OF staging_ready sample_actor_safe a [unfolded approve_run_def]] a
    by (auto simp: approved_command_def commit_command_make_def split: if_splits)
qed

text \<open>C6: A decision that returns is the decision that was asked for. On an undecided stage the
  history gains the event of exactly this decision and the state returned is the decided one, or
  an earlier retry had already stored that event; the queue gains the approved command, and
  nothing for any other decision.\<close>

theorem decide_records_the_decision:
  assumes "ledger_ready led w" and "safe_reference_ok (ai_ref actor)"
    and "decide (runtime_stager env led xsc) sc sid revision decision pd td actor key row_keys governed w = (Inr st', w')"
    and "get_state (runtime_stager env led xsc) sc sid w = (Inr st, w)" and "\<not> decided_status (st_status st)"
  shows "\<exists>ev d. parse_decision ev = Inr d \<and> dc_decision d = decision \<and> dc_revision d = revision
     \<and> dc_actor d = actor \<and> dc_proposal_digest d = pd \<and> dc_target_digest d = td \<and> dc_row_keys d = row_keys
     \<and> ((stage_history led w' sid = stage_history led w sid @ [ev] \<and> st' = decided_state st d ev)
        \<or> (ev \<in> set (stage_history led w sid) \<and> stage_history led w' sid = stage_history led w sid \<and> st' = st))
     \<and> queued w' = queued w @ (if decision = APPROVE
          then [case approved_command sc sid revision (ev_ledger_id ev) pd td key row_keys governed of Inr c \<Rightarrow> c] else [])"
  using rs.decide_outcome [OF assms] .

theorem decide_records_the_decision_witness:
  "\<exists>st w. approve_run (Some ''conv'') (staging_world [staged_envelope]) = (Inr st, w) \<and> length (queued w) = 1"
proof -
  obtain st w where a: "approve_run (Some ''conv'') (staging_world [staged_envelope]) = (Inr st, w)"
    using approve_run_queues by blast
  obtain st0 where g: "get_state (staging_stager (Some ''conv'')) staging_owner_scope sample_sid (staging_world [staged_envelope])
      = (Inr st0, staging_world [staged_envelope])" and u: "\<not> decided_status (st_status st0)"
    using staging_get_state by blast
  from decide_records_the_decision [OF staging_ready sample_actor_safe a [unfolded approve_run_def] g u] a
  show ?thesis by (auto simp: queued_def staging_world_def)
qed

text \<open>C23: Repeating a recorded decision answers with the stored state and does nothing else. That
  holds also when the first attempt recorded the approval and then failed to queue it: the repeat
  reports success and the approved effect is never queued.\<close>

theorem repeated_decision_never_enqueues:
  assumes "ledger_ready led w" and "get_state (runtime_stager env led xsc) sc sid w = (Inr st, w)"
    and "st_decision st = Some d" and "is_opaque_key key"
    and "assert_owner sc (dc_actor d) True = Inr ()"
  shows "decide (runtime_stager env led xsc) sc sid (dc_revision d) (dc_decision d) (dc_proposal_digest d)
           (dc_target_digest d) (dc_actor d) key (dc_row_keys d) governed w = (Inr st, w)"
proof -
  have "stage_wf st" using rs.get_state_outcome(2) [OF assms(1,2)] by blast
  with assms(3) have p: "decision_pinned st d" by (simp add: stage_wf_def decision_wf_def)
  then have "decided_status (st_status st)" "dc_decision d \<noteq> RESTORE"
    by (auto simp: decision_pinned_def decided_status_def)
  with p assms(2-5) show ?thesis
    by (simp add: decide_def eff_simps validate_idempotency_key_def is_identical_decision_def
        decision_pinned_def)
qed

text \<open>The approval is recorded by a call whose outbox has no conversation and fails; the retry of
  the same approval with a working outbox returns the approved stage, and the queue stays empty.\<close>

lemma lost_approval:
  "\<exists>w st d. snd (approve_run None (staging_world [staged_envelope])) = w
     \<and> \<not> ok (fst (approve_run None (staging_world [staged_envelope]))) \<and> cw_commands w = []
     \<and> fst (get_state (staging_stager (Some ''conv'')) staging_owner_scope sample_sid w) = Inr st
     \<and> st_decision st = Some d \<and> st_status st = APPROVED \<and> dc_decision d = APPROVE \<and> dc_revision d = 1
     \<and> dc_actor d = sample_actor \<and> dc_proposal_digest d = sample_digest (CHR ''b'')
     \<and> dc_target_digest d = sample_digest (CHR ''a'') \<and> dc_row_keys d = None"
proof -
  have "case approve_run None (staging_world [staged_envelope]) of (r, w) \<Rightarrow>
      \<not> ok r \<and> cw_commands w = []
      \<and> (case fst (get_state (staging_stager (Some ''conv'')) staging_owner_scope sample_sid w) of
          Inl _ \<Rightarrow> False
        | Inr st \<Rightarrow> st_status st = APPROVED \<and> (case st_decision st of None \<Rightarrow> False
            | Some d \<Rightarrow> dc_decision d = APPROVE \<and> dc_revision d = 1 \<and> dc_actor d = sample_actor
                \<and> dc_proposal_digest d = sample_digest (CHR ''b'')
                \<and> dc_target_digest d = sample_digest (CHR ''a'') \<and> dc_row_keys d = None))"
    by code_simp
  then show ?thesis by (auto split: prod.splits sum.splits option.splits)
qed

theorem repeated_decision_never_enqueues_witness:
  "\<exists>w st. snd (approve_run None (staging_world [staged_envelope])) = w
     \<and> \<not> ok (fst (approve_run None (staging_world [staged_envelope])))
     \<and> approve_run (Some ''conv'') w = (Inr st, w) \<and> st_status st = APPROVED \<and> cw_commands w = []"
proof -
  obtain w st d where l: "snd (approve_run None (staging_world [staged_envelope])) = w"
      "\<not> ok (fst (approve_run None (staging_world [staged_envelope])))" "cw_commands w = []"
    and g: "fst (get_state (staging_stager (Some ''conv'')) staging_owner_scope sample_sid w) = Inr st"
    and d: "st_decision st = Some d" "st_status st = APPROVED" "dc_decision d = APPROVE" "dc_revision d = 1"
      "dc_actor d = sample_actor" "dc_proposal_digest d = sample_digest (CHR ''b'')"
      "dc_target_digest d = sample_digest (CHR ''a'')" "dc_row_keys d = None"
    using lost_approval by blast
  obtain r0 where a: "approve_run None (staging_world [staged_envelope]) = (r0, w)"
    using l(1) by (cases "approve_run None (staging_world [staged_envelope])") simp
  have rw: "ledger_ready staging_ledger w"
    using rs.decide_enqueues_recorded_approval [OF staging_ready sample_actor_safe a [unfolded approve_run_def]] by simp
  from g rs.get_state_outcome(1) [OF rw]
  have g': "get_state (staging_stager (Some ''conv'')) staging_owner_scope sample_sid w = (Inr st, w)"
    by (cases "get_state (staging_stager (Some ''conv'')) staging_owner_scope sample_sid w") auto
  have "is_opaque_key ''key2''" and own: "assert_owner staging_owner_scope (dc_actor d) True = Inr ()"
    by code_simp (simp add: d assert_owner_def sample_actor_def)
  from repeated_decision_never_enqueues [OF rw g' d(1) this, where governed = None] l d show ?thesis
    by (auto simp: approve_run_def)
qed

end
