(* ===== verification/EffectClaims.thy ===== *)
theory EffectClaims
  imports EffectContracts
begin

text \<open>
  The durable claim of \<open>effects/claims.py\<close>: its model and validators, the request it stands for,
  the transition rule that every store applies, and the reading of records that predate
  \<open>proposal_content_ref\<close>.
\<close>

section \<open>The claim\<close>

datatype claim_state = CLAIMED | COMPLETED | INDETERMINATE | CLAIM_CANCELLED

fun claim_state_value :: "claim_state \<Rightarrow> string" where
  "claim_state_value CLAIMED = ''claimed''"
| "claim_state_value COMPLETED = ''completed''"
| "claim_state_value INDETERMINATE = ''indeterminate''"
| "claim_state_value CLAIM_CANCELLED = ''cancelled''"

record effect_claim =
  ec_org_id :: string
  ec_run_id :: string
  ec_stage_id :: string
  ec_revision :: int
  ec_claim_id :: string
  ec_idempotency_key :: string
  ec_executor :: effect_executor_kind
  ec_proposal_digest :: string
  ec_target_digest :: string
  ec_state :: claim_state
  ec_attempt :: int
  ec_prepared_ref :: "string option"
  ec_receipt_ref :: "string option"
  ec_outcome :: "effect_outcome option"
  ec_result_digest :: "string option"
  ec_safe_message :: "string option"
  ec_target_ref :: string
  ec_proposal_ref :: string
  ec_content_ref :: "string option"
  ec_actor :: effect_actor
  ec_decision_ledger_id :: string
  ec_row_keys :: "string list option"
  ec_row_results :: "row_result list option"
  ec_created_at :: string
  ec_updated_at :: string

section \<open>Validators\<close>

text \<open>
  \<open>_validate_safe_opaque_uri\<close>: the text, its URL parts, and the parts of its full percent
  decoding; the optional ban on the proposal scheme is a parameter.
\<close>

definition claim_forbidden_schemes :: "bool \<Rightarrow> string list" where
  "claim_forbidden_schemes forbid_proposal =
     [''file'', ''filesystem'', ''data'', ''http'', ''https''] @ (if forbid_proposal then [''proposal''] else [])"

definition claim_uri_ok :: "bool \<Rightarrow> string \<Rightarrow> bool" where
  "claim_uri_ok forbid_proposal value =
     (value \<noteq> [] \<and> length value \<le> MAX_REFERENCE_LENGTH \<and> value = strip value
      \<and> CHR 0x0A \<notin> set value \<and> CHR 0x0D \<notin> set value \<and> CHR 0x00 \<notin> set value
      \<and> \<not> starts_any [''/'', ''~'', [CHR 0x5C]] value \<and> \<not> drive_path value
      \<and> (let decoded = unquote_all value in
         case (urlsplit value, urlsplit decoded) of
           (Inr parsed, Inr parts) \<Rightarrow>
             u_scheme parsed \<noteq> [] \<and> u_netloc parsed \<noteq> [] \<and> u_query parsed = [] \<and> u_fragment parsed = []
             \<and> lower (u_scheme parsed) \<notin> set (claim_forbidden_schemes forbid_proposal)
             \<and> CHR 0x5C \<notin> set decoded \<and> CHR 0x00 \<notin> set decoded
             \<and> u_query parts = [] \<and> u_fragment parts = []
             \<and> \<not> starts_with ''//'' (u_path parts) \<and> \<not> url_dot_segment parts
         | _ \<Rightarrow> False))"

definition text_255 :: "string \<Rightarrow> bool" where
  "text_255 s \<longleftrightarrow> s \<noteq> [] \<and> length s \<le> 255"

definition single_line :: "string \<Rightarrow> bool" where
  "single_line s \<longleftrightarrow> strip s \<noteq> [] \<and> CHR 0x0A \<notin> set s \<and> CHR 0x0D \<notin> set s"

definition claim_row_keys_ok :: "string list \<Rightarrow> bool" where
  "claim_row_keys_ok ks \<longleftrightarrow> ks \<noteq> [] \<and> distinct ks \<and> list_all (\<lambda>k. k \<noteq> [] \<and> length k \<le> 256) ks"

text \<open>The field validators.\<close>

definition claim_fields_ok :: "effect_claim \<Rightarrow> bool" where
  "claim_fields_ok c \<longleftrightarrow>
     text_255 (ec_org_id c) \<and> text_255 (ec_run_id c) \<and> text_255 (ec_stage_id c) \<and> opaque_token_ok (ec_stage_id c)
     \<and> 1 \<le> ec_revision c \<and> is_claim_id_text (ec_claim_id c) \<and> is_opaque_key (ec_idempotency_key c)
     \<and> is_sha256_hex (ec_proposal_digest c) \<and> is_sha256_hex (ec_target_digest c) \<and> 1 \<le> ec_attempt c
     \<and> opt_ok (claim_uri_ok False) (ec_prepared_ref c)
     \<and> opt_ok (\<lambda>r. length r \<le> MAX_REFERENCE_LENGTH \<and> ok (receipt_parse r)) (ec_receipt_ref c)
     \<and> opt_ok is_sha256_hex (ec_result_digest c)
     \<and> opt_ok (\<lambda>m. length m \<le> 512 \<and> single_line m) (ec_safe_message c)
     \<and> claim_uri_ok False (ec_target_ref c) \<and> claim_uri_ok False (ec_proposal_ref c)
     \<and> opt_ok (claim_uri_ok True) (ec_content_ref c) \<and> text_255 (ec_decision_ledger_id c)
     \<and> opt_ok claim_row_keys_ok (ec_row_keys c)"

text \<open>\<open>_state_is_consistent\<close>, in its parts.\<close>

definition claim_identity_ok :: "effect_claim \<Rightarrow> bool" where
  "claim_identity_ok c \<longleftrightarrow>
     (starts_with ''stg_'' (ec_stage_id c) \<or> starts_with ''proposal://'' (ec_proposal_ref c)
      \<longrightarrow> proposal_parse (ec_proposal_ref c) = Inr \<lparr>pp_stage_id = ec_stage_id c, pp_revision = ec_revision c\<rparr>)"

definition claim_outcome_ok :: "effect_claim \<Rightarrow> bool" where
  "claim_outcome_ok c \<longleftrightarrow>
     (case ec_state c of
        CLAIMED \<Rightarrow> ec_outcome c = None
      | COMPLETED \<Rightarrow> ec_outcome c \<noteq> None \<and> ec_outcome c \<noteq> Some INDETERMINATE_OUTCOME
      | INDETERMINATE \<Rightarrow> ec_outcome c = Some INDETERMINATE_OUTCOME
      | CLAIM_CANCELLED \<Rightarrow> ec_outcome c = Some CANCELLED_OUTCOME)"

definition claim_receipt_ok :: "effect_claim \<Rightarrow> bool" where
  "claim_receipt_ok c \<longleftrightarrow>
     opt_ok (\<lambda>r. receipt_parse r = Inr \<lparr>pr_stage_id = ec_stage_id c, pr_claim_id = ec_claim_id c\<rparr>) (ec_receipt_ref c)"

definition claim_rows_ok :: "effect_claim \<Rightarrow> bool" where
  "claim_rows_ok c \<longleftrightarrow>
     opt_ok (\<lambda>rs. let keys = map wr_row_key rs in
        keys \<noteq> [] \<and> distinct keys \<and> ec_state c = COMPLETED
        \<and> (case ec_row_keys c of None \<Rightarrow> False | Some ks \<Rightarrow> set keys = set ks)) (ec_row_results c)
     \<and> (ec_state c = COMPLETED \<and> ec_row_keys c \<noteq> None \<longrightarrow> ec_row_results c \<noteq> None)"

definition claim_ok :: "effect_claim \<Rightarrow> bool" where
  "claim_ok c \<longleftrightarrow> claim_fields_ok c \<and> claim_identity_ok c \<and> claim_outcome_ok c
     \<and> claim_receipt_ok c \<and> claim_rows_ok c"

definition effect_claim_make :: "effect_claim \<Rightarrow> effect_claim result" where
  "effect_claim_make c = (if claim_ok c then Inr c else Inl ValidationError)"

lemma effect_claim_make_Inr [simp]: "effect_claim_make c = Inr d \<longleftrightarrow> claim_ok c \<and> d = c"
  by (auto simp: effect_claim_make_def)

section \<open>Requests and transitions\<close>

definition same_request_as :: "effect_claim \<Rightarrow> effect_claim \<Rightarrow> bool" where
  "same_request_as c d \<longleftrightarrow>
     ec_org_id c = ec_org_id d \<and> ec_run_id c = ec_run_id d \<and> ec_stage_id c = ec_stage_id d
     \<and> ec_revision c = ec_revision d \<and> ec_idempotency_key c = ec_idempotency_key d
     \<and> ec_executor c = ec_executor d \<and> ec_proposal_digest c = ec_proposal_digest d
     \<and> ec_target_digest c = ec_target_digest d \<and> ec_target_ref c = ec_target_ref d
     \<and> ec_proposal_ref c = ec_proposal_ref d \<and> ec_content_ref c = ec_content_ref d
     \<and> ec_actor c = ec_actor d \<and> ec_decision_ledger_id c = ec_decision_ledger_id d
     \<and> ec_row_keys c = ec_row_keys d"

lemma same_request_refl [simp]: "same_request_as c c"
  by (simp add: same_request_as_def)

lemma same_request_sym: "same_request_as c d \<Longrightarrow> same_request_as d c"
  by (simp add: same_request_as_def)

lemma same_request_trans: "same_request_as b c \<Longrightarrow> same_request_as c d \<Longrightarrow> same_request_as b d"
  by (simp add: same_request_as_def)

lemma same_request_identity:
  "same_request_as c d \<Longrightarrow>
     ec_org_id c = ec_org_id d \<and> ec_executor c = ec_executor d \<and> ec_idempotency_key c = ec_idempotency_key d"
  by (simp add: same_request_as_def)

definition require_persistable :: "effect_claim \<Rightarrow> unit result" where
  "require_persistable c = require (ec_content_ref c \<noteq> None) EffectClaimStorageError"

fun allowed_transitions :: "claim_state \<Rightarrow> claim_state list" where
  "allowed_transitions CLAIMED = [CLAIMED, COMPLETED, INDETERMINATE, CLAIM_CANCELLED]"
| "allowed_transitions INDETERMINATE = [INDETERMINATE, COMPLETED]"
| "allowed_transitions CLAIM_CANCELLED = [CLAIM_CANCELLED]"
| "allowed_transitions COMPLETED = [COMPLETED]"

definition validate_claim_transition :: "effect_claim \<Rightarrow> effect_claim \<Rightarrow> unit result" where
  "validate_claim_transition previous replacement =
     (if ec_org_id previous \<noteq> ec_org_id replacement \<or> ec_executor previous \<noteq> ec_executor replacement
         \<or> ec_idempotency_key previous \<noteq> ec_idempotency_key replacement
         \<or> ec_claim_id previous \<noteq> ec_claim_id replacement
         \<or> \<not> same_request_as previous replacement
         \<or> ec_created_at previous \<noteq> ec_created_at replacement
      then Inl EffectClaimInvalidTransition
      else if ec_state replacement \<notin> set (allowed_transitions (ec_state previous))
      then Inl EffectClaimInvalidTransition
      else if ec_state previous \<in> {COMPLETED, CLAIM_CANCELLED} \<and> replacement \<noteq> previous
      then Inl EffectClaimInvalidTransition
      else if ec_state previous = INDETERMINATE \<and> ec_state replacement = INDETERMINATE \<and> replacement \<noteq> previous
      then Inl EffectClaimInvalidTransition
      else Inr ())"

text \<open>
  The order a transition follows: a claim may be resolved once, an uncertain one may become
  certain, and a certain or cancelled one is final.
\<close>

fun claim_rank :: "claim_state \<Rightarrow> nat" where
  "claim_rank CLAIMED = 0"
| "claim_rank INDETERMINATE = 1"
| "claim_rank COMPLETED = 2"
| "claim_rank CLAIM_CANCELLED = 2"

lemma claim_transition_iff:
  "validate_claim_transition p r = Inr () \<longleftrightarrow>
     ec_claim_id p = ec_claim_id r \<and> same_request_as p r \<and> ec_created_at p = ec_created_at r
     \<and> (case ec_state p of
          CLAIMED \<Rightarrow> True
        | INDETERMINATE \<Rightarrow> r = p \<or> ec_state r = COMPLETED
        | _ \<Rightarrow> r = p)"
proof (cases "ec_claim_id p = ec_claim_id r \<and> same_request_as p r \<and> ec_created_at p = ec_created_at r")
  case True
  then have "ec_org_id p = ec_org_id r" "ec_executor p = ec_executor r"
    "ec_idempotency_key p = ec_idempotency_key r"
    using same_request_identity by blast+
  moreover have "ec_state p \<noteq> ec_state r \<Longrightarrow> r \<noteq> p" by blast
  ultimately show ?thesis using True
    by (cases "ec_state p"; cases "ec_state r"; simp add: validate_claim_transition_def)
next
  case False
  then show ?thesis by (auto simp: validate_claim_transition_def)
qed

section \<open>Records without a content reference\<close>

text \<open>
  What a record reads as. A record written before \<open>proposal_content_ref\<close> existed has no such
  field: its \<open>proposal_ref\<close> is either canonical, and then there is no content reference, or the
  content reference itself.
\<close>

datatype claim_record = CurrentRecord effect_claim | HistoricRecord effect_claim

fun normalize_persisted :: "claim_record \<Rightarrow> effect_claim result" where
  "normalize_persisted (CurrentRecord c) = Inr c"
| "normalize_persisted (HistoricRecord c) =
     (case proposal_parse (ec_proposal_ref c) of
        Inl _ \<Rightarrow>
          rbind (require (claim_uri_ok True (ec_proposal_ref c)) ValueError) (\<lambda>_.
          rbind (proposal_format (ec_stage_id c) (ec_revision c)) (\<lambda>canonical.
          Inr (c\<lparr>ec_proposal_ref := canonical, ec_content_ref := Some (ec_proposal_ref c)\<rparr>)))
      | Inr p \<Rightarrow>
          rbind (require (pp_stage_id p = ec_stage_id c \<and> pp_revision p = ec_revision c) ValueError) (\<lambda>_.
          Inr (c\<lparr>ec_content_ref := None\<rparr>)))"

definition read_record :: "claim_record \<Rightarrow> effect_claim result" where
  "read_record r = rbind (normalize_persisted r) effect_claim_make"

lemma read_current [simp]: "read_record (CurrentRecord c) = effect_claim_make c"
  by (simp add: read_record_def)

end
