(* ===== verification/ClaimPorts.thy ===== *)
theory ClaimPorts
  imports EffectClaims
begin

text \<open>
  The store protocol \<open>EffectClaimStore\<close> as a record of operations, and its contract: one claim
  per tenant, executor and idempotency key, created at most once, never removed, and changed only
  along the allowed transitions. What every client of the protocol relies on is proved here.
\<close>

type_synonym claim_key = "string \<times> effect_executor_kind \<times> string"

definition claim_key_of :: "effect_claim \<Rightarrow> claim_key" where
  "claim_key_of c = (ec_org_id c, ec_executor c, ec_idempotency_key c)"

text \<open>An acquisition is whether the claim was created, and the claim.\<close>

record 's claim_port =
  cp_claim :: "effect_claim \<Rightarrow> ('s, bool \<times> effect_claim) eff"
  cp_get :: "claim_key \<Rightarrow> ('s, effect_claim option) eff"
  cp_get_by_id :: "string \<Rightarrow> string \<Rightarrow> ('s, effect_claim option) eff"
  cp_update :: "effect_claim \<Rightarrow> ('s, effect_claim) eff"

text \<open>One claim follows another: the same attempt at the same request, no less resolved.\<close>

definition claim_follows :: "effect_claim \<Rightarrow> effect_claim \<Rightarrow> bool" where
  "claim_follows c d \<longleftrightarrow>
     ec_claim_id c = ec_claim_id d \<and> same_request_as c d \<and> ec_created_at c = ec_created_at d
     \<and> claim_rank (ec_state c) \<le> claim_rank (ec_state d)
     \<and> (ec_state c \<in> {COMPLETED, CLAIM_CANCELLED} \<longrightarrow> d = c)
     \<and> (ec_state c = INDETERMINATE \<longrightarrow> d = c \<or> ec_state d = COMPLETED)"

lemma claim_follows_refl [simp]: "claim_follows c c"
  by (simp add: claim_follows_def)

lemma claim_follows_trans: "claim_follows b c \<Longrightarrow> claim_follows c d \<Longrightarrow> claim_follows b d"
  unfolding claim_follows_def
  by (intro conjI impI; elim conjE)
     (metis same_request_trans, metis same_request_trans, metis, metis le_trans, metis insert_iff singletonD, metis insert_iff)

lemma transition_follows: "validate_claim_transition p r = Inr () \<Longrightarrow> claim_follows p r"
  unfolding claim_transition_iff claim_follows_def
  by (cases "ec_state p"; elim conjE; simp only: claim_state.case; (elim disjE)?; simp)

lemma follows_key: "claim_follows c d \<Longrightarrow> claim_key_of d = claim_key_of c"
  by (simp add: claim_follows_def claim_key_of_def same_request_as_def)

text \<open>A history of calls on a store, in the order its lock lets them through.\<close>

datatype claim_op =
  ClaimOp effect_claim | GetOp claim_key | GetByIdOp string string | UpdateOp effect_claim

datatype claim_answer =
  ClaimAnswer "(bool \<times> effect_claim) result" | LookupAnswer "effect_claim option result"
  | UpdateAnswer "effect_claim result"

fun claim_op_ok :: "claim_op \<Rightarrow> bool" where
  "claim_op_ok (ClaimOp c) = claim_ok c"
| "claim_op_ok (UpdateOp c) = claim_ok c"
| "claim_op_ok _ = True"

fun run_op :: "'s claim_port \<Rightarrow> claim_op \<Rightarrow> 's \<Rightarrow> claim_answer \<times> 's" where
  "run_op port (ClaimOp c) s = map_prod ClaimAnswer id (cp_claim port c s)"
| "run_op port (GetOp k) s = map_prod LookupAnswer id (cp_get port k s)"
| "run_op port (GetByIdOp org cid) s = map_prod LookupAnswer id (cp_get_by_id port org cid s)"
| "run_op port (UpdateOp c) s = map_prod UpdateAnswer id (cp_update port c s)"

fun run_ops :: "'s claim_port \<Rightarrow> claim_op list \<Rightarrow> 's \<Rightarrow> claim_answer list \<times> 's" where
  "run_ops port [] s = ([], s)"
| "run_ops port (x # xs) s =
     (case run_op port x s of (a, s') \<Rightarrow> (case run_ops port xs s' of (as, t) \<Rightarrow> (a # as, t)))"

text \<open>The answers that created a claim for a key.\<close>

fun creates :: "claim_key \<Rightarrow> claim_answer \<Rightarrow> bool" where
  "creates k (ClaimAnswer (Inr (made, c))) = (made \<and> claim_key_of c = k)"
| "creates k _ = False"

text \<open>\<open>stored\<close> is what a key reads as; a key may be \<open>held\<close> by a record that cannot be read.\<close>

locale claim_store =
  fixes port :: "'s claim_port"
    and stored :: "'s \<Rightarrow> claim_key \<Rightarrow> effect_claim option"
    and held :: "'s \<Rightarrow> claim_key set"
    and ready :: "'s \<Rightarrow> bool"
  assumes stored_held: "ready s \<Longrightarrow> stored s k = Some c \<Longrightarrow> k \<in> held s \<and> claim_key_of c = k"
    and claim_ready: "ready s \<Longrightarrow> claim_ok c \<Longrightarrow> cp_claim port c s = (claimed, t) \<Longrightarrow>
      ready t \<and> held s \<subseteq> held t"
    and claim_created: "ready s \<Longrightarrow> claim_ok c \<Longrightarrow> cp_claim port c s = (Inr (True, d), t) \<Longrightarrow>
      d = c \<and> claim_key_of c \<notin> held s \<and> claim_key_of c \<in> held t
      \<and> stored t = (stored s)(claim_key_of c := Some c)"
    and claim_existing: "ready s \<Longrightarrow> claim_ok c \<Longrightarrow> cp_claim port c s = (Inr (False, d), t) \<Longrightarrow>
      stored s (claim_key_of c) = Some d \<and> same_request_as d c \<and> stored t = stored s"
    and claim_refused: "ready s \<Longrightarrow> claim_ok c \<Longrightarrow> cp_claim port c s = (Inl e, t) \<Longrightarrow>
      stored t = stored s \<or> (claim_key_of c \<notin> held s \<and> stored t = (stored s)(claim_key_of c := Some c))"
    and get_outcome: "ready s \<Longrightarrow> cp_get port k s = (found, t) \<Longrightarrow>
      ready t \<and> stored t = stored s \<and> held t = held s
      \<and> (found = Inr None \<longrightarrow> k \<notin> held s) \<and> (\<forall>c. found = Inr (Some c) \<longrightarrow> stored s k = Some c)"
    and get_by_id_outcome: "ready s \<Longrightarrow> cp_get_by_id port org cid s = (looked_up, t) \<Longrightarrow>
      ready t \<and> stored t = stored s \<and> held t = held s
      \<and> (\<forall>c. looked_up = Inr (Some c) \<longrightarrow>
          stored s (claim_key_of c) = Some c \<and> ec_org_id c = org \<and> ec_claim_id c = cid)"
    and update_ready: "ready s \<Longrightarrow> claim_ok c \<Longrightarrow> cp_update port c s = (updated, t) \<Longrightarrow>
      ready t \<and> held t = held s"
    and update_done: "ready s \<Longrightarrow> claim_ok c \<Longrightarrow> cp_update port c s = (Inr d, t) \<Longrightarrow>
      d = c \<and> (\<exists>p. stored s (claim_key_of c) = Some p \<and> validate_claim_transition p c = Inr ())
      \<and> stored t = (stored s)(claim_key_of c := Some c)"
    and update_refused: "ready s \<Longrightarrow> claim_ok c \<Longrightarrow> cp_update port c s = (Inl e, t) \<Longrightarrow>
      stored t = stored s \<or> ((\<exists>p. stored s (claim_key_of c) = Some p \<and> validate_claim_transition p c = Inr ())
        \<and> stored t = (stored s)(claim_key_of c := Some c))"
begin

text \<open>How the store evolves under its operations, whatever they answer.\<close>

definition evolves :: "'s \<Rightarrow> 's \<Rightarrow> bool" where
  "evolves s t \<longleftrightarrow> (ready s \<longrightarrow> ready t \<and> held s \<subseteq> held t
     \<and> (\<forall>k c. stored s k = Some c \<longrightarrow> (\<exists>d. stored t k = Some d \<and> claim_follows c d)))"

lemma evolves_order: "reflp evolves" "transp evolves"
proof -
  show "reflp evolves" unfolding evolves_def reflp_def by (metis claim_follows_refl subset_refl)
  show "transp evolves"
  proof (rule transpI)
    fix r s t
    assume rs: "evolves r s" and st: "evolves s t"
    show "evolves r t"
      unfolding evolves_def
    proof (intro impI conjI allI)
      assume r: "ready r"
      with rs st show "ready t" and "held r \<subseteq> held t" by (auto simp: evolves_def)
      fix k c
      assume "stored r k = Some c"
      with r rs obtain d where d: "stored s k = Some d" "claim_follows c d" "ready s"
        unfolding evolves_def by blast
      with st obtain e where "stored t k = Some e" "claim_follows d e" unfolding evolves_def by blast
      with d claim_follows_trans show "\<exists>e. stored t k = Some e \<and> claim_follows c e" by blast
    qed
  qed
qed

lemma evolvesI:
  assumes "ready s \<Longrightarrow> ready t \<and> held s \<subseteq> held t"
    and "\<And>k c. ready s \<Longrightarrow> stored s k = Some c \<Longrightarrow> \<exists>d. stored t k = Some d \<and> claim_follows c d"
  shows "evolves s t"
  using assms unfolding evolves_def by blast

lemma claim_evolves: "claim_ok c \<Longrightarrow> keeps evolves (cp_claim port c)"
proof (rule keepsI, rule evolvesI)
  fix s r t
  assume ok: "claim_ok c" and run: "cp_claim port c s = (r, t)" and ready: "ready s"
  show "ready t \<and> held s \<subseteq> held t" by (rule claim_ready [OF ready ok run])
  have out: "stored t = stored s
      \<or> (claim_key_of c \<notin> held s \<and> stored t = (stored s)(claim_key_of c := Some c))"
  proof (cases r)
    case (Inl e)
    with claim_refused [OF ready ok] run show ?thesis by blast
  next
    case (Inr a)
    with claim_created [OF ready ok] claim_existing [OF ready ok] run show ?thesis
      by (cases a; cases "fst a") fastforce+
  qed
  fix k d
  assume d: "stored s k = Some d"
  with stored_held [OF ready] have "k \<in> held s" by blast
  with out d show "\<exists>e. stored t k = Some e \<and> claim_follows d e" by auto
qed

lemma update_evolves: "claim_ok c \<Longrightarrow> keeps evolves (cp_update port c)"
proof (rule keepsI, rule evolvesI)
  fix s r t
  assume ok: "claim_ok c" and run: "cp_update port c s = (r, t)" and ready: "ready s"
  show "ready t \<and> held s \<subseteq> held t" using update_ready [OF ready ok run] by blast
  fix k d
  assume d: "stored s k = Some d"
  have "stored t = stored s \<or> ((\<exists>p. stored s (claim_key_of c) = Some p \<and> validate_claim_transition p c = Inr ())
      \<and> stored t = (stored s)(claim_key_of c := Some c))"
    using update_refused [OF ready ok] update_done [OF ready ok] run by (cases r) blast+
  with d show "\<exists>e. stored t k = Some e \<and> claim_follows d e"
    by (cases "k = claim_key_of c") (auto dest: transition_follows)
qed

lemma read_evolves: "keeps evolves (cp_get port k)" "keeps evolves (cp_get_by_id port org cid)"
proof -
  have same: "evolves s t" if "ready s \<Longrightarrow> ready t \<and> stored t = stored s \<and> held t = held s" for s t
    using that by (intro evolvesI) auto
  show "keeps evolves (cp_get port k)"
    by (rule keepsI, rule same) (use get_outcome in blast)
  show "keeps evolves (cp_get_by_id port org cid)"
    by (rule keepsI, rule same) (use get_by_id_outcome in blast)
qed

text \<open>A key that is held is never created again.\<close>

lemma held_not_created:
  assumes "ready s" and "claim_ok c" and "claim_key_of c \<in> held s" and "cp_claim port c s = (r, t)"
  shows "\<forall>d. r \<noteq> Inr (True, d)"
  using assms claim_created by blast

lemma run_op_evolves:
  assumes "claim_op_ok x" and "run_op port x s = (a, t)"
  shows "evolves s t"
  using assms
  by (cases x) (auto simp: map_prod_def split: prod.splits
      dest: keepsD [OF claim_evolves] keepsD [OF update_evolves] keepsD [OF read_evolves(1)] keepsD [OF read_evolves(2)])

lemma run_op_creates:
  assumes "ready s" and "claim_op_ok x" and "run_op port x s = (a, t)" and "creates k a"
  shows "k \<notin> held s \<and> k \<in> held t"
proof -
  from assms(3,4) obtain c d where x: "x = ClaimOp c" and a: "a = ClaimAnswer (Inr (True, d))" "claim_key_of d = k"
    by (cases x; cases "(k, a)" rule: creates.cases) (auto simp: map_prod_def split: prod.splits)
  with assms(3) have "cp_claim port c s = (Inr (True, d), t)" by (auto simp: map_prod_def split: prod.splits)
  with claim_created [OF assms(1)] assms(2) x a(2) show ?thesis by auto
qed

lemma run_ops_evolves:
  "list_all claim_op_ok xs \<Longrightarrow> run_ops port xs s = (as, t) \<Longrightarrow> evolves s t"
proof (induction xs arbitrary: s as)
  case Nil
  with evolves_order(1) show ?case by (simp add: reflp_def)
next
  case (Cons x xs)
  from Cons.prems obtain a s' as' where "run_op port x s = (a, s')" "run_ops port xs s' = (as', t)"
    by (auto split: prod.splits)
  with Cons run_op_evolves have "evolves s s'" "evolves s' t" by auto
  with evolves_order(2) show ?case by (blast dest: transpD)
qed

text \<open>Whatever the calls and their order, a key is created at most once, and never when it was held.\<close>

lemma created_at_most_once:
  "ready s \<Longrightarrow> list_all claim_op_ok xs \<Longrightarrow> run_ops port xs s = (as, t) \<Longrightarrow>
     length (filter (creates k) as) \<le> (if k \<in> held s then 0 else 1)"
proof (induction xs arbitrary: s as)
  case (Cons x xs)
  from Cons.prems obtain a s' as' where x: "run_op port x s = (a, s')" and xs: "run_ops port xs s' = (as', t)"
    and as: "as = a # as'" by (auto split: prod.splits)
  from Cons.prems(2) x have "evolves s s'" by (auto intro: run_op_evolves)
  with Cons.prems(1) have ev: "ready s'" "held s \<subseteq> held s'" by (simp_all add: evolves_def)
  from Cons.prems(2) have IH: "length (filter (creates k) as') \<le> (if k \<in> held s' then 0 else 1)"
    by (intro Cons.IH [OF ev(1) _ xs]) simp
  show ?case
  proof (cases "creates k a")
    case True
    with run_op_creates [OF Cons.prems(1) _ x] Cons.prems(2) have "k \<notin> held s" "k \<in> held s'" by simp_all
    with IH as True show ?thesis by simp
  next
    case False
    with IH as ev(2) show ?thesis by (auto split: if_splits)
  qed
qed simp

text \<open>
  A key that is held but not readable stays so: the claim operations answer an error for it for
  ever, so no client starts an effect under that key again.
\<close>

lemma blocked_op:
  assumes "ready s" and "claim_op_ok x" and k: "k \<in> held s" "stored s k = None" and run: "run_op port x s = (a, t)"
  shows "ready t \<and> k \<in> held t \<and> stored t k = None
     \<and> (\<forall>c. x = ClaimOp c \<and> claim_key_of c = k \<longrightarrow> (\<exists>e. a = ClaimAnswer (Inl e)))"
proof -
  from run_op_evolves [OF assms(2) run] assms(1) k(1) have t: "ready t" "k \<in> held t"
    by (auto simp: evolves_def)
  show ?thesis
  proof (cases x)
    case (ClaimOp c)
    with run obtain r where r: "a = ClaimAnswer r" "cp_claim port c s = (r, t)"
      by (auto simp: map_prod_def split: prod.splits)
    from assms(2) ClaimOp have ok: "claim_ok c" by simp
    show ?thesis
    proof (cases r)
      case (Inl e)
      with claim_refused [OF assms(1) ok] r(2) have "stored t = stored s
        \<or> (claim_key_of c \<notin> held s \<and> stored t = (stored s)(claim_key_of c := Some c))" by blast
      with k ClaimOp Inl r(1) t show ?thesis by auto
    next
      case (Inr v)
      then obtain made d where v: "r = Inr (made, d)" by (cases v) simp
      show ?thesis
      proof (cases made)
        case True
        with claim_created [OF assms(1) ok, of d t] v r(2) have "claim_key_of c \<notin> held s"
          "stored t = (stored s)(claim_key_of c := Some c)" by simp_all
        with k t ClaimOp show ?thesis by auto
      next
        case False
        with claim_existing [OF assms(1) ok, of d t] v r(2) have "stored s (claim_key_of c) = Some d"
          "stored t = stored s" by simp_all
        with k t ClaimOp show ?thesis by auto
      qed
    qed
  next
    case (UpdateOp c)
    with run obtain r where r: "cp_update port c s = (r, t)" by (auto simp: map_prod_def split: prod.splits)
    from assms(2) UpdateOp have ok: "claim_ok c" by simp
    have "stored t = stored s \<or> (\<exists>p. stored s (claim_key_of c) = Some p \<and> stored t = (stored s)(claim_key_of c := Some c))"
      using update_refused [OF assms(1) ok] update_done [OF assms(1) ok] r by (cases r) blast+
    with k t UpdateOp show ?thesis by auto
  next
    case (GetOp l)
    with run obtain r where "cp_get port l s = (r, t)" by (auto simp: map_prod_def split: prod.splits)
    with get_outcome [OF assms(1)] k t GetOp show ?thesis by auto
  next
    case (GetByIdOp org cid)
    with run obtain r where "cp_get_by_id port org cid s = (r, t)" by (auto simp: map_prod_def split: prod.splits)
    with get_by_id_outcome [OF assms(1)] k t GetByIdOp show ?thesis by auto
  qed
qed

lemma blocked_ops:
  "ready s \<Longrightarrow> list_all claim_op_ok xs \<Longrightarrow> k \<in> held s \<Longrightarrow> stored s k = None \<Longrightarrow> run_ops port xs s = (as, t) \<Longrightarrow>
     list_all2 (\<lambda>x a. \<forall>c. x = ClaimOp c \<and> claim_key_of c = k \<longrightarrow> (\<exists>e. a = ClaimAnswer (Inl e))) xs as"
proof (induction xs arbitrary: s as)
  case (Cons x xs)
  from Cons.prems(5) obtain a s' as' where x: "run_op port x s = (a, s')" and xs: "run_ops port xs s' = (as', t)"
    and as: "as = a # as'" by (auto split: prod.splits)
  from Cons.prems(2) have x_ok: "claim_op_ok x" and xs_ok: "list_all claim_op_ok xs" by simp_all
  note step = blocked_op [OF Cons.prems(1) x_ok Cons.prems(3,4) x]
  then have "list_all2 (\<lambda>x a. \<forall>c. x = ClaimOp c \<and> claim_key_of c = k \<longrightarrow> (\<exists>e. a = ClaimAnswer (Inl e))) xs as'"
    by (intro Cons.IH [OF _ xs_ok _ _ xs]) blast+
  with step as show ?case by simp
qed simp

end

end
