(* ===== verification/EffectExecutor.thy ===== *)
theory EffectExecutor
  imports EffectClaims EffectOutbox
begin

text \<open>
  The executor protocol of \<open>effects/executor.py\<close>: an executor is a record of its declaration and
  its five operations, and \<open>RecordingEffectExecutor\<close> is the implementation the file itself gives.
  Transport executors are other values of the same record.
\<close>

section \<open>Prepared effects and authorizations\<close>

text \<open>A prepared effect may carry a request of the older contract, which equals no dispatch request.\<close>

datatype prepared_request = DispatchRequest dispatch_request | ExecutionRequest

record prepared_effect =
  pf_request :: prepared_request
  pf_prepared_ref :: "string option"
  pf_observed_digest :: "string option"
  pf_expires_at :: "string option"

definition prepared_ref_ok :: "string \<Rightarrow> bool" where
  "prepared_ref_ok v \<longleftrightarrow> v \<noteq> [] \<and> length v \<le> 2048 \<and> v = strip v \<and> contains ''://'' v
     \<and> \<not> starts_any [''/'', ''~'', [CHR 0x5C]] v
     \<and> \<not> starts_any [''file://'', ''filesystem://'', ''data:''] (lower v)
     \<and> list_all (\<lambda>part. part \<noteq> ''.'' \<and> part \<noteq> ''..'') (split_on (CHR ''/'') v)"

definition prepared_effect_make :: "prepared_effect \<Rightarrow> prepared_effect result" where
  "prepared_effect_make p =
     (if opt_ok prepared_ref_ok (pf_prepared_ref p) \<and> opt_ok (\<lambda>d. d \<noteq> [] \<and> length d \<le> 128) (pf_observed_digest p)
      then Inr p else Inl ValidationError)"

record authorization =
  ea_allowed :: bool
  ea_safe_code :: string

section \<open>Executors\<close>

text \<open>\<open>authorize\<close> answers None when what it returned is no authorization.\<close>

record 's effect_executor =
  ex_kind :: effect_executor_kind
  ex_supports_prepare :: bool
  ex_supports_reconcile :: bool
  ex_prepare :: "dispatch_request \<Rightarrow> ('s, prepared_effect) eff"
  ex_authorize :: "prepared_effect \<Rightarrow> ('s, authorization option) eff"
  ex_apply :: "prepared_effect \<Rightarrow> ('s, execution_result) eff"
  ex_reconcile :: "effect_claim \<Rightarrow> ('s, execution_result) eff"
  ex_abort :: "prepared_effect \<Rightarrow> ('s, unit) eff"

section \<open>The recording executor\<close>

text \<open>Its configuration. A callback is a function of the calls recorded so far and its argument.\<close>

record recording =
  rec_kind :: effect_executor_kind
  rec_supports_prepare :: bool
  rec_supports_reconcile :: bool
  rec_prepare_result :: "prepared_effect option"
  rec_apply_result :: execution_result
  rec_reconcile_result :: execution_result
  rec_on_prepare :: "(string list \<Rightarrow> dispatch_request \<Rightarrow> prepared_effect result) option"
  rec_on_apply :: "(string list \<Rightarrow> prepared_effect \<Rightarrow> execution_result result) option"
  rec_on_reconcile :: "(string list \<Rightarrow> effect_claim \<Rightarrow> execution_result result) option"
  rec_on_authorize :: "(string list \<Rightarrow> prepared_effect \<Rightarrow> authorization option result) option"

definition recording_defaults :: "effect_executor_kind \<Rightarrow> recording" where
  "recording_defaults kind =
     \<lparr>rec_kind = kind, rec_supports_prepare = True, rec_supports_reconcile = True,
      rec_prepare_result = None,
      rec_apply_result = \<lparr>xr_outcome = APPLIED, xr_receipt_ref = None, xr_result_digest = None,
        xr_retryable = False, xr_safe_message = None, xr_row_results = None\<rparr>,
      rec_reconcile_result = \<lparr>xr_outcome = INDETERMINATE_OUTCOME, xr_receipt_ref = None, xr_result_digest = None,
        xr_retryable = False, xr_safe_message = None, xr_row_results = None\<rparr>,
      rec_on_prepare = None, rec_on_apply = None, rec_on_reconcile = None, rec_on_authorize = None\<rparr>"

record recorder_world = commit_world +
  rx_calls :: "string list"
  rx_prepared :: "dispatch_request list"
  rx_applied :: "prepared_effect list"
  rx_reconciled :: "effect_claim list"
  rx_aborted :: "prepared_effect list"
  rx_authorized :: "prepared_effect list"

definition recorder_prepare :: "recording \<Rightarrow> dispatch_request \<Rightarrow> ('z recorder_world_scheme, prepared_effect) eff" where
  "recorder_prepare x req = (\<lambda>w.
     let w' = w\<lparr>rx_calls := rx_calls w @ [''prepare''], rx_prepared := rx_prepared w @ [req]\<rparr> in
     (case rec_on_prepare x of
        Some f \<Rightarrow> f (rx_calls w') req
      | None \<Rightarrow> (case rec_prepare_result x of
          Some p \<Rightarrow> Inr p
        | None \<Rightarrow> prepared_effect_make
            \<lparr>pf_request = DispatchRequest req,
             pf_prepared_ref = Some (''prepared://effects/'' @ dr_stage_id req @ ''/'' @ dr_idempotency_key req),
             pf_observed_digest = None, pf_expires_at = None\<rparr>), w'))"

definition recorder_apply :: "recording \<Rightarrow> prepared_effect \<Rightarrow> ('z recorder_world_scheme, execution_result) eff" where
  "recorder_apply x p = (\<lambda>w.
     let w' = w\<lparr>rx_calls := rx_calls w @ [''apply''], rx_applied := rx_applied w @ [p]\<rparr> in
     (case rec_on_apply x of Some f \<Rightarrow> f (rx_calls w') p | None \<Rightarrow> Inr (rec_apply_result x), w'))"

definition recorder_authorize :: "recording \<Rightarrow> prepared_effect \<Rightarrow> ('z recorder_world_scheme, authorization option) eff" where
  "recorder_authorize x p = (\<lambda>w.
     let w' = w\<lparr>rx_calls := rx_calls w @ [''authorize''], rx_authorized := rx_authorized w @ [p]\<rparr> in
     (case rec_on_authorize x of
        Some f \<Rightarrow> f (rx_calls w') p
      | None \<Rightarrow> Inr (Some \<lparr>ea_allowed = True, ea_safe_code = ''authorized''\<rparr>), w'))"

definition recorder_reconcile :: "recording \<Rightarrow> effect_claim \<Rightarrow> ('z recorder_world_scheme, execution_result) eff" where
  "recorder_reconcile x c = (\<lambda>w.
     let w' = w\<lparr>rx_calls := rx_calls w @ [''reconcile''], rx_reconciled := rx_reconciled w @ [c]\<rparr> in
     (case rec_on_reconcile x of Some f \<Rightarrow> f (rx_calls w') c | None \<Rightarrow> Inr (rec_reconcile_result x), w'))"

definition recorder_abort :: "prepared_effect \<Rightarrow> ('z recorder_world_scheme, unit) eff" where
  "recorder_abort p = (\<lambda>w. (Inr (), w\<lparr>rx_calls := rx_calls w @ [''abort''], rx_aborted := rx_aborted w @ [p]\<rparr>))"

definition recording_executor :: "recording \<Rightarrow> 'z recorder_world_scheme effect_executor" where
  "recording_executor x =
     \<lparr>ex_kind = rec_kind x, ex_supports_prepare = rec_supports_prepare x,
      ex_supports_reconcile = rec_supports_reconcile x,
      ex_prepare = recorder_prepare x, ex_authorize = recorder_authorize x, ex_apply = recorder_apply x,
      ex_reconcile = recorder_reconcile x, ex_abort = recorder_abort\<rparr>"

section \<open>The registry\<close>

text \<open>
  \<open>effects/executor_registry.py\<close>: the closed map from executor kinds to factories over a
  verified scope. A factory may raise.
\<close>

type_synonym 's executor_registry =
  "(effect_executor_kind \<times> (execution_scope \<Rightarrow> 's effect_executor result)) list"

definition registry_make :: "'s executor_registry \<Rightarrow> 's executor_registry result" where
  "registry_make factories = (if factories = [] then Inl EffectExecutorRegistryError else Inr factories)"

definition registry_resolve ::
  "'s executor_registry \<Rightarrow> effect_executor_kind \<Rightarrow> execution_scope \<Rightarrow> 's effect_executor result" where
  "registry_resolve factories kind sc = (case map_of factories kind of
       None \<Rightarrow> Inl EffectExecutorRegistryError
     | Some factory \<Rightarrow>
         rbind (factory sc) (\<lambda>ex.
         rbind (require (ex_kind ex = kind) EffectExecutorRegistryError) (\<lambda>_. Inr ex)))"

definition registry_require :: "'s executor_registry \<Rightarrow> effect_executor_kind list \<Rightarrow> unit result" where
  "registry_require factories kinds =
     require (list_all (\<lambda>k. k \<in> set (map fst factories)) kinds) EffectExecutorRegistryError"

lemma registry_resolve_kind:
  "registry_resolve factories kind sc = Inr ex \<Longrightarrow>
     ex_kind ex = kind \<and> (\<exists>f. map_of factories kind = Some f \<and> f sc = Inr ex)"
  by (auto simp: registry_resolve_def rbind_Inr_iff split: option.splits)

end
