(* ===== verification/MemoryClaimStore.thy ===== *)
theory MemoryClaimStore
  imports ClaimPorts EffectExecutor "HOL-Library.AList"
begin

text \<open>
  \<open>runtime_adapters/in_memory/effect_claim_store.py\<close>: two dictionaries, by idempotency key and by
  claim id, behind one lock. A Python dictionary is an association list in insertion order;
  \<open>AList.update\<close> is its assignment. The interpretation shows that it keeps the store contract.
\<close>

record memory_world = recorder_world +
  mw_by_key :: "(claim_key \<times> effect_claim) list"
  mw_by_id :: "((string \<times> string) \<times> effect_claim) list"

definition put_claim :: "effect_claim \<Rightarrow> 'z memory_world_scheme \<Rightarrow> 'z memory_world_scheme" where
  "put_claim c w =
     w\<lparr>mw_by_key := AList.update (claim_key_of c) c (mw_by_key w),
       mw_by_id := AList.update (ec_org_id c, ec_claim_id c) c (mw_by_id w)\<rparr>"

definition memory_claim :: "effect_claim \<Rightarrow> ('z memory_world_scheme, bool \<times> effect_claim) eff" where
  "memory_claim c =
     bnd (lift (require_persistable c)) (\<lambda>_. \<lambda>w.
       case map_of (mw_by_key w) (claim_key_of c) of
         None \<Rightarrow> (Inr (True, c), put_claim c w)
       | Some existing \<Rightarrow>
           (if same_request_as existing c then Inr (False, existing) else Inl EffectClaimConflict, w))"

definition memory_get :: "claim_key \<Rightarrow> ('z memory_world_scheme, effect_claim option) eff" where
  "memory_get k = (\<lambda>w. (Inr (map_of (mw_by_key w) k), w))"

definition memory_get_by_id :: "string \<Rightarrow> string \<Rightarrow> ('z memory_world_scheme, effect_claim option) eff" where
  "memory_get_by_id org cid = (\<lambda>w. (Inr (map_of (mw_by_id w) (org, cid)), w))"

definition memory_update :: "effect_claim \<Rightarrow> ('z memory_world_scheme, effect_claim) eff" where
  "memory_update c = (\<lambda>w.
     case map_of (mw_by_key w) (claim_key_of c) of
       None \<Rightarrow> (Inl EffectClaimNotFound, w)
     | Some previous \<Rightarrow>
         if ec_claim_id previous \<noteq> ec_claim_id c then (Inl EffectClaimNotFound, w)
         else (case validate_claim_transition previous c of
             Inl e \<Rightarrow> (Inl e, w)
           | Inr _ \<Rightarrow> (Inr c, put_claim c w)))"

definition unresolved :: "effect_claim \<Rightarrow> bool" where
  "unresolved c \<longleftrightarrow> ec_state c = CLAIMED \<or> ec_state c = INDETERMINATE"

definition incomplete_page :: "string option \<Rightarrow> int \<Rightarrow> effect_claim list \<Rightarrow> effect_claim list" where
  "incomplete_page org limit cs =
     (if limit < 1 then []
      else take (nat limit) (sort_key (\<lambda>c. (ec_created_at c, ec_claim_id c))
             (filter (\<lambda>c. unresolved c \<and> (org = None \<or> org = Some (ec_org_id c))) cs)))"

definition memory_list_incomplete ::
  "string option \<Rightarrow> int \<Rightarrow> ('z memory_world_scheme, effect_claim list) eff" where
  "memory_list_incomplete org limit = (\<lambda>w. (Inr (incomplete_page org limit (map snd (mw_by_key w))), w))"

definition memory_claim_port :: "'z memory_world_scheme claim_port" where
  "memory_claim_port =
     \<lparr>cp_claim = memory_claim, cp_get = memory_get, cp_get_by_id = memory_get_by_id, cp_update = memory_update\<rparr>"

section \<open>The contract\<close>

definition memory_ready :: "'z memory_world_scheme \<Rightarrow> bool" where
  "memory_ready w \<longleftrightarrow>
     (\<forall>k c. map_of (mw_by_key w) k = Some c \<longrightarrow> claim_key_of c = k)
     \<and> (\<forall>org cid c. map_of (mw_by_id w) (org, cid) = Some c \<longrightarrow>
          ec_org_id c = org \<and> ec_claim_id c = cid \<and> map_of (mw_by_key w) (claim_key_of c) = Some c)"

definition memory_stored :: "'z memory_world_scheme \<Rightarrow> claim_key \<Rightarrow> effect_claim option" where
  "memory_stored w = map_of (mw_by_key w)"

definition memory_held :: "'z memory_world_scheme \<Rightarrow> claim_key set" where
  "memory_held w = dom (map_of (mw_by_key w))"

lemma put_claim_maps:
  "map_of (mw_by_key (put_claim c w)) = (map_of (mw_by_key w))(claim_key_of c := Some c)"
  "map_of (mw_by_id (put_claim c w)) = (map_of (mw_by_id w))((ec_org_id c, ec_claim_id c) := Some c)"
  by (simp_all add: put_claim_def update_conv')

lemma put_claim_ready:
  assumes "memory_ready w"
    and old: "\<And>p. map_of (mw_by_key w) (claim_key_of c) = Some p \<Longrightarrow> ec_claim_id p = ec_claim_id c"
  shows "memory_ready (put_claim c w)"
  unfolding memory_ready_def put_claim_maps
proof (intro conjI allI impI)
  fix k d
  assume "((map_of (mw_by_key w))(claim_key_of c := Some c)) k = Some d"
  with assms(1) show "claim_key_of d = k" unfolding memory_ready_def by (metis fun_upd_apply option.inject)
next
  fix org cid d
  assume d: "((map_of (mw_by_id w))((ec_org_id c, ec_claim_id c) := Some c)) (org, cid) = Some d"
  have "ec_org_id d = org \<and> ec_claim_id d = cid
      \<and> ((map_of (mw_by_key w))(claim_key_of c := Some c)) (claim_key_of d) = Some d"
  proof (cases "(org, cid) = (ec_org_id c, ec_claim_id c)")
    case True
    with d show ?thesis by simp
  next
    case False
    with d have "map_of (mw_by_id w) (org, cid) = Some d" by (metis fun_upd_apply)
    with assms(1) have at: "ec_org_id d = org" "ec_claim_id d = cid" "map_of (mw_by_key w) (claim_key_of d) = Some d"
      unfolding memory_ready_def by blast+
    have "claim_key_of d \<noteq> claim_key_of c"
    proof
      assume same: "claim_key_of d = claim_key_of c"
      with at(3) old have "ec_claim_id d = ec_claim_id c" by simp
      moreover from same have "ec_org_id d = ec_org_id c" by (simp add: claim_key_of_def)
      ultimately show False using False at by simp
    qed
    with at show ?thesis by simp
  qed
  then show "ec_org_id d = org" and "ec_claim_id d = cid"
    and "((map_of (mw_by_key w))(claim_key_of c := Some c)) (claim_key_of d) = Some d" by blast+
qed

lemma memory_claim_cases:
  assumes "memory_claim c w = (r, w')"
  obtains (refused) e where "r = Inl e" and "w' = w"
        | (created) "r = Inr (True, c)" and "w' = put_claim c w" and "map_of (mw_by_key w) (claim_key_of c) = None"
        | (existing) d where "r = Inr (False, d)" and "w' = w"
            and "map_of (mw_by_key w) (claim_key_of c) = Some d" and "same_request_as d c"
  using assms
  by (cases "ec_content_ref c = None"; cases "map_of (mw_by_key w) (claim_key_of c)")
     (auto simp: memory_claim_def require_persistable_def require_def eff_simps split: if_splits)

lemma memory_update_cases:
  assumes "memory_update c w = (r, w')"
  obtains (refused) e where "r = Inl e" and "w' = w"
        | (updated) p where "r = Inr c" and "w' = put_claim c w"
            and "map_of (mw_by_key w) (claim_key_of c) = Some p" and "ec_claim_id p = ec_claim_id c"
            and "validate_claim_transition p c = Inr ()"
proof (cases "map_of (mw_by_key w) (claim_key_of c)")
  case None
  with assms refused show thesis by (auto simp: memory_update_def)
next
  case (Some p)
  with assms refused updated show thesis
    by (cases "validate_claim_transition p c"; cases "ec_claim_id p = ec_claim_id c")
       (auto simp: memory_update_def)
qed

interpretation mc: claim_store memory_claim_port memory_stored memory_held memory_ready
proof (unfold_locales, unfold memory_claim_port_def claim_port.simps memory_stored_def memory_held_def)
  fix s t :: "'z memory_world_scheme" and k c d org cid claimed found looked_up updated e
  assume ready: "memory_ready s"
  show "k \<in> dom (map_of (mw_by_key s)) \<and> claim_key_of c = k" if "map_of (mw_by_key s) k = Some c"
    using ready that unfolding memory_ready_def by blast
  show "memory_ready t \<and> dom (map_of (mw_by_key s)) \<subseteq> dom (map_of (mw_by_key t))"
    if "memory_claim c s = (claimed, t)"
    using that by (cases rule: memory_claim_cases) (auto simp: ready put_claim_maps intro!: put_claim_ready)
  show "d = c \<and> claim_key_of c \<notin> dom (map_of (mw_by_key s)) \<and> claim_key_of c \<in> dom (map_of (mw_by_key t))
      \<and> map_of (mw_by_key t) = (map_of (mw_by_key s))(claim_key_of c := Some c)"
    if "memory_claim c s = (Inr (True, d), t)"
    using that by (cases rule: memory_claim_cases) (auto simp: put_claim_maps)
  show "map_of (mw_by_key s) (claim_key_of c) = Some d \<and> same_request_as d c
      \<and> map_of (mw_by_key t) = map_of (mw_by_key s)"
    if "memory_claim c s = (Inr (False, d), t)"
    using that by (cases rule: memory_claim_cases) auto
  show "map_of (mw_by_key t) = map_of (mw_by_key s) \<or> (claim_key_of c \<notin> dom (map_of (mw_by_key s))
      \<and> map_of (mw_by_key t) = (map_of (mw_by_key s))(claim_key_of c := Some c))"
    if "memory_claim c s = (Inl e, t)"
    using that by (cases rule: memory_claim_cases) auto
  show "memory_ready t \<and> map_of (mw_by_key t) = map_of (mw_by_key s)
      \<and> dom (map_of (mw_by_key t)) = dom (map_of (mw_by_key s))
      \<and> (found = Inr None \<longrightarrow> k \<notin> dom (map_of (mw_by_key s)))
      \<and> (\<forall>c. found = Inr (Some c) \<longrightarrow> map_of (mw_by_key s) k = Some c)"
    if "memory_get k s = (found, t)"
    using that ready by (auto simp: memory_get_def)
  show "memory_ready t \<and> map_of (mw_by_key t) = map_of (mw_by_key s)
      \<and> dom (map_of (mw_by_key t)) = dom (map_of (mw_by_key s))
      \<and> (\<forall>c. looked_up = Inr (Some c) \<longrightarrow> map_of (mw_by_key s) (claim_key_of c) = Some c
            \<and> ec_org_id c = org \<and> ec_claim_id c = cid)"
    if "memory_get_by_id org cid s = (looked_up, t)"
    using that ready unfolding memory_get_by_id_def memory_ready_def by blast
  show "memory_ready t \<and> dom (map_of (mw_by_key t)) = dom (map_of (mw_by_key s))"
    if "memory_update c s = (updated, t)"
    using that
  proof (cases rule: memory_update_cases)
    case (updated p)
    moreover have "memory_ready (put_claim c s)" by (rule put_claim_ready [OF ready]) (simp add: updated)
    ultimately show ?thesis by (auto simp: put_claim_maps)
  qed (use ready in simp)
  show "d = c \<and> (\<exists>p. map_of (mw_by_key s) (claim_key_of c) = Some p \<and> validate_claim_transition p c = Inr ())
      \<and> map_of (mw_by_key t) = (map_of (mw_by_key s))(claim_key_of c := Some c)"
    if "memory_update c s = (Inr d, t)"
    using that by (cases rule: memory_update_cases) (auto simp: put_claim_maps)
  show "map_of (mw_by_key t) = map_of (mw_by_key s)
      \<or> ((\<exists>p. map_of (mw_by_key s) (claim_key_of c) = Some p \<and> validate_claim_transition p c = Inr ())
         \<and> map_of (mw_by_key t) = (map_of (mw_by_key s))(claim_key_of c := Some c))"
    if "memory_update c s = (Inl e, t)"
    using that by (cases rule: memory_update_cases) auto
qed

end
