(* ===== verification/FileClaimStore.thy ===== *)
theory FileClaimStore
  imports MemoryClaimStore
begin

text \<open>
  \<open>runtime_adapters/file/effect_claim_store.py\<close>: one file per idempotency identity, named by its
  SHA-256 and created exclusively. The host may fail an operation at any point: every operation
  draws a fault from the state; a create that fails after the exclusive open leaves the file
  behind, whole or torn, and an operation whose lock cannot be released has done its work but
  answers an error. The file is keyed by its name alone (the directory is fixed), its content
  is the record it parses to, or \<open>TornFile\<close> when it parses to none.
\<close>

section \<open>The directory and its faults\<close>

datatype claim_file = TornFile | ClaimFile claim_record

datatype file_fault = NoFault | LockFails | ReadFails | OpenFails | WriteTorn | WriteKept | ReleaseFails

record file_world = recorder_world +
  fw_files :: "(string \<times> claim_file) list"
  fw_faults :: "nat \<Rightarrow> file_fault"
  fw_ops :: nat

definition with_lock :: "(file_fault \<Rightarrow> ('z file_world_scheme, 'a) eff) \<Rightarrow> ('z file_world_scheme, 'a) eff" where
  "with_lock body = (\<lambda>w.
     let fault = fw_faults w (fw_ops w);
         w' = w\<lparr>fw_ops := Suc (fw_ops w)\<rparr>
     in if fault = LockFails then (Inl EffectClaimStorageError, w')
        else if fault = ReleaseFails then (Inl EffectClaimStorageError, snd (body fault w'))
        else body fault w')"

definition path_for :: "(string \<Rightarrow> string) \<Rightarrow> claim_key \<Rightarrow> string" where
  "path_for hash k = (case k of (org, executor, key) \<Rightarrow>
     hash (org @ CHR 0x00 # executor_kind_value executor @ CHR 0x00 # key) @ ''.json'')"

definition put_file :: "string \<Rightarrow> claim_file \<Rightarrow> 'z file_world_scheme \<Rightarrow> 'z file_world_scheme" where
  "put_file p content w = w\<lparr>fw_files := AList.update p content (fw_files w)\<rparr>"

section \<open>Reading\<close>

definition parse_file :: "claim_file \<Rightarrow> effect_claim result" where
  "parse_file content = (case content of
       TornFile \<Rightarrow> Inl EffectClaimStorageError
     | ClaimFile r \<Rightarrow> (case read_record r of Inl _ \<Rightarrow> Inl EffectClaimStorageError | Inr c \<Rightarrow> Inr c))"

definition read_file :: "file_fault \<Rightarrow> claim_file \<Rightarrow> effect_claim result" where
  "read_file fault content =
     (if fault = ReadFails then Inl EffectClaimStorageError else parse_file content)"

definition read_expected :: "file_fault \<Rightarrow> claim_file \<Rightarrow> claim_key \<Rightarrow> effect_claim result" where
  "read_expected fault content k =
     rbind (read_file fault content) (\<lambda>c.
     if claim_key_of c \<noteq> k then Inl EffectClaimStorageError else Inr c)"

definition read_expected_or_none ::
  "(string \<Rightarrow> string) \<Rightarrow> file_fault \<Rightarrow> claim_key \<Rightarrow> 'z file_world_scheme \<Rightarrow> effect_claim option result" where
  "read_expected_or_none hash fault k w =
     (case map_of (fw_files w) (path_for hash k) of
        None \<Rightarrow> Inr None
      | Some content \<Rightarrow> rbind (read_expected fault content k) (\<lambda>c. Inr (Some c)))"

fun find_claim :: "file_fault \<Rightarrow> string \<Rightarrow> string \<Rightarrow> (string \<times> claim_file) list \<Rightarrow> effect_claim option result" where
  "find_claim fault org cid [] = Inr None"
| "find_claim fault org cid ((p, content) # files) =
     rbind (read_file fault content) (\<lambda>c.
     if ec_org_id c = org \<and> ec_claim_id c = cid then Inr (Some c) else find_claim fault org cid files)"

section \<open>The operations\<close>

definition claim_locked ::
  "(string \<Rightarrow> string) \<Rightarrow> effect_claim \<Rightarrow> file_fault \<Rightarrow> ('z file_world_scheme, bool \<times> effect_claim) eff" where
  "claim_locked hash c fault = (\<lambda>w.
     let p = path_for hash (claim_key_of c) in
     if fault = OpenFails then (Inl EffectClaimStorageError, w)
     else (case map_of (fw_files w) p of
         Some content \<Rightarrow>
           (rbind (read_expected fault content (claim_key_of c)) (\<lambda>existing.
            if same_request_as existing c then Inr (False, existing) else Inl EffectClaimConflict), w)
       | None \<Rightarrow>
           if fault = WriteTorn then (Inl EffectClaimStorageError, put_file p TornFile w)
           else if fault = WriteKept
           then (Inl EffectClaimStorageError, put_file p (ClaimFile (CurrentRecord c)) w)
           else (Inr (True, c), put_file p (ClaimFile (CurrentRecord c)) w)))"

definition file_claim :: "(string \<Rightarrow> string) \<Rightarrow> effect_claim \<Rightarrow> ('z file_world_scheme, bool \<times> effect_claim) eff" where
  "file_claim hash c = bnd (lift (require_persistable c)) (\<lambda>_. with_lock (claim_locked hash c))"

definition file_get :: "(string \<Rightarrow> string) \<Rightarrow> claim_key \<Rightarrow> ('z file_world_scheme, effect_claim option) eff" where
  "file_get hash k = with_lock (\<lambda>fault w. (read_expected_or_none hash fault k w, w))"

definition file_get_by_id :: "string \<Rightarrow> string \<Rightarrow> ('z file_world_scheme, effect_claim option) eff" where
  "file_get_by_id org cid = with_lock (\<lambda>fault w. (find_claim fault org cid (sort_key fst (fw_files w)), w))"

definition update_locked ::
  "(string \<Rightarrow> string) \<Rightarrow> effect_claim \<Rightarrow> file_fault \<Rightarrow> ('z file_world_scheme, effect_claim) eff" where
  "update_locked hash c fault = (\<lambda>w.
     case read_expected_or_none hash fault (claim_key_of c) w of
       Inl e \<Rightarrow> (Inl e, w)
     | Inr None \<Rightarrow> (Inl EffectClaimNotFound, w)
     | Inr (Some previous) \<Rightarrow>
         if ec_claim_id previous \<noteq> ec_claim_id c then (Inl EffectClaimNotFound, w)
         else (case validate_claim_transition previous c of
             Inl e \<Rightarrow> (Inl e, w)
           | Inr _ \<Rightarrow>
               if fault \<in> {OpenFails, WriteTorn, WriteKept} then (Inl EffectClaimStorageError, w)
               else (Inr c, put_file (path_for hash (claim_key_of c)) (ClaimFile (CurrentRecord c)) w)))"

definition file_update :: "(string \<Rightarrow> string) \<Rightarrow> effect_claim \<Rightarrow> ('z file_world_scheme, effect_claim) eff" where
  "file_update hash c = with_lock (update_locked hash c)"

definition file_list_incomplete :: "string option \<Rightarrow> int \<Rightarrow> ('z file_world_scheme, effect_claim list) eff" where
  "file_list_incomplete org limit =
     (if limit < 1 then ret []
      else with_lock (\<lambda>fault w.
        (rbind (rmap (\<lambda>(p, content). read_file fault content) (sort_key fst (fw_files w))) (\<lambda>cs.
         Inr (incomplete_page org limit cs)), w)))"

definition file_claim_port :: "(string \<Rightarrow> string) \<Rightarrow> 'z file_world_scheme claim_port" where
  "file_claim_port hash =
     \<lparr>cp_claim = file_claim hash, cp_get = file_get hash, cp_get_by_id = file_get_by_id,
      cp_update = file_update hash\<rparr>"

section \<open>The contract\<close>

definition file_stored :: "(string \<Rightarrow> string) \<Rightarrow> 'z file_world_scheme \<Rightarrow> claim_key \<Rightarrow> effect_claim option" where
  "file_stored hash w k =
     (case map_of (fw_files w) (path_for hash k) of
        None \<Rightarrow> None
      | Some content \<Rightarrow> (case parse_file content of
            Inl _ \<Rightarrow> None | Inr c \<Rightarrow> if claim_key_of c = k then Some c else None))"

definition file_held :: "(string \<Rightarrow> string) \<Rightarrow> 'z file_world_scheme \<Rightarrow> claim_key set" where
  "file_held hash w = {k. map_of (fw_files w) (path_for hash k) \<noteq> None}"

definition file_ready :: "(string \<Rightarrow> string) \<Rightarrow> 'z file_world_scheme \<Rightarrow> bool" where
  "file_ready hash w \<longleftrightarrow> distinct (map fst (fw_files w))
     \<and> (\<forall>p content c. map_of (fw_files w) p = Some content \<and> parse_file content = Inr c
          \<longrightarrow> path_for hash (claim_key_of c) = p)"

lemma ops_simps [simp]:
  "file_stored hash (w\<lparr>fw_ops := n\<rparr>) = file_stored hash w"
  "file_held hash (w\<lparr>fw_ops := n\<rparr>) = file_held hash w"
  "file_ready hash (w\<lparr>fw_ops := n\<rparr>) = file_ready hash w"
  by (simp_all add: file_stored_def file_held_def file_ready_def fun_eq_iff)

lemma parse_simps [simp]:
  "parse_file (ClaimFile (CurrentRecord c)) = (if claim_ok c then Inr c else Inl EffectClaimStorageError)"
  "parse_file TornFile = Inl EffectClaimStorageError"
  by (simp_all add: parse_file_def effect_claim_make_def)

lemma read_file_Inr: "read_file fault content = Inr c \<longleftrightarrow> fault \<noteq> ReadFails \<and> parse_file content = Inr c"
  by (auto simp: read_file_def)

lemma put_file_map: "map_of (fw_files (put_file p content w)) = (map_of (fw_files w))(p := Some content)"
  by (simp add: put_file_def update_conv')

lemma put_current_stored:
  assumes "claim_ok c" and "map_of (fw_files w) (path_for hash (claim_key_of c)) = None
      \<or> file_stored hash w (claim_key_of c) \<noteq> None"
  shows "file_stored hash (put_file (path_for hash (claim_key_of c)) (ClaimFile (CurrentRecord c)) w)
     = (file_stored hash w)(claim_key_of c := Some c)"
proof
  fix k
  show "file_stored hash (put_file (path_for hash (claim_key_of c)) (ClaimFile (CurrentRecord c)) w) k
     = ((file_stored hash w)(claim_key_of c := Some c)) k"
    using assms by (auto simp: file_stored_def put_file_map split: option.splits sum.splits if_splits)
qed

lemma put_torn_stored:
  assumes "map_of (fw_files w) p = None"
  shows "file_stored hash (put_file p TornFile w) = file_stored hash w"
  using assms by (auto simp: file_stored_def put_file_map fun_eq_iff)

lemma put_file_held: "file_held hash w \<subseteq> file_held hash (put_file p content w)"
  by (auto simp: file_held_def put_file_map)

lemma put_file_ready:
  assumes "file_ready hash w" and "\<And>c. parse_file content = Inr c \<Longrightarrow> path_for hash (claim_key_of c) = p"
  shows "file_ready hash (put_file p content w)"
  using assms unfolding file_ready_def put_file_map
  by (auto simp: put_file_def distinct_update split: if_splits)

lemma read_expected_Inr:
  "read_expected fault content k = Inr c \<longleftrightarrow> fault \<noteq> ReadFails \<and> parse_file content = Inr c \<and> claim_key_of c = k"
  by (auto simp: read_expected_def rbind_Inr_iff read_file_Inr split: if_splits)

lemma read_expected_or_none_Inr:
  "read_expected_or_none hash fault k w = Inr None \<Longrightarrow> k \<notin> file_held hash w"
  "read_expected_or_none hash fault k w = Inr (Some c) \<Longrightarrow> file_stored hash w k = Some c"
  by (auto simp: read_expected_or_none_def file_held_def file_stored_def rbind_Inr_iff read_expected_Inr
      split: option.splits)

lemma find_claim_Inr:
  "find_claim fault org cid files = Inr (Some c) \<Longrightarrow>
     (\<exists>f \<in> set files. parse_file (snd f) = Inr c) \<and> ec_org_id c = org \<and> ec_claim_id c = cid"
proof (induction files)
  case (Cons f files)
  obtain p content where f: "f = (p, content)" by (cases f)
  from Cons.prems obtain d where "parse_file content = Inr d"
    and "(if ec_org_id d = org \<and> ec_claim_id d = cid then Inr (Some d) else find_claim fault org cid files) = Inr (Some c)"
    by (auto simp: f rbind_Inr_iff read_file_Inr)
  with Cons.IH show ?case by (cases "ec_org_id d = org \<and> ec_claim_id d = cid") (auto simp: f)
qed simp

lemma with_lock_cases:
  assumes "with_lock body w = (r, w')"
  obtains (failed) "r = Inl EffectClaimStorageError" and "w' = w\<lparr>fw_ops := Suc (fw_ops w)\<rparr>"
        | (locked) fault r' where "body fault (w\<lparr>fw_ops := Suc (fw_ops w)\<rparr>) = (r', w')"
            and "r = r' \<or> r = Inl EffectClaimStorageError"
proof -
  let ?w = "w\<lparr>fw_ops := Suc (fw_ops w)\<rparr>" and ?f = "fw_faults w (fw_ops w)"
  consider "?f = LockFails" | "?f = ReleaseFails" | "?f \<notin> {LockFails, ReleaseFails}" by blast
  then show thesis
  proof cases
    case 1
    with assms have "r = Inl EffectClaimStorageError" "w' = ?w" by (simp_all add: with_lock_def Let_def)
    then show thesis by (rule failed)
  next
    case 2
    with assms have "r = Inl EffectClaimStorageError" "w' = snd (body ?f ?w)" by (simp_all add: with_lock_def Let_def)
    then show thesis by (intro locked [of ?f "fst (body ?f ?w)"]) simp_all
  next
    case 3
    with assms have "body ?f ?w = (r, w')" by (simp add: with_lock_def Let_def)
    then show thesis by (rule locked) simp
  qed
qed

lemma claim_locked_cases:
  assumes "claim_locked hash c fault w = (r, w')"
  obtains (refused) e where "r = Inl e" and "w' = w"
        | (torn) e where "r = Inl e" and "map_of (fw_files w) (path_for hash (claim_key_of c)) = None"
            and "w' = put_file (path_for hash (claim_key_of c)) TornFile w"
        | (written) "r = Inr (True, c) \<or> (\<exists>e. r = Inl e)"
            and "map_of (fw_files w) (path_for hash (claim_key_of c)) = None"
            and "w' = put_file (path_for hash (claim_key_of c)) (ClaimFile (CurrentRecord c)) w"
        | (existing) d content where "r = Inr (False, d)" and "w' = w"
            and "map_of (fw_files w) (path_for hash (claim_key_of c)) = Some content"
            and "parse_file content = Inr d" and "claim_key_of d = claim_key_of c" and "same_request_as d c"
proof (cases "map_of (fw_files w) (path_for hash (claim_key_of c))")
  case None
  note run = assms [unfolded claim_locked_def Let_def None option.case prod.inject]
  consider "fault = OpenFails" | "fault = WriteTorn" | "fault = WriteKept"
    | "fault \<notin> {OpenFails, WriteTorn, WriteKept}" by blast
  then show thesis
  proof cases
    case 1
    with run have "r = Inl EffectClaimStorageError" "w' = w" by simp_all
    then show thesis by (rule refused)
  next
    case 2
    with run None show thesis by (intro torn [of EffectClaimStorageError]) simp_all
  next
    case 3
    with run None show thesis by (intro written) auto
  next
    case 4
    with run None show thesis by (intro written) simp_all
  qed
next
  case (Some content)
  show thesis
  proof (cases "read_expected fault content (claim_key_of c)")
    case (Inl e)
    with assms Some have "(\<exists>e. r = Inl e) \<and> w' = w"
      by (cases "fault = OpenFails") (auto simp: claim_locked_def Let_def)
    then show thesis using refused by blast
  next
    case (Inr d)
    then have d: "parse_file content = Inr d" "claim_key_of d = claim_key_of c" by (simp_all add: read_expected_Inr)
    have "((\<exists>e. r = Inl e) \<or> (r = Inr (False, d) \<and> same_request_as d c)) \<and> w' = w"
      using assms Some Inr
      by (cases "fault = OpenFails"; cases "same_request_as d c") (auto simp: claim_locked_def Let_def)
    then show thesis using refused existing [OF _ _ Some d] by blast
  qed
qed

lemma update_locked_cases:
  assumes "update_locked hash c fault w = (r, w')"
  obtains (refused) e where "r = Inl e" and "w' = w"
        | (updated) p where "r = Inr c" and "file_stored hash w (claim_key_of c) = Some p"
            and "validate_claim_transition p c = Inr ()"
            and "w' = put_file (path_for hash (claim_key_of c)) (ClaimFile (CurrentRecord c)) w"
proof -
  have "(\<exists>e. r = Inl e) \<and> w' = w
     \<or> (\<exists>p. r = Inr c \<and> file_stored hash w (claim_key_of c) = Some p \<and> validate_claim_transition p c = Inr ()
          \<and> w' = put_file (path_for hash (claim_key_of c)) (ClaimFile (CurrentRecord c)) w)"
  proof (cases "read_expected_or_none hash fault (claim_key_of c) w")
    case (Inl e)
    with assms show ?thesis by (auto simp: update_locked_def)
  next
    case (Inr v)
    show ?thesis
    proof (cases v)
      case None
      with Inr assms show ?thesis by (auto simp: update_locked_def)
    next
      case (Some p)
      with Inr have "file_stored hash w (claim_key_of c) = Some p" by (simp add: read_expected_or_none_Inr)
      with Inr Some assms show ?thesis
        by (cases "validate_claim_transition p c"; cases "ec_claim_id p = ec_claim_id c";
            cases "fault \<in> {OpenFails, WriteTorn, WriteKept}") (auto simp: update_locked_def)
    qed
  qed
  then show thesis using refused updated by blast
qed

lemma read_expected_or_none_find:
  "with_lock (\<lambda>fault w. (g fault w, w)) w = (r, w') \<Longrightarrow>
     w' = w\<lparr>fw_ops := Suc (fw_ops w)\<rparr> \<and> ((\<exists>e. r = Inl e) \<or> (\<exists>fault. r = g fault (w\<lparr>fw_ops := Suc (fw_ops w)\<rparr>)))"
  by (auto simp: with_lock_def Let_def split: if_splits)

lemma file_claim_run:
  assumes "file_claim hash c w = (r, w')"
  shows "(\<exists>e. r = Inl e \<and> w' = w) \<or> (\<exists>e. r = Inl e \<and> w' = w\<lparr>fw_ops := Suc (fw_ops w)\<rparr>)
     \<or> (\<exists>fault r'. claim_locked hash c fault (w\<lparr>fw_ops := Suc (fw_ops w)\<rparr>) = (r', w') \<and> (r = r' \<or> (\<exists>e. r = Inl e)))"
  using assms unfolding file_claim_def
proof (cases rule: bnd_liftE)
  case (returned a)
  from returned(2) show ?thesis by (cases rule: with_lock_cases) blast+
qed simp

lemma current_path: "parse_file (ClaimFile (CurrentRecord c)) = Inr d \<Longrightarrow> d = c"
  by (simp split: if_splits)

text \<open>What a claim operation does to the directory, whatever it answers.\<close>

lemma claim_locked_effect:
  assumes "file_ready hash w" and "claim_ok c" and "claim_locked hash c fault w = (r, w')"
  shows "file_ready hash w' \<and> file_held hash w \<subseteq> file_held hash w'
     \<and> (file_stored hash w' = file_stored hash w
        \<or> (claim_key_of c \<notin> file_held hash w \<and> file_stored hash w' = (file_stored hash w)(claim_key_of c := Some c)))
     \<and> (case r of
          Inr (True, d) \<Rightarrow> d = c \<and> claim_key_of c \<notin> file_held hash w \<and> claim_key_of c \<in> file_held hash w'
            \<and> file_stored hash w' = (file_stored hash w)(claim_key_of c := Some c)
        | Inr (False, d) \<Rightarrow> file_stored hash w (claim_key_of c) = Some d \<and> same_request_as d c
            \<and> file_stored hash w' = file_stored hash w
        | Inl e \<Rightarrow> True)"
  using assms(3)
proof (cases rule: claim_locked_cases)
  case (refused e)
  with assms(1) show ?thesis by simp
next
  case (torn e)
  have "file_ready hash (put_file (path_for hash (claim_key_of c)) TornFile w)"
    by (rule put_file_ready [OF assms(1)]) simp
  with torn put_torn_stored [OF torn(2), of hash] put_file_held [of hash w] show ?thesis by simp
next
  case written
  let ?p = "path_for hash (claim_key_of c)" and ?f = "ClaimFile (CurrentRecord c)"
  have "file_ready hash (put_file ?p ?f w)"
    by (rule put_file_ready [OF assms(1)]) (simp split: if_splits)
  moreover have "claim_key_of c \<notin> file_held hash w" "claim_key_of c \<in> file_held hash (put_file ?p ?f w)"
    using written(2) by (simp_all add: file_held_def put_file_map)
  moreover have "file_stored hash (put_file ?p ?f w) = (file_stored hash w)(claim_key_of c := Some c)"
    using put_current_stored [of c w hash] assms(2) written(2) by simp
  ultimately show ?thesis using written(1,3) put_file_held [of hash w ?p ?f] by (elim disjE) auto
next
  case (existing d content)
  then have "file_stored hash w (claim_key_of c) = Some d" by (simp add: file_stored_def)
  with existing assms(1) show ?thesis by simp
qed

lemma file_claim_effect:
  assumes "file_ready hash w" and "claim_ok c" and "file_claim hash c w = (r, w')"
  shows "file_ready hash w' \<and> file_held hash w \<subseteq> file_held hash w'
     \<and> (file_stored hash w' = file_stored hash w
        \<or> (claim_key_of c \<notin> file_held hash w \<and> file_stored hash w' = (file_stored hash w)(claim_key_of c := Some c)))
     \<and> (case r of
          Inr (True, d) \<Rightarrow> d = c \<and> claim_key_of c \<notin> file_held hash w \<and> claim_key_of c \<in> file_held hash w'
            \<and> file_stored hash w' = (file_stored hash w)(claim_key_of c := Some c)
        | Inr (False, d) \<Rightarrow> file_stored hash w (claim_key_of c) = Some d \<and> same_request_as d c
            \<and> file_stored hash w' = file_stored hash w
        | Inl e \<Rightarrow> True)"
  using file_claim_run [OF assms(3)]
proof (elim disjE exE conjE)
  fix fault r'
  assume "claim_locked hash c fault (w\<lparr>fw_ops := Suc (fw_ops w)\<rparr>) = (r', w')"
  note locked = claim_locked_effect [OF _ assms(2) this, unfolded ops_simps, OF assms(1)]
  {
    assume "r = r'"
    with locked show ?thesis by simp
  next
    fix e
    assume "r = Inl e"
    with locked show ?thesis by simp
  }
qed (use assms(1) in simp_all)

lemma update_locked_effect:
  assumes "file_ready hash w" and "claim_ok c" and "update_locked hash c fault w = (r, w')"
  shows "file_ready hash w' \<and> file_held hash w' = file_held hash w
     \<and> (case r of
          Inl e \<Rightarrow> file_stored hash w' = file_stored hash w
        | Inr d \<Rightarrow> d = c \<and> (\<exists>p. file_stored hash w (claim_key_of c) = Some p
              \<and> validate_claim_transition p c = Inr ())
            \<and> file_stored hash w' = (file_stored hash w)(claim_key_of c := Some c))"
  using assms(3)
proof (cases rule: update_locked_cases)
  case (refused e)
  with assms(1) show ?thesis by simp
next
  case (updated p)
  let ?p = "path_for hash (claim_key_of c)" and ?f = "ClaimFile (CurrentRecord c)"
  have "file_ready hash (put_file ?p ?f w)"
    by (rule put_file_ready) (use assms(1) in \<open>simp_all split: if_splits\<close>)
  moreover have "file_held hash (put_file ?p ?f w) = file_held hash w"
    using updated(2) by (auto simp: file_held_def put_file_map file_stored_def split: option.splits if_splits)
  moreover have "file_stored hash (put_file ?p ?f w) = (file_stored hash w)(claim_key_of c := Some c)"
    using put_current_stored [of c w hash] assms(2) updated(2) by simp
  ultimately show ?thesis using updated by auto
qed

lemma file_update_effect:
  assumes "file_ready hash w" and "claim_ok c" and "file_update hash c w = (r, w')"
  shows "file_ready hash w' \<and> file_held hash w' = file_held hash w
     \<and> (file_stored hash w' = file_stored hash w
        \<or> ((\<exists>p. file_stored hash w (claim_key_of c) = Some p \<and> validate_claim_transition p c = Inr ())
           \<and> file_stored hash w' = (file_stored hash w)(claim_key_of c := Some c)))
     \<and> (\<forall>d. r = Inr d \<longrightarrow> d = c \<and> (\<exists>p. file_stored hash w (claim_key_of c) = Some p
              \<and> validate_claim_transition p c = Inr ())
            \<and> file_stored hash w' = (file_stored hash w)(claim_key_of c := Some c))"
  using assms(3) unfolding file_update_def
proof (cases rule: with_lock_cases)
  case failed
  with assms(1) show ?thesis by simp
next
  case (locked fault r')
  from update_locked_effect [OF _ assms(2) locked(1), unfolded ops_simps, OF assms(1)] have "file_ready hash w' \<and> file_held hash w' = file_held hash w
     \<and> (case r' of
          Inl e \<Rightarrow> file_stored hash w' = file_stored hash w
        | Inr d \<Rightarrow> d = c \<and> (\<exists>p. file_stored hash w (claim_key_of c) = Some p
              \<and> validate_claim_transition p c = Inr ())
            \<and> file_stored hash w' = (file_stored hash w)(claim_key_of c := Some c))" .
  with locked(2) show ?thesis by (cases r'; elim disjE) simp_all
qed

lemma file_stored_member:
  assumes "file_ready hash w" and "(p, content) \<in> set (fw_files w)" and "parse_file content = Inr c"
  shows "file_stored hash w (claim_key_of c) = Some c"
proof -
  from assms(1,2) have "map_of (fw_files w) p = Some content" by (simp add: file_ready_def)
  with assms(1,3) show ?thesis unfolding file_ready_def file_stored_def by auto
qed

interpretation fc: claim_store "file_claim_port hash" "file_stored hash" "file_held hash" "file_ready hash" for hash
proof (unfold_locales, unfold file_claim_port_def claim_port.simps)
  fix s t :: "'z file_world_scheme" and k c d org cid claimed found looked_up updated e
  assume ready: "file_ready hash s"
  show "k \<in> file_held hash s \<and> claim_key_of c = k" if "file_stored hash s k = Some c"
    using that by (auto simp: file_stored_def file_held_def split: option.splits sum.splits if_splits)
  show "file_ready hash t \<and> file_stored hash t = file_stored hash s \<and> file_held hash t = file_held hash s
      \<and> (found = Inr None \<longrightarrow> k \<notin> file_held hash s)
      \<and> (\<forall>c. found = Inr (Some c) \<longrightarrow> file_stored hash s k = Some c)"
    if "file_get hash k s = (found, t)"
    using read_expected_or_none_find [OF that [unfolded file_get_def]] ready
      read_expected_or_none_Inr [of hash _ k "s\<lparr>fw_ops := Suc (fw_ops s)\<rparr>"] by auto
  show "file_ready hash t \<and> file_stored hash t = file_stored hash s \<and> file_held hash t = file_held hash s
      \<and> (\<forall>c. looked_up = Inr (Some c) \<longrightarrow> file_stored hash s (claim_key_of c) = Some c
            \<and> ec_org_id c = org \<and> ec_claim_id c = cid)"
    if "file_get_by_id org cid s = (looked_up, t)"
    using read_expected_or_none_find [OF that [unfolded file_get_by_id_def]] ready
    by (auto dest!: find_claim_Inr sym [of "Inr (Some _)"] intro: file_stored_member)
next
  fix s t :: "'z file_world_scheme" and c d claimed updated e
  assume ready: "file_ready hash s" and ok: "claim_ok c"
  show "file_ready hash t \<and> file_held hash s \<subseteq> file_held hash t" if "file_claim hash c s = (claimed, t)"
    using file_claim_effect [OF ready ok that] by blast
  show "d = c \<and> claim_key_of c \<notin> file_held hash s \<and> claim_key_of c \<in> file_held hash t
      \<and> file_stored hash t = (file_stored hash s)(claim_key_of c := Some c)"
    if "file_claim hash c s = (Inr (True, d), t)"
    using file_claim_effect [OF ready ok that] by simp
  show "file_stored hash s (claim_key_of c) = Some d \<and> same_request_as d c \<and> file_stored hash t = file_stored hash s"
    if "file_claim hash c s = (Inr (False, d), t)"
    using file_claim_effect [OF ready ok that] by simp
  show "file_stored hash t = file_stored hash s \<or> (claim_key_of c \<notin> file_held hash s
      \<and> file_stored hash t = (file_stored hash s)(claim_key_of c := Some c))"
    if "file_claim hash c s = (Inl e, t)"
    using file_claim_effect [OF ready ok that] by simp
  show "file_ready hash t \<and> file_held hash t = file_held hash s" if "file_update hash c s = (updated, t)"
    using file_update_effect [OF ready ok that] by blast
  show "d = c \<and> (\<exists>p. file_stored hash s (claim_key_of c) = Some p \<and> validate_claim_transition p c = Inr ())
      \<and> file_stored hash t = (file_stored hash s)(claim_key_of c := Some c)"
    if "file_update hash c s = (Inr d, t)"
    using file_update_effect [OF ready ok that] by simp
  show "file_stored hash t = file_stored hash s
      \<or> ((\<exists>p. file_stored hash s (claim_key_of c) = Some p \<and> validate_claim_transition p c = Inr ())
         \<and> file_stored hash t = (file_stored hash s)(claim_key_of c := Some c))"
    if "file_update hash c s = (Inl e, t)"
    using file_update_effect [OF ready ok that] by blast
qed

end
