(* ===== verification/ClaimProperties.thy ===== *)
theory ClaimProperties
  imports "HOL-Library.Multiset" FileClaimStore StageSamples
begin

text \<open>
  The properties of the claim stores: what the transition rule admits, and what every history of
  calls on either store, with whatever faults the host injects, keeps of a claim.
\<close>

section \<open>A concrete claim\<close>

definition sample_claim :: effect_claim where
  "sample_claim =
     \<lparr>ec_org_id = ''org'', ec_run_id = ''run1'', ec_stage_id = sample_sid, ec_revision = 1,
      ec_claim_id = ''clm_00000000-0000-4000-8000-000000000001'', ec_idempotency_key = ''key1'', ec_executor = MCP,
      ec_proposal_digest = sample_digest (CHR ''b''), ec_target_digest = sample_digest (CHR ''a''),
      ec_state = CLAIMED, ec_attempt = 1, ec_prepared_ref = None, ec_receipt_ref = None, ec_outcome = None,
      ec_result_digest = None, ec_safe_message = None, ec_target_ref = ''mcp://crm/7'',
      ec_proposal_ref = ''proposal://'' @ sample_sid @ ''/revisions/1'',
      ec_content_ref = Some ''artifact://a1/1'', ec_actor = USER, ec_decision_ledger_id = ''l2'',
      ec_row_keys = None, ec_row_results = None, ec_created_at = ''t3'', ec_updated_at = ''t3''\<rparr>"

lemma sample_claim_ok: "claim_ok sample_claim"
  by code_simp

definition sample_key :: claim_key where
  "sample_key = claim_key_of sample_claim"

text \<open>A directory with the given files, on a host that fails as \<open>faults\<close> says.\<close>

definition claim_directory :: "(nat \<Rightarrow> file_fault) \<Rightarrow> (string \<times> claim_file) list \<Rightarrow> file_world" where
  "claim_directory faults files =
     \<lparr>ew_events = (\<lambda>_. []), ew_runs = (\<lambda>_. None), ew_deleted = (\<lambda>_. False), ew_sealed = (\<lambda>_. None), ew_tick = 0,
      cw_commands = [], cw_queue_order = [], cw_queue_payloads = (\<lambda>_. None),
      cw_queue_statuses = (\<lambda>_. None), cw_queue_attempts = (\<lambda>_. 0),
      rx_calls = [], rx_prepared = [], rx_applied = [], rx_reconciled = [], rx_aborted = [], rx_authorized = [],
      fw_files = files, fw_faults = faults, fw_ops = 0\<rparr>"

definition claim_dictionaries :: memory_world where
  "claim_dictionaries =
     \<lparr>ew_events = (\<lambda>_. []), ew_runs = (\<lambda>_. None), ew_deleted = (\<lambda>_. False), ew_sealed = (\<lambda>_. None), ew_tick = 0,
      cw_commands = [], cw_queue_order = [], cw_queue_payloads = (\<lambda>_. None),
      cw_queue_statuses = (\<lambda>_. None), cw_queue_attempts = (\<lambda>_. 0),
      rx_calls = [], rx_prepared = [], rx_applied = [], rx_reconciled = [], rx_aborted = [], rx_authorized = [],
      mw_by_key = [], mw_by_id = []\<rparr>"

lemma claim_directory_ready:
  "file_ready hash (claim_directory faults [])"
  "file_ready hash (claim_directory faults [(p, TornFile)])"
  by (auto simp: file_ready_def claim_directory_def parse_file_def split: if_splits)

section \<open>Transitions\<close>

text \<open>A replacement of a claim is accepted exactly when it is the same attempt at the same request
  and the state may move so: a claimed one anywhere, an indeterminate one to completed only (or
  left as it is), and a completed or cancelled one nowhere.
\<close>

theorem transition_rule:
  "validate_claim_transition p r = Inr () \<longleftrightarrow>
     ec_claim_id p = ec_claim_id r \<and> same_request_as p r \<and> ec_created_at p = ec_created_at r
     \<and> (case ec_state p of
          CLAIMED \<Rightarrow> True
        | INDETERMINATE \<Rightarrow> r = p \<or> ec_state r = COMPLETED
        | _ \<Rightarrow> r = p)"
  by (rule claim_transition_iff)

section \<open>Histories\<close>

text \<open>C21: Whatever calls reach the durable store, in whatever order, and whatever fails under them, an
  idempotency key is created at most once, and never when a file already stood at its path.
\<close>

theorem file_store_creates_once:
  assumes "file_ready hash w" and "list_all claim_op_ok ops"
    and "run_ops (file_claim_port hash) ops w = (answers, w')"
  shows "length (filter (creates k) answers) \<le> (if k \<in> file_held hash w then 0 else 1)"
  using assms by (rule fc.created_at_most_once)

theorem file_store_creates_once_witness:
  "length (filter (creates sample_key) (fst (run_ops (file_claim_port id)
     [ClaimOp sample_claim, ClaimOp sample_claim, UpdateOp sample_claim]
     (claim_directory ((\<lambda>_. NoFault)(1 := ReadFails)) [])))) \<le> 1"
proof -
  have "list_all claim_op_ok [ClaimOp sample_claim, ClaimOp sample_claim, UpdateOp sample_claim]"
    by (simp add: sample_claim_ok)
  from file_store_creates_once [OF claim_directory_ready(1) this prod.collapse [symmetric], where k = sample_key]
  show ?thesis by (simp add: file_held_def claim_directory_def)
qed

text \<open>What the durable store holds for a key only evolves along the transition rule: it stays the
  same attempt at the same request, its state never moves back, and a completed or cancelled claim
  is never changed again.
\<close>

theorem file_store_claims_evolve:
  assumes "file_ready hash w" and "list_all claim_op_ok ops"
    and "run_ops (file_claim_port hash) ops w = (answers, w')"
    and "file_stored hash w k = Some c"
  shows "\<exists>d. file_stored hash w' k = Some d \<and> claim_follows c d"
  using fc.run_ops_evolves [OF assms(2,3)] assms(1,4) unfolding fc.evolves_def by blast

theorem file_store_claims_evolve_witness:
  "\<exists>d. file_stored id (snd (run_ops (file_claim_port id) [UpdateOp (sample_claim\<lparr>ec_state := INDETERMINATE,
       ec_outcome := Some INDETERMINATE_OUTCOME\<rparr>)]
     (claim_directory (\<lambda>_. NoFault) [(path_for id sample_key, ClaimFile (CurrentRecord sample_claim))]))) sample_key = Some d
   \<and> claim_follows sample_claim d"
proof -
  have ok: "claim_ok (sample_claim\<lparr>ec_state := INDETERMINATE, ec_outcome := Some INDETERMINATE_OUTCOME\<rparr>)"
    by code_simp
  show ?thesis
    by (rule file_store_claims_evolve [OF _ _ prod.collapse [symmetric]])
       (simp_all add: ok sample_claim_ok file_ready_def file_stored_def claim_directory_def sample_key_def)
qed

text \<open>The in-memory store creates a key at most once too, and never when it has one.
\<close>

theorem memory_store_creates_once:
  assumes "memory_ready w" and "list_all claim_op_ok ops"
    and "run_ops memory_claim_port ops w = (answers, w')"
  shows "length (filter (creates k) answers) \<le> (if k \<in> memory_held w then 0 else 1)"
  using assms by (rule mc.created_at_most_once)

theorem memory_store_creates_once_witness:
  "length (filter (creates sample_key) (fst (run_ops memory_claim_port
     [ClaimOp sample_claim, ClaimOp sample_claim] claim_dictionaries))) \<le> 1"
proof -
  have "list_all claim_op_ok [ClaimOp sample_claim, ClaimOp sample_claim]" by (simp add: sample_claim_ok)
  moreover have "memory_ready claim_dictionaries" by (simp add: memory_ready_def claim_dictionaries_def)
  ultimately have "length (filter (creates sample_key) (fst (run_ops memory_claim_port
     [ClaimOp sample_claim, ClaimOp sample_claim] claim_dictionaries)))
     \<le> (if sample_key \<in> memory_held claim_dictionaries then 0 else 1)"
    by (intro memory_store_creates_once [OF _ _ prod.collapse [symmetric]])
  then show ?thesis by (simp add: memory_held_def claim_dictionaries_def)
qed

text \<open>A create that tore leaves a file nobody can read, and that file blocks its key for ever:
  every later attempt to claim it raises, so no executor is reached under it again.
\<close>

theorem torn_create_blocks:
  assumes "file_ready hash w" and "list_all claim_op_ok ops"
    and "map_of (fw_files w) (path_for hash k) = Some TornFile"
    and "run_ops (file_claim_port hash) ops w = (answers, w')"
  shows "list_all2 (\<lambda>x a. \<forall>c. x = ClaimOp c \<and> claim_key_of c = k \<longrightarrow> (\<exists>e. a = ClaimAnswer (Inl e))) ops answers"
  using assms
  by (intro fc.blocked_ops [OF assms(1,2) _ _ assms(4)]) (simp_all add: file_held_def file_stored_def)

theorem torn_create_blocks_witness:
  "\<exists>e. fst (run_ops (file_claim_port id) [ClaimOp sample_claim]
     (claim_directory (\<lambda>_. NoFault) [(path_for id sample_key, TornFile)])) = [ClaimAnswer (Inl e)]"
proof -
  let ?w = "claim_directory (\<lambda>_. NoFault) [(path_for id sample_key, TornFile)]"
  have "list_all2 (\<lambda>x a. \<forall>c. x = ClaimOp c \<and> claim_key_of c = sample_key \<longrightarrow> (\<exists>e. a = ClaimAnswer (Inl e)))
    [ClaimOp sample_claim] (fst (run_ops (file_claim_port id) [ClaimOp sample_claim] ?w))"
    by (rule torn_create_blocks [OF claim_directory_ready(2) _ _ prod.collapse [symmetric]])
       (simp_all add: sample_claim_ok claim_directory_def)
  then show ?thesis by (auto simp: list_all2_Cons1 sample_key_def)
qed

section \<open>Reading\<close>

lemma file_get_stored:
  assumes "fw_faults w (fw_ops w) \<notin> {LockFails, ReadFails, ReleaseFails}" and "file_stored hash w k = Some c"
  shows "fst (file_get hash k w) = Inr (Some c)"
  using assms
  by (auto simp: file_get_def with_lock_def Let_def read_expected_or_none_def file_stored_def read_expected_def
      read_file_def split: option.splits sum.splits if_splits)

text \<open>A claim that the durable store reported as created is what a later lookup of its key reads,
  unless the host fails that lookup.
\<close>

theorem file_claim_reads_back:
  assumes "file_ready hash w" and "claim_ok c" and "file_claim hash c w = (Inr (True, d), w')"
    and "fw_faults w' (fw_ops w') \<notin> {LockFails, ReadFails, ReleaseFails}"
  shows "fst (file_get hash (claim_key_of c) w') = Inr (Some c)"
  using assms file_claim_effect [OF assms(1-3)] by (intro file_get_stored) simp_all

theorem file_claim_reads_back_witness:
  "fst (file_get id sample_key (snd (file_claim id sample_claim (claim_directory (\<lambda>_. NoFault) [])))) = Inr (Some sample_claim)"
proof -
  have run: "file_claim id sample_claim (claim_directory (\<lambda>_. NoFault) [])
      = (Inr (True, sample_claim), snd (file_claim id sample_claim (claim_directory (\<lambda>_. NoFault) [])))"
    by (simp add: file_claim_def claim_locked_def with_lock_def claim_directory_def require_persistable_def
        sample_claim_def eff_simps)
  show ?thesis
    using file_claim_reads_back [OF claim_directory_ready(1) sample_claim_ok run]
    by (simp add: sample_key_def file_claim_def claim_locked_def with_lock_def claim_directory_def require_persistable_def
        put_file_def sample_claim_def eff_simps)
qed

text \<open>A record written before content references existed reads as a valid claim for the same
  attempt, whose proposal reference is canonical and whose content reference is the historic
  reference, or is missing when the record was already canonical.
\<close>

theorem historic_claim_reads:
  assumes "read_record (HistoricRecord c) = Inr d"
  shows "claim_ok d \<and> d = c\<lparr>ec_proposal_ref := ec_proposal_ref d, ec_content_ref := ec_content_ref d\<rparr>
     \<and> proposal_parse (ec_proposal_ref d) = Inr \<lparr>pp_stage_id = ec_stage_id c, pp_revision = ec_revision c\<rparr>
     \<and> ec_content_ref d = (if ec_proposal_ref d = ec_proposal_ref c then None else Some (ec_proposal_ref c))"
proof (cases "proposal_parse (ec_proposal_ref c)")
  case (Inl e)
  with assms obtain canonical where canonical: "proposal_format (ec_stage_id c) (ec_revision c) = Inr canonical"
    and d: "claim_ok d" "d = c\<lparr>ec_proposal_ref := canonical, ec_content_ref := Some (ec_proposal_ref c)\<rparr>"
    by (auto simp: read_record_def rbind_Inr_iff)
  from proposal_format_parse [OF canonical] Inl have "canonical \<noteq> ec_proposal_ref c" by auto
  with d proposal_format_parse [OF canonical] show ?thesis by simp
next
  case (Inr p)
  then have "p = \<lparr>pp_stage_id = pp_stage_id p, pp_revision = pp_revision p\<rparr>" by simp
  with Inr assms show ?thesis by (auto simp: read_record_def rbind_Inr_iff)
qed

theorem historic_claim_reads_witness:
  "\<exists>d. read_record (HistoricRecord (sample_claim\<lparr>ec_proposal_ref := ''artifact://a1/1'', ec_content_ref := None\<rparr>)) = Inr d
     \<and> ec_content_ref d = Some ''artifact://a1/1''"
proof -
  let ?c = "sample_claim\<lparr>ec_proposal_ref := ''artifact://a1/1'', ec_content_ref := None\<rparr>"
  have read: "read_record (HistoricRecord ?c) = Inr sample_claim"
    by code_simp
  from historic_claim_reads [OF read] have "ec_content_ref sample_claim
     = (if ec_proposal_ref sample_claim = ec_proposal_ref ?c then None else Some (ec_proposal_ref ?c))" by blast
  then have "ec_content_ref sample_claim = Some ''artifact://a1/1''" by (simp add: sample_claim_def sample_sid_def)
  with read show ?thesis by blast
qed

section \<open>The incomplete page\<close>

text \<open>C26: The recovery scan returns the oldest claims. The page holds as many of the unresolved
  claims of the organisation asked for as there are, up to the limit (none for a limit below one), in
  the order of their creation and then of their ids; and no unresolved claim that is left out is older
  than one that is returned, so that a truncated page never starves an old claim.
\<close>

theorem incomplete_page_bounds:
  fixes org limit cs
  defines "page \<equiv> incomplete_page org limit cs"
    and "due \<equiv> filter (\<lambda>c. unresolved c \<and> (org = None \<or> org = Some (ec_org_id c))) cs"
    and "age \<equiv> \<lambda>c. (ec_created_at c, ec_claim_id c)"
  shows "length page = min (nat limit) (length due) \<and> sorted (map age page)
     \<and> (\<exists>rest. mset page + mset rest = mset due \<and> (\<forall>c\<in>set page. \<forall>d\<in>set rest. age c \<le> age d))"
proof -
  have page: "page = take (nat limit) (sort_key age due)"
    by (simp add: page_def due_def age_def incomplete_page_def)
  let ?rest = "drop (nat limit) (sort_key age due)"
  have "mset page + mset ?rest = mset due"
    by (simp add: page flip: mset_append)
  moreover have "sorted (map age page @ map age ?rest)"
    by (simp add: page flip: map_append)
  ultimately show ?thesis
    by (auto simp: page sorted_append intro!: exI [of _ ?rest])
qed

definition newer_claim :: effect_claim where
  "newer_claim = sample_claim\<lparr>ec_claim_id := ''clm_00000000-0000-4000-8000-000000000002'', ec_created_at := ''t4''\<rparr>"

theorem incomplete_page_bounds_witness:
  "incomplete_page None 1 [newer_claim, sample_claim] = [sample_claim] \<and> unresolved newer_claim"
proof -
  let ?page = "incomplete_page None 1 [newer_claim, sample_claim]"
  let ?age = "\<lambda>c. (ec_created_at c, ec_claim_id c)"
  have due: "unresolved newer_claim" "unresolved sample_claim" by (simp_all add: newer_claim_def sample_claim_def unresolved_def)
  have older: "\<not> ?age newer_claim \<le> ?age sample_claim" by code_simp
  from incomplete_page_bounds [of None 1 "[newer_claim, sample_claim]"] due
  obtain rest where page: "length ?page = 1" "mset ?page + mset rest = {#newer_claim, sample_claim#}"
    "\<forall>c\<in>set ?page. \<forall>d\<in>set rest. ?age c \<le> ?age d" by auto
  from page(1) obtain c where c: "?page = [c]" by (auto simp: length_Suc_conv)
  have "c \<noteq> newer_claim"
  proof
    assume "c = newer_claim"
    with page(2) c have "mset rest = {#sample_claim#}" by simp
    then have "sample_claim \<in> set rest" by (simp flip: set_mset_mset)
    with page(3) c \<open>c = newer_claim\<close> older show False by auto
  qed
  moreover have "c \<in># {#newer_claim, sample_claim#}" unfolding page(2) [symmetric] using c by simp
  ultimately show ?thesis using c due by auto
qed

end
