(* ===== verification/StoreAgreement.thy ===== *)
theory StoreAgreement
  imports ClaimProperties
begin

text \<open>
  The two claim stores against each other: on a host that never fails, the durable store answers
  every history of calls exactly as the in-memory one does. The relation between the directory
  and the dictionaries is a bisimulation.
\<close>

section \<open>Paths\<close>

text \<open>
  A path determines its key when the digest does not collide and the idempotency key holds no NUL,
  which the claim's own validation excludes: the separators are then found from the right.
\<close>

definition plain_key :: "claim_key \<Rightarrow> bool" where
  "plain_key k \<longleftrightarrow> CHR 0x00 \<notin> set (snd (snd k))"

lemma executor_kind_value_plain: "CHR 0x00 \<notin> set (executor_kind_value x)"
  by (cases x) simp_all

lemma executor_kind_value_inject: "executor_kind_value x = executor_kind_value y \<Longrightarrow> x = y"
  by (cases x; cases y) simp_all

lemma split_last:
  assumes "xs @ z # ys = xs' @ z # ys'" and "z \<notin> set ys" and "z \<notin> set ys'"
  shows "xs = xs' \<and> ys = ys'"
proof -
  have tail: "takeWhile (\<lambda>c. c \<noteq> z) (rev (us @ z # vs)) = rev vs" if "z \<notin> set vs" for us vs
    using that by (subst rev_append, simp, subst takeWhile_append2) auto
  from tail [OF assms(2), of xs] tail [OF assms(3), of xs'] assms(1) have "ys = ys'" by simp
  with assms(1) show ?thesis by simp
qed

lemma path_for_inject:
  assumes "inj hash" and "plain_key k" and "plain_key l" and "path_for hash k = path_for hash l"
  shows "k = l"
proof -
  obtain o1 x1 i1 o2 x2 i2 where k: "k = (o1, x1, i1)" and l: "l = (o2, x2, i2)" by (cases k; cases l) auto
  from assms(4) have "hash (o1 @ CHR 0x00 # executor_kind_value x1 @ CHR 0x00 # i1)
      = hash (o2 @ CHR 0x00 # executor_kind_value x2 @ CHR 0x00 # i2)"
    by (simp add: path_for_def k l)
  with assms(1) have "(o1 @ CHR 0x00 # executor_kind_value x1) @ CHR 0x00 # i1
      = (o2 @ CHR 0x00 # executor_kind_value x2) @ CHR 0x00 # i2" by (auto dest: injD)
  from split_last [OF this] assms(2,3) have i: "i1 = i2"
    and "o1 @ CHR 0x00 # executor_kind_value x1 = o2 @ CHR 0x00 # executor_kind_value x2"
    by (simp_all add: plain_key_def k l)
  from split_last [OF this(2)] executor_kind_value_plain executor_kind_value_inject i k l show ?thesis by blast
qed

lemma opaque_key_plain: "is_opaque_key s \<Longrightarrow> CHR 0x00 \<notin> set s"
proof -
  have "\<not> is_alnum (CHR 0x00)" by code_simp
  then show "is_opaque_key s \<Longrightarrow> CHR 0x00 \<notin> set s" by (cases s) (auto simp: is_opaque_key_def list_all_iff)
qed

lemma claim_ok_plain: "claim_ok c \<Longrightarrow> plain_key (claim_key_of c)"
  by (simp add: claim_ok_def claim_fields_ok_def plain_key_def claim_key_of_def opaque_key_plain)

section \<open>The relation\<close>

text \<open>
  \<open>ids\<close> says which key a claim id was drawn for: claim ids are drawn from a random source, and
  the in-memory index by id is only right when no two requests share one.
\<close>

definition agrees ::
  "(string \<Rightarrow> string) \<Rightarrow> (string \<Rightarrow> string \<Rightarrow> claim_key) \<Rightarrow> 'y file_world_scheme \<Rightarrow> 'z memory_world_scheme \<Rightarrow> bool" where
  "agrees hash ids w m \<longleftrightarrow>
     file_ready hash w \<and> memory_ready m \<and> (\<forall>n. fw_faults w n = NoFault)
     \<and> (\<forall>f \<in> set (fw_files w). \<exists>c. f = (path_for hash (claim_key_of c), ClaimFile (CurrentRecord c))
          \<and> map_of (mw_by_key m) (claim_key_of c) = Some c)
     \<and> (\<forall>k c. map_of (mw_by_key m) k = Some c \<longrightarrow>
          claim_ok c \<and> ids (ec_org_id c) (ec_claim_id c) = k
          \<and> map_of (fw_files w) (path_for hash k) = Some (ClaimFile (CurrentRecord c))
          \<and> map_of (mw_by_id m) (ec_org_id c, ec_claim_id c) = Some c)"

fun op_agreed :: "(string \<Rightarrow> string \<Rightarrow> claim_key) \<Rightarrow> claim_op \<Rightarrow> bool" where
  "op_agreed ids (ClaimOp c) = (claim_ok c \<and> ids (ec_org_id c) (ec_claim_id c) = claim_key_of c)"
| "op_agreed ids (UpdateOp c) = claim_ok c"
| "op_agreed ids (GetOp k) = plain_key k"
| "op_agreed ids (GetByIdOp org cid) = True"

lemma agrees_ops [simp]: "agrees hash ids (w\<lparr>fw_ops := n\<rparr>) m = agrees hash ids w m"
  by (simp add: agrees_def)

lemma agrees_entry:
  assumes "agrees hash ids w m" and "map_of (mw_by_key m) k = Some c"
  shows "claim_ok c" "ids (ec_org_id c) (ec_claim_id c) = k" "claim_key_of c = k"
    "map_of (fw_files w) (path_for hash k) = Some (ClaimFile (CurrentRecord c))"
    "map_of (mw_by_id m) (ec_org_id c, ec_claim_id c) = Some c"
  using assms unfolding agrees_def memory_ready_def by blast+

lemma agrees_lookup:
  assumes "inj hash" and "agrees hash ids w m" and "plain_key k"
  shows "map_of (fw_files w) (path_for hash k) = map_option (\<lambda>c. ClaimFile (CurrentRecord c)) (map_of (mw_by_key m) k)"
proof (cases "map_of (mw_by_key m) k")
  case (Some c)
  with agrees_entry(4) [OF assms(2)] show ?thesis by simp
next
  case None
  have "map_of (fw_files w) (path_for hash k) = None"
  proof (rule ccontr)
    assume "map_of (fw_files w) (path_for hash k) \<noteq> None"
    then obtain content where "(path_for hash k, content) \<in> set (fw_files w)" by (auto dest: map_of_SomeD)
    with assms(2) obtain c where c: "path_for hash k = path_for hash (claim_key_of c)"
      "map_of (mw_by_key m) (claim_key_of c) = Some c" unfolding agrees_def by blast
    with agrees_entry(1) [OF assms(2)] have "plain_key (claim_key_of c)" by (blast intro: claim_ok_plain)
    with path_for_inject [OF assms(1,3)] c None show False by simp
  qed
  with None show ?thesis by simp
qed

lemma agrees_read:
  assumes "inj hash" and "agrees hash ids w m" and "plain_key k"
  shows "read_expected_or_none hash NoFault k w = Inr (map_of (mw_by_key m) k)"
proof (cases "map_of (mw_by_key m) k")
  case None
  with agrees_lookup [OF assms] show ?thesis by (simp add: read_expected_or_none_def)
next
  case (Some c)
  with agrees_entry [OF assms(2)] have "claim_ok c" "claim_key_of c = k" by blast+
  with agrees_lookup [OF assms] Some show ?thesis
    by (simp add: read_expected_or_none_def read_expected_def read_file_def)
qed

lemma agrees_put:
  assumes "inj hash" and "agrees hash ids w m" and "claim_ok c" and "ids (ec_org_id c) (ec_claim_id c) = claim_key_of c"
    and old: "\<And>p. map_of (mw_by_key m) (claim_key_of c) = Some p \<Longrightarrow> ec_claim_id p = ec_claim_id c"
  shows "agrees hash ids (put_file (path_for hash (claim_key_of c)) (ClaimFile (CurrentRecord c)) w) (put_claim c m)"
    (is "agrees hash ids ?w ?m")
proof -
  have ready: "file_ready hash ?w"
    by (rule put_file_ready) (use assms(2,3) in \<open>simp_all add: agrees_def\<close>)
  have m: "memory_ready ?m" by (rule put_claim_ready) (use assms(2) old in \<open>simp_all add: agrees_def\<close>)
  have other: "path_for hash k \<noteq> path_for hash (claim_key_of c)" if "plain_key k" "k \<noteq> claim_key_of c" for k
    using path_for_inject [OF assms(1) that(1) claim_ok_plain [OF assms(3)]] that(2) by blast
  have files: "\<exists>d. f = (path_for hash (claim_key_of d), ClaimFile (CurrentRecord d))
      \<and> map_of (mw_by_key ?m) (claim_key_of d) = Some d" if f: "f \<in> set (fw_files ?w)" for f
  proof -
    obtain p content where pc: "f = (p, content)" by (cases f)
    from ready have "distinct (map fst (fw_files ?w))" unfolding file_ready_def by blast
    with f pc have at: "map_of (fw_files ?w) p = Some content" by (blast intro: map_of_is_SomeI)
    show ?thesis
    proof (cases "p = path_for hash (claim_key_of c)")
      case True
      with at pc show ?thesis by (auto simp: put_file_map put_claim_maps)
    next
      case False
      with at have "f \<in> set (fw_files w)" by (auto simp: put_file_map pc dest: map_of_SomeD)
      with assms(2) obtain d where d: "f = (path_for hash (claim_key_of d), ClaimFile (CurrentRecord d))"
        "map_of (mw_by_key m) (claim_key_of d) = Some d" unfolding agrees_def by blast
      with False pc have "claim_key_of d \<noteq> claim_key_of c" by auto
      with d show ?thesis by (auto simp: put_claim_maps)
    qed
  qed
  have entry: "claim_ok d \<and> ids (ec_org_id d) (ec_claim_id d) = k
      \<and> map_of (fw_files ?w) (path_for hash k) = Some (ClaimFile (CurrentRecord d))
      \<and> map_of (mw_by_id ?m) (ec_org_id d, ec_claim_id d) = Some d"
    if d: "map_of (mw_by_key ?m) k = Some d" for k d
  proof (cases "k = claim_key_of c")
    case True
    with d assms(3,4) show ?thesis by (simp add: put_claim_maps put_file_map)
  next
    case False
    with d have "map_of (mw_by_key m) k = Some d" by (simp add: put_claim_maps)
    note e = agrees_entry [OF assms(2) this]
    from e(2) assms(4) False have "(ec_org_id d, ec_claim_id d) \<noteq> (ec_org_id c, ec_claim_id c)" by auto
    with e other [of k] False claim_ok_plain [OF e(1)] show ?thesis by (auto simp: put_claim_maps put_file_map)
  qed
  from assms(2) have "\<forall>n. fw_faults ?w n = NoFault" by (simp add: agrees_def put_file_def)
  with ready m files entry show ?thesis unfolding agrees_def by blast
qed

section \<open>The operations\<close>

lemma with_lock_run: "fw_faults w (fw_ops w) = NoFault \<Longrightarrow> with_lock body w = body NoFault (w\<lparr>fw_ops := Suc (fw_ops w)\<rparr>)"
  by (simp add: with_lock_def)

lemma agrees_faults: "agrees hash ids w m \<Longrightarrow> fw_faults w n = NoFault"
  by (simp add: agrees_def)

lemma agrees_claim:
  assumes "inj hash" and a: "agrees hash ids w m" and "claim_ok c" and "ids (ec_org_id c) (ec_claim_id c) = claim_key_of c"
  shows "fst (file_claim hash c w) = fst (memory_claim c m)
     \<and> agrees hash ids (snd (file_claim hash c w)) (snd (memory_claim c m))"
proof (cases "require_persistable c")
  case (Inl e)
  with a show ?thesis by (simp add: file_claim_def memory_claim_def eff_simps)
next
  case (Inr u)
  let ?w = "w\<lparr>fw_ops := Suc (fw_ops w)\<rparr>"
  from Inr have f: "file_claim hash c w = claim_locked hash c NoFault ?w"
    by (simp add: file_claim_def eff_simps with_lock_run agrees_faults [OF a])
  from a have a': "agrees hash ids ?w m" by simp
  note look = agrees_lookup [OF assms(1) a' claim_ok_plain [OF assms(3)]]
  show ?thesis
  proof (cases "map_of (mw_by_key m) (claim_key_of c)")
    case None
    with Inr look agrees_put [OF assms(1) a' assms(3,4)] show ?thesis
      by (simp add: f memory_claim_def eff_simps claim_locked_def Let_def)
  next
    case (Some d)
    with Inr look agrees_entry [OF a Some] a show ?thesis
      by (simp add: f memory_claim_def eff_simps claim_locked_def Let_def read_expected_def read_file_def)
  qed
qed

lemma agrees_update:
  assumes "inj hash" and a: "agrees hash ids w m" and "claim_ok c"
  shows "fst (file_update hash c w) = fst (memory_update c m)
     \<and> agrees hash ids (snd (file_update hash c w)) (snd (memory_update c m))"
proof -
  let ?w = "w\<lparr>fw_ops := Suc (fw_ops w)\<rparr>"
  have f: "file_update hash c w = update_locked hash c NoFault ?w"
    by (simp add: file_update_def with_lock_run agrees_faults [OF a])
  from a have a': "agrees hash ids ?w m" by simp
  note read = agrees_read [OF assms(1) a' claim_ok_plain [OF assms(3)]]
  show ?thesis
  proof (cases "map_of (mw_by_key m) (claim_key_of c)")
    case None
    with read a show ?thesis by (simp add: f update_locked_def memory_update_def)
  next
    case (Some p)
    show ?thesis
    proof (cases "ec_claim_id p = ec_claim_id c \<and> validate_claim_transition p c = Inr ()")
      case True
      from agrees_entry [OF a Some] have p: "claim_key_of p = claim_key_of c"
        "ids (ec_org_id p) (ec_claim_id p) = claim_key_of c" by blast+
      with True have "ids (ec_org_id c) (ec_claim_id c) = claim_key_of c" by (simp add: claim_key_of_def)
      with agrees_put [OF assms(1) a' assms(3)] Some True read show ?thesis
        by (simp add: f update_locked_def memory_update_def)
    next
      case False
      with Some read a show ?thesis
        by (cases "validate_claim_transition p c") (auto simp: f update_locked_def memory_update_def)
    qed
  qed
qed

lemma agrees_get:
  assumes "inj hash" and a: "agrees hash ids w m" and "plain_key k"
  shows "fst (file_get hash k w) = fst (memory_get k m)
     \<and> agrees hash ids (snd (file_get hash k w)) (snd (memory_get k m))"
  using a agrees_read [OF assms(1) _ assms(3), of ids "w\<lparr>fw_ops := Suc (fw_ops w)\<rparr>" m]
  by (simp add: file_get_def memory_get_def with_lock_run agrees_faults [OF a])

lemma find_claim_scan:
  "\<forall>f \<in> set files. \<exists>c. snd f = ClaimFile (CurrentRecord c) \<and> claim_ok c \<Longrightarrow>
     find_claim NoFault org cid files = Inr (find (\<lambda>c. ec_org_id c = org \<and> ec_claim_id c = cid)
       (map (\<lambda>f. projr (parse_file (snd f))) files))"
  by (induction files) (auto simp: read_file_def)

lemma agrees_get_by_id:
  assumes a: "agrees hash ids w m"
  shows "fst (file_get_by_id org cid w) = fst (memory_get_by_id org cid m)
     \<and> agrees hash ids (snd (file_get_by_id org cid w)) (snd (memory_get_by_id org cid m))"
proof -
  let ?files = "sort_key fst (fw_files w)"
  have files: "\<exists>c. snd f = ClaimFile (CurrentRecord c) \<and> map_of (mw_by_key m) (claim_key_of c) = Some c"
    if "f \<in> set (fw_files w)" for f
    using a that unfolding agrees_def by (metis snd_conv)
  then have "\<forall>f \<in> set ?files. \<exists>c. snd f = ClaimFile (CurrentRecord c) \<and> claim_ok c"
    using agrees_entry(1) [OF a] by fastforce
  note scan = find_claim_scan [OF this, of org cid]
  have "find (\<lambda>c. ec_org_id c = org \<and> ec_claim_id c = cid) (map (\<lambda>f. projr (parse_file (snd f))) ?files)
      = map_of (mw_by_id m) (org, cid)" (is "?found = _")
  proof (cases ?found)
    case None
    have "map_of (mw_by_id m) (org, cid) = None"
    proof (rule ccontr)
      assume "map_of (mw_by_id m) (org, cid) \<noteq> None"
      then obtain c where c: "map_of (mw_by_id m) (org, cid) = Some c" by blast
      with a have at: "ec_org_id c = org" "ec_claim_id c = cid" "map_of (mw_by_key m) (claim_key_of c) = Some c"
        unfolding agrees_def memory_ready_def by blast+
      from agrees_entry [OF a at(3)] have "claim_ok c"
        and "(path_for hash (claim_key_of c), ClaimFile (CurrentRecord c)) \<in> set (fw_files w)"
        by (auto dest: map_of_SomeD)
      then have "c \<in> set (map (\<lambda>f. projr (parse_file (snd f))) ?files)" by (force simp: image_iff)
      with None at show False by (auto simp: find_None_iff)
    qed
    with None show ?thesis by simp
  next
    case (Some c)
    then have at: "ec_org_id c = org" "ec_claim_id c = cid" and "c \<in> set (map (\<lambda>f. projr (parse_file (snd f))) ?files)"
      by (auto simp: find_Some_iff simp del: set_map intro: nth_mem)
    then obtain f where f: "f \<in> set (fw_files w)" "c = projr (parse_file (snd f))" by auto
    from files [OF f(1)] obtain d where d: "snd f = ClaimFile (CurrentRecord d)"
      "map_of (mw_by_key m) (claim_key_of d) = Some d" by blast
    with f(2) agrees_entry [OF a d(2)] have "c = d" by simp
    with at agrees_entry(5) [OF a d(2)] Some show ?thesis by simp
  qed
  with a scan show ?thesis by (simp add: file_get_by_id_def memory_get_by_id_def with_lock_run agrees_faults [OF a])
qed

lemma agrees_op:
  assumes "inj hash" and "agrees hash ids w m" and "op_agreed ids x"
  shows "fst (run_op (file_claim_port hash) x w) = fst (run_op memory_claim_port x m)
     \<and> agrees hash ids (snd (run_op (file_claim_port hash) x w)) (snd (run_op memory_claim_port x m))"
  using assms(3) agrees_claim [OF assms(1,2)] agrees_update [OF assms(1,2)] agrees_get [OF assms(1,2)]
    agrees_get_by_id [OF assms(2)]
  by (cases x) (simp_all add: file_claim_port_def memory_claim_port_def)

lemma agrees_run:
  assumes "inj hash" and "agrees hash ids w m" and "list_all (op_agreed ids) xs"
  shows "fst (run_ops (file_claim_port hash) xs w) = fst (run_ops memory_claim_port xs m)"
  using assms(2,3)
proof (induction xs arbitrary: w m)
  case (Cons x xs)
  from Cons.prems have x: "op_agreed ids x" and xs: "list_all (op_agreed ids) xs" by simp_all
  note step = agrees_op [OF assms(1) Cons.prems(1) x]
  with Cons.IH [OF conjunct2 [OF step] xs] show ?case by (simp add: case_prod_beta)
qed simp

text \<open>C25: On a host that never fails, and with a digest that does not collide, the durable store answers
  exactly as the in-memory store does every history of calls that starts from empty stores and only
  passes valid claims, plain keys, and each claim id for one key only. (A claim id used for two keys does tell them apart:
  one store keeps an index by id, the other searches its files.)
\<close>

theorem stores_agree:
  assumes "inj hash" and "list_all (op_agreed ids) ops"
  shows "fst (run_ops (file_claim_port hash) ops (claim_directory (\<lambda>_. NoFault) []))
     = fst (run_ops memory_claim_port ops claim_dictionaries)"
proof (rule agrees_run [OF assms(1) _ assms(2)])
  show "agrees hash ids (claim_directory (\<lambda>_. NoFault) []) claim_dictionaries"
    unfolding agrees_def using claim_directory_ready(1)
    by (simp add: memory_ready_def) (simp add: claim_directory_def claim_dictionaries_def)
qed

theorem stores_agree_witness:
  "fst (run_ops (file_claim_port id) [ClaimOp sample_claim, GetByIdOp ''org'' (ec_claim_id sample_claim),
       UpdateOp (sample_claim\<lparr>ec_state := INDETERMINATE, ec_outcome := Some INDETERMINATE_OUTCOME\<rparr>)]
       (claim_directory (\<lambda>_. NoFault) []))
   = fst (run_ops memory_claim_port [ClaimOp sample_claim, GetByIdOp ''org'' (ec_claim_id sample_claim),
       UpdateOp (sample_claim\<lparr>ec_state := INDETERMINATE, ec_outcome := Some INDETERMINATE_OUTCOME\<rparr>)]
       claim_dictionaries)"
proof -
  have "claim_ok (sample_claim\<lparr>ec_state := INDETERMINATE, ec_outcome := Some INDETERMINATE_OUTCOME\<rparr>)"
    by code_simp
  then show ?thesis
    by (intro stores_agree [where ids = "\<lambda>_ _. sample_key"]) (simp_all add: sample_claim_ok sample_key_def)
qed

text \<open>The condition on claim ids is needed: one id for two keys, and the stores answer differently.\<close>

lemma reused_id_disagrees:
  "fst (run_ops (file_claim_port id) [ClaimOp sample_claim, ClaimOp (sample_claim\<lparr>ec_idempotency_key := ''key2''\<rparr>),
       GetByIdOp ''org'' (ec_claim_id sample_claim)] (claim_directory (\<lambda>_. NoFault) []))
   \<noteq> fst (run_ops memory_claim_port [ClaimOp sample_claim, ClaimOp (sample_claim\<lparr>ec_idempotency_key := ''key2''\<rparr>),
       GetByIdOp ''org'' (ec_claim_id sample_claim)] claim_dictionaries)"
  by code_simp

end
