(* ===== verification/EffectDispatch.thy ===== *)
theory EffectDispatch
  imports ClaimPorts EffectExecutor
begin

text \<open>
  \<open>effects/dispatch.py\<close>: the one protocol that reaches an executor. Look the idempotency key up,
  prepare, claim, publish the claim, check cancellation, authorize, apply once, record the
  outcome. A call is a record of the arguments of \<open>dispatch\<close>; every awaited call is an effect on
  the state, and \<open>except Exception\<close> lets a cancellation of the task through.
\<close>

section \<open>Calls and results\<close>

datatype dispatch_status =
  DISPATCH_APPLIED | DISPATCH_REPLAYED | DISPATCH_REFUSED | DISPATCH_DRIFT | DISPATCH_CANCELLED
  | DISPATCH_INDETERMINATE | DISPATCH_CLAIMED

record dispatch_result =
  ds_status :: dispatch_status
  ds_stage_id :: string
  ds_revision :: int
  ds_safe_code :: string
  ds_claim :: "effect_claim option"
  ds_outcome :: "effect_outcome option"

text \<open>The coordinator's ports: the claim store, the clock and the source of claim ids.\<close>

record 's dispatcher =
  dp_claims :: "'s claim_port"
  dp_now :: "('s, string) eff"
  dp_new_claim_id :: "('s, string) eff"

record 's dispatch_call =
  dl_scope :: execution_scope
  dl_request :: dispatch_request
  dl_executor :: "'s effect_executor"
  dl_expected_digest :: "string option"
  dl_cancellation :: "(execution_scope \<Rightarrow> dispatch_request \<Rightarrow> ('s, bool) eff) option"
  dl_observer :: "(execution_scope \<Rightarrow> effect_claim \<Rightarrow> ('s, unit) eff) option"

definition refused :: "dispatch_request \<Rightarrow> string \<Rightarrow> dispatch_result" where
  "refused req safe =
     \<lparr>ds_status = DISPATCH_REFUSED, ds_stage_id = dr_stage_id req, ds_revision = dr_revision req,
      ds_safe_code = safe, ds_claim = None, ds_outcome = None\<rparr>"

definition drifted :: "dispatch_request \<Rightarrow> dispatch_result" where
  "drifted req =
     \<lparr>ds_status = DISPATCH_DRIFT, ds_stage_id = dr_stage_id req, ds_revision = dr_revision req,
      ds_safe_code = ''precondition_drift'', ds_claim = None, ds_outcome = Some PRECONDITION_DRIFT\<rparr>"

definition from_claim :: "effect_claim \<Rightarrow> dispatch_status \<Rightarrow> dispatch_result" where
  "from_claim c status =
     \<lparr>ds_status = status, ds_stage_id = ec_stage_id c, ds_revision = ec_revision c,
      ds_safe_code = (case ec_outcome c of Some x \<Rightarrow> effect_outcome_value x | None \<Rightarrow> claim_state_value (ec_state c)),
      ds_claim = Some c, ds_outcome = ec_outcome c\<rparr>"

definition denied :: "dispatch_request \<Rightarrow> string \<Rightarrow> effect_claim \<Rightarrow> dispatch_result" where
  "denied req safe stored =
     \<lparr>ds_status = DISPATCH_REFUSED, ds_stage_id = dr_stage_id req, ds_revision = dr_revision req,
      ds_safe_code = safe, ds_claim = Some stored, ds_outcome = ec_outcome stored\<rparr>"

lemma reply_simps [simp]:
  "ds_claim (from_claim c st) = Some c" "ds_outcome (from_claim c st) = ec_outcome c" "ds_status (from_claim c st) = st"
  "ds_claim (denied req safe c) = Some c" "ds_outcome (denied req safe c) = ec_outcome c"
  "ds_status (denied req safe c) = DISPATCH_REFUSED"
  "ds_claim (refused req safe) = None" "ds_status (refused req safe) = DISPATCH_REFUSED"
  "ds_claim (drifted req) = None" "ds_status (drifted req) = DISPATCH_DRIFT"
  by (simp_all add: from_claim_def denied_def refused_def drifted_def)

section \<open>Claims of a call\<close>

definition call_key :: "'s dispatch_call \<Rightarrow> claim_key" where
  "call_key call = (xs_org_id (dl_scope call), dr_executor (dl_request call), dr_idempotency_key (dl_request call))"

definition initial_claim ::
  "execution_scope \<Rightarrow> dispatch_request \<Rightarrow> prepared_effect \<Rightarrow> string \<Rightarrow> string \<Rightarrow> string \<Rightarrow> effect_claim" where
  "initial_claim sc req p cid created updated =
     \<lparr>ec_org_id = xs_org_id sc, ec_run_id = xs_run_id sc, ec_stage_id = dr_stage_id req,
      ec_revision = dr_revision req, ec_claim_id = cid, ec_idempotency_key = dr_idempotency_key req,
      ec_executor = dr_executor req, ec_proposal_digest = dr_proposal_digest req,
      ec_target_digest = dr_target_digest req, ec_state = CLAIMED, ec_attempt = 1,
      ec_prepared_ref = pf_prepared_ref p, ec_receipt_ref = None, ec_outcome = None,
      ec_result_digest = None, ec_safe_message = None, ec_target_ref = dr_target_ref req,
      ec_proposal_ref = dr_proposal_ref req, ec_content_ref = Some (dr_content_ref req),
      ec_actor = dr_actor req, ec_decision_ledger_id = dr_decision_ledger_id req,
      ec_row_keys = dr_row_keys req, ec_row_results = None, ec_created_at = created, ec_updated_at = updated\<rparr>"

definition claim_from ::
  "'s dispatcher \<Rightarrow> execution_scope \<Rightarrow> dispatch_request \<Rightarrow> prepared_effect \<Rightarrow> ('s, effect_claim) eff" where
  "claim_from d sc req p =
     bnd (dp_new_claim_id d) (\<lambda>cid.
     bnd (dp_now d) (\<lambda>created.
     bnd (dp_now d) (\<lambda>updated.
     lift (effect_claim_make (initial_claim sc req p cid created updated)))))"

definition claim_matches :: "effect_claim \<Rightarrow> execution_scope \<Rightarrow> dispatch_request \<Rightarrow> bool" where
  "claim_matches c sc req \<longleftrightarrow>
     ec_org_id c = xs_org_id sc \<and> ec_run_id c = xs_run_id sc \<and> ec_stage_id c = dr_stage_id req
     \<and> ec_revision c = dr_revision req \<and> ec_idempotency_key c = dr_idempotency_key req
     \<and> ec_executor c = dr_executor req \<and> ec_proposal_digest c = dr_proposal_digest req
     \<and> ec_target_digest c = dr_target_digest req \<and> ec_target_ref c = dr_target_ref req
     \<and> ec_proposal_ref c = dr_proposal_ref req \<and> ec_content_ref c = Some (dr_content_ref req)
     \<and> ec_actor c = dr_actor req \<and> ec_decision_ledger_id c = dr_decision_ledger_id req
     \<and> ec_row_keys c = dr_row_keys req"

lemma initial_claim_simps:
  "claim_matches (initial_claim sc req p cid a b) sc req" "ec_state (initial_claim sc req p cid a b) = CLAIMED"
  "ec_prepared_ref (initial_claim sc req p cid a b) = pf_prepared_ref p"
  by (simp_all add: initial_claim_def claim_matches_def)

definition existing_result :: "effect_claim \<Rightarrow> dispatch_result" where
  "existing_result c =
     (if ec_state c = CLAIMED then from_claim c DISPATCH_CLAIMED
      else from_claim c (if ec_state c = INDETERMINATE then DISPATCH_INDETERMINATE else DISPATCH_REPLAYED))"

definition prior_claim :: "'s dispatch_call \<Rightarrow> effect_claim \<Rightarrow> dispatch_result" where
  "prior_claim call c =
     (if claim_matches c (dl_scope call) (dl_request call) then existing_result c
      else refused (dl_request call) ''effect_claim_conflict'')"

section \<open>Recording an outcome\<close>

definition safe_message_of :: "string option \<Rightarrow> string option" where
  "safe_message_of v = (case v of
       None \<Rightarrow> None
     | Some m \<Rightarrow> if single_line m \<and> length m \<le> 512 then Some m else None)"

definition completed :: "effect_claim \<Rightarrow> execution_result \<Rightarrow> claim_state \<Rightarrow> string \<Rightarrow> effect_claim result" where
  "completed c x st now = effect_claim_make
     (c\<lparr>ec_state := st, ec_outcome := Some (xr_outcome x), ec_receipt_ref := xr_receipt_ref x,
        ec_result_digest := xr_result_digest x, ec_safe_message := safe_message_of (xr_safe_message x),
        ec_row_results := xr_row_results x, ec_updated_at := now\<rparr>)"

definition record_outcome ::
  "'s dispatcher \<Rightarrow> effect_claim \<Rightarrow> execution_result \<Rightarrow> claim_state \<Rightarrow> ('s, effect_claim) eff" where
  "record_outcome d c x st =
     bnd (dp_now d) (\<lambda>now. bnd (lift (completed c x st now)) (cp_update (dp_claims d)))"

definition plain_outcome :: "effect_outcome \<Rightarrow> string \<Rightarrow> execution_result" where
  "plain_outcome x m = \<lparr>xr_outcome = x, xr_receipt_ref = None, xr_result_digest = None,
     xr_retryable = False, xr_safe_message = Some m, xr_row_results = None\<rparr>"

definition cancelled_result :: execution_result where
  "cancelled_result = plain_outcome CANCELLED_OUTCOME ''The effect was cancelled before it was applied.''"

definition denied_result :: execution_result where
  "denied_result = plain_outcome FAILED
     ''Authorization is no longer available; no external change was made.''"

definition unconfirmed_result :: execution_result where
  "unconfirmed_result = plain_outcome INDETERMINATE_OUTCOME ''The effect outcome could not be confirmed.''"

section \<open>The executor's operations under their handlers\<close>

text \<open>\<open>attempt m\<close> hands an exception on as a value; a cancellation of the task still escapes.\<close>

definition attempt :: "('s, 'a) eff \<Rightarrow> ('s, 'a result) eff" where
  "attempt m = catch (bnd m (\<lambda>x. ret (Inr x))) (\<lambda>e. ret (Inl e))"

definition abort_safely :: "'s effect_executor \<Rightarrow> prepared_effect \<Rightarrow> ('s, unit) eff" where
  "abort_safely ex p = catch (ex_abort ex p) (\<lambda>_. ret ())"

definition prepare_safely :: "'s effect_executor \<Rightarrow> dispatch_request \<Rightarrow> ('s, prepared_effect option) eff" where
  "prepare_safely ex req =
     (if \<not> ex_supports_prepare ex
      then ret (Some \<lparr>pf_request = DispatchRequest req, pf_prepared_ref = None,
        pf_observed_digest = None, pf_expires_at = None\<rparr>)
      else bnd (attempt (ex_prepare ex req)) (\<lambda>r.
        ret (case r of Inl _ \<Rightarrow> None | Inr p \<Rightarrow> Some p)))"

definition authorize_safely :: "'s effect_executor \<Rightarrow> prepared_effect \<Rightarrow> ('s, authorization) eff" where
  "authorize_safely ex p =
     bnd (attempt (ex_authorize ex p)) (\<lambda>r.
     ret (case r of
        Inl _ \<Rightarrow> \<lparr>ea_allowed = False, ea_safe_code = ''authorization_unavailable''\<rparr>
      | Inr None \<Rightarrow> \<lparr>ea_allowed = False, ea_safe_code = ''authorization_invalid''\<rparr>
      | Inr (Some a) \<Rightarrow> a))"

section \<open>The protocol, from its end to its beginning\<close>

definition indeterminate ::
  "'s dispatcher \<Rightarrow> effect_claim \<Rightarrow> execution_result option \<Rightarrow> ('s, dispatch_result) eff" where
  "indeterminate d c v =
     bnd (record_outcome d c (case v of Some x \<Rightarrow> x | None \<Rightarrow> unconfirmed_result) INDETERMINATE) (\<lambda>stored.
     ret (from_claim stored DISPATCH_INDETERMINATE))"

definition settle ::
  "'s dispatcher \<Rightarrow> effect_claim \<Rightarrow> execution_result result \<Rightarrow> ('s, dispatch_result) eff" where
  "settle d c r = (case r of
       Inl _ \<Rightarrow> indeterminate d c None
     | Inr x \<Rightarrow>
         if xr_outcome x = INDETERMINATE_OUTCOME then indeterminate d c (Some x)
         else bnd (record_outcome d c x COMPLETED) (\<lambda>stored. ret (from_claim stored DISPATCH_APPLIED)))"

definition apply_claimed ::
  "'s dispatcher \<Rightarrow> 's dispatch_call \<Rightarrow> effect_claim \<Rightarrow> prepared_effect \<Rightarrow> ('s, dispatch_result) eff" where
  "apply_claimed d call c p = bnd (attempt (ex_apply (dl_executor call) p)) (settle d c)"

definition deny ::
  "'s dispatcher \<Rightarrow> 's dispatch_call \<Rightarrow> effect_claim \<Rightarrow> prepared_effect \<Rightarrow> string \<Rightarrow> ('s, dispatch_result) eff" where
  "deny d call c p safe =
     bnd (abort_safely (dl_executor call) p) (\<lambda>_.
     bnd (record_outcome d c denied_result COMPLETED) (\<lambda>stored.
     ret (denied (dl_request call) safe stored)))"

definition authorize_claimed ::
  "'s dispatcher \<Rightarrow> 's dispatch_call \<Rightarrow> effect_claim \<Rightarrow> prepared_effect \<Rightarrow> ('s, dispatch_result) eff" where
  "authorize_claimed d call c p =
     bnd (authorize_safely (dl_executor call) p) (\<lambda>a.
     if ea_allowed a then apply_claimed d call c p else deny d call c p (ea_safe_code a))"

definition cancel_claimed ::
  "'s dispatcher \<Rightarrow> 's dispatch_call \<Rightarrow> effect_claim \<Rightarrow> prepared_effect \<Rightarrow> ('s, dispatch_result) eff" where
  "cancel_claimed d call c p =
     bnd (abort_safely (dl_executor call) p) (\<lambda>_.
     bnd (record_outcome d c cancelled_result CLAIM_CANCELLED) (\<lambda>stored.
     ret (from_claim stored DISPATCH_CANCELLED)))"

definition cancellation_check :: "'s dispatch_call \<Rightarrow> ('s, bool) eff" where
  "cancellation_check call = (case dl_cancellation call of
       None \<Rightarrow> ret False
     | Some f \<Rightarrow> f (dl_scope call) (dl_request call))"

definition publish_claim :: "'s dispatch_call \<Rightarrow> effect_claim \<Rightarrow> ('s, unit) eff" where
  "publish_claim call c = (case dl_observer call of None \<Rightarrow> ret () | Some f \<Rightarrow> f (dl_scope call) c)"

definition after_claimed ::
  "'s dispatcher \<Rightarrow> 's dispatch_call \<Rightarrow> effect_claim \<Rightarrow> prepared_effect \<Rightarrow> ('s, dispatch_result) eff" where
  "after_claimed d call c p =
     bnd (publish_claim call c) (\<lambda>_.
     bnd (cancellation_check call) (\<lambda>cancelled.
     if cancelled then cancel_claimed d call c p else authorize_claimed d call c p))"

definition lose_race :: "'s dispatch_call \<Rightarrow> prepared_effect \<Rightarrow> effect_claim \<Rightarrow> ('s, dispatch_result) eff" where
  "lose_race call p c =
     bnd (if ec_prepared_ref c \<noteq> pf_prepared_ref p then abort_safely (dl_executor call) p else ret ()) (\<lambda>_.
     ret (prior_claim call c))"

definition claim_prepared ::
  "'s dispatcher \<Rightarrow> 's dispatch_call \<Rightarrow> prepared_effect \<Rightarrow> ('s, dispatch_result) eff" where
  "claim_prepared d call p =
     bnd (claim_from d (dl_scope call) (dl_request call) p) (\<lambda>proposed.
     bnd (cp_claim (dp_claims d) proposed) (\<lambda>(made, c).
     if made then after_claimed d call c p else lose_race call p c))"

definition drift_seen :: "'s dispatch_call \<Rightarrow> prepared_effect \<Rightarrow> bool" where
  "drift_seen call p \<longleftrightarrow> dl_expected_digest call \<noteq> None \<and> pf_observed_digest p \<noteq> dl_expected_digest call"

definition check_prepared ::
  "'s dispatcher \<Rightarrow> 's dispatch_call \<Rightarrow> prepared_effect \<Rightarrow> ('s, dispatch_result) eff" where
  "check_prepared d call p =
     (if pf_request p \<noteq> DispatchRequest (dl_request call)
      then bnd (abort_safely (dl_executor call) p) (\<lambda>_. ret (refused (dl_request call) ''prepare_request_mismatch''))
      else if drift_seen call p
      then bnd (abort_safely (dl_executor call) p) (\<lambda>_. ret (drifted (dl_request call)))
      else claim_prepared d call p)"

definition prepare_and_claim :: "'s dispatcher \<Rightarrow> 's dispatch_call \<Rightarrow> ('s, dispatch_result) eff" where
  "prepare_and_claim d call =
     bnd (prepare_safely (dl_executor call) (dl_request call)) (\<lambda>v.
     case v of
       None \<Rightarrow> ret (refused (dl_request call) ''prepare_failed'')
     | Some p \<Rightarrow> check_prepared d call p)"

definition dispatch :: "'s dispatcher \<Rightarrow> 's dispatch_call \<Rightarrow> ('s, dispatch_result) eff" where
  "dispatch d call =
     (if ex_kind (dl_executor call) \<noteq> dr_executor (dl_request call)
      then ret (refused (dl_request call) ''executor_mismatch'')
      else bnd (cp_get (dp_claims d) (call_key call)) (\<lambda>v.
        case v of
          Some c \<Rightarrow> ret (prior_claim call c)
        | None \<Rightarrow> prepare_and_claim d call))"

section \<open>The runtime dispatcher\<close>

definition new_claim_id :: "event_env \<Rightarrow> ('z event_world_scheme, string) eff" where
  "new_claim_id env = (\<lambda>w.
     (Inr (''clm_'' @ filter (\<lambda>c. c \<noteq> CHR ''-'') (env_new_id env (ew_tick w))), w\<lparr>ew_tick := Suc (ew_tick w)\<rparr>))"

definition runtime_dispatcher :: "event_env \<Rightarrow> 'z event_world_scheme claim_port \<Rightarrow> 'z event_world_scheme dispatcher" where
  "runtime_dispatcher env port = \<lparr>dp_claims = port, dp_now = utc_now env, dp_new_claim_id = new_claim_id env\<rparr>"

end
