(* ===== verification/DispatchLaws.thy ===== *)
theory DispatchLaws
  imports EffectDispatch
begin

text \<open>
  What a dispatch does, whatever store and executor it runs on: the contract of its ports is a
  locale over the claim store's, with the executor's applications observed as a list. The lemmas
  follow the protocol from its end to its beginning; every branch that raises is included.
\<close>

locale dispatching = claim_store port stored held ready
  for port :: "'s claim_port" and stored held ready +
  fixes d :: "'s dispatcher"
    and applied :: "'s \<Rightarrow> prepared_effect list"
  assumes dispatcher_claims: "dp_claims d = port"
    and now_frame: "ready s \<Longrightarrow> dp_now d s = (told, t) \<Longrightarrow>
      ready t \<and> stored t = stored s \<and> held t = held s \<and> applied t = applied s"
    and claim_id_frame: "ready s \<Longrightarrow> dp_new_claim_id d s = (drawn, t) \<Longrightarrow>
      ready t \<and> stored t = stored s \<and> held t = held s \<and> applied t = applied s"
    and claim_applies_nothing: "cp_claim port c s = (claimed, t) \<Longrightarrow> applied t = applied s"
    and get_applies_nothing: "cp_get port k s = (found, t) \<Longrightarrow> applied t = applied s"
    and get_by_id_applies_nothing: "cp_get_by_id port org cid s = (looked_up, t) \<Longrightarrow> applied t = applied s"
    and update_applies_nothing: "cp_update port c s = (updated, t) \<Longrightarrow> applied t = applied s"
begin

text \<open>An effect is calm when it touches neither the claims nor the applications.\<close>

definition same_claims :: "'s \<Rightarrow> 's \<Rightarrow> bool" where
  "same_claims s t \<longleftrightarrow>
     (ready s \<longrightarrow> ready t \<and> stored t = stored s \<and> held t = held s \<and> applied t = applied s)"

abbreviation calm :: "('s, 'a) eff \<Rightarrow> bool" where
  "calm m \<equiv> keeps same_claims m"

lemma same_claims_order [keeps_intros]: "reflp same_claims" "transp same_claims"
  by (simp_all add: same_claims_def reflp_def transp_def)

lemma calmD: "calm m \<Longrightarrow> m s = (r, t) \<Longrightarrow> ready s \<Longrightarrow>
    ready t \<and> stored t = stored s \<and> held t = held s \<and> applied t = applied s"
  by (auto dest: keepsD simp: same_claims_def)

text \<open>
  A call whose executor, observer and cancellation check leave the claims alone, and whose
  executor records each application once.
\<close>

definition well_behaved :: "'s dispatch_call \<Rightarrow> bool" where
  "well_behaved call \<longleftrightarrow>
     (\<forall>req. calm (ex_prepare (dl_executor call) req)) \<and> (\<forall>p. calm (ex_authorize (dl_executor call) p))
     \<and> (\<forall>p. calm (ex_abort (dl_executor call) p))
     \<and> (\<forall>p s r t. ready s \<longrightarrow> ex_apply (dl_executor call) p s = (r, t) \<longrightarrow>
          ready t \<and> stored t = stored s \<and> held t = held s \<and> applied t = applied s @ [p])
     \<and> (\<forall>f. dl_cancellation call = Some f \<longrightarrow> calm (f (dl_scope call) (dl_request call)))
     \<and> (\<forall>f c. dl_observer call = Some f \<longrightarrow> calm (f (dl_scope call) c))"

lemma calm_attempt [keeps_intros]: "calm m \<Longrightarrow> calm (attempt m)"
  unfolding attempt_def by (intro keeps_intros) assumption+

lemma calm_parts:
  assumes "well_behaved call"
  shows "calm (abort_safely (dl_executor call) p)"
    and "calm (prepare_safely (dl_executor call) req)"
    and "calm (authorize_safely (dl_executor call) p)"
    and "calm (cancellation_check call)"
    and "calm (publish_claim call c)"
proof -
  have parts: "calm (ex_prepare (dl_executor call) req)" "calm (ex_authorize (dl_executor call) p)"
    "calm (ex_abort (dl_executor call) p)"
    using assms unfolding well_behaved_def by blast+
  show "calm (abort_safely (dl_executor call) p)"
    unfolding abort_safely_def by (intro keeps_intros parts)
  show "calm (prepare_safely (dl_executor call) req)"
    unfolding prepare_safely_def by (intro keeps_intros parts)
  show "calm (authorize_safely (dl_executor call) p)"
    unfolding authorize_safely_def by (intro keeps_intros parts)
  show "calm (cancellation_check call)"
    using assms unfolding well_behaved_def cancellation_check_def
    by (cases "dl_cancellation call") (auto intro: keeps_intros)
  show "calm (publish_claim call c)"
    using assms unfolding well_behaved_def publish_claim_def
    by (cases "dl_observer call") (auto intro: keeps_intros)
qed

text \<open>Recording an outcome: the claim follows the one it replaces, or nothing changed.\<close>

lemma completed_follows:
  assumes "completed c x st now = Inr e"
    and "ec_state c = CLAIMED \<or> ec_state c = INDETERMINATE \<and> st = COMPLETED"
  shows "claim_ok e" "claim_follows c e" "claim_key_of e = claim_key_of c" "ec_state e = st"
    "ec_outcome e = Some (xr_outcome x)" "validate_claim_transition c e = Inr ()"
  using assms
  by (auto simp: completed_def claim_follows_def claim_key_of_def same_request_as_def claim_transition_iff)

lemma update_run:
  assumes s: "ready s" and c: "stored s (claim_key_of c) = Some c"
    and e: "claim_ok e" "claim_key_of e = claim_key_of c" "claim_follows c e"
    and run: "cp_update port e s = (r, t)"
  shows "ready t \<and> held t = held s \<and> applied t = applied s
     \<and> (\<exists>e'. stored t = (stored s)(claim_key_of c := Some e') \<and> claim_follows c e'
          \<and> (\<forall>f. r = Inr f \<longrightarrow> f = e \<and> e' = e))"
proof -
  note upd = update_ready [OF s e(1) run] update_applies_nothing [OF run]
  show ?thesis
  proof (cases r)
    case (Inl err)
    with update_refused [OF s e(1)] run
    consider "stored t = stored s" | "stored t = (stored s)(claim_key_of e := Some e)" by blast
    then show ?thesis
    proof cases
      case 1
      with upd c Inl show ?thesis by (auto intro!: exI [of _ c])
    next
      case 2
      with upd e Inl show ?thesis by (auto intro!: exI [of _ e])
    qed
  next
    case (Inr f)
    with update_done [OF s e(1), of f t] run have "f = e" "stored t = (stored s)(claim_key_of e := Some e)" by simp_all
    with upd e Inr show ?thesis by (auto intro!: exI [of _ e])
  qed
qed

text \<open>A claim that is still open: a recorded outcome leads on from it.\<close>

definition may_become :: "effect_claim \<Rightarrow> claim_state \<Rightarrow> bool" where
  "may_become c st \<longleftrightarrow> ec_state c = CLAIMED \<or> ec_state c = INDETERMINATE \<and> st = COMPLETED"

lemma record_outcome_run:
  assumes "ready s" and "stored s (claim_key_of c) = Some c" and "may_become c st"
    and run: "record_outcome d c x st s = (r, t)"
  shows "ready t \<and> held t = held s \<and> applied t = applied s
     \<and> (\<exists>e. stored t = (stored s)(claim_key_of c := Some e) \<and> claim_follows c e
          \<and> (\<forall>f. r = Inr f \<longrightarrow> f = e \<and> ec_state e = st \<and> ec_outcome e = Some (xr_outcome x)))"
  using run unfolding record_outcome_def dispatcher_claims
proof (cases rule: bnd_cases)
  case (raised e)
  with now_frame [OF assms(1) raised(1)] assms(2) show ?thesis by (auto intro!: exI [of _ c])
next
  case (returned now u)
  note u = now_frame [OF assms(1) returned(1)]
  from returned(2) show ?thesis
  proof (cases rule: bnd_liftE)
    case (raised e)
    with u assms(2) show ?thesis by (auto intro!: exI [of _ c])
  next
    case (returned e)
    note e = completed_follows [OF returned(1) assms(3) [unfolded may_become_def]]
    have "ready u" "stored u (claim_key_of c) = Some c" using u assms(2) by simp_all
    from update_run [OF this e(1,3,2) returned(2)] u e(4,5) show ?thesis by auto
  qed
qed

text \<open>
  How a dispatch that holds a claim ends. Without an application: cancelled, refused, or raised.
  With the one application: applied, indeterminate, or raised. The claim it leaves follows the
  claim it took, and is the one it reports.
\<close>

definition unapplied :: "effect_claim \<Rightarrow> 's \<Rightarrow> dispatch_result result \<Rightarrow> 's \<Rightarrow> bool" where
  "unapplied c s r t \<longleftrightarrow> ready t \<and> held t = held s \<and> applied t = applied s
     \<and> (\<exists>e. stored t = (stored s)(claim_key_of c := Some e) \<and> claim_follows c e
          \<and> (\<forall>x. r = Inr x \<longrightarrow> ds_claim x = Some e \<and> ds_outcome x = ec_outcome e
               \<and> (ds_status x = DISPATCH_CANCELLED \<and> ec_state e = CLAIM_CANCELLED
                  \<or> ds_status x = DISPATCH_REFUSED \<and> ec_state e = COMPLETED \<and> ec_outcome e = Some FAILED)))"

definition applied_once :: "effect_claim \<Rightarrow> prepared_effect \<Rightarrow> 's \<Rightarrow> dispatch_result result \<Rightarrow> 's \<Rightarrow> bool" where
  "applied_once c p s r t \<longleftrightarrow> ready t \<and> held t = held s \<and> applied t = applied s @ [p]
     \<and> (\<exists>e. stored t = (stored s)(claim_key_of c := Some e) \<and> claim_follows c e
          \<and> (\<forall>x. r = Inr x \<longrightarrow> ds_claim x = Some e \<and> ds_outcome x = ec_outcome e
               \<and> (ds_status x = DISPATCH_APPLIED \<and> ec_state e = COMPLETED
                  \<or> ds_status x = DISPATCH_INDETERMINATE \<and> ec_state e = INDETERMINATE)))"

definition owned :: "effect_claim \<Rightarrow> 's \<Rightarrow> bool" where
  "owned c s \<longleftrightarrow> ready s \<and> stored s (claim_key_of c) = Some c \<and> ec_state c = CLAIMED"

lemma owned_calm:
  assumes "owned c s" and "same_claims s u"
  shows "owned c u" and "unapplied c u r t \<longleftrightarrow> unapplied c s r t" and "applied_once c p u r t \<longleftrightarrow> applied_once c p s r t"
  using assms by (auto simp: owned_def same_claims_def unapplied_def applied_once_def)

lemma unapplied_raise: "owned c s \<Longrightarrow> same_claims s t \<Longrightarrow> unapplied c s (Inl e) t"
  by (auto simp: owned_def same_claims_def unapplied_def intro!: exI [of _ c])

lemma applied_raise:
  assumes "owned c s" and "ready t \<and> stored t = stored s \<and> held t = held s \<and> applied t = applied s @ [p]"
  shows "applied_once c p s (Inl e) t"
  using assms by (auto simp: owned_def applied_once_def intro!: exI [of _ c])

lemma record_and_reply:
  assumes "owned c s" and "bnd (record_outcome d c x st) (\<lambda>stored. ret (reply stored)) s = (r, t)"
  shows "ready t \<and> held t = held s \<and> applied t = applied s
     \<and> (\<exists>e. stored t = (stored s)(claim_key_of c := Some e) \<and> claim_follows c e
          \<and> (\<forall>y. r = Inr y \<longrightarrow> y = reply e \<and> ec_state e = st \<and> ec_outcome e = Some (xr_outcome x)))"
  using assms(2)
proof (cases rule: bnd_cases)
  case (raised e)
  with record_outcome_run [of s c st x "Inl e" t] assms(1) show ?thesis by (auto simp: owned_def may_become_def)
next
  case (returned f u)
  with record_outcome_run [of s c st x "Inr f" u] assms(1) show ?thesis by (auto simp: owned_def ret_def may_become_def)
qed

lemma settle_run:
  assumes "owned c s" and "settle d c v s = (r, t)"
  shows "ready t \<and> held t = held s \<and> applied t = applied s
     \<and> (\<exists>e. stored t = (stored s)(claim_key_of c := Some e) \<and> claim_follows c e
          \<and> (\<forall>x. r = Inr x \<longrightarrow> ds_claim x = Some e \<and> ds_outcome x = ec_outcome e
               \<and> (ds_status x = DISPATCH_APPLIED \<and> ec_state e = COMPLETED
                  \<or> ds_status x = DISPATCH_INDETERMINATE \<and> ec_state e = INDETERMINATE)))"
proof -
  have indeterminate: ?thesis if "indeterminate d c w s = (r, t)" for w
  proof -
    from record_and_reply [OF assms(1) that [unfolded indeterminate_def]] obtain e where
      "ready t \<and> held t = held s \<and> applied t = applied s" "stored t = (stored s)(claim_key_of c := Some e)"
      "claim_follows c e" "\<forall>y. r = Inr y \<longrightarrow> y = from_claim e DISPATCH_INDETERMINATE \<and> ec_state e = INDETERMINATE"
      by blast
    then show ?thesis by (intro conjI exI [of _ e]) auto
  qed
  show ?thesis
  proof (cases "\<exists>x. v = Inr x \<and> xr_outcome x \<noteq> INDETERMINATE_OUTCOME")
    case True
    then obtain x where "v = Inr x" "xr_outcome x \<noteq> INDETERMINATE_OUTCOME" by blast
    with assms(2) have "bnd (record_outcome d c x COMPLETED) (\<lambda>stored. ret (from_claim stored DISPATCH_APPLIED)) s = (r, t)"
      by (simp add: settle_def)
    from record_and_reply [OF assms(1) this] obtain e where
      "ready t \<and> held t = held s \<and> applied t = applied s" "stored t = (stored s)(claim_key_of c := Some e)"
      "claim_follows c e" "\<forall>y. r = Inr y \<longrightarrow> y = from_claim e DISPATCH_APPLIED \<and> ec_state e = COMPLETED"
      by blast
    then show ?thesis by (intro conjI exI [of _ e]) auto
  next
    case False
    with assms(2) have "\<exists>w. indeterminate d c w s = (r, t)" by (auto simp: settle_def split: sum.splits if_splits)
    with indeterminate show ?thesis by blast
  qed
qed

lemma attempt_run: "attempt m s = (r, t) \<Longrightarrow> \<exists>v. m s = (v, t) \<and> (r = Inr v \<or> (\<exists>e. v = Inl e \<and> r = Inl e))"
  by (cases "m s") (auto simp: attempt_def catch_def bnd_def ret_def split: sum.splits if_splits)

lemma apply_run:
  assumes "well_behaved call" and "owned c s" and "attempt (ex_apply (dl_executor call) p) s = (r, t)"
  shows "ready t \<and> stored t = stored s \<and> held t = held s \<and> applied t = applied s @ [p]"
proof -
  from attempt_run [OF assms(3)] obtain v where "ex_apply (dl_executor call) p s = (v, t)" by blast
  with assms(1,2) show ?thesis unfolding well_behaved_def owned_def by blast
qed

lemma apply_claimed_run:
  assumes "well_behaved call" and o: "owned c s" and "apply_claimed d call c p s = (r, t)"
  shows "applied_once c p s r t"
  using assms(3) unfolding apply_claimed_def
proof (cases rule: bnd_cases)
  case (raised e)
  from applied_raise [OF o apply_run [OF assms(1) o raised(1)]] show ?thesis unfolding raised(2) .
next
  case (returned v u)
  note u = apply_run [OF assms(1) o returned(1)]
  with o have "owned c u" by (simp add: owned_def)
  from settle_run [OF this returned(2)] u show ?thesis unfolding applied_once_def by simp
qed

lemma deny_run:
  assumes "well_behaved call" and o: "owned c s" and "deny d call c p safe s = (r, t)"
  shows "unapplied c s r t"
  using assms(3) unfolding deny_def
proof (cases rule: bnd_cases)
  case (raised e)
  then show ?thesis using calm_parts(1) [OF assms(1)] o by (auto dest: keepsD intro: unapplied_raise)
next
  case (returned v u)
  then have u: "same_claims s u" using calm_parts(1) [OF assms(1)] by (auto dest: keepsD)
  from record_and_reply [OF owned_calm(1) [OF o u] returned(2)] have "unapplied c u r t"
    by (auto simp: unapplied_def denied_result_def plain_outcome_def)
  with owned_calm(2) [OF o u] show ?thesis by blast
qed

lemma cancel_claimed_run:
  assumes "well_behaved call" and o: "owned c s" and "cancel_claimed d call c p s = (r, t)"
  shows "unapplied c s r t"
  using assms(3) unfolding cancel_claimed_def
proof (cases rule: bnd_cases)
  case (raised e)
  then show ?thesis using calm_parts(1) [OF assms(1)] o by (auto dest: keepsD intro: unapplied_raise)
next
  case (returned v u)
  then have u: "same_claims s u" using calm_parts(1) [OF assms(1)] by (auto dest: keepsD)
  from record_and_reply [OF owned_calm(1) [OF o u] returned(2)] have "unapplied c u r t"
    by (auto simp: unapplied_def)
  with owned_calm(2) [OF o u] show ?thesis by blast
qed

lemma authorize_claimed_run:
  assumes "well_behaved call" and o: "owned c s" and "authorize_claimed d call c p s = (r, t)"
  shows "unapplied c s r t \<or> applied_once c p s r t"
  using assms(3) unfolding authorize_claimed_def
proof (cases rule: bnd_cases)
  case (raised e)
  then show ?thesis using calm_parts(3) [OF assms(1)] o by (auto dest: keepsD intro: unapplied_raise)
next
  case (returned a u)
  then have u: "same_claims s u" using calm_parts(3) [OF assms(1)] by (auto dest: keepsD)
  with returned(2) owned_calm [OF o u] apply_claimed_run [OF assms(1), of c u] deny_run [OF assms(1), of c u]
  show ?thesis by (auto split: if_splits)
qed

lemma after_claimed_run:
  assumes "well_behaved call" and o: "owned c s" and "after_claimed d call c p s = (r, t)"
  shows "unapplied c s r t \<or> applied_once c p s r t"
  using assms(3) unfolding after_claimed_def
proof (cases rule: bnd_cases)
  case (raised e)
  then show ?thesis using calm_parts(5) [OF assms(1)] o by (auto dest: keepsD intro: unapplied_raise)
next
  case (returned x u)
  then have u: "same_claims s u" using calm_parts(5) [OF assms(1)] by (auto dest: keepsD)
  note ou = owned_calm [OF o u]
  from returned(2) have "unapplied c u r t \<or> applied_once c p u r t"
  proof (cases rule: bnd_cases)
    case (raised e)
    then show ?thesis using calm_parts(4) [OF assms(1)] ou(1) by (auto dest: keepsD intro: unapplied_raise)
  next
    case (returned b v)
    then have v: "same_claims u v" using calm_parts(4) [OF assms(1)] by (auto dest: keepsD)
    with returned(2) owned_calm [OF ou(1) v] cancel_claimed_run [OF assms(1), of c v]
      authorize_claimed_run [OF assms(1), of c v]
    show ?thesis by (auto split: if_splits)
  qed
  with ou show ?thesis by blast
qed

text \<open>
  The whole dispatch. A quiet one leaves the claims as they are, or raises out of a create that
  kept the claim; one that takes the key found it free, and goes on from the claim it created.
\<close>

definition fresh_claim :: "'s dispatch_call \<Rightarrow> prepared_effect \<Rightarrow> effect_claim \<Rightarrow> bool" where
  "fresh_claim call p c \<longleftrightarrow> claim_ok c \<and> claim_matches c (dl_scope call) (dl_request call) \<and> ec_state c = CLAIMED
     \<and> ec_prepared_ref c = pf_prepared_ref p \<and> pf_request p = DispatchRequest (dl_request call) \<and> \<not> drift_seen call p"

definition quiet :: "'s dispatch_call \<Rightarrow> 's \<Rightarrow> dispatch_result result \<Rightarrow> 's \<Rightarrow> bool" where
  "quiet call s r t \<longleftrightarrow> ready t \<and> held s \<subseteq> held t \<and> applied t = applied s
     \<and> (stored t = stored s \<or> ((\<exists>e. r = Inl e) \<and> call_key call \<notin> held s
          \<and> (\<exists>p c. fresh_claim call p c \<and> stored t = (stored s)(call_key call := Some c))))
     \<and> (\<forall>x. r = Inr x \<longrightarrow>
          (ds_status x = DISPATCH_REFUSED \<or> ds_status x = DISPATCH_DRIFT) \<and> ds_claim x = None
          \<or> (\<exists>c. stored s (call_key call) = Some c \<and> claim_matches c (dl_scope call) (dl_request call)
                \<and> x = existing_result c))"

definition took :: "'s dispatch_call \<Rightarrow> 's \<Rightarrow> dispatch_result result \<Rightarrow> 's \<Rightarrow> bool" where
  "took call s r t \<longleftrightarrow> (\<exists>p c u. fresh_claim call p c \<and> owned c u
     \<and> call_key call \<notin> held s \<and> call_key call \<in> held u \<and> held s \<subseteq> held u
     \<and> stored u = (stored s)(call_key call := Some c) \<and> applied u = applied s
     \<and> (unapplied c u r t \<or> applied_once c p u r t))"

lemma claim_matches_key: "claim_matches c (dl_scope call) (dl_request call) \<Longrightarrow> claim_key_of c = call_key call"
  by (simp add: claim_matches_def claim_key_of_def call_key_def)

lemma same_request_matches:
  "same_request_as c e \<Longrightarrow> claim_matches c sc req \<longleftrightarrow> claim_matches e sc req"
  by (simp add: same_request_as_def claim_matches_def)

lemma quiet_same:
  assumes "ready s" and "same_claims s t"
    and "\<And>x. r = Inr x \<Longrightarrow> (ds_status x = DISPATCH_REFUSED \<or> ds_status x = DISPATCH_DRIFT) \<and> ds_claim x = None
      \<or> (\<exists>c. stored s (call_key call) = Some c \<and> claim_matches c (dl_scope call) (dl_request call) \<and> x = existing_result c)"
  shows "quiet call s r t"
  using assms unfolding quiet_def same_claims_def by blast

lemma quiet_from:
  assumes "ready s" and "same_claims s u"
  shows "quiet call u r t \<Longrightarrow> quiet call s r t" and "took call u r t \<Longrightarrow> took call s r t"
proof -
  from assms have "ready u" "stored u = stored s" "held u = held s" "applied u = applied s"
    by (simp_all add: same_claims_def)
  then show "quiet call u r t \<Longrightarrow> quiet call s r t" and "took call u r t \<Longrightarrow> took call s r t"
    by (simp_all add: quiet_def took_def)
qed

lemma claim_from_run:
  assumes "ready s" and "claim_from d sc req p s = (r, u)"
  shows "same_claims s u \<and> (\<forall>c. r = Inr c \<longrightarrow> claim_ok c \<and> claim_matches c sc req \<and> ec_state c = CLAIMED
     \<and> ec_prepared_ref c = pf_prepared_ref p)"
proof -
  have "calm (dp_now d)" by (rule keepsI, unfold same_claims_def, use now_frame in blast)
  moreover have "calm (dp_new_claim_id d)" by (rule keepsI, unfold same_claims_def, use claim_id_frame in blast)
  ultimately have "calm (claim_from d sc req p)" unfolding claim_from_def by (intro keeps_intros)
  moreover have "claim_ok c \<and> claim_matches c sc req \<and> ec_state c = CLAIMED \<and> ec_prepared_ref c = pf_prepared_ref p"
    if "r = Inr c" for c
  proof -
    from assms(2) [unfolded claim_from_def that bnd_Inr_iff lift_def]
    obtain cid a b where "c = initial_claim sc req p cid a b" and "claim_ok c" by auto
    then show ?thesis by (simp add: initial_claim_simps)
  qed
  ultimately show ?thesis using assms by (blast dest: keepsD)
qed

lemma prior_claim_quiet:
  assumes "ready s" and "same_claims s t" and "stored s (call_key call) = Some c"
  shows "quiet call s (Inr (prior_claim call c)) t"
  using assms by (intro quiet_same) (auto simp: prior_claim_def)

lemma claim_prepared_run:
  assumes w: "well_behaved call" and s: "ready s"
    and p: "pf_request p = DispatchRequest (dl_request call)" "\<not> drift_seen call p"
    and run: "claim_prepared d call p s = (r, t)"
  shows "quiet call s r t \<or> took call s r t"
  using run unfolding claim_prepared_def dispatcher_claims
proof (cases rule: bnd_cases)
  case (raised e)
  with claim_from_run [OF s raised(1)] show ?thesis by (intro disjI1 quiet_same [OF s]) simp_all
next
  case (returned c u)
  with claim_from_run [OF s returned(1)] p have u: "same_claims s u" and c: "fresh_claim call p c"
    and key: "claim_key_of c = call_key call" and okc: "claim_ok c"
    by (auto simp: fresh_claim_def claim_matches_key)
  from u s have ru: "ready u" by (simp add: same_claims_def)
  from returned(2) have "quiet call u r t \<or> took call u r t"
  proof (cases rule: bnd_cases)
    case (raised e)
    from claim_ready [OF ru okc raised(1)] claim_refused [OF ru okc raised(1)] claim_applies_nothing [OF raised(1)] c
    show ?thesis unfolding quiet_def raised(2) key by blast
  next
    case (returned a v)
    obtain made c' where a: "a = (made, c')" by (cases a)
    note rv = claim_ready [OF ru okc returned(1)] claim_applies_nothing [OF returned(1)]
    show ?thesis
    proof (cases made)
      case True
      with claim_created [OF ru okc, of c' v] returned(1) a have created: "c' = c" "call_key call \<notin> held u"
        "call_key call \<in> held v" "stored v = (stored u)(call_key call := Some c)" by (simp_all add: key)
      with rv c key have "owned c v" by (simp add: owned_def fresh_claim_def)
      moreover have "unapplied c v r t \<or> applied_once c p v r t"
        using after_claimed_run [OF w \<open>owned c v\<close>] returned(2) a True created(1) by simp
      ultimately show ?thesis using created rv c unfolding took_def by blast
    next
      case False
      with claim_existing [OF ru okc, of c' v] returned(1) a have found: "stored u (call_key call) = Some c'"
        "same_request_as c' c" "stored v = stored u" by (simp_all add: key)
      have lose: "lose_race call p c' v = (r, t)" using returned(2) a False by simp
      have calm: "calm (if ec_prepared_ref c' \<noteq> pf_prepared_ref p then abort_safely (dl_executor call) p else ret ())"
        using calm_parts(1) [OF w] by (intro keeps_intros)
      from lose [unfolded lose_race_def] show ?thesis
      proof (cases rule: bnd_cases)
        case (raised e)
        with calmD [OF calm raised(1)] rv found(3) show ?thesis by (auto simp: quiet_def)
      next
        case (returned x y)
        then have r: "r = Inr (prior_claim call c')" "t = y" by (simp_all add: ret_def)
        from calmD [OF calm returned(1)] rv found(3)
        have "ready t \<and> held u \<subseteq> held t \<and> applied t = applied u \<and> stored t = stored u" by (auto simp: r)
        moreover have "quiet call u (Inr (prior_claim call c')) u"
          using prior_claim_quiet [OF ru _ found(1)] same_claims_order(1) by (simp add: reflp_def)
        ultimately show ?thesis by (auto simp: quiet_def r)
      qed
    qed
  qed
  with quiet_from [OF s u] show ?thesis by blast
qed

lemma refuse_after_abort:
  assumes w: "well_behaved call" and s: "ready s"
    and "bnd (abort_safely (dl_executor call) p) (\<lambda>_. ret x) s = (r, t)"
    and "(ds_status x = DISPATCH_REFUSED \<or> ds_status x = DISPATCH_DRIFT) \<and> ds_claim x = None"
  shows "quiet call s r t"
proof -
  from assms(3) have "same_claims s t" by (rule keepsD [rotated]) (intro keeps_intros calm_parts(1) [OF w])
  moreover from assms(3) have "r = Inr y \<Longrightarrow> y = x" for y by (auto simp: bnd_Inr_iff ret_def)
  ultimately show ?thesis using assms(4) by (intro quiet_same [OF s]) blast+
qed

lemma dispatch_run:
  assumes w: "well_behaved call" and s: "ready s" and run: "dispatch d call s = (r, t)"
  shows "quiet call s r t \<or> took call s r t"
proof (cases "ex_kind (dl_executor call) = dr_executor (dl_request call)")
  case False
  with run have "r = Inr (refused (dl_request call) ''executor_mismatch'')" "t = s"
    by (simp_all add: dispatch_def ret_def)
  with same_claims_order(1) show ?thesis by (intro disjI1 quiet_same [OF s]) (auto simp: reflp_def)
next
  case True
  with run have "bnd (cp_get port (call_key call)) (\<lambda>v. case v of Some c \<Rightarrow> ret (prior_claim call c)
      | None \<Rightarrow> prepare_and_claim d call) s = (r, t)" by (simp add: dispatch_def dispatcher_claims)
  then show ?thesis
  proof (cases rule: bnd_cases)
    case (raised e)
    with get_outcome [OF s raised(1)] get_applies_nothing [OF raised(1)] show ?thesis
      by (intro disjI1 quiet_same [OF s]) (simp_all add: same_claims_def)
  next
    case (returned v u)
    note u = get_outcome [OF s returned(1)] get_applies_nothing [OF returned(1)]
    then have su: "same_claims s u" by (simp add: same_claims_def)
    show ?thesis
    proof (cases v)
      case (Some c)
      with u returned su show ?thesis
        by (auto simp: ret_def intro!: prior_claim_quiet [OF s])
    next
      case None
      from u have ru: "ready u" by blast
      from None returned(2) have "prepare_and_claim d call u = (r, t)" by simp
      then have "quiet call u r t \<or> took call u r t"
        unfolding prepare_and_claim_def
      proof (cases rule: bnd_cases)
        case (raised e)
        with calm_parts(2) [OF w] show ?thesis by (intro disjI1 quiet_same [OF ru]) (auto dest: keepsD)
      next
        case (returned q x)
        then have ux: "same_claims u x" using calm_parts(2) [OF w] by (auto dest: keepsD)
        then have rx: "ready x" using ru by (simp add: same_claims_def)
        have "quiet call x r t \<or> took call x r t"
        proof (cases q)
          case None
          with returned(2) have "r = Inr (refused (dl_request call) ''prepare_failed'')" "t = x" by (simp_all add: ret_def)
          with same_claims_order(1) show ?thesis by (intro disjI1 quiet_same [OF rx]) (auto simp: reflp_def)
        next
          case (Some p)
          with returned(2) have "check_prepared d call p x = (r, t)" by simp
          then show ?thesis
            using refuse_after_abort [OF w rx] claim_prepared_run [OF w rx, of p]
            by (auto simp: check_prepared_def split: if_splits)
        qed
        with quiet_from [OF ru ux] show ?thesis by blast
      qed
      with quiet_from [OF s su] show ?thesis by blast
    qed
  qed
qed

end

end
