(* ===== verification/DispatchMachine.thy ===== *)
theory DispatchMachine
  imports DispatchLaws
begin

text \<open>
  The dispatch as a machine that stops at every awaited call: its points, its step, and the proof
  that a worker that runs alone does what \<open>dispatch\<close> does. Several workers share one store and
  interleave at the awaits; a worker may die anywhere and its command be delivered again.
\<close>

section \<open>Points and steps\<close>

datatype reply = ReplyStatus dispatch_status | ReplyDenied string

datatype after_abort =
  AbortedResult dispatch_result
| AbortedRecord effect_claim execution_result claim_state reply

datatype dispatch_point =
  AtLookup
| AtPrepare
| AtAbort prepared_effect after_abort
| AtCreate prepared_effect
| AtPublish effect_claim prepared_effect
| AtCheck effect_claim prepared_effect
| AtAuthorize effect_claim prepared_effect
| AtApply effect_claim prepared_effect
| AtRecord effect_claim execution_result claim_state reply
| Finished "dispatch_result result"

fun reply_of :: "dispatch_request \<Rightarrow> reply \<Rightarrow> effect_claim \<Rightarrow> dispatch_result" where
  "reply_of req (ReplyStatus st) c = from_claim c st"
| "reply_of req (ReplyDenied safe) c = denied req safe c"

fun point_after :: "after_abort \<Rightarrow> dispatch_point" where
  "point_after (AbortedResult x) = Finished (Inr x)"
| "point_after (AbortedRecord c x st reply) = AtRecord c x st reply"

definition at_point :: "('s, 'a) eff \<Rightarrow> ('a \<Rightarrow> dispatch_point) \<Rightarrow> 's \<Rightarrow> dispatch_point \<times> 's" where
  "at_point m f = (\<lambda>s. case m s of (Inl e, t) \<Rightarrow> (Finished (Inl e), t) | (Inr x, t) \<Rightarrow> (f x, t))"

definition point_prepared :: "'s dispatch_call \<Rightarrow> prepared_effect \<Rightarrow> dispatch_point" where
  "point_prepared call p =
     (if pf_request p \<noteq> DispatchRequest (dl_request call)
      then AtAbort p (AbortedResult (refused (dl_request call) ''prepare_request_mismatch''))
      else if drift_seen call p then AtAbort p (AbortedResult (drifted (dl_request call)))
      else AtCreate p)"

definition point_claimed :: "'s dispatch_call \<Rightarrow> prepared_effect \<Rightarrow> bool \<times> effect_claim \<Rightarrow> dispatch_point" where
  "point_claimed call p = (\<lambda>(made, c).
     if made then AtPublish c p
     else if ec_prepared_ref c \<noteq> pf_prepared_ref p then AtAbort p (AbortedResult (prior_claim call c))
     else Finished (Inr (prior_claim call c)))"

definition point_applied :: "effect_claim \<Rightarrow> execution_result result \<Rightarrow> dispatch_point" where
  "point_applied c r = (case r of
       Inl _ \<Rightarrow> AtRecord c unconfirmed_result INDETERMINATE (ReplyStatus DISPATCH_INDETERMINATE)
     | Inr x \<Rightarrow>
         if xr_outcome x = INDETERMINATE_OUTCOME
         then AtRecord c x INDETERMINATE (ReplyStatus DISPATCH_INDETERMINATE)
         else AtRecord c x COMPLETED (ReplyStatus DISPATCH_APPLIED))"

fun dispatch_step :: "'s dispatcher \<Rightarrow> 's dispatch_call \<Rightarrow> dispatch_point \<Rightarrow> 's \<Rightarrow> dispatch_point \<times> 's" where
  "dispatch_step d call AtLookup =
     (if ex_kind (dl_executor call) \<noteq> dr_executor (dl_request call)
      then Pair (Finished (Inr (refused (dl_request call) ''executor_mismatch'')))
      else at_point (cp_get (dp_claims d) (call_key call)) (\<lambda>v. case v of
          Some c \<Rightarrow> Finished (Inr (prior_claim call c))
        | None \<Rightarrow> AtPrepare))"
| "dispatch_step d call AtPrepare =
     at_point (prepare_safely (dl_executor call) (dl_request call)) (\<lambda>v. case v of
         None \<Rightarrow> Finished (Inr (refused (dl_request call) ''prepare_failed''))
       | Some p \<Rightarrow> point_prepared call p)"
| "dispatch_step d call (AtAbort p after) = at_point (abort_safely (dl_executor call) p) (\<lambda>_. point_after after)"
| "dispatch_step d call (AtCreate p) =
     at_point (bnd (claim_from d (dl_scope call) (dl_request call) p) (cp_claim (dp_claims d))) (point_claimed call p)"
| "dispatch_step d call (AtPublish c p) = at_point (publish_claim call c) (\<lambda>_. AtCheck c p)"
| "dispatch_step d call (AtCheck c p) = at_point (cancellation_check call) (\<lambda>cancelled.
     if cancelled
     then AtAbort p (AbortedRecord c cancelled_result CLAIM_CANCELLED (ReplyStatus DISPATCH_CANCELLED))
     else AtAuthorize c p)"
| "dispatch_step d call (AtAuthorize c p) = at_point (authorize_safely (dl_executor call) p) (\<lambda>a.
     if ea_allowed a then AtApply c p
     else AtAbort p (AbortedRecord c denied_result COMPLETED (ReplyDenied (ea_safe_code a))))"
| "dispatch_step d call (AtApply c p) = at_point (attempt (ex_apply (dl_executor call) p)) (point_applied c)"
| "dispatch_step d call (AtRecord c x st reply) =
     at_point (record_outcome d c x st) (\<lambda>e. Finished (Inr (reply_of (dl_request call) reply e)))"
| "dispatch_step d call (Finished r) = Pair (Finished r)"

section \<open>A worker alone\<close>

text \<open>What is left of the dispatch at each point.\<close>

definition rest_of_abort :: "'s dispatcher \<Rightarrow> 's dispatch_call \<Rightarrow> after_abort \<Rightarrow> ('s, dispatch_result) eff" where
  "rest_of_abort d call after = (case after of
       AbortedResult x \<Rightarrow> ret x
     | AbortedRecord c x st reply \<Rightarrow>
         bnd (record_outcome d c x st) (\<lambda>e. ret (reply_of (dl_request call) reply e)))"

fun rest_of :: "'s dispatcher \<Rightarrow> 's dispatch_call \<Rightarrow> dispatch_point \<Rightarrow> ('s, dispatch_result) eff" where
  "rest_of d call AtLookup = dispatch d call"
| "rest_of d call AtPrepare = prepare_and_claim d call"
| "rest_of d call (AtAbort p after) = bnd (abort_safely (dl_executor call) p) (\<lambda>_. rest_of_abort d call after)"
| "rest_of d call (AtCreate p) = claim_prepared d call p"
| "rest_of d call (AtPublish c p) = after_claimed d call c p"
| "rest_of d call (AtCheck c p) = bnd (cancellation_check call) (\<lambda>cancelled.
     if cancelled then cancel_claimed d call c p else authorize_claimed d call c p)"
| "rest_of d call (AtAuthorize c p) = authorize_claimed d call c p"
| "rest_of d call (AtApply c p) = apply_claimed d call c p"
| "rest_of d call (AtRecord c x st reply) =
     bnd (record_outcome d c x st) (\<lambda>e. ret (reply_of (dl_request call) reply e))"
| "rest_of d call (Finished r) = lift r"

fun point_depth :: "dispatch_point \<Rightarrow> nat" where
  "point_depth AtLookup = 8"
| "point_depth AtPrepare = 7"
| "point_depth (AtAbort p after) = 2"
| "point_depth (AtCreate p) = 6"
| "point_depth (AtPublish c p) = 5"
| "point_depth (AtCheck c p) = 4"
| "point_depth (AtAuthorize c p) = 3"
| "point_depth (AtApply c p) = 2"
| "point_depth (AtRecord c x st reply) = 1"
| "point_depth (Finished r) = 0"

lemma at_point_rest:
  assumes "at_point m f s = (pt, t)" and "\<And>x. rest_of d call (f x) = g x"
  shows "bnd m g s = rest_of d call pt t"
  using assms by (auto simp: at_point_def bnd_def lift_def split: prod.splits sum.splits)

lemma point_rests:
  "rest_of d call (point_after after) = rest_of_abort d call after"
  "rest_of d call (point_prepared call p) = check_prepared d call p"
  "rest_of d call (point_claimed call p (made, c)) = (if made then after_claimed d call c p else lose_race call p c)"
  "rest_of d call (point_applied c r) = settle d c r"
  by (cases after; simp add: rest_of_abort_def eff_simps lift_def ret_def)
     (simp_all add: point_prepared_def check_prepared_def rest_of_abort_def point_claimed_def lose_race_def
        point_applied_def settle_def indeterminate_def eff_simps lift_def ret_def bnd_def split: sum.splits)

lemma bnd_assoc: "bnd (bnd m f) g = bnd m (\<lambda>x. bnd (f x) g)"
  by (auto simp: bnd_def fun_eq_iff split: prod.splits sum.splits)

lemma lift_ret: "lift (Inr x) = ret x"
  by (simp add: lift_def ret_def)

lemma step_rest:
  assumes "dispatch_step d call pt s = (pt', t)"
  shows "rest_of d call pt s = rest_of d call pt' t"
proof (cases pt)
  case AtLookup
  show ?thesis
  proof (cases "ex_kind (dl_executor call) = dr_executor (dl_request call)")
    case True
    with assms AtLookup have "at_point (cp_get (dp_claims d) (call_key call)) (\<lambda>v. case v of
        Some c \<Rightarrow> Finished (Inr (prior_claim call c)) | None \<Rightarrow> AtPrepare) s = (pt', t)" by simp
    from at_point_rest [OF this, of d call "\<lambda>v. case v of Some c \<Rightarrow> ret (prior_claim call c)
        | None \<Rightarrow> prepare_and_claim d call"] True AtLookup
    show ?thesis by (simp add: dispatch_def lift_ret split: option.splits)
  next
    case False
    with assms AtLookup show ?thesis by (auto simp: dispatch_def eff_simps)
  qed
next
  case AtPrepare
  from at_point_rest [OF assms [unfolded AtPrepare dispatch_step.simps], of d call
      "\<lambda>v. case v of None \<Rightarrow> ret (refused (dl_request call) ''prepare_failed'') | Some p \<Rightarrow> check_prepared d call p"] AtPrepare
  show ?thesis by (simp add: prepare_and_claim_def point_rests lift_ret split: option.splits)
next
  case (AtAbort p after)
  from at_point_rest [OF assms [unfolded AtAbort dispatch_step.simps], of d call "\<lambda>_. rest_of_abort d call after"] AtAbort
  show ?thesis by (simp add: point_rests)
next
  case (AtCreate p)
  have "rest_of d call (point_claimed call p a) = (case a of (made, c) \<Rightarrow>
      if made then after_claimed d call c p else lose_race call p c)" for a
    by (cases a) (simp add: point_rests)
  from at_point_rest [OF assms [unfolded AtCreate dispatch_step.simps], of d call, OF this] AtCreate
  show ?thesis by (simp add: claim_prepared_def bnd_assoc)
next
  case (AtPublish c p)
  from at_point_rest [OF assms [unfolded AtPublish dispatch_step.simps] refl] AtPublish
  show ?thesis by (simp add: after_claimed_def)
next
  case (AtCheck c p)
  from at_point_rest [OF assms [unfolded AtCheck dispatch_step.simps], of d call
      "\<lambda>cancelled. if cancelled then cancel_claimed d call c p else authorize_claimed d call c p"] AtCheck
  show ?thesis by (simp add: cancel_claimed_def rest_of_abort_def)
next
  case (AtAuthorize c p)
  from at_point_rest [OF assms [unfolded AtAuthorize dispatch_step.simps], of d call
      "\<lambda>a. if ea_allowed a then apply_claimed d call c p else deny d call c p (ea_safe_code a)"] AtAuthorize
  show ?thesis by (simp add: authorize_claimed_def deny_def rest_of_abort_def)
next
  case (AtApply c p)
  from at_point_rest [OF assms [unfolded AtApply dispatch_step.simps], of d call "settle d c"] AtApply
  show ?thesis by (simp add: apply_claimed_def point_rests)
next
  case (AtRecord c x st reply)
  from at_point_rest [OF assms [unfolded AtRecord dispatch_step.simps], of d call
      "\<lambda>e. ret (reply_of (dl_request call) reply e)"] AtRecord
  show ?thesis by (simp add: lift_ret)
next
  case (Finished r)
  with assms show ?thesis by auto
qed

lemma step_depth:
  assumes "dispatch_step d call pt s = (pt', t)"
  shows "point_depth pt' < point_depth pt \<or> (\<exists>r. pt = Finished r) \<and> pt' = pt"
proof -
  have after: "point_depth (point_after a) \<le> 1" for a by (cases a) simp_all
  have prepared: "point_depth (point_prepared call p) < 7" for p by (simp add: point_prepared_def)
  have claimed: "point_depth (point_claimed call p a) < 6" for p a by (cases a) (simp add: point_claimed_def)
  have applied: "point_depth (point_applied c r) < 2" for c r by (simp add: point_applied_def split: sum.split)
  have at: "point_depth pt' < n"
    if "at_point m f s = (pt', t)" "\<And>x. point_depth (f x) < n" for m f and n :: nat
  proof -
    from that(2) [of undefined] have "0 < n" by simp
    with that show ?thesis by (auto simp: at_point_def split: prod.splits sum.splits)
  qed
  show ?thesis
  proof (cases pt)
    case AtLookup
    show ?thesis
    proof (cases "ex_kind (dl_executor call) = dr_executor (dl_request call)")
      case True
      with assms AtLookup have "at_point (cp_get (dp_claims d) (call_key call)) (\<lambda>v. case v of
          Some c \<Rightarrow> Finished (Inr (prior_claim call c)) | None \<Rightarrow> AtPrepare) s = (pt', t)" by simp
      with AtLookup show ?thesis by (auto dest!: at [where n = 8] split: option.splits)
    qed (use assms AtLookup in auto)
  next
    case AtPrepare
    then show ?thesis using at [OF assms [unfolded AtPrepare dispatch_step.simps], of 7] prepared
      by (simp split: option.splits)
  next
    case (AtAbort p a)
    then show ?thesis using at [OF assms [unfolded AtAbort dispatch_step.simps], of 2] after [of a] by simp
  next
    case (AtCreate p)
    then show ?thesis using at [OF assms [unfolded AtCreate dispatch_step.simps], of 6] claimed by simp
  next
    case (AtPublish c p)
    then show ?thesis using at [OF assms [unfolded AtPublish dispatch_step.simps], of 5] by simp
  next
    case (AtCheck c p)
    then show ?thesis using at [OF assms [unfolded AtCheck dispatch_step.simps], of 4] by simp
  next
    case (AtAuthorize c p)
    then show ?thesis using at [OF assms [unfolded AtAuthorize dispatch_step.simps], of 3] by simp
  next
    case (AtApply c p)
    then show ?thesis using at [OF assms [unfolded AtApply dispatch_step.simps], of 2] applied by simp
  next
    case (AtRecord c x st reply)
    then show ?thesis using at [OF assms [unfolded AtRecord dispatch_step.simps], of 1] by simp
  next
    case (Finished r)
    with assms show ?thesis by auto
  qed
qed

text \<open>Within eight steps the machine has finished, with the result and the state of the dispatch.\<close>

definition machine_step :: "'s dispatcher \<Rightarrow> 's dispatch_call \<Rightarrow> dispatch_point \<times> 's \<Rightarrow> dispatch_point \<times> 's" where
  "machine_step d call = (\<lambda>(pt, s). dispatch_step d call pt s)"

lemma machine_run:
  "point_depth pt \<le> n \<Longrightarrow>
     (machine_step d call ^^ n) (pt, s) = (Finished (fst (rest_of d call pt s)), snd (rest_of d call pt s))"
proof (induction n arbitrary: pt s)
  case 0
  then show ?case by (cases pt) (simp_all add: lift_def)
next
  case (Suc n)
  obtain pt' t where step: "dispatch_step d call pt s = (pt', t)" by (cases "dispatch_step d call pt s")
  have "point_depth pt' \<le> n"
    using step_depth [OF step] Suc.prems by auto
  with Suc.IH [OF this, of t] step_rest [OF step] step show ?case
    by (simp add: funpow_swap1 machine_step_def del: funpow.simps(2) add: funpow_Suc_right)
qed

section \<open>Workers together\<close>

text \<open>
  One store, a call for every worker, the point each is at, and a log of what was applied, under
  which key. A step runs one worker to its next await. A worker may die at any point: its command
  is delivered again, and it starts over.
\<close>

record 's system =
  sy_points :: "nat \<Rightarrow> dispatch_point"
  sy_state :: 's
  sy_log :: "(claim_key \<times> prepared_effect) list"

fun applies :: "claim_key \<Rightarrow> dispatch_point \<Rightarrow> (claim_key \<times> prepared_effect) list" where
  "applies k (AtApply c p) = [(k, p)]"
| "applies k _ = []"

inductive worker_step :: "'s dispatcher \<Rightarrow> (nat \<Rightarrow> 's dispatch_call) \<Rightarrow> 's system \<Rightarrow> 's system \<Rightarrow> bool"
  for d calls where
  run: "dispatch_step d (calls i) (sy_points y i) (sy_state y) = (pt, t) \<Longrightarrow>
    worker_step d calls y \<lparr>sy_points = (sy_points y)(i := pt), sy_state = t,
      sy_log = sy_log y @ applies (call_key (calls i)) (sy_points y i)\<rparr>"
| restart: "worker_step d calls y (y\<lparr>sy_points := (sy_points y)(i := AtLookup)\<rparr>)"

definition started :: "'s \<Rightarrow> 's system" where
  "started s = \<lparr>sy_points = (\<lambda>_. AtLookup), sy_state = s, sy_log = []\<rparr>"

text \<open>One worker advanced: the system after its next step.\<close>

definition advance :: "'s dispatcher \<Rightarrow> (nat \<Rightarrow> 's dispatch_call) \<Rightarrow> nat \<Rightarrow> 's system \<Rightarrow> 's system" where
  "advance d calls i y = (case dispatch_step d (calls i) (sy_points y i) (sy_state y) of (pt, t) \<Rightarrow>
     \<lparr>sy_points = (sy_points y)(i := pt), sy_state = t,
      sy_log = sy_log y @ applies (call_key (calls i)) (sy_points y i)\<rparr>)"

lemma advance_steps: "(worker_step d calls)\<^sup>*\<^sup>* y (fold (advance d calls) is y)"
proof (induction "is" arbitrary: y)
  case (Cons i js)
  have "worker_step d calls y (advance d calls i y)"
    unfolding advance_def by (cases "dispatch_step d (calls i) (sy_points y i) (sy_state y)") (auto intro: run)
  with Cons.IH show ?case by (auto intro: converse_rtranclp_into_rtranclp)
qed simp

end
