(* ===== verification/DispatchInterleaving.thy ===== *)
theory DispatchInterleaving
  imports DispatchMachine
begin

text \<open>
  Every interleaving of workers, crashes and redeliveries applies an effect at most once per
  idempotency key: the invariant of the system, kept by each step, in the locale of the dispatch.
\<close>

section \<open>What a point holds\<close>

text \<open>The claim a worker owns at a point, and whether it may still apply from there.\<close>

fun point_claim :: "dispatch_point \<Rightarrow> effect_claim option" where
  "point_claim (AtPublish c p) = Some c"
| "point_claim (AtCheck c p) = Some c"
| "point_claim (AtAuthorize c p) = Some c"
| "point_claim (AtApply c p) = Some c"
| "point_claim (AtAbort p (AbortedRecord c x st reply)) = Some c"
| "point_claim (AtRecord c x st reply) = Some c"
| "point_claim _ = None"

fun may_apply :: "dispatch_point \<Rightarrow> bool" where
  "may_apply (AtPublish c p) = True"
| "may_apply (AtCheck c p) = True"
| "may_apply (AtAuthorize c p) = True"
| "may_apply (AtApply c p) = True"
| "may_apply _ = False"

fun point_request :: "dispatch_point \<Rightarrow> prepared_request option" where
  "point_request (AtCreate p) = Some (pf_request p)"
| "point_request (AtPublish c p) = Some (pf_request p)"
| "point_request (AtCheck c p) = Some (pf_request p)"
| "point_request (AtAuthorize c p) = Some (pf_request p)"
| "point_request (AtApply c p) = Some (pf_request p)"
| "point_request _ = None"

lemma may_apply_claim: "may_apply pt \<Longrightarrow> point_claim pt \<noteq> None"
  by (cases pt) simp_all

lemma point_after_parts [simp]:
  "point_request (point_after a) = None" "\<not> may_apply (point_after a)" "point_claim (point_after a) = point_claim (AtAbort p a)"
  by (cases a; simp)+

lemma point_prepared_parts [simp]:
  "point_claim (point_prepared call p) = None" "\<not> may_apply (point_prepared call p)"
  "point_request (point_prepared call p) \<in> {None, Some (DispatchRequest (dl_request call))}"
  by (simp_all add: point_prepared_def)

lemma prepared_request:
  "point_request (point_prepared call p) \<noteq> Some (DispatchRequest (dl_request call)) \<Longrightarrow>
     point_request (point_prepared call p) = None"
  using point_prepared_parts(3) [of call p] by blast

lemma point_applied_parts [simp]:
  "point_claim (point_applied c r) = Some c" "\<not> may_apply (point_applied c r)" "point_request (point_applied c r) = None"
  by (simp_all add: point_applied_def split: sum.split)

context dispatching
begin

section \<open>One step\<close>

definition point_ok :: "'s dispatch_call \<Rightarrow> dispatch_point \<Rightarrow> 's \<Rightarrow> bool" where
  "point_ok call pt s \<longleftrightarrow>
     (\<forall>c. point_claim pt = Some c \<longrightarrow> owned c s \<and> claim_matches c (dl_scope call) (dl_request call)
        \<and> call_key call \<in> held s)
     \<and> (\<forall>q. point_request pt = Some q \<longrightarrow> q = DispatchRequest (dl_request call))"

text \<open>
  What a step does to the claims: it stays clear of other keys, it takes its own key only when it
  is free, and it applies only at its application point, after which it never may again.
\<close>

definition step_ok :: "'s dispatch_call \<Rightarrow> dispatch_point \<Rightarrow> 's \<Rightarrow> dispatch_point \<Rightarrow> 's \<Rightarrow> bool" where
  "step_ok call pt s pt' t \<longleftrightarrow> ready t \<and> evolves s t \<and> point_ok call pt' t
     \<and> (\<forall>k. k \<noteq> call_key call \<longrightarrow> stored t k = stored s k)
     \<and> (point_claim pt = None \<longrightarrow> stored t = stored s \<or> call_key call \<notin> held s)
     \<and> (point_claim pt' \<noteq> None \<longrightarrow> point_claim pt \<noteq> None \<or> call_key call \<notin> held s)
     \<and> (may_apply pt' \<longrightarrow> may_apply pt \<or> call_key call \<notin> held s)
     \<and> (applies (call_key call) pt \<noteq> [] \<longrightarrow> \<not> may_apply pt')
     \<and> applied t = applied s @ map snd (applies (call_key call) pt)"

lemma step_okI:
  assumes "same_claims s t" and "ready s" and "point_ok call pt s" and "applies (call_key call) pt = []"
    and "point_claim pt' = None \<or> point_claim pt' = point_claim pt"
    and "may_apply pt' \<Longrightarrow> may_apply pt"
    and "point_request pt' \<in> {None, point_request pt, Some (DispatchRequest (dl_request call))}"
  shows "step_ok call pt s pt' t"
proof -
  from assms(1,2) have t: "ready t" "stored t = stored s" "held t = held s" "applied t = applied s"
    by (simp_all add: same_claims_def)
  then have "evolves s t" by (intro evolvesI) auto
  moreover from assms(3,5,7) t have "point_ok call pt' t" by (auto simp: point_ok_def owned_def)
  ultimately show ?thesis using t assms by (auto simp: step_ok_def)
qed

lemma calm_step:
  assumes "calm m" and "ready s" and "point_ok call pt s" and "applies (call_key call) pt = []"
    and "at_point m f s = (pt', t)"
    and "\<And>x. point_claim (f x) = None \<or> point_claim (f x) = point_claim pt"
    and "\<And>x. may_apply (f x) \<Longrightarrow> may_apply pt"
    and "\<And>x. point_request (f x) \<in> {None, point_request pt, Some (DispatchRequest (dl_request call))}"
  shows "step_ok call pt s pt' t"
proof -
  from assms(5) obtain r where r: "m s = (r, t)" and pt': "pt' = (case r of Inl e \<Rightarrow> Finished (Inl e) | Inr x \<Rightarrow> f x)"
    by (auto simp: at_point_def split: prod.splits sum.splits)
  from assms(1) r have "same_claims s t" by (rule keepsD)
  then show ?thesis
    by (rule step_okI [OF _ assms(2,3,4)]) (use assms(6-8) in \<open>auto simp: pt' split: sum.splits\<close>)
qed

lemma create_step:
  assumes w: "well_behaved call" and s: "ready s" and ok: "point_ok call (AtCreate p) s"
    and step: "dispatch_step d call (AtCreate p) s = (pt', t)"
  shows "step_ok call (AtCreate p) s pt' t"
proof -
  from ok have req: "pf_request p = DispatchRequest (dl_request call)" by (simp add: point_ok_def)
  from step [unfolded dispatch_step.simps dispatcher_claims] obtain r
    where run: "bnd (claim_from d (dl_scope call) (dl_request call) p) (cp_claim port) s = (r, t)"
      and pt': "pt' = (case r of Inl e \<Rightarrow> Finished (Inl e) | Inr x \<Rightarrow> point_claimed call p x)"
    by (auto simp: at_point_def split: prod.splits sum.splits)
  from run show ?thesis
  proof (cases rule: bnd_cases)
    case (raised e)
    with claim_from_run [OF s raised(1)] pt' show ?thesis by (intro step_okI [OF _ s ok]) simp_all
  next
    case (returned c u)
    with claim_from_run [OF s returned(1)] have u: "same_claims s u" and c: "claim_ok c" "ec_state c = CLAIMED"
      and m: "claim_matches c (dl_scope call) (dl_request call)" by blast+
    then have u': "ready u" "stored u = stored s" "held u = held s" "applied u = applied s"
      using s by (simp_all add: same_claims_def)
    note key = claim_matches_key [OF m]
    have ev: "evolves s t" using keepsD [OF claim_evolves [OF c(1)] returned(2)] u' s by (simp add: evolves_def)
    note rt = claim_ready [OF u'(1) c(1) returned(2)] claim_applies_nothing [OF returned(2)]
    show ?thesis
    proof (cases r)
      case (Inl e)
      with claim_refused [OF u'(1) c(1)] returned(2) key
      have "stored t = stored s \<or> (call_key call \<notin> held s \<and> stored t = (stored s)(call_key call := Some c))"
        by (simp add: u')
      with ev rt u' Inl show ?thesis by (auto simp: step_ok_def pt' point_ok_def)
    next
      case (Inr a)
      obtain made c' where a: "a = (made, c')" by (cases a)
      show ?thesis
      proof (cases made)
        case True
        with claim_created [OF u'(1) c(1), of c' t] returned(2) Inr a key
        have "c' = c" "call_key call \<notin> held s" "call_key call \<in> held t" "stored t = (stored s)(call_key call := Some c)"
          by (simp_all add: u')
        moreover from this rt c key have "owned c t" by (simp add: owned_def)
        ultimately show ?thesis using ev rt u' m True a Inr req
          by (auto simp: step_ok_def pt' point_ok_def point_claimed_def)
      next
        case False
        with claim_existing [OF u'(1) c(1), of c' t] returned(2) Inr a have "stored t = stored s" by (simp add: u')
        with ev rt u' False a Inr show ?thesis by (auto simp: step_ok_def pt' point_ok_def point_claimed_def)
      qed
    qed
  qed
qed

lemma record_step:
  assumes s: "ready s" and ok: "point_ok call (AtRecord c x st reply) s"
    and step: "dispatch_step d call (AtRecord c x st reply) s = (pt', t)"
  shows "step_ok call (AtRecord c x st reply) s pt' t"
proof -
  from ok have o: "owned c s" and m: "claim_matches c (dl_scope call) (dl_request call)"
    by (simp_all add: point_ok_def)
  from step obtain r where run: "record_outcome d c x st s = (r, t)"
    and pt': "point_claim pt' = None" "\<not> may_apply pt'" "point_request pt' = None"
    by (auto simp: at_point_def split: prod.splits sum.splits)
  note key = claim_matches_key [OF m]
  from o have c: "stored s (claim_key_of c) = Some c" "may_become c st"
    by (simp_all add: owned_def may_become_def)
  from record_outcome_run [OF s c run] obtain e
    where t: "ready t" "held t = held s" "applied t = applied s"
      and e: "stored t = (stored s)(call_key call := Some e)" "claim_follows c e" unfolding key by blast
  from t e c(1) key have "evolves s t" by (intro evolvesI) auto
  with t e pt' show ?thesis by (auto simp: step_ok_def point_ok_def)
qed

lemma apply_step:
  assumes w: "well_behaved call" and s: "ready s" and ok: "point_ok call (AtApply c p) s"
    and step: "dispatch_step d call (AtApply c p) s = (pt', t)"
  shows "step_ok call (AtApply c p) s pt' t"
proof -
  from ok have o: "owned c s" by (simp add: point_ok_def)
  from step obtain r where run: "attempt (ex_apply (dl_executor call) p) s = (r, t)"
    and pt': "pt' = (case r of Inl e \<Rightarrow> Finished (Inl e) | Inr x \<Rightarrow> point_applied c x)"
    by (auto simp: at_point_def split: prod.splits sum.splits)
  note t = apply_run [OF w o run]
  then have "evolves s t" by (intro evolvesI) auto
  with t ok pt' show ?thesis by (auto simp: step_ok_def point_ok_def owned_def split: sum.splits)
qed

lemma step_run:
  assumes w: "well_behaved call" and s: "ready s" and ok: "point_ok call pt s"
    and step: "dispatch_step d call pt s = (pt', t)"
  shows "step_ok call pt s pt' t"
proof (cases pt)
  case AtLookup
  have get: "calm (cp_get port (call_key call))"
  proof (rule keepsI)
    fix u r v
    assume got: "cp_get port (call_key call) u = (r, v)"
    show "same_claims u v" unfolding same_claims_def using get_outcome [OF _ got] get_applies_nothing [OF got] by simp
  qed
  show ?thesis
  proof (cases "ex_kind (dl_executor call) = dr_executor (dl_request call)")
    case True
    with step AtLookup have "at_point (cp_get port (call_key call)) (\<lambda>v. case v of
        Some c \<Rightarrow> Finished (Inr (prior_claim call c)) | None \<Rightarrow> AtPrepare) s = (pt', t)"
      by (simp add: dispatcher_claims)
    then show ?thesis by (rule calm_step [OF get s ok, rotated]) (auto simp: AtLookup split: option.splits)
  next
    case False
    with step AtLookup same_claims_order(1) show ?thesis by (intro step_okI [OF _ s ok]) (auto simp: reflp_def)
  qed
next
  case AtPrepare
  show ?thesis
    by (rule calm_step [OF calm_parts(2) [OF w] s ok _ step [unfolded AtPrepare dispatch_step.simps]])
       (auto simp: AtPrepare split: option.splits dest: prepared_request)
next
  case (AtAbort p a)
  show ?thesis
    by (rule calm_step [OF calm_parts(1) [OF w] s ok _ step [unfolded AtAbort dispatch_step.simps]])
       (auto simp: AtAbort split: option.splits)
next
  case (AtCreate p)
  from create_step [OF w s] ok step show ?thesis by (simp add: AtCreate)
next
  case (AtPublish c p)
  show ?thesis
    by (rule calm_step [OF calm_parts(5) [OF w] s ok _ step [unfolded AtPublish dispatch_step.simps]])
       (auto simp: AtPublish split: option.splits)
next
  case (AtCheck c p)
  show ?thesis
    by (rule calm_step [OF calm_parts(4) [OF w] s ok _ step [unfolded AtCheck dispatch_step.simps]])
       (auto simp: AtCheck split: option.splits)
next
  case (AtAuthorize c p)
  show ?thesis
    by (rule calm_step [OF calm_parts(3) [OF w] s ok _ step [unfolded AtAuthorize dispatch_step.simps]])
       (auto simp: AtAuthorize split: option.splits)
next
  case (AtApply c p)
  from apply_step [OF w s] ok step show ?thesis by (simp add: AtApply)
next
  case (AtRecord c x st reply)
  from record_step [OF s] ok step show ?thesis by (simp add: AtRecord)
next
  case (Finished r)
  with step same_claims_order(1) show ?thesis by (intro step_okI [OF _ s ok]) (auto simp: reflp_def)
qed

section \<open>The system\<close>

definition system_ok :: "(nat \<Rightarrow> 's dispatch_call) \<Rightarrow> 's \<Rightarrow> 's system \<Rightarrow> bool" where
  "system_ok calls s0 y \<longleftrightarrow>
     ready (sy_state y) \<and> evolves s0 (sy_state y)
     \<and> (\<forall>i. point_ok (calls i) (sy_points y i) (sy_state y))
     \<and> (\<forall>i j. point_claim (sy_points y i) \<noteq> None \<longrightarrow> point_claim (sy_points y j) \<noteq> None \<longrightarrow>
          call_key (calls i) = call_key (calls j) \<longrightarrow> i = j)
     \<and> (\<forall>i. may_apply (sy_points y i) \<longrightarrow>
          call_key (calls i) \<notin> set (map fst (sy_log y)) \<and> call_key (calls i) \<notin> held s0)
     \<and> distinct (map fst (sy_log y))
     \<and> applied (sy_state y) = applied s0 @ map snd (sy_log y)
     \<and> (\<forall>(k, p) \<in> set (sy_log y). k \<notin> held s0 \<and> k \<in> held (sy_state y)
          \<and> (\<exists>i c. k = call_key (calls i) \<and> pf_request p = DispatchRequest (dl_request (calls i))
               \<and> stored (sy_state y) k = Some c \<and> claim_matches c (dl_scope (calls i)) (dl_request (calls i))))"

lemma system_okI:
  assumes "ready (sy_state y)" and "evolves s0 (sy_state y)"
    and "\<And>i. point_ok (calls i) (sy_points y i) (sy_state y)"
    and "\<And>i j. point_claim (sy_points y i) \<noteq> None \<Longrightarrow> point_claim (sy_points y j) \<noteq> None \<Longrightarrow>
          call_key (calls i) = call_key (calls j) \<Longrightarrow> i = j"
    and "\<And>i. may_apply (sy_points y i) \<Longrightarrow>
          call_key (calls i) \<notin> set (map fst (sy_log y)) \<and> call_key (calls i) \<notin> held s0"
    and "distinct (map fst (sy_log y))"
    and "applied (sy_state y) = applied s0 @ map snd (sy_log y)"
    and "\<And>k p. (k, p) \<in> set (sy_log y) \<Longrightarrow> k \<notin> held s0 \<and> k \<in> held (sy_state y)
          \<and> (\<exists>i c. k = call_key (calls i) \<and> pf_request p = DispatchRequest (dl_request (calls i))
               \<and> stored (sy_state y) k = Some c \<and> claim_matches c (dl_scope (calls i)) (dl_request (calls i)))"
  shows "system_ok calls s0 y"
  using assms unfolding system_ok_def by blast

lemma started_ok:
  assumes "ready s" shows "system_ok calls s (started s)"
  using assms evolves_order(1) by (auto simp: system_ok_def started_def point_ok_def reflp_def)

lemma restart_ok:
  assumes "system_ok calls s0 y"
  shows "system_ok calls s0 (y\<lparr>sy_points := (sy_points y)(i := AtLookup)\<rparr>)"
  using assms by (auto simp: system_ok_def point_ok_def)

text \<open>A matching claim stays a matching claim.\<close>

lemma matching_evolves:
  assumes "evolves s t" and "ready s" and "stored s k = Some c" and "claim_matches c sc req"
  shows "\<exists>e. stored t k = Some e \<and> claim_matches e sc req"
proof -
  from assms(1-3) obtain e where e: "stored t k = Some e" "claim_follows c e" unfolding evolves_def by blast
  from e(2) have "same_request_as c e" by (simp add: claim_follows_def)
  with e(1) assms(4) same_request_matches show ?thesis by blast
qed

text \<open>The log of a step: one entry at the application point, none elsewhere.\<close>

lemma applies_cases:
  obtains "applies k pt = []" | c p where "pt = AtApply c p" and "applies k pt = [(k, p)]"
  by (cases pt) auto

lemma step_okD:
  assumes "step_ok call pt s pt' t"
  shows "ready t" "evolves s t" "point_ok call pt' t"
    "k \<noteq> call_key call \<Longrightarrow> stored t k = stored s k"
    "point_claim pt = None \<Longrightarrow> call_key call \<in> held s \<Longrightarrow> stored t = stored s"
    "point_claim pt' \<noteq> None \<Longrightarrow> point_claim pt \<noteq> None \<or> call_key call \<notin> held s"
    "may_apply pt' \<Longrightarrow> may_apply pt \<or> call_key call \<notin> held s"
    "applies (call_key call) pt \<noteq> [] \<Longrightarrow> \<not> may_apply pt'"
    "applied t = applied s @ map snd (applies (call_key call) pt)"
  using assms unfolding step_ok_def by blast+

lemma other_point:
  assumes step: "step_ok call pt s pt' t" and ready: "ready s" and ok: "point_ok call' pt'' s"
    and alone: "call_key call' = call_key call \<Longrightarrow> point_claim pt'' \<noteq> None \<Longrightarrow> point_claim pt = None"
  shows "point_ok call' pt'' t"
proof -
  from step_okD(1,2) [OF step] ready have held: "held s \<subseteq> held t" and rt: "ready t" by (simp_all add: evolves_def)
  have "owned c t" if c: "point_claim pt'' = Some c" for c
  proof -
    from ok c have o: "owned c s" and m: "claim_matches c (dl_scope call') (dl_request call')"
      and h: "call_key call' \<in> held s" by (auto simp: point_ok_def)
    note key = claim_matches_key [OF m]
    have "stored t (call_key call') = stored s (call_key call')"
    proof (cases "call_key call' = call_key call")
      case True
      with alone c have "point_claim pt = None" by simp
      from step_okD(5) [OF step this] h True show ?thesis by simp
    next
      case False
      then show ?thesis by (rule step_okD(4) [OF step])
    qed
    with o rt key show ?thesis by (simp add: owned_def)
  qed
  with ok held show ?thesis by (auto simp: point_ok_def)
qed

lemma run_ok:
  assumes w: "\<And>i. well_behaved (calls i)" and r0: "ready s0" and y: "system_ok calls s0 y"
    and step: "dispatch_step d (calls i) (sy_points y i) (sy_state y) = (pt, t)"
  shows "system_ok calls s0 \<lparr>sy_points = (sy_points y)(i := pt), sy_state = t,
    sy_log = sy_log y @ applies (call_key (calls i)) (sy_points y i)\<rparr>"
    (is "system_ok calls s0 ?z")
proof -
  let ?s = "sy_state y" and ?k = "call_key (calls i)" and ?pt = "sy_points y i"
  from y have rs: "ready ?s" and ev0: "evolves s0 ?s" and oks: "\<And>j. point_ok (calls j) (sy_points y j) ?s"
    and uniq: "\<And>j l. point_claim (sy_points y j) \<noteq> None \<Longrightarrow> point_claim (sy_points y l) \<noteq> None \<Longrightarrow>
        call_key (calls j) = call_key (calls l) \<Longrightarrow> j = l"
    and may: "\<And>j. may_apply (sy_points y j) \<Longrightarrow>
        call_key (calls j) \<notin> set (map fst (sy_log y)) \<and> call_key (calls j) \<notin> held s0"
    and dist: "distinct (map fst (sy_log y))" and app: "applied ?s = applied s0 @ map snd (sy_log y)"
    unfolding system_ok_def by blast+
  from y have logged: "\<And>k p. (k, p) \<in> set (sy_log y) \<Longrightarrow> k \<notin> held s0 \<and> k \<in> held ?s
      \<and> (\<exists>i c. k = call_key (calls i) \<and> pf_request p = DispatchRequest (dl_request (calls i))
           \<and> stored ?s k = Some c \<and> claim_matches c (dl_scope (calls i)) (dl_request (calls i)))"
    unfolding system_ok_def by blast
  note st = step_run [OF w rs oks step]
  note sd = step_okD [OF st]
  note rt = sd(1) and ev = sd(2) and pt_ok = sd(3)
  from r0 ev0 have h0: "held s0 \<subseteq> held ?s" by (simp add: evolves_def)
  from rs ev have ht: "held ?s \<subseteq> held t" by (simp add: evolves_def)
  have free: "?k \<notin> held s0 \<and> ?k \<notin> set (map fst (sy_log y))" if "?k \<notin> held ?s"
    using that h0 logged by auto
  have holder: "point_claim (sy_points y j) = None" if "?k \<notin> held ?s" "call_key (calls j) = ?k" for j
    using oks [of j] that by (auto simp: point_ok_def)
  have alone: "point_claim ?pt = None" if "j \<noteq> i" "call_key (calls j) = ?k" "point_claim (sy_points y j) \<noteq> None" for j
    using uniq [of j i] that by blast
  have apply_free: "?k \<notin> set (map fst (sy_log y))" if "applies ?k ?pt \<noteq> []"
    using may [of i] that by (cases ?pt) auto
  have new: "\<not> may_apply pt" if "applies ?k ?pt \<noteq> []" using sd(8) that by blast
  have others: "point_ok (calls j) (sy_points ?z j) t" for j
    using other_point [OF st rs oks [of j]] alone [of j] pt_ok by (cases "j = i") auto
  have once: "j = l" if "point_claim (sy_points ?z j) \<noteq> None" "point_claim (sy_points ?z l) \<noteq> None"
    "call_key (calls j) = call_key (calls l)" for j l
  proof (rule ccontr)
    assume "j \<noteq> l"
    then consider "j \<noteq> i" "l \<noteq> i" | "j = i" "l \<noteq> i" | "j \<noteq> i" "l = i" by blast
    then show False
    proof cases
      case 1
      with that uniq [of j l] \<open>j \<noteq> l\<close> show False by simp
    next
      case 2
      with that sd(6) have "point_claim ?pt \<noteq> None \<or> ?k \<notin> held ?s" by simp
      moreover from 2 that have "point_claim (sy_points y l) \<noteq> None" "call_key (calls l) = ?k" by simp_all
      ultimately show False using holder [of l] alone [OF 2(2)] by metis
    next
      case 3
      with that sd(6) have "point_claim ?pt \<noteq> None \<or> ?k \<notin> held ?s" by simp
      moreover from 3 that have "point_claim (sy_points y j) \<noteq> None" "call_key (calls j) = ?k" by simp_all
      ultimately show False using holder [of j] alone [OF 3(1)] by metis
    qed
  qed
  have may': "call_key (calls j) \<notin> set (map fst (sy_log ?z)) \<and> call_key (calls j) \<notin> held s0"
    if j: "may_apply (sy_points ?z j)" for j
  proof (cases "j = i")
    case True
    with j have pt: "may_apply pt" by simp
    with sd(7) have "may_apply ?pt \<or> ?k \<notin> held ?s" by blast
    with may [of i] free have "?k \<notin> set (map fst (sy_log y)) \<and> ?k \<notin> held s0" by blast
    moreover from pt new have "applies ?k ?pt = []" by blast
    ultimately show ?thesis using True by simp
  next
    case False
    with j have mj: "may_apply (sy_points y j)" by simp
    have "call_key (calls j) \<noteq> ?k" if "applies ?k ?pt \<noteq> []"
      using alone [OF False] may_apply_claim [OF mj] that by (cases ?pt) auto
    with may [OF mj] show ?thesis by (cases ?pt) auto
  qed
  have log': "k \<notin> held s0 \<and> k \<in> held t
      \<and> (\<exists>j c. k = call_key (calls j) \<and> pf_request p = DispatchRequest (dl_request (calls j))
           \<and> stored t k = Some c \<and> claim_matches c (dl_scope (calls j)) (dl_request (calls j)))"
    if kp: "(k, p) \<in> set (sy_log ?z)" for k p
  proof -
    have "k \<notin> held s0 \<and> k \<in> held ?s
      \<and> (\<exists>j c. k = call_key (calls j) \<and> pf_request p = DispatchRequest (dl_request (calls j))
           \<and> stored ?s k = Some c \<and> claim_matches c (dl_scope (calls j)) (dl_request (calls j)))"
    proof (cases "(k, p) \<in> set (sy_log y)")
      case True
      then show ?thesis by (rule logged)
    next
      case False
      with kp obtain c where pt: "?pt = AtApply c p" and k: "k = ?k" by (cases ?pt) auto
      with oks [of i] have "owned c ?s" and m: "claim_matches c (dl_scope (calls i)) (dl_request (calls i))"
        and h: "?k \<in> held ?s" and q: "pf_request p = DispatchRequest (dl_request (calls i))"
        by (auto simp: point_ok_def)
      then have at: "stored ?s ?k = Some c" using claim_matches_key [OF m] by (simp add: owned_def)
      from may [of i] pt have "?k \<notin> held s0" by simp
      with k h q at m show ?thesis by blast
    qed
    with ht matching_evolves [OF ev rs] show ?thesis by blast
  qed
  have app': "applied t = applied s0 @ map snd (sy_log ?z)" using sd(9) app by simp
  have dist': "distinct (map fst (sy_log ?z))" using dist apply_free by (cases ?pt) auto
  from evolves_order(2) ev0 ev have "evolves s0 t" by (blast dest: transpD)
  show ?thesis
  proof (rule system_okI, unfold system.simps(2))
    show "ready t" "evolves s0 t" by fact+
  qed (fact others once may' dist' app' log')+
qed

lemma step_keeps_ok:
  assumes "\<And>i. well_behaved (calls i)" and "ready s0" and "system_ok calls s0 y" and "worker_step d calls y z"
  shows "system_ok calls s0 z"
  using assms(4)
proof (cases rule: worker_step.cases)
  case (run i pt t)
  with run_ok [OF assms(1-3)] show ?thesis by blast
next
  case (restart i)
  with restart_ok [OF assms(3)] show ?thesis by blast
qed

lemma reachable_ok:
  assumes "\<And>i. well_behaved (calls i)" and "ready s0" and "(worker_step d calls)\<^sup>*\<^sup>* (started s0) y"
  shows "system_ok calls s0 y"
  using assms(3)
  by (induction rule: rtranclp_induct) (auto intro: started_ok assms(2) step_keeps_ok [OF assms(1,2)])

text \<open>What the invariant says of every reachable system.\<close>

lemma applied_at_most_once:
  assumes "\<And>i. well_behaved (calls i)" and "ready s0" and "(worker_step d calls)\<^sup>*\<^sup>* (started s0) y"
  shows "distinct (map fst (sy_log y)) \<and> applied (sy_state y) = applied s0 @ map snd (sy_log y)
    \<and> (\<forall>(k, p) \<in> set (sy_log y). k \<notin> held s0
        \<and> (\<exists>i c. k = call_key (calls i) \<and> pf_request p = DispatchRequest (dl_request (calls i))
             \<and> stored (sy_state y) k = Some c \<and> claim_matches c (dl_scope (calls i)) (dl_request (calls i))))"
  using reachable_ok [OF assms] unfolding system_ok_def by blast

end

end
