(* ===== verification/DispatchWorlds.thy ===== *)
theory DispatchWorlds
  imports DispatchInterleaving FileClaimStore
begin

text \<open>
  The dispatcher over both claim stores, with the recording executor: the laws of the dispatch
  locale hold of the code's own implementations.
\<close>

lemma memory_tick [simp]:
  "memory_ready (w\<lparr>ew_tick := n\<rparr>) = memory_ready w" "memory_stored (w\<lparr>ew_tick := n\<rparr>) = memory_stored w"
  "memory_held (w\<lparr>ew_tick := n\<rparr>) = memory_held w"
  by (simp_all add: memory_ready_def memory_stored_def memory_held_def)

lemma file_tick [simp]:
  "file_ready hash (w\<lparr>ew_tick := n\<rparr>) = file_ready hash w" "file_stored hash (w\<lparr>ew_tick := n\<rparr>) = file_stored hash w"
  "file_held hash (w\<lparr>ew_tick := n\<rparr>) = file_held hash w"
  by (simp_all add: file_ready_def file_stored_def file_held_def fun_eq_iff)

lemma put_claim_applied [simp]: "rx_applied (put_claim c w) = rx_applied w"
  by (simp add: put_claim_def)

lemma put_file_applied [simp]: "rx_applied (put_file p content w) = rx_applied w"
  by (simp add: put_file_def)

lemma dispatcher_simps [simp]:
  "dp_claims (runtime_dispatcher env port) = port" "dp_now (runtime_dispatcher env port) = utc_now env"
  "dp_new_claim_id (runtime_dispatcher env port) = new_claim_id env"
  by (simp_all add: runtime_dispatcher_def)

interpretation md: dispatching memory_claim_port memory_stored memory_held memory_ready
    "runtime_dispatcher env memory_claim_port" rx_applied for env
proof (unfold_locales, unfold dispatcher_simps)
  fix s t :: "'z memory_world_scheme" and k c org cid told drawn claimed found looked_up updated
  show "memory_ready t \<and> memory_stored t = memory_stored s \<and> memory_held t = memory_held s
      \<and> rx_applied t = rx_applied s" if "memory_ready s" "utc_now env s = (told, t)"
    using that by (auto simp: utc_now_def)
  show "memory_ready t \<and> memory_stored t = memory_stored s \<and> memory_held t = memory_held s
      \<and> rx_applied t = rx_applied s" if "memory_ready s" "new_claim_id env s = (drawn, t)"
    using that by (auto simp: new_claim_id_def)
  show "rx_applied t = rx_applied s" if "cp_claim memory_claim_port c s = (claimed, t)"
    using that [unfolded memory_claim_port_def claim_port.simps] by (cases rule: memory_claim_cases) simp_all
  show "rx_applied t = rx_applied s" if "cp_get memory_claim_port k s = (found, t)"
    using that by (simp add: memory_claim_port_def memory_get_def)
  show "rx_applied t = rx_applied s" if "cp_get_by_id memory_claim_port org cid s = (looked_up, t)"
    using that by (simp add: memory_claim_port_def memory_get_by_id_def)
  show "rx_applied t = rx_applied s" if "cp_update memory_claim_port c s = (updated, t)"
    using that [unfolded memory_claim_port_def claim_port.simps] by (cases rule: memory_update_cases) simp_all
qed simp

lemma file_claim_applied: "file_claim hash c w = (r, w') \<Longrightarrow> rx_applied w' = rx_applied w"
proof (drule file_claim_run, elim disjE exE conjE)
  fix fault r'
  assume "claim_locked hash c fault (w\<lparr>fw_ops := Suc (fw_ops w)\<rparr>) = (r', w')"
  then show "rx_applied w' = rx_applied w" by (cases rule: claim_locked_cases) simp_all
  then show "rx_applied w' = rx_applied w" .
qed simp_all

lemma file_update_applied: "file_update hash c w = (r, w') \<Longrightarrow> rx_applied w' = rx_applied w"
  unfolding file_update_def
proof (erule with_lock_cases)
  fix fault r'
  assume "update_locked hash c fault (w\<lparr>fw_ops := Suc (fw_ops w)\<rparr>) = (r', w')"
  then show "rx_applied w' = rx_applied w" by (cases rule: update_locked_cases) simp_all
qed simp

lemma file_reads_applied:
  "file_get hash k w = (r, w') \<Longrightarrow> rx_applied w' = rx_applied w"
  "file_get_by_id org cid w = (q, w') \<Longrightarrow> rx_applied w' = rx_applied w"
  by (auto simp: file_get_def file_get_by_id_def with_lock_def Let_def split: if_splits)

interpretation fd: dispatching "file_claim_port hash" "file_stored hash" "file_held hash" "file_ready hash"
    "runtime_dispatcher env (file_claim_port hash)" rx_applied for hash env
proof (unfold_locales, unfold dispatcher_simps)
  fix s t :: "'z file_world_scheme" and k c org cid told drawn claimed found looked_up updated
  show "file_ready hash t \<and> file_stored hash t = file_stored hash s \<and> file_held hash t = file_held hash s
      \<and> rx_applied t = rx_applied s" if "file_ready hash s" "utc_now env s = (told, t)"
    using that by (auto simp: utc_now_def)
  show "file_ready hash t \<and> file_stored hash t = file_stored hash s \<and> file_held hash t = file_held hash s
      \<and> rx_applied t = rx_applied s" if "file_ready hash s" "new_claim_id env s = (drawn, t)"
    using that by (auto simp: new_claim_id_def)
  show "rx_applied t = rx_applied s" if "cp_claim (file_claim_port hash) c s = (claimed, t)"
    using that file_claim_applied by (simp add: file_claim_port_def)
  show "rx_applied t = rx_applied s" if "cp_get (file_claim_port hash) k s = (found, t)"
    using that file_reads_applied(1) by (simp add: file_claim_port_def)
  show "rx_applied t = rx_applied s" if "cp_get_by_id (file_claim_port hash) org cid s = (looked_up, t)"
    using that file_reads_applied(2) by (simp add: file_claim_port_def)
  show "rx_applied t = rx_applied s" if "cp_update (file_claim_port hash) c s = (updated, t)"
    using that file_update_applied by (simp add: file_claim_port_def)
qed simp

section \<open>Calls on the recording executor\<close>

text \<open>The check and the observer may read anything and raise; they change nothing.\<close>

definition recorded_call ::
  "execution_scope \<Rightarrow> dispatch_request \<Rightarrow> recording \<Rightarrow> string option
   \<Rightarrow> ('z recorder_world_scheme \<Rightarrow> bool result) \<Rightarrow> (effect_claim \<Rightarrow> 'z recorder_world_scheme \<Rightarrow> unit result)
   \<Rightarrow> 'z recorder_world_scheme dispatch_call" where
  "recorded_call sc req x expected cancelled observed =
     \<lparr>dl_scope = sc, dl_request = req, dl_executor = recording_executor x, dl_expected_digest = expected,
      dl_cancellation = Some (\<lambda>_ _ w. (cancelled w, w)), dl_observer = Some (\<lambda>_ c w. (observed c w, w))\<rparr>"

lemma recorder_frame [simp]:
  "memory_ready (rx_calls_update f w) = memory_ready w" "memory_stored (rx_calls_update f w) = memory_stored w"
  "memory_held (rx_calls_update f w) = memory_held w"
  "memory_ready (rx_prepared_update g w) = memory_ready w" "memory_stored (rx_prepared_update g w) = memory_stored w"
  "memory_held (rx_prepared_update g w) = memory_held w"
  "memory_ready (rx_applied_update h w) = memory_ready w" "memory_stored (rx_applied_update h w) = memory_stored w"
  "memory_held (rx_applied_update h w) = memory_held w"
  "memory_ready (rx_aborted_update h w) = memory_ready w" "memory_stored (rx_aborted_update h w) = memory_stored w"
  "memory_held (rx_aborted_update h w) = memory_held w"
  "memory_ready (rx_authorized_update h w) = memory_ready w" "memory_stored (rx_authorized_update h w) = memory_stored w"
  "memory_held (rx_authorized_update h w) = memory_held w"
  by (simp_all add: memory_ready_def memory_stored_def memory_held_def)

lemma recorder_frame_file [simp]:
  "file_ready hash (rx_calls_update f v) = file_ready hash v" "file_stored hash (rx_calls_update f v) = file_stored hash v"
  "file_held hash (rx_calls_update f v) = file_held hash v"
  "file_ready hash (rx_prepared_update g v) = file_ready hash v" "file_stored hash (rx_prepared_update g v) = file_stored hash v"
  "file_held hash (rx_prepared_update g v) = file_held hash v"
  "file_ready hash (rx_applied_update h v) = file_ready hash v" "file_stored hash (rx_applied_update h v) = file_stored hash v"
  "file_held hash (rx_applied_update h v) = file_held hash v"
  "file_ready hash (rx_aborted_update h v) = file_ready hash v" "file_stored hash (rx_aborted_update h v) = file_stored hash v"
  "file_held hash (rx_aborted_update h v) = file_held hash v"
  "file_ready hash (rx_authorized_update h v) = file_ready hash v" "file_stored hash (rx_authorized_update h v) = file_stored hash v"
  "file_held hash (rx_authorized_update h v) = file_held hash v"
  by (simp_all add: file_ready_def file_stored_def file_held_def fun_eq_iff)

lemmas recorder_defs = recorded_call_def recording_executor_def recorder_prepare_def recorder_apply_def
  recorder_authorize_def recorder_abort_def

lemma recorded_behaves_memory: "md.well_behaved (recorded_call sc req x expected cancelled observed)"
  unfolding md.well_behaved_def by (auto simp: recorder_defs Let_def keeps_def md.same_claims_def)

lemma recorded_behaves_file: "fd.well_behaved hash (recorded_call sc req x expected cancelled observed)"
  unfolding fd.well_behaved_def by (auto simp: recorder_defs Let_def keeps_def fd.same_claims_def)

end
