(* ===== verification/DispatchProperties.thy ===== *)
theory DispatchProperties
  imports DispatchWorlds ClaimProperties
begin

text \<open>
  The properties of the dispatch over the code's own stores and the recording executor, with its
  callbacks, the cancellation check and the observer arbitrary.
\<close>

section \<open>Concrete calls\<close>

definition dispatch_env :: event_env where
  "dispatch_env = \<lparr>env_clock = (\<lambda>_. ''t3''),
     env_new_id = (\<lambda>n. ''00000000-0000-4000-8000-00000000000'' @ dec (n mod 10)), env_hash = (\<lambda>_. ''h'')\<rparr>"

definition sample_exec_scope :: execution_scope where
  "sample_exec_scope = \<lparr>xs_org_id = ''org'', xs_user_id = ''u1'', xs_conversation_id = Some ''conv'',
     xs_run_id = ''run1'', xs_owner_ref = ''user://u1''\<rparr>"

definition sample_request :: dispatch_request where
  "sample_request = \<lparr>dr_stage_id = sample_sid, dr_revision = 1, dr_idempotency_key = ''key1'', dr_executor = MCP,
     dr_target_ref = ''mcp://crm/7'', dr_target_digest = sample_digest (CHR ''a''),
     dr_proposal_ref = ''proposal://'' @ sample_sid @ ''/revisions/1'', dr_content_ref = ''artifact://a1/1'',
     dr_proposal_digest = sample_digest (CHR ''b''), dr_actor = USER, dr_decision_ledger_id = ''l2'',
     dr_row_keys = None\<rparr>"

definition sample_recording :: recording where
  "sample_recording = (recording_defaults MCP)\<lparr>rec_supports_prepare := False\<rparr>"

definition sample_call :: "'z recorder_world_scheme dispatch_call" where
  "sample_call = recorded_call sample_exec_scope sample_request sample_recording None (\<lambda>_. Inr False) (\<lambda>_ _. Inr ())"

definition sample_prepared :: prepared_effect where
  "sample_prepared = \<lparr>pf_request = DispatchRequest sample_request, pf_prepared_ref = None,
     pf_observed_digest = None, pf_expires_at = None\<rparr>"

section \<open>Interleaved workers\<close>

text \<open>C3: However workers interleave at their awaits, crash, restart and receive a command again,
  and whatever fails in the durable store, an effect is applied at most once per idempotency key:
  the executor's applications are exactly those of the log, whose keys are distinct, were free
  before, and each have a durable claim for the very request that was applied.
\<close>

theorem workers_apply_once:
  fixes w :: "'z file_world_scheme"
  assumes "file_ready hash w"
    and "(worker_step (runtime_dispatcher env (file_claim_port hash))
       (\<lambda>i. recorded_call (sc i) (req i) (x i) (expected i) (cancelled i) (observed i)))\<^sup>*\<^sup>* (started w) y"
  shows "distinct (map fst (sy_log y)) \<and> rx_applied (sy_state y) = rx_applied w @ map snd (sy_log y)
    \<and> (\<forall>(k, p) \<in> set (sy_log y). k \<notin> file_held hash w
        \<and> (\<exists>i c. k = (xs_org_id (sc i), dr_executor (req i), dr_idempotency_key (req i))
             \<and> pf_request p = DispatchRequest (req i)
             \<and> file_stored hash (sy_state y) k = Some c \<and> claim_matches c (sc i) (req i)))"
  using fd.applied_at_most_once [OF recorded_behaves_file assms]
  by (simp add: recorded_call_def call_key_def)

text \<open>Two workers race with one command: both have prepared when one claims and applies.\<close>

definition race :: "file_world system" where
  "race = fold (advance (runtime_dispatcher dispatch_env (file_claim_port id)) (\<lambda>_. sample_call))
     [0, 1, 0, 1, 0, 0, 0, 0, 0] (started (claim_directory (\<lambda>_. NoFault) []))"

theorem workers_apply_once_witness:
  "map fst (sy_log race) = [sample_key] \<and> distinct (map fst (sy_log race)) \<and> length (rx_applied (sy_state race)) = 1"
proof -
  have "(worker_step (runtime_dispatcher dispatch_env (file_claim_port id)) (\<lambda>i. recorded_call sample_exec_scope
       sample_request sample_recording None (\<lambda>_. Inr False) (\<lambda>_ _. Inr ())))\<^sup>*\<^sup>*
     (started (claim_directory (\<lambda>_. NoFault) [])) race"
    unfolding race_def sample_call_def by (rule advance_steps)
  note once = workers_apply_once [OF claim_directory_ready(1) this]
  have log: "map fst (sy_log race) = [sample_key]" unfolding race_def by code_simp
  then have "length (sy_log race) = 1" by (metis length_map One_nat_def length_Cons list.size(3))
  moreover have "rx_applied (claim_directory (\<lambda>_. NoFault) []) = []" by (simp add: claim_directory_def)
  ultimately show ?thesis using once log by simp
qed

text \<open>A worker that runs alone reaches the end of the protocol within eight awaits, whatever its
  store, its executor and its callbacks do, and does exactly what the dispatch does.
\<close>

theorem dispatch_in_eight_steps:
  "(machine_step d call ^^ 8) (AtLookup, s) = (Finished (fst (dispatch d call s)), snd (dispatch d call s))"
  using machine_run [of AtLookup 8 d call s] by simp

section \<open>One dispatch\<close>

text \<open>C13: A dispatch that reaches the executor's apply does so once, with the request it was given,
  under a key that was free, and only after a claim for that request is durable; the claim it
  leaves is the one it reports: completed when it answers applied, indeterminate when it answers
  indeterminate.
\<close>

theorem dispatch_applies_under_claim:
  assumes "file_ready hash w"
    and "dispatch (runtime_dispatcher env (file_claim_port hash)) (recorded_call sc req x expected cancelled observed) w = (r, w')"
    and "rx_applied w' \<noteq> rx_applied w"
  shows "\<exists>p c. rx_applied w' = rx_applied w @ [p] \<and> pf_request p = DispatchRequest req
     \<and> (xs_org_id sc, dr_executor req, dr_idempotency_key req) \<notin> file_held hash w
     \<and> file_stored hash w' (xs_org_id sc, dr_executor req, dr_idempotency_key req) = Some c
     \<and> claim_matches c sc req
     \<and> (\<forall>y. r = Inr y \<longrightarrow> ds_claim y = Some c
          \<and> (ds_status y = DISPATCH_APPLIED \<and> ec_state c = COMPLETED
             \<or> ds_status y = DISPATCH_INDETERMINATE \<and> ec_state c = INDETERMINATE))"
proof -
  let ?call = "recorded_call sc req x expected cancelled observed"
  have parts: "dl_scope ?call = sc" "dl_request ?call = req"
    "call_key ?call = (xs_org_id sc, dr_executor req, dr_idempotency_key req)"
    by (simp_all add: recorded_call_def call_key_def)
  from fd.dispatch_run [OF recorded_behaves_file assms(1,2)] assms(3)
  have "fd.took hash ?call w r w'" unfolding fd.quiet_def by blast
  then obtain p c u where c: "fd.fresh_claim ?call p c" "call_key ?call \<notin> file_held hash w"
    and u: "rx_applied u = rx_applied w" and "fd.unapplied hash c u r w' \<or> fd.applied_once hash c p u r w'"
    unfolding fd.took_def by blast
  then have once: "fd.applied_once hash c p u r w'"
    using assms(3) unfolding fd.unapplied_def by auto
  from c(1) have m: "claim_matches c sc req" and q: "pf_request p = DispatchRequest req"
    by (simp_all add: fd.fresh_claim_def parts)
  have key: "claim_key_of c = call_key ?call"
    using m by (simp add: parts claim_matches_def claim_key_of_def)
  from once u obtain e where e: "file_stored hash w' = (file_stored hash u)(call_key ?call := Some e)"
    "claim_follows c e" "rx_applied w' = rx_applied w @ [p]"
    "\<forall>y. r = Inr y \<longrightarrow> ds_claim y = Some e \<and> ds_outcome y = ec_outcome e
          \<and> (ds_status y = DISPATCH_APPLIED \<and> ec_state e = COMPLETED
             \<or> ds_status y = DISPATCH_INDETERMINATE \<and> ec_state e = INDETERMINATE)"
    unfolding fd.applied_once_def key by metis
  from e(2) have "same_request_as c e" by (simp add: claim_follows_def)
  with m have "claim_matches e sc req" by (simp add: same_request_as_def claim_matches_def)
  with e q c(2) show ?thesis unfolding parts by (intro exI [of _ p] exI [of _ e]) simp
qed

theorem dispatch_applies_under_claim_witness:
  "\<exists>y. fst (dispatch (runtime_dispatcher dispatch_env (file_claim_port id)) sample_call
       (claim_directory (\<lambda>_. NoFault) [])) = Inr y \<and> ds_status y = DISPATCH_APPLIED
     \<and> (\<exists>c. ds_claim y = Some c \<and> ec_state c = COMPLETED)"
proof -
  let ?run = "dispatch (runtime_dispatcher dispatch_env (file_claim_port id)) sample_call (claim_directory (\<lambda>_. NoFault) [])"
  have shown: "(case ?run of (Inl e, t) \<Rightarrow> False
      | (Inr y, t) \<Rightarrow> ds_status y = DISPATCH_APPLIED \<and> length (rx_applied t) = 1)"
    by code_simp
  then obtain y t where run: "?run = (Inr y, t)" and st: "ds_status y = DISPATCH_APPLIED"
    and one: "length (rx_applied t) = 1" by (auto split: prod.splits sum.splits)
  from one have "rx_applied t \<noteq> rx_applied (claim_directory (\<lambda>_. NoFault) [])" by (auto simp: claim_directory_def)
  from dispatch_applies_under_claim [OF claim_directory_ready(1) run [unfolded sample_call_def] this] st
  show ?thesis by (auto simp: run)
qed

section \<open>Repeated commands\<close>

text \<open>A command whose key has a claim never reaches the executor: the dispatch answers from the
  claim alone (claimed, indeterminate or replayed, or refused as a conflict when the claim is for
  another request) and changes nothing.
\<close>

theorem dispatch_replays_claim:
  assumes "rec_kind x = dr_executor req"
    and "memory_stored w (xs_org_id sc, dr_executor req, dr_idempotency_key req) = Some c"
  shows "dispatch (runtime_dispatcher env memory_claim_port) (recorded_call sc req x expected cancelled observed) w
     = (Inr (if \<not> claim_matches c sc req then refused req ''effect_claim_conflict''
             else if ec_state c = CLAIMED then from_claim c DISPATCH_CLAIMED
             else if ec_state c = INDETERMINATE then from_claim c DISPATCH_INDETERMINATE
             else from_claim c DISPATCH_REPLAYED), w)"
  using assms
  by (simp add: dispatch_def recorded_call_def recording_executor_def call_key_def memory_claim_port_def memory_get_def
      memory_stored_def bnd_def ret_def prior_claim_def existing_result_def)

theorem dispatch_replays_claim_witness:
  "dispatch (runtime_dispatcher dispatch_env memory_claim_port) sample_call (put_claim sample_claim claim_dictionaries)
   = (Inr (from_claim sample_claim DISPATCH_CLAIMED), put_claim sample_claim claim_dictionaries)"
proof -
  have stored: "memory_stored (put_claim sample_claim claim_dictionaries)
      (xs_org_id sample_exec_scope, dr_executor sample_request, dr_idempotency_key sample_request) = Some sample_claim"
    by (simp add: memory_stored_def put_claim_maps claim_key_of_def sample_claim_def sample_exec_scope_def sample_request_def)
  have kind: "rec_kind sample_recording = dr_executor sample_request"
    by (simp add: sample_recording_def recording_defaults_def sample_request_def)
  have claim: "claim_matches sample_claim sample_exec_scope sample_request" "ec_state sample_claim = CLAIMED"
    by (simp_all add: claim_matches_def sample_claim_def sample_exec_scope_def sample_request_def)
  show ?thesis
    unfolding sample_call_def using dispatch_replays_claim [OF kind stored] claim by simp
qed

section \<open>Outcomes that can be recorded\<close>

lemma plain_outcome_recordable:
  assumes "claim_ok c" and "ec_state c = CLAIMED"
    and "st = COMPLETED \<and> x \<noteq> INDETERMINATE_OUTCOME \<or> st = INDETERMINATE \<and> x = INDETERMINATE_OUTCOME
      \<or> st = CLAIM_CANCELLED \<and> x = CANCELLED_OUTCOME"
  shows "ok (completed c (plain_outcome x m) st now) \<longleftrightarrow> (st = COMPLETED \<longrightarrow> ec_row_keys c = None)"
proof -
  have message: "opt_ok (\<lambda>m. length m \<le> 512 \<and> single_line m) (safe_message_of v)" for v
    by (simp add: safe_message_of_def split: option.split)
  define e where "e = c\<lparr>ec_state := st, ec_outcome := Some x, ec_receipt_ref := None, ec_result_digest := None,
      ec_safe_message := safe_message_of (Some m), ec_row_results := None, ec_updated_at := now\<rparr>"
  have "claim_fields_ok e" "claim_identity_ok e" "claim_receipt_ok e"
    using assms(1) message by (simp_all add: e_def claim_ok_def claim_fields_ok_def claim_identity_ok_def claim_receipt_ok_def)
  moreover have "claim_outcome_ok e" using assms(3) by (auto simp: e_def claim_outcome_ok_def)
  moreover have "claim_rows_ok e \<longleftrightarrow> (st = COMPLETED \<longrightarrow> ec_row_keys c = None)"
    by (auto simp: e_def claim_rows_ok_def)
  ultimately have "claim_ok e \<longleftrightarrow> (st = COMPLETED \<longrightarrow> ec_row_keys c = None)" by (simp add: claim_ok_def)
  moreover have "completed c (plain_outcome x m) st now = effect_claim_make e"
    by (simp add: completed_def plain_outcome_def e_def)
  ultimately show ?thesis by (simp add: effect_claim_make_def)
qed

lemma not_recordable: "\<not> ok (completed c x st now) \<Longrightarrow> completed c x st now = Inl ValidationError"
  by (simp add: completed_def effect_claim_make_def split: if_splits)

text \<open>A claim can always be recorded as cancelled and as indeterminate, but the outcome of a denied
  authorization can be recorded only when the claim has no row scope: a completed row-set claim
  must carry row outcomes, and a denial has none.
\<close>

theorem recordable_outcomes:
  assumes "claim_ok c" and "ec_state c = CLAIMED"
  shows "ok (completed c cancelled_result CLAIM_CANCELLED now)
     \<and> ok (completed c unconfirmed_result INDETERMINATE now)
     \<and> (ok (completed c denied_result COMPLETED now) \<longleftrightarrow> ec_row_keys c = None)"
  unfolding cancelled_result_def unconfirmed_result_def denied_result_def
  using assms by (simp add: plain_outcome_recordable)

theorem recordable_outcomes_witness:
  "\<not> ok (completed (sample_claim\<lparr>ec_row_keys := Some [''r1'']\<rparr>) denied_result COMPLETED ''t4'')"
proof -
  have "claim_ok (sample_claim\<lparr>ec_row_keys := Some [''r1'']\<rparr>)" by code_simp
  moreover have "ec_state (sample_claim\<lparr>ec_row_keys := Some [''r1'']\<rparr>) = CLAIMED" by (simp add: sample_claim_def)
  ultimately show ?thesis using recordable_outcomes [of "sample_claim\<lparr>ec_row_keys := Some [''r1'']\<rparr>" "''t4''"] by simp
qed

text \<open>C27: When the authorization of a claimed row-set effect is denied, the dispatch raises a validation
  error instead of refusing, over any store: nothing is applied and no update reaches the store,
  so the claim stays claimed.
\<close>

theorem denied_row_set_raises:
  assumes "claim_ok c" and "ec_state c = CLAIMED" and "ec_row_keys c \<noteq> None"
    and "rec_on_authorize x = Some f"
    and "\<And>calls. \<exists>a. f calls p = Inr a \<and> (a = None \<or> (\<exists>b. a = Some b \<and> \<not> ea_allowed b))"
  shows "\<exists>calls authorized aborted tick.
     authorize_claimed (runtime_dispatcher env port) (recorded_call sc req x expected cancelled observed) c p w
     = (Inl ValidationError, w\<lparr>rx_calls := calls, rx_authorized := authorized, rx_aborted := aborted, ew_tick := tick\<rparr>)"
proof -
  let ?call = "recorded_call sc req x expected cancelled observed"
  let ?u = "w\<lparr>rx_calls := rx_calls w @ [''authorize''], rx_authorized := rx_authorized w @ [p]\<rparr>"
  obtain a where a: "f (rx_calls w @ [''authorize'']) p = Inr a" "a = None \<or> (\<exists>b. a = Some b \<and> \<not> ea_allowed b)"
    using assms(5) by blast
  from a obtain b where "authorize_safely (dl_executor ?call) p w = (Inr b, ?u)" and b: "\<not> ea_allowed b"
    using assms(4)
    by (cases a) (auto simp: authorize_safely_def attempt_def catch_def bnd_def ret_def recorder_defs Let_def)
  then have "authorize_claimed (runtime_dispatcher env port) ?call c p w
      = deny (runtime_dispatcher env port) ?call c p (ea_safe_code b) ?u"
    by (simp add: authorize_claimed_def eff_simps)
  moreover from plain_outcome_recordable [OF assms(1,2), of COMPLETED FAILED] assms(3)
  have "completed c denied_result COMPLETED now = Inl ValidationError" for now
    by (intro not_recordable) (simp add: denied_result_def)
  ultimately have "authorize_claimed (runtime_dispatcher env port) ?call c p w
      = (Inl ValidationError, ?u\<lparr>rx_calls := rx_calls ?u @ [''abort''], rx_aborted := rx_aborted ?u @ [p],
          ew_tick := Suc (ew_tick w)\<rparr>)"
    by (simp add: deny_def record_outcome_def abort_safely_def recorder_defs catch_def bnd_def utc_now_def ret_def lift_def)
  then show ?thesis
    by (intro exI [of _ "rx_calls w @ [''authorize''] @ [''abort'']"] exI [of _ "rx_authorized w @ [p]"]
        exI [of _ "rx_aborted w @ [p]"] exI [of _ "Suc (ew_tick w)"]) simp
qed

theorem denied_row_set_raises_witness:
  "fst (authorize_claimed (runtime_dispatcher dispatch_env memory_claim_port)
     (recorded_call sample_exec_scope sample_request
        (sample_recording\<lparr>rec_on_authorize := Some (\<lambda>_ _. Inr (Some \<lparr>ea_allowed = False, ea_safe_code = ''revoked''\<rparr>))\<rparr>)
        None (\<lambda>_. Inr False) (\<lambda>_ _. Inr ()))
     (sample_claim\<lparr>ec_row_keys := Some [''r1'']\<rparr>) sample_prepared claim_dictionaries) = Inl ValidationError"
proof -
  have "claim_ok (sample_claim\<lparr>ec_row_keys := Some [''r1'']\<rparr>)" by code_simp
  then have "\<exists>calls authorized aborted tick. authorize_claimed (runtime_dispatcher dispatch_env memory_claim_port)
     (recorded_call sample_exec_scope sample_request
        (sample_recording\<lparr>rec_on_authorize := Some (\<lambda>_ _. Inr (Some \<lparr>ea_allowed = False, ea_safe_code = ''revoked''\<rparr>))\<rparr>)
        None (\<lambda>_. Inr False) (\<lambda>_ _. Inr ()))
     (sample_claim\<lparr>ec_row_keys := Some [''r1'']\<rparr>) sample_prepared claim_dictionaries
     = (Inl ValidationError, claim_dictionaries\<lparr>rx_calls := calls, rx_authorized := authorized, rx_aborted := aborted,
          ew_tick := tick\<rparr>)"
    by (rule denied_row_set_raises [where f = "\<lambda>_ _. Inr (Some \<lparr>ea_allowed = False, ea_safe_code = ''revoked''\<rparr>)"])
       (simp_all add: sample_claim_def)
  then show ?thesis by (elim exE) simp
qed

text \<open>When the executor's apply raises any exception, the effect counts as possibly sent: over the
  in-memory store the dispatch answers indeterminate, and that is what the claim records.
\<close>

theorem apply_exception_is_indeterminate:
  assumes "claim_ok c" and "ec_state c = CLAIMED" and "memory_stored w (claim_key_of c) = Some c"
    and "rec_on_apply x = Some f" and "\<And>calls. \<exists>e. f calls p = Inl e \<and> is_exception e"
    and "apply_claimed (runtime_dispatcher env memory_claim_port) (recorded_call sc req x expected cancelled observed) c p w
      = (r, w')"
  shows "\<exists>d. r = Inr (from_claim d DISPATCH_INDETERMINATE) \<and> memory_stored w' (claim_key_of c) = Some d
     \<and> ec_state d = INDETERMINATE \<and> claim_follows c d"
proof -
  let ?u = "w\<lparr>rx_calls := rx_calls w @ [''apply''], rx_applied := rx_applied w @ [p]\<rparr>"
  obtain e where "f (rx_calls w @ [''apply'']) p = Inl e" "is_exception e" using assms(5) by blast
  with assms(4,6) have run: "indeterminate (runtime_dispatcher env memory_claim_port) c None ?u = (r, w')"
    by (simp add: apply_claimed_def attempt_def catch_def bnd_def ret_def recorder_defs settle_def)
  let ?now = "env_clock env (ew_tick w)"
  from plain_outcome_recordable [OF assms(1,2), of INDETERMINATE INDETERMINATE_OUTCOME]
  obtain d where d: "completed c unconfirmed_result INDETERMINATE ?now = Inr d"
    by (auto simp: unconfirmed_result_def ok_iff)
  note follows = md.completed_follows [OF d disjI1 [OF assms(2)]]
  then have "ec_claim_id c = ec_claim_id d" by (simp add: claim_follows_def)
  with assms(3) follows d run have "r = Inr (from_claim d DISPATCH_INDETERMINATE)"
    "w' = put_claim d (?u\<lparr>ew_tick := Suc (ew_tick w)\<rparr>)"
    by (simp_all add: indeterminate_def record_outcome_def utc_now_def eff_simps bnd_def lift_def memory_claim_port_def
        memory_update_def memory_stored_def)
  with follows show ?thesis by (intro exI [of _ d]) (simp add: memory_stored_def put_claim_maps)
qed

theorem apply_exception_is_indeterminate_witness:
  "\<exists>d w'. apply_claimed (runtime_dispatcher dispatch_env memory_claim_port)
     (recorded_call sample_exec_scope sample_request (sample_recording\<lparr>rec_on_apply := Some (\<lambda>_ _. Inl TimeoutError)\<rparr>)
        None (\<lambda>_. Inr False) (\<lambda>_ _. Inr ()))
     sample_claim sample_prepared (put_claim sample_claim claim_dictionaries)
   = (Inr (from_claim d DISPATCH_INDETERMINATE), w') \<and> ec_state d = INDETERMINATE"
proof -
  let ?run = "apply_claimed (runtime_dispatcher dispatch_env memory_claim_port)
     (recorded_call sample_exec_scope sample_request (sample_recording\<lparr>rec_on_apply := Some (\<lambda>_ _. Inl TimeoutError)\<rparr>)
        None (\<lambda>_. Inr False) (\<lambda>_ _. Inr ()))
     sample_claim sample_prepared (put_claim sample_claim claim_dictionaries)"
  have "\<exists>d. fst ?run = Inr (from_claim d DISPATCH_INDETERMINATE)
     \<and> memory_stored (snd ?run) (claim_key_of sample_claim) = Some d \<and> ec_state d = INDETERMINATE
     \<and> claim_follows sample_claim d"
    by (rule apply_exception_is_indeterminate [where f = "\<lambda>_ _. Inl TimeoutError", OF sample_claim_ok _ _ _ _
          prod.collapse [symmetric]])
       (simp_all add: sample_claim_def memory_stored_def put_claim_maps is_exception_def)
  then show ?thesis by (metis prod.collapse)
qed

end
