(* ===== verification/EffectCoordinator.thy ===== *)
theory EffectCoordinator
  imports EffectDispatch
begin

text \<open>
  \<open>effects/coordinator.py\<close>: from a commit command to the dispatch. The coordinator resolves the
  run's scope, folds the stage and compares it with the command, hashes the immutable references,
  resolves the executor, dispatches, and publishes what happened to the ledger and the audit sink.
  Reconciliation resolves an old claim without ever applying.
\<close>

section \<open>Results and ports\<close>

datatype coordinator_status =
  COMMIT_APPLIED | COMMIT_REPLAYED | COMMIT_REFUSED | COMMIT_DRIFT | COMMIT_CANCELLED
  | COMMIT_INDETERMINATE | COMMIT_CLAIMED

fun commit_status :: "dispatch_status \<Rightarrow> coordinator_status" where
  "commit_status DISPATCH_APPLIED = COMMIT_APPLIED"
| "commit_status DISPATCH_REPLAYED = COMMIT_REPLAYED"
| "commit_status DISPATCH_REFUSED = COMMIT_REFUSED"
| "commit_status DISPATCH_DRIFT = COMMIT_DRIFT"
| "commit_status DISPATCH_CANCELLED = COMMIT_CANCELLED"
| "commit_status DISPATCH_INDETERMINATE = COMMIT_INDETERMINATE"
| "commit_status DISPATCH_CLAIMED = COMMIT_CLAIMED"

record coordinator_result =
  cr_status :: coordinator_status
  cr_stage_id :: string
  cr_revision :: int
  cr_claim_id :: "string option"
  cr_outcome :: "effect_outcome option"
  cr_safe_code :: string

record reconcile_command =
  rk_org_id :: string
  rk_claim_id :: string

definition reconcile_command_make :: "reconcile_command \<Rightarrow> reconcile_command result" where
  "reconcile_command_make c =
     (if bounded_text 255 (rk_org_id c) \<and> bounded_text 255 (rk_claim_id c) then Inr c else Inl ValidationError)"

text \<open>A chunk of an immutable reference; a resolver may hand out something that is no bytes.\<close>

datatype chunk = Bytes string | NotBytes

record 's coordinator =
  co_ledger :: "'s ledger_port"
  co_dispatcher :: "'s dispatcher"
  co_resolve_scope :: "string \<Rightarrow> ('s, execution_scope option) eff"
  co_open :: "execution_scope \<Rightarrow> string \<Rightarrow> ('s, chunk list) eff"
  co_executors :: "'s executor_registry"
  co_cancellation :: "(execution_scope \<Rightarrow> commit_command \<Rightarrow> ('s, bool) eff) option"
  co_audit :: "string \<Rightarrow> dict \<Rightarrow> ('s, unit) eff"
  co_hash :: "string \<Rightarrow> string"

section \<open>The result recorder\<close>

definition phase_key :: "(string \<Rightarrow> string) \<Rightarrow> string \<Rightarrow> string \<Rightarrow> string" where
  "phase_key hash identity phase = ''effect:'' @ phase @ '':'' @ hash identity"

definition phase_fingerprint :: "(string \<Rightarrow> string) \<Rightarrow> string \<Rightarrow> dict \<Rightarrow> string" where
  "phase_fingerprint hash phase v = hash (json_text (JObj [(''phase'', JStr phase), (''value'', JObj v)]))"

definition safe_message_or :: "string option \<Rightarrow> string \<Rightarrow> string" where
  "safe_message_or v fallback = (case safe_message_of v of None \<Rightarrow> fallback | Some m \<Rightarrow> m)"

definition unknown_outcome :: string where
  "unknown_outcome = ''The effect outcome could not be confirmed.''"

definition append_phase ::
  "'s coordinator \<Rightarrow> stage_scope \<Rightarrow> string \<Rightarrow> effect_claim \<Rightarrow> string \<Rightarrow> dict \<Rightarrow> ('s, unit) eff" where
  "append_phase co sc phase c ty payload =
     bnd (lp_append (co_ledger co) sc ty payload (phase_key (co_hash co) (ec_claim_id c) phase)
            (phase_fingerprint (co_hash co) phase payload)) (\<lambda>_. ret ())"

definition claimed_payload :: "effect_claim \<Rightarrow> dict" where
  "claimed_payload c =
     [(''v'', JInt 1), (''stage_id'', JStr (ec_stage_id c)), (''revision'', JInt (ec_revision c)),
      (''claim_id'', JStr (ec_claim_id c)), (''executor'', JStr (executor_kind_value (ec_executor c))),
      (''attempt'', JInt (ec_attempt c))]"

definition record_claimed :: "'s coordinator \<Rightarrow> stage_scope \<Rightarrow> effect_claim \<Rightarrow> ('s, unit) eff" where
  "record_claimed co sc c = append_phase co sc ''claimed'' c EFFECT_CLAIMED (claimed_payload c)"

definition indeterminate_payload :: "effect_claim \<Rightarrow> dict" where
  "indeterminate_payload c =
     [(''v'', JInt 1), (''stage_id'', JStr (ec_stage_id c)), (''revision'', JInt (ec_revision c)),
      (''claim_id'', JStr (ec_claim_id c)), (''reason'', JStr (safe_message_or (ec_safe_message c) unknown_outcome))]"

definition row_result_json :: "row_result \<Rightarrow> json" where
  "row_result_json r = JObj
     [(''row_key'', JStr (wr_row_key r)), (''outcome'', JStr (row_outcome_value (wr_outcome r))),
      (''detail'', jstr_opt (wr_detail r))]"

definition applied_payload :: "effect_claim \<Rightarrow> effect_outcome \<Rightarrow> dict" where
  "applied_payload c outcome =
     [(''v'', JInt 1), (''stage_id'', JStr (ec_stage_id c)), (''revision'', JInt (ec_revision c)),
      (''outcome'', JStr (effect_outcome_value outcome))]
     @ (case ec_receipt_ref c of None \<Rightarrow> [] | Some r \<Rightarrow> [(''receipt_ref'', JStr r)])
     @ (case ec_result_digest c of None \<Rightarrow> [] | Some h \<Rightarrow> [(''result_digest'', JStr h)])
     @ (case ec_row_results c of None \<Rightarrow> [] | Some rs \<Rightarrow> [(''row_results'', JArr (map row_result_json rs))])"

definition record_completion :: "'s coordinator \<Rightarrow> stage_scope \<Rightarrow> effect_claim \<Rightarrow> ('s, unit) eff" where
  "record_completion co sc c =
     (if ec_state c = INDETERMINATE
      then append_phase co sc ''indeterminate'' c EFFECT_INDETERMINATE (indeterminate_payload c)
      else (case ec_outcome c of
          None \<Rightarrow> ret ()
        | Some outcome \<Rightarrow> append_phase co sc ''applied'' c EFFECT_APPLIED (applied_payload c outcome)))"

definition record_preclaim_drift :: "'s coordinator \<Rightarrow> stage_scope \<Rightarrow> commit_command \<Rightarrow> ('s, unit) eff" where
  "record_preclaim_drift co sc cmd =
     bnd (lp_append (co_ledger co) sc EFFECT_APPLIED
            [(''v'', JInt 1), (''stage_id'', JStr (cc_stage_id cmd)), (''revision'', JInt (cc_revision cmd)),
             (''outcome'', JStr (effect_outcome_value PRECONDITION_DRIFT))]
            (phase_key (co_hash co) (cc_idempotency_key cmd) ''preclaim-drift'')
            (phase_fingerprint (co_hash co) ''preclaim-drift''
               [(''stage_id'', JStr (cc_stage_id cmd)), (''revision'', JInt (cc_revision cmd)),
                (''proposal_digest'', JStr (cc_proposal_digest cmd)), (''target_digest'', JStr (cc_target_digest cmd))]))
       (\<lambda>_. ret ())"

definition reconciled_payload :: "effect_claim \<Rightarrow> effect_outcome \<Rightarrow> dict" where
  "reconciled_payload c outcome =
     [(''v'', JInt 1), (''stage_id'', JStr (ec_stage_id c)), (''revision'', JInt (ec_revision c)),
      (''claim_id'', JStr (ec_claim_id c)), (''outcome'', JStr (effect_outcome_value outcome))]
     @ (case ec_receipt_ref c of None \<Rightarrow> [] | Some r \<Rightarrow> if r = [] then [] else [(''receipt_ref'', JStr r)])"

definition record_reconciled :: "'s coordinator \<Rightarrow> stage_scope \<Rightarrow> effect_claim \<Rightarrow> ('s, unit) eff" where
  "record_reconciled co sc c = (case ec_outcome c of
       None \<Rightarrow> ret ()
     | Some outcome \<Rightarrow> append_phase co sc ''reconciled'' c EFFECT_RECONCILED (reconciled_payload c outcome))"

section \<open>Authority\<close>

text \<open>
  The failed rows of the latest applied result. An outcome that cannot be hashed raises
  \<open>TypeError\<close> out of the membership test.
\<close>

definition applied_rows :: "structural_event \<Rightarrow> json list option" where
  "applied_rows ev =
     (if ev_event_type ev \<noteq> EFFECT_APPLIED then None
      else (case dget (ev_payload ev) ''row_results'' JNull of JArr js \<Rightarrow> Some js | _ \<Rightarrow> None))"

fun latest_event :: "structural_event list \<Rightarrow> structural_event \<Rightarrow> structural_event" where
  "latest_event [] best = best"
| "latest_event (ev # evs) best = latest_event evs (if event_key best < event_key ev then ev else best)"

fun failed_rows :: "json list \<Rightarrow> string list \<Rightarrow> string list option result" where
  "failed_rows [] seen = Inr (Some [])"
| "failed_rows (JObj row # js) seen =
     (case dget row ''row_key'' JNull of
        JStr k \<Rightarrow>
          if k = [] \<or> k \<in> set seen then Inr None
          else (case dget row ''outcome'' JNull of
              JStr x \<Rightarrow>
                if x = ''failed'' then rbind (failed_rows js (k # seen)) (\<lambda>v. Inr (map_option (Cons k) v))
                else if x = ''applied'' then failed_rows js (k # seen)
                else Inr None
            | JArr _ \<Rightarrow> Inl TypeError
            | JObj _ \<Rightarrow> Inl TypeError
            | _ \<Rightarrow> Inr None)
      | _ \<Rightarrow> Inr None)"
| "failed_rows (_ # js) seen = Inr None"

definition latest_failed_scope :: "structural_event list \<Rightarrow> string \<Rightarrow> string list option result" where
  "latest_failed_scope evs basis = (case filter (\<lambda>ev. applied_rows ev \<noteq> None) evs of
       [] \<Rightarrow> Inr None
     | first # rest \<Rightarrow>
         let latest = latest_event rest first in
         if ev_ledger_id latest \<noteq> basis then Inr None
         else rbind (failed_rows (case applied_rows latest of None \<Rightarrow> [] | Some js \<Rightarrow> js) []) (\<lambda>v.
           Inr (if v = Some [] then None else v)))"

definition command_row_scope_matches ::
  "structural_event list \<Rightarrow> string list option \<Rightarrow> commit_command \<Rightarrow> bool result" where
  "command_row_scope_matches evs decision_rows cmd = (case cc_retry_basis cmd of
       None \<Rightarrow> Inr (decision_rows = cc_row_keys cmd)
     | Some basis \<Rightarrow>
         (case (decision_rows, cc_row_keys cmd) of
            (Some ds, Some ks) \<Rightarrow>
              if \<not> set ks \<subseteq> set ds then Inr False
              else rbind (latest_failed_scope evs basis) (\<lambda>v.
                Inr (case v of None \<Rightarrow> False | Some failed \<Rightarrow> set ks = set failed))
          | _ \<Rightarrow> Inr False))"

text \<open>The comparison of the folded stage with the command, in the order of the code.\<close>

definition stage_approves :: "stage_scope \<Rightarrow> stage_state \<Rightarrow> stage_decision \<Rightarrow> commit_command \<Rightarrow> bool" where
  "stage_approves sc st dcn cmd \<longleftrightarrow>
     st_scope st = sc \<and> st_status st = APPROVED \<and> approval_ready st \<and> dc_decision dcn = APPROVE
     \<and> dc_revision dcn = cc_revision cmd \<and> dc_ledger_id dcn = cc_decision_ledger_id cmd
     \<and> dc_proposal_digest dcn = cc_proposal_digest cmd \<and> dc_target_digest dcn = cc_target_digest cmd"

definition stage_current :: "stage_state \<Rightarrow> commit_command \<Rightarrow> bool" where
  "stage_current st cmd \<longleftrightarrow>
     rv_revision (current_revision st) = cc_revision cmd \<and> rv_digest (current_revision st) = cc_proposal_digest cmd
     \<and> st_target_digest st = cc_target_digest cmd"

definition authorised_state ::
  "stage_scope \<Rightarrow> commit_command \<Rightarrow> structural_event list \<Rightarrow> stage_state \<Rightarrow> stage_state option result" where
  "authorised_state sc cmd evs st = (case st_decision st of
       None \<Rightarrow> Inr None
     | Some dcn \<Rightarrow>
         if \<not> stage_approves sc st dcn cmd then Inr None
         else rbind (command_row_scope_matches evs (dc_row_keys dcn) cmd) (\<lambda>rows.
           Inr (if rows \<and> stage_current st cmd then Some st else None)))"

definition load_authorised_stage ::
  "'s coordinator \<Rightarrow> stage_scope \<Rightarrow> commit_command \<Rightarrow> ('s, stage_state option) eff" where
  "load_authorised_stage co sc cmd =
     bnd (attempt (bnd (lp_list (co_ledger co) sc (cc_stage_id cmd)) (\<lambda>evs.
        bnd (lift (stage_fold evs)) (\<lambda>st. ret (evs, st))))) (\<lambda>r.
     case r of
       Inl _ \<Rightarrow> ret None
     | Inr (evs, st) \<Rightarrow> lift (authorised_state sc cmd evs st))"

fun chunk_bytes :: "chunk list \<Rightarrow> string option" where
  "chunk_bytes [] = Some []"
| "chunk_bytes (NotBytes # cs) = None"
| "chunk_bytes (Bytes b # cs) = map_option (append b) (chunk_bytes cs)"

definition digest_reference :: "'s coordinator \<Rightarrow> execution_scope \<Rightarrow> string \<Rightarrow> ('s, string option) eff" where
  "digest_reference co xs r =
     bnd (attempt (co_open co xs r)) (\<lambda>v.
     ret (case v of Inl _ \<Rightarrow> None | Inr cs \<Rightarrow> map_option (co_hash co) (chunk_bytes cs)))"

definition references_match :: "'s coordinator \<Rightarrow> execution_scope \<Rightarrow> stage_state \<Rightarrow> ('s, bool) eff" where
  "references_match co xs st = (case rv_content_ref (current_revision st) of
       None \<Rightarrow> ret False
     | Some content \<Rightarrow>
         bnd (digest_reference co xs content) (\<lambda>proposal.
         bnd (digest_reference co xs (tg_target_ref (st_target st))) (\<lambda>target.
         ret (proposal = Some (rv_digest (current_revision st)) \<and> target = Some (st_target_digest st)))))"

section \<open>Audit facts and refusals\<close>

definition audit_facts :: "commit_command \<Rightarrow> stage_state \<Rightarrow> string option \<Rightarrow> dict" where
  "audit_facts cmd st claim_id =
     [(''run_id'', JStr (cc_run_id cmd)), (''stage_id'', JStr (st_stage_id st)), (''revision'', JInt (cc_revision cmd)),
      (''decision_ledger_id'', JStr (cc_decision_ledger_id cmd)),
      (''executor'', JStr (executor_kind_value (st_executor st))), (''operation_id'', JStr (st_operation_id st)),
      (''claim_id'', jstr_opt claim_id),
      (''row_count'', case cc_row_keys cmd of None \<Rightarrow> JNull | Some ks \<Rightarrow> JInt (int (length ks)))]"

definition refuse :: "'s coordinator \<Rightarrow> commit_command \<Rightarrow> string \<Rightarrow> ('s, coordinator_result) eff" where
  "refuse co cmd safe =
     bnd (co_audit co ''effect.commit.refused''
            [(''run_id'', JStr (cc_run_id cmd)), (''stage_id'', JStr (cc_stage_id cmd)),
             (''revision'', JInt (cc_revision cmd)), (''code'', JStr safe)]) (\<lambda>_.
     ret \<lparr>cr_status = COMMIT_REFUSED, cr_stage_id = cc_stage_id cmd, cr_revision = cc_revision cmd,
          cr_claim_id = None, cr_outcome = None, cr_safe_code = safe\<rparr>)"

section \<open>Dispatching a commit\<close>

definition request_of :: "stage_state \<Rightarrow> commit_command \<Rightarrow> dispatch_request result" where
  "request_of st cmd = (case st_decision st of
       None \<Rightarrow> Inl ValueError
     | Some dcn \<Rightarrow> (case rv_content_ref (current_revision st) of
           None \<Rightarrow> Inl ValueError
         | Some content \<Rightarrow> dispatch_request_make
             \<lparr>dr_stage_id = st_stage_id st, dr_revision = cc_revision cmd,
              dr_idempotency_key = cc_idempotency_key cmd, dr_executor = st_executor st,
              dr_target_ref = tg_target_ref (st_target st), dr_target_digest = st_target_digest st,
              dr_proposal_ref = rv_proposal_ref (current_revision st), dr_content_ref = content,
              dr_proposal_digest = rv_digest (current_revision st), dr_actor = ai_actor (dc_actor dcn),
              dr_decision_ledger_id = dc_ledger_id dcn, dr_row_keys = cc_row_keys cmd\<rparr>))"

text \<open>\<open>_CoordinatorDispatchObserver.claimed\<close>.\<close>

definition observe_claim ::
  "'s coordinator \<Rightarrow> stage_scope \<Rightarrow> stage_state \<Rightarrow> commit_command \<Rightarrow> execution_scope \<Rightarrow> effect_claim \<Rightarrow> ('s, unit) eff" where
  "observe_claim co sc st cmd xs c =
     bnd (demand (xs_run_id xs = sc_run_id sc) ValueError) (\<lambda>_.
     bnd (record_claimed co sc c) (\<lambda>_.
     co_audit co ''effect.commit.claimed'' (audit_facts cmd st (Some (ec_claim_id c)))))"

definition commit_call ::
  "'s coordinator \<Rightarrow> execution_scope \<Rightarrow> stage_scope \<Rightarrow> stage_state \<Rightarrow> commit_command \<Rightarrow> dispatch_request
     \<Rightarrow> 's effect_executor \<Rightarrow> 's dispatch_call" where
  "commit_call co xs sc st cmd req ex =
     \<lparr>dl_scope = xs, dl_request = req, dl_executor = ex,
      dl_expected_digest = rv_precondition_digest (current_revision st),
      dl_cancellation = map_option (\<lambda>f active _. f active cmd) (co_cancellation co),
      dl_observer = Some (observe_claim co sc st cmd)\<rparr>"

definition published :: "'s coordinator \<Rightarrow> stage_scope \<Rightarrow> dispatch_status \<Rightarrow> effect_claim \<Rightarrow> ('s, unit) eff" where
  "published co sc status c = (if status = DISPATCH_CLAIMED then record_claimed co sc c else record_completion co sc c)"

definition audit_outcome ::
  "'s coordinator \<Rightarrow> stage_state \<Rightarrow> commit_command \<Rightarrow> dispatch_result \<Rightarrow> effect_claim \<Rightarrow> ('s, unit) eff" where
  "audit_outcome co st cmd x c =
     (let facts = audit_facts cmd st (Some (ec_claim_id c)) in
      case ds_status x of
        DISPATCH_REFUSED \<Rightarrow> co_audit co ''effect.commit.authorization_denied''
                              (facts @ [(''authorization_code'', JStr (ds_safe_code x))])
      | DISPATCH_APPLIED \<Rightarrow> co_audit co ''effect.commit.completed'' facts
      | DISPATCH_INDETERMINATE \<Rightarrow> co_audit co ''effect.commit.indeterminate'' facts
      | _ \<Rightarrow> ret ())"

definition result_from_dispatch ::
  "'s coordinator \<Rightarrow> stage_scope \<Rightarrow> stage_state \<Rightarrow> commit_command \<Rightarrow> dispatch_result \<Rightarrow> ('s, coordinator_result) eff" where
  "result_from_dispatch co sc st cmd x = (case ds_claim x of
       None \<Rightarrow> refuse co cmd (ds_safe_code x)
     | Some c \<Rightarrow>
         bnd (published co sc (ds_status x) c) (\<lambda>_.
         bnd (audit_outcome co st cmd x c) (\<lambda>_.
         ret \<lparr>cr_status = commit_status (ds_status x), cr_stage_id = ec_stage_id c, cr_revision = ec_revision c,
              cr_claim_id = Some (ec_claim_id c), cr_outcome = ec_outcome c, cr_safe_code = ds_safe_code x\<rparr>)))"

definition report_drift ::
  "'s coordinator \<Rightarrow> stage_scope \<Rightarrow> stage_state \<Rightarrow> commit_command \<Rightarrow> ('s, coordinator_result) eff" where
  "report_drift co sc st cmd =
     bnd (record_preclaim_drift co sc cmd) (\<lambda>_.
     bnd (co_audit co ''effect.commit.precondition_drift'' (audit_facts cmd st None)) (\<lambda>_.
     ret \<lparr>cr_status = COMMIT_DRIFT, cr_stage_id = cc_stage_id cmd, cr_revision = cc_revision cmd,
          cr_claim_id = None, cr_outcome = Some PRECONDITION_DRIFT, cr_safe_code = ''precondition_drift''\<rparr>))"

definition dispatch_commit ::
  "'s coordinator \<Rightarrow> execution_scope \<Rightarrow> stage_scope \<Rightarrow> stage_state \<Rightarrow> commit_command \<Rightarrow> ('s, coordinator_result) eff" where
  "dispatch_commit co xs sc st cmd =
     bnd (lift (request_of st cmd)) (\<lambda>req.
     bnd (lift (registry_resolve (co_executors co) (st_executor st) xs)) (\<lambda>ex.
     bnd (dispatch (co_dispatcher co) (commit_call co xs sc st cmd req ex)) (\<lambda>x.
     if ds_status x = DISPATCH_DRIFT then report_drift co sc st cmd
     else result_from_dispatch co sc st cmd x)))"

definition handle_scoped ::
  "'s coordinator \<Rightarrow> execution_scope \<Rightarrow> commit_command \<Rightarrow> ('s, coordinator_result) eff" where
  "handle_scoped co xs cmd =
     bnd (lift (scope_make (xs_run_id xs) (xs_owner_ref xs))) (\<lambda>sc.
     bnd (load_authorised_stage co sc cmd) (\<lambda>v.
     case v of
       None \<Rightarrow> refuse co cmd ''approval_mismatch''
     | Some st \<Rightarrow>
         bnd (references_match co xs st) (\<lambda>matching.
         if matching then dispatch_commit co xs sc st cmd else refuse co cmd ''immutable_ref_mismatch'')))"

definition handle :: "'s coordinator \<Rightarrow> commit_command \<Rightarrow> ('s, coordinator_result) eff" where
  "handle co cmd =
     bnd (co_resolve_scope co (cc_run_id cmd)) (\<lambda>v.
     case v of
       None \<Rightarrow> refuse co cmd ''run_unavailable''
     | Some xs \<Rightarrow>
         if xs_run_id xs \<noteq> cc_run_id cmd then refuse co cmd ''run_unavailable''
         else handle_scoped co xs cmd)"

section \<open>Reconciliation\<close>

definition result_from_claim :: "effect_claim \<Rightarrow> coordinator_status \<Rightarrow> coordinator_result" where
  "result_from_claim c status =
     \<lparr>cr_status = status, cr_stage_id = ec_stage_id c, cr_revision = ec_revision c,
      cr_claim_id = Some (ec_claim_id c), cr_outcome = ec_outcome c,
      cr_safe_code = (case ec_outcome c of Some x \<Rightarrow> effect_outcome_value x | None \<Rightarrow> claim_state_value (ec_state c))\<rparr>"

definition indeterminate_claim :: "effect_claim \<Rightarrow> string \<Rightarrow> string \<Rightarrow> effect_claim result" where
  "indeterminate_claim c message now = effect_claim_make
     (c\<lparr>ec_state := INDETERMINATE, ec_outcome := Some INDETERMINATE_OUTCOME, ec_receipt_ref := None,
        ec_result_digest := None, ec_safe_message := Some (safe_message_or (Some message) unknown_outcome),
        ec_row_results := None, ec_updated_at := now\<rparr>)"

definition mark_reconcile_indeterminate ::
  "'s coordinator \<Rightarrow> stage_scope \<Rightarrow> effect_claim \<Rightarrow> string option \<Rightarrow> ('s, coordinator_result) eff" where
  "mark_reconcile_indeterminate co sc c message =
     (if ec_state c = INDETERMINATE
      then bnd (record_completion co sc c) (\<lambda>_. ret (result_from_claim c COMMIT_INDETERMINATE))
      else bnd (dp_now (co_dispatcher co)) (\<lambda>now.
           bnd (lift (indeterminate_claim c (safe_message_or message unknown_outcome) now)) (\<lambda>e.
           bnd (cp_update (dp_claims (co_dispatcher co)) e) (\<lambda>stored.
           bnd (record_completion co sc stored) (\<lambda>_.
           ret (result_from_claim stored COMMIT_INDETERMINATE))))))"

definition settle_reconciled ::
  "'s coordinator \<Rightarrow> stage_scope \<Rightarrow> effect_claim \<Rightarrow> execution_result \<Rightarrow> ('s, coordinator_result) eff" where
  "settle_reconciled co sc c x =
     bnd (record_outcome (co_dispatcher co) c x COMPLETED) (\<lambda>stored.
     bnd (record_reconciled co sc stored) (\<lambda>_.
     bnd (record_completion co sc stored) (\<lambda>_.
     ret (result_from_claim stored COMMIT_APPLIED))))"

definition reconcile_open ::
  "'s coordinator \<Rightarrow> execution_scope \<Rightarrow> stage_scope \<Rightarrow> effect_claim \<Rightarrow> ('s, coordinator_result) eff" where
  "reconcile_open co xs sc c =
     bnd (lift (registry_resolve (co_executors co) (ec_executor c) xs)) (\<lambda>ex.
     if \<not> ex_supports_reconcile ex then mark_reconcile_indeterminate co sc c None
     else bnd (attempt (ex_reconcile ex c)) (\<lambda>r.
       case r of
         Inl _ \<Rightarrow> mark_reconcile_indeterminate co sc c None
       | Inr x \<Rightarrow>
           if xr_outcome x = INDETERMINATE_OUTCOME
           then mark_reconcile_indeterminate co sc c (xr_safe_message x)
           else settle_reconciled co sc c x))"

definition reconcile_claim :: "'s coordinator \<Rightarrow> effect_claim \<Rightarrow> ('s, coordinator_result) eff" where
  "reconcile_claim co c =
     bnd (co_resolve_scope co (ec_run_id c)) (\<lambda>v.
     case v of
       None \<Rightarrow> ret (result_from_claim c COMMIT_REFUSED)
     | Some xs \<Rightarrow>
         if xs_org_id xs \<noteq> ec_org_id c then ret (result_from_claim c COMMIT_REFUSED)
         else bnd (lift (scope_make (ec_run_id c) (xs_owner_ref xs))) (\<lambda>sc.
           if ec_state c = COMPLETED \<or> ec_state c = CLAIM_CANCELLED
           then bnd (record_completion co sc c) (\<lambda>_. ret (result_from_claim c COMMIT_REPLAYED))
           else reconcile_open co xs sc c))"

definition reconcile :: "'s coordinator \<Rightarrow> reconcile_command \<Rightarrow> ('s, coordinator_result) eff" where
  "reconcile co cmd =
     bnd (cp_get_by_id (dp_claims (co_dispatcher co)) (rk_org_id cmd) (rk_claim_id cmd)) (\<lambda>v.
     case v of
       None \<Rightarrow> ret \<lparr>cr_status = COMMIT_REFUSED, cr_stage_id = ''unknown'', cr_revision = 1,
                    cr_claim_id = None, cr_outcome = None, cr_safe_code = ''claim_not_found''\<rparr>
     | Some c \<Rightarrow> reconcile_claim co c)"

end
