(* ===== verification/CoordinatorLaws.thy ===== *)
theory CoordinatorLaws
  imports EffectCoordinator DispatchLaws
begin

text \<open>
  What the coordinator does over any provider of its ports: publishing to the ledger and the
  audit sink touches neither the claims nor the applications, so a delivery that reaches an
  executor went through the dispatch of an authorised stage, and a reconciliation only moves the
  claim it was asked about.
\<close>

locale coordinating = dispatching port stored held ready d applied
  for port :: "'s claim_port" and stored held ready d and applied :: "'s \<Rightarrow> prepared_effect list" +
  fixes co :: "'s coordinator"
  assumes coordinator_dispatcher: "co_dispatcher co = d"
    and append_calm: "keeps same_claims (lp_append (co_ledger co) sc ty payload key fp)"
    and list_calm: "keeps same_claims (lp_list (co_ledger co) sc sid)"
    and resolve_calm: "keeps same_claims (co_resolve_scope co run)"
    and open_calm: "keeps same_claims (co_open co xs reference)"
    and audit_calm: "keeps same_claims (co_audit co action facts)"
    and cancellation_calm: "co_cancellation co = Some check \<Longrightarrow> keeps same_claims (check xs cmd)"
    and executor_behaves: "registry_resolve (co_executors co) kind xs = Inr ex \<Longrightarrow>
      (\<forall>req. keeps same_claims (ex_prepare ex req)) \<and> (\<forall>p. keeps same_claims (ex_authorize ex p))
      \<and> (\<forall>p. keeps same_claims (ex_abort ex p)) \<and> (\<forall>c. keeps same_claims (ex_reconcile ex c))
      \<and> (\<forall>p s r t. ready s \<longrightarrow> ex_apply ex p s = (r, t) \<longrightarrow>
           ready t \<and> stored t = stored s \<and> held t = held s \<and> applied t = applied s @ [p])"
begin

section \<open>Publishing is calm\<close>

lemma append_phase_calm [keeps_intros]: "calm (append_phase co sc phase c ty payload)"
  unfolding append_phase_def by (intro keeps_intros append_calm)

lemma publishing_calm [keeps_intros]:
  "calm (record_claimed co sc c)" "calm (record_completion co sc c)" "calm (record_reconciled co sc c)"
  "calm (record_preclaim_drift co sc cmd)" "calm (published co sc st c)"
proof -
  show claimed: "calm (record_claimed co sc c)" unfolding record_claimed_def by (intro keeps_intros)
  show completion: "calm (record_completion co sc c)" unfolding record_completion_def by (intro keeps_intros)
  show "calm (record_reconciled co sc c)" unfolding record_reconciled_def by (intro keeps_intros)
  show "calm (record_preclaim_drift co sc cmd)" unfolding record_preclaim_drift_def by (intro keeps_intros append_calm)
  show "calm (published co sc st c)" unfolding published_def using claimed completion by (intro keeps_intros)
qed

lemma reporting_calm [keeps_intros]:
  "calm (refuse co cmd safe)" "calm (report_drift co sc st cmd)" "calm (audit_outcome co st cmd x c)"
proof -
  show "calm (refuse co cmd safe)" unfolding refuse_def by (intro keeps_intros audit_calm)
  show "calm (report_drift co sc st cmd)" unfolding report_drift_def by (intro keeps_intros audit_calm)
  show "calm (audit_outcome co st cmd x c)"
    unfolding audit_outcome_def Let_def by (cases "ds_status x") (auto intro: keeps_intros audit_calm)
qed

lemma result_calm [keeps_intros]: "calm (result_from_dispatch co sc st cmd x)"
  unfolding result_from_dispatch_def by (intro keeps_intros)

lemma authority_calm [keeps_intros]:
  "calm (load_authorised_stage co sc cmd)" "calm (digest_reference co xs reference)" "calm (references_match co xs st)"
proof -
  show "calm (load_authorised_stage co sc cmd)"
    unfolding load_authorised_stage_def
    by (intro keeps_intros list_calm) (auto split: sum.split intro: keeps_intros)
  show digest: "calm (digest_reference co xs reference)" for reference
    unfolding digest_reference_def by (intro keeps_intros open_calm)
  show "calm (references_match co xs st)" unfolding references_match_def by (intro keeps_intros digest)
qed

lemma commit_call_behaves:
  assumes "registry_resolve (co_executors co) kind xs' = Inr ex"
  shows "well_behaved (commit_call co xs sc st cmd req ex)"
proof -
  have "calm (observe_claim co sc st cmd active c)" for active c
    unfolding observe_claim_def by (intro keeps_intros audit_calm)
  moreover have "calm (f active req')"
    if "map_option (\<lambda>f active _. f active cmd) (co_cancellation co) = Some f" for f active and req' :: dispatch_request
    using that cancellation_calm by auto
  ultimately show ?thesis
    using executor_behaves [OF assms] by (simp add: well_behaved_def commit_call_def)
qed

section \<open>A delivery that applies\<close>

text \<open>What applies something was no calm effect, and what a calm effect precedes is what applied.\<close>

definition applies :: "'s \<Rightarrow> 's \<Rightarrow> bool" where
  "applies s t \<longleftrightarrow> ready s \<and> applied t \<noteq> applied s"

lemma applies_calm: "calm m \<Longrightarrow> m s = (r, t) \<Longrightarrow> \<not> applies s t"
  by (auto dest: calmD simp: applies_def)

lemma applies_after: "same_claims s u \<Longrightarrow> applies s t \<Longrightarrow> applies u t"
  by (auto simp: same_claims_def applies_def)

lemma applies_bnd:
  assumes "applies s t" and "calm m" and run: "bnd m f s = (r, t)"
  obtains x u where "m s = (Inr x, u)" and "f x u = (r, t)" and "same_claims s u" and "applies u t"
  using run
proof (cases rule: bnd_cases)
  case (raised e)
  with applies_calm [OF assms(2)] assms(1) show ?thesis by blast
next
  case (returned x u)
  with assms(1) keepsD [OF assms(2)] show ?thesis by (blast intro: that applies_after)
qed

lemma applies_lift:
  assumes "applies s t" and "bnd (lift v) f s = (r, t)"
  obtains x where "v = Inr x" and "f x s = (r, t)"
  using assms(2,1) by (cases rule: bnd_liftE) (auto simp: applies_def intro: that)

text \<open>The parts of a delivery that reached the executor, in the order the coordinator runs them.\<close>

definition delivered ::
  "commit_command \<Rightarrow> execution_scope \<Rightarrow> stage_state \<Rightarrow> dispatch_request \<Rightarrow> 's \<Rightarrow> 's \<Rightarrow> bool" where
  "delivered cmd xs st req s t \<longleftrightarrow>
     (\<exists>sc ex p c u x v. request_of st cmd = Inr req \<and> registry_resolve (co_executors co) (st_executor st) xs = Inr ex
          \<and> fresh_claim (commit_call co xs sc st cmd req ex) p c \<and> owned c u
          \<and> claim_key_of c \<notin> held s \<and> stored u = (stored s)(claim_key_of c := Some c) \<and> applied u = applied s
          \<and> applied_once c p u x v \<and> same_claims v t)"

lemma dispatch_commit_applies:
  assumes "applies s t" and run: "dispatch_commit co xs sc st cmd s = (r, t)"
  shows "\<exists>req. delivered cmd xs st req s t"
proof -
  from run [unfolded dispatch_commit_def] obtain req where req: "request_of st cmd = Inr req"
    and rest: "bnd (lift (registry_resolve (co_executors co) (st_executor st) xs)) (\<lambda>ex.
     bnd (dispatch (co_dispatcher co) (commit_call co xs sc st cmd req ex)) (\<lambda>x.
     if ds_status x = DISPATCH_DRIFT then report_drift co sc st cmd
     else result_from_dispatch co sc st cmd x)) s = (r, t)" by (rule applies_lift [OF assms(1)])
  from rest obtain ex where ex: "registry_resolve (co_executors co) (st_executor st) xs = Inr ex"
    and rest: "bnd (dispatch d (commit_call co xs sc st cmd req ex)) (\<lambda>x.
     if ds_status x = DISPATCH_DRIFT then report_drift co sc st cmd
     else result_from_dispatch co sc st cmd x) s = (r, t)"
    unfolding coordinator_dispatcher by (rule applies_lift [OF assms(1)])
  let ?call = "commit_call co xs sc st cmd req ex"
  from rest obtain x v where disp: "dispatch d ?call s = (x, v)" and vt: "same_claims v t"
  proof (cases rule: bnd_cases)
    case (raised e)
    with same_claims_order(1) show ?thesis by (auto simp: reflp_def intro: that)
  next
    case (returned x v)
    have "calm (if ds_status x = DISPATCH_DRIFT then report_drift co sc st cmd
         else result_from_dispatch co sc st cmd x)" by (intro keeps_intros)
    with returned show ?thesis by (blast dest: keepsD intro: that)
  qed
  from assms(1) have s: "ready s" by (simp add: applies_def)
  from vt assms(1) have moved: "\<not> (ready v \<and> applied v = applied s)" by (auto simp: applies_def same_claims_def)
  with dispatch_run [OF commit_call_behaves [OF ex] s disp] have "took ?call s x v" by (auto simp: quiet_def)
  then obtain p c u where took: "fresh_claim ?call p c" "owned c u" "call_key ?call \<notin> held s"
    "stored u = (stored s)(call_key ?call := Some c)" "applied u = applied s"
    and "unapplied c u x v \<or> applied_once c p u x v"
    unfolding took_def by blast
  then have "applied_once c p u x v" using moved by (auto simp: unapplied_def)
  moreover have "claim_key_of c = call_key ?call" using took(1) by (simp add: fresh_claim_def claim_matches_key)
  ultimately show ?thesis using took vt req ex unfolding delivered_def by metis
qed

lemma handle_scoped_applies:
  assumes "applies s t" and "handle_scoped co xs cmd s = (r, t)"
  shows "\<exists>sc st req a b. scope_make (xs_run_id xs) (xs_owner_ref xs) = Inr sc
     \<and> load_authorised_stage co sc cmd s = (Inr (Some st), a) \<and> references_match co xs st a = (Inr True, b)
     \<and> same_claims s b \<and> delivered cmd xs st req b t"
proof -
  from assms(2) [unfolded handle_scoped_def] obtain sc where sc: "scope_make (xs_run_id xs) (xs_owner_ref xs) = Inr sc"
    and "bnd (load_authorised_stage co sc cmd) (\<lambda>v. case v of
         None \<Rightarrow> refuse co cmd ''approval_mismatch''
       | Some st \<Rightarrow> bnd (references_match co xs st) (\<lambda>matching.
           if matching then dispatch_commit co xs sc st cmd else refuse co cmd ''immutable_ref_mismatch'')) s = (r, t)"
    by (rule applies_lift [OF assms(1)])
  from applies_bnd [OF assms(1) authority_calm(1) this(2)] obtain w a where a: "load_authorised_stage co sc cmd s = (Inr w, a)"
    "same_claims s a" "applies a t" and rest: "(case w of
         None \<Rightarrow> refuse co cmd ''approval_mismatch''
       | Some st \<Rightarrow> bnd (references_match co xs st) (\<lambda>matching.
           if matching then dispatch_commit co xs sc st cmd else refuse co cmd ''immutable_ref_mismatch'')) a = (r, t)"
    by blast
  from rest a(3) applies_calm [OF reporting_calm(1)] obtain st where w: "w = Some st"
    and "bnd (references_match co xs st) (\<lambda>matching.
           if matching then dispatch_commit co xs sc st cmd else refuse co cmd ''immutable_ref_mismatch'') a = (r, t)"
    by (auto split: option.splits)
  from applies_bnd [OF a(3) authority_calm(3) this(2)] obtain matching b where
    b: "references_match co xs st a = (Inr matching, b)" "same_claims a b" "applies b t"
    and rest: "(if matching then dispatch_commit co xs sc st cmd else refuse co cmd ''immutable_ref_mismatch'') b = (r, t)"
    by blast
  from rest b(3) applies_calm [OF reporting_calm(1)] have m: "matching = True" and "dispatch_commit co xs sc st cmd b = (r, t)"
    by (auto split: if_splits)
  from dispatch_commit_applies [OF b(3) this(2)] obtain req where "delivered cmd xs st req b t" by blast
  moreover from a(2) b(2) have "same_claims s b" using same_claims_order(2) by (blast dest: transpD)
  ultimately show ?thesis using sc a(1) [unfolded w] b(1) [unfolded m] by blast
qed

lemma handle_applies:
  assumes "applies s t" and "handle co cmd s = (r, t)"
  shows "\<exists>xs sc st req e a b. co_resolve_scope co (cc_run_id cmd) s = (Inr (Some xs), e) \<and> xs_run_id xs = cc_run_id cmd
     \<and> scope_make (xs_run_id xs) (xs_owner_ref xs) = Inr sc
     \<and> load_authorised_stage co sc cmd e = (Inr (Some st), a) \<and> references_match co xs st a = (Inr True, b)
     \<and> same_claims s b \<and> delivered cmd xs st req b t"
proof -
  from applies_bnd [OF assms(1) resolve_calm assms(2) [unfolded handle_def]] obtain v e where
    e: "co_resolve_scope co (cc_run_id cmd) s = (Inr v, e)" "same_claims s e" "applies e t"
    and rest: "(case v of
       None \<Rightarrow> refuse co cmd ''run_unavailable''
     | Some xs \<Rightarrow> if xs_run_id xs \<noteq> cc_run_id cmd then refuse co cmd ''run_unavailable''
         else handle_scoped co xs cmd) e = (r, t)" by blast
  from rest e(3) applies_calm [OF reporting_calm(1)] obtain xs where "v = Some xs" "xs_run_id xs = cc_run_id cmd"
    and "handle_scoped co xs cmd e = (r, t)" by (auto split: option.splits if_splits)
  with handle_scoped_applies [OF e(3)] e(1,2) same_claims_order(2) show ?thesis by (blast dest: transpD)
qed

section \<open>Reconciliation\<close>

text \<open>
  A reconciliation of a stored claim: nothing is applied, no other claim moves, and the claim
  itself follows the one that was found, which it is unless it was still open.
\<close>

definition reconciled :: "effect_claim \<Rightarrow> 's \<Rightarrow> 's \<Rightarrow> bool" where
  "reconciled c s t \<longleftrightarrow> ready t \<and> held t = held s \<and> applied t = applied s
     \<and> (\<exists>e. stored t = (stored s)(claim_key_of c := Some e) \<and> claim_follows c e
          \<and> (ec_state c = COMPLETED \<or> ec_state c = CLAIM_CANCELLED \<longrightarrow> e = c))"

definition found :: "effect_claim \<Rightarrow> 's \<Rightarrow> bool" where
  "found c s \<longleftrightarrow> ready s \<and> stored s (claim_key_of c) = Some c"

lemma reconciled_same: "found c s \<Longrightarrow> same_claims s t \<Longrightarrow> reconciled c s t"
  unfolding found_def same_claims_def reconciled_def by (intro conjI exI [of _ c]) (simp_all add: fun_upd_idem)

lemma found_calm: "found c s \<Longrightarrow> same_claims s u \<Longrightarrow> found c u \<and> (reconciled c u t \<longleftrightarrow> reconciled c s t)"
  by (auto simp: found_def same_claims_def reconciled_def)

lemma reconciled_calm:
  assumes "reconciled c s u" and "same_claims u t"
  shows "reconciled c s t"
  using assms by (auto simp: reconciled_def same_claims_def)

lemma reconciled_bnd:
  assumes "found c s" and "calm m" and run: "bnd m f s = (r, t)"
    and step: "\<And>x u. m s = (Inr x, u) \<Longrightarrow> found c u \<Longrightarrow> f x u = (r, t) \<Longrightarrow> reconciled c u t"
  shows "reconciled c s t"
  using run
proof (cases rule: bnd_cases)
  case (raised e)
  with keepsD [OF assms(2)] assms(1) show ?thesis by (blast intro: reconciled_same)
next
  case (returned x u)
  with keepsD [OF assms(2)] found_calm [OF assms(1)] step show ?thesis by blast
qed

lemma reconciled_tail:
  assumes "found c s" and "calm m" and "m s = (r, t)"
  shows "reconciled c s t"
  by (rule reconciled_same [OF assms(1) keepsD [OF assms(2,3)]])

lemma indeterminate_claim_follows:
  assumes "indeterminate_claim c m now = Inr e" and "ec_state c = CLAIMED"
  shows "claim_ok e" "claim_key_of e = claim_key_of c" "claim_follows c e"
  using assms by (auto simp: indeterminate_claim_def claim_follows_def claim_key_of_def same_request_as_def)

lemma mark_indeterminate_run:
  assumes c: "found c s" and "ec_state c = CLAIMED \<or> ec_state c = INDETERMINATE"
    and run: "mark_reconcile_indeterminate co sc c m s = (r, t)"
  shows "reconciled c s t"
proof (cases "ec_state c = INDETERMINATE")
  case True
  with run have "bnd (record_completion co sc c) (\<lambda>_. ret (result_from_claim c COMMIT_INDETERMINATE)) s = (r, t)"
    by (simp add: mark_reconcile_indeterminate_def)
  moreover have "calm (bnd (record_completion co sc c) (\<lambda>_. ret (result_from_claim c COMMIT_INDETERMINATE)))"
    by (intro keeps_intros)
  ultimately show ?thesis using reconciled_tail [OF c] by blast
next
  case False
  with assms(2) have open_claim: "ec_state c = CLAIMED" by blast
  have now: "calm (dp_now d)" by (rule keepsI, unfold same_claims_def, use now_frame in blast)
  let ?rest = "\<lambda>now. bnd (lift (indeterminate_claim c (safe_message_or m unknown_outcome) now)) (\<lambda>e.
    bnd (cp_update port e) (\<lambda>stored. bnd (record_completion co sc stored) (\<lambda>_.
    ret (result_from_claim stored COMMIT_INDETERMINATE))))"
  from False run have "bnd (dp_now d) ?rest s = (r, t)"
    by (simp add: mark_reconcile_indeterminate_def coordinator_dispatcher dispatcher_claims)
  with c now show ?thesis
  proof (rule reconciled_bnd)
    fix now u
    assume u: "found c u" and "?rest now u = (r, t)"
    from this(2) show "reconciled c u t"
    proof (cases rule: bnd_liftE)
      case (raised e)
      with u same_claims_order(1) show ?thesis by (auto simp: reflp_def intro: reconciled_same)
    next
      case (returned e)
      note e = indeterminate_claim_follows [OF returned(1) open_claim]
      have upd: "reconciled c u v" if "cp_update port e u = (q, v)" for q v
        using update_run [OF _ _ e that] u open_claim by (auto simp: found_def reconciled_def)
      from returned(2) show ?thesis
      proof (cases rule: bnd_cases)
        case (raised x)
        with upd show ?thesis by blast
      next
        case (returned f v)
        have "calm (bnd (record_completion co sc f) (\<lambda>_. ret (result_from_claim f COMMIT_INDETERMINATE)))"
          by (intro keeps_intros)
        from reconciled_calm [OF upd [OF returned(1)] keepsD [OF this returned(2)]] show ?thesis .
      qed
    qed
  qed
qed

lemma settle_reconciled_run:
  assumes c: "found c s" and "ec_state c = CLAIMED \<or> ec_state c = INDETERMINATE"
    and run: "settle_reconciled co sc c x s = (r, t)"
  shows "reconciled c s t"
proof -
  have settled: "reconciled c s v" if "record_outcome d c x COMPLETED s = (q, v)" for q v
    using record_outcome_run [OF _ _ _ that] c assms(2) by (auto simp: found_def may_become_def reconciled_def)
  from run [unfolded settle_reconciled_def coordinator_dispatcher] show ?thesis
  proof (cases rule: bnd_cases)
    case (raised e)
    with settled show ?thesis by blast
  next
    case (returned f v)
    have "calm (bnd (record_reconciled co sc f) (\<lambda>_. bnd (record_completion co sc f) (\<lambda>_.
        ret (result_from_claim f COMMIT_APPLIED))))" by (intro keeps_intros)
    from reconciled_calm [OF settled [OF returned(1)] keepsD [OF this returned(2)]] show ?thesis .
  qed
qed

lemma reconcile_open_run:
  assumes c: "found c s" and st: "ec_state c = CLAIMED \<or> ec_state c = INDETERMINATE"
    and run: "reconcile_open co xs sc c s = (r, t)"
  shows "reconciled c s t"
  using run unfolding reconcile_open_def
proof (cases rule: bnd_liftE)
  case (raised e)
  with c same_claims_order(1) show ?thesis by (auto simp: reflp_def intro: reconciled_same)
next
  case (returned ex)
  from executor_behaves [OF returned(1)] have "calm (ex_reconcile ex c)" by blast
  then have calm: "calm (attempt (ex_reconcile ex c))" by (intro keeps_intros)
  note ends = mark_indeterminate_run [OF _ st] settle_reconciled_run [OF _ st]
  show ?thesis
  proof (cases "ex_supports_reconcile ex")
    case False
    with returned(2) ends(1) [OF c] show ?thesis by simp
  next
    case True
    with returned(2) have "bnd (attempt (ex_reconcile ex c)) (\<lambda>r. case r of
         Inl _ \<Rightarrow> mark_reconcile_indeterminate co sc c None
       | Inr x \<Rightarrow> if xr_outcome x = INDETERMINATE_OUTCOME
           then mark_reconcile_indeterminate co sc c (xr_safe_message x)
           else settle_reconciled co sc c x) s = (r, t)" by simp
    with c calm show ?thesis
      by (rule reconciled_bnd) (auto split: sum.splits if_splits intro: ends)
  qed
qed

lemma reconcile_claim_run:
  assumes c: "found c s" and run: "reconcile_claim co c s = (r, t)"
  shows "reconciled c s t"
  using c resolve_calm run [unfolded reconcile_claim_def]
proof (rule reconciled_bnd)
  fix v u
  assume u: "found c u" and run: "(case v of None \<Rightarrow> ret (result_from_claim c COMMIT_REFUSED)
     | Some xs \<Rightarrow> if xs_org_id xs \<noteq> ec_org_id c then ret (result_from_claim c COMMIT_REFUSED)
         else bnd (lift (scope_make (ec_run_id c) (xs_owner_ref xs))) (\<lambda>sc.
           if ec_state c = COMPLETED \<or> ec_state c = CLAIM_CANCELLED
           then bnd (record_completion co sc c) (\<lambda>_. ret (result_from_claim c COMMIT_REPLAYED))
           else reconcile_open co xs sc c)) u = (r, t)"
  have refused: "calm (ret (result_from_claim c COMMIT_REFUSED))" by (intro keeps_intros)
  have replayed: "calm (bnd (record_completion co sc c) (\<lambda>_. ret (result_from_claim c COMMIT_REPLAYED)))" for sc
    by (intro keeps_intros)
  have still_open: "ec_state c = CLAIMED \<or> ec_state c = INDETERMINATE"
    if "\<not> (ec_state c = COMPLETED \<or> ec_state c = CLAIM_CANCELLED)" using that by (cases "ec_state c") auto
  show "reconciled c u t"
  proof (cases "\<exists>xs. v = Some xs \<and> xs_org_id xs = ec_org_id c")
    case False
    with run have "ret (result_from_claim c COMMIT_REFUSED) u = (r, t)" by (auto split: option.splits if_splits)
    with reconciled_tail [OF u refused] show ?thesis by blast
  next
    case True
    with run obtain xs where "bnd (lift (scope_make (ec_run_id c) (xs_owner_ref xs))) (\<lambda>sc.
           if ec_state c = COMPLETED \<or> ec_state c = CLAIM_CANCELLED
           then bnd (record_completion co sc c) (\<lambda>_. ret (result_from_claim c COMMIT_REPLAYED))
           else reconcile_open co xs sc c) u = (r, t)" by auto
    then show ?thesis
    proof (cases rule: bnd_liftE)
      case (raised e)
      with u same_claims_order(1) show ?thesis by (auto simp: reflp_def intro: reconciled_same)
    next
      case (returned sc)
      with reconciled_tail [OF u replayed] reconcile_open_run [OF u still_open] show ?thesis
        by (auto split: if_splits)
    qed
  qed
qed

lemma reconcile_run:
  assumes s: "ready s" and run: "reconcile co cmd s = (r, t)"
  shows "same_claims s t \<or> (\<exists>c. ec_org_id c = rk_org_id cmd \<and> ec_claim_id c = rk_claim_id cmd
     \<and> stored s (claim_key_of c) = Some c \<and> reconciled c s t)"
  using run unfolding reconcile_def coordinator_dispatcher dispatcher_claims
proof (cases rule: bnd_cases)
  case (raised e)
  with get_by_id_outcome [OF s raised(1)] get_by_id_applies_nothing [OF raised(1)] show ?thesis
    by (simp add: same_claims_def)
next
  case (returned v u)
  note u = get_by_id_outcome [OF s returned(1)] get_by_id_applies_nothing [OF returned(1)]
  show ?thesis
  proof (cases v)
    case None
    with returned(2) u show ?thesis by (auto simp: ret_def same_claims_def)
  next
    case (Some c)
    with u returned(2) have "found c u" "reconcile_claim co c u = (r, t)" by (simp_all add: found_def)
    from reconcile_claim_run [OF this] u Some show ?thesis by (auto simp: reconciled_def)
  qed
qed

end

end
