(* ===== verification/CoordinatorWorlds.thy ===== *)
theory CoordinatorWorlds
  imports CoordinatorLaws DispatchWorlds
begin

text \<open>
  The coordinator as the worker composes it for a run (\<open>RuntimeMcpEffectCoordinatorFactory.for_run\<close>
  in \<open>runtime_worker/mcp_operation_storage.py\<close>): the run's effect ledger, the claim store, the
  fixed scope of the run and the reference resolver that answers only for that scope. The stores
  behind the references and the transport executors are parameters: a reader of the state, and
  recording executors per kind. The worker passes neither a cancellation port nor an audit sink.
\<close>

section \<open>The composition\<close>

definition run_scope :: "run_record \<Rightarrow> execution_scope" where
  "run_scope run = \<lparr>xs_org_id = rn_org_id run, xs_user_id = rn_user_id run,
     xs_conversation_id = Some (rn_conversation_id run), xs_run_id = rn_run_id run,
     xs_owner_ref = ''principal://users/'' @ rn_user_id run\<rparr>"

definition run_ledger :: "run_record \<Rightarrow> effect_ledger" where
  "run_ledger run = \<lparr>el_run = run, el_owner_ref = ''principal://users/'' @ rn_user_id run, el_append_metadata = []\<rparr>"

definition static_scope :: "execution_scope \<Rightarrow> string \<Rightarrow> ('s, execution_scope option) eff" where
  "static_scope xs run_id = ret (if run_id = xs_run_id xs then Some xs else None)"

definition scoped_references ::
  "execution_scope \<Rightarrow> (string \<Rightarrow> 's \<Rightarrow> chunk list result) \<Rightarrow> execution_scope \<Rightarrow> string \<Rightarrow> ('s, chunk list) eff" where
  "scoped_references own content xs reference =
     (if xs \<noteq> own then ret [] else (\<lambda>w. (content reference w, w)))"

type_synonym recorded_factories = "(effect_executor_kind \<times> (execution_scope \<Rightarrow> recording result)) list"

definition recorded_registry :: "recorded_factories \<Rightarrow> 'z recorder_world_scheme executor_registry" where
  "recorded_registry fs = map (\<lambda>(kind, f). (kind, \<lambda>xs. rbind (f xs) (\<lambda>x. Inr (recording_executor x)))) fs"

definition runtime_coordinator ::
  "event_env \<Rightarrow> 'z recorder_world_scheme claim_port \<Rightarrow> recorded_factories
     \<Rightarrow> (string \<Rightarrow> 'z recorder_world_scheme \<Rightarrow> chunk list result) \<Rightarrow> run_record \<Rightarrow> 'z recorder_world_scheme coordinator" where
  "runtime_coordinator env port fs content run =
     \<lparr>co_ledger = runtime_ledger_port env (run_ledger run), co_dispatcher = runtime_dispatcher env port,
      co_resolve_scope = static_scope (run_scope run), co_open = scoped_references (run_scope run) content,
      co_executors = recorded_registry fs, co_cancellation = None, co_audit = (\<lambda>_ _. ret ()),
      co_hash = env_hash env\<rparr>"

definition for_run ::
  "event_env \<Rightarrow> 'z recorder_world_scheme claim_port \<Rightarrow> recorded_factories
     \<Rightarrow> (string \<Rightarrow> 'z recorder_world_scheme \<Rightarrow> chunk list result) \<Rightarrow> run_record
     \<Rightarrow> 'z recorder_world_scheme coordinator result" where
  "for_run env port fs content run =
     rbind (execution_scope_make (run_scope run)) (\<lambda>_.
     rbind (registry_make (recorded_registry fs :: 'z recorder_world_scheme executor_registry)) (\<lambda>_.
     Inr (runtime_coordinator env port fs content run)))"

lemma runtime_coordinator_simps [simp]:
  "co_ledger (runtime_coordinator env port fs content run) = runtime_ledger_port env (run_ledger run)"
  "co_dispatcher (runtime_coordinator env port fs content run) = runtime_dispatcher env port"
  "co_resolve_scope (runtime_coordinator env port fs content run) = static_scope (run_scope run)"
  "co_open (runtime_coordinator env port fs content run) = scoped_references (run_scope run) content"
  "co_executors (runtime_coordinator env port fs content run) = recorded_registry fs"
  "co_cancellation (runtime_coordinator env port fs content run) = None"
  "co_audit (runtime_coordinator env port fs content run) = (\<lambda>_ _. ret ())"
  "co_hash (runtime_coordinator env port fs content run) = env_hash env"
  by (simp_all add: runtime_coordinator_def)

lemma recorded_registry_resolve:
  fixes ex :: "'a recorder_world_scheme effect_executor"
  assumes "registry_resolve (recorded_registry fs) kind xs = Inr ex"
  obtains x where "ex = recording_executor x" and "rec_kind x = kind"
proof -
  from registry_resolve_kind [OF assms] obtain f where kind: "ex_kind ex = kind"
    and f: "map_of (recorded_registry fs :: 'a recorder_world_scheme executor_registry) kind = Some f" "f xs = Inr ex" by blast
  from f(1) obtain g where "f = (\<lambda>xs. rbind (g xs) (\<lambda>x. Inr (recording_executor x)))"
    unfolding recorded_registry_def by (auto dest!: map_of_SomeD)
  with f(2) obtain x where "ex = recording_executor x" by (auto simp: rbind_Inr_iff)
  with kind that show thesis by (simp add: recording_executor_def)
qed

section \<open>The ledger leaves the rest of the world alone\<close>

definition same_rest :: "'z event_world_scheme \<Rightarrow> 'z event_world_scheme \<Rightarrow> bool" where
  "same_rest w v \<longleftrightarrow> event_world.more w = event_world.more v"

lemma same_rest_order [keeps_intros]: "reflp same_rest" "transp same_rest"
  by (auto simp: same_rest_def reflp_def transp_def)

lemma append_event_rest: "keeps same_rest (append_event env d)"
  by (rule keepsI)
     (auto simp: append_event_def same_rest_def Let_def set_run_latest_sequence_def split: option.splits if_splits)

lemma append_stage_event_rest: "keeps same_rest (append_stage_event env led sc ty payload key fp)"
proof (rule keepsI)
  fix w :: "'z event_world_scheme" and r w'
  assume "append_stage_event env led sc ty payload key fp w = (r, w')"
  then show "same_rest w w'"
    by (cases rule: append_cases) (auto simp: same_rest_def dest: keepsD [OF append_event_rest])
qed

lemma same_rest_memory:
  assumes "same_rest w v"
  shows "memory_ready w = memory_ready v" "memory_stored w = memory_stored v" "memory_held w = memory_held v"
    "rx_applied w = rx_applied v"
  using assms
  by (cases w; cases v; simp add: same_rest_def memory_ready_def memory_stored_def memory_held_def)+

lemma same_rest_file:
  assumes "same_rest w v"
  shows "file_ready hash w = file_ready hash v" "file_stored hash w = file_stored hash v"
    "file_held hash w = file_held hash v" "rx_applied w = rx_applied v"
  using assms
  by (cases w; cases v; simp add: same_rest_def file_ready_def file_stored_def file_held_def fun_eq_iff)+

section \<open>Both stores\<close>

lemma reconcile_frame [simp]:
  "memory_ready (rx_reconciled_update h w) = memory_ready w" "memory_stored (rx_reconciled_update h w) = memory_stored w"
  "memory_held (rx_reconciled_update h w) = memory_held w"
  "file_ready hash (rx_reconciled_update h v) = file_ready hash v"
  "file_stored hash (rx_reconciled_update h v) = file_stored hash v"
  "file_held hash (rx_reconciled_update h v) = file_held hash v"
  by (simp_all add: memory_ready_def memory_stored_def memory_held_def file_ready_def file_stored_def file_held_def
      fun_eq_iff)

lemma keeps_read: "reflp R \<Longrightarrow> keeps R (\<lambda>w. (f w, w))"
  by (simp add: keeps_def reflp_def)

lemma coordinator_reads:
  assumes "reflp R"
  shows "keeps R (lp_list (co_ledger (runtime_coordinator env port fs content run)) sc sid)"
    and "keeps R (co_resolve_scope (runtime_coordinator env port fs content run) run_id)"
    and "keeps R (co_open (runtime_coordinator env port fs content run) xs reference)"
    and "keeps R (co_audit (runtime_coordinator env port fs content run) action facts)"
  using assms
  by (auto simp: runtime_ledger_port_def list_stage_events_def static_scope_def scoped_references_def
      intro: keeps_intros keeps_read)

lemma same_rest_calm_memory: "keeps same_rest m \<Longrightarrow> keeps md.same_claims m"
  unfolding keeps_def md.same_claims_def by (metis same_rest_memory)

lemma same_rest_calm_file: "keeps same_rest m \<Longrightarrow> keeps (fd.same_claims hash) m"
  unfolding keeps_def fd.same_claims_def by (metis same_rest_file)

interpretation mco: coordinating memory_claim_port memory_stored memory_held memory_ready
    "runtime_dispatcher env memory_claim_port" rx_applied "runtime_coordinator env memory_claim_port fs content run"
  for env fs content run
proof (unfold_locales, goal_cases)
  case (2 sc ty payload key fp)
  show ?case
    by (simp add: runtime_ledger_port_def) (intro same_rest_calm_memory append_stage_event_rest)
next
  case (8 kind xs ex)
  then obtain x where "ex = recording_executor x" by (auto elim: recorded_registry_resolve)
  then show ?case by (auto simp: recorder_defs recorder_reconcile_def Let_def keeps_def md.same_claims_def)
qed (rule coordinator_reads [OF md.same_claims_order(1)] | simp)+

interpretation fco: coordinating "file_claim_port hash" "file_stored hash" "file_held hash" "file_ready hash"
    "runtime_dispatcher env (file_claim_port hash)" rx_applied "runtime_coordinator env (file_claim_port hash) fs content run"
  for hash env fs content run
proof (unfold_locales, goal_cases)
  case (2 sc ty payload key fp)
  show ?case
    by (simp add: runtime_ledger_port_def) (intro same_rest_calm_file append_stage_event_rest)
next
  case (8 kind xs ex)
  then obtain x where "ex = recording_executor x" by (auto elim: recorded_registry_resolve)
  then show ?case by (auto simp: recorder_defs recorder_reconcile_def Let_def keeps_def fd.same_claims_def)
qed (rule coordinator_reads [OF fd.same_claims_order(1)] | simp)+

end
