(* ===== verification/CoordinatorChecks.thy ===== *)
theory CoordinatorChecks
  imports CoordinatorWorlds
begin

text \<open>
  What the coordinator has read and compared when it reaches an executor: the lemmas follow its
  checks over the ledger, the references and the claim store of a run.
\<close>

section \<open>What the checks establish\<close>

lemma attempt_Inr: "attempt m s = (Inr (Inr x), t) \<longleftrightarrow> m s = (Inr x, t)"
  by (auto simp: attempt_def catch_def bnd_def ret_def split: prod.splits sum.splits if_splits)

lemma load_authorised:
  assumes "load_authorised_stage (runtime_coordinator env port fs content run) sc cmd w = (Inr (Some st), w')"
  shows "w' = w \<and> (\<exists>evs. list_stage_events (run_ledger run) sc (cc_stage_id cmd) w = (Inr evs, w)
     \<and> stage_fold evs = Inr st \<and> authorised_state sc cmd evs st = Inr (Some st))"
proof -
  let ?load = "bnd (list_stage_events (run_ledger run) sc (cc_stage_id cmd)) (\<lambda>evs. bnd (lift (stage_fold evs)) (\<lambda>st. ret (evs, st)))"
  have whole: "load_authorised_stage (runtime_coordinator env port fs content run) sc cmd =
      bnd (attempt ?load) (\<lambda>r. case r of Inl _ \<Rightarrow> ret None | Inr (evs, st) \<Rightarrow> lift (authorised_state sc cmd evs st))"
    by (simp add: load_authorised_stage_def runtime_ledger_port_def)
  from assms [unfolded whole bnd_Inr_iff] obtain q u where q: "attempt ?load w = (Inr q, u)"
    and rest: "(case q of Inl _ \<Rightarrow> ret None | Inr (evs, st) \<Rightarrow> lift (authorised_state sc cmd evs st)) u = (Inr (Some st), w')"
    by blast
  from rest obtain evs st' where qq: "q = Inr (evs, st')" and auth: "authorised_state sc cmd evs st' = Inr (Some st)" "u = w'"
    by (auto simp: ret_def lift_def split: sum.splits prod.splits)
  from q [unfolded qq attempt_Inr] have ls: "list_stage_events (run_ledger run) sc (cc_stage_id cmd) w = (Inr evs, u)"
    and fold: "stage_fold evs = Inr st'" by (auto simp: bnd_Inr_iff ret_def lift_def)
  from ls have "u = w" by (simp add: list_stage_events_def)
  moreover from auth(1) have "st' = st"
    by (auto simp: authorised_state_def rbind_Inr_iff split: option.splits if_splits)
  ultimately show ?thesis using ls fold auth by simp
qed

lemma authorised_Some:
  assumes "authorised_state sc cmd evs st = Inr (Some st')"
  shows "\<exists>dcn. st_decision st = Some dcn \<and> stage_approves sc st dcn cmd \<and> stage_current st cmd
     \<and> command_row_scope_matches evs (dc_row_keys dcn) cmd = Inr True"
  using assms by (auto simp: authorised_state_def rbind_Inr_iff split: option.splits if_splits)

lemma digest_read:
  "digest_reference (runtime_coordinator env port fs content run) (run_scope run) reference w = (Inr (Some h), w')
   \<Longrightarrow> w' = w \<and> (\<exists>cs body. content reference w = Inr cs \<and> chunk_bytes cs = Some body \<and> h = env_hash env body)"
  by (auto simp: digest_reference_def attempt_def catch_def bnd_def ret_def scoped_references_def
      split: sum.splits if_splits prod.splits)

lemma references_read:
  assumes "references_match (runtime_coordinator env port fs content run) (run_scope run) st w = (Inr True, w')"
  shows "w' = w \<and> (\<exists>reference ps proposal ts target. rv_content_ref (current_revision st) = Some reference
     \<and> content reference w = Inr ps \<and> chunk_bytes ps = Some proposal
     \<and> env_hash env proposal = rv_digest (current_revision st)
     \<and> content (tg_target_ref (st_target st)) w = Inr ts \<and> chunk_bytes ts = Some target
     \<and> env_hash env target = st_target_digest st)"
proof -
  let ?co = "runtime_coordinator env port fs content run"
  from assms obtain reference where reference: "rv_content_ref (current_revision st) = Some reference"
    by (auto simp: references_match_def ret_def split: option.splits)
  with assms obtain u where p: "digest_reference ?co (run_scope run) reference w = (Inr (Some (rv_digest (current_revision st))), u)"
    and t: "digest_reference ?co (run_scope run) (tg_target_ref (st_target st)) u = (Inr (Some (st_target_digest st)), w')"
    by (auto simp: references_match_def bnd_Inr_iff ret_def)
  from digest_read [OF p] obtain ps proposal where "u = w" "content reference w = Inr ps" "chunk_bytes ps = Some proposal"
    "env_hash env proposal = rv_digest (current_revision st)" by auto
  with digest_read [OF t] reference show ?thesis by auto
qed

lemma request_of_key:
  "request_of st cmd = Inr req \<Longrightarrow> dr_executor req = st_executor st \<and> dr_idempotency_key req = cc_idempotency_key cmd"
  by (auto simp: request_of_def split: option.splits)

section \<open>A delivery\<close>

lemma runtime_delivery:
  assumes "file_ready hash w"
    and "handle (runtime_coordinator env (file_claim_port hash) fs content run) cmd w = (r, w')"
    and "rx_applied w' \<noteq> rx_applied w"
  shows "\<exists>sc evs st dcn req p c reference ps proposal ts target.
     cc_run_id cmd = rn_run_id run
     \<and> sc = \<lparr>sc_run_id = rn_run_id run, sc_owner_ref = ''principal://users/'' @ rn_user_id run\<rparr>
     \<and> list_stage_events (run_ledger run) sc (cc_stage_id cmd) w = (Inr evs, w) \<and> stage_fold evs = Inr st
     \<and> st_decision st = Some dcn \<and> stage_approves sc st dcn cmd \<and> stage_current st cmd
     \<and> command_row_scope_matches evs (dc_row_keys dcn) cmd = Inr True
     \<and> rv_content_ref (current_revision st) = Some reference
     \<and> content reference w = Inr ps \<and> chunk_bytes ps = Some proposal \<and> env_hash env proposal = cc_proposal_digest cmd
     \<and> content (tg_target_ref (st_target st)) w = Inr ts \<and> chunk_bytes ts = Some target
     \<and> env_hash env target = cc_target_digest cmd
     \<and> request_of st cmd = Inr req \<and> rx_applied w' = rx_applied w @ [p] \<and> pf_request p = DispatchRequest req
     \<and> (rn_org_id run, st_executor st, cc_idempotency_key cmd) \<notin> file_held hash w
     \<and> file_stored hash w' (rn_org_id run, st_executor st, cc_idempotency_key cmd) = Some c
     \<and> claim_matches c (run_scope run) req"
proof -
  let ?co = "runtime_coordinator env (file_claim_port hash) fs content run"
  have "fco.applies hash w w'" using assms(1,3) by (simp add: fco.applies_def)
  from fco.handle_applies [OF this assms(2)] obtain xs sc st req e a b where
    xs: "static_scope (run_scope run) (cc_run_id cmd) w = (Inr (Some xs), e)"
    and sc: "scope_make (xs_run_id xs) (xs_owner_ref xs) = Inr sc"
    and load: "load_authorised_stage ?co sc cmd e = (Inr (Some st), a)"
    and refs: "references_match ?co xs st a = (Inr True, b)"
    and del: "fco.delivered hash env fs content run cmd xs st req b w'" by auto
  from xs have run: "xs = run_scope run" "cc_run_id cmd = rn_run_id run" "e = w"
    by (auto simp: static_scope_def run_scope_def ret_def split: if_splits)
  with sc have scope: "sc = \<lparr>sc_run_id = rn_run_id run, sc_owner_ref = ''principal://users/'' @ rn_user_id run\<rparr>"
    by (simp add: run_scope_def scope_make_Inr)
  from load_authorised [OF load] run obtain evs where a: "a = w"
    and evs: "list_stage_events (run_ledger run) sc (cc_stage_id cmd) w = (Inr evs, w)" "stage_fold evs = Inr st"
    and auth: "authorised_state sc cmd evs st = Inr (Some st)" by auto
  from authorised_Some [OF auth] obtain dcn where dcn: "st_decision st = Some dcn" "stage_approves sc st dcn cmd"
    "stage_current st cmd" "command_row_scope_matches evs (dc_row_keys dcn) cmd = Inr True" by blast
  from references_read [OF refs [unfolded run(1)]] a obtain reference ps proposal ts target where b: "b = w"
    and refs: "rv_content_ref (current_revision st) = Some reference" "content reference w = Inr ps"
      "chunk_bytes ps = Some proposal" "env_hash env proposal = rv_digest (current_revision st)"
      "content (tg_target_ref (st_target st)) w = Inr ts" "chunk_bytes ts = Some target"
      "env_hash env target = st_target_digest st" by auto
  from dcn(3) have digests: "rv_digest (current_revision st) = cc_proposal_digest cmd" "st_target_digest st = cc_target_digest cmd"
    by (simp_all add: stage_current_def)
  from del [unfolded fco.delivered_def b] obtain sc' ex p c u x v where
    req: "request_of st cmd = Inr req" and fresh: "fd.fresh_claim (commit_call ?co xs sc' st cmd req ex) p c"
    and key: "claim_key_of c \<notin> file_held hash w" and u: "rx_applied u = rx_applied w"
    and once: "fd.applied_once hash c p u x v" and vt: "fd.same_claims hash v w'" by blast
  from fresh have m: "claim_matches c (run_scope run) req" and p: "pf_request p = DispatchRequest req"
    by (simp_all add: fd.fresh_claim_def commit_call_def run)
  from request_of_key [OF req] m have ck: "claim_key_of c = (rn_org_id run, st_executor st, cc_idempotency_key cmd)"
    by (simp add: claim_matches_def claim_key_of_def run_scope_def)
  from once vt obtain e where e: "rx_applied w' = rx_applied u @ [p]" "file_stored hash w' (claim_key_of c) = Some e"
    "claim_follows c e" unfolding fd.applied_once_def fd.same_claims_def by auto
  then have "same_request_as c e" by (simp add: claim_follows_def)
  with m have "claim_matches e (run_scope run) req" by (simp add: same_request_as_def claim_matches_def)
  with run(2) scope evs dcn refs digests req p key u e show ?thesis unfolding ck by metis
qed

end
