(* ===== verification/CoordinatorSamples.thy ===== *)
theory CoordinatorSamples
  imports CoordinatorChecks DispatchProperties StagingProperties
begin

text \<open>
  One concrete run for the examples of the coordinator's properties: its ledger holds a staged
  effect and the approval, its references name bytes that hash to the approved digests, and its
  executor records what it is asked.
\<close>

text \<open>A run whose ledger holds a staged effect and its approval, and the command that the approval queued.\<close>

definition approved_env :: event_env where
  "approved_env = dispatch_env\<lparr>env_hash := (\<lambda>s. if s = ''proposal'' then sample_digest (CHR ''b'')
     else if s = ''target'' then sample_digest (CHR ''a'') else s)\<rparr>"

definition owned_by :: "string \<Rightarrow> dict \<Rightarrow> dict" where
  "owned_by owner = map (\<lambda>(k, v). (k, if k \<in> {''owner_ref'', ''author_ref'', ''actor_ref''} then JStr owner else v))"

definition event_envelope :: "structural_event \<Rightarrow> envelope" where
  "event_envelope ev = \<lparr>en_event_id = ev_ledger_id ev, en_run_id = ev_run_id ev, en_conversation_id = ''conv'',
     en_sequence_no = ev_sequence_no ev, en_event_type = ev_event_type ev, en_trace_id = ''tr'',
     en_payload = owned_by ''principal://users/u1'' (ev_payload ev), en_metadata = [], en_created_at = ev_created_at ev\<rparr>"

definition approved_world :: "'z file_world_scheme \<Rightarrow> 'z file_world_scheme" where
  "approved_world w = w\<lparr>ew_events := (\<lambda>r. if r = ''run1''
       then [event_envelope sample_staged, event_envelope (sample_decision_event 2 ''l2'' ''approve'')] else []),
     ew_runs := (\<lambda>r. if r = ''run1'' then Some sample_run else None)\<rparr>"

definition approved_content :: "string \<Rightarrow> 's \<Rightarrow> chunk list result" where
  "approved_content r w = (if r = ''artifact://a1/1'' then Inr [Bytes ''prop'', Bytes ''osal'']
     else if r = ''mcp://crm/7'' then Inr [Bytes ''target''] else Inl ValueError)"

definition approved_commit :: commit_command where
  "approved_commit = \<lparr>cc_run_id = ''run1'', cc_stage_id = sample_sid, cc_revision = 1,
     cc_decision_ledger_id = (case ledger_id_format ''run1'' 2 of Inr l \<Rightarrow> l | Inl _ \<Rightarrow> []),
     cc_proposal_digest = sample_digest (CHR ''b''), cc_target_digest = sample_digest (CHR ''a''),
     cc_idempotency_key = ''key1'', cc_row_keys = None, cc_retry_basis = None, cc_governed = None\<rparr>"

abbreviation approved_coordinator where
  "approved_coordinator port \<equiv> runtime_coordinator approved_env port [(MCP, \<lambda>_. Inr sample_recording)] approved_content sample_run"

lemma approved_delivery:
  "case handle (approved_coordinator (file_claim_port id)) approved_commit (approved_world (claim_directory (\<lambda>_. NoFault) [])) of
     (Inl e, t) \<Rightarrow> False | (Inr x, t) \<Rightarrow> cr_status x = COMMIT_APPLIED \<and> length (rx_applied t) = 1"
  by code_simp

lemma approved_world_ready: "file_ready hash (approved_world w) = file_ready hash w" "rx_applied (approved_world w) = rx_applied w"
  "fw_files (approved_world w) = fw_files w"
  by (simp_all add: approved_world_def file_ready_def)

definition found_executor :: recording where
  "found_executor = sample_recording\<lparr>rec_on_reconcile := Some (\<lambda>_ _. Inr (rec_apply_result sample_recording))\<rparr>"

abbreviation reconciling_coordinator where
  "reconciling_coordinator port \<equiv> runtime_coordinator approved_env port [(MCP, \<lambda>_. Inr found_executor)] approved_content
     (sample_run\<lparr>rn_latest_sequence_no := 2\<rparr>)"

definition claimed_directory :: file_world where
  "claimed_directory = approved_world (claim_directory (\<lambda>_. NoFault) [(path_for id sample_key, ClaimFile (CurrentRecord sample_claim))])"

definition reconcile_sample :: reconcile_command where
  "reconcile_sample = \<lparr>rk_org_id = ''org'', rk_claim_id = ec_claim_id sample_claim\<rparr>"

lemma sample_reconciliation:
  "case reconcile (reconciling_coordinator (file_claim_port id)) reconcile_sample claimed_directory of
     (Inl e, t) \<Rightarrow> False
   | (Inr x, t) \<Rightarrow> cr_status x = COMMIT_APPLIED \<and> rx_applied t = []
       \<and> map_option ec_state (file_stored id t sample_key) = Some COMPLETED"
  by code_simp

lemma claimed_directory_files:
  "fw_files claimed_directory = [(path_for id sample_key, ClaimFile (CurrentRecord sample_claim))]"
  by (simp add: claimed_directory_def approved_world_ready(3)) (simp add: claim_directory_def)

lemma claimed_directory_ready: "file_ready id claimed_directory"
  unfolding file_ready_def claimed_directory_files sample_key_def
  using sample_claim_ok by (simp add: parse_simps)

end
