(* ===== verification/CoordinatorProperties.thy ===== *)
theory CoordinatorProperties
  imports CoordinatorSamples
begin

text \<open>
  The properties of the coordinator as the worker composes it: what a delivery that applies has
  checked, which deliveries are refused, what a reconciliation may change, and what a sealed run
  does to both.
\<close>

section \<open>A delivery that applies\<close>

text \<open>C2: An effect is applied only as it was approved. When the delivery of a command reaches an
  executor, the run's ledger held, at that moment, a history of the command's stage that folds to
  an approved stage whose decision is the very event, revision, row scope and digests the command
  names; the bytes its references name hash to the approved digests; the executor was asked once,
  for exactly that stage's request; the idempotency key was free, and a durable claim for the
  request now holds it.
\<close>

theorem delivery_applies_as_approved:
  assumes "file_ready hash w"
    and "handle (runtime_coordinator env (file_claim_port hash) fs content run) cmd w = (r, w')"
    and "rx_applied w' \<noteq> rx_applied w"
  shows "\<exists>sc evs st dcn req p c reference ps proposal ts target.
     cc_run_id cmd = rn_run_id run
     \<and> sc = \<lparr>sc_run_id = rn_run_id run, sc_owner_ref = ''principal://users/'' @ rn_user_id run\<rparr>
     \<and> list_stage_events (run_ledger run) sc (cc_stage_id cmd) w = (Inr evs, w) \<and> stage_fold evs = Inr st
     \<and> st_decision st = Some dcn \<and> stage_approves sc st dcn cmd \<and> stage_current st cmd
     \<and> command_row_scope_matches evs (dc_row_keys dcn) cmd = Inr True
     \<and> rv_content_ref (current_revision st) = Some reference
     \<and> content reference w = Inr ps \<and> chunk_bytes ps = Some proposal \<and> env_hash env proposal = cc_proposal_digest cmd
     \<and> content (tg_target_ref (st_target st)) w = Inr ts \<and> chunk_bytes ts = Some target
     \<and> env_hash env target = cc_target_digest cmd
     \<and> request_of st cmd = Inr req \<and> rx_applied w' = rx_applied w @ [p] \<and> pf_request p = DispatchRequest req
     \<and> (rn_org_id run, st_executor st, cc_idempotency_key cmd) \<notin> file_held hash w
     \<and> file_stored hash w' (rn_org_id run, st_executor st, cc_idempotency_key cmd) = Some c
     \<and> claim_matches c (run_scope run) req"
  using runtime_delivery [OF assms] .

theorem delivery_applies_as_approved_witness:
  "\<exists>p. rx_applied (snd (handle (approved_coordinator (file_claim_port id)) approved_commit
       (approved_world (claim_directory (\<lambda>_. NoFault) [])))) = [p]"
proof -
  let ?w = "approved_world (claim_directory (\<lambda>_. NoFault) [])"
  let ?run = "handle (approved_coordinator (file_claim_port id)) approved_commit ?w"
  have ready: "file_ready id ?w" "rx_applied ?w = []"
    using claim_directory_ready(1) by (simp_all add: approved_world_ready) (simp add: claim_directory_def)
  from approved_delivery obtain x t where run: "?run = (Inr x, t)" and one: "length (rx_applied t) = 1"
    by (auto split: prod.splits sum.splits)
  from one ready(2) have "rx_applied t \<noteq> rx_applied ?w" by auto
  from delivery_applies_as_approved [OF ready(1) run this] ready(2) run show ?thesis by auto
qed

section \<open>Deliveries that are refused\<close>

definition refusal :: "commit_command \<Rightarrow> string \<Rightarrow> coordinator_result" where
  "refusal cmd safe = \<lparr>cr_status = COMMIT_REFUSED, cr_stage_id = cc_stage_id cmd, cr_revision = cc_revision cmd,
     cr_claim_id = None, cr_outcome = None, cr_safe_code = safe\<rparr>"

lemma refuse_run: "refuse (runtime_coordinator env port fs content run) cmd safe w = (Inr (refusal cmd safe), w)"
  by (simp add: refuse_def refusal_def bnd_def ret_def)

lemma list_stage_events_plain:
  "\<exists>q. list_stage_events led sc sid w = (q, w) \<and> (\<forall>e. q = Inl e \<longrightarrow> is_exception e)"
proof -
  have "is_exception e" if "rmap structural_of es = Inl e" for es e
    using that
    by (induction es) (auto simp: structural_of_def ledger_id_format_def rbind_Inl_iff is_exception_def Let_def split: if_splits)
  then show ?thesis
    by (auto simp: list_stage_events_def rbind_Inl_iff assert_ledger_scope_def is_exception_def)
qed

text \<open>A delivery that the ledger does not back is refused without any trace. When the run is not
  the coordinator's, or the stage's history does not fold, or the folded stage does not approve
  exactly what the command names, the coordinator answers refused and the whole world (events,
  claims, executor calls) stays as it was.
\<close>

theorem unapproved_delivery_refused:
  assumes "sc = \<lparr>sc_run_id = rn_run_id run, sc_owner_ref = ''principal://users/'' @ rn_user_id run\<rparr>" and "scope_ok sc"
    and "\<And>evs st dcn. list_stage_events (run_ledger run) sc (cc_stage_id cmd) w = (Inr evs, w) \<Longrightarrow>
      stage_fold evs = Inr st \<Longrightarrow> st_decision st = Some dcn \<Longrightarrow> \<not> stage_approves sc st dcn cmd"
  shows "handle (runtime_coordinator env port fs content run) cmd w =
     (Inr (refusal cmd (if cc_run_id cmd = rn_run_id run then ''approval_mismatch'' else ''run_unavailable'')), w)"
proof (cases "cc_run_id cmd = rn_run_id run")
  case False
  then show ?thesis by (simp add: handle_def static_scope_def run_scope_def refuse_run)
next
  case True
  let ?co = "runtime_coordinator env port fs content run"
  let ?load = "bnd (list_stage_events (run_ledger run) sc (cc_stage_id cmd)) (\<lambda>evs. bnd (lift (stage_fold evs)) (\<lambda>st. ret (evs, st)))"
  obtain q where q: "list_stage_events (run_ledger run) sc (cc_stage_id cmd) w = (q, w)" "\<forall>e. q = Inl e \<longrightarrow> is_exception e"
    using list_stage_events_plain by blast
  have "load_authorised_stage ?co sc cmd w = (Inr None, w)"
  proof (cases q)
    case (Inl e)
    with q show ?thesis
      by (simp add: load_authorised_stage_def runtime_ledger_port_def attempt_def catch_def bnd_def ret_def)
  next
    case (Inr evs)
    show ?thesis
    proof (cases "stage_fold evs")
      case (Inl e)
      with q Inr show ?thesis
        by (auto simp: load_authorised_stage_def runtime_ledger_port_def attempt_def catch_def bnd_def ret_def lift_def
            stage_fold_def is_exception_def split: option.splits)
    next
      case (Inr st)
      with q \<open>q = Inr evs\<close> assms(3) have "authorised_state sc cmd evs st = Inr None"
        by (auto simp: authorised_state_def split: option.split)
      with q \<open>q = Inr evs\<close> Inr show ?thesis
        by (simp add: load_authorised_stage_def runtime_ledger_port_def attempt_def catch_def bnd_def ret_def lift_def)
    qed
  qed
  moreover have "scope_make (xs_run_id (run_scope run)) (xs_owner_ref (run_scope run)) = Inr sc"
    using assms(1,2) by (simp add: scope_make_def run_scope_def Let_def)
  moreover have "xs_run_id (run_scope run) = rn_run_id run" by (simp add: run_scope_def)
  ultimately show ?thesis
    using True by (simp add: handle_def handle_scoped_def static_scope_def eff_simps refuse_run)
qed

definition stale_commit :: commit_command where
  "stale_commit = approved_commit\<lparr>cc_decision_ledger_id := ''other''\<rparr>"

theorem unapproved_delivery_refused_witness:
  "handle (approved_coordinator (file_claim_port id)) stale_commit (approved_world (claim_directory (\<lambda>_. NoFault) []))
   = (Inr (refusal stale_commit ''approval_mismatch''), approved_world (claim_directory (\<lambda>_. NoFault) []))"
proof -
  let ?w = "approved_world (claim_directory (\<lambda>_. NoFault) [])"
  have run: "sample_scope = \<lparr>sc_run_id = rn_run_id sample_run, sc_owner_ref = ''principal://users/'' @ rn_user_id sample_run\<rparr>"
    and same: "cc_run_id stale_commit = rn_run_id sample_run"
    by (simp_all add: sample_scope_def sample_run_def stale_commit_def approved_commit_def)
  have scope: "scope_ok sample_scope" by code_simp
  have "case fst (list_stage_events (run_ledger sample_run) sample_scope (cc_stage_id stale_commit) ?w) of
      Inl e \<Rightarrow> False | Inr evs \<Rightarrow> (case stage_fold evs of Inl e \<Rightarrow> False
    | Inr st \<Rightarrow> (case st_decision st of None \<Rightarrow> False | Some dcn \<Rightarrow> dc_ledger_id dcn \<noteq> ''other''))" by code_simp
  then have "\<not> stage_approves sample_scope st dcn stale_commit"
    if "list_stage_events (run_ledger sample_run) sample_scope (cc_stage_id stale_commit) ?w = (Inr evs, ?w)"
      "stage_fold evs = Inr st" "st_decision st = Some dcn" for evs st dcn
    using that by (simp add: stage_approves_def stale_commit_def)
  from unapproved_delivery_refused [OF run scope this] same show ?thesis by simp
qed

section \<open>Reconciliation\<close>

text \<open>C17: A reconciliation never applies anything and can only settle the claim it names. Whatever the
  executor reports and whatever fails in the durable store, no application happens, no key is
  taken, and at most the named claim changes: it follows what was stored, and a completed or
  cancelled claim stays as it is.
\<close>

theorem reconcile_only_settles:
  assumes "file_ready hash w"
    and "reconcile (runtime_coordinator env (file_claim_port hash) fs content run) cmd w = (r, w')"
  shows "rx_applied w' = rx_applied w \<and> file_held hash w' = file_held hash w
     \<and> (file_stored hash w' = file_stored hash w
        \<or> (\<exists>c e. file_stored hash w (claim_key_of c) = Some c
             \<and> ec_org_id c = rk_org_id cmd \<and> ec_claim_id c = rk_claim_id cmd
             \<and> file_stored hash w' = (file_stored hash w)(claim_key_of c := Some e) \<and> claim_follows c e
             \<and> (ec_state c = CLAIMED \<or> ec_state c = INDETERMINATE)))"
  using fco.reconcile_run [OF assms]
proof
  assume "fd.same_claims hash w w'"
  with assms(1) show ?thesis by (simp add: fd.same_claims_def)
next
  assume "\<exists>c. ec_org_id c = rk_org_id cmd \<and> ec_claim_id c = rk_claim_id cmd
     \<and> file_stored hash w (claim_key_of c) = Some c \<and> fco.reconciled hash c w w'"
  then obtain c e where c: "ec_org_id c = rk_org_id cmd" "ec_claim_id c = rk_claim_id cmd"
      "file_stored hash w (claim_key_of c) = Some c"
    and w': "file_held hash w' = file_held hash w" "rx_applied w' = rx_applied w"
      "file_stored hash w' = (file_stored hash w)(claim_key_of c := Some e)" "claim_follows c e"
      "ec_state c = COMPLETED \<or> ec_state c = CLAIM_CANCELLED \<longrightarrow> e = c"
    unfolding fco.reconciled_def by blast
  show ?thesis
  proof (cases "e = c")
    case True
    with c(3) w' show ?thesis by (simp add: fun_upd_idem)
  next
    case False
    with w'(5) have "ec_state c = CLAIMED \<or> ec_state c = INDETERMINATE" by (cases "ec_state c") auto
    with c w' show ?thesis by blast
  qed
qed

theorem reconcile_only_settles_witness:
  "\<exists>x t. reconcile (reconciling_coordinator (file_claim_port id)) reconcile_sample claimed_directory = (Inr x, t)
     \<and> file_stored id t \<noteq> file_stored id claimed_directory \<and> rx_applied t = rx_applied claimed_directory"
proof -
  from sample_reconciliation obtain x t where
    run: "reconcile (reconciling_coordinator (file_claim_port id)) reconcile_sample claimed_directory = (Inr x, t)"
    and st: "map_option ec_state (file_stored id t sample_key) = Some COMPLETED"
    by (auto split: prod.splits sum.splits)
  have "file_stored id claimed_directory sample_key = Some sample_claim"
    using sample_claim_ok
    by (simp add: file_stored_def claimed_directory_files parse_simps sample_key_def)
  with st have "file_stored id t \<noteq> file_stored id claimed_directory" by (auto simp: sample_claim_def)
  with reconcile_only_settles [OF claimed_directory_ready run] run show ?thesis by blast
qed

section \<open>Sealed runs\<close>

definition same_seal :: "'z event_world_scheme \<Rightarrow> 'z event_world_scheme \<Rightarrow> bool" where
  "same_seal w v \<longleftrightarrow> ew_sealed w = ew_sealed v"

lemma same_seal_order [keeps_intros]: "reflp same_seal" "transp same_seal"
  by (auto simp: same_seal_def reflp_def transp_def)

lemma append_event_seal: "keeps same_seal (append_event env d)"
  by (rule keepsI)
     (auto simp: append_event_def same_seal_def Let_def set_run_latest_sequence_def split: option.splits if_splits)

lemma append_stage_event_seal: "keeps same_seal (append_stage_event env led sc ty payload key fp)"
proof (rule keepsI)
  fix w :: "'z event_world_scheme" and r w'
  assume "append_stage_event env led sc ty payload key fp w = (r, w')"
  then show "same_seal w w'"
    by (cases rule: append_cases) (auto simp: same_seal_def dest: keepsD [OF append_event_seal])
qed

lemma file_update_seal: "file_update hash c w = (r, w') \<Longrightarrow> ew_sealed w' = ew_sealed w"
  unfolding file_update_def
proof (erule with_lock_cases)
  fix fault r'
  assume "update_locked hash c fault (w\<lparr>fw_ops := Suc (fw_ops w)\<rparr>) = (r', w')"
  then show "ew_sealed w' = ew_sealed w" by (cases rule: update_locked_cases) (simp_all add: put_file_def)
qed simp

lemma publishing_sealed:
  assumes "ew_sealed w (rn_run_id run) \<noteq> None"
  shows "\<exists>e. record_claimed (runtime_coordinator env port fs content run) sc c w = (Inl e, w)"
    and "ec_state c \<noteq> INDETERMINATE \<Longrightarrow> ec_outcome c \<noteq> None \<Longrightarrow>
      \<exists>e. record_completion (runtime_coordinator env port fs content run) sc c w = (Inl e, w)"
proof -
  let ?co = "runtime_coordinator env port fs content run"
  have sealed: "ew_sealed w (ledger_run (run_ledger run)) \<noteq> None" using assms by (simp add: ledger_run_def run_ledger_def)
  have "\<exists>e. append_phase ?co sc phase c ty payload w = (Inl e, w)" if "ty \<noteq> EFFECT_RECONCILED" for phase ty payload
  proof -
    from append_sealed [OF sealed that] obtain e where "append_stage_event env (run_ledger run) sc ty payload
        (phase_key (env_hash env) (ec_claim_id c) phase) (phase_fingerprint (env_hash env) phase payload) w = (Inl e, w)"
      by blast
    then show ?thesis by (simp add: append_phase_def runtime_ledger_port_def bnd_def)
  qed
  then show "\<exists>e. record_claimed ?co sc c w = (Inl e, w)"
    and "ec_state c \<noteq> INDETERMINATE \<Longrightarrow> ec_outcome c \<noteq> None \<Longrightarrow> \<exists>e. record_completion ?co sc c w = (Inl e, w)"
    by (auto simp: record_claimed_def record_completion_def event_type_defs split: option.split)
qed

lemma recorded_outcome_sealed:
  assumes "file_ready hash w"
    and "record_outcome (runtime_dispatcher env (file_claim_port hash)) c x st w = (Inr f, u)"
  shows "ec_state f = st \<and> ec_outcome f = Some (xr_outcome x) \<and> ew_sealed u = ew_sealed w"
proof -
  from assms(2) obtain now e v where v: "utc_now env w = (Inr now, v)" and e: "completed c x st now = Inr e"
    and upd: "cp_update (file_claim_port hash) e v = (Inr f, u)"
    by (auto simp: record_outcome_def bnd_Inr_iff lift_def)
  from v assms(1) have "file_ready hash v" and sv: "ew_sealed v = ew_sealed w" by (auto simp: utc_now_def)
  moreover from e have "claim_ok e" "ec_state e = st" "ec_outcome e = Some (xr_outcome x)" by (auto simp: completed_def)
  moreover have "f = e" using fc.update_done [OF calculation(1,3) upd] by blast
  moreover have "ew_sealed u = ew_sealed v" using upd file_update_seal by (simp add: file_claim_port_def)
  ultimately show ?thesis by simp
qed

text \<open>C28: A sealed run strands its claims. Once the run's ledger holds its terminal event, a delivery
  that has created its durable claim raises before cancellation, authorization and apply, so the
  claim stays claimed; and a reconciliation that has settled the claim, and published that it was
  reconciled, raises all the same, because the second fact it publishes is no amendment.
\<close>

theorem sealed_run_strands_claims:
  assumes "ew_sealed w (rn_run_id run) \<noteq> None" and "file_ready hash w"
  shows "(\<exists>e. after_claimed (runtime_dispatcher env (file_claim_port hash))
            (commit_call (runtime_coordinator env (file_claim_port hash) fs content run) (run_scope run)
               \<lparr>sc_run_id = rn_run_id run, sc_owner_ref = ''principal://users/'' @ rn_user_id run\<rparr> st cmd req ex) c p w = (Inl e, w))
     \<and> (\<exists>e. fst (settle_reconciled (runtime_coordinator env (file_claim_port hash) fs content run) sc c x w) = Inl e)"
proof (intro conjI)
  let ?co = "runtime_coordinator env (file_claim_port hash) fs content run"
  from publishing_sealed(1) [OF assms(1)] obtain e where "record_claimed ?co
      \<lparr>sc_run_id = rn_run_id run, sc_owner_ref = ''principal://users/'' @ rn_user_id run\<rparr> c w = (Inl e, w)" by blast
  then show "\<exists>e. after_claimed (runtime_dispatcher env (file_claim_port hash)) (commit_call ?co (run_scope run)
      \<lparr>sc_run_id = rn_run_id run, sc_owner_ref = ''principal://users/'' @ rn_user_id run\<rparr> st cmd req ex) c p w = (Inl e, w)"
    by (simp add: after_claimed_def publish_claim_def commit_call_def observe_claim_def run_scope_def bnd_apply_Inl)
  obtain r t where run: "settle_reconciled ?co sc c x w = (r, t)" by fastforce
  have "\<exists>e. r = Inl e"
    using run [unfolded settle_reconciled_def]
  proof (cases rule: bnd_cases)
    case (returned f u)
    then have u: "record_outcome (runtime_dispatcher env (file_claim_port hash)) c x COMPLETED w = (Inr f, u)" by simp
    then have f: "ec_state f = COMPLETED" "ec_outcome f = Some (xr_outcome x)" and su: "ew_sealed u = ew_sealed w"
      using recorded_outcome_sealed [OF assms(2) u] by blast+
    from returned(2) show ?thesis
    proof (cases rule: bnd_cases)
      case (returned y v)
      have "keeps same_seal (record_reconciled ?co sc f)"
        unfolding record_reconciled_def append_phase_def
        by (cases "ec_outcome f") (auto simp: runtime_ledger_port_def intro!: keeps_intros append_stage_event_seal)
      from keepsD [OF this returned(1)] su assms(1) have "ew_sealed v (rn_run_id run) \<noteq> None" by (simp add: same_seal_def)
      from publishing_sealed(2) [OF this, of f] f obtain e where "record_completion ?co sc f v = (Inl e, v)" by force
      then have "bnd (record_completion ?co sc f) (\<lambda>_. ret (result_from_claim f COMMIT_APPLIED)) v = (Inl e, v)"
        by (rule bnd_apply_Inl)
      then have "(r, t) = (Inl e, v)" by (rule trans [OF returned(2) [symmetric]])
      then show ?thesis by (elim Pair_inject) blast
    qed simp
  qed simp
  with run show "\<exists>e. fst (settle_reconciled ?co sc c x w) = Inl e" by simp
qed

theorem sealed_run_strands_claims_witness:
  "\<exists>e. fst (settle_reconciled (reconciling_coordinator (file_claim_port id))
       \<lparr>sc_run_id = ''run1'', sc_owner_ref = ''principal://users/u1''\<rparr> sample_claim (rec_apply_result sample_recording)
       (claimed_directory\<lparr>ew_sealed := (\<lambda>_. Some ''run_completed'')\<rparr>)) = Inl e"
proof -
  let ?w = "claimed_directory\<lparr>ew_sealed := (\<lambda>_. Some ''run_completed'')\<rparr>"
  have ready: "file_ready id ?w" using claimed_directory_ready by (simp add: file_ready_def)
  have sealed: "ew_sealed ?w (rn_run_id (sample_run\<lparr>rn_latest_sequence_no := 2\<rparr>)) \<noteq> None" by simp
  show ?thesis using sealed_run_strands_claims [OF sealed ready] by (rule conjunct2)
qed

end
