(* ===== verification/RolloutModes.thy ===== *)
theory RolloutModes
  imports EffectContracts
begin

text \<open>
  \<open>agent_runtime/rollout.py\<close> with the mode vocabulary of \<open>control_plane/feature_modes.py\<close>: the ten
  rollout lanes, their resolution from the environment over the older controls, and the checks a
  process runs at startup. An environment maps a variable to its value.
\<close>

section \<open>Modes\<close>

datatype rollout_mode = OFF | SHADOW | ENFORCE

fun mode_value :: "rollout_mode \<Rightarrow> string" where
  "mode_value OFF = ''off''"
| "mode_value SHADOW = ''shadow''"
| "mode_value ENFORCE = ''enforce''"

definition mode_of :: "string \<Rightarrow> rollout_mode result" where
  "mode_of = enum_of (map (\<lambda>m. (mode_value m, m)) [OFF, SHADOW, ENFORCE])"

fun mode_rank :: "rollout_mode \<Rightarrow> nat" where
  "mode_rank OFF = 0"
| "mode_rank SHADOW = 1"
| "mode_rank ENFORCE = 2"

text \<open>The first mode of the highest rank, and of the lowest.\<close>

definition most_authoritative :: "rollout_mode list \<Rightarrow> rollout_mode result" where
  "most_authoritative ms = (case ms of
       [] \<Rightarrow> Inl ValueError
     | m # rest \<Rightarrow> Inr (fold (\<lambda>x best. if mode_rank best < mode_rank x then x else best) rest m))"

definition least_authoritative :: "rollout_mode list \<Rightarrow> rollout_mode result" where
  "least_authoritative ms = (case ms of
       [] \<Rightarrow> Inl ValueError
     | m # rest \<Rightarrow> Inr (fold (\<lambda>x best. if mode_rank x < mode_rank best then x else best) rest m))"

section \<open>Settings\<close>

record rollout_settings =
  rs_artifact_repository :: rollout_mode
  rs_operation_gateway :: rollout_mode
  rs_effect_stager :: rollout_mode
  rs_effect_commit :: rollout_mode
  rs_presentation_v2_1 :: rollout_mode
  rs_workspace_overlay :: rollout_mode
  rs_workspace_commit :: rollout_mode
  rs_mcp_gateway :: rollout_mode
  rs_sandbox_adapter :: rollout_mode
  rs_browser_adapter :: rollout_mode

definition rollout_capabilities :: "rollout_capability list" where
  "rollout_capabilities =
     [ARTIFACT_REPOSITORY, OPERATION_GATEWAY, EFFECT_STAGER, EFFECT_COMMIT, PRESENTATION_V2_1,
      WORKSPACE_OVERLAY, WORKSPACE_COMMIT, MCP_GATEWAY, SANDBOX_ADAPTER, BROWSER_ADAPTER]"

fun capability_value :: "rollout_capability \<Rightarrow> string" where
  "capability_value ARTIFACT_REPOSITORY = ''artifact_repository''"
| "capability_value OPERATION_GATEWAY = ''operation_gateway''"
| "capability_value EFFECT_STAGER = ''effect_stager''"
| "capability_value EFFECT_COMMIT = ''effect_commit''"
| "capability_value PRESENTATION_V2_1 = ''presentation_v2_1''"
| "capability_value WORKSPACE_OVERLAY = ''workspace_overlay''"
| "capability_value WORKSPACE_COMMIT = ''workspace_commit''"
| "capability_value MCP_GATEWAY = ''mcp_gateway''"
| "capability_value SANDBOX_ADAPTER = ''sandbox_adapter''"
| "capability_value BROWSER_ADAPTER = ''browser_adapter''"

definition capability_of :: "string \<Rightarrow> rollout_capability result" where
  "capability_of = enum_of (map (\<lambda>c. (capability_value c, c)) rollout_capabilities)"

fun environment_name :: "rollout_capability \<Rightarrow> string" where
  "environment_name ARTIFACT_REPOSITORY = ''ARTIFACT_REPOSITORY_MODE''"
| "environment_name OPERATION_GATEWAY = ''OPERATION_GATEWAY_MODE''"
| "environment_name EFFECT_STAGER = ''EFFECT_STAGER_MODE''"
| "environment_name EFFECT_COMMIT = ''EFFECT_COMMIT_MODE''"
| "environment_name PRESENTATION_V2_1 = ''PRESENTATION_V2_1_MODE''"
| "environment_name WORKSPACE_OVERLAY = ''WORKSPACE_OVERLAY_MODE''"
| "environment_name WORKSPACE_COMMIT = ''WORKSPACE_COMMIT_MODE''"
| "environment_name MCP_GATEWAY = ''MCP_GATEWAY_MODE''"
| "environment_name SANDBOX_ADAPTER = ''SANDBOX_ADAPTER_MODE''"
| "environment_name BROWSER_ADAPTER = ''BROWSER_ADAPTER_MODE''"

fun mode_for :: "rollout_settings \<Rightarrow> rollout_capability \<Rightarrow> rollout_mode" where
  "mode_for s ARTIFACT_REPOSITORY = rs_artifact_repository s"
| "mode_for s OPERATION_GATEWAY = rs_operation_gateway s"
| "mode_for s EFFECT_STAGER = rs_effect_stager s"
| "mode_for s EFFECT_COMMIT = rs_effect_commit s"
| "mode_for s PRESENTATION_V2_1 = rs_presentation_v2_1 s"
| "mode_for s WORKSPACE_OVERLAY = rs_workspace_overlay s"
| "mode_for s WORKSPACE_COMMIT = rs_workspace_commit s"
| "mode_for s MCP_GATEWAY = rs_mcp_gateway s"
| "mode_for s SANDBOX_ADAPTER = rs_sandbox_adapter s"
| "mode_for s BROWSER_ADAPTER = rs_browser_adapter s"

text \<open>\<open>model_validate\<close> of a dictionary with a mode for every capability.\<close>

definition settings_of :: "(rollout_capability \<Rightarrow> rollout_mode) \<Rightarrow> rollout_settings" where
  "settings_of f =
     \<lparr>rs_artifact_repository = f ARTIFACT_REPOSITORY, rs_operation_gateway = f OPERATION_GATEWAY,
      rs_effect_stager = f EFFECT_STAGER, rs_effect_commit = f EFFECT_COMMIT,
      rs_presentation_v2_1 = f PRESENTATION_V2_1, rs_workspace_overlay = f WORKSPACE_OVERLAY,
      rs_workspace_commit = f WORKSPACE_COMMIT, rs_mcp_gateway = f MCP_GATEWAY,
      rs_sandbox_adapter = f SANDBOX_ADAPTER, rs_browser_adapter = f BROWSER_ADAPTER\<rparr>"

lemma mode_for_settings_of [simp]: "mode_for (settings_of f) c = f c"
  by (cases c) (simp_all add: settings_of_def)

lemma rollout_capabilities_all [simp]: "c \<in> set rollout_capabilities"
  by (cases c) (simp_all add: rollout_capabilities_def)

definition enforced :: "rollout_settings \<Rightarrow> rollout_capability list" where
  "enforced s = filter (\<lambda>c. mode_for s c = ENFORCE) rollout_capabilities"

definition shadowed :: "rollout_settings \<Rightarrow> rollout_capability list" where
  "shadowed s = filter (\<lambda>c. mode_for s c = SHADOW) rollout_capabilities"

definition as_safe_mapping :: "rollout_settings \<Rightarrow> (string \<times> string) list" where
  "as_safe_mapping s = map (\<lambda>c. (capability_value c, mode_value (mode_for s c))) rollout_capabilities"

type_synonym environment = "string \<Rightarrow> string option"

definition requested_mode :: "environment \<Rightarrow> rollout_capability \<Rightarrow> rollout_mode result" where
  "requested_mode env c =
     (let raw = lower (strip (case env (environment_name c) of None \<Rightarrow> [] | Some v \<Rightarrow> v)) in
      case mode_of (if raw = [] then mode_value OFF else raw) of
        Inl _ \<Rightarrow> Inl RolloutConfigurationError
      | Inr m \<Rightarrow> Inr m)"

definition from_environment :: "environment \<Rightarrow> (rollout_settings \<times> rollout_capability list) result" where
  "from_environment env =
     rbind (rmap (\<lambda>c. rbind (requested_mode env c) (\<lambda>m. Inr (c, m))) rollout_capabilities) (\<lambda>values.
     Inr (settings_of (\<lambda>c. case map_of values c of None \<Rightarrow> OFF | Some m \<Rightarrow> m),
          map fst (filter (\<lambda>(c, m). m = ENFORCE) values)))"

section \<open>The bridge from the older controls\<close>

record legacy_inputs =
  lg_surfaces_v2 :: bool
  lg_artifact_effects_v2 :: bool
  lg_artifact_drafts_v2 :: bool
  lg_operation_gateway_mode :: rollout_mode
  lg_workspace_effect_mode :: rollout_mode
  lg_sandbox_adapter_active :: bool
  lg_browser_adapter_active :: bool
  lg_workspace_write_path :: bool

definition canonical_floor :: "legacy_inputs \<Rightarrow> rollout_capability \<Rightarrow> rollout_mode" where
  "canonical_floor l c =
     (if c = ARTIFACT_REPOSITORY then (if lg_artifact_effects_v2 l then ENFORCE else OFF)
      else if c \<in> {OPERATION_GATEWAY, EFFECT_STAGER, EFFECT_COMMIT, MCP_GATEWAY} then lg_operation_gateway_mode l
      else if c \<in> {WORKSPACE_OVERLAY, WORKSPACE_COMMIT} then lg_workspace_effect_mode l
      else if c = SANDBOX_ADAPTER then (if lg_sandbox_adapter_active l then ENFORCE else OFF)
      else if c = BROWSER_ADAPTER then (if lg_browser_adapter_active l then ENFORCE else OFF)
      else OFF)"

definition possible_direct_writes :: "legacy_inputs \<Rightarrow> rollout_capability set" where
  "possible_direct_writes l =
     (if \<not> lg_artifact_drafts_v2 l then {ARTIFACT_REPOSITORY} else {})
     \<union> (if lg_operation_gateway_mode l \<noteq> ENFORCE then {OPERATION_GATEWAY, EFFECT_STAGER, EFFECT_COMMIT, MCP_GATEWAY} else {})
     \<union> (if \<not> lg_surfaces_v2 l then {EFFECT_STAGER, EFFECT_COMMIT} else {})
     \<union> (if lg_workspace_effect_mode l \<noteq> ENFORCE \<and> lg_workspace_write_path l
         then {WORKSPACE_OVERLAY, WORKSPACE_COMMIT} else {})
     \<union> (if lg_browser_adapter_active l \<and> lg_operation_gateway_mode l \<noteq> ENFORCE then {BROWSER_ADAPTER} else {})
     \<union> (if lg_sandbox_adapter_active l \<and> lg_operation_gateway_mode l \<noteq> ENFORCE then {SANDBOX_ADAPTER} else {})"

record rollout_resolution =
  rr_modes :: rollout_settings
  rr_explicit :: "rollout_capability list"
  rr_elevated :: "rollout_capability list"

definition provenance_ok :: "rollout_resolution \<Rightarrow> bool" where
  "provenance_ok r \<longleftrightarrow> distinct (rr_explicit r) \<and> distinct (rr_elevated r)"

definition is_explicitly_enforced :: "rollout_resolution \<Rightarrow> rollout_capability \<Rightarrow> bool" where
  "is_explicitly_enforced r c \<longleftrightarrow> c \<in> set (rr_explicit r)"

section \<open>Startup checks\<close>

definition static_dependencies :: "(rollout_capability \<times> rollout_capability list) list" where
  "static_dependencies =
     [(EFFECT_COMMIT, [EFFECT_STAGER, OPERATION_GATEWAY]),
      (EFFECT_STAGER, [OPERATION_GATEWAY]), (MCP_GATEWAY, [OPERATION_GATEWAY]), (WORKSPACE_OVERLAY, [OPERATION_GATEWAY]),
      (WORKSPACE_COMMIT, [WORKSPACE_OVERLAY, EFFECT_STAGER, EFFECT_COMMIT, OPERATION_GATEWAY]),
      (SANDBOX_ADAPTER, [OPERATION_GATEWAY, EFFECT_STAGER, EFFECT_COMMIT]),
      (BROWSER_ADAPTER, [OPERATION_GATEWAY, EFFECT_STAGER, EFFECT_COMMIT])]"

definition require_enforce :: "rollout_settings \<Rightarrow> rollout_capability \<Rightarrow> unit result" where
  "require_enforce s c = require (mode_for s c = ENFORCE) RolloutConfigurationError"

definition validate_static :: "rollout_resolution \<Rightarrow> legacy_inputs \<Rightarrow> unit result" where
  "validate_static r l =
     rbind (rmap (\<lambda>(dependent, dependencies).
        if is_explicitly_enforced r dependent
        then rbind (rmap (require_enforce (rr_modes r)) dependencies) (\<lambda>_. Inr ())
        else Inr ()) static_dependencies) (\<lambda>_.
     require (set (rr_explicit r) \<inter> possible_direct_writes l = {}) RolloutConfigurationError)"

definition resolve_rollout :: "environment \<Rightarrow> legacy_inputs \<Rightarrow> rollout_resolution result" where
  "resolve_rollout env l =
     rbind (from_environment env) (\<lambda>(requested, explicit).
     rbind (rmap (\<lambda>c. rbind (most_authoritative [mode_for requested c, canonical_floor l c]) (\<lambda>m. Inr (c, m)))
              rollout_capabilities) (\<lambda>effective.
     let r = \<lparr>rr_modes = settings_of (\<lambda>c. case map_of effective c of None \<Rightarrow> OFF | Some m \<Rightarrow> m),
              rr_explicit = explicit,
              rr_elevated = filter (\<lambda>c. mode_rank (mode_for requested c) < mode_rank (canonical_floor l c)) rollout_capabilities\<rparr> in
     rbind (require (provenance_ok r) ValidationError) (\<lambda>_.
     rbind (validate_static r l) (\<lambda>_. Inr r))))"

record startup_readiness =
  sr_descriptor_catalog :: bool
  sr_executor_registry :: bool
  sr_ready :: "rollout_capability \<Rightarrow> bool"
  sr_workspace_attested :: bool

definition is_producer :: "rollout_capability \<Rightarrow> bool" where
  "is_producer c \<longleftrightarrow> c \<in> {ARTIFACT_REPOSITORY, OPERATION_GATEWAY, EFFECT_STAGER, EFFECT_COMMIT, WORKSPACE_OVERLAY,
     WORKSPACE_COMMIT, MCP_GATEWAY, SANDBOX_ADAPTER, BROWSER_ADAPTER}"

definition capability_ready :: "startup_readiness \<Rightarrow> rollout_capability \<Rightarrow> bool" where
  "capability_ready sr c \<longleftrightarrow>
     (is_producer c \<longrightarrow> sr_descriptor_catalog sr \<and> sr_executor_registry sr) \<and> sr_ready sr c
     \<and> (c = WORKSPACE_COMMIT \<longrightarrow> sr_workspace_attested sr)"

definition validate_startup :: "rollout_resolution \<Rightarrow> startup_readiness \<Rightarrow> unit result" where
  "validate_startup r sr =
     rbind (rmap (\<lambda>c. require (capability_ready sr c) RolloutConfigurationError) (rr_explicit r)) (\<lambda>_. Inr ())"

section \<open>What a resolution guarantees\<close>

lemma most_authoritative_two:
  "most_authoritative [a, b] = Inr m \<longleftrightarrow> m = (if mode_rank a < mode_rank b then b else a)"
  by (auto simp: most_authoritative_def)

lemma rmap_keyed:
  assumes "rmap (\<lambda>c. rbind (f c) (\<lambda>m. Inr (c, m))) cs = Inr vs"
  shows "map fst vs = cs" and "c \<in> set cs \<Longrightarrow> \<exists>m. f c = Inr m \<and> map_of vs c = Some m"
proof -
  from assms show "map fst vs = cs"
    by (induction cs arbitrary: vs) (auto simp: rbind_Inr_iff)
  from assms show "c \<in> set cs \<Longrightarrow> \<exists>m. f c = Inr m \<and> map_of vs c = Some m"
    by (induction cs arbitrary: vs) (auto simp: rbind_Inr_iff split: if_splits)
qed

lemma rollout_capabilities_distinct: "distinct rollout_capabilities"
  by (simp add: rollout_capabilities_def)

lemma from_environment_Inr:
  assumes "from_environment env = Inr (s, explicit)"
  shows "requested_mode env c = Inr (mode_for s c)" and "set explicit = {c. requested_mode env c = Inr ENFORCE}"
    and "distinct explicit"
proof -
  from assms obtain vs where vs: "rmap (\<lambda>c. rbind (requested_mode env c) (\<lambda>m. Inr (c, m))) rollout_capabilities = Inr vs"
    and s: "s = settings_of (\<lambda>c. case map_of vs c of None \<Rightarrow> OFF | Some m \<Rightarrow> m)"
    and ex: "explicit = map fst (filter (\<lambda>(c, m). m = ENFORCE) vs)"
    by (auto simp: from_environment_def rbind_Inr_iff)
  note keyed = rmap_keyed [OF vs]
  have d: "distinct (map fst vs)" using keyed(1) rollout_capabilities_distinct by simp
  show "requested_mode env c = Inr (mode_for s c)" using keyed(2) [of c] s by auto
  show "distinct explicit" using d unfolding ex by (simp add: distinct_map inj_on_def filter_map)
  show "set explicit = {c. requested_mode env c = Inr ENFORCE}"
  proof (rule set_eqI, simp)
    fix c
    obtain m where m: "requested_mode env c = Inr m" "map_of vs c = Some m" using keyed(2) [of c] by auto
    with d have "(c, m') \<in> set vs \<longleftrightarrow> m' = m" for m' by (metis map_of_eq_Some_iff option.inject)
    then show "c \<in> set explicit \<longleftrightarrow> requested_mode env c = Inr ENFORCE" unfolding ex m(1) by force
  qed
qed

lemma rmap_ok: "rmap f xs = Inr ys \<Longrightarrow> x \<in> set xs \<Longrightarrow> \<exists>y. f x = Inr y"
  by (induction xs arbitrary: ys) (auto simp: rbind_Inr_iff)

lemma validate_static_ok:
  assumes "validate_static r l = Inr ()" and "is_explicitly_enforced r c"
    and "(c, ds) \<in> set static_dependencies" and "d \<in> set ds"
  shows "mode_for (rr_modes r) d = ENFORCE"
proof -
  from assms(1) obtain us where "rmap (\<lambda>(dependent, dependencies).
        if is_explicitly_enforced r dependent
        then rbind (rmap (require_enforce (rr_modes r)) dependencies) (\<lambda>_. Inr ())
        else Inr ()) static_dependencies = Inr us"
    by (auto simp: validate_static_def rbind_Inr_iff)
  from rmap_ok [OF this assms(3)] assms(2) obtain vs where "rmap (require_enforce (rr_modes r)) ds = Inr vs"
    by (auto simp: rbind_Inr_iff)
  from rmap_ok [OF this assms(4)] show ?thesis by (simp add: require_enforce_def)
qed

end
