(* ===== verification/RolloutAdmission.thy ===== *)
theory RolloutAdmission
  imports RolloutModes
begin

text \<open>
  \<open>agent_runtime/rollout_control.py\<close> (cohort rules and admission, transitions between modes) and
  \<open>agent_runtime/rollout_admission.py\<close> (the kill switches and the one admission boundary). The
  JSON of a startup variable is read by a parameter; telemetry, which cannot influence a decision,
  is left out.
\<close>

section \<open>Identities\<close>

text \<open>\<open>^[A-Za-z0-9][A-Za-z0-9._:-]{0,127}$\<close>.\<close>

definition identifier_ok :: "string \<Rightarrow> bool" where
  "identifier_ok s \<longleftrightarrow> s \<noteq> [] \<and> is_alnum (hd s) \<and> length s \<le> 128
     \<and> list_all (\<lambda>c. is_alnum c \<or> c \<in> {CHR ''.'', CHR ''_'', CHR '':'', CHR ''-''}) (tl s)"

record cohort_facts =
  cf_org_id :: "string option"
  cf_user_id :: "string option"
  cf_device_id :: "string option"
  cf_connector_id :: "string option"

definition facts_ok :: "cohort_facts \<Rightarrow> bool" where
  "facts_ok f \<longleftrightarrow> opt_ok identifier_ok (cf_org_id f) \<and> opt_ok identifier_ok (cf_user_id f)
     \<and> opt_ok identifier_ok (cf_device_id f) \<and> opt_ok identifier_ok (cf_connector_id f)"

text \<open>A facts provider copied from a persisted run; \<open>from_verified_facts_provider\<close> turns its failure.\<close>

definition run_facts :: "string \<Rightarrow> string \<Rightarrow> cohort_facts" where
  "run_facts org user = \<lparr>cf_org_id = Some org, cf_user_id = Some user, cf_device_id = None, cf_connector_id = None\<rparr>"

definition verified_subject :: "cohort_facts \<Rightarrow> cohort_facts result" where
  "verified_subject f = (if facts_ok f then Inr f else Inl RolloutCohortConfigurationError)"

section \<open>Cohort rules\<close>

record cohort_rule =
  cu_capability :: rollout_capability
  cu_selector :: cohort_facts

definition given_text :: "string option \<Rightarrow> bool" where
  "given_text v \<longleftrightarrow> (case v of None \<Rightarrow> False | Some s \<Rightarrow> s \<noteq> [])"

definition selectors :: "cohort_facts \<Rightarrow> string option list" where
  "selectors f = [cf_org_id f, cf_user_id f, cf_device_id f, cf_connector_id f]"

definition rule_ok :: "cohort_rule \<Rightarrow> bool" where
  "rule_ok r \<longleftrightarrow> facts_ok (cu_selector r) \<and> list_ex given_text (selectors (cu_selector r))"

datatype match_scope = SCOPE_ORG | SCOPE_USER | SCOPE_DEVICE | SCOPE_CONNECTOR | SCOPE_COMPOSITE

definition rule_scope :: "cohort_rule \<Rightarrow> match_scope" where
  "rule_scope r =
     (if 1 < length (filter (\<lambda>v. v \<noteq> None) (selectors (cu_selector r))) then SCOPE_COMPOSITE
      else if cf_org_id (cu_selector r) \<noteq> None then SCOPE_ORG
      else if cf_user_id (cu_selector r) \<noteq> None then SCOPE_USER
      else if cf_device_id (cu_selector r) \<noteq> None then SCOPE_DEVICE
      else SCOPE_CONNECTOR)"

definition rule_matches :: "cohort_rule \<Rightarrow> cohort_facts \<Rightarrow> bool" where
  "rule_matches r f \<longleftrightarrow>
     list_all (\<lambda>(expected, actual). expected = None \<or> expected = actual) (zip (selectors (cu_selector r)) (selectors f))"

text \<open>Reading the rules of \<open>E2_ROLLOUT_COHORTS_JSON\<close>; a document that is no list, and every bad rule, fails.\<close>

definition text_or_null :: "json \<Rightarrow> string option result" where
  "text_or_null j = (case j of JNull \<Rightarrow> Inr None | JStr s \<Rightarrow> Inr (Some s) | _ \<Rightarrow> Inl ValidationError)"

definition capability_json :: "json \<Rightarrow> rollout_capability result" where
  "capability_json j = (case j of JStr s \<Rightarrow> capability_of s | _ \<Rightarrow> Inl ValidationError)"

definition parse_rule :: "json \<Rightarrow> cohort_rule result" where
  "parse_rule j = (case j of
       JObj d \<Rightarrow>
         rbind (require (list_all (\<lambda>(k, _). k \<in> {''capability'', ''org_id'', ''user_id'', ''device_id'', ''connector_id''}) d)
                  ValidationError) (\<lambda>_.
         rbind (capability_json (dget d ''capability'' JNull)) (\<lambda>c.
         rbind (text_or_null (dget d ''org_id'' JNull)) (\<lambda>org.
         rbind (text_or_null (dget d ''user_id'' JNull)) (\<lambda>user.
         rbind (text_or_null (dget d ''device_id'' JNull)) (\<lambda>device.
         rbind (text_or_null (dget d ''connector_id'' JNull)) (\<lambda>connector.
         let r = \<lparr>cu_capability = c, cu_selector = \<lparr>cf_org_id = org, cf_user_id = user, cf_device_id = device,
                  cf_connector_id = connector\<rparr>\<rparr> in
         if rule_ok r then Inr r else Inl ValidationError))))))
     | _ \<Rightarrow> Inl ValidationError)"

definition startup_document ::
  "(string \<Rightarrow> json result) \<Rightarrow> string option \<Rightarrow> (json list \<Rightarrow> 'a list result) \<Rightarrow> exn \<Rightarrow> 'a list result" where
  "startup_document loads raw parse err = (case raw of
       None \<Rightarrow> Inr []
     | Some text \<Rightarrow>
         if strip text = [] then Inr []
         else (case loads text of
             Inr (JArr js) \<Rightarrow> (case parse js of Inl _ \<Rightarrow> Inl err | Inr xs \<Rightarrow> Inr xs)
           | _ \<Rightarrow> Inl err))"

definition cohorts_from_environment :: "(string \<Rightarrow> json result) \<Rightarrow> environment \<Rightarrow> cohort_rule list result" where
  "cohorts_from_environment loads env =
     startup_document loads (env ''E2_ROLLOUT_COHORTS_JSON'')
       (\<lambda>js. rbind (rmap parse_rule js) (\<lambda>rs.
          if length rs \<le> 128 \<and> distinct rs then Inr rs else Inl ValidationError))
       RolloutCohortConfigurationError"

definition kill_switches_from_environment :: "(string \<Rightarrow> json result) \<Rightarrow> environment \<Rightarrow> rollout_capability list result" where
  "kill_switches_from_environment loads env =
     startup_document loads (env ''E2_ROLLOUT_KILL_SWITCHES_JSON'')
       (\<lambda>js. rbind (rmap capability_json js) (\<lambda>cs.
          if length cs \<le> length rollout_capabilities \<and> distinct cs then Inr cs else Inl ValidationError))
       RolloutKillSwitchConfigurationError"

section \<open>Cohort admission\<close>

datatype cohort_outcome = COHORT_ADMITTED | COHORT_GLOBAL_OFF | COHORT_NO_MATCH

record cohort_decision =
  cd_capability :: rollout_capability
  cd_mode :: rollout_mode
  cd_outcome :: cohort_outcome
  cd_scope :: "match_scope option"

definition cohort_admit :: "cohort_rule list \<Rightarrow> rollout_resolution \<Rightarrow> cohort_facts \<Rightarrow> rollout_capability \<Rightarrow> cohort_decision" where
  "cohort_admit rules resolution subject c =
     (let mode = mode_for (rr_modes resolution) c in
      if mode = OFF then \<lparr>cd_capability = c, cd_mode = mode, cd_outcome = COHORT_GLOBAL_OFF, cd_scope = None\<rparr>
      else (case List.find (\<lambda>r. cu_capability r = c \<and> rule_matches r subject) rules of
          None \<Rightarrow> \<lparr>cd_capability = c, cd_mode = mode, cd_outcome = COHORT_NO_MATCH, cd_scope = None\<rparr>
        | Some r \<Rightarrow> \<lparr>cd_capability = c, cd_mode = mode, cd_outcome = COHORT_ADMITTED, cd_scope = Some (rule_scope r)\<rparr>))"

section \<open>Transitions between modes\<close>

datatype transition_outcome = NO_CHANGE | ADVANCE_TO_SHADOW | PROMOTION_ALLOWED | ROLLBACK_ALLOWED | REJECTED_TRANSITION

text \<open>A soak decision is its capability and whether it permits the promotion.\<close>

definition transition_outcome ::
  "rollout_capability \<Rightarrow> rollout_mode \<Rightarrow> rollout_mode \<Rightarrow> (rollout_capability \<times> bool) option \<Rightarrow> transition_outcome" where
  "transition_outcome c current wanted soak =
     (if current = wanted then NO_CHANGE
      else if mode_rank wanted < mode_rank current then ROLLBACK_ALLOWED
      else if wanted = SHADOW then ADVANCE_TO_SHADOW
      else if current = SHADOW \<and> soak = Some (c, True) then PROMOTION_ALLOWED
      else REJECTED_TRANSITION)"

section \<open>The admission boundary\<close>

datatype runtime_outcome =
  LEGACY_PASSTHROUGH | ADMITTED | GLOBAL_OFF | NO_MATCHING_COHORT | MODE_NOT_ENFORCED | KILL_SWITCHED

record rollout_admission =
  ra_resolution :: rollout_resolution
  ra_cohorts :: "cohort_rule list"
  ra_killed :: "rollout_capability list"

definition permitted :: "runtime_outcome \<Rightarrow> bool" where
  "permitted x \<longleftrightarrow> x = LEGACY_PASSTHROUGH \<or> x = ADMITTED"

definition kill_disables :: "rollout_admission \<Rightarrow> rollout_capability \<Rightarrow> bool" where
  "kill_disables a c \<longleftrightarrow> c \<in> set (ra_killed a)"

definition explicitly_controlled :: "rollout_admission \<Rightarrow> rollout_capability \<Rightarrow> bool" where
  "explicitly_controlled a c \<longleftrightarrow> is_explicitly_enforced (ra_resolution a) c"

definition admission_decision :: "rollout_admission \<Rightarrow> rollout_capability \<Rightarrow> cohort_facts \<Rightarrow> runtime_outcome result" where
  "admission_decision a c f =
     (if kill_disables a c then Inr KILL_SWITCHED
      else if \<not> explicitly_controlled a c then Inr LEGACY_PASSTHROUGH
      else rbind (verified_subject f) (\<lambda>subject.
        let cohort = cohort_admit (ra_cohorts a) (ra_resolution a) subject c in
        Inr (if cd_outcome cohort = COHORT_GLOBAL_OFF then GLOBAL_OFF
             else if cd_outcome cohort = COHORT_NO_MATCH then NO_MATCHING_COHORT
             else if cd_mode cohort \<noteq> ENFORCE then MODE_NOT_ENFORCED
             else ADMITTED)))"

text \<open>\<open>tuple(dict.fromkeys(xs))\<close>: the first of equal elements stays.\<close>

definition first_unique :: "'a list \<Rightarrow> 'a list" where
  "first_unique xs = rev (remdups (rev xs))"

definition controls_any :: "rollout_admission \<Rightarrow> rollout_capability list \<Rightarrow> bool result" where
  "controls_any a cs =
     (if first_unique cs = [] then Inl ValueError
      else Inr (list_ex (\<lambda>c. explicitly_controlled a c \<or> kill_disables a c) (first_unique cs)))"

fun all_admitted :: "rollout_admission \<Rightarrow> rollout_capability list \<Rightarrow> cohort_facts \<Rightarrow> bool result" where
  "all_admitted a [] f = Inr True"
| "all_admitted a (c # cs) f =
     rbind (admission_decision a c f) (\<lambda>x. if x = ADMITTED then all_admitted a cs f else Inr False)"

definition permits_all :: "rollout_admission \<Rightarrow> rollout_capability list \<Rightarrow> cohort_facts \<Rightarrow> bool result" where
  "permits_all a cs f =
     (if first_unique cs = [] then Inl ValueError
      else rbind (controls_any a (first_unique cs)) (\<lambda>controlled.
        if \<not> controlled then Inr True else all_admitted a (first_unique cs) f))"

definition require_all :: "rollout_admission \<Rightarrow> rollout_capability list \<Rightarrow> cohort_facts \<Rightarrow> unit result" where
  "require_all a cs f = rbind (permits_all a cs f) (\<lambda>b. require b RolloutAdmissionDenied)"

text \<open>A governed lane: between one and ten capabilities, each once.\<close>

definition lane_make :: "rollout_capability list \<Rightarrow> rollout_capability list result" where
  "lane_make cs = (if cs \<noteq> [] \<and> length cs \<le> length rollout_capabilities \<and> distinct cs then Inr cs else Inl ValidationError)"

definition begin_governed_lane ::
  "rollout_admission \<Rightarrow> rollout_capability list \<Rightarrow> cohort_facts \<Rightarrow> rollout_capability list option result" where
  "begin_governed_lane a cs f =
     (if first_unique cs = [] then Inl ValueError
      else rbind (controls_any a (first_unique cs)) (\<lambda>controlled.
        if \<not> controlled then Inr None
        else rbind (require_all a (first_unique cs) f) (\<lambda>_. rbind (lane_make (first_unique cs)) (\<lambda>lane. Inr (Some lane)))))"

fun permits_governed_lane :: "rollout_admission \<Rightarrow> rollout_capability list \<Rightarrow> cohort_facts \<Rightarrow> bool result" where
  "permits_governed_lane a [] f = Inr True"
| "permits_governed_lane a (c # cs) f =
     (if \<not> explicitly_controlled a c \<or> kill_disables a c then Inr False
      else rbind (admission_decision a c f) (\<lambda>x. if x = ADMITTED then permits_governed_lane a cs f else Inr False))"

definition require_governed_lane :: "rollout_admission \<Rightarrow> rollout_capability list \<Rightarrow> cohort_facts \<Rightarrow> unit result" where
  "require_governed_lane a lane f = rbind (permits_governed_lane a lane f) (\<lambda>b. require b RolloutAdmissionDenied)"

section \<open>The capabilities of an executor\<close>

text \<open>\<open>effects/rollout.py\<close>.\<close>

fun effect_execution_capabilities :: "effect_executor_kind \<Rightarrow> rollout_capability list" where
  "effect_execution_capabilities MCP = [OPERATION_GATEWAY, EFFECT_STAGER, EFFECT_COMMIT, MCP_GATEWAY]"
| "effect_execution_capabilities BUILTIN = [OPERATION_GATEWAY, EFFECT_STAGER, EFFECT_COMMIT, MCP_GATEWAY]"
| "effect_execution_capabilities WORKSPACE =
     [OPERATION_GATEWAY, EFFECT_STAGER, EFFECT_COMMIT, WORKSPACE_OVERLAY, WORKSPACE_COMMIT]"
| "effect_execution_capabilities BROWSER = [OPERATION_GATEWAY, EFFECT_STAGER, EFFECT_COMMIT, BROWSER_ADAPTER]"
| "effect_execution_capabilities SANDBOX = [OPERATION_GATEWAY, EFFECT_STAGER, EFFECT_COMMIT, SANDBOX_ADAPTER]"

section \<open>What admission means\<close>

text \<open>The positive content of an admission: asked for, not killed, enforced, and in a cohort.\<close>

definition lane_open :: "rollout_admission \<Rightarrow> cohort_facts \<Rightarrow> rollout_capability \<Rightarrow> bool" where
  "lane_open a f c \<longleftrightarrow> explicitly_controlled a c \<and> \<not> kill_disables a c \<and> facts_ok f
     \<and> mode_for (rr_modes (ra_resolution a)) c = ENFORCE
     \<and> (\<exists>r \<in> set (ra_cohorts a). cu_capability r = c \<and> rule_matches r f)"

lemma cohort_admit_run:
  "cd_mode (cohort_admit rules res f c) = mode_for (rr_modes res) c"
  "cd_outcome (cohort_admit rules res f c) =
     (if mode_for (rr_modes res) c = OFF then COHORT_GLOBAL_OFF
      else if \<exists>r \<in> set rules. cu_capability r = c \<and> rule_matches r f then COHORT_ADMITTED else COHORT_NO_MATCH)"
  by (auto simp: cohort_admit_def Let_def find_None_iff find_Some_iff split: option.split)

lemma decision_admitted: "admission_decision a c f = Inr ADMITTED \<longleftrightarrow> lane_open a f c"
  unfolding admission_decision_def lane_open_def verified_subject_def Let_def cohort_admit_run
  by (simp add: rbind_Inr_iff)

lemma Inr_True: "(\<exists>x. r = Inr x \<and> x) \<longleftrightarrow> r = Inr True"
  by (metis (full_types))

lemma all_admitted_iff: "all_admitted a cs f = Inr True \<longleftrightarrow> (\<forall>c \<in> set cs. lane_open a f c)"
proof (induction cs)
  case (Cons c cs)
  then show ?case by (auto simp: rbind_Inr_iff decision_admitted [symmetric] split: if_splits)
qed simp

lemma permits_governed_iff: "permits_governed_lane a lane f = Inr True \<longleftrightarrow> (\<forall>c \<in> set lane. lane_open a f c)"
proof (induction lane)
  case (Cons c cs)
  have "lane_open a f c \<Longrightarrow> explicitly_controlled a c \<and> \<not> kill_disables a c" by (simp add: lane_open_def)
  with Cons show ?case by (auto simp: rbind_Inr_iff decision_admitted [symmetric] split: if_splits)
qed simp

lemma set_unique [simp]: "set (first_unique cs) = set cs" "distinct (first_unique cs)" "first_unique cs = [] \<longleftrightarrow> cs = []"
  by (simp_all add: first_unique_def)

lemma unique_distinct: "distinct cs \<Longrightarrow> first_unique cs = cs"
  by (simp add: first_unique_def distinct_remdups_id)

lemma controls_any_Inr: "controls_any a cs = Inr b \<longleftrightarrow>
    cs \<noteq> [] \<and> b = (\<exists>c \<in> set cs. explicitly_controlled a c \<or> kill_disables a c)"
  by (auto simp: controls_any_def list_ex_iff)

lemma require_all_Inr: "require_all a cs f = Inr () \<longleftrightarrow> cs \<noteq> []
    \<and> ((\<forall>c \<in> set cs. \<not> explicitly_controlled a c \<and> \<not> kill_disables a c) \<or> (\<forall>c \<in> set cs. lane_open a f c))"
  by (auto simp: require_all_def permits_all_def rbind_Inr_iff controls_any_Inr all_admitted_iff Inr_True split: if_splits)

lemma executor_capabilities: "effect_execution_capabilities k \<noteq> []" "distinct (effect_execution_capabilities k)"
  "length (effect_execution_capabilities k) \<le> length rollout_capabilities"
  by (cases k; simp add: rollout_capabilities_def)+

end
