(* ===== verification/EffectWorkers.thy ===== *)
theory EffectWorkers
  imports EffectCoordinator RolloutAdmission
begin

text \<open>
  The worker side of the queue: \<open>runtime_worker/handlers/effect_commit.py\<close> and
  \<open>effect_reconcile.py\<close> bind a command to its run before they ask the run's coordinator, and
  \<open>runtime_worker/e2_rollout_admission.py\<close> stands in front of the commit handler. A coordinator
  factory is a function of the run record.
\<close>

type_synonym 's coordinator_factory = "run_record \<Rightarrow> 's coordinator result"

section \<open>Binding a command to its run\<close>

definition lookup_run :: "string \<Rightarrow> string \<Rightarrow> ('z event_world_scheme, run_record option) eff" where
  "lookup_run org run_id = (\<lambda>w. (Inr (get_run org run_id w), w))"

definition load_verified_run :: "string \<Rightarrow> string \<Rightarrow> ('z event_world_scheme, run_record) eff" where
  "load_verified_run org run_id =
     bnd (lookup_run org run_id) (\<lambda>v. case v of
       None \<Rightarrow> throw RunUnavailable
     | Some run \<Rightarrow>
         if rn_org_id run \<noteq> org \<or> rn_run_id run \<noteq> run_id then throw RunPermissionDenied else ret run)"

definition pure_commit :: "runtime_commit_command \<Rightarrow> commit_command" where
  "pure_commit c =
     \<lparr>cc_run_id = rc_run_id c, cc_stage_id = rc_stage_id c, cc_revision = rc_revision c,
      cc_decision_ledger_id = rc_decision_ledger_id c, cc_proposal_digest = rc_proposal_digest c,
      cc_target_digest = rc_target_digest c, cc_idempotency_key = rc_idempotency_key c,
      cc_row_keys = rc_row_keys c, cc_retry_basis = rc_retry_basis c, cc_governed = None\<rparr>"

definition commit_worker ::
  "'z event_world_scheme coordinator_factory \<Rightarrow> runtime_commit_command \<Rightarrow> ('z event_world_scheme, unit) eff" where
  "commit_worker factory c =
     bnd (load_verified_run (rc_org_id c) (rc_run_id c)) (\<lambda>run.
     bnd (demand (rn_user_id run = rc_user_id c \<and> rn_conversation_id run = rc_conversation_id c) RunPermissionDenied) (\<lambda>_.
     bnd (lift (commit_command_make (pure_commit c))) (\<lambda>cmd.
     bnd (lift (factory run)) (\<lambda>co.
     bnd (handle co cmd) (\<lambda>_. ret ())))))"

section \<open>Reconciliation\<close>

record runtime_reconcile_command =
  qc_command_id :: string
  qc_org_id :: string
  qc_run_id :: string
  qc_claim_id :: string
  qc_created_at :: int

definition runtime_reconcile_command_make :: "runtime_reconcile_command \<Rightarrow> runtime_reconcile_command result" where
  "runtime_reconcile_command_make c =
     (if bounded_text 128 (qc_org_id c) \<and> bounded_text 128 (qc_run_id c) \<and> bounded_text 128 (qc_claim_id c)
      then Inr c else Inl ValidationError)"

fun coordinator_status_value :: "coordinator_status \<Rightarrow> string" where
  "coordinator_status_value COMMIT_APPLIED = ''applied''"
| "coordinator_status_value COMMIT_REPLAYED = ''replayed''"
| "coordinator_status_value COMMIT_REFUSED = ''refused''"
| "coordinator_status_value COMMIT_DRIFT = ''precondition_drift''"
| "coordinator_status_value COMMIT_CANCELLED = ''cancelled''"
| "coordinator_status_value COMMIT_INDETERMINATE = ''indeterminate''"
| "coordinator_status_value COMMIT_CLAIMED = ''claimed''"

definition safe_result_field :: "string \<Rightarrow> string" where
  "safe_result_field v = (if 64 < length v then ''unknown'' else v)"

text \<open>The audit emitter takes the run, the claim as it was found, the status and the safe code.\<close>

definition reconcile_worker ::
  "'z event_world_scheme claim_port \<Rightarrow> 'z event_world_scheme coordinator_factory
   \<Rightarrow> (run_record \<Rightarrow> effect_claim \<Rightarrow> string \<Rightarrow> string \<Rightarrow> ('z event_world_scheme, unit) eff) option
   \<Rightarrow> runtime_reconcile_command \<Rightarrow> ('z event_world_scheme, unit) eff" where
  "reconcile_worker claims factory emitter c =
     bnd (cp_get_by_id claims (qc_org_id c) (qc_claim_id c)) (\<lambda>v. case v of
       None \<Rightarrow> throw RunUnavailable
     | Some claim \<Rightarrow>
         if ec_org_id claim \<noteq> qc_org_id c \<or> ec_run_id claim \<noteq> qc_run_id c then throw RunPermissionDenied
         else bnd (load_verified_run (qc_org_id c) (qc_run_id c)) (\<lambda>run.
              bnd (lift (reconcile_command_make \<lparr>rk_org_id = qc_org_id c, rk_claim_id = qc_claim_id c\<rparr>)) (\<lambda>cmd.
              bnd (lift (factory run)) (\<lambda>co.
              bnd (reconcile co cmd) (\<lambda>x.
              case emitter of
                None \<Rightarrow> ret ()
              | Some emit \<Rightarrow> catch (emit run claim (safe_result_field (coordinator_status_value (cr_status x)))
                                 (safe_result_field (cr_safe_code x))) (\<lambda>_. ret ()))))))"

section \<open>The rollout gate\<close>

text \<open>\<open>EventStoreEffectStageExecutorResolver\<close>: only the fold runs under the handler.\<close>

definition stage_events_of_run :: "run_record \<Rightarrow> string \<Rightarrow> 'z event_world_scheme \<Rightarrow> envelope list" where
  "stage_events_of_run run stage_id w =
     filter (\<lambda>e. en_event_type e \<in> set effect_event_types \<and> dget (en_payload e) ''stage_id'' JNull = JStr stage_id)
       (list_events_after (rn_org_id run) (rn_run_id run) 0 w)"

definition resolve_stage_executor :: "run_record \<Rightarrow> string \<Rightarrow> ('z event_world_scheme, effect_executor_kind) eff" where
  "resolve_stage_executor run stage_id = (\<lambda>w.
     (rbind (rmap structural_of (stage_events_of_run run stage_id w)) (\<lambda>evs.
      case stage_fold evs of
        Inl e \<Rightarrow> Inl (if is_exception e then RunUnavailable else e)
      | Inr st \<Rightarrow> Inr (st_executor st)), w))"

definition command_run :: "runtime_commit_command \<Rightarrow> ('z event_world_scheme, run_record) eff" where
  "command_run c =
     bnd (lookup_run (rc_org_id c) (rc_run_id c)) (\<lambda>v. case v of
       None \<Rightarrow> throw RunPermissionDenied
     | Some run \<Rightarrow>
         if rn_org_id run \<noteq> rc_org_id c \<or> rn_run_id run \<noteq> rc_run_id c \<or> rn_user_id run \<noteq> rc_user_id c
            \<or> rn_conversation_id run \<noteq> rc_conversation_id c
         then throw RunPermissionDenied else ret run)"

definition as_denied :: "'a result \<Rightarrow> 'a result" where
  "as_denied r = (case r of
       Inl e \<Rightarrow> Inl (if e = RolloutAdmissionDenied \<or> is_value_error e then RunPermissionDenied else e)
     | Inr x \<Rightarrow> Inr x)"

definition admit_command ::
  "rollout_admission \<Rightarrow> cohort_facts \<Rightarrow> rollout_capability list \<Rightarrow> rollout_capability list option \<Rightarrow> unit result" where
  "admit_command a f expected mark = (case mark of
       None \<Rightarrow> require_all a expected f
     | Some caps \<Rightarrow>
         rbind (lane_make caps) (\<lambda>lane.
         rbind (require (lane = expected) ValueError) (\<lambda>_. require_governed_lane a lane f)))"

definition gated_commit_worker ::
  "rollout_admission \<Rightarrow> (runtime_commit_command \<Rightarrow> ('z event_world_scheme, unit) eff)
     \<Rightarrow> runtime_commit_command \<Rightarrow> ('z event_world_scheme, unit) eff" where
  "gated_commit_worker a delegate c =
     bnd (command_run c) (\<lambda>run.
     bnd (resolve_stage_executor run (rc_stage_id c)) (\<lambda>executor.
     bnd (lift (as_denied (admit_command a (run_facts (rn_org_id run) (rn_user_id run))
            (effect_execution_capabilities executor) (rc_governed c)))) (\<lambda>_.
     delegate c)))"

end
