(* ===== verification/WorkerLaws.thy ===== *)
theory WorkerLaws
  imports EffectWorkers CoordinatorChecks
begin

text \<open>
  The worker's commit handler and the rollout gate in front of it: what a command that comes
  through has passed, and that every refusal leaves the world as it was.
\<close>

section \<open>The handler\<close>

lemma load_verified_run_Inr:
  "load_verified_run org run_id w = (Inr run, u) \<longleftrightarrow>
     u = w \<and> get_run org run_id w = Some run \<and> rn_org_id run = org \<and> rn_run_id run = run_id"
  by (auto simp: load_verified_run_def lookup_run_def bnd_def ret_def throw_def split: option.splits)

lemma command_run_Inr:
  "command_run c w = (Inr run, u) \<longleftrightarrow>
     u = w \<and> get_run (rc_org_id c) (rc_run_id c) w = Some run \<and> rn_org_id run = rc_org_id c \<and> rn_run_id run = rc_run_id c
     \<and> rn_user_id run = rc_user_id c \<and> rn_conversation_id run = rc_conversation_id c"
  by (auto simp: command_run_def lookup_run_def bnd_def ret_def throw_def split: option.splits)

lemma load_verified_run_keeps: "load_verified_run org run_id w = (r, u) \<Longrightarrow> u = w"
  by (auto simp: load_verified_run_def lookup_run_def bnd_def ret_def throw_def split: option.splits if_splits)

lemma command_run_keeps: "command_run c w = (r, u) \<Longrightarrow> u = w"
  by (auto simp: command_run_def lookup_run_def bnd_def ret_def throw_def split: option.splits if_splits)

lemma commit_worker_cases:
  assumes "commit_worker factory c w = (r, w')"
  obtains (refused) e where "r = Inl e" and "w' = w"
    | (handled) run co q where "get_run (rc_org_id c) (rc_run_id c) w = Some run"
        and "rn_user_id run = rc_user_id c" and "rn_conversation_id run = rc_conversation_id c"
        and "commit_command_make (pure_commit c) = Inr (pure_commit c)" and "factory run = Inr co"
        and "handle co (pure_commit c) w = (q, w')"
  using assms unfolding commit_worker_def
proof (cases rule: bnd_cases)
  case (raised e)
  then show ?thesis using load_verified_run_keeps that(1) by blast
next
  case (returned run u)
  then have run: "u = w" "get_run (rc_org_id c) (rc_run_id c) w = Some run" by (simp_all add: load_verified_run_Inr)
  note rest = returned(2) [unfolded run(1)]
  show ?thesis
  proof (cases "rn_user_id run = rc_user_id c \<and> rn_conversation_id run = rc_conversation_id c")
    case True
    show ?thesis
    proof (cases "commit_command_make (pure_commit c)")
      case (Inr cmd)
      then have cmd: "cmd = pure_commit c" by (auto simp: commit_command_make_def split: if_splits)
      show ?thesis
      proof (cases "factory run")
        case (Inr co)
        then show ?thesis using rest True \<open>commit_command_make (pure_commit c) = Inr cmd\<close> cmd run that(2)
          by (auto simp: eff_simps elim!: bnd_cases)
      qed (use rest True Inr that(1) in \<open>auto simp: eff_simps\<close>)
    qed (use rest True that(1) in \<open>auto simp: eff_simps\<close>)
  qed (use rest that(1) in \<open>auto simp: eff_simps\<close>)
qed

lemma for_run_coordinator: "for_run env port fs content run = Inr co \<Longrightarrow> co = runtime_coordinator env port fs content run"
  by (auto simp: for_run_def rbind_Inr_iff)

lemma listed_events:
  assumes "list_stage_events (run_ledger run) sc sid w = (Inr evs, w)"
  shows "rmap structural_of (stage_events_of_run run sid w) = Inr evs"
  using assms by (auto simp: list_stage_events_def rbind_Inr_iff stage_events_of_run_def run_ledger_def)

section \<open>The gate\<close>

lemma resolve_stage_executor_keeps: "resolve_stage_executor run sid w = (r, u) \<Longrightarrow> u = w"
  by (simp add: resolve_stage_executor_def)

lemma resolve_stage_executor_Inr:
  assumes "resolve_stage_executor run sid w = (Inr k, u)"
  obtains evs st where "rmap structural_of (stage_events_of_run run sid w) = Inr evs"
    and "stage_fold evs = Inr st" and "st_executor st = k"
proof -
  from assms obtain evs where "rmap structural_of (stage_events_of_run run sid w) = Inr evs"
    and "(case stage_fold evs of Inl e \<Rightarrow> Inl (if is_exception e then RunUnavailable else e) | Inr st \<Rightarrow> Inr (st_executor st)) = Inr k"
    by (auto simp: resolve_stage_executor_def rbind_Inr_iff)
  with that show thesis by (cases "stage_fold evs") simp_all
qed

lemma admit_command_Inr:
  "admit_command a f (effect_execution_capabilities k) mark = Inr () \<longleftrightarrow>
     (let caps = effect_execution_capabilities k in
      mark = None \<and> (\<forall>c \<in> set caps. \<not> explicitly_controlled a c \<and> \<not> kill_disables a c)
      \<or> (mark = None \<or> mark = Some caps) \<and> (\<forall>c \<in> set caps. lane_open a f c))"
  by (auto simp: admit_command_def Let_def require_all_Inr executor_capabilities rbind_Inr_iff lane_make_def
      require_governed_lane_def permits_governed_iff Inr_True split: option.split)

lemma gated_cases:
  assumes "gated_commit_worker a delegate c w = (r, w')"
  obtains (refused) e where "r = Inl e" and "w' = w"
    | (admitted) run k where "get_run (rc_org_id c) (rc_run_id c) w = Some run"
        and "rn_org_id run = rc_org_id c" and "rn_run_id run = rc_run_id c"
        and "rn_user_id run = rc_user_id c" and "rn_conversation_id run = rc_conversation_id c"
        and "resolve_stage_executor run (rc_stage_id c) w = (Inr k, w)"
        and "admit_command a (run_facts (rn_org_id run) (rn_user_id run)) (effect_execution_capabilities k) (rc_governed c) = Inr ()"
        and "delegate c w = (r, w')"
  using assms unfolding gated_commit_worker_def
proof (cases rule: bnd_cases)
  case (raised e)
  then show ?thesis using command_run_keeps that(1) by blast
next
  case (returned run u)
  then have run: "u = w" "get_run (rc_org_id c) (rc_run_id c) w = Some run" "rn_org_id run = rc_org_id c"
    "rn_run_id run = rc_run_id c" "rn_user_id run = rc_user_id c" "rn_conversation_id run = rc_conversation_id c"
    by (simp_all add: command_run_Inr)
  from returned(2) show ?thesis
  proof (cases rule: bnd_cases)
    case (raised e)
    then show ?thesis using resolve_stage_executor_keeps run(1) that(1) by metis
  next
    case (returned k v)
    then have v: "v = w" "resolve_stage_executor run (rc_stage_id c) w = (Inr k, w)"
      using resolve_stage_executor_keeps [OF returned(1)] run(1) by simp_all
    show ?thesis
    proof (cases "admit_command a (run_facts (rn_org_id run) (rn_user_id run)) (effect_execution_capabilities k) (rc_governed c)")
      case (Inl e)
      then show ?thesis using returned(2) v(1) that(1) by (auto simp: eff_simps as_denied_def)
    next
      case (Inr y)
      then show ?thesis using returned(2) v run that(2) by (auto simp: eff_simps as_denied_def)
    qed
  qed
qed

end
