(* ===== verification/RolloutProperties.thy ===== *)
theory RolloutProperties
  imports WorkerLaws CoordinatorSamples
begin

text \<open>
  The rollout from the environment of a process to its gate: what a resolution guarantees, what a
  governed lane is, what a kill switch does to commands already queued, and what an effect that
  leaves the worker has passed.
\<close>

section \<open>Resolution\<close>

lemma resolve_rollout_Inr:
  assumes "resolve_rollout env l = Inr r"
  obtains requested where "from_environment env = Inr (requested, rr_explicit r)"
    and "\<forall>c. mode_for (rr_modes r) c =
       (if mode_rank (mode_for requested c) < mode_rank (canonical_floor l c) then canonical_floor l c else mode_for requested c)"
    and "rr_elevated r = filter (\<lambda>c. mode_rank (mode_for requested c) < mode_rank (canonical_floor l c)) rollout_capabilities"
    and "validate_static r l = Inr ()"
proof -
  from assms obtain requested explicit effective where env: "from_environment env = Inr (requested, explicit)"
    and eff: "rmap (\<lambda>c. rbind (most_authoritative [mode_for requested c, canonical_floor l c]) (\<lambda>m. Inr (c, m)))
        rollout_capabilities = Inr effective"
    and r: "r = \<lparr>rr_modes = settings_of (\<lambda>c. case map_of effective c of None \<Rightarrow> OFF | Some m \<Rightarrow> m), rr_explicit = explicit,
      rr_elevated = filter (\<lambda>c. mode_rank (mode_for requested c) < mode_rank (canonical_floor l c)) rollout_capabilities\<rparr>"
    and static: "validate_static r l = Inr ()"
    by (auto simp: resolve_rollout_def rbind_Inr_iff Let_def)
  have "mode_for (rr_modes r) c =
       (if mode_rank (mode_for requested c) < mode_rank (canonical_floor l c) then canonical_floor l c else mode_for requested c)"
    for c
  proof -
    from rmap_keyed(2) [OF eff, of c] obtain m where "most_authoritative [mode_for requested c, canonical_floor l c] = Inr m"
      and "map_of effective c = Some m" by auto
    then show ?thesis by (simp add: r most_authoritative_two)
  qed
  then show thesis using that [of requested] env static by (simp add: r)
qed

text \<open>C19: No setting lowers an older control, and what is enforced explicitly is safe to enforce. In
  every resolution that startup accepts, each capability has the stricter of the requested mode and
  the floor of the older controls; it counts as elevated exactly when that floor wins and as
  explicit exactly when the environment asked for enforcement; an explicit capability is enforced,
  has no direct write left beside it, and all its dependencies are enforced.
\<close>

theorem rollout_resolution_safe:
  assumes "resolve_rollout env l = Inr r"
  shows "\<exists>m. requested_mode env c = Inr m
     \<and> mode_for (rr_modes r) c = (if mode_rank m < mode_rank (canonical_floor l c) then canonical_floor l c else m)
     \<and> (c \<in> set (rr_elevated r) \<longleftrightarrow> mode_rank m < mode_rank (canonical_floor l c))
     \<and> (is_explicitly_enforced r c \<longleftrightarrow> m = ENFORCE)
     \<and> (is_explicitly_enforced r c \<longrightarrow> mode_for (rr_modes r) c = ENFORCE \<and> c \<notin> possible_direct_writes l
          \<and> (\<forall>ds d. (c, ds) \<in> set static_dependencies \<and> d \<in> set ds \<longrightarrow> mode_for (rr_modes r) d = ENFORCE))"
proof -
  obtain requested where env: "from_environment env = Inr (requested, rr_explicit r)"
    and mode: "\<forall>c. mode_for (rr_modes r) c =
       (if mode_rank (mode_for requested c) < mode_rank (canonical_floor l c) then canonical_floor l c else mode_for requested c)"
    and elev: "rr_elevated r = filter (\<lambda>c. mode_rank (mode_for requested c) < mode_rank (canonical_floor l c)) rollout_capabilities"
    and static: "validate_static r l = Inr ()" by (rule resolve_rollout_Inr [OF assms])
  note requested = from_environment_Inr(1) [OF env, of c]
  have explicit: "is_explicitly_enforced r c \<longleftrightarrow> mode_for requested c = ENFORCE"
    using from_environment_Inr(2) [OF env] requested by (simp add: is_explicitly_enforced_def)
  have "mode_for (rr_modes r) c = ENFORCE" if "mode_for requested c = ENFORCE"
    using mode [rule_format, of c] that by (cases "canonical_floor l c") simp_all
  moreover have "c \<notin> possible_direct_writes l" if "is_explicitly_enforced r c"
    using static that by (auto simp: validate_static_def rbind_Inr_iff is_explicitly_enforced_def)
  ultimately show ?thesis
    using requested mode [rule_format, of c] explicit validate_static_ok [OF static] by (auto simp: elev)
qed

definition commit_environment :: environment where
  "commit_environment v =
     (if v \<in> environment_name ` {OPERATION_GATEWAY, EFFECT_STAGER, EFFECT_COMMIT} then Some '' Enforce '' else None)"

definition gateway_inputs :: legacy_inputs where
  "gateway_inputs = \<lparr>lg_surfaces_v2 = True, lg_artifact_effects_v2 = False, lg_artifact_drafts_v2 = True,
     lg_operation_gateway_mode = ENFORCE, lg_workspace_effect_mode = SHADOW, lg_sandbox_adapter_active = False,
     lg_browser_adapter_active = False, lg_workspace_write_path = False\<rparr>"

theorem rollout_resolution_safe_witness:
  "\<exists>r. resolve_rollout commit_environment gateway_inputs = Inr r \<and> is_explicitly_enforced r EFFECT_COMMIT
     \<and> mode_for (rr_modes r) MCP_GATEWAY = ENFORCE \<and> MCP_GATEWAY \<in> set (rr_elevated r)"
proof -
  have "ok (resolve_rollout commit_environment gateway_inputs)"
    and requested: "requested_mode commit_environment EFFECT_COMMIT = Inr ENFORCE"
      "requested_mode commit_environment MCP_GATEWAY = Inr OFF" by code_simp+
  then obtain r where r: "resolve_rollout commit_environment gateway_inputs = Inr r" by (auto simp: ok_iff)
  from rollout_resolution_safe [OF r, of EFFECT_COMMIT] rollout_resolution_safe [OF r, of MCP_GATEWAY] requested r
  show ?thesis by (auto simp: canonical_floor_def gateway_inputs_def)
qed

section \<open>Lanes\<close>

lemma lane_made:
  assumes "cs \<noteq> []"
  shows "lane_make (first_unique cs) = Inr (first_unique cs)"
proof -
  have "length (first_unique cs) = card (set (first_unique cs))" by (rule distinct_card [OF set_unique(2), symmetric])
  also have "\<dots> \<le> card (set rollout_capabilities)" by (rule card_mono) auto
  also have "\<dots> = length rollout_capabilities" using rollout_capabilities_distinct by (rule distinct_card)
  finally show ?thesis using assms by (simp add: lane_make_def)
qed

text \<open>C40: A governed lane is well formed and stays admitted. Whatever capabilities a boundary asks for,
  building its lane never fails: it answers no lane exactly when none of them is controlled or
  killed, and otherwise a lane that validates, holds the same capabilities once each, and passes
  the check of the later boundary under the same configuration; it is denied in every other case.
\<close>

theorem governed_lane_typed:
  assumes "cs \<noteq> []"
  shows "case begin_governed_lane a cs f of
       Inl e \<Rightarrow> (\<exists>c \<in> set cs. \<not> lane_open a f c) \<and> (\<exists>c \<in> set cs. explicitly_controlled a c \<or> kill_disables a c)
     | Inr None \<Rightarrow> \<forall>c \<in> set cs. \<not> explicitly_controlled a c \<and> \<not> kill_disables a c
     | Inr (Some lane) \<Rightarrow> lane_make lane = Inr lane \<and> set lane = set cs
         \<and> require_governed_lane a lane f = Inr () \<and> (\<forall>c \<in> set lane. lane_open a f c)"
proof (cases "\<exists>c \<in> set cs. explicitly_controlled a c \<or> kill_disables a c")
  case False
  with assms have "controls_any a (first_unique cs) = Inr False" by (auto simp: controls_any_Inr)
  with assms False show ?thesis by (auto simp: begin_governed_lane_def)
next
  case True
  with assms have c: "controls_any a (first_unique cs) = Inr True" by (auto simp: controls_any_Inr)
  show ?thesis
  proof (cases "require_all a (first_unique cs) f")
    case (Inl e)
    have "\<not> (\<forall>c \<in> set cs. lane_open a f c)"
    proof
      assume "\<forall>c \<in> set cs. lane_open a f c"
      with assms have "require_all a (first_unique cs) f = Inr ()" by (simp add: require_all_Inr)
      with Inl show False by simp
    qed
    with assms True Inl c show ?thesis by (auto simp: begin_governed_lane_def)
  next
    case (Inr u)
    then have "require_all a (first_unique cs) f = Inr ()" by simp
    with True have opened: "\<forall>c \<in> set cs. lane_open a f c" by (auto simp: require_all_Inr)
    with assms Inr c lane_made [OF assms] show ?thesis
      by (simp add: begin_governed_lane_def require_governed_lane_def permits_governed_iff [THEN iffD2])
  qed
qed

definition mcp_admission :: rollout_admission where
  "mcp_admission = \<lparr>ra_resolution = \<lparr>rr_modes = settings_of (\<lambda>_. ENFORCE), rr_explicit = rollout_capabilities, rr_elevated = []\<rparr>,
     ra_cohorts = map (\<lambda>c. \<lparr>cu_capability = c, cu_selector = \<lparr>cf_org_id = Some ''org'', cf_user_id = None,
       cf_device_id = None, cf_connector_id = None\<rparr>\<rparr>) rollout_capabilities, ra_killed = []\<rparr>"

theorem governed_lane_typed_witness:
  "begin_governed_lane mcp_admission (EFFECT_COMMIT # effect_execution_capabilities MCP) (run_facts ''org'' ''u1'')
     = Inr (Some [EFFECT_COMMIT, OPERATION_GATEWAY, EFFECT_STAGER, MCP_GATEWAY])
   \<and> require_governed_lane mcp_admission [EFFECT_COMMIT, OPERATION_GATEWAY, EFFECT_STAGER, MCP_GATEWAY]
       (run_facts ''org'' ''u1'') = Inr ()"
proof -
  have "begin_governed_lane mcp_admission (EFFECT_COMMIT # effect_execution_capabilities MCP) (run_facts ''org'' ''u1'')
     = Inr (Some [EFFECT_COMMIT, OPERATION_GATEWAY, EFFECT_STAGER, MCP_GATEWAY])" by code_simp
  with governed_lane_typed [of "EFFECT_COMMIT # effect_execution_capabilities MCP" mcp_admission "run_facts ''org'' ''u1''"]
  show ?thesis by simp
qed

text \<open>A kill switch only denies, and it denies what is already queued. Whatever mark a queued
  command carries, the gate of a worker with one more kill switch admits it only if the gate
  admitted it before, and never when the switch names a capability of the command's executor.
\<close>

theorem kill_switch_only_denies:
  assumes "admit_command (a\<lparr>ra_killed := c # ra_killed a\<rparr>) f (effect_execution_capabilities k) mark = Inr ()"
  shows "admit_command a f (effect_execution_capabilities k) mark = Inr () \<and> c \<notin> set (effect_execution_capabilities k)"
proof -
  let ?b = "a\<lparr>ra_killed := c # ra_killed a\<rparr>"
  have "explicitly_controlled ?b d = explicitly_controlled a d" "kill_disables ?b d \<longleftrightarrow> d = c \<or> kill_disables a d" for d
    by (simp_all add: explicitly_controlled_def kill_disables_def)
  then have "lane_open ?b f d \<longleftrightarrow> lane_open a f d \<and> d \<noteq> c" for d by (auto simp: lane_open_def)
  with \<open>\<And>d. kill_disables ?b d \<longleftrightarrow> d = c \<or> kill_disables a d\<close> \<open>\<And>d. explicitly_controlled ?b d = explicitly_controlled a d\<close>
  show ?thesis using assms by (auto simp: admit_command_Inr Let_def)
qed

theorem kill_switch_only_denies_witness:
  "admit_command mcp_admission (run_facts ''org'' ''u1'') (effect_execution_capabilities MCP) None = Inr ()
   \<and> SANDBOX_ADAPTER \<notin> set (effect_execution_capabilities MCP)"
proof -
  have "admit_command (mcp_admission\<lparr>ra_killed := SANDBOX_ADAPTER # ra_killed mcp_admission\<rparr>) (run_facts ''org'' ''u1'')
      (effect_execution_capabilities MCP) None = Inr ()" by code_simp
  from kill_switch_only_denies [OF this] show ?thesis .
qed

section \<open>The gated worker\<close>

text \<open>C5: No effect leaves the worker past a closed lane. When the gated commit handler, over the
  coordinator that the worker composes and the durable claim store, reaches an executor, the
  command names a run of its own organization, user and conversation; the run's ledger folds to
  the stage whose executor was asked; and either the command carries no governed mark and none of
  that executor's capabilities is controlled or killed, or every one of them is explicitly
  enforced, not killed and admits the run's verified owner through a cohort rule, the mark, if
  there is one, being exactly that executor's lane.
\<close>

theorem gated_delivery_admitted:
  assumes "file_ready hash w"
    and "gated_commit_worker a (commit_worker (for_run env (file_claim_port hash) fs content)) cmd w = (r, w')"
    and "rx_applied w' \<noteq> rx_applied w"
  shows "\<exists>run evs st req p. get_run (rc_org_id cmd) (rc_run_id cmd) w = Some run
     \<and> rn_org_id run = rc_org_id cmd \<and> rn_user_id run = rc_user_id cmd \<and> rn_conversation_id run = rc_conversation_id cmd
     \<and> rmap structural_of (stage_events_of_run run (rc_stage_id cmd) w) = Inr evs \<and> stage_fold evs = Inr st
     \<and> rx_applied w' = rx_applied w @ [p] \<and> pf_request p = DispatchRequest req \<and> dr_executor req = st_executor st
     \<and> (let caps = effect_execution_capabilities (st_executor st) in
          rc_governed cmd = None \<and> (\<forall>c \<in> set caps. \<not> explicitly_controlled a c \<and> \<not> kill_disables a c)
          \<or> (rc_governed cmd = None \<or> rc_governed cmd = Some caps)
             \<and> (\<forall>c \<in> set caps. lane_open a (run_facts (rn_org_id run) (rn_user_id run)) c))"
  using assms(2)
proof (cases rule: gated_cases)
  case (refused e)
  with assms(3) show ?thesis by simp
next
  case (admitted run k)
  from admitted(8) show ?thesis
  proof (cases rule: commit_worker_cases)
    case (refused e)
    with assms(3) show ?thesis by simp
  next
    case (handled run' co q)
    have run: "run' = run" using handled(1) admitted(1) by simp
    have co: "co = runtime_coordinator env (file_claim_port hash) fs content run" using handled(5) run for_run_coordinator by blast
    from runtime_delivery [OF assms(1) handled(6) [unfolded co] assms(3)] obtain sc evs st req p where
      evs: "list_stage_events (run_ledger run) sc (rc_stage_id cmd) w = (Inr evs, w)" "stage_fold evs = Inr st"
      and req: "request_of st (pure_commit cmd) = Inr req" and p: "rx_applied w' = rx_applied w @ [p]" "pf_request p = DispatchRequest req"
      by (auto simp: pure_commit_def)
    note listed = listed_events [OF evs(1)]
    from listed evs(2) have "k = st_executor st" by (auto intro: resolve_stage_executor_Inr [OF admitted(6)])
    with admitted(7) request_of_key [OF req] have "dr_executor req = st_executor st" and
      "admit_command a (run_facts (rn_org_id run) (rn_user_id run)) (effect_execution_capabilities (st_executor st)) (rc_governed cmd) = Inr ()"
      by simp_all
    with admitted(1-5) listed evs(2) p show ?thesis unfolding admit_command_Inr by blast
  qed
qed

definition delivered_command :: runtime_commit_command where
  "delivered_command =
     \<lparr>rc_command_id = ''effcmd_1'', rc_org_id = ''org'', rc_user_id = ''u1'', rc_conversation_id = ''conv'',
      rc_run_id = cc_run_id approved_commit, rc_stage_id = cc_stage_id approved_commit, rc_revision = cc_revision approved_commit,
      rc_decision_ledger_id = cc_decision_ledger_id approved_commit, rc_proposal_digest = cc_proposal_digest approved_commit,
      rc_target_digest = cc_target_digest approved_commit, rc_idempotency_key = cc_idempotency_key approved_commit,
      rc_row_keys = None, rc_retry_basis = None, rc_governed = None\<rparr>"

definition approved_directory :: file_world where
  "approved_directory = approved_world (claim_directory (\<lambda>_. NoFault) [])"

lemma delivered_commit: "pure_commit delivered_command = approved_commit"
  by (simp add: pure_commit_def delivered_command_def approved_commit_def)

lemma gate_reads:
  "command_run delivered_command approved_directory = (Inr sample_run, approved_directory)"
  "load_verified_run ''org'' ''run1'' approved_directory = (Inr sample_run, approved_directory)"
  by (simp_all add: command_run_Inr load_verified_run_Inr get_run_def approved_directory_def approved_world_def
      delivered_command_def approved_commit_def sample_run_def)

lemma gate_executor:
  "resolve_stage_executor sample_run (rc_stage_id delivered_command) approved_directory = (Inr MCP, approved_directory)"
proof -
  have "fst (resolve_stage_executor sample_run (rc_stage_id delivered_command) approved_directory) = Inr MCP" by code_simp
  then show ?thesis using resolve_stage_executor_keeps by (metis prod.collapse)
qed

lemma gate_checks:
  "admit_command mcp_admission (run_facts ''org'' ''u1'') (effect_execution_capabilities MCP) None = Inr ()"
  "commit_command_make approved_commit = Inr approved_commit"
  "for_run approved_env (file_claim_port id) [(MCP, \<lambda>_. Inr sample_recording)] approved_content sample_run
     = Inr (approved_coordinator (file_claim_port id))"
proof -
  show "admit_command mcp_admission (run_facts ''org'' ''u1'') (effect_execution_capabilities MCP) None = Inr ()" by code_simp
  have "ok (commit_command_make approved_commit)" by code_simp
  then show "commit_command_make approved_commit = Inr approved_commit"
    by (auto simp: ok_iff commit_command_make_def split: if_splits)
  have "ok (execution_scope_make (run_scope sample_run))" by code_simp
  then show "for_run approved_env (file_claim_port id) [(MCP, \<lambda>_. Inr sample_recording)] approved_content sample_run
     = Inr (approved_coordinator (file_claim_port id))"
    by (auto simp: ok_iff for_run_def registry_make_def recorded_registry_def rbind_Inr_iff)
qed

lemma gated_sample_delivery:
  "\<exists>t. gated_commit_worker mcp_admission (commit_worker (for_run approved_env (file_claim_port id)
       [(MCP, \<lambda>_. Inr sample_recording)] approved_content)) delivered_command approved_directory = (Inr (), t)
     \<and> length (rx_applied t) = 1"
proof -
  from approved_delivery obtain x t where x: "handle (approved_coordinator (file_claim_port id)) approved_commit approved_directory = (Inr x, t)"
    and one: "length (rx_applied t) = 1" by (auto simp: approved_directory_def split: prod.splits sum.splits)
  have fields: "rc_org_id delivered_command = ''org''" "rc_run_id delivered_command = ''run1''" "rc_governed delivered_command = None"
    "rc_user_id delivered_command = ''u1''" "rc_conversation_id delivered_command = ''conv''" "rn_conversation_id sample_run = ''conv''"
    "rn_org_id sample_run = ''org''" "rn_user_id sample_run = ''u1''"
    by (simp_all add: delivered_command_def approved_commit_def sample_run_def)
  have "gated_commit_worker mcp_admission (commit_worker (for_run approved_env (file_claim_port id)
       [(MCP, \<lambda>_. Inr sample_recording)] approved_content)) delivered_command approved_directory = (Inr (), t)"
    by (simp add: gated_commit_worker_def commit_worker_def eff_simps gate_reads gate_executor gate_checks as_denied_def
        delivered_commit fields x ret_def
        del: effect_execution_capabilities.simps)
  with one show ?thesis by blast
qed

lemma approved_directory_ready: "file_ready id approved_directory" "rx_applied approved_directory = []"
  using claim_directory_ready(1) by (simp_all add: approved_directory_def approved_world_ready) (simp add: claim_directory_def)

theorem gated_delivery_admitted_witness:
  "\<exists>p. rx_applied (snd (gated_commit_worker mcp_admission (commit_worker (for_run approved_env (file_claim_port id)
       [(MCP, \<lambda>_. Inr sample_recording)] approved_content)) delivered_command approved_directory)) = [p]"
proof -
  from gated_sample_delivery obtain t where run: "gated_commit_worker mcp_admission (commit_worker (for_run approved_env
      (file_claim_port id) [(MCP, \<lambda>_. Inr sample_recording)] approved_content)) delivered_command approved_directory = (Inr (), t)"
    and one: "length (rx_applied t) = 1" by blast
  have "rx_applied t \<noteq> rx_applied approved_directory" using one approved_directory_ready(2) by auto
  from gated_delivery_admitted [OF approved_directory_ready(1) run this] approved_directory_ready(2) run show ?thesis by auto
qed

end
