(* ===== verification/EffectDecisions.thy ===== *)
theory EffectDecisions
  imports EffectWorkers CoordinatorWorlds
begin

text \<open>
  The decision service of \<open>agent_runtime/api/effect_stage_decision_service.py\<close>: what an approval
  route may do with a stage. It binds the caller to a run and to the executors of the route,
  admits the executor's rollout lane, and hands over to the stager and its outbox. The service
  keeps no state of its own: its ports are the store, the producer and the queue of the world.
\<close>

record decision_service =
  ds_env :: event_env
  ds_admission :: rollout_admission

text \<open>Who asks, for which stage, through a route with which executors.\<close>

record stage_caller =
  sr_org_id :: string
  sr_user_id :: string
  sr_run_id :: string
  sr_stage_id :: string
  sr_allowed :: "effect_executor_kind list"

section \<open>The owned stage\<close>

definition user_principal :: "run_record \<Rightarrow> string" where
  "user_principal run = ''principal://users/'' @ rn_user_id run"

definition decision_stager :: "event_env \<Rightarrow> run_record \<Rightarrow> 'z commit_world_scheme stager" where
  "decision_stager env run = runtime_stager env (run_ledger run) (run_scope run)"

definition owned_stage ::
  "decision_service \<Rightarrow> stage_caller \<Rightarrow> ('z commit_world_scheme, run_record \<times> stage_scope \<times> stage_state) eff" where
  "owned_stage ds r =
     bnd (demand (sr_allowed r \<noteq> []) EffectStageNotFound) (\<lambda>_.
     bnd (demand (ok (stage_id_parse (sr_stage_id r))) EffectStageNotFound) (\<lambda>_.
     bnd (lookup_run (sr_org_id r) (sr_run_id r)) (\<lambda>v. case v of
       None \<Rightarrow> throw EffectStageNotFound
     | Some run \<Rightarrow>
         bnd (demand (rn_user_id run = sr_user_id r) EffectStageNotFound) (\<lambda>_.
         bnd (lift (scope_make (rn_run_id run) (user_principal run))) (\<lambda>sc.
         bnd (lift (execution_scope_make (run_scope run))) (\<lambda>_.
         bnd (get_state (decision_stager (ds_env ds) run) sc (sr_stage_id r)) (\<lambda>st.
         bnd (demand (st_executor st \<in> set (sr_allowed r)) EffectStageNotFound) (\<lambda>_.
         ret (run, sc, st)))))))))"

definition current_stage :: "decision_service \<Rightarrow> stage_caller \<Rightarrow> ('z commit_world_scheme, stage_state) eff" where
  "current_stage ds r = bnd (owned_stage ds r) (\<lambda>(run, sc, st). ret st)"

definition stage_history_of ::
  "decision_service \<Rightarrow> stage_caller \<Rightarrow> ('z commit_world_scheme, stage_state \<times> structural_event list) eff" where
  "stage_history_of ds r =
     bnd (owned_stage ds r) (\<lambda>(run, sc, st).
     bnd (lp_list (sg_ledger (decision_stager (ds_env ds) run)) sc (sr_stage_id r)) (\<lambda>evs.
     ret (st, evs)))"

section \<open>The rollout lane\<close>

definition admit_rollout_lane ::
  "rollout_admission \<Rightarrow> run_record \<Rightarrow> effect_executor_kind \<Rightarrow> rollout_capability list option result" where
  "admit_rollout_lane a run executor =
     (case begin_governed_lane a (effect_execution_capabilities executor) (run_facts (rn_org_id run) (rn_user_id run)) of
        Inl e \<Rightarrow> Inl (if e = RolloutAdmissionDenied \<or> is_value_error e then EffectStageForbidden else e)
      | Inr lane \<Rightarrow> Inr lane)"

section \<open>Keys\<close>

definition decision_key ::
  "(string \<Rightarrow> string) \<Rightarrow> string \<Rightarrow> string \<Rightarrow> string \<Rightarrow> int \<Rightarrow> effect_decision_kind \<Rightarrow> string \<Rightarrow> string
     \<Rightarrow> string list option \<Rightarrow> string" where
  "decision_key hash namespace run_id stage_id revision decision proposal_digest target_digest row_keys =
     namespace @ ''-'' @ hash (ascii_json (JObj
       [(''run_id'', JStr run_id), (''stage_id'', JStr stage_id), (''revision'', JInt revision),
        (''decision'', JStr (decision_kind_value decision)), (''proposal_digest'', JStr proposal_digest),
        (''target_digest'', JStr target_digest), (''row_keys'', row_keys_json row_keys)]))"

definition retry_key ::
  "(string \<Rightarrow> string) \<Rightarrow> string \<Rightarrow> string \<Rightarrow> int \<Rightarrow> string \<Rightarrow> string \<Rightarrow> string list \<Rightarrow> string \<Rightarrow> string" where
  "retry_key hash run_id stage_id revision proposal_digest target_digest row_keys basis =
     ''effect-rowset-retry-'' @ hash (ascii_json (JObj
       [(''run_id'', JStr run_id), (''stage_id'', JStr stage_id), (''revision'', JInt revision),
        (''proposal_digest'', JStr proposal_digest), (''target_digest'', JStr target_digest),
        (''row_keys'', row_keys_json (Some (sort row_keys))), (''basis_ledger_id'', JStr basis)]))"

section \<open>Decisions\<close>

definition as_user :: "run_record \<Rightarrow> actor_identity result" where
  "as_user run = actor_make USER (user_principal run)"

definition record_decision ::
  "decision_service \<Rightarrow> stage_caller \<Rightarrow> int \<Rightarrow> effect_decision_kind \<Rightarrow> string \<Rightarrow> string \<Rightarrow> string list option \<Rightarrow> string
     \<Rightarrow> ('z commit_world_scheme, stage_state) eff" where
  "record_decision ds r revision decision proposal_digest target_digest row_keys namespace =
     bnd (owned_stage ds r) (\<lambda>(run, sc, current).
     bnd (lift (admit_rollout_lane (ds_admission ds) run (st_executor current))) (\<lambda>lane.
     bnd (lift (as_user run)) (\<lambda>actor.
     decide (decision_stager (ds_env ds) run) sc (sr_stage_id r) revision decision proposal_digest target_digest actor
       (decision_key (env_hash (ds_env ds)) namespace (rn_run_id run) (sr_stage_id r) revision decision
          proposal_digest target_digest row_keys) row_keys lane)))"

definition record_rows ::
  "decision_service \<Rightarrow> stage_caller \<Rightarrow> int \<Rightarrow> (string \<times> string) list \<Rightarrow> string \<Rightarrow> string \<Rightarrow> string
     \<Rightarrow> ('z commit_world_scheme, stage_state) eff" where
  "record_rows ds r revision decisions proposal_digest target_digest key =
     bnd (owned_stage ds r) (\<lambda>(run, sc, current).
     bnd (lift (as_user run)) (\<lambda>actor.
     record_row_decisions (decision_stager (ds_env ds) run) sc (sr_stage_id r) revision decisions
       proposal_digest target_digest actor key))"

section \<open>Retrying the failed rows\<close>

definition retry_approved :: "stage_state \<Rightarrow> int \<Rightarrow> string \<Rightarrow> string \<Rightarrow> (stage_decision \<times> string list) option" where
  "retry_approved st revision proposal_digest target_digest = (case st_decision st of
       None \<Rightarrow> None
     | Some dcn \<Rightarrow> (case dc_row_keys dcn of
         None \<Rightarrow> None
       | Some rows \<Rightarrow>
           if dc_decision dcn = APPROVE \<and> rv_revision (current_revision st) = revision
              \<and> rv_digest (current_revision st) = proposal_digest \<and> st_target_digest st = target_digest
           then Some (dcn, rows) else None))"

definition retry_scope_ok :: "string list option \<Rightarrow> string list \<Rightarrow> string list \<Rightarrow> bool" where
  "retry_scope_ok failed row_keys approved = (case failed of
       None \<Rightarrow> False
     | Some ks \<Rightarrow> set row_keys = set ks \<and> set row_keys \<subseteq> set approved)"

definition enqueue_rowset_retry ::
  "decision_service \<Rightarrow> stage_caller \<Rightarrow> int \<Rightarrow> string \<Rightarrow> string \<Rightarrow> string list \<Rightarrow> string
     \<Rightarrow> ('z commit_world_scheme, stage_state) eff" where
  "enqueue_rowset_retry ds r revision proposal_digest target_digest row_keys basis =
     bnd (owned_stage ds r) (\<lambda>(run, sc, current).
     case retry_approved current revision proposal_digest target_digest of
       None \<Rightarrow> throw EffectStageInvalidTransition
     | Some (dcn, rows) \<Rightarrow>
         bnd (lp_list (sg_ledger (decision_stager (ds_env ds) run)) sc (sr_stage_id r)) (\<lambda>evs.
         bnd (lift (latest_failed_scope evs basis)) (\<lambda>failed.
         bnd (demand (retry_scope_ok failed row_keys rows) EffectStageInvalidTransition) (\<lambda>_.
         bnd (lift (admit_rollout_lane (ds_admission ds) run (st_executor current))) (\<lambda>lane.
         bnd (lift (commit_command_make
            \<lparr>cc_run_id = rn_run_id run, cc_stage_id = sr_stage_id r, cc_revision = revision,
             cc_decision_ledger_id = dc_ledger_id dcn, cc_proposal_digest = proposal_digest,
             cc_target_digest = target_digest,
             cc_idempotency_key = retry_key (env_hash (ds_env ds)) (rn_run_id run) (sr_stage_id r) revision
               proposal_digest target_digest row_keys basis,
             cc_row_keys = Some row_keys, cc_retry_basis = Some basis, cc_governed = lane\<rparr>)) (\<lambda>cmd.
         bnd (sg_enqueue (decision_stager (ds_env ds) run) cmd) (\<lambda>_.
         ret current)))))))"

end
