(* ===== verification/DecisionSamples.thy ===== *)
theory DecisionSamples
  imports EffectDecisions WorkerLaws CoordinatorSamples
begin

text \<open>
  Concrete runs for the decision service: a stage waiting for its owner, and an approved set of rows
  of which one failed.
\<close>

definition pending_world :: "structural_event list \<Rightarrow> file_world" where
  "pending_world evs = (claim_directory (\<lambda>_. NoFault) [])
     \<lparr>ew_events := (\<lambda>r. if r = ''run1'' then map event_envelope evs else []),
      ew_runs := (\<lambda>r. if r = ''run1'' then Some sample_run else None)\<rparr>"

definition rows_event :: structural_event where
  "rows_event = sample_staged\<lparr>ev_payload := map (\<lambda>(k, v). if k = ''proposal_kind'' then (k, JStr ''row_set'') else (k, v))
     (ev_payload sample_staged)\<rparr>"

definition rows_approval :: structural_event where
  "rows_approval = (sample_decision_event 2 ''l2'' ''approve'')
     \<lparr>ev_payload := ev_payload (sample_decision_event 2 ''l2'' ''approve'') @ [(''row_keys'', JArr [JStr ''a'', JStr ''b''])]\<rparr>"

definition rows_applied :: structural_event where
  "rows_applied = \<lparr>ev_run_id = ''run1'', ev_ledger_id = ''l3'', ev_sequence_no = 3, ev_event_type = EFFECT_APPLIED,
     ev_payload = [(''v'', JInt 1), (''stage_id'', JStr sample_sid), (''revision'', JInt 1), (''outcome'', JStr ''applied''),
       (''row_results'', JArr [JObj [(''row_key'', JStr ''a''), (''outcome'', JStr ''applied'')],
          JObj [(''row_key'', JStr ''b''), (''outcome'', JStr ''failed'')]])],
     ev_created_at = ''t3''\<rparr>"

definition sample_service :: decision_service where
  "sample_service = \<lparr>ds_env = staging_env, ds_admission = \<lparr>ra_resolution = \<lparr>rr_modes = settings_of (\<lambda>_. OFF),
     rr_explicit = [], rr_elevated = []\<rparr>, ra_cohorts = [], ra_killed = []\<rparr>\<rparr>"

definition sample_caller :: "string \<Rightarrow> stage_caller" where
  "sample_caller user = \<lparr>sr_org_id = ''org'', sr_user_id = user, sr_run_id = ''run1'', sr_stage_id = sample_sid,
     sr_allowed = [MCP]\<rparr>"

definition approve_pending :: "stage_state result \<times> file_world" where
  "approve_pending = record_decision sample_service (sample_caller ''u1'') 1 APPROVE (sample_digest (CHR ''b''))
     (sample_digest (CHR ''a'')) None ''effect-decision'' (pending_world [sample_staged])"

lemma pending_approval:
  "case approve_pending of (Inr st, w) \<Rightarrow> st_status st = APPROVED \<and> length (cw_commands w) = 1 | (Inl e, w) \<Rightarrow> False"
  by code_simp

lemma pending_ready: "ledger_ready (run_ledger sample_run) (pending_world [sample_staged])"
proof -
  have "ok (ledger_id_format ''run1'' 1)" by code_simp
  then show ?thesis
    by (auto simp: ledger_ready_def store_wf_def pending_world_def run_ledger_def sample_run_def ledger_run_def
        event_envelope_def sample_staged_def claim_directory_def)
qed

definition rows_history :: "structural_event list" where
  "rows_history = [rows_event, rows_approval, rows_applied]"

definition rows_basis :: string where
  "rows_basis = (case ledger_id_format ''run1'' 3 of Inr l \<Rightarrow> l | Inl _ \<Rightarrow> [])"

definition rows_state :: stage_state where
  "rows_state = (case fst (current_stage sample_service (sample_caller ''u1'') (pending_world rows_history)) of
     Inr st \<Rightarrow> st | Inl _ \<Rightarrow> sample_state)"

definition retry_pending :: "stage_state result \<times> file_world" where
  "retry_pending = enqueue_rowset_retry sample_service (sample_caller ''u1'') 1 (sample_digest (CHR ''b''))
     (sample_digest (CHR ''a'')) [''b''] rows_basis (pending_world rows_history)"

lemma pending_retry: "\<exists>t. retry_pending = (Inr rows_state, t)"
proof -
  have "fst retry_pending = Inr rows_state" by code_simp
  then show ?thesis by (metis prod.collapse)
qed

end
