(* ===== verification/DecisionProperties.thy ===== *)
theory DecisionProperties
  imports DecisionSamples
begin

text \<open>
  The decision service against the pipeline behind it: what it discloses, what a call that changes
  anything has passed, and that the commands it queues are the ones the coordinator and the
  worker's gate accept.
\<close>

section \<open>Reading\<close>

text \<open>A chain of reads is the chain of its results.\<close>

lemma read_bnd: "m w = (x, w) \<Longrightarrow> (\<And>y. f y w = (g y, w)) \<Longrightarrow> bnd m f w = (rbind x g, w)"
  by (cases x) (simp_all add: bnd_def)

lemma read_steps:
  "lift x w = (x, w)" "demand b e w = (require b e, w)" "ret y w = (Inr y, w)" "throw e w = (Inl e, w)"
  "lookup_run org run_id w = (Inr (get_run org run_id w), w)"
  by (simp_all add: lift_def demand_def ret_def throw_def lookup_run_def)

definition read_state :: "event_env \<Rightarrow> run_record \<Rightarrow> stage_scope \<Rightarrow> string \<Rightarrow> 'z commit_world_scheme \<Rightarrow> stage_state result" where
  "read_state env run sc sid w =
     rbind (stage_id_parse sid) (\<lambda>_. rbind (fst (list_stage_events (run_ledger run) sc sid w)) (\<lambda>evs.
     rbind (stage_fold evs) (\<lambda>st. rbind (require (st_scope st = sc) EffectStageForbidden) (\<lambda>_. Inr st))))"

lemma get_state_read: "get_state (decision_stager env run) sc sid w = (read_state env run sc sid w, w)"
  unfolding get_state_def decision_stager_def runtime_stager_def stager.simps runtime_ledger_port_def ledger_port.simps read_state_def
  by (intro read_bnd read_steps) (simp_all add: list_stage_events_def)

lemma read_lookup:
  "(\<And>run. f run w = (g run, w)) \<Longrightarrow>
   bnd (lookup_run org run_id) (\<lambda>v. case v of None \<Rightarrow> throw e | Some run \<Rightarrow> f run) w =
     (rbind (case get_run org run_id w of None \<Rightarrow> Inl e | Some run \<Rightarrow> Inr run) g, w)"
  by (simp add: bnd_def lookup_run_def throw_def split: option.split)

definition read_owned :: "decision_service \<Rightarrow> stage_caller \<Rightarrow> 'z commit_world_scheme
    \<Rightarrow> (run_record \<times> stage_scope \<times> stage_state) result" where
  "read_owned ds r w =
     rbind (require (sr_allowed r \<noteq> []) EffectStageNotFound) (\<lambda>_.
     rbind (require (ok (stage_id_parse (sr_stage_id r))) EffectStageNotFound) (\<lambda>_.
     rbind (case get_run (sr_org_id r) (sr_run_id r) w of None \<Rightarrow> Inl EffectStageNotFound | Some run \<Rightarrow> Inr run) (\<lambda>run.
     rbind (require (rn_user_id run = sr_user_id r) EffectStageNotFound) (\<lambda>_.
     rbind (scope_make (rn_run_id run) (user_principal run)) (\<lambda>sc.
     rbind (execution_scope_make (run_scope run)) (\<lambda>_.
     rbind (read_state (ds_env ds) run sc (sr_stage_id r) w) (\<lambda>st.
     rbind (require (st_executor st \<in> set (sr_allowed r)) EffectStageNotFound) (\<lambda>_. Inr (run, sc, st)))))))))"

lemma owned_stage_read: "owned_stage ds r w = (read_owned ds r w, w)"
  unfolding owned_stage_def read_owned_def by (intro read_bnd read_lookup read_steps get_state_read)

lemma owned_stage_Inr:
  assumes "owned_stage ds r w = (Inr (run, sc, st), u)"
  shows "u = w \<and> get_run (sr_org_id r) (sr_run_id r) w = Some run \<and> rn_user_id run = sr_user_id r
     \<and> sc = \<lparr>sc_run_id = rn_run_id run, sc_owner_ref = user_principal run\<rparr>
     \<and> read_state (ds_env ds) run sc (sr_stage_id r) w = Inr st
     \<and> st_executor st \<in> set (sr_allowed r)"
  using assms
  by (auto simp: owned_stage_read read_owned_def rbind_Inr_iff dest: scope_make_Inr split: option.splits)

lemma read_state_Inr:
  assumes "read_state env run sc sid w = Inr st"
  obtains evs where "list_stage_events (run_ledger run) sc sid w = (Inr evs, w)" and "stage_fold evs = Inr st"
    and "st_scope st = sc" and "stage_wf st"
proof -
  from assms obtain evs where "fst (list_stage_events (run_ledger run) sc sid w) = Inr evs" "stage_fold evs = Inr st"
    "st_scope st = sc"
    by (auto simp: read_state_def rbind_Inr_iff)
  moreover have "snd (list_stage_events (run_ledger run) sc sid w) = w" by (simp add: list_stage_events_def)
  ultimately show thesis using that fold_wf by (metis prod.collapse)
qed

section \<open>What is not disclosed\<close>

text \<open>
  A stage the caller may not see: no executor is allowed, the id is none, the run is absent or
  somebody else's, or the run is the caller's and holds no event of the stage, or holds a stage of
  another executor.
\<close>

definition undisclosed :: "decision_service \<Rightarrow> stage_caller \<Rightarrow> 'z commit_world_scheme \<Rightarrow> bool" where
  "undisclosed ds r w \<longleftrightarrow>
     sr_allowed r = [] \<or> \<not> ok (stage_id_parse (sr_stage_id r))
     \<or> (case get_run (sr_org_id r) (sr_run_id r) w of
          None \<Rightarrow> True
        | Some run \<Rightarrow> rn_user_id run \<noteq> sr_user_id r
            \<or> ok (scope_make (rn_run_id run) (user_principal run)) \<and> ok (execution_scope_make (run_scope run))
              \<and> (stage_events_of_run run (sr_stage_id r) w = []
                 \<or> (\<exists>st. fst (get_state (decision_stager (ds_env ds) run)
                       \<lparr>sc_run_id = rn_run_id run, sc_owner_ref = user_principal run\<rparr> (sr_stage_id r) w) = Inr st
                     \<and> st_executor st \<notin> set (sr_allowed r))))"

lemma read_state_absent:
  assumes "stage_events_of_run run sid w = []" and "ok (stage_id_parse sid)"
  shows "read_state env run \<lparr>sc_run_id = rn_run_id run, sc_owner_ref = user_principal run\<rparr> sid w = Inl EffectStageNotFound"
proof -
  from assms(2) obtain u where "stage_id_parse sid = Inr u" by (auto simp: ok_iff)
  moreover have "fst (list_stage_events (run_ledger run)
      \<lparr>sc_run_id = rn_run_id run, sc_owner_ref = user_principal run\<rparr> sid w) = Inr []"
    using assms(1) by (simp add: list_stage_events_def stage_events_of_run_def run_ledger_def user_principal_def
        assert_ledger_scope_def require_def)
  ultimately show ?thesis by (simp add: read_state_def stage_fold_def fold_events_def)
qed

lemma owned_stage_undisclosed: "undisclosed ds r w \<Longrightarrow> owned_stage ds r w = (Inl EffectStageNotFound, w)"
  by (auto simp: owned_stage_read read_owned_def undisclosed_def get_state_read ok_iff require_def read_state_absent
      scope_make_def Let_def split: option.splits if_splits)

text \<open>C9: What the caller may not see is not found, whatever the reason and whatever is asked. An
  empty route, a malformed id, an absent run, another user's run, a stage the run does not hold
  and a stage of an executor outside the route are answered alike by every operation, with
  \<open>EffectStageNotFound\<close>, and nothing changes.
\<close>

theorem undisclosed_is_not_found:
  assumes "undisclosed ds r w"
  shows "current_stage ds r w = (Inl EffectStageNotFound, w)
     \<and> stage_history_of ds r w = (Inl EffectStageNotFound, w)
     \<and> record_decision ds r revision decision pd td row_keys namespace w = (Inl EffectStageNotFound, w)
     \<and> record_rows ds r revision decisions pd td key w = (Inl EffectStageNotFound, w)
     \<and> enqueue_rowset_retry ds r revision pd td keys basis w = (Inl EffectStageNotFound, w)"
  using owned_stage_undisclosed [OF assms]
  by (simp add: current_stage_def stage_history_of_def record_decision_def record_rows_def
      enqueue_rowset_retry_def eff_simps)

theorem undisclosed_is_not_found_witness:
  "record_decision sample_service (sample_caller ''mallory'') 1 APPROVE (replicate 64 CHR ''a'') (replicate 64 CHR ''b'') None ''decision'' (pending_world [sample_staged])
     = (Inl EffectStageNotFound, pending_world [sample_staged])"
proof -
  have "undisclosed sample_service (sample_caller ''mallory'') (pending_world [sample_staged])"
    by (simp add: undisclosed_def sample_caller_def get_run_def pending_world_def sample_run_def)
  from undisclosed_is_not_found [OF this] show ?thesis by blast
qed

section \<open>What a change has passed\<close>

lemma admitted_lane:
  assumes "admit_rollout_lane a run k = Inr lane"
  shows "admit_command a (run_facts (rn_org_id run) (rn_user_id run)) (effect_execution_capabilities k) lane = Inr ()"
proof -
  have "begin_governed_lane a (effect_execution_capabilities k) (run_facts (rn_org_id run) (rn_user_id run)) = Inr lane"
    using assms by (auto simp: admit_rollout_lane_def split: sum.splits)
  then show ?thesis
    by (auto simp: begin_governed_lane_def rbind_Inr_iff controls_any_Inr require_all_Inr admit_command_Inr Let_def
        unique_distinct [OF executor_capabilities(2)] lane_make_def executor_capabilities split: if_splits)
qed

text \<open>Only the owner's admitted call changes anything. When recording a decision or queueing a
  retry changes the world, or returns a state, the run is the caller's own, the stage is one of the
  run's and of an executor the route allows, and the lane of that executor is open to the owner or
  none of its capabilities is controlled or killed.
\<close>

theorem changes_need_an_admitted_owner:
  assumes "record_decision ds r revision decision pd td row_keys namespace w = (x, w')
     \<or> enqueue_rowset_retry ds r revision pd td keys basis w = (x, w')"
    and "w' \<noteq> w \<or> ok x"
  shows "\<exists>run st lane. get_run (sr_org_id r) (sr_run_id r) w = Some run \<and> rn_user_id run = sr_user_id r
     \<and> read_state (ds_env ds) run \<lparr>sc_run_id = rn_run_id run, sc_owner_ref = user_principal run\<rparr> (sr_stage_id r) w = Inr st
     \<and> st_executor st \<in> set (sr_allowed r)
     \<and> admit_command (ds_admission ds) (run_facts (rn_org_id run) (rn_user_id run))
          (effect_execution_capabilities (st_executor st)) lane = Inr ()"
proof -
  have "\<exists>run sc st lane. owned_stage ds r w = (Inr (run, sc, st), w)
      \<and> admit_rollout_lane (ds_admission ds) run (st_executor st) = Inr lane"
  proof (cases "read_owned ds r w")
    case (Inl e)
    with assms show ?thesis
      by (auto simp: record_decision_def enqueue_rowset_retry_def owned_stage_read eff_simps)
  next
    case (Inr q)
    then obtain run sc st where q: "owned_stage ds r w = (Inr (run, sc, st), w)" by (cases q) (simp add: owned_stage_read)
    have "\<exists>lane. admit_rollout_lane (ds_admission ds) run (st_executor st) = Inr lane"
    proof (rule ccontr)
      assume "\<nexists>lane. admit_rollout_lane (ds_admission ds) run (st_executor st) = Inr lane"
      then obtain e where "admit_rollout_lane (ds_admission ds) run (st_executor st) = Inl e"
        by (cases "admit_rollout_lane (ds_admission ds) run (st_executor st)") auto
      with assms q show False
        by (auto simp: record_decision_def enqueue_rowset_retry_def eff_simps bnd_def throw_def decision_stager_def
            runtime_stager_def runtime_ledger_port_def list_stage_events_def
            split: option.splits sum.splits prod.splits if_splits)
    qed
    with q show ?thesis by blast
  qed
  then show ?thesis using owned_stage_Inr admitted_lane by metis
qed

lemma pending_frame:
  "queued (pending_world evs) = []" "get_run ''org'' ''run1'' (pending_world evs) = Some sample_run"
  by (simp_all add: pending_world_def queued_def claim_directory_def get_run_def sample_run_def)

theorem changes_need_an_admitted_owner_witness:
  "\<exists>st. read_state (ds_env sample_service) sample_run sample_scope sample_sid (pending_world [sample_staged]) = Inr st
     \<and> st_executor st = MCP"
proof -
  obtain st w where run: "approve_pending = (Inr st, w)" using pending_approval by (auto split: prod.splits sum.splits)
  from changes_need_an_admitted_owner [OF disjI1 [OF run [unfolded approve_pending_def]]] show ?thesis
    by (auto simp: pending_frame sample_caller_def user_principal_def sample_run_def sample_scope_def)
qed

section \<open>What is queued is accepted\<close>

lemma load_accepts:
  assumes "list_stage_events (run_ledger run) sc (cc_stage_id cmd) w = (Inr evs, w)" and "stage_fold evs = Inr st"
    and "authorised_state sc cmd evs st = Inr (Some st)"
  shows "load_authorised_stage (runtime_coordinator env port fs content run) sc cmd w = (Inr (Some st), w)"
  using assms
  by (simp add: load_authorised_stage_def runtime_ledger_port_def attempt_def catch_def bnd_def lift_def ret_def)

lemma approved_authorised:
  assumes "stage_wf st" and "st_scope st = sc" and "st_decision st = Some dcn" and "dc_decision dcn = APPROVE"
    and "cc_revision cmd = rv_revision (current_revision st)" and "cc_decision_ledger_id cmd = dc_ledger_id dcn"
    and "cc_proposal_digest cmd = rv_digest (current_revision st)" and "cc_target_digest cmd = st_target_digest st"
    and "command_row_scope_matches evs (dc_row_keys dcn) cmd = Inr True"
  shows "authorised_state sc cmd evs st = Inr (Some st)"
proof -
  from assms(1,3) have "decision_pinned st dcn" by (simp add: stage_wf_def decision_wf_def)
  with assms show ?thesis
    by (simp add: authorised_state_def stage_approves_def stage_current_def decision_pinned_def)
qed

lemma listing_after_enqueue:
  "list_stage_events led sc sid (register_command i c (w\<lparr>cw_commands := cs\<rparr>)) =
     (fst (list_stage_events led sc sid w), register_command i c (w\<lparr>cw_commands := cs\<rparr>))"
  by (simp add: list_stage_events_def list_events_after_def register_command_def get_run_def split: option.split)

lemma retry_run:
  assumes "enqueue_rowset_retry ds r revision pd td keys basis w = (Inr st, w')"
  obtains run sc evs failed dcn rows lane cmd where
    "owned_stage ds r w = (Inr (run, sc, st), w)"
    and "retry_approved st revision pd td = Some (dcn, rows)"
    and "list_stage_events (run_ledger run) sc (sr_stage_id r) w = (Inr evs, w)"
    and "latest_failed_scope evs basis = Inr failed" and "retry_scope_ok failed keys rows"
    and "admit_rollout_lane (ds_admission ds) run (st_executor st) = Inr lane"
    and "cmd = \<lparr>cc_run_id = rn_run_id run, cc_stage_id = sr_stage_id r, cc_revision = revision,
             cc_decision_ledger_id = dc_ledger_id dcn, cc_proposal_digest = pd, cc_target_digest = td,
             cc_idempotency_key = retry_key (env_hash (ds_env ds)) (rn_run_id run) (sr_stage_id r) revision pd td keys basis,
             cc_row_keys = Some keys, cc_retry_basis = Some basis, cc_governed = lane\<rparr>"
    and "enqueue_after_decision (env_hash (ds_env ds)) (run_scope run) cmd w = (Inr (), w')"
proof -
  from assms obtain run sc current where own: "owned_stage ds r w = (Inr (run, sc, current), w)"
    by (auto simp: enqueue_rowset_retry_def bnd_Inr_iff owned_stage_read)
  with assms obtain dcn rows where retry: "retry_approved current revision pd td = Some (dcn, rows)"
    by (auto simp: enqueue_rowset_retry_def eff_simps throw_def split: option.splits)
  from assms own retry obtain evs failed lane cmd where
    "list_stage_events (run_ledger run) sc (sr_stage_id r) w = (Inr evs, w)"
    "latest_failed_scope evs basis = Inr failed" "retry_scope_ok failed keys rows"
    "admit_rollout_lane (ds_admission ds) run (st_executor current) = Inr lane"
    "commit_command_make \<lparr>cc_run_id = rn_run_id run, cc_stage_id = sr_stage_id r, cc_revision = revision,
             cc_decision_ledger_id = dc_ledger_id dcn, cc_proposal_digest = pd, cc_target_digest = td,
             cc_idempotency_key = retry_key (env_hash (ds_env ds)) (rn_run_id run) (sr_stage_id r) revision pd td keys basis,
             cc_row_keys = Some keys, cc_retry_basis = Some basis, cc_governed = lane\<rparr> = Inr cmd"
    "enqueue_after_decision (env_hash (ds_env ds)) (run_scope run) cmd w = (Inr (), w')" "st = current"
    by (auto simp: enqueue_rowset_retry_def eff_simps bnd_Inr_iff decision_stager_def runtime_stager_def
        runtime_ledger_port_def list_stage_events_def ret_def split: sum.splits if_splits)
  then show thesis using own retry that by (auto simp: commit_command_make_def split: if_splits)
qed

text \<open>C16: A queued retry is one the coordinator and the gate accept. A retry of failed rows that the
  service accepts adds one command to the queue; in the world it leaves, the run's coordinator
  authorizes exactly that command against the very state the service answered, and the worker's
  gate admits it under the same configuration.
\<close>

theorem queued_retry_is_accepted:
  fixes w :: "'z recorder_world_scheme"
  assumes "enqueue_rowset_retry ds r revision pd td keys basis w = (Inr st, w')"
  shows "\<exists>run rc. get_run (sr_org_id r) (sr_run_id r) w = Some run \<and> cw_commands w' = cw_commands w @ [rc]
     \<and> load_authorised_stage (runtime_coordinator (ds_env ds) port fs content run)
          \<lparr>sc_run_id = rn_run_id run, sc_owner_ref = user_principal run\<rparr> (pure_commit rc) w' = (Inr (Some st), w')
     \<and> admit_command (ds_admission ds) (run_facts (rn_org_id run) (rn_user_id run))
          (effect_execution_capabilities (st_executor st)) (rc_governed rc) = Inr ()"
proof -
  obtain run sc evs failed dcn rows lane cmd where
    own: "owned_stage ds r w = (Inr (run, sc, st), w)"
    and retry: "retry_approved st revision pd td = Some (dcn, rows)"
    and evs: "list_stage_events (run_ledger run) sc (sr_stage_id r) w = (Inr evs, w)"
    and failed: "latest_failed_scope evs basis = Inr failed" "retry_scope_ok failed keys rows"
    and lane: "admit_rollout_lane (ds_admission ds) run (st_executor st) = Inr lane"
    and cmd: "cmd = \<lparr>cc_run_id = rn_run_id run, cc_stage_id = sr_stage_id r, cc_revision = revision,
             cc_decision_ledger_id = dc_ledger_id dcn, cc_proposal_digest = pd, cc_target_digest = td,
             cc_idempotency_key = retry_key (env_hash (ds_env ds)) (rn_run_id run) (sr_stage_id r) revision pd td keys basis,
             cc_row_keys = Some keys, cc_retry_basis = Some basis, cc_governed = lane\<rparr>"
    and enq: "enqueue_after_decision (env_hash (ds_env ds)) (run_scope run) cmd w = (Inr (), w')"
    by (rule retry_run [OF assms])
  note owner = owned_stage_Inr [OF own]
  from read_state_Inr [of "ds_env ds" run sc "sr_stage_id r" w st] owner evs have fold: "stage_fold evs = Inr st"
    and sc: "st_scope st = sc" and wf: "stage_wf st" by (metis Pair_inject sum.inject(2))+
  from retry have dcn: "st_decision st = Some dcn" "dc_row_keys dcn = Some rows" "dc_decision dcn = APPROVE"
    "rv_revision (current_revision st) = revision" "rv_digest (current_revision st) = pd" "st_target_digest st = td"
    by (auto simp: retry_approved_def split: option.splits if_splits)
  from enq obtain rc where rc: "domain_command rc = cmd"
    and w': "w' = register_command (rc_command_id rc) rc (w\<lparr>cw_commands := cw_commands w @ [rc]\<rparr>)"
    by (cases rule: enqueue_cases) auto
  have pure: "pure_commit rc = cmd\<lparr>cc_governed := None\<rparr>" using rc by (auto simp: pure_commit_def domain_command_def)
  have "command_row_scope_matches evs (dc_row_keys dcn) (pure_commit rc) = Inr True"
    using failed by (auto simp: pure cmd dcn(2) command_row_scope_matches_def retry_scope_ok_def split: option.splits)
  then have "authorised_state sc (pure_commit rc) evs st = Inr (Some st)"
    by (intro approved_authorised [OF wf sc dcn(1,3)]) (simp_all add: pure cmd dcn)
  moreover have "list_stage_events (run_ledger run) sc (cc_stage_id (pure_commit rc)) w' = (Inr evs, w')"
    using evs by (simp add: w' listing_after_enqueue pure cmd)
  ultimately have "load_authorised_stage (runtime_coordinator (ds_env ds) port fs content run) sc (pure_commit rc) w'
      = (Inr (Some st), w')" using fold by (intro load_accepts)
  moreover have "rc_governed rc = lane" using rc cmd by (auto simp: domain_command_def)
  ultimately show ?thesis using owner admitted_lane [OF lane] w' by (intro exI [of _ run] exI [of _ rc]) simp
qed

theorem queued_retry_is_accepted_witness:
  "\<exists>rc t. cw_commands t = [rc] \<and> retry_pending = (Inr rows_state, t)
     \<and> load_authorised_stage (runtime_coordinator staging_env (file_claim_port id) [] approved_content sample_run)
          sample_scope (pure_commit rc) t = (Inr (Some rows_state), t)"
proof -
  obtain t where run: "retry_pending = (Inr rows_state, t)" using pending_retry by blast
  note accepted = queued_retry_is_accepted [OF run [unfolded retry_pending_def],
      where port = "file_claim_port id" and fs = "[]" and content = approved_content]
  have "cw_commands (pending_world evs) = []" for evs by (simp add: pending_world_def claim_directory_def)
  with accepted run show ?thesis
    by (auto simp: pending_frame sample_caller_def user_principal_def sample_run_def sample_scope_def sample_service_def)
qed

lemma decide_reads_back:
  assumes "ledger_ready led w"
    and "decide (runtime_stager env led xs) sc sid revision decision pd td actor key row_keys governed w = (Inr st', w')"
  shows "get_state (runtime_stager env led xs) sc sid w' = (Inr st', w')"
  using assms
proof (cases rule: rs.decide_cases)
  case (repeated st)
  then show ?thesis by simp
next
  case (appended st now s1 f ev s2)
  from appended(7) obtain v where v: "get_state (runtime_stager env led xs) sc sid v = (Inr st', w')"
    by (auto simp: bnd_Inr_iff)
  have "w' = v" using v
    by (auto simp: get_state_def runtime_stager_def runtime_ledger_port_def list_stage_events_def bnd_Inr_iff ret_def lift_def
        demand_def)
  with v show ?thesis by simp
qed simp

lemma queued_approval:
  assumes "ledger_ready led w" and "safe_reference_ok (ai_ref actor)"
    and "decide (runtime_stager env led xs) sc sid revision APPROVE pd td actor key row_keys governed w = (Inr st', w')"
    and "queued w' \<noteq> queued w" and "st_status st' = APPROVED"
  shows "\<exists>st d ev c. get_state (runtime_stager env led xs) sc sid w = (Inr st, w)
     \<and> decision_admitted sc st revision APPROVE pd td actor row_keys \<and> st' = decided_state st d ev
     \<and> dc_row_keys d = row_keys \<and> queued w' = queued w @ [c]
     \<and> approved_command sc sid revision (dc_ledger_id d) pd td key row_keys governed = Inr c"
  using assms(1,3)
proof (cases rule: rs.decide_cases)
  case (repeated st)
  with assms(4) show ?thesis by simp
next
  case (appended st now s1 f ev s2)
  let ?sg = "runtime_stager env led xs"
  note state = rs.get_state_outcome(2) [OF assms(1) appended(1)]
  from rs.appended_decision [OF appended(3) _ _ assms(2) appended(2,6)] state obtain d where
    d: "dc_row_keys d = row_keys" "dc_ledger_id d = ev_ledger_id ev"
    and step: "fold_step (Some st) ev = Some (decided_state st d ev)" by blast
  from appended(7) obtain c u where c: "approved_command sc sid revision (ev_ledger_id ev) pd td key row_keys governed = Inr c"
    and enq: "sg_enqueue ?sg c s2 = (Inr (), u)" by (auto simp: bnd_Inr_iff lift_def)
  note r2 = rs.append_ready [OF appended(3,6)]
  note tail = rs.decide_tail [OF r2 appended(7)]
  have q: "queued w' = queued w @ [c]" using tail(4) [of st'] c rs.append_queue [OF appended(3,6)] appended(5) by simp
  have fold': "fold_events (stage_history led s2 sid) = Some st'" using tail(2,4) by simp
  have "fold_events (stage_history led s2 sid) = Some st \<or> fold_events (stage_history led s2 sid) = Some (decided_state st d ev)"
    using rl.fold_after_append [OF appended(3) appended(6) [unfolded runtime_stager_def stager.simps], of sid] appended(4) step state
    by auto
  moreover have "st_status st \<noteq> APPROVED" using appended(2) by (auto simp: decision_admitted_def decided_status_def)
  ultimately have "st' = decided_state st d ev" using fold' assms(5) by auto
  with d c q appended(1,2) show ?thesis by (intro exI [of _ st] exI [of _ d] exI [of _ ev] exI [of _ c]) simp
qed (use assms(4) in simp)

text \<open>The command an approval queues is authorized against the stage the approval left.\<close>

lemma approved_command_loads:
  fixes w :: "'z recorder_world_scheme"
  assumes c: "approved_command sc stage_id revision (dc_ledger_id d) pd td key (dc_row_keys d) lane = Inr c"
    and rc: "domain_command rc = c"
    and evs: "list_stage_events (run_ledger run) sc stage_id w = (Inr evs, w)" "stage_fold evs = Inr st"
    and st: "stage_wf st" "st_scope st = sc" "st_decision st = Some d" "dc_decision d = APPROVE"
    and pins: "revision = rv_revision (current_revision st)" "pd = rv_digest (current_revision st)" "td = st_target_digest st"
  shows "load_authorised_stage (runtime_coordinator env port fs content run) sc (pure_commit rc) w = (Inr (Some st), w)"
    and "rc_governed rc = lane"
proof -
  from c have fields: "c = \<lparr>cc_run_id = sc_run_id sc, cc_stage_id = stage_id, cc_revision = revision,
      cc_decision_ledger_id = dc_ledger_id d, cc_proposal_digest = pd, cc_target_digest = td, cc_idempotency_key = key,
      cc_row_keys = dc_row_keys d, cc_retry_basis = None, cc_governed = lane\<rparr>"
    by (auto simp: approved_command_def commit_command_make_def split: if_splits)
  have pure: "pure_commit rc = c\<lparr>cc_governed := None\<rparr>" using rc by (auto simp: pure_commit_def domain_command_def)
  have "authorised_state sc (pure_commit rc) evs st = Inr (Some st)"
    by (rule approved_authorised [OF st]) (simp_all add: pure fields pins command_row_scope_matches_def)
  with evs show "load_authorised_stage (runtime_coordinator env port fs content run) sc (pure_commit rc) w
      = (Inr (Some st), w)" by (intro load_accepts) (simp_all add: pure fields)
  show "rc_governed rc = lane" using rc fields by (auto simp: domain_command_def)
qed

text \<open>C10: A queued approval is one the coordinator and the gate accept. When recording an approval
  answers an approved stage and the queue has changed, it has grown by one command, which, in the
  world the call leaves, the run's coordinator authorizes against the very state that was answered,
  and which the worker's gate admits under the same configuration.
\<close>

theorem queued_approval_is_accepted:
  fixes w :: "'z recorder_world_scheme"
  assumes "record_decision ds r revision APPROVE pd td row_keys namespace w = (Inr st, w')"
    and "queued w' \<noteq> queued w" and "st_status st = APPROVED"
    and "get_run (sr_org_id r) (sr_run_id r) w = Some run" and "ledger_ready (run_ledger run) w"
  shows "\<exists>rc. rc \<in> set (cw_commands w') \<and> queued w' = queued w @ [domain_command rc]
     \<and> load_authorised_stage (runtime_coordinator (ds_env ds) port fs content run)
          \<lparr>sc_run_id = rn_run_id run, sc_owner_ref = user_principal run\<rparr> (pure_commit rc) w' = (Inr (Some st), w')
     \<and> admit_command (ds_admission ds) (run_facts (rn_org_id run) (rn_user_id run))
          (effect_execution_capabilities (st_executor st)) (rc_governed rc) = Inr ()"
proof -
  from assms(1) obtain run' sc cur lane actor key where own: "owned_stage ds r w = (Inr (run', sc, cur), w)"
    and lane: "admit_rollout_lane (ds_admission ds) run' (st_executor cur) = Inr lane" and actor: "as_user run' = Inr actor"
    and decide: "decide (decision_stager (ds_env ds) run') sc (sr_stage_id r) revision APPROVE pd td actor key row_keys lane w
        = (Inr st, w')"
    by (auto simp: record_decision_def bnd_Inr_iff owned_stage_read lift_def)
  note owner = owned_stage_Inr [OF own]
  with assms(4) have run: "run' = run" by simp
  have safe: "safe_reference_ok (ai_ref actor)" using actor by (auto simp: as_user_def actor_make_Inr)
  note decide = decide [unfolded decision_stager_def run]
  from queued_approval [OF assms(5) safe decide assms(2,3)] obtain st0 d ev c where
    st0: "get_state (runtime_stager (ds_env ds) (run_ledger run) (run_scope run)) sc (sr_stage_id r) w = (Inr st0, w)"
    and adm: "decision_admitted sc st0 revision APPROVE pd td actor row_keys" and st: "st = decided_state st0 d ev"
    and rows: "dc_row_keys d = row_keys" and q: "queued w' = queued w @ [c]"
    and c: "approved_command sc (sr_stage_id r) revision (dc_ledger_id d) pd td key row_keys lane = Inr c" by blast
  from decide_reads_back [OF assms(5) decide] have "read_state (ds_env ds) run sc (sr_stage_id r) w' = Inr st"
    using get_state_read [of "ds_env ds" run sc "sr_stage_id r" w'] by (simp add: decision_stager_def)
  then obtain evs where evs: "list_stage_events (run_ledger run) sc (sr_stage_id r) w' = (Inr evs, w')" "stage_fold evs = Inr st"
    and sc: "st_scope st = sc" and wf: "stage_wf st" by (rule read_state_Inr)
  have d: "st_decision st = Some d" by (simp add: st decided_state_def)
  with wf have "decision_pinned st d" by (simp add: stage_wf_def decision_wf_def)
  with assms(3) have approve: "dc_decision d = APPROVE" by (cases "dc_decision d") (auto simp: decision_pinned_def)
  have pins: "revision = rv_revision (current_revision st)" "pd = rv_digest (current_revision st)" "td = st_target_digest st"
    using adm by (simp_all add: st decided_state_def decision_admitted_def current_revision_def)
  from owner have "read_state (ds_env ds) run sc (sr_stage_id r) w = Inr cur" unfolding run by (elim conjE)
  with st0 get_state_read [of "ds_env ds" run sc "sr_stage_id r" w] have "st0 = cur" by (simp add: decision_stager_def)
  then have cur: "st_executor st = st_executor cur" by (simp add: st decided_state_def)
  from q have "cw_commands w' \<noteq> []" and "last (map domain_command (cw_commands w')) = c" by (auto simp: queued_def)
  then have rc: "domain_command (last (cw_commands w')) = c" "last (cw_commands w') \<in> set (cw_commands w')"
    by (simp_all add: last_map)
  have "load_authorised_stage (runtime_coordinator (ds_env ds) port fs content run) sc
      (pure_commit (last (cw_commands w'))) w' = (Inr (Some st), w')"
    and "rc_governed (last (cw_commands w')) = lane"
    using approved_command_loads [OF c [unfolded rows [symmetric]] rc(1) evs wf sc d approve] pins rows by blast+
  then show ?thesis
    using owner admitted_lane [OF lane] q rc run cur by (intro exI [of _ "last (cw_commands w')"]) simp
qed

theorem queued_approval_is_accepted_witness:
  "\<exists>rc st t. approve_pending = (Inr st, t) \<and> queued t = [domain_command rc]
     \<and> load_authorised_stage (runtime_coordinator staging_env (file_claim_port id) [] approved_content sample_run)
          sample_scope (pure_commit rc) t = (Inr (Some st), t)"
proof -
  obtain st t where run: "approve_pending = (Inr st, t)" and approved: "st_status st = APPROVED" and one: "length (queued t) = 1"
    using pending_approval by (auto simp: queued_def split: prod.splits sum.splits)
  from one have "queued t \<noteq> queued (pending_world [sample_staged])" by (auto simp: pending_frame)
  from queued_approval_is_accepted [OF run [unfolded approve_pending_def] this approved _ pending_ready,
      where port = "file_claim_port id" and fs = "[]" and content = approved_content] run show ?thesis
    by (auto simp: pending_frame sample_caller_def user_principal_def sample_run_def sample_scope_def sample_service_def)
qed

end
