(* ===== verification/CommandQueue.thy ===== *)
theory CommandQueue
  imports EffectOutbox
begin

text \<open>
  The durable command queue the workers poll, as \<open>runtime_adapters/in_memory/runtime_api_store.py\<close>
  keeps it in its dictionaries, with the claim record of \<open>persistence/records/outbox.py\<close> and the
  normalizers of \<open>agent_runtime/validation.py\<close>. A time is a number of clock units and the time of
  a call is its argument; the telemetry of a claim (its own id, when it was made) is left out.
\<close>

section \<open>Normalized values\<close>

definition is_id_char :: "char \<Rightarrow> bool" where
  "is_id_char c \<longleftrightarrow> is_alnum c \<or> c = CHR ''.'' \<or> c = CHR ''_'' \<or> c = CHR '':'' \<or> c = CHR ''-''"

definition id_pattern :: "string \<Rightarrow> bool" where
  "id_pattern s = (case s of [] \<Rightarrow> False | c # r \<Rightarrow> is_alnum c \<and> list_all is_id_char r)"

definition slug_pattern :: "string \<Rightarrow> bool" where
  "slug_pattern s = (case s of [] \<Rightarrow> False
     | c # r \<Rightarrow> (is_lower c \<or> is_digit c)
         \<and> list_all (\<lambda>d. is_lower d \<or> is_digit d \<or> d = CHR ''_'' \<or> d = CHR ''-'') r)"

definition normalize_nonempty_string :: "string \<Rightarrow> string result" where
  "normalize_nonempty_string v = (if strip v = [] then Inl ValueError else Inr (strip v))"

definition normalize_id :: "string \<Rightarrow> string result" where
  "normalize_id v = rbind (normalize_nonempty_string v) (\<lambda>s. if id_pattern s then Inr s else Inl ValueError)"

definition normalize_optional_id :: "string option \<Rightarrow> string option result" where
  "normalize_optional_id v = (case v of None \<Rightarrow> Inr None | Some s \<Rightarrow> rbind (normalize_id s) (\<lambda>n. Inr (Some n)))"

definition normalize_slug :: "string \<Rightarrow> string result" where
  "normalize_slug v = rbind (normalize_nonempty_string v)
     (\<lambda>s. if slug_pattern (lower s) then Inr (lower s) else Inl ValueError)"

section \<open>The queue\<close>

text \<open>
  A payload is the command's own dump under \<open>qp_body\<close> with the five fields registration writes
  over it.
\<close>

record 'p queue_payload =
  qp_command_id :: string
  qp_command_type :: string
  qp_org_id :: string
  qp_run_id :: string
  qp_approval_id :: "string option"
  qp_body :: 'p

record 'p worker_claim =
  wc_command_id :: string
  wc_command_type :: string
  wc_org_id :: string
  wc_run_id :: "string option"
  wc_approval_id :: "string option"
  wc_locked_by :: string
  wc_lock_expires :: int
  wc_attempts :: nat
  wc_payload :: "'p queue_payload"

record 'p command_queue =
  q_order :: "string list"
  q_payloads :: "string \<Rightarrow> 'p queue_payload option"
  q_statuses :: "string \<Rightarrow> outbox_status option"
  q_attempts :: "string \<Rightarrow> nat option"
  q_available :: "string \<Rightarrow> int option"
  q_claims :: "string \<Rightarrow> 'p worker_claim option"

definition empty_queue :: "'p command_queue" where
  "empty_queue = \<lparr>q_order = [], q_payloads = \<lambda>_. None, q_statuses = \<lambda>_. None, q_attempts = \<lambda>_. None,
     q_available = \<lambda>_. None, q_claims = \<lambda>_. None\<rparr>"

text \<open>Registering an id again appends it again and resets everything but its claim.\<close>

definition register :: "int \<Rightarrow> 'p queue_payload \<Rightarrow> 'p command_queue \<Rightarrow> 'p command_queue" where
  "register now p q = (let i = qp_command_id p in
     q\<lparr>q_order := q_order q @ [i], q_payloads := (q_payloads q)(i := Some p),
       q_statuses := (q_statuses q)(i := Some OUTBOX_PENDING), q_attempts := (q_attempts q)(i := Some 0),
       q_available := (q_available q)(i := Some now)\<rparr>)"

definition enqueue_once :: "int \<Rightarrow> 'p queue_payload \<Rightarrow> ('p command_queue, bool) eff" where
  "enqueue_once now p = (\<lambda>q. case q_payloads q (qp_command_id p) of
       Some existing \<Rightarrow> (if existing \<noteq> p then Inl ValueError else Inr False, q)
     | None \<Rightarrow> (Inr True, register now p q))"

definition worker_claim_make :: "'p worker_claim \<Rightarrow> 'p worker_claim result" where
  "worker_claim_make c = (case
     rbind (normalize_id (wc_command_id c)) (\<lambda>i.
     rbind (normalize_slug (wc_command_type c)) (\<lambda>ty.
     rbind (normalize_id (wc_org_id c)) (\<lambda>org.
     rbind (normalize_optional_id (wc_run_id c)) (\<lambda>run_id.
     rbind (normalize_optional_id (wc_approval_id c)) (\<lambda>ap.
     rbind (normalize_id (wc_locked_by c)) (\<lambda>owner.
     rbind (require (0 < wc_attempts c) ValueError) (\<lambda>_.
     Inr (c\<lparr>wc_command_id := i, wc_command_type := ty, wc_org_id := org, wc_run_id := run_id,
            wc_approval_id := ap, wc_locked_by := owner\<rparr>)))))))) of
       Inl _ \<Rightarrow> Inl ValidationError
     | Inr n \<Rightarrow> Inr n)"

text \<open>The attempt is counted before the claim record is validated.\<close>

definition claim_command :: "string \<Rightarrow> string \<Rightarrow> int \<Rightarrow> ('p command_queue, 'p worker_claim) eff" where
  "claim_command i worker expires = (\<lambda>q. case q_payloads q i of
       None \<Rightarrow> (Inl KeyError, q)
     | Some p \<Rightarrow> (case q_attempts q i of
         None \<Rightarrow> (Inl KeyError, q)
       | Some n \<Rightarrow>
           (worker_claim_make
              \<lparr>wc_command_id = i, wc_command_type = qp_command_type p, wc_org_id = qp_org_id p,
               wc_run_id = Some (qp_run_id p), wc_approval_id = qp_approval_id p, wc_locked_by = worker,
               wc_lock_expires = expires, wc_attempts = Suc n, wc_payload = p\<rparr>,
            q\<lparr>q_attempts := (q_attempts q)(i := Some (Suc n))\<rparr>)))"

definition pollable :: "outbox_status \<Rightarrow> bool" where
  "pollable s \<longleftrightarrow> s \<in> {OUTBOX_PENDING, OUTBOX_RETRY, OUTBOX_CLAIMED}"

definition unlocked :: "int \<Rightarrow> 'p worker_claim option \<Rightarrow> bool" where
  "unlocked now c = (case c of None \<Rightarrow> True | Some k \<Rightarrow> wc_lock_expires k \<le> now)"

definition take_command :: "string \<Rightarrow> string \<Rightarrow> int \<Rightarrow> ('p command_queue, 'p worker_claim option) eff" where
  "take_command i worker expires =
     bnd (claim_command i worker expires) (\<lambda>c. \<lambda>q.
       (Inr (Some c), q\<lparr>q_claims := (q_claims q)(i := Some c), q_statuses := (q_statuses q)(i := Some OUTBOX_CLAIMED)\<rparr>))"

text \<open>The scan of the order changes nothing until it has found a command.\<close>

fun next_claimable :: "string list \<Rightarrow> int \<Rightarrow> 'p command_queue \<Rightarrow> string option result" where
  "next_claimable [] now q = Inr None"
| "next_claimable (i # is) now q = (case q_statuses q i of
       None \<Rightarrow> Inl KeyError
     | Some s \<Rightarrow>
         if \<not> pollable s then next_claimable is now q
         else (case q_available q i of
             None \<Rightarrow> Inl KeyError
           | Some t \<Rightarrow>
               if now < t then next_claimable is now q
               else if \<not> unlocked now (q_claims q i) then next_claimable is now q
               else Inr (Some i)))"

definition claim_next :: "int \<Rightarrow> string \<Rightarrow> int \<Rightarrow> ('p command_queue, 'p worker_claim option) eff" where
  "claim_next now worker expires =
     bnd (\<lambda>q. (next_claimable (q_order q) now q, q)) (\<lambda>found. case found of
       None \<Rightarrow> ret None
     | Some i \<Rightarrow> take_command i worker expires)"

text \<open>What a worker reports: the id of the command and, for a retry, when it may be claimed again.\<close>

record worker_result =
  wr_command_id :: string
  wr_retry_at :: "int option"

definition worker_result_make :: "string \<Rightarrow> int option \<Rightarrow> worker_result result" where
  "worker_result_make i t = (case normalize_id i of
       Inl _ \<Rightarrow> Inl ValidationError
     | Inr n \<Rightarrow> Inr \<lparr>wr_command_id = n, wr_retry_at = t\<rparr>)"

definition settle_command :: "string \<Rightarrow> outbox_status \<Rightarrow> 'p command_queue \<Rightarrow> 'p command_queue" where
  "settle_command i s q = q\<lparr>q_statuses := (q_statuses q)(i := Some s), q_claims := (q_claims q)(i := None)\<rparr>"

definition mark_complete :: "worker_result \<Rightarrow> 'p command_queue \<Rightarrow> 'p command_queue" where
  "mark_complete r q = settle_command (wr_command_id r) OUTBOX_COMPLETED q"

definition mark_dead_letter :: "worker_result \<Rightarrow> 'p command_queue \<Rightarrow> 'p command_queue" where
  "mark_dead_letter r q = settle_command (wr_command_id r) OUTBOX_DEAD_LETTER q"

definition mark_retry :: "int \<Rightarrow> worker_result \<Rightarrow> 'p command_queue \<Rightarrow> 'p command_queue" where
  "mark_retry now r q =
     (settle_command (wr_command_id r) OUTBOX_RETRY q)
       \<lparr>q_available := (q_available q)(wr_command_id r := Some (case wr_retry_at r of None \<Rightarrow> now | Some t \<Rightarrow> t))\<rparr>"

end
