(* ===== verification/FileCommandQueue.thy ===== *)
theory FileCommandQueue
  imports CommandQueue
begin

text \<open>
  The command queue of \<open>runtime_adapters/file/runtime_api_store.py\<close>: the same dictionaries, with
  every change appended to an operation log that is folded back into them when the store opens, and
  compacted there when it has outgrown what it describes. A log is the list of its decoded lines;
  a torn last line is no line, and a write that fails is not modelled.
\<close>

section \<open>The operation log\<close>

datatype 'p queue_line =
    LEnqueue string "'p queue_payload" int
  | LStatus string outbox_status int
  | LAttempts string nat

record 'p file_queue =
  fq_mem :: "'p command_queue"
  fq_log :: "'p queue_line list"
  fq_lines :: nat

definition append_queue_op :: "'p queue_line \<Rightarrow> 'p file_queue \<Rightarrow> 'p file_queue" where
  "append_queue_op l f = f\<lparr>fq_log := fq_log f @ [l], fq_lines := Suc (fq_lines f)\<rparr>"

definition append_queue_status :: "string \<Rightarrow> outbox_status \<Rightarrow> int \<Rightarrow> 'p file_queue \<Rightarrow> 'p file_queue" where
  "append_queue_status i s t = append_queue_op (LStatus i s t)"

section \<open>Operations\<close>

definition file_register :: "int \<Rightarrow> 'p queue_payload \<Rightarrow> 'p file_queue \<Rightarrow> 'p file_queue" where
  "file_register now p f =
     append_queue_op (LEnqueue (qp_command_id p) p now) (f\<lparr>fq_mem := register now p (fq_mem f)\<rparr>)"

definition file_enqueue_once :: "int \<Rightarrow> 'p queue_payload \<Rightarrow> ('p file_queue, bool) eff" where
  "file_enqueue_once now p = (\<lambda>f. case q_payloads (fq_mem f) (qp_command_id p) of
       Some existing \<Rightarrow> (if existing \<noteq> p then Inl ValueError else Inr False, f)
     | None \<Rightarrow> (Inr True, file_register now p f))"

definition on_mem :: "('p command_queue, 'a) eff \<Rightarrow> ('p file_queue, 'a) eff" where
  "on_mem m = (\<lambda>f. case m (fq_mem f) of (r, q) \<Rightarrow> (r, f\<lparr>fq_mem := q\<rparr>))"

definition file_take_command :: "string \<Rightarrow> string \<Rightarrow> int \<Rightarrow> ('p file_queue, 'p worker_claim option) eff" where
  "file_take_command i worker expires =
     bnd (on_mem (take_command i worker expires)) (\<lambda>c. \<lambda>f.
       case q_attempts (fq_mem f) i of
         None \<Rightarrow> (Inl KeyError, f)
       | Some n \<Rightarrow> (Inr c, append_queue_op (LAttempts i n) f))"

definition file_claim_next :: "int \<Rightarrow> string \<Rightarrow> int \<Rightarrow> ('p file_queue, 'p worker_claim option) eff" where
  "file_claim_next now worker expires =
     bnd (\<lambda>f. (next_claimable (q_order (fq_mem f)) now (fq_mem f), f)) (\<lambda>found. case found of
       None \<Rightarrow> ret None
     | Some i \<Rightarrow> file_take_command i worker expires)"

definition file_mark_complete :: "int \<Rightarrow> worker_result \<Rightarrow> 'p file_queue \<Rightarrow> 'p file_queue" where
  "file_mark_complete now r f =
     append_queue_status (wr_command_id r) OUTBOX_COMPLETED now (f\<lparr>fq_mem := mark_complete r (fq_mem f)\<rparr>)"

definition file_mark_dead_letter :: "int \<Rightarrow> worker_result \<Rightarrow> 'p file_queue \<Rightarrow> 'p file_queue" where
  "file_mark_dead_letter now r f =
     append_queue_status (wr_command_id r) OUTBOX_DEAD_LETTER now (f\<lparr>fq_mem := mark_dead_letter r (fq_mem f)\<rparr>)"

definition file_mark_retry :: "int \<Rightarrow> worker_result \<Rightarrow> 'p file_queue \<Rightarrow> 'p file_queue" where
  "file_mark_retry now r f =
     append_queue_status (wr_command_id r) OUTBOX_RETRY (case wr_retry_at r of None \<Rightarrow> now | Some t \<Rightarrow> t)
       (f\<lparr>fq_mem := mark_retry now r (fq_mem f)\<rparr>)"

section \<open>Opening the store\<close>

fun replay_line :: "'p command_queue \<Rightarrow> 'p queue_line \<Rightarrow> 'p command_queue" where
  "replay_line q (LEnqueue i p t) =
     q\<lparr>q_order := (if q_payloads q i = None then q_order q @ [i] else q_order q),
       q_payloads := (q_payloads q)(i := Some p), q_statuses := (q_statuses q)(i := Some OUTBOX_PENDING),
       q_attempts := (q_attempts q)(i := Some 0), q_available := (q_available q)(i := Some t)\<rparr>"
| "replay_line q (LStatus i s t) =
     q\<lparr>q_statuses := (q_statuses q)(i := Some s), q_available := (q_available q)(i := Some t)\<rparr>"
| "replay_line q (LAttempts i n) = q\<lparr>q_attempts := (q_attempts q)(i := Some n)\<rparr>"

definition load_queue :: "'p queue_line list \<Rightarrow> 'p command_queue" where
  "load_queue ls = (foldl replay_line empty_queue ls)\<lparr>q_claims := \<lambda>_. None\<rparr>"

definition queue_terminal :: "outbox_status option \<Rightarrow> bool" where
  "queue_terminal s \<longleftrightarrow> s \<in> {Some OUTBOX_COMPLETED, Some OUTBOX_DEAD_LETTER, Some OUTBOX_CANCELLED}"

definition live_commands :: "'p command_queue \<Rightarrow> string list" where
  "live_commands q = filter (\<lambda>i. \<not> queue_terminal (q_statuses q i)) (q_order q)"

definition should_compact :: "nat \<Rightarrow> nat \<Rightarrow> bool" where
  "should_compact lines live \<longleftrightarrow> 256 \<le> lines \<and> 2 * max live 1 \<le> lines"

definition command_lines :: "'p command_queue \<Rightarrow> string \<Rightarrow> 'p queue_line list result" where
  "command_lines q i = (case (q_available q i, q_payloads q i, q_statuses q i, q_attempts q i) of
       (Some t, Some p, Some s, Some n) \<Rightarrow>
         Inr (LEnqueue i p t # (if s \<noteq> OUTBOX_PENDING then [LStatus i s t] else [])
              @ (if n \<noteq> 0 then [LAttempts i n] else []))
     | _ \<Rightarrow> Inl KeyError)"

definition rewrite_lines :: "'p command_queue \<Rightarrow> string list \<Rightarrow> 'p queue_line list result" where
  "rewrite_lines q is = rbind (rmap (command_lines q) is) (\<lambda>ls. Inr (concat ls))"

definition only_commands :: "string list \<Rightarrow> 'p command_queue \<Rightarrow> 'p command_queue" where
  "only_commands is q =
     q\<lparr>q_order := is, q_payloads := q_payloads q |` set is, q_statuses := q_statuses q |` set is,
       q_attempts := q_attempts q |` set is, q_available := q_available q |` set is\<rparr>"

text \<open>Compaction is best-effort: a failed rewrite leaves the loaded queue and its log.\<close>

definition compact_queue :: "bool \<Rightarrow> 'p file_queue \<Rightarrow> 'p file_queue" where
  "compact_queue enabled f = (let q = fq_mem f; live = live_commands q in
     if \<not> enabled \<or> \<not> should_compact (fq_lines f) (length live) then f
     else (case rewrite_lines q live of
         Inl _ \<Rightarrow> f
       | Inr ls \<Rightarrow> \<lparr>fq_mem = only_commands live q, fq_log = ls, fq_lines = length ls\<rparr>))"

definition open_queue :: "bool \<Rightarrow> 'p queue_line list \<Rightarrow> 'p file_queue" where
  "open_queue enabled ls = compact_queue enabled \<lparr>fq_mem = load_queue ls, fq_log = ls, fq_lines = length ls\<rparr>"

end
