(* ===== verification/CommandQueueLaws.thy ===== *)
theory CommandQueueLaws
  imports CommandQueue
begin

text \<open>
  What polling the command queue does, the invariant its operations keep, and what a worker's lock
  is worth.
\<close>

section \<open>Polling\<close>

definition claimable_payload :: "string \<Rightarrow> 'p queue_payload \<Rightarrow> bool" where
  "claimable_payload i p \<longleftrightarrow> ok (normalize_id i) \<and> ok (normalize_slug (qp_command_type p))
     \<and> ok (normalize_id (qp_org_id p)) \<and> ok (normalize_id (qp_run_id p)) \<and> ok (normalize_optional_id (qp_approval_id p))"

lemma next_claimable_Some:
  "next_claimable is now q = Inr (Some i) \<Longrightarrow> i \<in> set is \<and> (\<exists>s. q_statuses q i = Some s \<and> pollable s)
     \<and> (\<exists>t. q_available q i = Some t \<and> t \<le> now) \<and> unlocked now (q_claims q i)"
  by (induction "is") (auto split: option.splits if_splits)

lemma worker_claim_make_ok:
  "ok (normalize_id (wc_locked_by c)) \<Longrightarrow> 0 < wc_attempts c \<Longrightarrow> ok (worker_claim_make c) \<longleftrightarrow>
     ok (normalize_id (wc_command_id c)) \<and> ok (normalize_slug (wc_command_type c)) \<and> ok (normalize_id (wc_org_id c))
     \<and> ok (normalize_optional_id (wc_run_id c)) \<and> ok (normalize_optional_id (wc_approval_id c))"
  by (cases "normalize_id (wc_command_id c)"; cases "normalize_slug (wc_command_type c)"; cases "normalize_id (wc_org_id c)";
      cases "normalize_optional_id (wc_run_id c)"; cases "normalize_optional_id (wc_approval_id c)";
      cases "normalize_id (wc_locked_by c)"; simp add: worker_claim_make_def)

lemma ok_optional [simp]: "ok (normalize_optional_id (Some s)) = ok (normalize_id s)"
  by (cases "normalize_id s") (simp_all add: normalize_optional_id_def)

text \<open>Taking a command changes nothing when its claim record does not validate, but for the count.\<close>

lemma take_cases:
  assumes "take_command i worker expires q = (x, q')" and "ok (normalize_id worker)"
  obtains (absent) "q' = q" and "x = Inl KeyError" and "q_payloads q i = None \<or> q_attempts q i = None"
  | (refused) p n where "q_payloads q i = Some p" and "q_attempts q i = Some n" and "\<not> claimable_payload i p"
      and "q' = q\<lparr>q_attempts := (q_attempts q)(i := Some (Suc n))\<rparr>" and "x = Inl ValidationError"
  | (taken) p n c where "q_payloads q i = Some p" and "q_attempts q i = Some n" and "claimable_payload i p"
      and "x = Inr (Some c)" and "wc_attempts c = Suc n" and "wc_lock_expires c = expires" and "wc_payload c = p"
      and "normalize_id i = Inr (wc_command_id c)"
      and "q' = q\<lparr>q_attempts := (q_attempts q)(i := Some (Suc n)), q_claims := (q_claims q)(i := Some c),
                 q_statuses := (q_statuses q)(i := Some OUTBOX_CLAIMED)\<rparr>"
proof (cases "\<exists>p n. q_payloads q i = Some p \<and> q_attempts q i = Some n")
  case True
  then obtain p n where fields: "q_payloads q i = Some p" "q_attempts q i = Some n" by blast
  define c0 where "c0 = \<lparr>wc_command_id = i, wc_command_type = qp_command_type p, wc_org_id = qp_org_id p,
    wc_run_id = Some (qp_run_id p), wc_approval_id = qp_approval_id p, wc_locked_by = worker,
    wc_lock_expires = expires, wc_attempts = Suc n, wc_payload = p\<rparr>"
  have valid: "ok (worker_claim_make c0) = claimable_payload i p"
    using assms(2) worker_claim_make_ok [of c0] by (simp add: c0_def claimable_payload_def)
  show thesis
  proof (cases "worker_claim_make c0")
    case (Inl e)
    then have "e = ValidationError" by (auto simp: worker_claim_make_def split: sum.splits)
    with Inl valid assms(1) fields show thesis
      by (intro refused [of p n]) (auto simp: take_command_def claim_command_def bnd_def c0_def)
  next
    case (Inr c)
    then have kept: "wc_attempts c = Suc n" "wc_lock_expires c = expires" "wc_payload c = p" "normalize_id i = Inr (wc_command_id c)"
      by (auto simp: worker_claim_make_def c0_def rbind_Inr_iff split: sum.splits)
    from Inr valid assms(1) fields show thesis
      by (intro taken [of p n c] kept) (auto simp: take_command_def claim_command_def bnd_def c0_def)
  qed
next
  case False
  then have none: "q_payloads q i = None \<or> q_attempts q i = None" by (cases "q_payloads q i") auto
  with assms(1) have "q' = q \<and> x = Inl KeyError"
    by (cases "q_payloads q i") (auto simp: take_command_def claim_command_def bnd_def)
  with none show thesis by (auto intro: absent)
qed

section \<open>The invariant\<close>

text \<open>
  Registered ids are ids already, as every producer's are (a prefix and hexadecimal digits), and
  every registered command has all its fields.
\<close>

definition queue_ok :: "'p command_queue \<Rightarrow> bool" where
  "queue_ok q \<longleftrightarrow> (\<forall>i\<in>set (q_order q). normalize_id i = Inr i \<and> q_payloads q i \<noteq> None \<and> q_statuses q i \<noteq> None
     \<and> q_attempts q i \<noteq> None \<and> q_available q i \<noteq> None)
   \<and> (\<forall>i. q_payloads q i \<noteq> None \<longrightarrow> i \<in> set (q_order q))"

datatype 'p queue_op =
    Enqueue int "'p queue_payload"
  | EnqueueOnce int "'p queue_payload"
  | Poll int string int
  | Complete worker_result
  | DeadLetter worker_result
  | Retry int worker_result

fun run_queue_op :: "'p command_queue \<Rightarrow> 'p queue_op \<Rightarrow> 'p command_queue" where
  "run_queue_op q (Enqueue now p) = register now p q"
| "run_queue_op q (EnqueueOnce now p) = snd (enqueue_once now p q)"
| "run_queue_op q (Poll now worker expires) = snd (claim_next now worker expires q)"
| "run_queue_op q (Complete r) = mark_complete r q"
| "run_queue_op q (DeadLetter r) = mark_dead_letter r q"
| "run_queue_op q (Retry now r) = mark_retry now r q"

fun queue_op_ok :: "'p queue_op \<Rightarrow> bool" where
  "queue_op_ok (Enqueue now p) \<longleftrightarrow> normalize_id (qp_command_id p) = Inr (qp_command_id p)"
| "queue_op_ok (EnqueueOnce now p) \<longleftrightarrow> normalize_id (qp_command_id p) = Inr (qp_command_id p)"
| "queue_op_ok (Poll now worker expires) \<longleftrightarrow> ok (normalize_id worker)"
| "queue_op_ok _ \<longleftrightarrow> True"

definition run_queue :: "'p queue_op list \<Rightarrow> 'p command_queue \<Rightarrow> 'p command_queue" where
  "run_queue ops q = foldl run_queue_op q ops"

lemma run_queue_simps [simp]: "run_queue [] q = q" "run_queue (x # ops) q = run_queue ops (run_queue_op q x)"
  by (simp_all add: run_queue_def)

text \<open>A poll leaves the queue alone, or takes one command that was there to take.\<close>

lemma claim_next_cases:
  assumes "claim_next now worker expires q = (x, q')" and "ok (normalize_id worker)"
  obtains (idle) "q' = q" and "\<nexists>c. x = Inr (Some c)"
  | (refused) i p n where "next_claimable (q_order q) now q = Inr (Some i)" and "q_payloads q i = Some p"
      and "q_attempts q i = Some n" and "\<not> claimable_payload i p"
      and "q' = q\<lparr>q_attempts := (q_attempts q)(i := Some (Suc n))\<rparr>" and "x = Inl ValidationError"
  | (taken) i p n c where "next_claimable (q_order q) now q = Inr (Some i)" and "q_payloads q i = Some p"
      and "q_attempts q i = Some n" and "claimable_payload i p" and "x = Inr (Some c)" and "wc_attempts c = Suc n"
      and "wc_lock_expires c = expires" and "wc_payload c = p" and "normalize_id i = Inr (wc_command_id c)"
      and "q' = q\<lparr>q_attempts := (q_attempts q)(i := Some (Suc n)), q_claims := (q_claims q)(i := Some c),
                 q_statuses := (q_statuses q)(i := Some OUTBOX_CLAIMED)\<rparr>"
proof (cases "\<exists>i. next_claimable (q_order q) now q = Inr (Some i)")
  case True
  then obtain i where i: "next_claimable (q_order q) now q = Inr (Some i)" by blast
  with assms(1) have "take_command i worker expires q = (x, q')" by (simp add: claim_next_def bnd_def)
  note rules = idle refused taken
  from \<open>take_command i worker expires q = (x, q')\<close> assms(2) show thesis
  proof (cases rule: take_cases)
    case absent
    show thesis by (rule rules(1)) (simp_all add: absent)
  next
    case (refused p n)
    show thesis by (rule rules(2) [OF i refused])
  next
    case (taken p n c)
    show thesis by (rule rules(3) [OF i taken])
  qed
next
  case False
  with assms(1) show thesis
    by (intro idle) (auto simp: claim_next_def bnd_def ret_def split: sum.splits option.splits)
qed

lemma queue_op_keeps: "queue_ok q \<Longrightarrow> queue_op_ok x \<Longrightarrow> queue_ok (run_queue_op q x)"
proof (cases x)
  case (Poll now worker expires)
  assume "queue_ok q" "queue_op_ok x"
  obtain y q' where run: "claim_next now worker expires q = (y, q')" by fastforce
  with \<open>queue_op_ok x\<close> Poll have "queue_ok q'"
    using \<open>queue_ok q\<close> by (cases rule: claim_next_cases [OF run]) (auto simp: queue_ok_def)
  with Poll run show ?thesis by simp
qed (auto simp: queue_ok_def register_def enqueue_once_def mark_complete_def mark_dead_letter_def mark_retry_def settle_command_def
      Let_def split: option.splits)

lemma run_queue_keeps: "queue_ok q \<Longrightarrow> list_all queue_op_ok ops \<Longrightarrow> queue_ok (run_queue ops q)"
  by (induction ops arbitrary: q) (auto simp: queue_op_keeps)

end
