(* ===== verification/CommandQueueProperties.thy ===== *)
theory CommandQueueProperties
  imports CommandQueueLaws
begin

text \<open>
  The properties of the in-memory command queue: which command a poll takes, that a lock excludes
  the other workers while it lasts, and that a report is not tied to the lock it was made under.
\<close>

section \<open>The command a poll takes\<close>

definition can_claim :: "int \<Rightarrow> 'p command_queue \<Rightarrow> string \<Rightarrow> bool" where
  "can_claim now q i \<longleftrightarrow> (case q_statuses q i of None \<Rightarrow> False | Some s \<Rightarrow> pollable s)
     \<and> (case q_available q i of None \<Rightarrow> False | Some t \<Rightarrow> t \<le> now) \<and> unlocked now (q_claims q i)"

lemma next_claimable_find:
  "\<forall>i\<in>set is. q_statuses q i \<noteq> None \<and> q_available q i \<noteq> None \<Longrightarrow>
   next_claimable is now q = Inr (find (can_claim now q) is)"
  by (induction "is") (auto simp: can_claim_def)

lemma next_claimable_ok: "queue_ok q \<Longrightarrow> next_claimable (q_order q) now q = Inr (find (can_claim now q) (q_order q))"
  by (rule next_claimable_find) (simp add: queue_ok_def)

lemma find_in: "find P xs = Some x \<Longrightarrow> x \<in> set xs \<and> P x"
  by (induction xs) (auto split: if_splits)

definition sample_entry :: "string \<Rightarrow> nat queue_payload" where
  "sample_entry i = \<lparr>qp_command_id = i, qp_command_type = ''effect_reconcile_requested'', qp_org_id = ''org'',
     qp_run_id = ''run'', qp_approval_id = None, qp_body = 0\<rparr>"

definition sample_ops :: "nat queue_op list" where
  "sample_ops = [Enqueue 1 (sample_entry ''a''), Enqueue 2 (sample_entry ''b''), EnqueueOnce 3 (sample_entry ''a'')]"

lemma empty_ok: "queue_ok empty_queue"
  by (simp add: queue_ok_def empty_queue_def)

lemma sample_ok: "list_all queue_op_ok sample_ops" "queue_ok (run_queue sample_ops empty_queue)"
proof -
  show "list_all queue_op_ok sample_ops" by code_simp
  then show "queue_ok (run_queue sample_ops empty_queue)" by (rule run_queue_keeps [OF empty_ok])
qed

text \<open>A poll takes the first command that is free. In a well-formed queue the scan is a search:
  when no command is pollable, due and unlocked, the poll returns nothing and changes nothing;
  otherwise the first such command in registration order, if its record validates, is handed out
  under the given lock with its attempts counted once more, and only that command's attempts, claim
  and status change.
\<close>

theorem poll_takes_first_free:
  assumes "queue_ok q" and "ok (normalize_id worker)"
  shows "case find (can_claim now q) (q_order q) of
       None \<Rightarrow> claim_next now worker expires q = (Inr None, q)
     | Some i \<Rightarrow> \<exists>p n. q_payloads q i = Some p \<and> q_attempts q i = Some n
         \<and> (if claimable_payload i p
            then \<exists>c. claim_next now worker expires q =
                (Inr (Some c), q\<lparr>q_attempts := (q_attempts q)(i := Some (Suc n)), q_claims := (q_claims q)(i := Some c),
                   q_statuses := (q_statuses q)(i := Some OUTBOX_CLAIMED)\<rparr>)
              \<and> wc_command_id c = i \<and> wc_attempts c = Suc n \<and> wc_lock_expires c = expires \<and> wc_payload c = p
            else claim_next now worker expires q
              = (Inl ValidationError, q\<lparr>q_attempts := (q_attempts q)(i := Some (Suc n))\<rparr>))"
proof (cases "find (can_claim now q) (q_order q)")
  case None
  then show ?thesis by (simp add: claim_next_def bnd_def ret_def next_claimable_ok [OF assms(1)])
next
  case (Some i)
  then have "i \<in> set (q_order q)" by (simp add: find_in)
  with assms(1) obtain p n where fields: "q_payloads q i = Some p" "q_attempts q i = Some n" "normalize_id i = Inr i"
    by (fastforce simp: queue_ok_def)
  have run: "claim_next now worker expires q = take_command i worker expires q"
    using Some by (simp add: claim_next_def bnd_def next_claimable_ok [OF assms(1)])
  obtain x q' where take: "take_command i worker expires q = (x, q')" by fastforce
  from take assms(2) show ?thesis
    by (cases rule: take_cases) (use fields Some run take in auto)
qed

theorem poll_takes_first_free_witness:
  "\<exists>c q'. claim_next 9 ''worker'' 69 (run_queue sample_ops empty_queue) = (Inr (Some c), q')
     \<and> wc_command_id c = ''a'' \<and> wc_attempts c = 1"
proof -
  have sel: "find (can_claim 9 (run_queue sample_ops empty_queue)) (q_order (run_queue sample_ops empty_queue)) = Some ''a''"
    and fields: "q_payloads (run_queue sample_ops empty_queue) ''a'' = Some (sample_entry ''a'')"
    "q_attempts (run_queue sample_ops empty_queue) ''a'' = Some 0" "claimable_payload ''a'' (sample_entry ''a'')"
    and w: "ok (normalize_id ''worker'')"
    by code_simp+
  from poll_takes_first_free [OF sample_ok(2) w, of 9 69] sel fields show ?thesis by auto
qed

section \<open>Locks\<close>

text \<open>The operations that leave the lock of a command alone before a time.\<close>

fun leaves_lock :: "string \<Rightarrow> int \<Rightarrow> 'p queue_op \<Rightarrow> bool" where
  "leaves_lock i e (Enqueue now p) \<longleftrightarrow> qp_command_id p \<noteq> i"
| "leaves_lock i e (EnqueueOnce now p) \<longleftrightarrow> True"
| "leaves_lock i e (Poll now worker expires) \<longleftrightarrow> now < e"
| "leaves_lock i e (Complete r) \<longleftrightarrow> wr_command_id r \<noteq> i"
| "leaves_lock i e (DeadLetter r) \<longleftrightarrow> wr_command_id r \<noteq> i"
| "leaves_lock i e (Retry now r) \<longleftrightarrow> wr_command_id r \<noteq> i"

lemma locked_not_taken:
  "next_claimable is now q = Inr (Some j) \<Longrightarrow> q_claims q i = Some k \<Longrightarrow> now < wc_lock_expires k \<Longrightarrow> j \<noteq> i"
  by (drule next_claimable_Some) (auto simp: unlocked_def)

lemma lock_kept:
  assumes "q_claims q i = Some k" and "wc_lock_expires k = e" and "q_payloads q i \<noteq> None"
    and "leaves_lock i e x" and "queue_op_ok x"
  shows "q_claims (run_queue_op q x) i = Some k \<and> q_payloads (run_queue_op q x) i \<noteq> None"
proof (cases x)
  case (Poll now worker expires)
  obtain y q' where run: "claim_next now worker expires q = (y, q')" by fastforce
  from Poll assms have "ok (normalize_id worker)" "now < wc_lock_expires k" by simp_all
  with run have "q_claims q' i = Some k \<and> q_payloads q' i \<noteq> None"
    using assms(1,3) by (cases rule: claim_next_cases) (auto dest: locked_not_taken [OF _ assms(1)])
  with Poll run show ?thesis by simp
qed (use assms in \<open>auto simp: register_def enqueue_once_def mark_complete_def mark_dead_letter_def mark_retry_def settle_command_def
      Let_def split: option.splits\<close>)

lemma locks_kept:
  "q_claims q i = Some k \<Longrightarrow> wc_lock_expires k = e \<Longrightarrow> q_payloads q i \<noteq> None \<Longrightarrow>
   list_all (leaves_lock i e) ops \<Longrightarrow> list_all queue_op_ok ops \<Longrightarrow> q_claims (run_queue ops q) i = Some k"
proof (induction ops arbitrary: q)
  case (Cons x ops)
  then show ?case using lock_kept [of q i k e x] by auto
qed simp

text \<open>C15: A lock is exclusive while it lasts. From the poll that hands a command to a worker until
  the lock expires, whatever the other workers poll and report of other commands and whatever is
  registered under other ids, no poll hands the command out again.
\<close>

theorem lock_is_exclusive:
  assumes "list_all queue_op_ok before" and "ok (normalize_id worker)"
    and "claim_next now worker e (run_queue before empty_queue) = (Inr (Some c), q)"
    and "list_all queue_op_ok after" and "list_all (leaves_lock (wc_command_id c) e) after"
    and "later < e" and "ok (normalize_id other)"
    and "claim_next later other e' (run_queue after q) = (Inr (Some d), q')"
  shows "wc_command_id d \<noteq> wc_command_id c"
proof -
  have q0: "queue_ok (run_queue before empty_queue)" by (rule run_queue_keeps [OF empty_ok assms(1)])
  from assms(3,2) obtain i where i: "q_claims q i = Some c" "wc_lock_expires c = e" "q_payloads q i \<noteq> None"
    "normalize_id i = Inr (wc_command_id c)" and first: "next_claimable (q_order (run_queue before empty_queue)) now
      (run_queue before empty_queue) = Inr (Some i)"
    by (cases rule: claim_next_cases) auto
  from next_claimable_Some [OF first] q0 have "normalize_id i = Inr i" by (auto simp: queue_ok_def)
  with i have key: "i = wc_command_id c" by simp
  have "q = run_queue_op (run_queue before empty_queue) (Poll now worker e)" using assms(3) by simp
  moreover have "queue_op_ok (Poll now worker e)" using assms(2) by simp
  ultimately have "queue_ok q" using queue_op_keeps [OF q0] by metis
  then have q1: "queue_ok (run_queue after q)" using assms(4) by (rule run_queue_keeps)
  have lock: "q_claims (run_queue after q) i = Some c"
    using locks_kept [OF i(1,2,3)] assms(4,5) key by simp
  from assms(8,7) obtain j where next_j: "next_claimable (q_order (run_queue after q)) later (run_queue after q) = Inr (Some j)"
    and "normalize_id j = Inr (wc_command_id d)"
    by (cases rule: claim_next_cases) auto
  with next_claimable_Some [OF next_j] q1 have "j = wc_command_id d" by (auto simp: queue_ok_def)
  with locked_not_taken [OF next_j lock] i(2) assms(6) key show ?thesis by simp
qed

definition claims_command :: "string \<Rightarrow> ('p worker_claim option) result \<Rightarrow> bool" where
  "claims_command i r = (case r of Inl _ \<Rightarrow> False | Inr None \<Rightarrow> False | Inr (Some c) \<Rightarrow> wc_command_id c = i)"

lemma claims_commandD: "claims_command i (fst m) \<Longrightarrow> \<exists>c. m = (Inr (Some c), snd m) \<and> wc_command_id c = i"
  by (cases m) (auto simp: claims_command_def split: sum.splits option.splits)

abbreviation first_poll :: "(nat worker_claim option) result \<times> nat command_queue" where
  "first_poll \<equiv> claim_next 9 ''worker'' 69 (run_queue sample_ops empty_queue)"

theorem lock_is_exclusive_witness:
  "\<exists>c d q q'. first_poll = (Inr (Some c), q)
     \<and> claim_next 60 ''other'' 120 (run_queue [Complete \<lparr>wr_command_id = ''z'', wr_retry_at = None\<rparr>] q) = (Inr (Some d), q')
     \<and> wc_command_id d \<noteq> wc_command_id c"
proof -
  let ?after = "[Complete \<lparr>wr_command_id = ''z'', wr_retry_at = None\<rparr>]"
  have polls: "claims_command ''a'' (fst first_poll)"
    "claims_command ''b'' (fst (claim_next 60 ''other'' 120 (run_queue ?after (snd first_poll))))"
    and ids: "ok (normalize_id ''worker'')" "ok (normalize_id ''other'')"
    by code_simp+
  obtain c q where one: "first_poll = (Inr (Some c), q)" "wc_command_id c = ''a''" and q: "q = snd first_poll"
    using claims_commandD [OF polls(1)] by blast
  obtain d q' where two: "claim_next 60 ''other'' 120 (run_queue ?after q) = (Inr (Some d), q')"
    using claims_commandD [OF polls(2)] unfolding q by blast
  have "list_all queue_op_ok ?after" "list_all (leaves_lock (wc_command_id c) 69) ?after" by (simp_all add: one(2))
  from lock_is_exclusive [OF sample_ok(1) ids(1) one(1) this _ ids(2) two] one(1) two show ?thesis by auto
qed

text \<open>C38: A report is not tied to the lock it was made under. When a second worker has taken a
  command whose lock ran out, a failure the first one reports late takes the second one's lock away
  while it works, and after the second one has completed the command, which no poll would take
  again, the late report makes it claimable once more.
\<close>

theorem late_failure_reopens:
  assumes "queue_ok q0" and "ok (normalize_id slow)" and "ok (normalize_id quick)"
    and "claim_next t1 slow e1 q0 = (Inr (Some a), q1)" and "claim_next t2 quick e2 q1 = (Inr (Some b), q2)"
    and "wc_command_id b = wc_command_id a"
  shows "e1 \<le> t2 \<and> (\<forall>t. \<not> can_claim t (mark_complete \<lparr>wr_command_id = wc_command_id a, wr_retry_at = None\<rparr> q2) (wc_command_id a))
     \<and> can_claim t4 (mark_retry t3 \<lparr>wr_command_id = wc_command_id a, wr_retry_at = Some t4\<rparr> q2) (wc_command_id a)
     \<and> can_claim t4 (mark_retry t3 \<lparr>wr_command_id = wc_command_id a, wr_retry_at = Some t4\<rparr>
          (mark_complete \<lparr>wr_command_id = wc_command_id a, wr_retry_at = None\<rparr> q2)) (wc_command_id a)"
proof -
  from assms(4,2) obtain i where i: "q_claims q1 i = Some a" "wc_lock_expires a = e1" "normalize_id i = Inr (wc_command_id a)"
    and next_i: "next_claimable (q_order q0) t1 q0 = Inr (Some i)"
    by (cases rule: claim_next_cases) auto
  have "queue_ok q1" using queue_op_keeps [of q0 "Poll t1 slow e1"] assms(1,2,4) by simp
  moreover from assms(5,3) obtain j where j: "normalize_id j = Inr (wc_command_id b)"
    and next_j: "next_claimable (q_order q1) t2 q1 = Inr (Some j)"
    by (cases rule: claim_next_cases) auto
  ultimately have "i = j"
    using next_claimable_Some [OF next_i] next_claimable_Some [OF next_j] assms(1,6) i(3) by (auto simp: queue_ok_def)
  with next_claimable_Some [OF next_j] i have "e1 \<le> t2" by (auto simp: unlocked_def)
  then show ?thesis
    by (simp add: can_claim_def mark_complete_def mark_retry_def settle_command_def pollable_def unlocked_def)
qed

theorem late_failure_reopens_witness:
  "\<exists>a b q1 q2. first_poll = (Inr (Some a), q1) \<and> claim_next 70 ''other'' 130 q1 = (Inr (Some b), q2)
     \<and> can_claim 80 (mark_retry 79 \<lparr>wr_command_id = ''a'', wr_retry_at = Some 80\<rparr>
          (mark_complete \<lparr>wr_command_id = ''a'', wr_retry_at = None\<rparr> q2)) ''a''"
proof -
  have polls: "claims_command ''a'' (fst first_poll)" "claims_command ''a'' (fst (claim_next 70 ''other'' 130 (snd first_poll)))"
    and ids: "ok (normalize_id ''worker'')" "ok (normalize_id ''other'')"
    by code_simp+
  obtain a q1 where one: "first_poll = (Inr (Some a), q1)" "wc_command_id a = ''a''" and q1: "q1 = snd first_poll"
    using claims_commandD [OF polls(1)] by blast
  obtain b q2 where two: "claim_next 70 ''other'' 130 q1 = (Inr (Some b), q2)" "wc_command_id b = ''a''"
    using claims_commandD [OF polls(2)] unfolding q1 by blast
  from late_failure_reopens [OF sample_ok(2) ids one(1) two(1), of 80 79] one two show ?thesis by auto
qed

end
