(* ===== verification/FileQueueProperties.thy ===== *)
theory FileQueueProperties
  imports FileCommandQueue CommandQueueProperties
begin

text \<open>
  What the operation log of the file store keeps: the queue a restart rebuilds from it is the queue
  that was running, with its claims released, and compacting the log loses nothing that is still to
  be done.
\<close>

section \<open>Loaded queues\<close>

definition loaded_ok :: "'p command_queue \<Rightarrow> bool" where
  "loaded_ok q \<longleftrightarrow> distinct (q_order q) \<and> (\<forall>i. i \<in> set (q_order q) \<longleftrightarrow> q_payloads q i \<noteq> None)
     \<and> (\<forall>i\<in>set (q_order q). q_statuses q i \<noteq> None \<and> q_attempts q i \<noteq> None \<and> q_available q i \<noteq> None)"

lemma loaded_fields:
  assumes "loaded_ok q" and "i \<in> set (q_order q)"
  obtains p s n t where "q_payloads q i = Some p" and "q_statuses q i = Some s"
    and "q_attempts q i = Some n" and "q_available q i = Some t"
proof -
  from assms have "q_payloads q i \<noteq> None" "q_statuses q i \<noteq> None" "q_attempts q i \<noteq> None" "q_available q i \<noteq> None"
    by (simp_all add: loaded_ok_def)
  with that show thesis by blast
qed

lemma replay_ok: "loaded_ok q \<Longrightarrow> loaded_ok (replay_line q l)"
  by (cases l) (auto simp: loaded_ok_def simp del: not_None_eq)

lemma load_queue_snoc: "load_queue (ls @ [l]) = (replay_line (load_queue ls) l)\<lparr>q_claims := \<lambda>_. None\<rparr>"
proof -
  have claims: "(replay_line (q\<lparr>q_claims := c\<rparr>) l)\<lparr>q_claims := d\<rparr> = (replay_line q l)\<lparr>q_claims := d\<rparr>" for q c d
    by (cases l) simp_all
  show ?thesis by (simp add: load_queue_def claims)
qed

lemma load_ok: "loaded_ok (load_queue ls)" "q_claims (load_queue ls) = (\<lambda>_. None)"
proof -
  show "loaded_ok (load_queue ls)"
  proof (induction ls rule: rev_induct)
    case Nil
    show ?case by (simp add: load_queue_def empty_queue_def loaded_ok_def)
  next
    case (snoc l ls)
    from replay_ok [OF this, of l] show ?case by (simp add: load_queue_snoc loaded_ok_def)
  qed
qed (simp add: load_queue_def)

section \<open>Compaction\<close>

definition lines_of :: "'p command_queue \<Rightarrow> string \<Rightarrow> 'p queue_line list" where
  "lines_of q i = (LEnqueue i (the (q_payloads q i)) (the (q_available q i))
     # (if q_statuses q i \<noteq> Some OUTBOX_PENDING then [LStatus i (the (q_statuses q i)) (the (q_available q i))] else [])
     @ (if q_attempts q i \<noteq> Some 0 then [LAttempts i (the (q_attempts q i))] else []))"

lemma rewrite_lines_Inr:
  assumes "loaded_ok q" and "set is \<subseteq> set (q_order q)"
  shows "rewrite_lines q is = Inr (concat (map (lines_of q) is))"
proof -
  have "command_lines q i = Inr (lines_of q i)" if i: "i \<in> set is" for i
  proof -
    from i assms(2) have "i \<in> set (q_order q)" by blast
    with assms(1) show ?thesis by (rule loaded_fields) (simp add: command_lines_def lines_of_def)
  qed
  then show ?thesis by (simp add: rewrite_lines_def rmap_total [where g = "lines_of q"])
qed

lemma replay_lines_of:
  assumes ok: "loaded_ok q" and i: "i \<in> set (q_order q)" "i \<notin> set is"
  shows "foldl replay_line (only_commands is q) (lines_of q i) = only_commands (is @ [i]) q"
proof -
  from ok i(1) obtain p s n t where fields: "q_payloads q i = Some p" "q_statuses q i = Some s"
    "q_attempts q i = Some n" "q_available q i = Some t"
    by (rule loaded_fields)
  have grow: "(m |` set is)(i \<mapsto> x) = m |` insert i (set is)" if "m i = Some x" for m :: "string \<Rightarrow> 'c option" and x
    using that by (auto simp: restrict_map_def fun_eq_iff)
  show ?thesis
    using i(2) by (auto simp: lines_of_def only_commands_def fields grow)
qed

lemma load_rewritten:
  assumes "loaded_ok q" "q_claims q = (\<lambda>_. None)" "distinct is" "set is \<subseteq> set (q_order q)"
  shows "load_queue (concat (map (lines_of q) is)) = only_commands is q"
proof -
  have "foldl replay_line empty_queue (concat (map (lines_of q) is)) = only_commands is q"
    using assms
  proof (induction "is" rule: rev_induct)
    case Nil
    then show ?case by (simp add: only_commands_def empty_queue_def restrict_map_def)
  next
    case (snoc i "is")
    then show ?case by (simp add: replay_lines_of)
  qed
  then show ?thesis using assms(2) by (simp add: load_queue_def only_commands_def)
qed

lemma live_subset: "set (live_commands q) \<subseteq> set (q_order q)" "distinct (q_order q) \<Longrightarrow> distinct (live_commands q)"
  by (auto simp: live_commands_def)

lemma open_queue_cases:
  obtains (kept) "open_queue enabled ls = \<lparr>fq_mem = load_queue ls, fq_log = ls, fq_lines = length ls\<rparr>"
  | (compacted) log where "log = concat (map (lines_of (load_queue ls)) (live_commands (load_queue ls)))" and "should_compact (length ls) (length (live_commands (load_queue ls)))"
      and "open_queue enabled ls
        = \<lparr>fq_mem = only_commands (live_commands (load_queue ls)) (load_queue ls), fq_log = log, fq_lines = length log\<rparr>"
      and "load_queue log = only_commands (live_commands (load_queue ls)) (load_queue ls)"
proof -
  let ?q = "load_queue ls" and ?live = "live_commands (load_queue ls)"
  have ok: "loaded_ok ?q" and none: "q_claims ?q = (\<lambda>_. None)" by (rule load_ok)+
  then have dist: "distinct ?live" by (simp add: live_subset loaded_ok_def)
  note rw = rewrite_lines_Inr [OF ok live_subset(1)]
  note ld = load_rewritten [OF ok none dist live_subset(1)]
  show thesis
  proof (cases "enabled \<and> should_compact (length ls) (length ?live)")
    case True
    with rw ld show thesis by (intro compacted [OF refl]) (auto simp: open_queue_def compact_queue_def Let_def)
  qed (rule kept, auto simp: open_queue_def compact_queue_def Let_def)
qed

section \<open>What a restart recovers\<close>

text \<open>
  The commands in the order they were first seen. A claim that was held is released, and its
  command is pending or due for a retry again. Only a command whose claim record never validates
  may have counted attempts the log has not.
\<close>

definition first_seen :: "'a list \<Rightarrow> 'a list" where
  "first_seen xs = rev (remdups (rev xs))"

lemma first_seen_simps [simp]:
  "first_seen (xs @ [x]) = (if x \<in> set xs then first_seen xs else first_seen xs @ [x])"
  "set (first_seen xs) = set xs" "distinct (first_seen xs)" "first_seen [] = []"
  by (simp_all add: first_seen_def)

lemma first_seen_distinct: "distinct xs \<Longrightarrow> first_seen xs = xs"
  by (simp add: first_seen_def distinct_remdups_id)

lemma first_seen_filter: "first_seen (filter P xs) = filter P (first_seen xs)"
  by (induction xs rule: rev_induct) auto

definition status_recovers :: "outbox_status option \<Rightarrow> outbox_status option \<Rightarrow> bool" where
  "status_recovers s t \<longleftrightarrow> t = s \<or> (s = Some OUTBOX_CLAIMED \<and> (t = Some OUTBOX_PENDING \<or> t = Some OUTBOX_RETRY))"

definition recovered :: "'p command_queue \<Rightarrow> 'p command_queue \<Rightarrow> bool" where
  "recovered q r \<longleftrightarrow> q_order r = first_seen (q_order q) \<and> q_payloads r = q_payloads q \<and> q_claims r = (\<lambda>_. None)
     \<and> (\<forall>i. i \<in> set (q_order q) \<longleftrightarrow> q_payloads q i \<noteq> None)
     \<and> (\<forall>i. status_recovers (q_statuses q i) (q_statuses r i))
     \<and> (\<forall>i. queue_terminal (q_statuses q i) \<or> q_available r i = q_available q i)
     \<and> (\<forall>i. q_attempts r i = q_attempts q i \<or> (\<exists>p. q_payloads q i = Some p \<and> \<not> claimable_payload i p))"

lemma recovered_at:
  assumes "recovered q r"
  shows "status_recovers (q_statuses q i) (q_statuses r i)"
    and "queue_terminal (q_statuses q i) \<or> q_available r i = q_available q i"
    and "q_attempts r i = q_attempts q i \<or> (\<exists>p. q_payloads q i = Some p \<and> \<not> claimable_payload i p)"
  using assms unfolding recovered_def by blast+

lemma recovered_refl: "loaded_ok q \<Longrightarrow> q_claims q = (\<lambda>_. None) \<Longrightarrow> recovered q q"
  by (simp add: recovered_def loaded_ok_def first_seen_distinct status_recovers_def)

lemma only_commands_ok: "loaded_ok q \<Longrightarrow> distinct is \<Longrightarrow> set is \<subseteq> set (q_order q) \<Longrightarrow> loaded_ok (only_commands is q)"
  by (auto simp: loaded_ok_def only_commands_def restrict_map_def subset_iff simp del: not_None_eq)

lemma open_recovered: "recovered (fq_mem (open_queue enabled ls)) (load_queue (fq_log (open_queue enabled ls)))"
proof (cases rule: open_queue_cases [of enabled ls])
  case kept
  then show ?thesis by (simp add: recovered_refl load_ok)
next
  case (compacted log)
  have "loaded_ok (only_commands (live_commands (load_queue ls)) (load_queue ls))"
    using load_ok(1) [of ls] by (intro only_commands_ok live_subset) (simp_all add: loaded_ok_def)
  with compacted show ?thesis by (simp add: recovered_refl load_ok(2) only_commands_def)
qed

lemma recovered_register:
  "recovered q r \<Longrightarrow> recovered (register now p q) ((replay_line r (LEnqueue (qp_command_id p) p now))\<lparr>q_claims := \<lambda>_. None\<rparr>)"
  by (auto simp: recovered_def register_def Let_def status_recovers_def simp del: not_None_eq)

lemma recovered_finish:
  "recovered q r \<Longrightarrow> queue_terminal (Some s) \<Longrightarrow> recovered (settle_command i s q) ((replay_line r (LStatus i s t))\<lparr>q_claims := \<lambda>_. None\<rparr>)"
  by (auto simp: recovered_def settle_command_def status_recovers_def)

lemma recovered_retry:
  "recovered q r \<Longrightarrow> t = (case wr_retry_at res of None \<Rightarrow> now | Some u \<Rightarrow> u) \<Longrightarrow>
   recovered (mark_retry now res q) ((replay_line r (LStatus (wr_command_id res) OUTBOX_RETRY t))\<lparr>q_claims := \<lambda>_. None\<rparr>)"
  by (auto simp: recovered_def mark_retry_def settle_command_def status_recovers_def)

section \<open>Polling\<close>

text \<open>The file queue is the in-memory queue with a log.\<close>

lemma file_take_mem:
  assumes run: "file_take_command i worker expires f = (x, f')"
    and take: "take_command i worker expires (fq_mem f) = (y, q')" and w: "ok (normalize_id worker)"
  shows "x = y \<and> fq_mem f' = q'
     \<and> fq_log f' = fq_log f @ (case y of Inl _ \<Rightarrow> [] | Inr _ \<Rightarrow> [LAttempts i (the (q_attempts q' i))])"
  using take w run
  by (cases rule: take_cases) (auto simp: take file_take_command_def on_mem_def bnd_def append_queue_op_def)

lemma recovered_take:
  assumes r: "recovered q r" and s: "q_statuses q i = Some s" "pollable s"
  shows "recovered (q\<lparr>q_attempts := (q_attempts q)(i := n), q_claims := c, q_statuses := (q_statuses q)(i := Some OUTBOX_CLAIMED)\<rparr>)
    (r\<lparr>q_attempts := (q_attempts r)(i := n), q_claims := \<lambda>_. None\<rparr>)"
proof -
  from recovered_at [OF r, of i] s have "status_recovers (Some OUTBOX_CLAIMED) (q_statuses r i)" and "q_available r i = q_available q i"
    by (auto simp: status_recovers_def queue_terminal_def pollable_def)
  with r show ?thesis by (simp add: recovered_def)
qed

lemma recovered_poll:
  assumes r: "recovered (fq_mem f) (load_queue (fq_log f))" and w: "ok (normalize_id worker)"
    and poll: "file_claim_next now worker expires f = (x, f')"
  shows "recovered (fq_mem f') (load_queue (fq_log f'))"
proof (cases "next_claimable (q_order (fq_mem f)) now (fq_mem f)")
  case (Inr found)
  show ?thesis
  proof (cases found)
    case (Some i)
    with Inr poll have run: "file_take_command i worker expires f = (x, f')" by (simp add: file_claim_next_def bnd_def)
    obtain y q' where take: "take_command i worker expires (fq_mem f) = (y, q')" by fastforce
    note after = file_take_mem [OF run take w]
    from next_claimable_Some Inr Some have polled: "\<exists>s. q_statuses (fq_mem f) i = Some s \<and> pollable s" by blast
    from take w show ?thesis
    proof (cases rule: take_cases)
      case absent
      with after r show ?thesis by simp
    next
      case (refused p n)
      with after r show ?thesis by (auto simp: recovered_def)
    next
      case (taken p n c)
      from polled obtain s where "q_statuses (fq_mem f) i = Some s" "pollable s" by blast
      from recovered_take [OF r this] after taken show ?thesis by (auto simp: load_queue_snoc)
    qed
  qed (use Inr poll r in \<open>simp add: file_claim_next_def bnd_def ret_def\<close>)
qed (use poll r in \<open>simp add: file_claim_next_def bnd_def\<close>)

section \<open>Runs of the store\<close>

text \<open>
  What the runtime does with the store: it registers and requests commands, polls under worker ids
  that are ids, settles by command id, and may stop at any point and open its log again.
\<close>

inductive file_step :: "'p file_queue \<Rightarrow> 'p file_queue \<Rightarrow> bool" where
  registered: "file_step f (file_register now p f)"
| requested: "file_enqueue_once now p f = (x, f') \<Longrightarrow> file_step f f'"
| polled: "ok (normalize_id worker) \<Longrightarrow> file_claim_next now worker expires f = (y, f') \<Longrightarrow> file_step f f'"
| completed: "file_step f (file_mark_complete now r f)"
| dead_lettered: "file_step f (file_mark_dead_letter now r f)"
| retried: "file_step f (file_mark_retry now r f)"
| reopened: "file_step f (open_queue enabled (fq_log f))"

inductive file_reach :: "'p file_queue \<Rightarrow> bool" where
  opened: "file_reach (open_queue enabled ls)"
| stepped: "file_reach f \<Longrightarrow> file_step f g \<Longrightarrow> file_reach g"

lemma register_durable:
  "recovered (fq_mem f) (load_queue (fq_log f)) \<Longrightarrow>
   recovered (fq_mem (file_register now p f)) (load_queue (fq_log (file_register now p f)))"
  using recovered_register [of "fq_mem f" "load_queue (fq_log f)" now p]
  by (simp add: file_register_def append_queue_op_def load_queue_snoc)

lemma step_durable:
  assumes "file_step f g" and d: "recovered (fq_mem f) (load_queue (fq_log f))"
  shows "recovered (fq_mem g) (load_queue (fq_log g))"
  using assms(1)
proof cases
  case (registered now p)
  with register_durable [OF d] show ?thesis by simp
next
  case (requested now p x)
  with register_durable [OF d] d show ?thesis by (auto simp: file_enqueue_once_def split: option.splits)
next
  case (polled worker now expires y)
  with recovered_poll [OF d] show ?thesis by blast
next
  case (completed now r)
  with recovered_finish [OF d, of OUTBOX_COMPLETED] show ?thesis
    by (simp add: file_mark_complete_def mark_complete_def append_queue_status_def append_queue_op_def load_queue_snoc queue_terminal_def)
next
  case (dead_lettered now r)
  with recovered_finish [OF d, of OUTBOX_DEAD_LETTER] show ?thesis
    by (simp add: file_mark_dead_letter_def mark_dead_letter_def append_queue_status_def append_queue_op_def load_queue_snoc
        queue_terminal_def)
next
  case (retried now r)
  with recovered_retry [OF d refl] show ?thesis
    by (simp add: file_mark_retry_def append_queue_status_def append_queue_op_def load_queue_snoc)
next
  case (reopened enabled)
  with open_recovered show ?thesis by blast
qed

lemma reach_durable: "file_reach f \<Longrightarrow> recovered (fq_mem f) (load_queue (fq_log f))"
  by (induction rule: file_reach.induct) (auto simp: open_recovered intro: step_durable)

text \<open>What a restart leaves of the queue the log describes.\<close>

lemma open_live:
  "live_commands (fq_mem (open_queue enabled ls)) = live_commands (load_queue ls)"
  "i \<in> set (live_commands (load_queue ls)) \<Longrightarrow>
     q_payloads (fq_mem (open_queue enabled ls)) i = q_payloads (load_queue ls) i
     \<and> q_statuses (fq_mem (open_queue enabled ls)) i = q_statuses (load_queue ls) i
     \<and> q_attempts (fq_mem (open_queue enabled ls)) i = q_attempts (load_queue ls) i
     \<and> q_available (fq_mem (open_queue enabled ls)) i = q_available (load_queue ls) i"
  "q_claims (fq_mem (open_queue enabled ls)) = (\<lambda>_. None)"
proof -
  have "live_commands (only_commands (live_commands q) q) = live_commands q" for q :: "'p command_queue"
    by (auto simp: live_commands_def only_commands_def restrict_map_def intro!: filter_cong)
  then show "live_commands (fq_mem (open_queue enabled ls)) = live_commands (load_queue ls)"
    by (cases rule: open_queue_cases [of enabled ls]) simp_all
  show "q_payloads (fq_mem (open_queue enabled ls)) i = q_payloads (load_queue ls) i
     \<and> q_statuses (fq_mem (open_queue enabled ls)) i = q_statuses (load_queue ls) i
     \<and> q_attempts (fq_mem (open_queue enabled ls)) i = q_attempts (load_queue ls) i
     \<and> q_available (fq_mem (open_queue enabled ls)) i = q_available (load_queue ls) i"
    if "i \<in> set (live_commands (load_queue ls))"
    using that by (cases rule: open_queue_cases [of enabled ls]) (simp_all add: only_commands_def)
  show "q_claims (fq_mem (open_queue enabled ls)) = (\<lambda>_. None)"
    by (cases rule: open_queue_cases [of enabled ls]) (simp_all add: only_commands_def load_ok(2))
qed

section \<open>Properties\<close>

text \<open>C11: A restart keeps the work. In every state the store can reach, opening its log again gives
  the unfinished commands in the order they were first registered, each with its payload, its due
  time and its counted attempts, pending or due for a retry when a worker held it; nothing is
  claimed, and no finished command is unfinished again.
\<close>

theorem restart_keeps_work:
  assumes "file_reach f"
  shows "live_commands (fq_mem (open_queue enabled (fq_log f))) = first_seen (live_commands (fq_mem f))
     \<and> q_claims (fq_mem (open_queue enabled (fq_log f))) = (\<lambda>_. None)
     \<and> (\<forall>i\<in>set (live_commands (fq_mem f)).
          q_payloads (fq_mem (open_queue enabled (fq_log f))) i = q_payloads (fq_mem f) i
        \<and> q_available (fq_mem (open_queue enabled (fq_log f))) i = q_available (fq_mem f) i
        \<and> status_recovers (q_statuses (fq_mem f) i) (q_statuses (fq_mem (open_queue enabled (fq_log f))) i)
        \<and> (q_attempts (fq_mem (open_queue enabled (fq_log f))) i = q_attempts (fq_mem f) i
           \<or> (\<exists>p. q_payloads (fq_mem f) i = Some p \<and> \<not> claimable_payload i p)))"
proof -
  have r: "recovered (fq_mem f) (load_queue (fq_log f))" by (rule reach_durable [OF assms])
  then have "queue_terminal (q_statuses (load_queue (fq_log f)) i) = queue_terminal (q_statuses (fq_mem f) i)" for i
    using recovered_at(1) [OF r, of i] by (auto simp: status_recovers_def queue_terminal_def)
  with r have live: "live_commands (load_queue (fq_log f)) = first_seen (live_commands (fq_mem f))"
    by (simp add: live_commands_def first_seen_filter recovered_def)
  have "q_available (load_queue (fq_log f)) i = q_available (fq_mem f) i" if "i \<in> set (live_commands (fq_mem f))" for i
    using that recovered_at(2) [OF r, of i] by (auto simp: live_commands_def)
  moreover have "q_payloads (load_queue (fq_log f)) = q_payloads (fq_mem f)" using r by (simp add: recovered_def)
  ultimately show ?thesis
    using recovered_at [OF r] live by (simp add: open_live)
qed

definition claimed_store :: "nat file_queue" where
  "claimed_store = snd (file_claim_next 5 ''worker'' 65 (file_register 3 (sample_entry ''a'') (open_queue True [])))"

lemma claimed_store_reach: "file_reach claimed_store"
proof -
  let ?g = "file_register 3 (sample_entry ''a'') (open_queue True [])"
  have "ok (normalize_id ''worker'')" by code_simp
  then have "file_step ?g claimed_store"
    by (rule file_step.polled [where y = "fst (file_claim_next 5 ''worker'' 65 ?g)"]) (simp add: claimed_store_def)
  then show ?thesis by (blast intro: file_reach.intros file_step.registered)
qed

theorem restart_keeps_work_witness:
  "live_commands (fq_mem claimed_store) = [''a''] \<and> q_statuses (fq_mem claimed_store) ''a'' = Some OUTBOX_CLAIMED
   \<and> live_commands (fq_mem (open_queue True (fq_log claimed_store))) = [''a'']
   \<and> q_available (fq_mem (open_queue True (fq_log claimed_store))) ''a'' = Some 3"
proof -
  have live: "live_commands (fq_mem claimed_store) = [''a'']" "q_statuses (fq_mem claimed_store) ''a'' = Some OUTBOX_CLAIMED"
    "q_available (fq_mem claimed_store) ''a'' = Some 3" "first_seen [''a''] = [''a'']"
    by code_simp+
  with restart_keeps_work [OF claimed_store_reach, of True] show ?thesis by simp
qed

text \<open>C20: The log that is kept rebuilds the queue that is kept. Whatever log is opened, compacted or
  not, the store's memory is exactly what its log on disk folds to, has the same unfinished commands
  with the same fields as the log that was opened, and opening it again changes nothing.
\<close>

theorem compaction_roundtrip:
  "load_queue (fq_log (open_queue enabled ls)) = fq_mem (open_queue enabled ls)
   \<and> fq_lines (open_queue enabled ls) = length (fq_log (open_queue enabled ls))
   \<and> live_commands (fq_mem (open_queue enabled ls)) = live_commands (load_queue ls)
   \<and> open_queue enabled (fq_log (open_queue enabled ls)) = open_queue enabled ls"
proof (cases rule: open_queue_cases [of enabled ls])
  case kept
  then show ?thesis by simp
next
  case (compacted log)
  let ?q = "load_queue ls" and ?live = "live_commands (load_queue ls)"
  have again: "live_commands (only_commands ?live ?q) = ?live" "only_commands ?live (only_commands ?live ?q) = only_commands ?live ?q"
    using open_live(1) [of enabled ls] compacted by (auto simp: only_commands_def)
  have "lines_of (only_commands ?live ?q) i = lines_of ?q i" if "i \<in> set ?live" for i
    using that by (simp add: lines_of_def only_commands_def)
  then have same: "map (lines_of (only_commands ?live ?q)) ?live = map (lines_of ?q) ?live" by simp
  have "loaded_ok (only_commands ?live ?q)" using load_ok(1) [of log] by (simp only: compacted(4))
  moreover have "set ?live \<subseteq> set (q_order (only_commands ?live ?q))" by (simp add: only_commands_def)
  ultimately have "rewrite_lines (only_commands ?live ?q) ?live = Inr log"
    using compacted(1) by (simp only: rewrite_lines_Inr same)
  then have "open_queue enabled log = \<lparr>fq_mem = only_commands ?live ?q, fq_log = log, fq_lines = length log\<rparr>"
    using compacted(2,4) again by (simp add: open_queue_def compact_queue_def Let_def)
  with compacted again show ?thesis by simp
qed

text \<open>C39: Compaction forgets what was finished. A reconcile command the log shows completed is refused
  as a replay by a store that opened the log as it is, and is registered and due a second time by
  one that compacted it.
\<close>

theorem compaction_forgets_finished:
  assumes "q_payloads (load_queue ls) i = Some p" and "qp_command_id p = i"
    and "q_statuses (load_queue ls) i = Some OUTBOX_COMPLETED"
    and "should_compact (length ls) (length (live_commands (load_queue ls)))"
  shows "fst (file_enqueue_once now p (open_queue False ls)) = Inr False
     \<and> fst (file_enqueue_once now p (open_queue True ls)) = Inr True
     \<and> can_claim now (fq_mem (snd (file_enqueue_once now p (open_queue True ls)))) i"
proof -
  have plain: "fq_mem (open_queue False ls) = load_queue ls" by (simp add: open_queue_def compact_queue_def Let_def)
  have "fq_mem (open_queue True ls) = only_commands (live_commands (load_queue ls)) (load_queue ls)"
    using rewrite_lines_Inr [OF load_ok(1) live_subset(1), of ls] assms(4)
    by (simp add: open_queue_def compact_queue_def Let_def)
  moreover have "i \<notin> set (live_commands (load_queue ls))" using assms(3) by (simp add: live_commands_def queue_terminal_def)
  ultimately have "q_payloads (fq_mem (open_queue True ls)) i = None" "q_claims (fq_mem (open_queue True ls)) i = None"
    by (simp_all add: only_commands_def load_ok(2))
  then show ?thesis
    using assms(1,2) plain
    by (auto simp: file_enqueue_once_def file_register_def append_queue_op_def register_def Let_def can_claim_def
        pollable_def unlocked_def)
qed

text \<open>A command that took 254 attempts to complete.\<close>

definition stubborn_log :: "nat queue_line list" where
  "stubborn_log = LEnqueue ''a'' (sample_entry ''a'') 1 # map (LAttempts ''a'') [1..<255] @ [LStatus ''a'' OUTBOX_COMPLETED 2]"

lemma replay_attempts: "\<exists>f. foldl replay_line q (map (LAttempts i) ns) = q\<lparr>q_attempts := f\<rparr>"
proof (induction ns arbitrary: q)
  case Nil
  show ?case by (rule exI [of _ "q_attempts q"]) simp
next
  case (Cons n ns)
  show ?case using Cons [of "replay_line q (LAttempts i n)"] by auto
qed

theorem compaction_forgets_finished_witness:
  "fst (file_enqueue_once 9 (sample_entry ''a'') (open_queue True stubborn_log)) = Inr True"
proof -
  let ?q = "replay_line empty_queue (LEnqueue ''a'' (sample_entry ''a'') 1)"
  obtain f where f: "foldl replay_line ?q (map (LAttempts ''a'') [1..<255]) = ?q\<lparr>q_attempts := f\<rparr>"
    using replay_attempts by blast
  have load: "load_queue stubborn_log = (replay_line (?q\<lparr>q_attempts := f\<rparr>) (LStatus ''a'' OUTBOX_COMPLETED 2))\<lparr>q_claims := \<lambda>_. None\<rparr>"
    by (simp only: stubborn_log_def load_queue_def foldl_append foldl_Cons foldl_Nil f)
  have id: "qp_command_id (sample_entry ''a'') = ''a''" by (simp add: sample_entry_def)
  have "length stubborn_log = 256" by (simp add: stubborn_log_def)
  moreover have "live_commands (load_queue stubborn_log) = []"
    by (simp add: load live_commands_def queue_terminal_def empty_queue_def)
  ultimately have "should_compact (length stubborn_log) (length (live_commands (load_queue stubborn_log)))"
    by (simp add: should_compact_def)
  with compaction_forgets_finished [of stubborn_log "''a''" "sample_entry ''a''" 9] show ?thesis
    by (simp add: load id)
qed

end
