(* ===== verification/WorkerLoop.thy ===== *)
theory WorkerLoop
  imports CommandQueueProperties EffectWorkers
begin

text \<open>
  The loop of \<open>runtime_worker/loop.py\<close> over the command queue: a command is claimed, its handler is
  bound, run, and the claim is settled; \<open>run_until_idle\<close> does so for batches of claims whose tasks
  interleave. The handlers of the effect families are those of \<open>EffectWorkers\<close>; the handlers of the
  other command families are arguments, as are the clock (a handler may advance it), the upkeep of
  a pass (sandbox reaper and evaluation projection), the event loop's choice of the next task and
  the registry that knows which runs a user has cancelled. Tracing and logging are left out.
\<close>

section \<open>Commands and claims\<close>

text \<open>The dump of a command; \<open>OtherBody\<close> stands for the families that are not modelled.\<close>

datatype 'x command_body =
    CommitBody runtime_commit_command
  | ReconcileBody runtime_reconcile_command
  | OtherBody 'x

type_synonym 'x work_payload = "'x command_body queue_payload"
type_synonym 'x work_claim = "'x command_body worker_claim"

record ('s, 'x) worker_system =
  ws_world :: 's
  ws_queue :: "'x command_body command_queue"
  ws_now :: int

type_synonym ('s, 'x) work = "(('s, 'x) worker_system, unit) eff"

text \<open>A claim whose handler has not been entered, and one whose handler has ended.\<close>

datatype 'x task =
    Waiting "'x work_claim"
  | Handled "'x work_claim" "unit result"

record ('s, 'x) worker =
  wk_id :: string
  wk_lock_seconds :: int
  wk_retry_delay :: int
  wk_max_retries :: int
  wk_parallel :: nat
  wk_family :: "string \<Rightarrow> 'x work_payload \<Rightarrow> ('s, 'x) work result"
  wk_commit :: "(runtime_commit_command \<Rightarrow> ('s, 'x) work) option"
  wk_reconcile :: "(runtime_reconcile_command \<Rightarrow> ('s, 'x) work) option"
  wk_cancel_requested :: "string option \<Rightarrow> ('s, 'x) worker_system \<Rightarrow> bool"
  wk_upkeep :: "(('s, 'x) worker_system, bool) eff"
  wk_choose :: "'x task list \<Rightarrow> ('s, 'x) worker_system \<Rightarrow> nat"

section \<open>Binding a handler\<close>

definition decode_commit :: "'x work_payload \<Rightarrow> runtime_commit_command result" where
  "decode_commit p = (case qp_body p of
       CommitBody c \<Rightarrow> runtime_commit_command_make
         (c\<lparr>rc_command_id := qp_command_id p, rc_org_id := qp_org_id p, rc_run_id := qp_run_id p\<rparr>)
     | _ \<Rightarrow> Inl ValidationError)"

definition decode_reconcile :: "'x work_payload \<Rightarrow> runtime_reconcile_command result" where
  "decode_reconcile p = (case qp_body p of
       ReconcileBody c \<Rightarrow> runtime_reconcile_command_make
         (c\<lparr>qc_command_id := qp_command_id p, qc_org_id := qp_org_id p, qc_run_id := qp_run_id p\<rparr>)
     | _ \<Rightarrow> Inl ValidationError)"

text \<open>
  The errors of preparation. The first three are \<open>AgentRuntimeError\<close>s that say they must not be
  retried; a payload that does not validate is any other exception.
\<close>

datatype prepare_error = NOT_CONFIGURED | UNSUPPORTED_COMMAND | SCOPE_MISMATCH | INVALID_PAYLOAD exn

definition other_families :: "string list" where
  "other_families = [''run_requested'', ''run_steer_requested'', ''run_cancel_requested'', ''approval_resolved'',
     ''stage_commit_requested'', ''artifact_event_publish_requested'']"

definition as_prepared :: "'a result \<Rightarrow> prepare_error + 'a" where
  "as_prepared r = (case r of Inl e \<Rightarrow> Inl (INVALID_PAYLOAD e) | Inr x \<Rightarrow> Inr x)"

definition prepare_reconcile ::
  "(runtime_reconcile_command \<Rightarrow> ('s, 'x) work) \<Rightarrow> 'x work_claim \<Rightarrow> prepare_error + ('s, 'x) work" where
  "prepare_reconcile handler c = (case decode_reconcile (wc_payload c) of
       Inl e \<Rightarrow> Inl (INVALID_PAYLOAD e)
     | Inr cmd \<Rightarrow>
         if qc_org_id cmd \<noteq> wc_org_id c \<or> Some (qc_run_id cmd) \<noteq> wc_run_id c then Inl SCOPE_MISMATCH
         else Inr (handler cmd))"

definition prepare_dispatch :: "('s, 'x) worker \<Rightarrow> 'x work_claim \<Rightarrow> prepare_error + ('s, 'x) work" where
  "prepare_dispatch wk c = (let ty = wc_command_type c in
     if ty \<in> set other_families then as_prepared (wk_family wk ty (wc_payload c))
     else if ty = ''effect_commit_requested'' then (case wk_commit wk of
         None \<Rightarrow> Inl NOT_CONFIGURED
       | Some handler \<Rightarrow> as_prepared (map_sum id handler (decode_commit (wc_payload c))))
     else if ty = ''effect_reconcile_requested'' then (case wk_reconcile wk of
         None \<Rightarrow> Inl NOT_CONFIGURED
       | Some handler \<Rightarrow> prepare_reconcile handler c)
     else Inl UNSUPPORTED_COMMAND)"

section \<open>Settling a claim\<close>

definition on_queue :: "('x command_body command_queue \<Rightarrow> 'x command_body command_queue) \<Rightarrow> ('s, 'x) work" where
  "on_queue f = (\<lambda>s. (Inr (), s\<lparr>ws_queue := f (ws_queue s)\<rparr>))"

definition complete_claim :: "'x work_claim \<Rightarrow> ('s, 'x) work" where
  "complete_claim c =
     bnd (lift (worker_result_make (wc_command_id c) None)) (\<lambda>r. on_queue (mark_complete r))"

text \<open>
  The flag of the error a failure is reported with. An \<open>AgentRuntimeError\<close> brings its own: a run or
  a scope that is refused and a sealed ledger say no, \<open>RuntimeFailure\<close> is any other one; every other
  exception is wrapped as a retryable failure.
\<close>

definition error_retryable :: "exn \<Rightarrow> bool" where
  "error_retryable e = (case e of
       RunUnavailable \<Rightarrow> False
     | RunPermissionDenied \<Rightarrow> False
     | LedgerSealViolation \<Rightarrow> False
     | RuntimeFailure retryable \<Rightarrow> retryable
     | _ \<Rightarrow> True)"

fun prepare_retryable :: "prepare_error \<Rightarrow> bool" where
  "prepare_retryable (INVALID_PAYLOAD e) = error_retryable e"
| "prepare_retryable _ = False"

definition retry_permitted :: "'x work_claim \<Rightarrow> bool" where
  "retry_permitted c \<longleftrightarrow> wc_command_type c \<noteq> ''run_requested''"

definition mark_failure :: "('s, 'x) worker \<Rightarrow> 'x work_claim \<Rightarrow> bool \<Rightarrow> ('s, 'x) work" where
  "mark_failure wk c retryable = (\<lambda>s.
     bnd (lift (worker_result_make (wc_command_id c) (Some (ws_now s + wk_retry_delay wk)))) (\<lambda>r.
       if retryable \<and> int (wc_attempts c) \<le> wk_max_retries wk then on_queue (mark_retry (ws_now s) r)
       else on_queue (mark_dead_letter r)) s)"

definition run_execution :: "'x work_claim \<Rightarrow> bool" where
  "run_execution c \<longleftrightarrow> wc_command_type c = ''run_requested'' \<or> wc_command_type c = ''approval_resolved''"

text \<open>
  What follows the handler. A cancellation the user asked for settles the claim before it goes on; a
  worker's shutdown leaves it to the queue.
\<close>

definition settle_claim :: "('s, 'x) worker \<Rightarrow> 'x work_claim \<Rightarrow> unit result \<Rightarrow> ('s, 'x) work" where
  "settle_claim wk c r = (\<lambda>s. case r of
       Inr _ \<Rightarrow> complete_claim c s
     | Inl e \<Rightarrow>
         if is_exception e then mark_failure wk c (error_retryable e \<and> retry_permitted c) s
         else if run_execution c \<and> wk_cancel_requested wk (wc_run_id c) s
         then bnd (complete_claim c) (\<lambda>_. throw e) s
         else (Inl e, s))"

definition handle_claim :: "('s, 'x) worker \<Rightarrow> 'x work_claim \<Rightarrow> ('s, 'x) work" where
  "handle_claim wk c = (\<lambda>s. case prepare_dispatch wk c of
       Inl e \<Rightarrow> mark_failure wk c (prepare_retryable e) s
     | Inr work \<Rightarrow> (case work s of (r, t) \<Rightarrow> settle_claim wk c r t))"

section \<open>One command\<close>

definition claim_work :: "('s, 'x) worker \<Rightarrow> (('s, 'x) worker_system, 'x work_claim option) eff" where
  "claim_work wk = (\<lambda>s.
     case claim_next (ws_now s) (wk_id wk) (ws_now s + wk_lock_seconds wk) (ws_queue s) of
       (r, q) \<Rightarrow> (r, s\<lparr>ws_queue := q\<rparr>))"

definition run_once :: "('s, 'x) worker \<Rightarrow> (('s, 'x) worker_system, bool) eff" where
  "run_once wk = bnd (wk_upkeep wk) (\<lambda>projected. bnd (claim_work wk) (\<lambda>claim. case claim of
       None \<Rightarrow> ret projected
     | Some c \<Rightarrow> bnd (handle_claim wk c) (\<lambda>_. ret True)))"

section \<open>A batch\<close>

fun claim_batch :: "('s, 'x) worker \<Rightarrow> nat \<Rightarrow> (('s, 'x) worker_system, 'x work_claim list) eff" where
  "claim_batch wk 0 = ret []"
| "claim_batch wk (Suc n) = bnd (claim_work wk) (\<lambda>claim. case claim of
       None \<Rightarrow> ret []
     | Some c \<Rightarrow> bnd (claim_batch wk n) (\<lambda>cs. ret (c # cs)))"

text \<open>
  A task moves twice: its handler runs, and then its claim is settled; a claim that binds no handler
  is settled at once. Other tasks may move in between.
\<close>

fun task_step :: "('s, 'x) worker \<Rightarrow> 'x task \<Rightarrow> (('s, 'x) worker_system, 'x task option) eff" where
  "task_step wk (Waiting c) = (\<lambda>s. case prepare_dispatch wk c of
       Inl e \<Rightarrow> bnd (mark_failure wk c (prepare_retryable e)) (\<lambda>_. ret None) s
     | Inr work \<Rightarrow> (case work s of (r, t) \<Rightarrow> (Inr (Some (Handled c r)), t)))"
| "task_step wk (Handled c r) = bnd (settle_claim wk c r) (\<lambda>_. ret None)"

fun task_moves :: "'x task \<Rightarrow> nat" where
  "task_moves (Waiting c) = 2"
| "task_moves (Handled c r) = 1"

lemma task_step_moves: "task_step wk x s = (Inr (Some y), t) \<Longrightarrow> task_moves y < task_moves x"
  by (cases x) (auto simp: bnd_def ret_def split: sum.splits prod.splits)

lemma task_moves_pos: "0 < task_moves x"
  by (cases x) simp_all

text \<open>
  \<open>asyncio.gather\<close> over the tasks of a batch: the event loop moves one of them at a time, and the
  first error that escapes a task is raised. What the remaining tasks go on to do is then no longer
  part of the call.
\<close>

definition pick :: "nat \<Rightarrow> 'a list \<Rightarrow> 'a list \<times> 'a \<times> 'a list" where
  "pick k xs = (let i = k mod length xs in (take i xs, xs ! i, drop (Suc i) xs))"

lemma pick_split: "xs \<noteq> [] \<Longrightarrow> pick k xs = (as, x, bs) \<Longrightarrow> xs = as @ x # bs"
  by (auto simp: pick_def Let_def intro: id_take_nth_drop)

function gather :: "('s, 'x) worker \<Rightarrow> 'x task list \<Rightarrow> ('s, 'x) work" where
  "gather wk ts = (\<lambda>s. if ts = [] then (Inr (), s)
     else (case pick (wk_choose wk ts s) ts of (as, x, bs) \<Rightarrow> (case task_step wk x s of
         (Inl e, t) \<Rightarrow> (Inl e, t)
       | (Inr None, t) \<Rightarrow> gather wk (as @ bs) t
       | (Inr (Some y), t) \<Rightarrow> gather wk (as @ y # bs) t)))"
  by pat_completeness auto
termination
  by (relation "measure (\<lambda>(wk, ts). sum_list (map task_moves ts))")
    (auto simp: task_moves_pos dest!: pick_split [OF _ sym] intro: task_step_moves [OF sym])

text \<open>
  \<open>run_until_idle\<close>: batch after batch until a pass neither finds a command nor projects anything. It
  counts the commands it has processed, and may run forever.
\<close>

definition run_batch :: "('s, 'x) worker \<Rightarrow> (('s, 'x) worker_system, bool \<times> nat) eff" where
  "run_batch wk = bnd (wk_upkeep wk) (\<lambda>projected. bnd (claim_batch wk (wk_parallel wk)) (\<lambda>cs.
     bnd (gather wk (map Waiting cs)) (\<lambda>_. ret (projected, length cs))))"

partial_function (option) run_until_idle ::
  "('s, 'x) worker \<Rightarrow> nat \<Rightarrow> ('s, 'x) worker_system \<Rightarrow> (nat result \<times> ('s, 'x) worker_system) option" where
  "run_until_idle wk n s = (case run_batch wk s of
       (Inl e, t) \<Rightarrow> Some (Inl e, t)
     | (Inr (projected, m), t) \<Rightarrow>
         if m = 0 \<and> \<not> projected then Some (Inr n, t) else run_until_idle wk (n + m) t)"

section \<open>The worker of the effect families\<close>

text \<open>
  How the loop wires the effect handlers: commits behind the rollout gate, reconciliation behind
  the verified scope of its claim, both over one claim store and one coordinator factory.
\<close>

definition in_world :: "('s, unit) eff \<Rightarrow> ('s, 'x) work" where
  "in_world m = (\<lambda>s. case m (ws_world s) of (r, w) \<Rightarrow> (r, s\<lparr>ws_world := w\<rparr>))"

definition effect_worker ::
  "rollout_admission \<Rightarrow> 'z event_world_scheme claim_port \<Rightarrow> 'z event_world_scheme coordinator_factory
   \<Rightarrow> (run_record \<Rightarrow> effect_claim \<Rightarrow> string \<Rightarrow> string \<Rightarrow> ('z event_world_scheme, unit) eff) option
   \<Rightarrow> ('z event_world_scheme, 'x) worker \<Rightarrow> ('z event_world_scheme, 'x) worker" where
  "effect_worker a claims factory emitter wk =
     wk\<lparr>wk_commit := Some (\<lambda>c. in_world (gated_commit_worker a (commit_worker factory) c)),
        wk_reconcile := Some (\<lambda>c. in_world (reconcile_worker claims factory emitter c))\<rparr>"

end
