(* ===== verification/WorkerLoopProperties.thy ===== *)
theory WorkerLoopProperties
  imports WorkerLoop WorkerLaws
begin

text \<open>
  What the worker loop makes of a claim: every handled claim is settled, a failure is retried only
  while it may be, and a queue that nobody adds to is worked off.
\<close>

section \<open>Settling\<close>

lemma settle_queue:
  assumes "normalize_id i = Inr i"
  shows "worker_result_make i t = Inr \<lparr>wr_command_id = i, wr_retry_at = t\<rparr>"
  using assms by (simp add: worker_result_make_def)

definition retry_at :: "string \<Rightarrow> int \<Rightarrow> 'p command_queue \<Rightarrow> 'p command_queue" where
  "retry_at i t q = (settle_command i OUTBOX_RETRY q)\<lparr>q_available := (q_available q)(i := Some t)\<rparr>"

lemma complete_claim_run:
  "normalize_id (wc_command_id c) = Inr (wc_command_id c) \<Longrightarrow>
   complete_claim c s = (Inr (), s\<lparr>ws_queue := settle_command (wc_command_id c) OUTBOX_COMPLETED (ws_queue s)\<rparr>)"
  by (simp add: complete_claim_def settle_queue bnd_def lift_def on_queue_def mark_complete_def)

lemma mark_failure_run:
  "normalize_id (wc_command_id c) = Inr (wc_command_id c) \<Longrightarrow>
   mark_failure wk c retryable s = (Inr (), s\<lparr>ws_queue :=
     (if retryable \<and> int (wc_attempts c) \<le> wk_max_retries wk
      then retry_at (wc_command_id c) (ws_now s + wk_retry_delay wk) (ws_queue s)
      else settle_command (wc_command_id c) OUTBOX_DEAD_LETTER (ws_queue s))\<rparr>)"
  by (simp add: mark_failure_def settle_queue bnd_def lift_def on_queue_def mark_retry_def mark_dead_letter_def retry_at_def)

lemma queue_update_id [simp]: "ws_queue s = q \<Longrightarrow> s\<lparr>ws_queue := q\<rparr> = s"
  by auto

text \<open>Handlers that leave the queue to the loop.\<close>

definition leaves_queue :: "('s, 'x) worker \<Rightarrow> bool" where
  "leaves_queue wk \<longleftrightarrow> (\<forall>c work s. prepare_dispatch wk c = Inr work \<longrightarrow> ws_queue (snd (work s)) = ws_queue s)"

lemma settle_claim_cases:
  assumes "settle_claim wk c r s = (x, s')" and id: "normalize_id (wc_command_id c) = Inr (wc_command_id c)"
  obtains (completed) "ws_queue s' = settle_command (wc_command_id c) OUTBOX_COMPLETED (ws_queue s)"
      and "x = Inr () \<or> x = Inl CancelledError"
  | (dead) "ws_queue s' = settle_command (wc_command_id c) OUTBOX_DEAD_LETTER (ws_queue s)" and "x = Inr ()"
  | (again) t where "ws_queue s' = retry_at (wc_command_id c) t (ws_queue s)" and "x = Inr ()"
      and "int (wc_attempts c) \<le> wk_max_retries wk"
  | (abandoned) "ws_queue s' = ws_queue s" and "x = Inl CancelledError"
proof (cases r)
  case (Inl e)
  show thesis
  proof (cases "is_exception e")
    case True
    with Inl assms(1) id show thesis
      by (auto simp: settle_claim_def mark_failure_run split: if_splits intro: dead again)
  next
    case False
    then have "e = CancelledError" by (simp add: is_exception_def)
    with Inl assms(1) id show thesis
      by (auto simp: settle_claim_def is_exception_def bnd_def throw_def complete_claim_run split: if_splits
          intro: completed abandoned)
  qed
next
  case (Inr u)
  with assms(1) id show thesis by (auto simp: settle_claim_def complete_claim_run intro: completed)
qed

section \<open>A batch\<close>

text \<open>How often a command can still be claimed when every claim is settled.\<close>

definition claims_left :: "nat \<Rightarrow> 'p command_queue \<Rightarrow> string \<Rightarrow> nat" where
  "claims_left retries q i = (case q_statuses q i of
       Some s \<Rightarrow> if pollable s then max 1 (Suc retries - the (q_attempts q i)) else 0
     | None \<Rightarrow> 0)"

definition work_left :: "nat \<Rightarrow> 'p command_queue \<Rightarrow> nat" where
  "work_left retries q = (\<Sum>i\<in>set (q_order q). claims_left retries q i)"

text \<open>What a batch makes of a command: nothing, a claim, or a settled claim.\<close>

definition left_alone :: "'p command_queue \<Rightarrow> 'p command_queue \<Rightarrow> string \<Rightarrow> bool" where
  "left_alone q q' i \<longleftrightarrow> q_statuses q' i = q_statuses q i \<and> q_attempts q' i = q_attempts q i
     \<and> q_available q' i = q_available q i \<and> q_claims q' i = q_claims q i"

definition taken_at :: "'p command_queue \<Rightarrow> 'p command_queue \<Rightarrow> string \<Rightarrow> nat \<Rightarrow> bool" where
  "taken_at q q' i n \<longleftrightarrow> q_attempts q' i = Some n \<and> q_statuses q' i = Some OUTBOX_CLAIMED
     \<and> q_available q' i = q_available q i \<and> (\<exists>c. q_claims q' i = Some c)"

definition settled_at :: "nat \<Rightarrow> 'p command_queue \<Rightarrow> 'p command_queue \<Rightarrow> string \<Rightarrow> nat \<Rightarrow> bool" where
  "settled_at retries q q' i n \<longleftrightarrow> q_attempts q' i = Some n \<and> q_claims q' i = None
     \<and> (q_available q' i = q_available q i \<and> (q_statuses q' i = Some OUTBOX_COMPLETED \<or> q_statuses q' i = Some OUTBOX_DEAD_LETTER)
        \<or> q_available q' i \<noteq> None \<and> q_statuses q' i = Some OUTBOX_RETRY \<and> n \<le> retries)"

fun task_claim :: "'x task \<Rightarrow> 'x work_claim" where
  "task_claim (Waiting c) = c"
| "task_claim (Handled c r) = c"

text \<open>
  A batch on the way, from the queue \<open>q0\<close> it started with: the claims that are not settled yet, and
  the ids of the commands that are. Nothing else has moved.
\<close>

definition batch_at ::
  "nat \<Rightarrow> 'x command_body command_queue \<Rightarrow> 'x work_claim list \<Rightarrow> string list \<Rightarrow> 'x command_body command_queue \<Rightarrow> bool" where
  "batch_at retries q0 cs ids q \<longleftrightarrow> q_order q = q_order q0 \<and> q_payloads q = q_payloads q0
     \<and> distinct (map wc_command_id cs @ ids) \<and> set (map wc_command_id cs @ ids) \<subseteq> set (q_order q0)
     \<and> (\<forall>i\<in>set (map wc_command_id cs @ ids). \<exists>st n. q_statuses q0 i = Some st \<and> pollable st \<and> q_attempts q0 i = Some n)
     \<and> (\<forall>c\<in>set cs. q_attempts q0 (wc_command_id c) = Some (wc_attempts c - 1) \<and> 0 < wc_attempts c
          \<and> taken_at q0 q (wc_command_id c) (wc_attempts c))
     \<and> (\<forall>i\<in>set ids. settled_at retries q0 q i (Suc (the (q_attempts q0 i))))
     \<and> (\<forall>i. i \<notin> set (map wc_command_id cs @ ids) \<longrightarrow> left_alone q0 q i)"

lemma batch_start: "batch_at retries q [] [] q"
  by (simp add: batch_at_def left_alone_def)

lemma batch_facts:
  assumes "batch_at retries q0 cs ids q"
  shows "q_order q = q_order q0" and "q_payloads q = q_payloads q0"
    and "distinct (map wc_command_id cs @ ids)" and "set (map wc_command_id cs @ ids) \<subseteq> set (q_order q0)"
    and "\<And>i. i \<in> set (map wc_command_id cs @ ids) \<Longrightarrow>
      \<exists>st n. q_statuses q0 i = Some st \<and> pollable st \<and> q_attempts q0 i = Some n"
    and "\<And>c. c \<in> set cs \<Longrightarrow> q_attempts q0 (wc_command_id c) = Some (wc_attempts c - 1) \<and> 0 < wc_attempts c
      \<and> taken_at q0 q (wc_command_id c) (wc_attempts c)"
    and "\<And>i. i \<in> set ids \<Longrightarrow> settled_at retries q0 q i (Suc (the (q_attempts q0 i)))"
    and "\<And>i. i \<notin> set (map wc_command_id cs @ ids) \<Longrightarrow> left_alone q0 q i"
  using assms unfolding batch_at_def by blast+

lemma batch_ok:
  assumes b: "batch_at retries q0 cs ids q" and "queue_ok q0"
  shows "queue_ok q"
proof -
  have "q_statuses q i \<noteq> None \<and> q_attempts q i \<noteq> None \<and> q_available q i \<noteq> None" if "i \<in> set (q_order q0)" for i
  proof -
    from that assms(2) have i: "q_statuses q0 i \<noteq> None" "q_attempts q0 i \<noteq> None" "q_available q0 i \<noteq> None"
      by (simp_all add: queue_ok_def)
    consider c where "c \<in> set cs" "i = wc_command_id c" | "i \<in> set ids" | "i \<notin> set (map wc_command_id cs @ ids)"
      by auto
    then show ?thesis
    proof cases
      case 1
      with batch_facts(6) [OF b, of c] i show ?thesis by (simp add: taken_at_def)
    next
      case 2
      with batch_facts(7) [OF b, of i] i show ?thesis by (auto simp: settled_at_def simp del: not_None_eq)
    next
      case 3
      with batch_facts(8) [OF b, of i] i show ?thesis by (simp add: left_alone_def)
    qed
  qed
  with assms(2) batch_facts(1,2) [OF b] show ?thesis by (simp add: queue_ok_def)
qed

text \<open>Settling one of the claims.\<close>

lemma batch_settle:
  assumes b: "batch_at retries q0 (as @ c # bs) ids q" and i: "i = wc_command_id c"
    and q': "q' = settle_command i OUTBOX_COMPLETED q \<or> q' = settle_command i OUTBOX_DEAD_LETTER q
      \<or> wc_attempts c \<le> retries \<and> (\<exists>t. q' = retry_at i t q)"
  shows "batch_at retries q0 (as @ bs) (i # ids) q'"
proof -
  from batch_facts(6) [OF b, of c] i
  have c: "q_attempts q0 i = Some (wc_attempts c - 1)" "0 < wc_attempts c" "taken_at q0 q i (wc_attempts c)" by simp_all
  have new: "settled_at retries q0 q' i (Suc (the (q_attempts q0 i)))"
    using c q' by (auto simp: settled_at_def taken_at_def settle_command_def retry_at_def)
  have old: "settled_at retries q0 q' j n = settled_at retries q0 q j n" "left_alone q0 q' j = left_alone q0 q j"
    "taken_at q0 q' j n = taken_at q0 q j n" if "j \<noteq> i" for j n
    using that q' by (auto simp: settled_at_def left_alone_def taken_at_def settle_command_def retry_at_def)
  have same: "q_order q' = q_order q" "q_payloads q' = q_payloads q"
    using q' by (auto simp: settle_command_def retry_at_def)
  have others: "i \<notin> set (map wc_command_id (as @ bs) @ ids)" using batch_facts(3) [OF b] i by auto
  show ?thesis unfolding batch_at_def
  proof (intro conjI ballI allI impI)
    show "q_order q' = q_order q0" "q_payloads q' = q_payloads q0" using same batch_facts(1,2) [OF b] by simp_all
    show "distinct (map wc_command_id (as @ bs) @ i # ids)" using batch_facts(3) [OF b] i by auto
    show "set (map wc_command_id (as @ bs) @ i # ids) \<subseteq> set (q_order q0)" using batch_facts(4) [OF b] i by auto
  next
    fix j assume "j \<in> set (map wc_command_id (as @ bs) @ i # ids)"
    then show "\<exists>st n. q_statuses q0 j = Some st \<and> pollable st \<and> q_attempts q0 j = Some n"
      using batch_facts(5) [OF b, of j] i by auto
  next
    fix d assume d: "d \<in> set (as @ bs)"
    with others have "wc_command_id d \<noteq> i" by auto
    with d batch_facts(6) [OF b, of d] old(3) show "q_attempts q0 (wc_command_id d) = Some (wc_attempts d - 1)"
      "0 < wc_attempts d" "taken_at q0 q' (wc_command_id d) (wc_attempts d)" by auto
  next
    fix j assume "j \<in> set (i # ids)"
    then show "settled_at retries q0 q' j (Suc (the (q_attempts q0 j)))"
      using new others batch_facts(7) [OF b, of j] old(1) [of j] by (cases "j = i") auto
  next
    fix j assume "j \<notin> set (map wc_command_id (as @ bs) @ i # ids)"
    then show "left_alone q0 q' j" using batch_facts(8) [OF b, of j] old(2) [of j] i by auto
  qed
qed

text \<open>When all of them are settled, each of its commands has less work left.\<close>

lemma batch_end:
  assumes b: "batch_at retries q0 [] ids q"
  shows "work_left retries q + length ids \<le> work_left retries q0"
proof -
  let ?S = "set (q_order q0)"
  have "claims_left retries q i + (if i \<in> set ids then 1 else 0) \<le> claims_left retries q0 i" for i
  proof (cases "i \<in> set ids")
    case True
    with b obtain st n where "q_statuses q0 i = Some st" "pollable st" "q_attempts q0 i = Some n"
      "settled_at retries q0 q i (Suc n)"
      by (fastforce simp: batch_at_def)
    with True show ?thesis by (auto simp: settled_at_def claims_left_def pollable_def)
  next
    case False
    with b have "left_alone q0 q i" by (simp add: batch_at_def)
    with False show ?thesis unfolding left_alone_def claims_left_def by (elim conjE) (simp only: if_False add_0_right order_refl)
  qed
  then have "(\<Sum>i\<in>?S. claims_left retries q i + (if i \<in> set ids then 1 else 0)) \<le> work_left retries q0"
    unfolding work_left_def by (intro sum_mono) simp
  moreover have "(\<Sum>i\<in>?S. if i \<in> set ids then 1 else 0) = length ids"
  proof -
    have "?S \<inter> set ids = set ids" "distinct ids" using b by (auto simp: batch_at_def)
    then show ?thesis by (simp add: sum.inter_restrict [symmetric] distinct_card Int_def [symmetric] flip: sum.inter_filter)
  qed
  ultimately show ?thesis using b by (simp add: batch_at_def work_left_def sum.distrib)
qed

section \<open>Claiming the batch\<close>

definition locked_by :: "int \<Rightarrow> 'x command_body command_queue \<Rightarrow> 'x work_claim list \<Rightarrow> bool" where
  "locked_by now q cs \<longleftrightarrow> (\<forall>c\<in>set cs. \<not> unlocked now (q_claims q (wc_command_id c)))"

lemma claim_one:
  assumes b: "batch_at retries q0 cs [] q" and ok0: "queue_ok q0" and lock: "locked_by now q cs" "0 < seconds"
    and w: "ok (normalize_id worker)" and run: "claim_next now worker (now + seconds) q = (x, q')"
  obtains (none) "x = Inr None" and "q' = q" and "find (can_claim now q) (q_order q) = None"
  | (failed) "x = Inl ValidationError"
  | (got) c where "x = Inr (Some c)" and "batch_at retries q0 (cs @ [c]) [] q'" and "locked_by now q' (cs @ [c])"
proof -
  have ok: "queue_ok q" by (rule batch_ok [OF b ok0])
  show thesis
  proof (cases "find (can_claim now q) (q_order q)")
    case None
    with run ok show thesis by (intro none) (auto simp: claim_next_def bnd_def ret_def next_claimable_ok)
  next
    case (Some i)
    note i = find_in [OF Some]
    then obtain st where st: "q_statuses q i = Some st" "pollable st" "unlocked now (q_claims q i)"
      by (auto simp: can_claim_def split: option.splits)
    have "take_command i worker (now + seconds) q = (x, q')"
      using run next_claimable_ok [OF ok, of now] Some by (simp add: claim_next_def bnd_def)
    from this w show thesis
    proof (cases rule: take_cases)
      case absent
      with i ok show thesis by (auto simp: queue_ok_def)
    next
      case (refused p n)
      then show thesis by (intro failed)
    next
      case (taken p n c)
      have "i \<notin> wc_command_id ` set cs" using st lock(1) by (auto simp: locked_by_def)
      moreover from this b have "left_alone q0 q i" by (auto simp: batch_at_def)
      moreover have "i \<in> set (q_order q0)" using i b by (simp add: batch_at_def)
      moreover have id: "wc_command_id c = i" using ok i taken(8) by (simp add: queue_ok_def)
      ultimately have "batch_at retries q0 (cs @ [c]) [] q'"
        using b st taken(2,5,9) unfolding batch_at_def
        by (auto simp: left_alone_def taken_at_def)
      moreover have "locked_by now q' (cs @ [c])"
        using lock taken(6,9) id by (auto simp: locked_by_def unlocked_def)
      ultimately show thesis using taken(4) by (intro got)
    qed
  qed
qed

lemma claim_batch_cases:
  fixes s :: "('s, 'x) worker_system"
  assumes "claim_batch wk n s = (x, s')" and b: "batch_at retries q0 cs [] (ws_queue s)" and ok0: "queue_ok q0"
    and lock: "locked_by (ws_now s) (ws_queue s) cs" "0 < wk_lock_seconds wk" and w: "ok (normalize_id (wk_id wk))"
  obtains (failed) "x = Inl ValidationError"
  | (claimed) new where "x = Inr new" and "batch_at retries q0 (cs @ new) [] (ws_queue s')" and "ws_now s' = ws_now s"
      and "new = [] \<Longrightarrow> 0 < n \<Longrightarrow> s' = s \<and> find (can_claim (ws_now s) (ws_queue s)) (q_order (ws_queue s)) = None"
  using assms(1,2,4)
proof (induction n arbitrary: cs s x thesis)
  case 0
  then show ?case by (auto simp: ret_def)
next
  case (Suc n)
  obtain y q' where run: "claim_next (ws_now s) (wk_id wk) (ws_now s + wk_lock_seconds wk) (ws_queue s) = (y, q')" by fastforce
  from Suc.prems(3) have step: "(case y of Inl e \<Rightarrow> (Inl e, s\<lparr>ws_queue := q'\<rparr>) | Inr None \<Rightarrow> (Inr [], s\<lparr>ws_queue := q'\<rparr>)
      | Inr (Some c) \<Rightarrow> bnd (claim_batch wk n) (\<lambda>cs. ret (c # cs)) (s\<lparr>ws_queue := q'\<rparr>)) = (x, s')"
    by (simp add: claim_work_def run bnd_def ret_def split: sum.splits option.splits)
  from Suc.prems(4) ok0 Suc.prems(5) lock(2) w run show ?case
  proof (cases rule: claim_one)
    case none
    with step Suc.prems(4) show ?thesis by (intro Suc.prems(2) [of "[]"]) auto
  next
    case failed
    with step show ?thesis by (intro Suc.prems(1)) simp
  next
    case (got c)
    obtain z t where rest: "claim_batch wk n (s\<lparr>ws_queue := q'\<rparr>) = (z, t)" by fastforce
    from step got(1) rest have x: "x = map_sum id ((#) c) z" "s' = t"
      by (auto simp: bnd_def ret_def split: sum.splits)
    from rest x(2) have rest: "claim_batch wk n (s\<lparr>ws_queue := q'\<rparr>) = (z, s')" by simp
    show ?thesis
    proof (rule Suc.IH [OF _ _ rest])
      show "batch_at retries q0 (cs @ [c]) [] (ws_queue (s\<lparr>ws_queue := q'\<rparr>))"
        "locked_by (ws_now (s\<lparr>ws_queue := q'\<rparr>)) (ws_queue (s\<lparr>ws_queue := q'\<rparr>)) (cs @ [c])" using got by simp_all
    next
      assume "z = Inl ValidationError"
      with x show ?thesis by (intro Suc.prems(1)) simp
    next
      fix new
      assume "z = Inr new" "batch_at retries q0 ((cs @ [c]) @ new) [] (ws_queue s')" "ws_now s' = ws_now (s\<lparr>ws_queue := q'\<rparr>)"
      with x show ?thesis by (intro Suc.prems(2) [of "c # new"]) simp_all
    qed
  qed
qed

section \<open>Working the batch off\<close>

lemma task_step_cases:
  fixes wk :: "('s, 'x) worker"
  assumes "task_step wk x s = (r, t)" and b: "batch_at (nat (wk_max_retries wk)) q0 (as @ task_claim x # bs) ids (ws_queue s)"
    and ok0: "queue_ok q0" and wk: "leaves_queue wk"
  obtains (raised) "r = Inl CancelledError"
  | (moved) y where "r = Inr (Some y)" and "task_claim y = task_claim x" and "ws_queue t = ws_queue s"
  | (ended) "r = Inr None" and "batch_at (nat (wk_max_retries wk)) q0 (as @ bs) (wc_command_id (task_claim x) # ids) (ws_queue t)"
proof -
  let ?c = "task_claim x"
  have "wc_command_id ?c \<in> set (q_order q0)" using batch_facts(4) [OF b] by auto
  with ok0 have id: "normalize_id (wc_command_id ?c) = Inr (wc_command_id ?c)" by (simp add: queue_ok_def)
  note settle = batch_settle [OF b refl]
  show thesis
  proof (cases x)
    case (Waiting c)
    show thesis
    proof (cases "prepare_dispatch wk c")
      case (Inl e)
      with Waiting assms(1) id have "r = Inr None" and "ws_queue t =
          (if prepare_retryable e \<and> int (wc_attempts ?c) \<le> wk_max_retries wk
           then retry_at (wc_command_id ?c) (ws_now s + wk_retry_delay wk) (ws_queue s)
           else settle_command (wc_command_id ?c) OUTBOX_DEAD_LETTER (ws_queue s))"
        by (auto simp: bnd_def ret_def mark_failure_run)
      then show thesis by (intro ended settle) auto
    next
      case (Inr work)
      with wk have "ws_queue (snd (work s)) = ws_queue s" by (simp add: leaves_queue_def)
      with Waiting Inr assms(1) show thesis
        by (intro moved [of "Handled c (fst (work s))"]) (auto split: prod.splits)
    qed
  next
    case (Handled c v)
    obtain z where z: "settle_claim wk c v s = (z, t)" "r = map_sum id (\<lambda>_. None) z"
      using assms(1) Handled by (cases "settle_claim wk c v s") (auto simp: bnd_def ret_def split: sum.splits)
    from z(1) id [unfolded Handled task_claim.simps] show thesis
    proof (cases rule: settle_claim_cases)
      case completed
      show thesis
      proof (cases "z = Inr ()")
        case True
        with z completed(1) Handled show thesis by (intro ended settle) auto
      next
        case False
        with z completed(2) show thesis by (intro raised) auto
      qed
    next
      case dead
      with z Handled show thesis by (intro ended settle) auto
    next
      case (again u)
      with z Handled show thesis by (intro ended settle) auto
    next
      case abandoned
      with z show thesis by (intro raised) simp
    qed
  qed
qed

lemma gather_batch:
  fixes wk :: "('s, 'x) worker"
  assumes "gather wk ts s = (r, t)" and "batch_at (nat (wk_max_retries wk)) q0 (map task_claim ts) ids (ws_queue s)"
    and ok0: "queue_ok q0" and wk: "leaves_queue wk"
  shows "r = Inl CancelledError \<or> r = Inr ()
    \<and> (\<exists>settled. batch_at (nat (wk_max_retries wk)) q0 [] settled (ws_queue t) \<and> length settled = length ts + length ids)"
  using assms(1,2)
proof (induction "sum_list (map task_moves ts)" arbitrary: ts ids s rule: less_induct)
  case less
  show ?case
  proof (cases "ts = []")
    case True
    with less(2,3) show ?thesis by auto
  next
    case False
    obtain as x bs where pk: "pick (wk_choose wk ts s) ts = (as, x, bs)" by (cases "pick (wk_choose wk ts s) ts") auto
    have ts: "ts = as @ x # bs" by (rule pick_split [OF False pk])
    obtain z u where step: "task_step wk x s = (z, u)" by fastforce
    have b: "batch_at (nat (wk_max_retries wk)) q0 (map task_claim as @ task_claim x # map task_claim bs) ids (ws_queue s)"
      using less(3) ts by simp
    from step b ok0 wk show ?thesis
    proof (cases rule: task_step_cases)
      case raised
      with less(2) False pk step show ?thesis by simp
    next
      case (moved y)
      have "task_moves y < task_moves x" using step moved(1) by (auto intro: task_step_moves)
      then have fewer: "sum_list (map task_moves (as @ y # bs)) < sum_list (map task_moves ts)" using ts by simp
      have "gather wk (as @ y # bs) u = (r, t)" using less(2) False pk step moved(1) by simp
      from less(1) [OF fewer this, of ids] less(3) moved ts show ?thesis by simp
    next
      case ended
      have fewer: "sum_list (map task_moves (as @ bs)) < sum_list (map task_moves ts)" using ts task_moves_pos by simp
      have "gather wk (as @ bs) u = (r, t)" using less(2) False pk step ended(1) by simp
      from less(1) [OF fewer this] ended(2) ts show ?thesis by fastforce
    qed
  qed
qed

section \<open>Properties\<close>

text \<open>A worker whose upkeep finds no work of its own, as one without an evaluation projection.\<close>

definition idle_upkeep :: "('s, 'x) worker \<Rightarrow> bool" where
  "idle_upkeep wk \<longleftrightarrow> (\<forall>s. \<exists>t. wk_upkeep wk s = (Inr False, t) \<and> ws_queue t = ws_queue s)"

lemma run_batch_cases:
  fixes s :: "('s, 'x) worker_system"
  assumes run: "run_batch wk s = (x, s')" and wk: "leaves_queue wk" "idle_upkeep wk" "ok (normalize_id (wk_id wk))"
    "0 < wk_lock_seconds wk" "0 < wk_parallel wk" and q: "queue_ok (ws_queue s)"
  obtains (stopped) e where "x = Inl e" and "e = ValidationError \<or> e = CancelledError"
  | (idle) "x = Inr (False, 0)" and "find (can_claim (ws_now s') (ws_queue s')) (q_order (ws_queue s')) = None"
  | (worked) m where "x = Inr (False, m)" and "0 < m" and "queue_ok (ws_queue s')"
      and "work_left (nat (wk_max_retries wk)) (ws_queue s') + m \<le> work_left (nat (wk_max_retries wk)) (ws_queue s)"
proof -
  obtain u where u: "wk_upkeep wk s = (Inr False, u)" "ws_queue u = ws_queue s" using wk(2) unfolding idle_upkeep_def by blast
  obtain y v where claimed: "claim_batch wk (wk_parallel wk) u = (y, v)" by fastforce
  have start: "batch_at (nat (wk_max_retries wk)) (ws_queue s) [] [] (ws_queue u)" "locked_by (ws_now u) (ws_queue u) []"
    using u(2) batch_start by (simp_all add: locked_by_def)
  note rules = stopped idle worked
  from claimed start(1) q start(2) wk(4,3) show thesis
  proof (cases rule: claim_batch_cases)
    case failed
    with run u(1) claimed show thesis by (intro rules(1)) (auto simp: run_batch_def bnd_def)
  next
    case (claimed cs)
    obtain z t where g: "gather wk (map Waiting cs) v = (z, t)" by fastforce
    have tasks: "map task_claim (map Waiting cs) = cs" by (induction cs) simp_all
    from run u(1) \<open>claim_batch wk (wk_parallel wk) u = (y, v)\<close> claimed(1) g
    have out: "x = (case z of Inl e \<Rightarrow> Inl e | Inr _ \<Rightarrow> Inr (False, length cs))" "s' = t"
      by (auto simp: run_batch_def bnd_def ret_def split: sum.splits)
    from gather_batch [OF g _ q wk(1), of "[]"] claimed(2) tasks
    consider "z = Inl CancelledError"
      | settled where "z = Inr ()" "batch_at (nat (wk_max_retries wk)) (ws_queue s) [] settled (ws_queue t)" "length settled = length cs"
      by auto
    then show thesis
    proof cases
      case 1
      with out show thesis by (intro rules(1) [of CancelledError]) simp_all
    next
      case 2
      show thesis
      proof (cases "cs = []")
        case True
        with claimed(4) wk(5) g have "t = u" "find (can_claim (ws_now u) (ws_queue u)) (q_order (ws_queue u)) = None" by simp_all
        with True out 2 show thesis by (intro rules(2)) simp_all
      next
        case False
        with 2 out batch_end [OF 2(2)] batch_ok [OF 2(2) q] show thesis by (intro rules(3)) simp_all
      qed
    qed
  qed
qed

text \<open>C12: The loop works a queue off. With handlers that leave the queue to the loop, and nothing else to
  project, \<open>run_until_idle\<close> always returns, whatever the size of its batches and in whatever order the
  tasks of a batch move: it processes at most as many claims as the queue's commands have left, and unless
  a claim record is invalid or a handler is cancelled, it ends with no command that is pending, due and
  unlocked.
\<close>

theorem run_until_idle_returns:
  assumes "leaves_queue wk" and "idle_upkeep wk" and "ok (normalize_id (wk_id wk))"
    and "0 < wk_lock_seconds wk" and "0 < wk_parallel wk" and "queue_ok (ws_queue s)"
  shows "\<exists>x t. run_until_idle wk n s = Some (x, t)
     \<and> (case x of Inl e \<Rightarrow> e = ValidationError \<or> e = CancelledError
       | Inr m \<Rightarrow> n \<le> m \<and> m \<le> n + work_left (nat (wk_max_retries wk)) (ws_queue s)
           \<and> find (can_claim (ws_now t) (ws_queue t)) (q_order (ws_queue t)) = None)"
  using assms(6)
proof (induction "work_left (nat (wk_max_retries wk)) (ws_queue s)" arbitrary: s n rule: less_induct)
  case less
  obtain x s' where run: "run_batch wk s = (x, s')" by fastforce
  from this assms(1-5) less(2) show ?case
  proof (cases rule: run_batch_cases)
    case (stopped e)
    with run show ?thesis by (subst run_until_idle.simps) auto
  next
    case idle
    with run show ?thesis by (subst run_until_idle.simps) auto
  next
    case (worked m)
    then have fewer: "work_left (nat (wk_max_retries wk)) (ws_queue s') < work_left (nat (wk_max_retries wk)) (ws_queue s)" by simp
    from less(1) [OF fewer worked(3), of "n + m"] run worked show ?thesis
      by (subst run_until_idle.simps) (fastforce split: sum.splits)
  qed
qed

definition sample_reconcile_command :: "string \<Rightarrow> runtime_reconcile_command" where
  "sample_reconcile_command i =
     \<lparr>qc_command_id = i, qc_org_id = ''org'', qc_run_id = ''run'', qc_claim_id = ''claim'', qc_created_at = 0\<rparr>"

definition sample_reconcile :: "string \<Rightarrow> unit work_payload" where
  "sample_reconcile i = \<lparr>qp_command_id = i, qp_command_type = ''effect_reconcile_requested'', qp_org_id = ''org'',
     qp_run_id = ''run'', qp_approval_id = None,
     qp_body = ReconcileBody (sample_reconcile_command i)\<rparr>"

text \<open>
  A worker that takes two commands at a time and always moves the last task; its reconciliation
  times out once, thirty units later.
\<close>

definition slow_reconcile :: "runtime_reconcile_command \<Rightarrow> (unit, unit) work" where
  "slow_reconcile c = (\<lambda>s. if ws_now s < 20 then (Inl TimeoutError, s\<lparr>ws_now := ws_now s + 30\<rparr>) else (Inr (), s))"

definition sample_worker :: "(unit, unit) worker" where
  "sample_worker = \<lparr>wk_id = ''worker'', wk_lock_seconds = 60, wk_retry_delay = 0, wk_max_retries = 2, wk_parallel = 2,
     wk_family = (\<lambda>_ _. Inl ValidationError), wk_commit = None, wk_reconcile = Some slow_reconcile,
     wk_cancel_requested = (\<lambda>_ _. False), wk_upkeep = ret False, wk_choose = (\<lambda>ts _. length ts - 1)\<rparr>"

definition sample_system :: "(unit, unit) worker_system" where
  "sample_system = \<lparr>ws_world = (), ws_queue = register 2 (sample_reconcile ''b'') (register 1 (sample_reconcile ''a'') empty_queue),
     ws_now = 9\<rparr>"

lemma sample_worker_leaves: "leaves_queue sample_worker" "idle_upkeep sample_worker"
  by (auto simp: leaves_queue_def sample_worker_def prepare_dispatch_def as_prepared_def prepare_reconcile_def
      slow_reconcile_def Let_def idle_upkeep_def ret_def split: if_splits sum.splits)

lemma sample_system_ok: "queue_ok (ws_queue sample_system)" "ok (normalize_id (wk_id sample_worker))"
proof -
  have "list_all queue_op_ok [Enqueue 1 (sample_reconcile ''a''), Enqueue 2 (sample_reconcile ''b'')]" by code_simp
  from run_queue_keeps [OF empty_ok this] show "queue_ok (ws_queue sample_system)"
    by (simp add: sample_system_def)
  show "ok (normalize_id (wk_id sample_worker))" by code_simp
qed

theorem run_until_idle_returns_witness:
  "\<exists>x t. run_until_idle sample_worker 0 sample_system = Some (x, t)
     \<and> (case x of Inl e \<Rightarrow> e = ValidationError \<or> e = CancelledError | Inr m \<Rightarrow> m \<le> 6)"
proof -
  have "work_left (nat (wk_max_retries sample_worker)) (ws_queue sample_system) = 6"
    by (simp add: work_left_def claims_left_def sample_worker_def sample_system_def register_def empty_queue_def
        sample_reconcile_def pollable_def Let_def)
  moreover have "0 < wk_lock_seconds sample_worker" "0 < wk_parallel sample_worker" by (simp_all add: sample_worker_def)
  ultimately show ?thesis
    using run_until_idle_returns [OF sample_worker_leaves sample_system_ok(2) _ _ sample_system_ok(1), of 0]
    by (fastforce split: sum.splits)
qed





text \<open>A sealed ledger dead-letters the command at once.\<close>

lemma sealed_is_dead_lettered:
  assumes "prepare_dispatch wk c = Inr work" and "work s = (Inl LedgerSealViolation, t)"
    and "normalize_id (wc_command_id c) = Inr (wc_command_id c)"
  shows "handle_claim wk c s = (Inr (), t\<lparr>ws_queue := settle_command (wc_command_id c) OUTBOX_DEAD_LETTER (ws_queue t)\<rparr>)"
  using assms by (simp add: handle_claim_def settle_claim_def is_exception_def error_retryable_def mark_failure_run)

end
