(* ===== verification/StagedDispatch.thy ===== *)
theory StagedDispatch
  imports CoordinatorWorlds
begin

text \<open>
  How the staged-write family reaches an executor: \<open>runtime_worker/staged_write_effect_dispatch.py\<close>
  turns an approved revision or row into a request of the shared dispatcher over the shared claim
  store, and \<open>runtime_worker/handlers/stage_commit.py\<close> sends the rows of a row set one after the
  other. The digest of a canonical JSON value and the MCP executor are parameters: the executor is
  a recording executor of the material it is built over.
\<close>

section \<open>The request of a staged write\<close>

record stage_commit_request =
  sw_org_id :: string
  sw_user_id :: string
  sw_run_id :: string
  sw_conversation_id :: string
  sw_stage_id :: string
  sw_rev :: int
  sw_decision_seq :: int
  sw_target_connector :: string
  sw_target_op :: string
  sw_body :: string
  sw_title :: string
  sw_target_metadata :: dict
  sw_row_key :: "string option"
  sw_row_args :: "dict option"

definition decimal :: "int \<Rightarrow> string" where
  "decimal n = (if n < 0 then CHR ''-'' # dec (nat (- n)) else dec (nat n))"

definition commit_key :: "stage_commit_request \<Rightarrow> string" where
  "commit_key r = (let base = sw_stage_id r @ '':'' @ decimal (sw_rev r) @ '':'' @ decimal (sw_decision_seq r) in
     (case sw_row_key r of None \<Rightarrow> base | Some k \<Rightarrow> base @ '':'' @ k))"

definition tool_arguments :: "stage_commit_request \<Rightarrow> dict" where
  "tool_arguments r = (case sw_row_args r of
       Some args \<Rightarrow> args
     | None \<Rightarrow> [(''body'', JStr (sw_body r))]
         @ (if sw_title r = [] then [] else [(''title'', JStr (sw_title r))])
         @ (if sw_target_metadata r = [] then [] else [(''target_metadata'', JObj (sw_target_metadata r))]))"

section \<open>Target references\<close>

text \<open>\<open>str.isalnum\<close>, on Latin-1.\<close>

definition py_alnum :: "char \<Rightarrow> bool" where
  "py_alnum c \<longleftrightarrow> is_alnum c \<or> code c \<in> {170, 178, 179, 181, 185, 186, 188, 189, 190}
     \<or> 192 \<le> code c \<and> code c \<notin> {215, 247}"

definition or_unknown :: "string \<Rightarrow> string" where
  "or_unknown s = (if take 128 s = [] then ''unknown'' else take 128 s)"

definition normalize_operation :: "string \<Rightarrow> string" where
  "normalize_operation v =
     or_unknown (map (\<lambda>c. if py_alnum c \<or> c \<in> {CHR ''.'', CHR ''_'', CHR ''-''} then c else CHR ''_'') (lower (strip v)))"

text \<open>\<open>re.sub\<close> of every run of other characters by one dash; the flag tells that a dash has been written.\<close>

fun dash_runs :: "bool \<Rightarrow> string \<Rightarrow> string" where
  "dash_runs dashed [] = []"
| "dash_runs dashed (c # cs) = (if is_lower c \<or> is_digit c then c # dash_runs False cs
     else if dashed then dash_runs True cs else CHR ''-'' # dash_runs True cs)"

definition strip_dashes :: "string \<Rightarrow> string" where
  "strip_dashes s = rev (dropWhile ((=) (CHR ''-'')) (rev (dropWhile ((=) (CHR ''-'')) s)))"

definition after_colon :: "string \<Rightarrow> string" where
  "after_colon s = rev (takeWhile ((\<noteq>) (CHR '':'')) (rev s))"

definition server_slug :: "string \<Rightarrow> string" where
  "server_slug v = strip_dashes (dash_runs False (after_colon (lower (strip v))))"

definition mcp_target_ref :: "string \<Rightarrow> string \<Rightarrow> string" where
  "mcp_target_ref capability op = ''mcp-target://'' @ or_unknown (server_slug capability) @ ''/'' @ normalize_operation op"

section \<open>The material\<close>

record effect_material =
  em_target_connector :: string
  em_target_op :: string
  em_arguments :: dict
  em_target_ref :: string
  em_target_digest :: string
  em_proposal_ref :: string
  em_content_ref :: string
  em_proposal_digest :: string
  em_arguments_digest :: "string option"
  em_row_key :: "string option"

definition stable_name :: "string \<Rightarrow> bool" where
  "stable_name v \<longleftrightarrow> v \<noteq> [] \<and> length v \<le> 255 \<and> v = strip v \<and> CHR 0x0A \<notin> set v \<and> CHR 0x0D \<notin> set v"

definition effect_material_make :: "(json \<Rightarrow> string result) \<Rightarrow> effect_material \<Rightarrow> effect_material result" where
  "effect_material_make digest m =
     (if stable_name (em_target_connector m) \<and> stable_name (em_target_op m)
         \<and> em_target_ref m \<noteq> [] \<and> length (em_target_ref m) \<le> 2048 \<and> is_sha256_hex (em_target_digest m)
         \<and> em_proposal_ref m \<noteq> [] \<and> length (em_proposal_ref m) \<le> 2048
         \<and> em_content_ref m \<noteq> [] \<and> length (em_content_ref m) \<le> 2048 \<and> immutable_content_ref (em_content_ref m)
         \<and> is_sha256_hex (em_proposal_digest m) \<and> opt_ok is_sha256_hex (em_arguments_digest m)
         \<and> opt_ok (\<lambda>k. k \<noteq> [] \<and> length k \<le> 255) (em_row_key m)
         \<and> digest (JObj (em_arguments m))
             = Inr (case em_arguments_digest m of Some d \<Rightarrow> d | None \<Rightarrow> em_proposal_digest m)
      then Inr m else Inl ValidationError)"

text \<open>The resolver hands the executor its one material, for the request it was built for.\<close>

definition resolve_material :: "effect_material \<Rightarrow> dispatch_request \<Rightarrow> effect_material option" where
  "resolve_material m req =
     (if dr_target_ref req \<noteq> em_target_ref m \<or> dr_target_digest req \<noteq> em_target_digest m
         \<or> dr_proposal_ref req \<noteq> em_proposal_ref m \<or> dr_content_ref req \<noteq> em_content_ref m
         \<or> dr_proposal_digest req \<noteq> em_proposal_digest m
      then None else Some m)"

section \<open>The dispatch\<close>

text \<open>
  What the worker composes the adapter from: the shared claim store, the digest and the executor over
  a scope and a resolver.
\<close>

record 'z staged_dispatcher =
  sd_env :: event_env
  sd_claims :: "'z recorder_world_scheme claim_port"
  sd_digest :: "json \<Rightarrow> string result"
  sd_executor :: "execution_scope \<Rightarrow> (dispatch_request \<Rightarrow> effect_material option) \<Rightarrow> recording"

definition staged_request ::
  "(json \<Rightarrow> string result) \<Rightarrow> stage_commit_request \<Rightarrow> string \<Rightarrow> effect_actor \<Rightarrow> dispatch_request result" where
  "staged_request digest r proposal_ref actor =
     rbind (digest (JObj (tool_arguments r))) (\<lambda>proposal_digest.
     rbind (digest (JObj [(''capability'', JStr (sw_target_connector r)), (''op'', JStr (sw_target_op r))])) (\<lambda>target_digest.
     dispatch_request_make
       \<lparr>dr_stage_id = sw_stage_id r, dr_revision = sw_rev r, dr_idempotency_key = ''stage-commit:'' @ commit_key r,
        dr_executor = MCP, dr_target_ref = mcp_target_ref (sw_target_connector r) (sw_target_op r),
        dr_target_digest = target_digest, dr_proposal_ref = proposal_ref, dr_content_ref = proposal_ref,
        dr_proposal_digest = proposal_digest, dr_actor = actor,
        dr_decision_ledger_id = ''stage-decision-'' @ decimal (sw_decision_seq r), dr_row_keys = None\<rparr>))"

definition staged_material :: "stage_commit_request \<Rightarrow> dispatch_request \<Rightarrow> effect_material" where
  "staged_material r req =
     \<lparr>em_target_connector = sw_target_connector r, em_target_op = sw_target_op r, em_arguments = tool_arguments r,
      em_target_ref = dr_target_ref req, em_target_digest = dr_target_digest req, em_proposal_ref = dr_proposal_ref req,
      em_content_ref = dr_content_ref req, em_proposal_digest = dr_proposal_digest req, em_arguments_digest = None,
      em_row_key = sw_row_key r\<rparr>"

definition staged_call ::
  "'z staged_dispatcher \<Rightarrow> execution_scope \<Rightarrow> dispatch_request \<Rightarrow> effect_material \<Rightarrow> 'z recorder_world_scheme dispatch_call" where
  "staged_call d xs req m =
     \<lparr>dl_scope = xs, dl_request = req,
      dl_executor = recording_executor ((sd_executor d xs (resolve_material m))\<lparr>rec_kind := MCP\<rparr>),
      dl_expected_digest = None, dl_cancellation = None, dl_observer = None\<rparr>"

definition staged_dispatch ::
  "'z staged_dispatcher \<Rightarrow> execution_scope \<Rightarrow> stage_commit_request \<Rightarrow> string \<Rightarrow> effect_actor
     \<Rightarrow> ('z recorder_world_scheme, dispatch_result) eff" where
  "staged_dispatch d xs r proposal_ref actor =
     bnd (lift (staged_request (sd_digest d) r proposal_ref actor)) (\<lambda>req.
     bnd (lift (effect_material_make (sd_digest d) (staged_material r req))) (\<lambda>m.
     dispatch (runtime_dispatcher (sd_env d) (sd_claims d)) (staged_call d xs req m)))"

section \<open>The handler's sends\<close>

text \<open>
  \<open>_dispatch\<close>: without a dispatcher, the revision or a known actor nothing is sent. The scope is
  that of the run.
\<close>

definition send_one ::
  "'z staged_dispatcher option \<Rightarrow> run_record \<Rightarrow> string option \<Rightarrow> effect_actor option \<Rightarrow> stage_commit_request
     \<Rightarrow> ('z recorder_world_scheme, dispatch_result option) eff" where
  "send_one factory run proposal_ref actor r = (case factory of
       None \<Rightarrow> ret None
     | Some d \<Rightarrow> (case proposal_ref of
         None \<Rightarrow> ret None
       | Some p \<Rightarrow> (case actor of
           None \<Rightarrow> ret None
         | Some a \<Rightarrow>
             bnd (lift (execution_scope_make (run_scope run))) (\<lambda>_.
             bnd (staged_dispatch d (run_scope run) r p a) (\<lambda>x. ret (Some x))))))"

definition row_applied :: "dispatch_result option \<Rightarrow> bool" where
  "row_applied x = (case x of None \<Rightarrow> False | Some y \<Rightarrow> ds_outcome y = Some APPLIED)"

text \<open>The rows of a plan, each sent and audited before the next one.\<close>

fun send_rows ::
  "(stage_commit_request \<Rightarrow> ('s, dispatch_result option) eff) \<Rightarrow> (stage_commit_request \<Rightarrow> bool \<Rightarrow> ('s, unit) eff)
     \<Rightarrow> stage_commit_request list \<Rightarrow> ('s, (string option \<times> bool) list) eff" where
  "send_rows send audit [] = ret []"
| "send_rows send audit (r # rs) =
     bnd (send r) (\<lambda>x.
     bnd (audit r (row_applied x)) (\<lambda>_.
     bnd (send_rows send audit rs) (\<lambda>results. ret ((sw_row_key r, row_applied x) # results))))"

definition aggregate_result :: "(string option \<times> bool) list \<Rightarrow> string" where
  "aggregate_result results =
     (if list_all snd results then ''applied'' else if \<not> list_ex snd results then ''failed'' else ''partial'')"

end
