(* ===== verification/RedeliveryProperties.thy ===== *)
theory RedeliveryProperties
  imports WorkerLoopProperties RolloutProperties StagedDispatch
begin

text \<open>
  Redelivery: the queue hands a command out again whenever a lock runs out, a worker dies or a
  failure is reported, so what keeps an effect from happening twice is the claim store. The loop,
  the queue and the effect handlers are composed here.
\<close>

section \<open>Claims only grow\<close>

context coordinating
begin

definition grows :: "'s \<Rightarrow> 's \<Rightarrow> bool" where
  "grows s t \<longleftrightarrow> (ready s \<longrightarrow> ready t \<and> held s \<subseteq> held t)"

lemma grows_order [keeps_intros]: "reflp grows" "transp grows"
  by (auto simp: grows_def reflp_def transp_def)

lemma calm_grows: "calm m \<Longrightarrow> keeps grows m"
  by (auto simp: keeps_def same_claims_def grows_def)

lemma dispatch_grows:
  assumes "registry_resolve (co_executors co) kind xs' = Inr ex"
  shows "keeps grows (dispatch (co_dispatcher co) (commit_call co xs sc st cmd req ex))"
proof (rule keepsI)
  fix s r t
  assume run: "dispatch (co_dispatcher co) (commit_call co xs sc st cmd req ex) s = (r, t)"
  show "grows s t" unfolding grows_def
  proof
    assume s: "ready s"
    from dispatch_run [OF commit_call_behaves [OF assms] s run [unfolded coordinator_dispatcher]]
    show "ready t \<and> held s \<subseteq> held t"
      unfolding quiet_def took_def unapplied_def applied_once_def by (elim disjE exE conjE) simp_all
  qed
qed

lemma dispatch_commit_grows: "keeps grows (dispatch_commit co xs sc st cmd)"
proof (rule keepsI)
  fix s r t
  assume run: "dispatch_commit co xs sc st cmd s = (r, t)"
  show "grows s t"
  proof (cases "registry_resolve (co_executors co) (st_executor st) xs")
    case (Inl e)
    have "keeps grows (bnd (lift (request_of st cmd)) (\<lambda>req. throw e))" by (intro keeps_intros)
    moreover have "dispatch_commit co xs sc st cmd = bnd (lift (request_of st cmd)) (\<lambda>req. throw e)"
      using Inl by (simp add: dispatch_commit_def eff_simps)
    ultimately show ?thesis using run by (metis keepsD)
  next
    case (Inr ex)
    have "keeps grows (bnd (lift (request_of st cmd)) (\<lambda>req.
        bnd (dispatch (co_dispatcher co) (commit_call co xs sc st cmd req ex)) (\<lambda>x.
        if ds_status x = DISPATCH_DRIFT then report_drift co sc st cmd else result_from_dispatch co sc st cmd x)))"
      by (intro keeps_intros dispatch_grows [OF Inr] calm_grows)
    moreover have "dispatch_commit co xs sc st cmd = bnd (lift (request_of st cmd)) (\<lambda>req.
        bnd (dispatch (co_dispatcher co) (commit_call co xs sc st cmd req ex)) (\<lambda>x.
        if ds_status x = DISPATCH_DRIFT then report_drift co sc st cmd else result_from_dispatch co sc st cmd x))"
      using Inr by (simp add: dispatch_commit_def eff_simps)
    ultimately show ?thesis using run by (metis keepsD)
  qed
qed

lemma handle_grows: "keeps grows (handle co cmd)"
proof -
  have scoped: "keeps grows (handle_scoped co xs cmd)" for xs
    unfolding handle_scoped_def
    by (intro keeps_intros calm_grows dispatch_commit_grows)
  show ?thesis unfolding handle_def by (intro keeps_intros calm_grows resolve_calm scoped)
qed

end

section \<open>One delivery\<close>

definition effect_key :: "string \<Rightarrow> prepared_effect \<Rightarrow> claim_key option" where
  "effect_key org p = (case pf_request p of
       DispatchRequest req \<Rightarrow> Some (org, dr_executor req, dr_idempotency_key req)
     | ExecutionRequest \<Rightarrow> None)"

text \<open>
  What a step of the worker does to the claims and the applications of an organization's effects:
  nothing is released, and whatever it applies takes a key of the claim store that was free.
\<close>

definition fresh_keys :: "'k option list \<Rightarrow> 'k set \<Rightarrow> 'k set \<Rightarrow> bool" where
  "fresh_keys ks old new \<longleftrightarrow> distinct ks \<and> None \<notin> set ks \<and> (\<forall>k. Some k \<in> set ks \<longrightarrow> k \<notin> old \<and> k \<in> new)"

definition takes_fresh :: "(string \<Rightarrow> string) \<Rightarrow> string \<Rightarrow> 'z file_world_scheme \<Rightarrow> 'z file_world_scheme \<Rightarrow> bool" where
  "takes_fresh hash org w w' \<longleftrightarrow> (file_ready hash w \<longrightarrow> file_ready hash w' \<and> file_held hash w \<subseteq> file_held hash w'
     \<and> (\<exists>ps. rx_applied w' = rx_applied w @ ps
           \<and> fresh_keys (map (effect_key org) ps) (file_held hash w) (file_held hash w')))"

lemma fresh_distinct:
  assumes "fresh_keys ks a b" and "distinct ls" and "None \<notin> set ls" and "\<And>k. Some k \<in> set ls \<Longrightarrow> k \<notin> b"
  shows "distinct (ks @ ls)"
proof -
  have "x \<notin> set ls" if x: "x \<in> set ks" for x
  proof (cases x)
    case None
    then show ?thesis using assms(3) by simp
  next
    case (Some k)
    with x assms(1) have "k \<in> b" by (simp add: fresh_keys_def)
    with assms(4) Some show ?thesis by blast
  qed
  then show ?thesis using assms(1,2) by (auto simp: fresh_keys_def)
qed

lemma fresh_append:
  assumes ks: "fresh_keys ks a b" and ls: "fresh_keys ls b c" and "a \<subseteq> b" and "b \<subseteq> c"
  shows "fresh_keys (ks @ ls) a c"
proof -
  have "distinct (ks @ ls)" by (rule fresh_distinct [OF ks]) (use ls in \<open>simp_all add: fresh_keys_def\<close>)
  moreover have "None \<notin> set (ks @ ls)" using ks ls by (simp add: fresh_keys_def)
  moreover have "k \<notin> a \<and> k \<in> c" if "Some k \<in> set (ks @ ls)" for k
    using that assms unfolding fresh_keys_def set_append by blast
  ultimately show ?thesis by (simp add: fresh_keys_def)
qed

lemma takes_order [keeps_intros]: "reflp (takes_fresh hash org)" "transp (takes_fresh hash org)"
proof -
  show "reflp (takes_fresh hash org)" by (auto simp: reflp_def takes_fresh_def fresh_keys_def)
  show "transp (takes_fresh hash org)"
  proof (rule transpI)
    fix u v w assume uv: "takes_fresh hash org u v" and vw: "takes_fresh hash org v w"
    show "takes_fresh hash org u w" unfolding takes_fresh_def
    proof
      assume u: "file_ready hash u"
      with uv obtain ps where ps: "file_ready hash v" "file_held hash u \<subseteq> file_held hash v" "rx_applied v = rx_applied u @ ps"
        "fresh_keys (map (effect_key org) ps) (file_held hash u) (file_held hash v)" by (auto simp: takes_fresh_def)
      with vw obtain qs where qs: "file_ready hash w" "file_held hash v \<subseteq> file_held hash w" "rx_applied w = rx_applied v @ qs"
        "fresh_keys (map (effect_key org) qs) (file_held hash v) (file_held hash w)" by (auto simp: takes_fresh_def)
      from fresh_append [OF ps(4) qs(4) ps(2) qs(2)] ps qs
      show "file_ready hash w \<and> file_held hash u \<subseteq> file_held hash w \<and> (\<exists>rs. rx_applied w = rx_applied u @ rs
          \<and> fresh_keys (map (effect_key org) rs) (file_held hash u) (file_held hash w))" by auto
    qed
  qed
qed

lemma takes_refl: "takes_fresh hash org w w"
  by (rule reflpD [OF takes_order(1)])

lemma takes_one:
  assumes "file_ready hash w \<Longrightarrow> file_ready hash w' \<and> file_held hash w \<subseteq> file_held hash w'
     \<and> (rx_applied w' = rx_applied w \<or> (\<exists>p k. rx_applied w' = rx_applied w @ [p] \<and> effect_key org p = Some k
          \<and> k \<notin> file_held hash w \<and> k \<in> file_held hash w'))"
  shows "takes_fresh hash org w w'"
  unfolding takes_fresh_def
proof
  assume "file_ready hash w"
  from assms [OF this] have kept: "file_ready hash w'" "file_held hash w \<subseteq> file_held hash w'"
    and "rx_applied w' = rx_applied w \<or> (\<exists>p k. rx_applied w' = rx_applied w @ [p] \<and> effect_key org p = Some k
          \<and> k \<notin> file_held hash w \<and> k \<in> file_held hash w')" by simp_all
  from this(3) have "\<exists>ps. rx_applied w' = rx_applied w @ ps \<and> fresh_keys (map (effect_key org) ps) (file_held hash w) (file_held hash w')"
  proof
    assume "rx_applied w' = rx_applied w"
    then show ?thesis by (intro exI [of _ "[]"]) (simp add: fresh_keys_def)
  next
    assume "\<exists>p k. rx_applied w' = rx_applied w @ [p] \<and> effect_key org p = Some k \<and> k \<notin> file_held hash w \<and> k \<in> file_held hash w'"
    then obtain p where "rx_applied w' = rx_applied w @ [p]"
      "\<exists>k. effect_key org p = Some k \<and> k \<notin> file_held hash w \<and> k \<in> file_held hash w'" by blast
    then show ?thesis by (intro exI [of _ "[p]"]) (auto simp: fresh_keys_def)
  qed
  with kept show "file_ready hash w' \<and> file_held hash w \<subseteq> file_held hash w' \<and> (\<exists>ps. rx_applied w' = rx_applied w @ ps
      \<and> fresh_keys (map (effect_key org) ps) (file_held hash w) (file_held hash w'))" by simp
qed

lemma delivery_takes:
  assumes "gated_commit_worker a (commit_worker (for_run env (file_claim_port hash) fs content)) cmd w = (r, w')"
  shows "takes_fresh hash (rc_org_id cmd) w w'"
  using assms
proof (cases rule: gated_cases)
  case (refused e)
  then show ?thesis by (simp add: takes_refl)
next
  case (admitted run k)
  from admitted(8) show ?thesis
  proof (cases rule: commit_worker_cases)
    case (refused e)
    then show ?thesis by (simp add: takes_refl)
  next
    case (handled run' co q)
    then have co: "co = runtime_coordinator env (file_claim_port hash) fs content run'" and run: "run' = run"
      using for_run_coordinator admitted(1) by auto
    note delivery = handled(6) [unfolded co]
    show ?thesis
    proof (rule takes_one)
      assume ready: "file_ready hash w"
      have grown: "file_ready hash w'" "file_held hash w \<subseteq> file_held hash w'"
        using keepsD [OF fco.handle_grows delivery] ready by (simp_all add: fco.grows_def)
      have "\<exists>p k. rx_applied w' = rx_applied w @ [p] \<and> effect_key (rc_org_id cmd) p = Some k
          \<and> k \<notin> file_held hash w \<and> k \<in> file_held hash w'" if "rx_applied w' \<noteq> rx_applied w"
      proof -
        from runtime_delivery [OF ready delivery that] obtain st req p c where
          p: "rx_applied w' = rx_applied w @ [p]" "pf_request p = DispatchRequest req"
          and req: "request_of st (pure_commit cmd) = Inr req"
          and free: "(rn_org_id run', st_executor st, cc_idempotency_key (pure_commit cmd)) \<notin> file_held hash w"
          and stored: "file_stored hash w' (rn_org_id run', st_executor st, cc_idempotency_key (pure_commit cmd)) = Some c"
          by auto
        from fc.stored_held [OF grown(1) stored]
        have "(rn_org_id run', st_executor st, cc_idempotency_key (pure_commit cmd)) \<in> file_held hash w'" by simp
        with p free request_of_key [OF req] run admitted(2) show ?thesis by (auto simp: effect_key_def)
      qed
      with grown show "file_ready hash w' \<and> file_held hash w \<subseteq> file_held hash w'
        \<and> (rx_applied w' = rx_applied w
           \<or> (\<exists>p k. rx_applied w' = rx_applied w @ [p] \<and> effect_key (rc_org_id cmd) p = Some k
                \<and> k \<notin> file_held hash w \<and> k \<in> file_held hash w'))" by blast
    qed
  qed
qed

section \<open>One reconciliation\<close>

definition claims_kept :: "(string \<Rightarrow> string) \<Rightarrow> 'z file_world_scheme \<Rightarrow> 'z file_world_scheme \<Rightarrow> bool" where
  "claims_kept hash w w' \<longleftrightarrow> (file_ready hash w \<longrightarrow>
     file_ready hash w' \<and> file_held hash w \<subseteq> file_held hash w' \<and> rx_applied w' = rx_applied w)"

lemma claims_kept_order [keeps_intros]: "reflp (claims_kept hash)" "transp (claims_kept hash)"
  by (auto simp: claims_kept_def reflp_def transp_def)

lemma claims_kept_takes: "claims_kept hash w w' \<Longrightarrow> takes_fresh hash org w w'"
  by (intro takes_one) (simp add: claims_kept_def)

section \<open>The staged writes\<close>

text \<open>
  The staged-write family applies through the same dispatcher: a revision, a row, or the rows of a
  set one after the other take free keys, whatever executor they are sent to.
\<close>

lemma staged_dispatch_takes:
  assumes "sd_claims d = file_claim_port hash" and "xs_org_id xs = org"
  shows "keeps (takes_fresh hash org) (staged_dispatch d xs r proposal_ref actor)"
proof -
  have "keeps (takes_fresh hash org) (dispatch (runtime_dispatcher (sd_env d) (sd_claims d)) (staged_call d xs req m))" for req m
  proof (rule keepsI)
    fix w x w'
    let ?call = "staged_call d xs req m"
    assume run: "dispatch (runtime_dispatcher (sd_env d) (sd_claims d)) ?call w = (x, w')"
    have behaved: "fd.well_behaved hash ?call"
      unfolding fd.well_behaved_def by (auto simp: staged_call_def recorder_defs Let_def keeps_def fd.same_claims_def)
    have key: "effect_key org p = Some (call_key ?call)" if "pf_request p = DispatchRequest (dl_request ?call)" for p
      using that assms(2) by (simp add: effect_key_def call_key_def staged_call_def)
    show "takes_fresh hash org w w'"
    proof (rule takes_one)
      assume ready: "file_ready hash w"
      from fd.dispatch_run [OF behaved ready run [unfolded assms(1)]]
      show "file_ready hash w' \<and> file_held hash w \<subseteq> file_held hash w'
        \<and> (rx_applied w' = rx_applied w \<or> (\<exists>p k. rx_applied w' = rx_applied w @ [p] \<and> effect_key org p = Some k
             \<and> k \<notin> file_held hash w \<and> k \<in> file_held hash w'))"
      proof
        assume "fd.quiet hash ?call w x w'"
        then show ?thesis by (simp add: fd.quiet_def)
      next
        assume "fd.took hash ?call w x w'"
        then obtain p c u where took: "fd.fresh_claim ?call p c" "call_key ?call \<notin> file_held hash w"
            "call_key ?call \<in> file_held hash u" "file_held hash w \<subseteq> file_held hash u" "rx_applied u = rx_applied w"
          and "fd.unapplied hash c u x w' \<or> fd.applied_once hash c p u x w'"
          unfolding fd.took_def by blast
        from this(6) have u: "file_ready hash w'" "file_held hash w' = file_held hash u"
          "rx_applied w' = rx_applied u \<or> rx_applied w' = rx_applied u @ [p]"
          unfolding fd.unapplied_def fd.applied_once_def by blast+
        have "effect_key org p = Some (call_key ?call)" using key took(1) by (simp add: fd.fresh_claim_def)
        with u took(2-5) show ?thesis by (cases "call_key ?call") auto
      qed
    qed
  qed
  then show ?thesis unfolding staged_dispatch_def by (intro keeps_intros)
qed

lemma send_one_takes:
  assumes "\<And>d. factory = Some d \<Longrightarrow> sd_claims d = file_claim_port hash" and "rn_org_id run = org"
  shows "keeps (takes_fresh hash org) (send_one factory run proposal_ref actor r)"
proof (cases "\<exists>d p a. factory = Some d \<and> proposal_ref = Some p \<and> actor = Some a")
  case True
  then obtain d p a where "factory = Some d" "proposal_ref = Some p" "actor = Some a" by blast
  with assms staged_dispatch_takes [of d hash "run_scope run" org] show ?thesis
    by (auto simp: send_one_def run_scope_def intro!: keeps_intros)
next
  case False
  then have "send_one factory run proposal_ref actor r = ret None"
    by (auto simp: send_one_def split: option.splits)
  then show ?thesis by (simp add: keeps_ret takes_order)
qed

lemma send_rows_takes:
  assumes "\<And>r. keeps (takes_fresh hash org) (send r)" and "\<And>r b. keeps (takes_fresh hash org) (audit r b)"
  shows "keeps (takes_fresh hash org) (send_rows send audit rs)"
  by (induction rs) (auto intro!: keeps_intros assms)

section \<open>Reconciliation and the other families\<close>

lemma reconcile_keeps_claims:
  "keeps (claims_kept hash) (reconcile (runtime_coordinator env (file_claim_port hash) fs content run) cmd)"
proof (rule keepsI)
  fix w r w'
  assume "reconcile (runtime_coordinator env (file_claim_port hash) fs content run) cmd w = (r, w')"
  from fco.reconcile_run [OF _ this] show "claims_kept hash w w'"
    by (auto simp: claims_kept_def fd.same_claims_def fco.reconciled_def)
qed

lemma lookup_keeps_claims:
  "keeps (claims_kept hash) (cp_get_by_id (file_claim_port hash) org cid)"
  "keeps (claims_kept hash) (load_verified_run org run_id)"
proof -
  show "keeps (claims_kept hash) (cp_get_by_id (file_claim_port hash) org cid)"
  proof (rule keepsI)
    fix w r w'
    assume run: "cp_get_by_id (file_claim_port hash) org cid w = (r, w')"
    from fc.get_by_id_outcome [OF _ run] fd.get_by_id_applies_nothing [OF run] show "claims_kept hash w w'"
      by (auto simp: claims_kept_def)
  qed
  show "keeps (claims_kept hash) (load_verified_run org run_id)"
    by (rule keepsI) (auto dest: load_verified_run_keeps simp: claims_kept_def)
qed

text \<open>
  An audit emitter and an upkeep that write no claim and apply nothing, and handlers of the other
  families that release no claim, and whose every application takes a free key under the command's
  organisation, as the staged writes' do.
\<close>

definition calm_emitter ::
  "(string \<Rightarrow> string) \<Rightarrow> (run_record \<Rightarrow> effect_claim \<Rightarrow> string \<Rightarrow> string \<Rightarrow> ('z file_world_scheme, unit) eff) option \<Rightarrow> bool" where
  "calm_emitter hash emitter \<longleftrightarrow>
     (\<forall>emit run c a b. emitter = Some emit \<longrightarrow> keeps (claims_kept hash) (emit run c a b))"

definition claiming_families :: "(string \<Rightarrow> string) \<Rightarrow> ('z file_world_scheme, 'x) worker \<Rightarrow> bool" where
  "claiming_families hash wk \<longleftrightarrow>
     (\<forall>ty p other s. wk_family wk ty p = Inr other \<longrightarrow> takes_fresh hash (qp_org_id p) (ws_world s) (ws_world (snd (other s))))"

definition calm_upkeep :: "(string \<Rightarrow> string) \<Rightarrow> ('z file_world_scheme, 'x) worker \<Rightarrow> bool" where
  "calm_upkeep hash wk \<longleftrightarrow> (\<forall>s. claims_kept hash (ws_world s) (ws_world (snd (wk_upkeep wk s))))"

lemma reconcile_worker_keeps_claims:
  assumes "calm_emitter hash emitter"
  shows "keeps (claims_kept hash) (reconcile_worker (file_claim_port hash) (for_run env (file_claim_port hash) fs content) emitter cmd)"
proof -
  have "keeps (claims_kept hash) (bnd (lift (for_run env (file_claim_port hash) fs content run)) (\<lambda>co.
      bnd (reconcile co rc) (\<lambda>x. case emitter of None \<Rightarrow> ret ()
       | Some emit \<Rightarrow> catch (emit run claim (safe_result_field (coordinator_status_value (cr_status x)))
            (safe_result_field (cr_safe_code x))) (\<lambda>_. ret ()))))" for run claim rc
  proof (cases "for_run env (file_claim_port hash) fs content run")
    case (Inl e)
    then show ?thesis by (simp add: eff_simps) (intro keeps_intros)
  next
    case (Inr co)
    have "keeps (claims_kept hash) (case emitter of None \<Rightarrow> ret ()
       | Some emit \<Rightarrow> catch (emit run claim v u) (\<lambda>_. ret ()))" for v u
    proof (cases emitter)
      case None
      then show ?thesis by simp (intro keeps_intros)
    next
      case (Some emit)
      then show ?thesis by simp (intro keeps_intros assms [unfolded calm_emitter_def, rule_format, OF Some])
    qed
    with Inr for_run_coordinator [OF Inr] show ?thesis
      by (simp add: eff_simps) (intro keeps_bnd [OF claims_kept_order(2)] reconcile_keeps_claims)
  qed
  note tail = this
  show ?thesis unfolding reconcile_worker_def
    by (rule tail lookup_keeps_claims | rule keeps_intros)+
qed

section \<open>One pass of the loop\<close>

lemma in_world_world: "ws_world (snd (in_world m s)) = snd (m (ws_world s))"
  by (simp add: in_world_def split: prod.split)

lemma complete_world: "ws_world (snd (complete_claim c s)) = ws_world s"
  by (auto simp: complete_claim_def bnd_def lift_def on_queue_def split: sum.split)

lemma failure_world: "ws_world (snd (mark_failure wk c b s)) = ws_world s"
  by (auto simp: mark_failure_def bnd_def lift_def on_queue_def split: sum.split)

lemma settle_world: "ws_world (snd (settle_claim wk c r s)) = ws_world s"
proof -
  have "ws_world (snd (bnd (complete_claim c) (\<lambda>_. throw e) s)) = ws_world s" for e
    using complete_world [of c s] by (cases "complete_claim c s") (auto simp: bnd_def throw_def split: sum.splits)
  then show ?thesis
    by (auto simp: settle_claim_def complete_world failure_world split: sum.split)
qed

lemma handle_claim_world:
  assumes "handle_claim wk c s = (x, s')"
  shows "ws_world s' = ws_world s \<or> (\<exists>work. prepare_dispatch wk c = Inr work \<and> ws_world s' = ws_world (snd (work s)))"
proof (cases "prepare_dispatch wk c")
  case (Inl e)
  with assms failure_world [of wk c "prepare_retryable e" s] show ?thesis by (simp add: handle_claim_def)
next
  case (Inr work)
  obtain r t where run: "work s = (r, t)" by fastforce
  with assms Inr settle_world [of wk c r t] show ?thesis by (simp add: handle_claim_def)
qed

lemma prepared_takes:
  fixes wk :: "('z file_world_scheme, 'x) worker"
  assumes "prepare_dispatch (effect_worker a (file_claim_port hash) (for_run env (file_claim_port hash) fs content) emitter wk) c
      = Inr work"
    and emitter: "calm_emitter hash emitter" and family: "claiming_families hash wk"
  shows "takes_fresh hash (qp_org_id (wc_payload c)) (ws_world s) (ws_world (snd (work s)))"
proof -
  let ?f = "for_run env (file_claim_port hash) fs content"
  consider (family) ty where "wk_family wk ty (wc_payload c) = Inr work"
    | (commit) cmd where "decode_commit (wc_payload c) = Inr cmd"
        and "work = in_world (gated_commit_worker a (commit_worker ?f) cmd)"
    | (reconcile) cmd where "work = in_world (reconcile_worker (file_claim_port hash) ?f emitter cmd)"
    using assms(1) by (cases "decode_commit (wc_payload c)")
      (auto simp: prepare_dispatch_def effect_worker_def as_prepared_def prepare_reconcile_def Let_def
        split: if_splits sum.splits)
  then show ?thesis
  proof cases
    case family
    with assms(3) show ?thesis unfolding claiming_families_def by blast
  next
    case (commit cmd)
    then have "rc_org_id cmd = qp_org_id (wc_payload c)"
      by (auto simp: decode_commit_def runtime_commit_command_make_def split: command_body.splits if_splits)
    with commit(2) delivery_takes [of a env hash fs content cmd "ws_world s"] show ?thesis
      by (cases "gated_commit_worker a (commit_worker ?f) cmd (ws_world s)") (simp add: in_world_world)
  next
    case (reconcile cmd)
    have "claims_kept hash (ws_world s) (snd (reconcile_worker (file_claim_port hash) ?f emitter cmd (ws_world s)))"
      using reconcile_worker_keeps_claims [OF emitter] by (simp add: keeps_def)
    with reconcile show ?thesis by (intro claims_kept_takes) (simp add: in_world_world)
  qed
qed

section \<open>Redelivery\<close>

text \<open>
  The keys of the effects a pass applies, under the organization of the command it claimed, and the
  keys of a history of passes. Before each pass the rest of the system may do anything that
  releases no claim: queue, redeliver and reorder commands, expire locks, let time pass, publish
  events, and apply effects of its own.
\<close>

definition pass_keys ::
  "('z file_world_scheme, 'x) worker \<Rightarrow> ('z file_world_scheme, 'x) worker_system \<Rightarrow> claim_key option list" where
  "pass_keys wk s = (case fst (bnd (wk_upkeep wk) (\<lambda>_. claim_work wk) s) of
       Inr (Some c) \<Rightarrow> map (effect_key (qp_org_id (wc_payload c)))
         (drop (length (rx_applied (ws_world s))) (rx_applied (ws_world (snd (run_once wk s)))))
     | _ \<Rightarrow> [])"

fun loop_keys ::
  "(('z file_world_scheme, 'x) worker \<times> (('z file_world_scheme, 'x) worker_system \<Rightarrow> ('z file_world_scheme, 'x) worker_system)) list
   \<Rightarrow> ('z file_world_scheme, 'x) worker_system \<Rightarrow> claim_key option list" where
  "loop_keys [] s = []"
| "loop_keys ((wk, env) # ps) s = pass_keys wk (env s) @ loop_keys ps (snd (run_once wk (env s)))"

definition releases_nothing ::
  "(string \<Rightarrow> string) \<Rightarrow> (('z file_world_scheme, 'x) worker_system \<Rightarrow> ('z file_world_scheme, 'x) worker_system) \<Rightarrow> bool" where
  "releases_nothing hash env \<longleftrightarrow> (\<forall>s. file_ready hash (ws_world s) \<longrightarrow>
     file_ready hash (ws_world (env s)) \<and> file_held hash (ws_world s) \<subseteq> file_held hash (ws_world (env s)))"

text \<open>The worker of the shipped composition, over its other families and its upkeep.\<close>

definition composed_worker ::
  "(string \<Rightarrow> string) \<Rightarrow> event_env \<Rightarrow> recorded_factories \<Rightarrow> (string \<Rightarrow> 'z file_world_scheme \<Rightarrow> chunk list result)
   \<Rightarrow> (run_record \<Rightarrow> effect_claim \<Rightarrow> string \<Rightarrow> string \<Rightarrow> ('z file_world_scheme, unit) eff) option
   \<Rightarrow> ('z file_world_scheme, 'x) worker \<Rightarrow> bool" where
  "composed_worker hash env fs content emitter wk \<longleftrightarrow> calm_upkeep hash wk \<and> (\<exists>wk0 a. claiming_families hash wk0
     \<and> wk = effect_worker a (file_claim_port hash) (for_run env (file_claim_port hash) fs content) emitter wk0)"

lemma run_once_keys:
  fixes wk :: "('z file_world_scheme, 'x) worker"
  assumes wk: "composed_worker hash env fs content emitter wk" and "calm_emitter hash emitter"
    and ready: "file_ready hash (ws_world s)" and run: "run_once wk s = (x, s')"
  shows "file_ready hash (ws_world s') \<and> file_held hash (ws_world s) \<subseteq> file_held hash (ws_world s')
     \<and> fresh_keys (pass_keys wk s) (file_held hash (ws_world s)) (file_held hash (ws_world s'))"
proof -
  obtain v y where up: "wk_upkeep wk s = (y, v)" by fastforce
  with wk have "claims_kept hash (ws_world s) (ws_world v)" unfolding composed_worker_def calm_upkeep_def by (metis snd_conv)
  with ready have kept: "file_ready hash (ws_world v)" "file_held hash (ws_world s) \<subseteq> file_held hash (ws_world v)"
    "rx_applied (ws_world v) = rx_applied (ws_world s)" by (simp_all add: claims_kept_def)
  obtain r u where claim: "claim_work wk v = (r, u)" by fastforce
  then have u: "ws_world u = ws_world v" by (auto simp: claim_work_def split: prod.splits)
  show ?thesis
  proof (cases "\<exists>z c. y = Inr z \<and> r = Inr (Some c)")
    case False
    with run up claim u have "ws_world s' = ws_world v"
      by (auto simp: run_once_def bnd_def ret_def split: sum.splits option.splits)
    with False claim up kept show ?thesis
      by (auto simp: pass_keys_def fresh_keys_def bnd_def split: sum.splits option.splits)
  next
    case True
    then obtain z c where c: "y = Inr z" "r = Inr (Some c)" by blast
    obtain a t where h: "handle_claim wk c u = (a, t)" by fastforce
    with run claim c up have s': "ws_world s' = ws_world t"
      by (auto simp: run_once_def bnd_def ret_def split: sum.splits)
    from wk obtain wk0 ad where composed: "claiming_families hash wk0"
      "wk = effect_worker ad (file_claim_port hash) (for_run env (file_claim_port hash) fs content) emitter wk0"
      unfolding composed_worker_def by blast
    have "takes_fresh hash (qp_org_id (wc_payload c)) (ws_world u) (ws_world t)"
      using handle_claim_world [OF h] prepared_takes [OF _ assms(2) composed(1), of ad env fs content c _ u]
      by (auto simp: composed(2) takes_refl)
    with kept(1) u s' obtain ps where t: "file_ready hash (ws_world s')" "file_held hash (ws_world v) \<subseteq> file_held hash (ws_world s')"
      "rx_applied (ws_world s') = rx_applied (ws_world s) @ ps"
      "fresh_keys (map (effect_key (qp_org_id (wc_payload c))) ps) (file_held hash (ws_world v)) (file_held hash (ws_world s'))"
      using kept(3) by (auto simp: takes_fresh_def)
    moreover have "pass_keys wk s = map (effect_key (qp_org_id (wc_payload c))) ps"
      using t(3) run claim up c by (simp add: pass_keys_def bnd_def)
    ultimately show ?thesis using kept(2) by (auto simp: fresh_keys_def)
  qed
qed

text \<open>C4: Redelivery never repeats an effect. Whatever workers poll one after the other, in whatever order
  and over whatever queue, with commands handed out again after a lock ran out, a worker died or a
  failure was reported, and whatever the rest of the system does in between short of releasing a claim, no
  two effects that the passes apply have the same organization, executor and idempotency key, and none
  has a key that was held at the start. Of the handlers of the other command families it is asked that
  they apply under a key they have taken, as the staged-write handler's dispatcher does.
\<close>

theorem redelivery_applies_once:
  fixes s :: "('z file_world_scheme, 'x) worker_system"
  assumes "file_ready hash (ws_world s)" and "calm_emitter hash emitter"
    and "\<forall>(wk, env) \<in> set passes. releases_nothing hash env \<and> composed_worker hash renv fs content emitter wk"
  shows "distinct (loop_keys passes s) \<and> None \<notin> set (loop_keys passes s)
     \<and> (\<forall>k. Some k \<in> set (loop_keys passes s) \<longrightarrow> k \<notin> file_held hash (ws_world s))"
  using assms(1,3)
proof (induction passes s rule: loop_keys.induct)
  case (1 s)
  show ?case by simp
next
  case (2 wk env ps s)
  from 2(3) have wk: "releases_nothing hash env" "composed_worker hash renv fs content emitter wk"
    and others: "\<forall>(wk, env) \<in> set ps. releases_nothing hash env \<and> composed_worker hash renv fs content emitter wk" by auto
  with 2(2) have env: "file_ready hash (ws_world (env s))" "file_held hash (ws_world s) \<subseteq> file_held hash (ws_world (env s))"
    by (simp_all add: releases_nothing_def)
  obtain x s' where run: "run_once wk (env s) = (x, s')" by fastforce
  note pass = run_once_keys [OF wk(2) assms(2) env(1) run]
  from 2(1) pass run others have rest: "distinct (loop_keys ps s') \<and> None \<notin> set (loop_keys ps s')
     \<and> (\<forall>k. Some k \<in> set (loop_keys ps s') \<longrightarrow> k \<notin> file_held hash (ws_world s'))" by simp
  have "distinct (pass_keys wk (env s) @ loop_keys ps s')"
    by (rule fresh_distinct [OF conjunct2 [OF conjunct2 [OF pass]]]) (use rest in blast)+
  with pass env run rest show ?case by (auto simp: fresh_keys_def)
qed

text \<open>
  Two workers are handed the same approved command, the second after the first one's lock ran out; they
  send the rows of staged writes through the same claim store.
\<close>

definition commit_payload :: "unit work_payload" where
  "commit_payload = \<lparr>qp_command_id = ''effcmd_1'', qp_command_type = ''effect_commit_requested'', qp_org_id = ''org'',
     qp_run_id = ''run1'', qp_approval_id = None, qp_body = CommitBody delivered_command\<rparr>"

definition sample_sender :: "stage_commit_request \<Rightarrow> (file_world, dispatch_result option) eff" where
  "sample_sender = send_one (Some \<lparr>sd_env = approved_env, sd_claims = file_claim_port id,
     sd_digest = (\<lambda>_. Inr (sample_digest (CHR ''b''))), sd_executor = (\<lambda>_ _. sample_recording)\<rparr>)
     sample_run (Some ''draft://d1/versions/1'') (Some USER)"

definition sample_rows :: "stage_commit_request list" where
  "sample_rows = map (\<lambda>k. \<lparr>sw_org_id = ''org'', sw_user_id = ''u1'', sw_run_id = ''run1'', sw_conversation_id = ''conv1'',
     sw_stage_id = ''stage1'', sw_rev = 1, sw_decision_seq = 4, sw_target_connector = ''crm'', sw_target_op = ''update'',
     sw_body = [], sw_title = [], sw_target_metadata = [], sw_row_key = Some k,
     sw_row_args = Some [(''id'', JStr k)]\<rparr>) [''row1'', ''row2'']"

definition staged_rows :: "string \<Rightarrow> unit work_payload \<Rightarrow> (file_world, unit) work result" where
  "staged_rows ty p = (if ty = ''stage_commit_requested'' \<and> qp_org_id p = rn_org_id sample_run
     then Inr (in_world (bnd (send_rows sample_sender (\<lambda>_ _. ret ()) sample_rows) (\<lambda>_. ret ())))
     else Inl ValidationError)"

definition commit_loop :: "(file_world, unit) worker" where
  "commit_loop = effect_worker mcp_admission (file_claim_port id)
     (for_run approved_env (file_claim_port id) [(MCP, \<lambda>_. Inr sample_recording)] approved_content) None
     \<lparr>wk_id = ''worker'', wk_lock_seconds = 60, wk_retry_delay = 1, wk_max_retries = 2, wk_parallel = 4,
      wk_family = staged_rows, wk_commit = None, wk_reconcile = None, wk_cancel_requested = (\<lambda>_ _. False),
      wk_upkeep = ret False, wk_choose = (\<lambda>_ _. 0)\<rparr>"

definition commit_system :: "(file_world, unit) worker_system" where
  "commit_system = \<lparr>ws_world = approved_directory, ws_queue = register 1 commit_payload empty_queue, ws_now = 9\<rparr>"

lemma staged_rows_claim:
  assumes "staged_rows ty p = Inr other"
  shows "takes_fresh id (qp_org_id p) (ws_world s) (ws_world (snd (other s)))"
proof -
  have "keeps (takes_fresh id (rn_org_id sample_run)) (bnd (send_rows sample_sender (\<lambda>_ _. ret ()) rs) (\<lambda>_. ret ()))" for rs
    unfolding sample_sender_def by (intro keeps_intros send_rows_takes send_one_takes) auto
  with assms show ?thesis by (auto simp: staged_rows_def in_world_world keeps_def split: if_splits)
qed

definition requeue :: "(file_world, unit) worker_system \<Rightarrow> (file_world, unit) worker_system" where
  "requeue s = s\<lparr>ws_queue := register 80 commit_payload empty_queue, ws_now := 90\<rparr>"

lemma commit_claim:
  "\<exists>c u. claim_work commit_loop commit_system = (Inr (Some c), u) \<and> ws_world u = approved_directory
     \<and> wc_payload c = commit_payload \<and> wc_command_type c = ''effect_commit_requested''"
proof -
  have ids: "normalize_id ''effcmd_1'' = Inr ''effcmd_1''" "normalize_id ''org'' = Inr ''org''" "normalize_id ''run1'' = Inr ''run1''"
    "normalize_id ''worker'' = Inr ''worker''" "normalize_slug ''effect_commit_requested'' = Inr ''effect_commit_requested''"
    by code_simp+
  show ?thesis
    by (simp add: claim_work_def commit_loop_def effect_worker_def commit_system_def claim_next_def take_command_def
        claim_command_def worker_claim_make_def register_def empty_queue_def commit_payload_def eff_simps bnd_def Let_def
        pollable_def unlocked_def normalize_optional_id_def ids)
qed

lemma decode_delivered: "decode_commit commit_payload = Inr delivered_command"
proof -
  have "ok (decode_commit commit_payload)" by code_simp
  then show ?thesis
    by (auto simp: ok_iff decode_commit_def commit_payload_def runtime_commit_command_make_def delivered_command_def
        approved_commit_def split: if_splits)
qed

theorem redelivery_applies_once_witness:
  "loop_keys [(commit_loop, id), (commit_loop, requeue)] commit_system \<noteq> []
   \<and> distinct (loop_keys [(commit_loop, id), (commit_loop, requeue)] commit_system)"
proof -
  let ?f = "for_run approved_env (file_claim_port id) [(MCP, \<lambda>_. Inr sample_recording)] approved_content"
  have calm: "releases_nothing id requeue" "releases_nothing id id" "calm_emitter id None"
    by (simp_all add: releases_nothing_def requeue_def calm_emitter_def)
  have "calm_upkeep id commit_loop"
    by (simp add: calm_upkeep_def commit_loop_def effect_worker_def ret_def claims_kept_def)
  moreover have "\<exists>wk0 a. claiming_families id wk0 \<and> commit_loop = effect_worker a (file_claim_port id) ?f None wk0"
    by (intro exI conjI) (rule_tac [2] commit_loop_def, use staged_rows_claim in \<open>simp add: claiming_families_def\<close>)
  ultimately have worker: "composed_worker id approved_env [(MCP, \<lambda>_. Inr sample_recording)] approved_content None commit_loop"
    unfolding composed_worker_def by blast
  have ready: "file_ready id (ws_world commit_system)" by (simp add: commit_system_def approved_directory_ready)
  from commit_claim obtain c u where c: "claim_work commit_loop commit_system = (Inr (Some c), u)"
    "ws_world u = approved_directory" "wc_payload c = commit_payload" "wc_command_type c = ''effect_commit_requested''" by blast
  from gated_sample_delivery obtain t where t: "gated_commit_worker mcp_admission (commit_worker ?f) delivered_command approved_directory
      = (Inr (), t)" "length (rx_applied t) = 1" by blast
  have prep: "prepare_dispatch commit_loop c = Inr (in_world (gated_commit_worker mcp_admission (commit_worker ?f) delivered_command))"
    by (simp add: prepare_dispatch_def commit_loop_def effect_worker_def c(3,4) as_prepared_def decode_delivered
        other_families_def Let_def)
  have "ws_world (snd (handle_claim commit_loop c u)) = t"
    using settle_world [of commit_loop c "Inr ()" "u\<lparr>ws_world := t\<rparr>"] by (simp add: handle_claim_def prep in_world_def c(2) t(1))
  moreover have up: "wk_upkeep commit_loop = ret False" by (simp add: commit_loop_def effect_worker_def)
  ultimately have "ws_world (snd (run_once commit_loop commit_system)) = t"
    by (cases "handle_claim commit_loop c u") (auto simp: run_once_def bnd_def c(1) ret_def split: sum.split)
  moreover have "rx_applied (ws_world commit_system) = []" by (simp add: commit_system_def approved_directory_ready)
  ultimately have "pass_keys commit_loop commit_system \<noteq> []" using t(2) by (auto simp: pass_keys_def bnd_def up ret_def c(1))
  moreover from calm worker have "\<forall>(wk, env) \<in> set [(commit_loop, id), (commit_loop, requeue)]. releases_nothing id env
      \<and> composed_worker id approved_env [(MCP, \<lambda>_. Inr sample_recording)] approved_content None wk" by simp
  note redelivery_applies_once [OF ready calm(3) this]
  ultimately show ?thesis by simp
qed

end
