(* ===== verification/RepairPlanning.thy ===== *)
theory RepairPlanning
  imports EffectFold
begin

text \<open>
  The planner of repairs, \<open>agent_runtime/surfaces_v2/repair_reconciliation.py\<close>: a pure decision over
  redacted facts, fail-closed, and a keyset-paginated plan. Times are numbers and the metrics are
  left out.
\<close>

section \<open>Facts and decisions\<close>

datatype repair_kind =
    METADATA_OUTBOX | ORPHAN_ARTIFACT_OR_TEMP | STALE_PREPARED_RESOURCE | RECEIPT_SOURCE_PROJECTION
  | USAGE_EDGE | AUDIT_VERIFICATION | EFFECT_RECONCILIATION

datatype repair_action =
    METADATA_OUTBOX_REPAIR_CANDIDATE | ORPHAN_CLEANUP_CANDIDATE | STALE_PREPARED_CLEANUP_CANDIDATE
  | RECEIPT_SOURCE_REBUILD_CANDIDATE | USAGE_EDGE_REPAIR_CANDIDATE | AUDIT_VERIFICATION_SAMPLE
  | EFFECT_RECONCILE_CANDIDATE

datatype repair_state = CANDIDATE | WITHHELD

datatype repair_reason =
    VERIFIED_REPAIR_SIGNAL | INCOMPLETE_GRAPH | UNKNOWN_REFERENCE_SCHEME | LIVE_LEGAL_HOLD | MISSING_EVIDENCE
  | NONTERMINAL_RESOURCE | NONTERMINAL_UNCERTAIN_EFFECT | EFFECT_NOT_UNCERTAIN

fun reason_value :: "repair_reason \<Rightarrow> string" where
  "reason_value VERIFIED_REPAIR_SIGNAL = ''verified_repair_signal''"
| "reason_value INCOMPLETE_GRAPH = ''incomplete_graph''"
| "reason_value UNKNOWN_REFERENCE_SCHEME = ''unknown_reference_scheme''"
| "reason_value LIVE_LEGAL_HOLD = ''live_legal_hold''"
| "reason_value MISSING_EVIDENCE = ''missing_evidence''"
| "reason_value NONTERMINAL_RESOURCE = ''nonterminal_resource''"
| "reason_value NONTERMINAL_UNCERTAIN_EFFECT = ''nonterminal_uncertain_effect''"
| "reason_value EFFECT_NOT_UNCERTAIN = ''effect_not_uncertain''"

datatype graph_coverage = GRAPH_COMPLETE | GRAPH_INCOMPLETE
datatype legal_hold = HOLD_NONE | HOLD_ACTIVE | HOLD_UNKNOWN
datatype repair_evidence = EVIDENCE_VERIFIED | EVIDENCE_MISSING | EVIDENCE_CONFLICTING
datatype owner_state = OWNER_ACTIVE | OWNER_TERMINAL | OWNER_UNKNOWN

datatype repair_effect_state =
  EFFECT_NOT_APPLICABLE | EFFECT_CLAIMED | EFFECT_INDETERMINATE | EFFECT_COMPLETED | EFFECT_CANCELLED | EFFECT_UNKNOWN

definition is_token_char :: "char \<Rightarrow> bool" where
  "is_token_char c \<longleftrightarrow> is_alnum c \<or> c = CHR ''.'' \<or> c = CHR ''_'' \<or> c = CHR ''-''"

definition opaque_identifier :: "string \<Rightarrow> bool" where
  "opaque_identifier s = (case s of [] \<Rightarrow> False | c # r \<Rightarrow> is_alnum c \<and> length r \<le> 255 \<and> list_all is_token_char r)"

definition safe_scheme :: "string \<Rightarrow> bool" where
  "safe_scheme s = (case s of [] \<Rightarrow> False
     | c # r \<Rightarrow> is_lower c \<and> length r \<le> 63
         \<and> list_all (\<lambda>d. is_lower d \<or> is_digit d \<or> d = CHR ''_'' \<or> d = CHR ''-'') r)"

definition known_schemes :: "string list" where
  "known_schemes =
     [''activity'', ''artifact'', ''artifact-blob'', ''artifact-code'', ''artifact-dataset'', ''artifact-document'',
      ''artifact-file'', ''bare_surface'', ''browser-page'', ''browser-plan'', ''browser-precondition'',
      ''browser-prepared'', ''browser-receipt'', ''browser-session'', ''browser-target'', ''call'', ''chat'', ''commit'',
      ''dashboard'', ''doc'', ''draft'', ''effect-stage'', ''event'', ''file'', ''form'', ''ledger'', ''mcp-target'',
      ''message'', ''message_surface'', ''operation'', ''payload'', ''policy'', ''prepared'', ''principal'', ''proposal'',
      ''receipt'', ''record'', ''rowset-target'', ''sandbox'', ''spec'', ''stage'', ''table'', ''timeline'',
      ''workspace-material'', ''workspace-overlay'', ''workspace-precondition'', ''workspace-prepared'',
      ''workspace-receipt'', ''workspace-target'', ''board'']"

record repair_record =
  rp_candidate_id :: string
  rp_tenant_id :: string
  rp_kind :: repair_kind
  rp_scheme :: string
  rp_coverage :: graph_coverage
  rp_hold :: legal_hold
  rp_evidence :: repair_evidence
  rp_evidence_id :: "string option"
  rp_owner :: owner_state
  rp_effect :: repair_effect_state
  rp_supported :: "bool option"
  rp_quiet :: "bool option"

text \<open>The identifier pattern bounds the length that the field bounds too.\<close>

definition repair_record_make :: "repair_record \<Rightarrow> repair_record result" where
  "repair_record_make r =
     (if opaque_identifier (rp_candidate_id r) \<and> opaque_identifier (rp_tenant_id r)
         \<and> (case rp_evidence_id r of None \<Rightarrow> True | Some i \<Rightarrow> opaque_identifier i) \<and> safe_scheme (rp_scheme r)
      then Inr r else Inl ValidationError)"

record repair_decision =
  rd_candidate_id :: string
  rd_state :: repair_state
  rd_action :: "repair_action option"
  rd_reasons :: "repair_reason list"

definition repair_decision_make :: "repair_decision \<Rightarrow> repair_decision result" where
  "repair_decision_make d =
     (if opaque_identifier (rd_candidate_id d) \<and> rd_reasons d \<noteq> [] \<and> (rd_state d = CANDIDATE \<longleftrightarrow> rd_action d \<noteq> None)
      then Inr d else Inl ValidationError)"

section \<open>One decision\<close>

fun action_by_kind :: "repair_kind \<Rightarrow> repair_action" where
  "action_by_kind METADATA_OUTBOX = METADATA_OUTBOX_REPAIR_CANDIDATE"
| "action_by_kind ORPHAN_ARTIFACT_OR_TEMP = ORPHAN_CLEANUP_CANDIDATE"
| "action_by_kind STALE_PREPARED_RESOURCE = STALE_PREPARED_CLEANUP_CANDIDATE"
| "action_by_kind RECEIPT_SOURCE_PROJECTION = RECEIPT_SOURCE_REBUILD_CANDIDATE"
| "action_by_kind USAGE_EDGE = USAGE_EDGE_REPAIR_CANDIDATE"
| "action_by_kind AUDIT_VERIFICATION = AUDIT_VERIFICATION_SAMPLE"
| "action_by_kind EFFECT_RECONCILIATION = EFFECT_RECONCILE_CANDIDATE"

definition cleanup_kind :: "repair_kind \<Rightarrow> bool" where
  "cleanup_kind k \<longleftrightarrow> k = ORPHAN_ARTIFACT_OR_TEMP \<or> k = STALE_PREPARED_RESOURCE"

definition uncertain_effect :: "repair_effect_state \<Rightarrow> bool" where
  "uncertain_effect e \<longleftrightarrow> e = EFFECT_CLAIMED \<or> e = EFFECT_INDETERMINATE"

definition found_blockers :: "repair_record \<Rightarrow> repair_reason list" where
  "found_blockers r =
     (if rp_coverage r \<noteq> GRAPH_COMPLETE then [INCOMPLETE_GRAPH] else [])
     @ (if rp_scheme r \<notin> set known_schemes then [UNKNOWN_REFERENCE_SCHEME] else [])
     @ (if rp_hold r = HOLD_ACTIVE then [LIVE_LEGAL_HOLD] else if rp_hold r \<noteq> HOLD_NONE then [MISSING_EVIDENCE] else [])
     @ (if rp_evidence r \<noteq> EVIDENCE_VERIFIED \<or> rp_evidence_id r = None then [MISSING_EVIDENCE] else [])
     @ (if cleanup_kind (rp_kind r) \<and> rp_owner r \<noteq> OWNER_TERMINAL then [NONTERMINAL_RESOURCE] else [])
     @ (if rp_kind r = EFFECT_RECONCILIATION then
          (if \<not> uncertain_effect (rp_effect r) then [EFFECT_NOT_UNCERTAIN] else [])
          @ (if rp_owner r \<noteq> OWNER_TERMINAL then [NONTERMINAL_UNCERTAIN_EFFECT] else [])
          @ (if rp_supported r \<noteq> Some True \<or> rp_quiet r \<noteq> Some True then [MISSING_EVIDENCE] else [])
        else [])"

text \<open>A set of reasons, sorted by value.\<close>

definition blockers :: "repair_record \<Rightarrow> repair_reason list" where
  "blockers r = sort_key reason_value (remdups (found_blockers r))"

definition decide_record :: "repair_record \<Rightarrow> repair_decision result" where
  "decide_record r = (let reasons = blockers r in
     if reasons \<noteq> [] then repair_decision_make
       \<lparr>rd_candidate_id = rp_candidate_id r, rd_state = WITHHELD, rd_action = None, rd_reasons = reasons\<rparr>
     else repair_decision_make
       \<lparr>rd_candidate_id = rp_candidate_id r, rd_state = CANDIDATE, rd_action = Some (action_by_kind (rp_kind r)),
        rd_reasons = [VERIFIED_REPAIR_SIGNAL]\<rparr>)"

section \<open>A plan\<close>

record repair_cursor =
  rc_tenant_id :: string
  rc_snapshot_id :: string
  rc_after :: string

definition repair_cursor_make :: "repair_cursor \<Rightarrow> repair_cursor result" where
  "repair_cursor_make c =
     (if opaque_identifier (rc_tenant_id c) \<and> opaque_identifier (rc_snapshot_id c) \<and> opaque_identifier (rc_after c)
      then Inr c else Inl ValidationError)"

record repair_request =
  rq_tenant_id :: string
  rq_snapshot_id :: string
  rq_as_of :: int
  rq_records :: "repair_record list"
  rq_cursor :: "repair_cursor option"
  rq_limit :: int

definition repair_request_make :: "repair_request \<Rightarrow> repair_request result" where
  "repair_request_make q =
     (if opaque_identifier (rq_tenant_id q) \<and> opaque_identifier (rq_snapshot_id q) \<and> 1 \<le> rq_limit q \<and> rq_limit q \<le> 500
      then Inr q else Inl ValidationError)"

record repair_plan =
  pl_tenant_id :: string
  pl_snapshot_id :: string
  pl_as_of :: int
  pl_decisions :: "repair_decision list"
  pl_next :: "repair_cursor option"
  pl_has_more :: bool

definition validate_request_scope :: "repair_request \<Rightarrow> unit result" where
  "validate_request_scope q =
     rbind (require (case rq_cursor q of None \<Rightarrow> True
       | Some c \<Rightarrow> rc_tenant_id c = rq_tenant_id q \<and> rc_snapshot_id c = rq_snapshot_id q) RepairCursorScopeMismatch) (\<lambda>_.
     require (list_all (\<lambda>r. rp_tenant_id r = rq_tenant_id q) (rq_records q)) RepairCandidateTenantMismatch)"

definition next_cursor :: "repair_request \<Rightarrow> repair_record list \<Rightarrow> bool \<Rightarrow> repair_cursor option result" where
  "next_cursor q page has_more =
     (if has_more \<and> page \<noteq> [] then
        rbind (repair_cursor_make \<lparr>rc_tenant_id = rq_tenant_id q, rc_snapshot_id = rq_snapshot_id q,
                 rc_after = rp_candidate_id (last page)\<rparr>) (\<lambda>c. Inr (Some c))
      else Inr None)"

definition plan_repairs :: "repair_request \<Rightarrow> repair_plan result" where
  "plan_repairs q =
     rbind (validate_request_scope q) (\<lambda>_.
     let ordered = sort_key rp_candidate_id (rq_records q) in
     rbind (require (distinct (map rp_candidate_id ordered)) RepairDuplicateCandidate) (\<lambda>_.
     let remaining = filter (\<lambda>r. case rq_cursor q of None \<Rightarrow> True | Some c \<Rightarrow> rc_after c < rp_candidate_id r) ordered;
         page = take (nat (rq_limit q)) remaining;
         has_more = length page < length remaining in
     rbind (next_cursor q page has_more) (\<lambda>cursor.
     rbind (rmap decide_record page) (\<lambda>decisions.
     Inr \<lparr>pl_tenant_id = rq_tenant_id q, pl_snapshot_id = rq_snapshot_id q, pl_as_of = rq_as_of q,
          pl_decisions = decisions, pl_next = cursor, pl_has_more = has_more\<rparr>))))"

end
