(* ===== verification/RepairStore.thy ===== *)
theory RepairStore
  imports RepairPlanning EffectStaging
begin

text \<open>
  The durable state of the repair planner: snapshots and their validation
  (\<open>agent_runtime/surfaces_v2/repair_planning.py\<close>) and the store that keeps them
  (\<open>runtime_adapters/in_memory/repair_planning_store.py\<close>), each operation one step under its lock.
  A dictionary of outcomes is an association list in order of insertion.
\<close>

section \<open>Snapshots\<close>

record planning_snapshot =
  sn_tenant_id :: string
  sn_snapshot_id :: string
  sn_digest :: string
  sn_as_of :: int
  sn_source_complete :: bool
  sn_records :: "repair_record list"

definition planning_snapshot_make :: "planning_snapshot \<Rightarrow> planning_snapshot result" where
  "planning_snapshot_make s =
     (if opaque_identifier (sn_tenant_id s) \<and> opaque_identifier (sn_snapshot_id s) \<and> is_sha256_hex (sn_digest s)
         \<and> list_all (\<lambda>r. rp_tenant_id r = sn_tenant_id s) (sn_records s)
      then Inr s else Inl ValidationError)"

definition same_persisted_snapshot_as :: "planning_snapshot \<Rightarrow> planning_snapshot \<Rightarrow> bool" where
  "same_persisted_snapshot_as s t \<longleftrightarrow> sn_tenant_id s = sn_tenant_id t \<and> sn_snapshot_id s = sn_snapshot_id t
     \<and> sn_digest s = sn_digest t \<and> sn_source_complete s = sn_source_complete t \<and> sn_records s = sn_records t"

record snapshot_state =
  ss_snapshot :: planning_snapshot
  ss_after :: "string option"
  ss_completed :: bool

definition snapshot_state_make :: "snapshot_state \<Rightarrow> snapshot_state result" where
  "snapshot_state_make s =
     (if (case ss_after s of None \<Rightarrow> True | Some a \<Rightarrow> opaque_identifier a) then Inr s else Inl ValidationError)"

definition state_cursor :: "snapshot_state \<Rightarrow> repair_cursor option result" where
  "state_cursor s = (case ss_after s of
       None \<Rightarrow> Inr None
     | Some a \<Rightarrow> rbind (repair_cursor_make \<lparr>rc_tenant_id = sn_tenant_id (ss_snapshot s),
           rc_snapshot_id = sn_snapshot_id (ss_snapshot s), rc_after = a\<rparr>) (\<lambda>c. Inr (Some c)))"

section \<open>Building a snapshot\<close>

fun repair_kind_value :: "repair_kind \<Rightarrow> string" where
  "repair_kind_value METADATA_OUTBOX = ''metadata_outbox''"
| "repair_kind_value ORPHAN_ARTIFACT_OR_TEMP = ''orphan_artifact_or_temp''"
| "repair_kind_value STALE_PREPARED_RESOURCE = ''stale_prepared_resource''"
| "repair_kind_value RECEIPT_SOURCE_PROJECTION = ''receipt_source_projection''"
| "repair_kind_value USAGE_EDGE = ''usage_edge''"
| "repair_kind_value AUDIT_VERIFICATION = ''audit_verification''"
| "repair_kind_value EFFECT_RECONCILIATION = ''effect_reconciliation''"

fun coverage_value :: "graph_coverage \<Rightarrow> string" where
  "coverage_value GRAPH_COMPLETE = ''complete''"
| "coverage_value GRAPH_INCOMPLETE = ''incomplete''"

fun legal_hold_value :: "legal_hold \<Rightarrow> string" where
  "legal_hold_value HOLD_NONE = ''none''"
| "legal_hold_value HOLD_ACTIVE = ''active''"
| "legal_hold_value HOLD_UNKNOWN = ''unknown''"

fun repair_evidence_value :: "repair_evidence \<Rightarrow> string" where
  "repair_evidence_value EVIDENCE_VERIFIED = ''verified''"
| "repair_evidence_value EVIDENCE_MISSING = ''missing''"
| "repair_evidence_value EVIDENCE_CONFLICTING = ''conflicting''"

fun owner_value :: "owner_state \<Rightarrow> string" where
  "owner_value OWNER_ACTIVE = ''active''"
| "owner_value OWNER_TERMINAL = ''terminal''"
| "owner_value OWNER_UNKNOWN = ''unknown''"

fun repair_effect_value :: "repair_effect_state \<Rightarrow> string" where
  "repair_effect_value EFFECT_NOT_APPLICABLE = ''not_applicable''"
| "repair_effect_value EFFECT_CLAIMED = ''claimed''"
| "repair_effect_value EFFECT_INDETERMINATE = ''indeterminate''"
| "repair_effect_value EFFECT_COMPLETED = ''completed''"
| "repair_effect_value EFFECT_CANCELLED = ''cancelled''"
| "repair_effect_value EFFECT_UNKNOWN = ''unknown''"

definition optional_flag :: "bool option \<Rightarrow> json" where
  "optional_flag v = (case v of None \<Rightarrow> JNull | Some b \<Rightarrow> JBool b)"

definition repair_record_dump :: "repair_record \<Rightarrow> json" where
  "repair_record_dump r = JObj
     [(''candidate_id'', JStr (rp_candidate_id r)), (''tenant_id'', JStr (rp_tenant_id r)),
      (''kind'', JStr (repair_kind_value (rp_kind r))), (''reference_scheme'', JStr (rp_scheme r)),
      (''graph_coverage'', JStr (coverage_value (rp_coverage r))), (''legal_hold'', JStr (legal_hold_value (rp_hold r))),
      (''evidence_state'', JStr (repair_evidence_value (rp_evidence r))),
      (''evidence_id'', case rp_evidence_id r of None \<Rightarrow> JNull | Some i \<Rightarrow> JStr i),
      (''owner_state'', JStr (owner_value (rp_owner r))), (''effect_state'', JStr (repair_effect_value (rp_effect r))),
      (''reconcile_supported'', optional_flag (rp_supported r)), (''quiet_period_elapsed'', optional_flag (rp_quiet r))]"

text \<open>
  Every string of the document is ASCII, so that the encoder of the ledger, which leaves other
  characters alone, gives the same text.
\<close>

definition snapshot_digest :: "(string \<Rightarrow> string) \<Rightarrow> string \<Rightarrow> bool \<Rightarrow> repair_record list \<Rightarrow> string" where
  "snapshot_digest sha256 tenant complete rs = sha256 (json_text (JObj
     [(''v'', JInt 1), (''tenant_id'', JStr tenant), (''source_complete'', JBool complete),
      (''records'', JArr (map repair_record_dump rs))]))"

definition build_planning_snapshot ::
  "(string \<Rightarrow> string) \<Rightarrow> string \<Rightarrow> repair_record list \<Rightarrow> bool \<Rightarrow> int \<Rightarrow> planning_snapshot result" where
  "build_planning_snapshot sha256 tenant records complete as_of =
     rbind (require (opaque_identifier tenant) ValueError) (\<lambda>_.
     let ordered = sort_key rp_candidate_id records in
     rbind (require (list_all (\<lambda>r. rp_tenant_id r = tenant) ordered) RepairPlanningStateError) (\<lambda>_.
     rbind (require (distinct (map rp_candidate_id ordered)) RepairPlanningStateError) (\<lambda>_.
     let digest = snapshot_digest sha256 tenant complete ordered in
     planning_snapshot_make \<lparr>sn_tenant_id = tenant, sn_snapshot_id = ''rps_'' @ take 48 digest, sn_digest = digest,
       sn_as_of = as_of, sn_source_complete = complete, sn_records = ordered\<rparr>)))"

section \<open>The guard of a page\<close>

definition records_after :: "string option \<Rightarrow> repair_record list \<Rightarrow> repair_record list" where
  "records_after after rs = filter (\<lambda>r. case after of None \<Rightarrow> True | Some a \<Rightarrow> a < rp_candidate_id r) rs"

definition last_id :: "string list \<Rightarrow> string option" where
  "last_id ids = (if ids = [] then None else Some (last ids))"

definition page_exact :: "snapshot_state \<Rightarrow> repair_plan \<Rightarrow> bool" where
  "page_exact s p \<longleftrightarrow>
     (let remaining = records_after (ss_after s) (sn_records (ss_snapshot s));
          ids = map rd_candidate_id (pl_decisions p);
          has_more = length ids < length remaining in
      \<not> (ids = [] \<and> remaining \<noteq> []) \<and> ids = map rp_candidate_id (take (length ids) remaining)
      \<and> pl_has_more p = has_more
      \<and> map_option rc_after (pl_next p) = (if has_more then last_id ids else None)
      \<and> (case pl_next p of None \<Rightarrow> True
         | Some c \<Rightarrow> rc_tenant_id c = sn_tenant_id (ss_snapshot s) \<and> rc_snapshot_id c = sn_snapshot_id (ss_snapshot s)))"

definition validate_plan_page :: "snapshot_state \<Rightarrow> string option \<Rightarrow> repair_plan \<Rightarrow> unit result" where
  "validate_plan_page s expected p =
     rbind (require (pl_tenant_id p = sn_tenant_id (ss_snapshot s) \<and> pl_snapshot_id p = sn_snapshot_id (ss_snapshot s)
       \<and> expected = ss_after s \<and> \<not> ss_completed s) RepairPlanningStateError) (\<lambda>_.
     require (page_exact s p) RepairPlanningStateError)"

section \<open>The store\<close>

record scan_cursor =
  sk_created_at :: int
  sk_org_id :: string
  sk_claim_id :: string

record planning_store =
  ps_states :: "string \<times> string \<Rightarrow> snapshot_state option"
  ps_outcomes :: "string \<times> string \<Rightarrow> (string \<times> repair_decision) list option"
  ps_scan :: "scan_cursor option"

definition empty_planning_store :: planning_store where
  "empty_planning_store = \<lparr>ps_states = \<lambda>_. None, ps_outcomes = \<lambda>_. None, ps_scan = None\<rparr>"

definition load_or_create :: "planning_snapshot \<Rightarrow> (planning_store, snapshot_state) eff" where
  "load_or_create snap = (\<lambda>s. let key = (sn_tenant_id snap, sn_snapshot_id snap) in case ps_states s key of
       None \<Rightarrow> (case snapshot_state_make \<lparr>ss_snapshot = snap, ss_after = None, ss_completed = False\<rparr> of
           Inl e \<Rightarrow> (Inl e, s)
         | Inr st \<Rightarrow> (Inr st, s\<lparr>ps_states := (ps_states s)(key := Some st), ps_outcomes := (ps_outcomes s)(key := Some [])\<rparr>))
     | Some existing \<Rightarrow>
         if \<not> same_persisted_snapshot_as (ss_snapshot existing) snap then (Inl RepairPlanningStateError, s)
         else (Inr existing, s))"

definition load_state :: "string \<Rightarrow> string \<Rightarrow> planning_store \<Rightarrow> snapshot_state option" where
  "load_state tenant snap s = ps_states s (tenant, snap)"

fun put_assoc :: "string \<Rightarrow> 'a \<Rightarrow> (string \<times> 'a) list \<Rightarrow> (string \<times> 'a) list" where
  "put_assoc k v [] = [(k, v)]"
| "put_assoc k v ((j, w) # r) = (if j = k then (k, v) # r else (j, w) # put_assoc k v r)"

text \<open>What a conflicting decision raises comes after the earlier decisions of the page are in place.\<close>

fun record_decisions ::
  "repair_decision list \<Rightarrow> (string \<times> repair_decision) list \<Rightarrow> unit result \<times> (string \<times> repair_decision) list" where
  "record_decisions [] os = (Inr (), os)"
| "record_decisions (d # ds) os = (case map_of os (rd_candidate_id d) of
       None \<Rightarrow> record_decisions ds (put_assoc (rd_candidate_id d) d os)
     | Some e \<Rightarrow> if e \<noteq> d then (Inl RepairPlanningStateError, os)
                 else record_decisions ds (put_assoc (rd_candidate_id d) d os))"

definition state_after_page :: "snapshot_state \<Rightarrow> repair_plan \<Rightarrow> snapshot_state result" where
  "state_after_page st p = snapshot_state_make
     \<lparr>ss_snapshot = ss_snapshot st,
      ss_after = (case pl_next p of Some c \<Rightarrow> Some (rc_after c) | None \<Rightarrow> last_id (map rd_candidate_id (pl_decisions p))),
      ss_completed = (\<not> pl_has_more p)\<rparr>"

definition advance_snapshot :: "string \<Rightarrow> string \<Rightarrow> string option \<Rightarrow> repair_plan \<Rightarrow> (planning_store, bool) eff" where
  "advance_snapshot tenant snap expected p = (\<lambda>s. let key = (tenant, snap) in case ps_states s key of
       None \<Rightarrow> (Inl RepairPlanningStateError, s)
     | Some st \<Rightarrow>
         if ss_after st \<noteq> expected then (Inr False, s)
         else case validate_plan_page st expected p of Inl e \<Rightarrow> (Inl e, s) | Inr _ \<Rightarrow>
         (case ps_outcomes s key of None \<Rightarrow> (Inl KeyError, s) | Some os \<Rightarrow>
         (case record_decisions (pl_decisions p) os of
            (Inl e, os') \<Rightarrow> (Inl e, s\<lparr>ps_outcomes := (ps_outcomes s)(key := Some os')\<rparr>)
          | (Inr _, os') \<Rightarrow> (let s' = s\<lparr>ps_outcomes := (ps_outcomes s)(key := Some os')\<rparr> in
              case state_after_page st p of
                Inl e \<Rightarrow> (Inl e, s')
              | Inr st' \<Rightarrow> (Inr True, s'\<lparr>ps_states := (ps_states s')(key := Some st')\<rparr>)))))"

definition list_outcomes :: "string \<Rightarrow> string \<Rightarrow> planning_store \<Rightarrow> repair_decision list" where
  "list_outcomes tenant snap s = (case ps_outcomes s (tenant, snap) of
       None \<Rightarrow> [] | Some os \<Rightarrow> map snd (sort_key fst os))"

definition advance_scan_cursor :: "scan_cursor option \<Rightarrow> scan_cursor option \<Rightarrow> (planning_store, bool) eff" where
  "advance_scan_cursor expected to_cursor = (\<lambda>s.
     if ps_scan s \<noteq> expected then (Inr False, s) else (Inr True, s\<lparr>ps_scan := to_cursor\<rparr>))"

end
