(* ===== verification/RepairCollector.thy ===== *)
theory RepairCollector
  imports RepairStore EffectWorkers MemoryClaimStore "HOL-Library.Product_Lexorder"
begin

text \<open>
  The collector of repair facts (\<open>runtime_worker/jobs/repair_planning.py\<close>) and the keyset scan it
  reads (\<open>list_incomplete_after\<close> of \<open>runtime_adapters/in_memory/effect_claim_store.py\<close>). What the
  collector reads it never changes, so that a source is a function of the state; the registry and
  the enumerator of lifecycle references, \<open>datetime.fromisoformat\<close> and SHA-256 are among its
  arguments.
\<close>

section \<open>Times and the scan of the claims\<close>

text \<open>A parsed ISO timestamp, with or without a time zone; the number is the instant read as UTC.\<close>

datatype iso_time = Aware int | Naive int

type_synonym iso_parser = "string \<Rightarrow> iso_time option"

definition aware_instant :: "iso_parser \<Rightarrow> string \<Rightarrow> int result" where
  "aware_instant fromiso v = (case fromiso v of Some (Aware t) \<Rightarrow> Inr t | _ \<Rightarrow> Inl ValueError)"

type_synonym scan_key = "int \<times> string \<times> string"

definition scan_key_of :: "iso_parser \<Rightarrow> effect_claim \<Rightarrow> scan_key result" where
  "scan_key_of fromiso c = rbind (aware_instant fromiso (ec_created_at c)) (\<lambda>t. Inr (t, ec_org_id c, ec_claim_id c))"

definition cursor_key :: "scan_cursor \<Rightarrow> scan_key" where
  "cursor_key c = (sk_created_at c, sk_org_id c, sk_claim_id c)"

definition scan_page :: "iso_parser \<Rightarrow> scan_cursor option \<Rightarrow> int \<Rightarrow> effect_claim list \<Rightarrow> effect_claim list result" where
  "scan_page fromiso cursor limit cs =
     (if limit < 1 then Inr []
      else case rmap (\<lambda>c. rbind (scan_key_of fromiso c) (\<lambda>k. Inr (k, c))) (filter unresolved cs) of
          Inl e \<Rightarrow> Inl (if e = TypeError \<or> is_value_error e then EffectClaimStorageError else e)
        | Inr keyed \<Rightarrow>
            let ordered = sort_key fst keyed;
                beyond = (case cursor of None \<Rightarrow> ordered | Some c \<Rightarrow> filter (\<lambda>(k, _). cursor_key c < k) ordered) in
            Inr (map snd (take (nat limit) beyond)))"

definition memory_list_incomplete_after ::
  "iso_parser \<Rightarrow> scan_cursor option \<Rightarrow> int \<Rightarrow> 'z memory_world_scheme \<Rightarrow> effect_claim list result" where
  "memory_list_incomplete_after fromiso cursor limit w = scan_page fromiso cursor limit (map snd (mw_by_key w))"

section \<open>The collector\<close>

datatype run_status =
    RUN_QUEUED | RUN_RUNNING | RUN_WAITING_FOR_APPROVAL | RUN_CANCELLING
  | RUN_CANCELLED | RUN_COMPLETED | RUN_FAILED | RUN_TIMED_OUT

definition active_run_statuses :: "run_status list" where
  "active_run_statuses = [RUN_QUEUED, RUN_RUNNING, RUN_WAITING_FOR_APPROVAL, RUN_CANCELLING]"

definition terminal_run_statuses :: "run_status list" where
  "terminal_run_statuses = [RUN_CANCELLED, RUN_COMPLETED, RUN_FAILED, RUN_TIMED_OUT]"

record 's collector =
  cl_get_run :: "string \<Rightarrow> string \<Rightarrow> 's \<Rightarrow> (run_record \<times> run_status) option result"
  cl_events :: "string \<Rightarrow> string \<Rightarrow> int \<Rightarrow> 's \<Rightarrow> envelope list result"
  cl_claim_by_id :: "string \<Rightarrow> string \<Rightarrow> 's \<Rightarrow> effect_claim option result"
  cl_incomplete_after :: "scan_cursor option \<Rightarrow> int \<Rightarrow> 's \<Rightarrow> effect_claim list result"
  cl_resolve_hold :: "string \<Rightarrow> string \<Rightarrow> string \<Rightarrow> 's \<Rightarrow> legal_hold result"
  cl_supported :: "effect_executor_kind list"
  cl_max_events :: int
  cl_quiet_period :: int
  cl_parse_reference :: "string \<Rightarrow> string result"
  cl_enumerate :: "string \<Rightarrow> (string \<times> int \<times> dict) list \<Rightarrow> unit result"
  cl_iso :: iso_parser
  cl_sha256 :: "string \<Rightarrow> string"

definition collector_make :: "'s collector \<Rightarrow> 's collector result" where
  "collector_make cl = (if cl_max_events cl < 1 \<or> cl_quiet_period cl < 0 then Inl ValueError else Inr cl)"

definition reference_scheme :: "'s collector \<Rightarrow> effect_claim \<Rightarrow> string" where
  "reference_scheme cl c =
     (case cl_parse_reference cl (ec_proposal_ref c) of Inl _ \<Rightarrow> ''unknown'' | Inr proposal \<Rightarrow>
     (case cl_parse_reference cl (ec_target_ref c) of Inl _ \<Rightarrow> ''unknown'' | Inr target \<Rightarrow>
     (case ec_content_ref c of None \<Rightarrow> ''unknown'' | Some content \<Rightarrow>
     (case cl_parse_reference cl content of Inl _ \<Rightarrow> ''unknown'' | Inr _ \<Rightarrow>
        if proposal \<noteq> ''proposal'' then ''unknown'' else target))))"

fun effect_state_of :: "claim_state \<Rightarrow> repair_effect_state" where
  "effect_state_of CLAIMED = EFFECT_CLAIMED"
| "effect_state_of INDETERMINATE = EFFECT_INDETERMINATE"
| "effect_state_of COMPLETED = EFFECT_COMPLETED"
| "effect_state_of CLAIM_CANCELLED = EFFECT_CANCELLED"

text \<open>Here a time without a zone is read as UTC.\<close>

definition quiet_period_elapsed :: "iso_parser \<Rightarrow> string \<Rightarrow> int \<Rightarrow> int \<Rightarrow> bool" where
  "quiet_period_elapsed fromiso updated_at now quiet = (case fromiso updated_at of
       None \<Rightarrow> False
     | Some (Aware t) \<Rightarrow> t \<le> now - quiet
     | Some (Naive t) \<Rightarrow> t \<le> now - quiet)"

definition opaque_digest :: "(string \<Rightarrow> string) \<Rightarrow> string \<Rightarrow> string list \<Rightarrow> string" where
  "opaque_digest sha256 prefix parts = prefix @ ''_'' @ take 48 (sha256 (join_with (CHR 0x00) parts))"

section \<open>The graph of a run\<close>

definition ledger_event_types :: "string list" where
  "ledger_event_types =
     [''gate.opened'', ''gate.resolved'', ''action.classified'', ''read.executed'', ''surface.created'', ''view.derived'',
      ''view.preference'', ''shape.requested'', ''shape.resolved'', ''write.staged'', ''revision.added'',
      ''decision.recorded'', ''write.applied'', ''usage.recorded'', ''receipt.emitted'', ''operation.requested'',
      ''operation.classified'', ''operation.completed'', ''operation.failed'', ''artifact.created'', ''artifact.revised'',
      ''artifact.promoted'', ''artifact.presentation_decided'', ''effect.staged'', ''effect.projection_bound'',
      ''effect.revised'', ''effect.decision_recorded'', ''effect.claimed'', ''effect.applied'', ''effect.indeterminate'',
      ''effect.reconciled'', ''gate.opened.v2'', ''gate.resolved.v2'', ''effect.row_decisions_recorded'']"

definition claim_evidence :: "effect_claim \<Rightarrow> envelope \<Rightarrow> bool" where
  "claim_evidence c e \<longleftrightarrow> en_event_type e = ''effect.claimed''
     \<and> dget (en_payload e) ''claim_id'' JNull = JStr (ec_claim_id c)
     \<and> dget (en_payload e) ''stage_id'' JNull = JStr (ec_stage_id c)
     \<and> dget (en_payload e) ''revision'' JNull = JInt (ec_revision c)
     \<and> dget (en_payload e) ''executor'' JNull = JStr (executor_kind_value (ec_executor c))"

definition verify_run_graph ::
  "'s collector \<Rightarrow> effect_claim \<Rightarrow> string \<Rightarrow> int \<Rightarrow> 's \<Rightarrow> (graph_coverage \<times> bool) result" where
  "verify_run_graph cl c conversation_id latest s =
     (if latest < 0 \<or> cl_max_events cl < latest then Inr (GRAPH_INCOMPLETE, False)
      else rbind (cl_events cl (ec_org_id c) (ec_run_id c) 0 s) (\<lambda>es.
      if list_ex (\<lambda>e. en_run_id e \<noteq> ec_run_id c \<or> en_conversation_id e \<noteq> conversation_id) es
      then Inr (GRAPH_INCOMPLETE, False)
      else if map en_sequence_no es \<noteq> [1..latest] then Inr (GRAPH_INCOMPLETE, False)
      else let ledger = filter (\<lambda>e. en_event_type e \<in> set ledger_event_types) es in
      (case cl_enumerate cl (ec_run_id c) (map (\<lambda>e. (en_event_type e, en_sequence_no e, en_payload e)) ledger) of
         Inl e \<Rightarrow> (if is_exception e then Inr (GRAPH_INCOMPLETE, False) else Inl e)
       | Inr _ \<Rightarrow> Inr (GRAPH_COMPLETE, list_ex (claim_evidence c) ledger))))"

section \<open>The record of a claim\<close>

text \<open>The facts that the sources contribute: coverage, hold, evidence, its id, and the owner.\<close>

type_synonym claim_facts = "graph_coverage \<times> legal_hold \<times> repair_evidence \<times> string option \<times> owner_state"

definition no_facts :: claim_facts where
  "no_facts = (GRAPH_INCOMPLETE, HOLD_UNKNOWN, EVIDENCE_MISSING, None, OWNER_UNKNOWN)"

definition fact_record ::
  "'s collector \<Rightarrow> effect_claim \<Rightarrow> int \<Rightarrow> claim_facts \<Rightarrow> repair_record result" where
  "fact_record cl c now facts = (case facts of (coverage, hold, evidence, evidence_id, owner) \<Rightarrow> repair_record_make
     \<lparr>rp_candidate_id = ec_claim_id c, rp_tenant_id = ec_org_id c, rp_kind = EFFECT_RECONCILIATION,
      rp_scheme = reference_scheme cl c, rp_coverage = coverage, rp_hold = hold, rp_evidence = evidence,
      rp_evidence_id = evidence_id, rp_owner = owner, rp_effect = effect_state_of (ec_state c),
      rp_supported = Some (ec_executor c \<in> set (cl_supported cl)),
      rp_quiet = Some (quiet_period_elapsed (cl_iso cl) (ec_updated_at c) now (cl_quiet_period cl))\<rparr>)"

fun owner_of_status :: "run_status \<Rightarrow> owner_state" where
  "owner_of_status st = (if st \<in> set terminal_run_statuses then OWNER_TERMINAL
     else if st \<in> set active_run_statuses then OWNER_ACTIVE else OWNER_UNKNOWN)"

definition evidence_digest :: "'s collector \<Rightarrow> effect_claim \<Rightarrow> int \<Rightarrow> string" where
  "evidence_digest cl c latest = opaque_digest (cl_sha256 cl) ''rev''
     [ec_org_id c, ec_claim_id c, claim_state_value (ec_state c), ec_updated_at c, json_text (JInt latest)]"

text \<open>The body of the \<open>try\<close>: \<open>Inl None\<close> is the early return for a run that is not the claim's.\<close>

definition collect_facts :: "'s collector \<Rightarrow> effect_claim \<Rightarrow> 's \<Rightarrow> claim_facts option result" where
  "collect_facts cl c s =
     rbind (cl_get_run cl (ec_org_id c) (ec_run_id c) s) (\<lambda>found. case found of
       None \<Rightarrow> Inr None
     | Some (run, status) \<Rightarrow>
         if rn_org_id run \<noteq> ec_org_id c \<or> rn_run_id run \<noteq> ec_run_id c then Inr None
         else rbind (cl_resolve_hold cl (ec_org_id c) (rn_user_id run) (rn_conversation_id run) s) (\<lambda>hold.
              rbind (verify_run_graph cl c (rn_conversation_id run) (rn_latest_sequence_no run) s) (\<lambda>(coverage, evidenced).
              Inr (Some (if coverage = GRAPH_COMPLETE \<and> evidenced
                then (coverage, hold, EVIDENCE_VERIFIED, Some (evidence_digest cl c (rn_latest_sequence_no run)),
                      owner_of_status status)
                else (coverage, hold, EVIDENCE_MISSING, None, owner_of_status status))))))"

definition force_coverage :: "bool \<Rightarrow> claim_facts \<Rightarrow> claim_facts" where
  "force_coverage incomplete facts = (case facts of (coverage, rest) \<Rightarrow>
     (if incomplete then GRAPH_INCOMPLETE else coverage, rest))"

text \<open>An exception of the sources leaves no fact; the record is then built from none.\<close>

definition record_for_claim :: "'s collector \<Rightarrow> effect_claim \<Rightarrow> int \<Rightarrow> bool \<Rightarrow> 's \<Rightarrow> repair_record result" where
  "record_for_claim cl c now incomplete s = (case collect_facts cl c s of
       Inl e \<Rightarrow> (if is_exception e then fact_record cl c now (force_coverage incomplete no_facts) else Inl e)
     | Inr None \<Rightarrow> fact_record cl c now no_facts
     | Inr (Some facts) \<Rightarrow> fact_record cl c now (force_coverage incomplete facts))"

definition revalidate_claim ::
  "'s collector \<Rightarrow> string \<Rightarrow> string \<Rightarrow> int \<Rightarrow> 's \<Rightarrow> (effect_claim \<times> repair_record) option result" where
  "revalidate_claim cl tenant claim_id now s = (case
     rbind (cl_claim_by_id cl tenant claim_id s) (\<lambda>found. case found of
       None \<Rightarrow> Inr None
     | Some c \<Rightarrow>
         if ec_org_id c \<noteq> tenant \<or> ec_claim_id c \<noteq> claim_id then Inr None
         else rbind (record_for_claim cl c now False s) (\<lambda>r.
              if rp_tenant_id r \<noteq> tenant \<or> rp_candidate_id r \<noteq> claim_id then Inr None else Inr (Some (c, r)))) of
       Inl e \<Rightarrow> (if is_exception e then Inr None else Inl e)
     | Inr v \<Rightarrow> Inr v)"

end
