(* ===== verification/RepairRunner.thy ===== *)
theory RepairRunner
  imports RepairCollector WorkerLoop
begin

text \<open>
  The repair runner of \<open>runtime_worker/jobs/repair_planning.py\<close> and its executor
  (\<open>runtime_worker/jobs/repair_execution.py\<close>): one cycle collects a page of claims, plans and
  persists each tenant's snapshot, hands the persisted candidates to the executor, and moves the
  source cursor. Metrics, logging and the periodic wrapper are left out.
\<close>

section \<open>One page of the source\<close>

record source_page =
  sp_snapshots :: "planning_snapshot list"
  sp_expected :: "scan_cursor option"
  sp_next :: "scan_cursor option"
  sp_advance :: bool

definition scan_cursor_make :: "scan_cursor \<Rightarrow> scan_cursor result" where
  "scan_cursor_make c =
     (if bounded_text 255 (sk_org_id c) \<and> id_pattern (sk_org_id c) \<and> is_claim_id_text (sk_claim_id c)
      then Inr c else Inl ValidationError)"

definition scan_cursor_for :: "iso_parser \<Rightarrow> effect_claim \<Rightarrow> scan_cursor result" where
  "scan_cursor_for fromiso c = rbind (aware_instant fromiso (ec_created_at c)) (\<lambda>t.
     scan_cursor_make \<lparr>sk_created_at = t, sk_org_id = ec_org_id c, sk_claim_id = ec_claim_id c\<rparr>)"

text \<open>The cursors of a page, and whether it is a page at all: bounded, in order, and past the cursor.\<close>

definition page_cursors ::
  "iso_parser \<Rightarrow> scan_cursor option \<Rightarrow> bool \<Rightarrow> effect_claim list \<Rightarrow> (scan_cursor list \<times> bool) result" where
  "page_cursors fromiso cursor bounded claims = (case rmap (scan_cursor_for fromiso) claims of
       Inl e \<Rightarrow> (if e = TypeError \<or> is_value_error e then Inr ([], False) else Inl e)
     | Inr cs \<Rightarrow> (let keys = map cursor_key cs in
         Inr (cs, bounded \<and> keys = sort keys \<and> distinct keys
           \<and> (case cursor of None \<Rightarrow> True | Some c \<Rightarrow> list_all (\<lambda>k. cursor_key c < k) keys))))"

definition tenant_snapshot ::
  "'s collector \<Rightarrow> bool \<Rightarrow> int \<Rightarrow> 's \<Rightarrow> effect_claim list \<Rightarrow> string \<Rightarrow> planning_snapshot result" where
  "tenant_snapshot cl complete now s claims tenant =
     rbind (rmap (\<lambda>c. record_for_claim cl c now (\<not> complete) s) (filter (\<lambda>c. ec_org_id c = tenant) claims)) (\<lambda>rs.
     build_planning_snapshot (cl_sha256 cl) tenant rs complete now)"

definition collect :: "'s collector \<Rightarrow> int \<Rightarrow> scan_cursor option \<Rightarrow> int \<Rightarrow> 's \<Rightarrow> source_page result" where
  "collect cl limit cursor now s =
     rbind (require (1 \<le> limit \<and> limit \<le> 500) ValueError) (\<lambda>_.
     rbind (cl_incomplete_after cl cursor (limit + 1) s) (\<lambda>listed.
     let claims = take (nat (limit + 1)) listed in
     rbind (page_cursors (cl_iso cl) cursor (int (length listed) \<le> limit + 1) claims) (\<lambda>(cursors, complete).
     let bounded = take (nat limit) claims in
     rbind (rmap (tenant_snapshot cl complete now s bounded) (sort (remdups (map ec_org_id bounded)))) (\<lambda>snapshots.
     let next_cursor = (if complete \<and> limit < int (length claims) \<and> bounded \<noteq> []
           then Some (cursors ! (length bounded - 1)) else None) in
     Inr \<lparr>sp_snapshots = snapshots, sp_expected = cursor, sp_next = next_cursor,
          sp_advance = (complete \<and> next_cursor \<noteq> cursor)\<rparr>))))"

section \<open>The executor\<close>

text \<open>The world the claims live in, the state of the planner, and the queue with its clock.\<close>

record ('s, 'x) repair_system =
  rs_world :: 's
  rs_plans :: planning_store
  rs_queue :: "'x command_body command_queue"
  rs_now :: int

type_synonym ('s, 'x, 'a) repairing = "(('s, 'x) repair_system, 'a) eff"

definition on_plans :: "(planning_store, 'a) eff \<Rightarrow> ('s, 'x, 'a) repairing" where
  "on_plans m = (\<lambda>s. case m (rs_plans s) of (r, p) \<Rightarrow> (r, s\<lparr>rs_plans := p\<rparr>))"

definition parse_utc_timestamp :: "iso_parser \<Rightarrow> string \<Rightarrow> int option" where
  "parse_utc_timestamp fromiso v =
     (case fromiso (concat (map (\<lambda>c. if c = CHR ''Z'' then ''+00:00'' else [c]) v)) of
        Some (Aware t) \<Rightarrow> Some t | _ \<Rightarrow> None)"

definition reconcile_identity :: "(string \<Rightarrow> string) \<Rightarrow> effect_claim \<Rightarrow> string" where
  "reconcile_identity sha256 c = sha256 (join_with (CHR 0x00)
     [''repair-reconcile-v1'', ec_org_id c, ec_run_id c, ec_claim_id c, claim_state_value (ec_state c),
      executor_kind_value (ec_executor c), ec_updated_at c])"

definition build_reconcile_command ::
  "(string \<Rightarrow> string) \<Rightarrow> iso_parser \<Rightarrow> effect_claim \<Rightarrow> runtime_reconcile_command option result" where
  "build_reconcile_command sha256 fromiso c = (case parse_utc_timestamp fromiso (ec_updated_at c) of
       None \<Rightarrow> Inr None
     | Some t \<Rightarrow> rbind (runtime_reconcile_command_make
           \<lparr>qc_command_id = ''repair_reconcile_'' @ take 48 (reconcile_identity sha256 c), qc_org_id = ec_org_id c,
            qc_run_id = ec_run_id c, qc_claim_id = ec_claim_id c, qc_created_at = t\<rparr>) (\<lambda>q. Inr (Some q)))"

definition reconcile_payload :: "runtime_reconcile_command \<Rightarrow> 'x work_payload" where
  "reconcile_payload q = \<lparr>qp_command_id = qc_command_id q, qp_command_type = ''effect_reconcile_requested'',
     qp_org_id = qc_org_id q, qp_run_id = qc_run_id q, qp_approval_id = None, qp_body = ReconcileBody q\<rparr>"

definition enqueue_effect_reconcile :: "runtime_reconcile_command \<Rightarrow> ('s, 'x, bool) repairing" where
  "enqueue_effect_reconcile q = (\<lambda>s. case enqueue_once (rs_now s) (reconcile_payload q) (rs_queue s) of
     (r, qu) \<Rightarrow> (r, s\<lparr>rs_queue := qu\<rparr>))"

record execution_counts =
  xc_queued :: nat
  xc_already_queued :: nat
  xc_withheld :: nat
  xc_unsupported :: nat
  xc_failed :: nat

definition no_counts :: execution_counts where
  "no_counts = \<lparr>xc_queued = 0, xc_already_queued = 0, xc_withheld = 0, xc_unsupported = 0, xc_failed = 0\<rparr>"

datatype repair_outcome = SKIPPED | QUEUED | ALREADY_QUEUED | REVALIDATION_WITHHELD | UNSUPPORTED | ENQUEUE_FAILED

fun count_outcome :: "repair_outcome \<Rightarrow> execution_counts \<Rightarrow> execution_counts" where
  "count_outcome SKIPPED n = n"
| "count_outcome QUEUED n = n\<lparr>xc_queued := Suc (xc_queued n)\<rparr>"
| "count_outcome ALREADY_QUEUED n = n\<lparr>xc_already_queued := Suc (xc_already_queued n)\<rparr>"
| "count_outcome REVALIDATION_WITHHELD n = n\<lparr>xc_withheld := Suc (xc_withheld n)\<rparr>"
| "count_outcome UNSUPPORTED n = n\<lparr>xc_unsupported := Suc (xc_unsupported n)\<rparr>"
| "count_outcome ENQUEUE_FAILED n = n\<lparr>xc_failed := Suc (xc_failed n)\<rparr>"

definition dispatch_reconcile :: "'s collector \<Rightarrow> effect_claim \<Rightarrow> ('s, 'x, repair_outcome) repairing" where
  "dispatch_reconcile cl c =
     bnd (lift (build_reconcile_command (cl_sha256 cl) (cl_iso cl) c)) (\<lambda>command. case command of
       None \<Rightarrow> ret REVALIDATION_WITHHELD
     | Some q \<Rightarrow> catch (bnd (enqueue_effect_reconcile q) (\<lambda>inserted. ret (if inserted then QUEUED else ALREADY_QUEUED)))
                   (\<lambda>_. ret ENQUEUE_FAILED))"

definition execute_decision ::
  "'s collector \<Rightarrow> string \<Rightarrow> int \<Rightarrow> repair_decision \<Rightarrow> ('s, 'x, repair_outcome) repairing" where
  "execute_decision cl tenant now d =
     (case (rd_state d, rd_action d) of
        (CANDIDATE, Some action) \<Rightarrow>
          if action \<noteq> EFFECT_RECONCILE_CANDIDATE then ret UNSUPPORTED
          else bnd (\<lambda>s. (revalidate_claim cl tenant (rd_candidate_id d) now (rs_world s), s)) (\<lambda>found. case found of
               None \<Rightarrow> ret REVALIDATION_WITHHELD
             | Some (c, r) \<Rightarrow>
                 if ec_org_id c \<noteq> tenant \<or> ec_claim_id c \<noteq> rd_candidate_id d
                    \<or> rp_tenant_id r \<noteq> tenant \<or> rp_candidate_id r \<noteq> rd_candidate_id d then ret REVALIDATION_WITHHELD
                 else bnd (lift (decide_record r)) (\<lambda>fresh.
                      if rd_state fresh \<noteq> CANDIDATE \<or> rd_action fresh \<noteq> Some EFFECT_RECONCILE_CANDIDATE
                         \<or> rd_candidate_id fresh \<noteq> rd_candidate_id d then ret REVALIDATION_WITHHELD
                      else dispatch_reconcile cl c))
      | _ \<Rightarrow> ret SKIPPED)"

fun execute ::
  "'s collector \<Rightarrow> string \<Rightarrow> int \<Rightarrow> repair_decision list \<Rightarrow> execution_counts \<Rightarrow> ('s, 'x, execution_counts) repairing" where
  "execute cl tenant now [] n = ret n"
| "execute cl tenant now (d # ds) n =
     bnd (execute_decision cl tenant now d) (\<lambda>x. execute cl tenant now ds (count_outcome x n))"

section \<open>Planning a snapshot\<close>

definition max_page_advances :: nat where
  "max_page_advances = 8"

definition max_cas_conflicts :: nat where
  "max_cas_conflicts = 8"

definition plan_state :: "int \<Rightarrow> snapshot_state \<Rightarrow> repair_plan result" where
  "plan_state page_size st =
     rbind (state_cursor st) (\<lambda>c.
     rbind (repair_request_make \<lparr>rq_tenant_id = sn_tenant_id (ss_snapshot st), rq_snapshot_id = sn_snapshot_id (ss_snapshot st),
       rq_as_of = sn_as_of (ss_snapshot st), rq_records = sn_records (ss_snapshot st), rq_cursor = c, rq_limit = page_size\<rparr>)
     plan_repairs)"

definition advance_by :: "snapshot_state \<Rightarrow> repair_plan \<Rightarrow> (planning_store, bool) eff" where
  "advance_by st p = advance_snapshot (sn_tenant_id (ss_snapshot st)) (sn_snapshot_id (ss_snapshot st)) (ss_after st) p"

definition reload_state :: "snapshot_state \<Rightarrow> planning_store \<Rightarrow> snapshot_state option" where
  "reload_state st s = load_state (sn_tenant_id (ss_snapshot st)) (sn_snapshot_id (ss_snapshot st)) s"

text \<open>Candidates and withheld records of the pages so far.\<close>

definition count_page :: "repair_plan \<Rightarrow> nat \<times> nat \<Rightarrow> nat \<times> nat" where
  "count_page p n = (fst n + length (filter (\<lambda>d. rd_state d = CANDIDATE) (pl_decisions p)),
     snd n + length (filter (\<lambda>d. rd_state d = WITHHELD) (pl_decisions p)))"

function plan_loop ::
  "int \<Rightarrow> nat \<Rightarrow> nat \<Rightarrow> nat \<times> nat \<Rightarrow> snapshot_state \<Rightarrow> (planning_store, nat \<times> nat) eff" where
  "plan_loop page_size advances conflicts n st s =
     (if max_page_advances \<le> advances \<or> ss_completed st then (Inr n, s)
      else case plan_state page_size st of
          Inl e \<Rightarrow> (Inl e, s)
        | Inr p \<Rightarrow> (case advance_by st p s of
            (Inl e, t) \<Rightarrow> (Inl e, t)
          | (Inr advanced, t) \<Rightarrow>
              if \<not> advanced then
                if max_cas_conflicts \<le> Suc conflicts then (Inl RepairPlanningStateError, t)
                else (case reload_state st t of
                    None \<Rightarrow> (Inl RepairPlanningStateError, t)
                  | Some st' \<Rightarrow> plan_loop page_size advances (Suc conflicts) n st' t)
              else (case reload_state st t of
                    None \<Rightarrow> (Inl RepairPlanningStateError, t)
                  | Some st' \<Rightarrow> plan_loop page_size (Suc advances) 0 (count_page p n) st' t)))"
  by pat_completeness auto
termination
  by (relation "measure (\<lambda>(page_size, advances, conflicts, n, st, s).
        (max_page_advances - advances) * Suc max_cas_conflicts + (max_cas_conflicts - conflicts))")
     (auto simp: max_page_advances_def max_cas_conflicts_def)

declare plan_loop.simps [simp del]

definition plan_snapshot :: "int \<Rightarrow> planning_snapshot \<Rightarrow> (planning_store, nat \<times> nat) eff" where
  "plan_snapshot page_size snap = bnd (load_or_create snap) (\<lambda>st. plan_loop page_size 0 0 (0, 0) st)"

section \<open>A cycle\<close>

record 's runner =
  ru_collector :: "'s collector"
  ru_executor :: "'s collector option"
  ru_page_size :: int
  ru_max_claims :: int

definition runner_make :: "'s runner \<Rightarrow> 's runner result" where
  "runner_make ru = (if 1 \<le> ru_page_size ru \<and> ru_page_size ru \<le> 500 \<and> 1 \<le> ru_max_claims ru \<and> ru_max_claims ru \<le> 500
     then Inr ru else Inl ValueError)"

record cycle_result =
  cy_snapshots :: nat
  cy_candidates :: nat
  cy_withheld :: nat
  cy_failed :: nat
  cy_execution :: execution_counts

definition execute_snapshot :: "'s runner \<Rightarrow> planning_snapshot \<Rightarrow> int \<Rightarrow> ('s, 'x, execution_counts) repairing" where
  "execute_snapshot ru snap now = (case ru_executor ru of
       None \<Rightarrow> ret no_counts
     | Some cl \<Rightarrow> (\<lambda>s.
         let candidates = filter (\<lambda>d. rd_state d = CANDIDATE)
               (list_outcomes (sn_tenant_id snap) (sn_snapshot_id snap) (rs_plans s)) in
         if candidates = [] then (Inr no_counts, s)
         else execute cl (sn_tenant_id snap) now candidates no_counts s))"

definition add_counts :: "execution_counts \<Rightarrow> execution_counts \<Rightarrow> execution_counts" where
  "add_counts a b = \<lparr>xc_queued = xc_queued a + xc_queued b, xc_already_queued = xc_already_queued a + xc_already_queued b,
     xc_withheld = xc_withheld a + xc_withheld b, xc_unsupported = xc_unsupported a + xc_unsupported b,
     xc_failed = xc_failed a + xc_failed b\<rparr>"

text \<open>
  One snapshot of the page: the counts with it, and whether it is finished. What raises is a failure
  of this snapshot only.
\<close>

definition run_snapshot :: "'s runner \<Rightarrow> int \<Rightarrow> planning_snapshot \<Rightarrow> cycle_result \<Rightarrow> ('s, 'x, cycle_result \<times> bool) repairing" where
  "run_snapshot ru now snap res = catch
     (bnd (on_plans (plan_snapshot (ru_page_size ru) snap)) (\<lambda>(cand, held).
      bnd (execute_snapshot ru snap now) (\<lambda>x. \<lambda>s.
        (Inr (res\<lparr>cy_candidates := cy_candidates res + cand, cy_withheld := cy_withheld res + held,
                  cy_failed := cy_failed res + xc_failed x, cy_execution := add_counts (cy_execution res) x\<rparr>,
              (case load_state (sn_tenant_id snap) (sn_snapshot_id snap) (rs_plans s) of
                 None \<Rightarrow> False | Some st \<Rightarrow> ss_completed st \<and> xc_failed x = 0)), s))))
     (\<lambda>_. ret (res\<lparr>cy_failed := Suc (cy_failed res)\<rparr>, False))"

fun run_snapshots ::
  "'s runner \<Rightarrow> int \<Rightarrow> planning_snapshot list \<Rightarrow> cycle_result \<Rightarrow> bool \<Rightarrow> ('s, 'x, cycle_result \<times> bool) repairing" where
  "run_snapshots ru now [] res finished = ret (res, finished)"
| "run_snapshots ru now (snap # snaps) res finished =
     bnd (run_snapshot ru now snap res) (\<lambda>(res', full). run_snapshots ru now snaps res' (finished \<and> full))"

definition cycle_start :: "nat \<Rightarrow> nat \<Rightarrow> cycle_result" where
  "cycle_start snapshots failed =
     \<lparr>cy_snapshots = snapshots, cy_candidates = 0, cy_withheld = 0, cy_failed = failed, cy_execution = no_counts\<rparr>"

definition repair_cycle :: "'s runner \<Rightarrow> int \<Rightarrow> ('s, 'x, cycle_result) repairing" where
  "repair_cycle ru now = (\<lambda>s. case collect (ru_collector ru) (ru_max_claims ru) (ps_scan (rs_plans s)) now (rs_world s) of
       Inl e \<Rightarrow> (if is_exception e then Inr (cycle_start 0 1) else Inl e, s)
     | Inr page \<Rightarrow>
         bnd (run_snapshots ru now (sp_snapshots page) (cycle_start (length (sp_snapshots page)) 0) True) (\<lambda>(res, finished).
           if finished \<and> sp_advance page
           then catch (bnd (on_plans (advance_scan_cursor (sp_expected page) (sp_next page))) (\<lambda>_. ret res))
                  (\<lambda>_. ret (res\<lparr>cy_failed := Suc (cy_failed res)\<rparr>))
           else ret res) s)"

end
