(* ===== verification/RepairPlanningProperties.thy ===== *)
theory RepairPlanningProperties
  imports RepairPlanning
begin

text \<open>
  The planner is fail-closed, and following its cursors enumerates a snapshot exactly once in the
  order of the candidate ids, whatever the size of a page.
\<close>

section \<open>Decisions\<close>

definition provably_repairable :: "repair_record \<Rightarrow> bool" where
  "provably_repairable r \<longleftrightarrow> rp_coverage r = GRAPH_COMPLETE \<and> rp_scheme r \<in> set known_schemes \<and> rp_hold r = HOLD_NONE
     \<and> rp_evidence r = EVIDENCE_VERIFIED \<and> rp_evidence_id r \<noteq> None
     \<and> (cleanup_kind (rp_kind r) \<longrightarrow> rp_owner r = OWNER_TERMINAL)
     \<and> (rp_kind r = EFFECT_RECONCILIATION \<longrightarrow> uncertain_effect (rp_effect r) \<and> rp_owner r = OWNER_TERMINAL
          \<and> rp_supported r = Some True \<and> rp_quiet r = Some True)"

lemma set_blockers: "set (blockers r) = set (found_blockers r)"
  by (simp add: blockers_def)

lemma no_blockers: "blockers r = [] \<longleftrightarrow> provably_repairable r"
proof -
  have "blockers r = [] \<longleftrightarrow> found_blockers r = []" by (metis set_blockers set_empty)
  also have "\<dots> \<longleftrightarrow> provably_repairable r"
    by (cases "rp_hold r") (auto simp: found_blockers_def provably_repairable_def cleanup_kind_def)
  finally show ?thesis .
qed

definition decided :: "repair_record \<Rightarrow> repair_decision" where
  "decided r = (if blockers r \<noteq> []
     then \<lparr>rd_candidate_id = rp_candidate_id r, rd_state = WITHHELD, rd_action = None, rd_reasons = blockers r\<rparr>
     else \<lparr>rd_candidate_id = rp_candidate_id r, rd_state = CANDIDATE, rd_action = Some (action_by_kind (rp_kind r)),
        rd_reasons = [VERIFIED_REPAIR_SIGNAL]\<rparr>)"

lemma decide_record_decided: "opaque_identifier (rp_candidate_id r) \<Longrightarrow> decide_record r = Inr (decided r)"
  by (simp add: decide_record_def decided_def repair_decision_make_def Let_def)

lemma repair_record_make_Inr: "repair_record_make r = Inr r' \<Longrightarrow> r' = r \<and> opaque_identifier (rp_candidate_id r)"
  by (auto simp: repair_record_make_def split: if_splits)

text \<open>C37: A repair is a candidate only when everything is proved. A valid record is decided without an
  error: as a candidate for its kind's action exactly when the graph is complete, the reference
  scheme is known, no hold is or may be active, verified evidence is named, and the owner is
  terminal where the kind asks for it, an uncertain, supported and quiet effect included; otherwise
  it is withheld, with no action, for at least one reason.
\<close>

theorem candidate_iff_provable:
  assumes "repair_record_make r = Inr r"
  shows "\<exists>d. decide_record r = Inr d \<and> rd_candidate_id d = rp_candidate_id r
     \<and> (rd_state d = CANDIDATE \<longleftrightarrow> provably_repairable r)
     \<and> rd_action d = (if provably_repairable r then Some (action_by_kind (rp_kind r)) else None)
     \<and> rd_reasons d \<noteq> [] \<and> (rd_reasons d = [VERIFIED_REPAIR_SIGNAL] \<longleftrightarrow> provably_repairable r)"
proof -
  have "VERIFIED_REPAIR_SIGNAL \<notin> set (blockers r)" by (auto simp: set_blockers found_blockers_def)
  with repair_record_make_Inr [OF assms] show ?thesis
    by (auto simp: decide_record_decided decided_def no_blockers)
qed

definition sample_repair :: "string \<Rightarrow> repair_record" where
  "sample_repair i = \<lparr>rp_candidate_id = i, rp_tenant_id = ''org'', rp_kind = EFFECT_RECONCILIATION, rp_scheme = ''mcp-target'',
     rp_coverage = GRAPH_COMPLETE, rp_hold = HOLD_NONE, rp_evidence = EVIDENCE_VERIFIED, rp_evidence_id = Some ''rev_1'',
     rp_owner = OWNER_TERMINAL, rp_effect = EFFECT_INDETERMINATE, rp_supported = Some True, rp_quiet = Some True\<rparr>"

theorem candidate_iff_provable_witness:
  "\<exists>d. decide_record (sample_repair ''c1'') = Inr d \<and> rd_action d = Some EFFECT_RECONCILE_CANDIDATE"
proof -
  have "ok (repair_record_make (sample_repair ''c1''))" by code_simp
  then have make: "repair_record_make (sample_repair ''c1'') = Inr (sample_repair ''c1'')"
    by (auto simp: ok_iff dest: repair_record_make_Inr)
  have "provably_repairable (sample_repair ''c1'')" by code_simp
  with candidate_iff_provable [OF make] show ?thesis by (auto simp: sample_repair_def)
qed

section \<open>Pages\<close>

text \<open>The pages a caller gets that follows the cursors, as long as its patience lasts.\<close>

fun plan_pages :: "nat \<Rightarrow> repair_request \<Rightarrow> repair_decision list list option" where
  "plan_pages 0 q = None"
| "plan_pages (Suc n) q = (case plan_repairs q of
       Inl e \<Rightarrow> None
     | Inr p \<Rightarrow> (case pl_next p of
         None \<Rightarrow> Some [pl_decisions p]
       | Some c \<Rightarrow> map_option ((#) (pl_decisions p)) (plan_pages n (q\<lparr>rq_cursor := Some c\<rparr>))))"

definition request_ok :: "repair_request \<Rightarrow> bool" where
  "request_ok q \<longleftrightarrow> repair_request_make q = Inr q \<and> list_all (\<lambda>r. repair_record_make r = Inr r) (rq_records q)
     \<and> list_all (\<lambda>r. rp_tenant_id r = rq_tenant_id q) (rq_records q) \<and> distinct (map rp_candidate_id (rq_records q))"

definition left_to_plan :: "repair_request \<Rightarrow> repair_record list" where
  "left_to_plan q = filter (\<lambda>r. case rq_cursor q of None \<Rightarrow> True | Some c \<Rightarrow> rc_after c < rp_candidate_id r)
     (sort_key rp_candidate_id (rq_records q))"

definition cursor_fits :: "repair_request \<Rightarrow> bool" where
  "cursor_fits q \<longleftrightarrow> (case rq_cursor q of None \<Rightarrow> True
     | Some c \<Rightarrow> rc_tenant_id c = rq_tenant_id q \<and> rc_snapshot_id c = rq_snapshot_id q)"

lemma rmap_decided: "list_all (\<lambda>r. opaque_identifier (rp_candidate_id r)) rs \<Longrightarrow> rmap decide_record rs = Inr (map decided rs)"
  by (induction rs) (simp_all add: decide_record_decided)

lemma plan_run:
  assumes "request_ok q" and "cursor_fits q"
  defines "page \<equiv> take (nat (rq_limit q)) (left_to_plan q)"
  defines "rest_left \<equiv> nat (rq_limit q) < length (left_to_plan q)"
  shows "plan_repairs q = Inr \<lparr>pl_tenant_id = rq_tenant_id q, pl_snapshot_id = rq_snapshot_id q, pl_as_of = rq_as_of q,
     pl_decisions = map decided page,
     pl_next = (if rest_left then Some \<lparr>rc_tenant_id = rq_tenant_id q, rc_snapshot_id = rq_snapshot_id q,
        rc_after = rp_candidate_id (last page)\<rparr> else None), pl_has_more = rest_left\<rparr>"
proof -
  have ids: "\<forall>r\<in>set (rq_records q). opaque_identifier (rp_candidate_id r)"
    using assms(1) by (auto simp: request_ok_def list_all_iff dest: repair_record_make_Inr)
  have lim: "1 \<le> rq_limit q" "opaque_identifier (rq_tenant_id q)" "opaque_identifier (rq_snapshot_id q)"
    using assms(1) by (auto simp: request_ok_def repair_request_make_def split: if_splits)
  have sub: "set page \<subseteq> set (rq_records q)"
    using set_take_subset [of "nat (rq_limit q)" "left_to_plan q"] by (auto simp: page_def left_to_plan_def)
  have dec: "rmap decide_record page = Inr (map decided page)"
    using ids sub by (intro rmap_decided) (auto simp: list_all_iff)
  have rest_left: "length page < length (left_to_plan q) \<longleftrightarrow> rest_left" using lim(1) by (auto simp: page_def rest_left_def min_def)
  have "rest_left \<Longrightarrow> page \<noteq> []" using lim(1) by (auto simp: rest_left_def page_def)
  then have cur: "next_cursor q page rest_left = Inr (if rest_left then Some \<lparr>rc_tenant_id = rq_tenant_id q,
      rc_snapshot_id = rq_snapshot_id q, rc_after = rp_candidate_id (last page)\<rparr> else None)"
    using ids lim subsetD [OF sub last_in_set [of page]] by (auto simp: next_cursor_def repair_cursor_make_def)
  have scope: "validate_request_scope q = Inr ()"
    using assms(1,2) by (simp add: validate_request_scope_def cursor_fits_def request_ok_def)
  have dist: "distinct (map rp_candidate_id (sort_key rp_candidate_id (rq_records q)))"
    using assms(1) by (simp add: request_ok_def distinct_map)
  show ?thesis
    by (simp add: plan_repairs_def scope dist Let_def left_to_plan_def [symmetric] page_def [symmetric] rest_left cur dec
        del: length_take)
qed


text \<open>What is left for the next cursor is what the page did not take.\<close>

lemma after_last:
  assumes "sorted_wrt (\<lambda>a b. f a < (f b :: 'k :: linorder)) (ys @ zs)" and "ys \<noteq> []"
  shows "filter (\<lambda>x. f (last ys) < f x) (ys @ zs) = zs"
proof -
  obtain us u where ys: "ys = us @ [u]" using assms(2) by (metis rev_exhaust)
  then show ?thesis using assms(1) by (auto simp: sorted_wrt_append filter_id_conv filter_empty_conv)
qed

lemma plan_order: "distinct (map f rs) \<Longrightarrow> sorted_wrt (\<lambda>a b. f a < (f b :: 'k :: linorder)) (sort_key f rs)"
  using strict_sorted_iff [of "map f (sort_key f rs)"] sorted_sort_key [of f rs] by (simp add: distinct_map sorted_wrt_map)

lemma left_order: "request_ok q \<Longrightarrow> sorted_wrt (\<lambda>a b. rp_candidate_id a < rp_candidate_id b) (left_to_plan q)"
  unfolding left_to_plan_def request_ok_def by (intro sorted_wrt_filter plan_order) simp

lemma left_next:
  assumes q: "request_ok q" and n: "0 < n" "n < length (left_to_plan q)"
  shows "left_to_plan (q\<lparr>rq_cursor := Some \<lparr>rc_tenant_id = t, rc_snapshot_id = s,
     rc_after = rp_candidate_id (last (take n (left_to_plan q)))\<rparr>\<rparr>) = drop n (left_to_plan q)"
proof -
  let ?L = "left_to_plan q"
  have ne: "take n ?L \<noteq> []" using n by auto
  have "last (take n ?L) \<in> set ?L" by (meson in_set_takeD last_in_set ne)
  moreover have "case rq_cursor q of None \<Rightarrow> True | Some c \<Rightarrow> rc_after c < rp_candidate_id l" if "l \<in> set ?L" for l
    using that by (simp add: left_to_plan_def)
  ultimately have "case rq_cursor q of None \<Rightarrow> True | Some c \<Rightarrow> rc_after c < rp_candidate_id (last (take n ?L))"
    by blast
  then have "left_to_plan (q\<lparr>rq_cursor := Some \<lparr>rc_tenant_id = t, rc_snapshot_id = s,
      rc_after = rp_candidate_id (last (take n ?L))\<rparr>\<rparr>)
    = filter (\<lambda>r. rp_candidate_id (last (take n ?L)) < rp_candidate_id r) ?L"
    unfolding left_to_plan_def by (auto intro!: filter_cong split: option.splits)
  also have "\<dots> = drop n ?L"
    using after_last [of rp_candidate_id "take n ?L" "drop n ?L"] left_order [OF q] ne by simp
  finally show ?thesis .
qed

lemma request_ok_cursor [simp]: "request_ok (q\<lparr>rq_cursor := c\<rparr>) = request_ok q"
  by (simp add: request_ok_def repair_request_make_def)

lemma plan_pages_left:
  assumes "request_ok q" and "cursor_fits q" and "length (left_to_plan q) < n"
  shows "\<exists>ps. plan_pages n q = Some ps \<and> concat ps = map decided (left_to_plan q)
     \<and> list_all (\<lambda>p. int (length p) \<le> rq_limit q) ps"
  using assms
proof (induction n arbitrary: q)
  case (Suc n)
  let ?L = "left_to_plan q" and ?k = "nat (rq_limit q)"
  have k: "0 < ?k" "int ?k = rq_limit q"
    using Suc.prems(1) by (auto simp: request_ok_def repair_request_make_def split: if_splits)
  show ?case
  proof (cases "?k < length ?L")
    case True
    let ?q = "q\<lparr>rq_cursor := Some \<lparr>rc_tenant_id = rq_tenant_id q, rc_snapshot_id = rq_snapshot_id q,
      rc_after = rp_candidate_id (last (take ?k ?L))\<rparr>\<rparr>"
    have left: "left_to_plan ?q = drop ?k ?L" by (rule left_next [OF Suc.prems(1) k(1) True])
    have "\<exists>ps. plan_pages n ?q = Some ps \<and> concat ps = map decided (left_to_plan ?q)
        \<and> list_all (\<lambda>p. int (length p) \<le> rq_limit ?q) ps"
      using Suc.prems k(1) True by (intro Suc.IH) (simp_all add: left cursor_fits_def)
    then show ?thesis
      using True k(2) plan_run [OF Suc.prems(1,2)] by (auto simp: left map_append [symmetric] simp del: map_append)
  next
    case False
    then show ?thesis using k plan_run [OF Suc.prems(1,2)] by simp
  qed
qed simp

text \<open>Pages enumerate a snapshot once. For a valid request whose records are of its tenant and
  have distinct candidate ids, a caller that starts without a cursor and follows each page's
  cursor is done after at most one call per record and one more; the pages together are the
  decisions of all the records in the order of the candidate ids, each record exactly once, and no
  page is longer than the limit: the limit never changes what is planned.
\<close>

theorem plan_enumerates:
  assumes "request_ok q" and "rq_cursor q = None"
  shows "\<exists>ps. plan_pages (Suc (length (rq_records q))) q = Some ps
     \<and> concat ps = map decided (sort_key rp_candidate_id (rq_records q))
     \<and> list_all (\<lambda>p. int (length p) \<le> rq_limit q) ps"
proof -
  have "left_to_plan q = sort_key rp_candidate_id (rq_records q)" by (simp add: left_to_plan_def assms(2))
  with plan_pages_left [OF assms(1), of "Suc (length (rq_records q))"] show ?thesis
    by (simp add: cursor_fits_def assms(2))
qed

definition sample_plan_request :: repair_request where
  "sample_plan_request = \<lparr>rq_tenant_id = ''org'', rq_snapshot_id = ''snap'', rq_as_of = 0,
     rq_records = [sample_repair ''c2'', (sample_repair ''c1'')\<lparr>rp_hold := HOLD_ACTIVE\<rparr>, sample_repair ''c3''],
     rq_cursor = None, rq_limit = 2\<rparr>"

theorem plan_enumerates_witness:
  "\<exists>ps. plan_pages 4 sample_plan_request = Some ps \<and> map rd_candidate_id (concat ps) = [''c1'', ''c2'', ''c3'']
     \<and> map rd_state (concat ps) = [WITHHELD, CANDIDATE, CANDIDATE]"
proof -
  have checks: "list_all (\<lambda>r. ok (repair_record_make r)) (rq_records sample_plan_request)"
    "ok (repair_request_make sample_plan_request)" "distinct (map rp_candidate_id (rq_records sample_plan_request))"
    "list_all (\<lambda>r. rp_tenant_id r = rq_tenant_id sample_plan_request) (rq_records sample_plan_request)"
    by code_simp+
  have "repair_request_make sample_plan_request = Inr sample_plan_request"
    using checks(2) by (auto simp: repair_request_make_def ok_def split: if_splits)
  moreover have "list_all (\<lambda>r. repair_record_make r = Inr r) (rq_records sample_plan_request)"
    using checks(1) by (auto simp: list_all_iff ok_iff dest!: repair_record_make_Inr) (metis repair_record_make_Inr)
  ultimately have "request_ok sample_plan_request" using checks(3,4) by (simp add: request_ok_def)
  from plan_enumerates [OF this] obtain ps where ps: "plan_pages 4 sample_plan_request = Some ps"
    "concat ps = map decided (sort_key rp_candidate_id (rq_records sample_plan_request))"
    by (auto simp: sample_plan_request_def eval_nat_numeral)
  have "map rd_candidate_id (map decided (sort_key rp_candidate_id (rq_records sample_plan_request))) = [''c1'', ''c2'', ''c3'']"
    by code_simp
  moreover have "map rd_state (map decided (sort_key rp_candidate_id (rq_records sample_plan_request)))
      = [WITHHELD, CANDIDATE, CANDIDATE]"
    by code_simp
  ultimately show ?thesis using ps by (intro exI [of _ ps]) (simp only: simp_thms)
qed

end
