(* ===== verification/RepairStoreLaws.thy ===== *)
theory RepairStoreLaws
  imports RepairStore RepairPlanningProperties
begin

text \<open>
  What every operation of the planning store keeps: the outcomes of a snapshot are the decisions of a
  prefix of its records, in their order, and the cursor is where the prefix ends.
\<close>

section \<open>Snapshots that are well formed\<close>

definition snapshot_ok :: "planning_snapshot \<Rightarrow> bool" where
  "snapshot_ok s \<longleftrightarrow> planning_snapshot_make s = Inr s \<and> list_all (\<lambda>r. repair_record_make r = Inr r) (sn_records s)
     \<and> sorted_wrt (\<lambda>a b. rp_candidate_id a < rp_candidate_id b) (sn_records s)"

lemma build_planning_snapshot_ok:
  assumes "build_planning_snapshot h t rs c a = Inr s" and "list_all (\<lambda>r. repair_record_make r = Inr r) rs"
  shows "snapshot_ok s \<and> sn_tenant_id s = t \<and> sn_records s = sort_key rp_candidate_id rs \<and> sn_source_complete s = c
     \<and> sn_as_of s = a"
proof -
  have "distinct (map rp_candidate_id rs)"
    using assms(1) by (auto simp: build_planning_snapshot_def Let_def distinct_map require_def split: if_splits)
  then show ?thesis
    using assms by (auto simp: build_planning_snapshot_def snapshot_ok_def planning_snapshot_make_def Let_def require_def
        plan_order list_all_iff split: if_splits)
qed

lemma sorted_records_distinct: "snapshot_ok s \<Longrightarrow> distinct (map rp_candidate_id (sn_records s))"
  unfolding snapshot_ok_def by (metis sorted_wrt_map strict_sorted_iff)

lemma sorted_records: "snapshot_ok s \<Longrightarrow> sorted (map rp_candidate_id (sn_records s))"
  unfolding snapshot_ok_def by (metis sorted_wrt_map strict_sorted_iff)

section \<open>Association lists\<close>

lemma put_assoc_new: "k \<notin> fst ` set os \<Longrightarrow> put_assoc k v os = os @ [(k, v)]"
  by (induction os) auto

lemma record_new_decisions:
  assumes "distinct (map rd_candidate_id ds)" and "fst ` set os \<inter> rd_candidate_id ` set ds = {}"
  shows "record_decisions ds os = (Inr (), os @ map (\<lambda>d. (rd_candidate_id d, d)) ds)"
  using assms
proof (induction ds arbitrary: os)
  case (Cons d ds)
  then have "map_of os (rd_candidate_id d) = None" by (auto simp: map_of_eq_None_iff)
  moreover have "put_assoc (rd_candidate_id d) d os = os @ [(rd_candidate_id d, d)]"
    using Cons.prems(2) by (intro put_assoc_new) auto
  moreover have "record_decisions ds (os @ [(rd_candidate_id d, d)])
      = (Inr (), (os @ [(rd_candidate_id d, d)]) @ map (\<lambda>d. (rd_candidate_id d, d)) ds)"
    using Cons.prems by (intro Cons.IH) auto
  ultimately show ?case by simp
qed simp

section \<open>Progress\<close>

text \<open>The first \<open>k\<close> records of a snapshot are decided.\<close>

definition progressed :: "nat \<Rightarrow> snapshot_state \<Rightarrow> (string \<times> repair_decision) list \<Rightarrow> bool" where
  "progressed k st os \<longleftrightarrow> k \<le> length (sn_records (ss_snapshot st))
     \<and> map fst os = map rp_candidate_id (take k (sn_records (ss_snapshot st))) \<and> list_all (\<lambda>(i, d). rd_candidate_id d = i) os
     \<and> ss_after st = last_id (map rp_candidate_id (take k (sn_records (ss_snapshot st))))
     \<and> (ss_completed st \<longrightarrow> k = length (sn_records (ss_snapshot st)))
     \<and> (k = length (sn_records (ss_snapshot st)) \<and> 0 < k \<longrightarrow> ss_completed st)"

lemma progressedD:
  assumes "progressed k st os"
  defines "rs \<equiv> sn_records (ss_snapshot st)"
  shows "k \<le> length rs" and "map fst os = map rp_candidate_id (take k rs)"
    and "ss_after st = last_id (map rp_candidate_id (take k rs))"
    and "k = length rs \<Longrightarrow> 0 < k \<Longrightarrow> ss_completed st" and "ss_completed st \<Longrightarrow> k = length rs"
    and "list_all (\<lambda>(i, d). rd_candidate_id d = i) os"
  using assms(1) unfolding progressed_def rs_def by blast+

lemma records_after_progress:
  assumes "snapshot_ok s" and "k \<le> length (sn_records s)"
  shows "records_after (last_id (map rp_candidate_id (take k (sn_records s)))) (sn_records s) = drop k (sn_records s)"
proof (cases "take k (sn_records s) = []")
  case False
  have "filter (\<lambda>r. rp_candidate_id (last (take k (sn_records s))) < rp_candidate_id r)
      (take k (sn_records s) @ drop k (sn_records s)) = drop k (sn_records s)"
    using assms(1) False by (intro after_last) (auto simp: snapshot_ok_def)
  then show ?thesis using False by (simp add: records_after_def last_id_def last_map)
qed (use assms in \<open>auto simp: records_after_def last_id_def\<close>)

lemma last_id_append: "last_id (xs @ ys) = (if ys = [] then last_id xs else Some (last ys))"
  by (simp add: last_id_def)

lemma last_id_in: "last_id ids = Some i \<Longrightarrow> i \<in> set ids"
  by (auto simp: last_id_def split: if_splits)

text \<open>A page that passes the guard is the next records, and the state after it is where they end.\<close>

lemma page_exact_next:
  assumes ok: "snapshot_ok (ss_snapshot st)" and k: "progressed k st os" and open_st: "\<not> ss_completed st"
    and page: "page_exact st p"
  defines "n \<equiv> length (pl_decisions p)" and "rs \<equiv> sn_records (ss_snapshot st)"
  shows "map rd_candidate_id (pl_decisions p) = map rp_candidate_id (take n (drop k rs))" and "k + n \<le> length rs"
    and "pl_has_more p \<longleftrightarrow> k + n < length rs"
    and "state_after_page st p = Inr \<lparr>ss_snapshot = ss_snapshot st,
       ss_after = last_id (map rp_candidate_id (take (k + n) rs)), ss_completed = (\<not> pl_has_more p)\<rparr>"
proof -
  let ?ids = "map rd_candidate_id (pl_decisions p)"
  note prog = progressedD [OF k, folded rs_def]
  note kle = prog(1)
  have left: "records_after (ss_after st) rs = drop k rs"
    using records_after_progress [OF ok] prog(1,3) by (simp add: rs_def)
  from page show ids: "?ids = map rp_candidate_id (take n (drop k rs))"
    by (simp add: page_exact_def Let_def left rs_def [symmetric] n_def)
  then have len: "length ?ids = length (take n (drop k rs))" by (metis length_map)
  then show le: "k + n \<le> length rs" using kle by (auto simp: n_def)
  from page show has_more: "pl_has_more p \<longleftrightarrow> k + n < length rs"
    using kle by (auto simp: page_exact_def Let_def left rs_def [symmetric] n_def)
  have nonempty: "pl_decisions p \<noteq> []" if "k < length rs"
    using page that by (simp add: page_exact_def Let_def left rs_def [symmetric])
  have after: "(case pl_next p of Some c \<Rightarrow> Some (rc_after c) | None \<Rightarrow> last_id ?ids) = last_id (map rp_candidate_id (take (k + n) rs))"
  proof (cases "?ids = []")
    case True
    then have "k = length rs" using nonempty kle by fastforce
    then have "k = 0" "length rs = 0" using prog(4) open_st by auto
    moreover have "pl_next p = None"
      using page True by (auto simp: page_exact_def Let_def last_id_def split: if_splits)
    ultimately show ?thesis using True by (simp add: last_id_def)
  next
    case False
    then have "last_id (map rp_candidate_id (take (k + n) rs)) = last_id ?ids"
      unfolding take_add map_append last_id_append ids by (auto simp: last_id_def)
    then show ?thesis
      using page False by (auto simp: page_exact_def Let_def last_id_def split: option.splits if_splits)
  qed
  have "opaque_identifier i" if "i \<in> set (map rp_candidate_id rs)" for i
    using ok that repair_record_make_Inr by (auto simp: snapshot_ok_def list_all_iff rs_def)
  then have "case last_id (map rp_candidate_id (take (k + n) rs)) of None \<Rightarrow> True | Some a \<Rightarrow> opaque_identifier a"
    using last_id_in [of "map rp_candidate_id (take (k + n) rs)"] set_take_subset [of "k + n" "map rp_candidate_id rs"]
    unfolding take_map by (simp split: option.splits) blast
  then show "state_after_page st p = Inr \<lparr>ss_snapshot = ss_snapshot st,
       ss_after = last_id (map rp_candidate_id (take (k + n) rs)), ss_completed = (\<not> pl_has_more p)\<rparr>"
    unfolding state_after_page_def after by (simp add: snapshot_state_make_def)
qed

text \<open>Advancing either changes nothing or moves the progress of its own snapshot forward by a page.\<close>

lemma advance_progress:
  assumes run: "advance_snapshot t i e p s = (r, s')"
    and st: "ps_states s (t, i) = Some st" "ps_outcomes s (t, i) = Some os"
    and ok: "snapshot_ok (ss_snapshot st)" and k: "progressed k st os"
  obtains (kept) "s' = s" "r \<noteq> Inr True" "\<not> (ss_after st = e \<and> validate_plan_page st e p = Inr ())"
  | (moved) st' where "r = Inr True" "ss_after st = e" "\<not> ss_completed st" "page_exact st p" "ss_snapshot st' = ss_snapshot st"
      "progressed (k + length (pl_decisions p)) st' (os @ map (\<lambda>d. (rd_candidate_id d, d)) (pl_decisions p))"
      "s' = s\<lparr>ps_states := (ps_states s)((t, i) := Some st'),
         ps_outcomes := (ps_outcomes s)((t, i) := Some (os @ map (\<lambda>d. (rd_candidate_id d, d)) (pl_decisions p)))\<rparr>"
proof (cases "ss_after st = e \<and> validate_plan_page st e p = Inr ()")
  case False
  then show ?thesis
    using run st kept by (cases "validate_plan_page st e p") (auto simp: advance_snapshot_def Let_def split: if_splits)
next
  case True
  let ?rs = "sn_records (ss_snapshot st)" and ?n = "length (pl_decisions p)"
  from True have page: "page_exact st p" and live: "\<not> ss_completed st"
    by (auto simp: validate_plan_page_def require_def split: if_splits)
  note next_page = page_exact_next [OF ok k live page]
  have dist: "distinct (map rp_candidate_id (take k ?rs @ take ?n (drop k ?rs)))"
    using distinct_take [OF sorted_records_distinct [OF ok], of "k + ?n"] by (simp add: take_add take_map drop_map)
  have fresh: "record_decisions (pl_decisions p) os = (Inr (), os @ map (\<lambda>d. (rd_candidate_id d, d)) (pl_decisions p))"
  proof (rule record_new_decisions)
    show "distinct (map rd_candidate_id (pl_decisions p))" using dist by (simp add: next_page(1))
    have "fst ` set os = set (map rp_candidate_id (take k ?rs))"
      using progressedD(2) [OF k] by (metis list.set_map)
    moreover have "rd_candidate_id ` set (pl_decisions p) = set (map rp_candidate_id (take ?n (drop k ?rs)))"
      using next_page(1) by (metis list.set_map)
    ultimately show "fst ` set os \<inter> rd_candidate_id ` set (pl_decisions p) = {}" using dist by auto
  qed
  show ?thesis
  proof (rule moved)
    show "progressed (k + ?n) \<lparr>ss_snapshot = ss_snapshot st, ss_after = last_id (map rp_candidate_id (take (k + ?n) ?rs)),
       ss_completed = (\<not> pl_has_more p)\<rparr> (os @ map (\<lambda>d. (rd_candidate_id d, d)) (pl_decisions p))"
      using progressedD(2,6) [OF k] next_page(1-3) unfolding progressed_def
      by (auto simp: take_add comp_def list_all_iff)
  qed (use run st True page live fresh next_page(4) in \<open>auto simp: advance_snapshot_def Let_def\<close>)
qed

section \<open>The invariant\<close>

definition store_ok :: "planning_store \<Rightarrow> bool" where
  "store_ok s \<longleftrightarrow> (\<forall>t i st. ps_states s (t, i) = Some st \<longrightarrow>
     sn_tenant_id (ss_snapshot st) = t \<and> sn_snapshot_id (ss_snapshot st) = i \<and> snapshot_ok (ss_snapshot st)
     \<and> (\<exists>k os. ps_outcomes s (t, i) = Some os \<and> progressed k st os))
   \<and> (\<forall>key. ps_states s key = None \<longrightarrow> ps_outcomes s key = None)"

lemma store_okE:
  assumes "store_ok s" and "ps_states s (t, i) = Some st"
  obtains k os where "sn_tenant_id (ss_snapshot st) = t" "sn_snapshot_id (ss_snapshot st) = i" "snapshot_ok (ss_snapshot st)"
    "ps_outcomes s (t, i) = Some os" "progressed k st os"
  using assms unfolding store_ok_def by blast

lemma store_ok_put:
  assumes "store_ok s" and "snapshot_ok (ss_snapshot st)" and "progressed k st os"
  shows "store_ok (s\<lparr>ps_states := (ps_states s)((sn_tenant_id (ss_snapshot st), sn_snapshot_id (ss_snapshot st)) := Some st),
     ps_outcomes := (ps_outcomes s)((sn_tenant_id (ss_snapshot st), sn_snapshot_id (ss_snapshot st)) := Some os)\<rparr>)"
  using assms unfolding store_ok_def by auto

lemma advance_store_ok:
  assumes "advance_snapshot t i e p s = (r, s')" and "store_ok s"
  shows "store_ok s'"
proof (cases "ps_states s (t, i)")
  case None
  with assms show ?thesis by (auto simp: advance_snapshot_def)
next
  case (Some st)
  obtain k os where st: "sn_tenant_id (ss_snapshot st) = t" "sn_snapshot_id (ss_snapshot st) = i"
      "snapshot_ok (ss_snapshot st)" "ps_outcomes s (t, i) = Some os" "progressed k st os"
    by (rule store_okE [OF assms(2) Some])
  show ?thesis
  proof (cases rule: advance_progress [OF assms(1) Some st(4,3,5), case_names kept moved])
    case kept
    with assms(2) show ?thesis by simp
  next
    case (moved st')
    have "store_ok (s\<lparr>ps_states := (ps_states s)((sn_tenant_id (ss_snapshot st'), sn_snapshot_id (ss_snapshot st')) := Some st'),
        ps_outcomes := (ps_outcomes s)((sn_tenant_id (ss_snapshot st'), sn_snapshot_id (ss_snapshot st'))
          := Some (os @ map (\<lambda>d. (rd_candidate_id d, d)) (pl_decisions p)))\<rparr>)"
      using assms(2) moved st by (intro store_ok_put) simp_all
    then show ?thesis using moved(5,7) st by simp
  qed
qed

lemma load_or_create_cases:
  assumes "load_or_create snap s = (r, s')"
  obtains (created) st where "r = Inr st" "ps_states s (sn_tenant_id snap, sn_snapshot_id snap) = None"
      "st = \<lparr>ss_snapshot = snap, ss_after = None, ss_completed = False\<rparr>"
      "s' = s\<lparr>ps_states := (ps_states s)((sn_tenant_id snap, sn_snapshot_id snap) := Some st),
         ps_outcomes := (ps_outcomes s)((sn_tenant_id snap, sn_snapshot_id snap) := Some [])\<rparr>"
  | (existing) st where "r = Inr st" "ps_states s (sn_tenant_id snap, sn_snapshot_id snap) = Some st" "s' = s"
      "sn_records (ss_snapshot st) = sn_records snap"
  | (conflict) e where "r = Inl e" "s' = s"
  using assms by (auto simp: load_or_create_def Let_def snapshot_state_make_def same_persisted_snapshot_as_def
      split: option.splits if_splits)

lemma progressed_start: "progressed 0 \<lparr>ss_snapshot = snap, ss_after = None, ss_completed = False\<rparr> []"
  by (simp add: progressed_def last_id_def)

lemma load_or_create_store_ok:
  assumes run: "load_or_create snap s = (r, s')" and "store_ok s" and "snapshot_ok snap"
  shows "store_ok s'"
  using run
proof (cases rule: load_or_create_cases)
  case (created st)
  then show ?thesis
    using store_ok_put [OF assms(2), of st 0 "[]"] assms(3) by (simp add: progressed_start)
qed (use assms in auto)

lemma scan_store_ok [simp]: "store_ok (s\<lparr>ps_scan := c\<rparr>) = store_ok s"
  by (simp add: store_ok_def)

lemma advance_scan_store_ok: "advance_scan_cursor e n s = (r, s') \<Longrightarrow> store_ok s \<Longrightarrow> store_ok s'"
  by (auto simp: advance_scan_cursor_def split: if_splits)

lemma empty_store_ok: "store_ok empty_planning_store"
  by (simp add: store_ok_def empty_planning_store_def)

end
