(* ===== verification/RepairFleet.thy ===== *)
theory RepairFleet
  imports RepairRunner RepairStoreLaws
begin

text \<open>
  Any number of repair runners over one planning store: every step is one operation of one runner
  under the lock of the store, a runner may stop at any point and start again, and it keeps what it
  has loaded while others move the store. The decisions of a snapshot are recorded once each, in
  order.
\<close>

section \<open>The machine\<close>

datatype runner_pc =
    Stopped
  | Holding snapshot_state
  | Proposing snapshot_state repair_plan
  | Reloading snapshot_state

record fleet =
  fl_store :: planning_store
  fl_runner :: "nat \<Rightarrow> runner_pc"

definition fleet_put :: "nat \<Rightarrow> runner_pc \<Rightarrow> planning_store \<Rightarrow> fleet \<Rightarrow> fleet" where
  "fleet_put i pc s f = f\<lparr>fl_store := s, fl_runner := (fl_runner f)(i := pc)\<rparr>"

inductive fleet_step :: "(nat \<Rightarrow> int) \<Rightarrow> fleet \<Rightarrow> fleet \<Rightarrow> bool" for limits where
  fleet_start: "snapshot_ok snap \<Longrightarrow> load_or_create snap (fl_store f) = (Inr st, s)
     \<Longrightarrow> fleet_step limits f (fleet_put i (Holding st) s f)"
| fleet_plan: "fl_runner f i = Holding st \<Longrightarrow> \<not> ss_completed st \<Longrightarrow> plan_state (limits i) st = Inr p
     \<Longrightarrow> fleet_step limits f (fleet_put i (Proposing st p) (fl_store f) f)"
| fleet_advance: "fl_runner f i = Proposing st p \<Longrightarrow> advance_by st p (fl_store f) = (r, s)
     \<Longrightarrow> fleet_step limits f (fleet_put i (case r of Inl e \<Rightarrow> Stopped | Inr _ \<Rightarrow> Reloading st) s f)"
| fleet_reload: "fl_runner f i = Reloading st \<Longrightarrow> reload_state st (fl_store f) = Some st'
     \<Longrightarrow> fleet_step limits f (fleet_put i (Holding st') (fl_store f) f)"
| fleet_stop: "fleet_step limits f (fleet_put i Stopped (fl_store f) f)"

definition fleet_init :: fleet where
  "fleet_init = \<lparr>fl_store = empty_planning_store, fl_runner = \<lambda>_. Stopped\<rparr>"

inductive reachable_fleet :: "(nat \<Rightarrow> int) \<Rightarrow> fleet \<Rightarrow> bool" for limits where
  reach_init: "reachable_fleet limits fleet_init"
| reach_step: "reachable_fleet limits f \<Longrightarrow> fleet_step limits f f' \<Longrightarrow> reachable_fleet limits f'"

section \<open>What a runner proposes\<close>

definition decided_by :: "repair_record list \<Rightarrow> repair_decision list \<Rightarrow> bool" where
  "decided_by rs ds \<longleftrightarrow> set ds \<subseteq> decided ` set rs"

lemma decided_id [simp]: "rd_candidate_id (decided r) = rp_candidate_id r"
  by (simp add: decided_def)

lemma state_cursor_Inr:
  "state_cursor st = Inr c \<Longrightarrow> c = map_option (\<lambda>a. \<lparr>rc_tenant_id = sn_tenant_id (ss_snapshot st),
     rc_snapshot_id = sn_snapshot_id (ss_snapshot st), rc_after = a\<rparr>) (ss_after st)"
  by (auto simp: state_cursor_def repair_cursor_make_def rbind_Inr_iff split: option.splits if_splits)

text \<open>A plan is the next page after the cursor of the state it was made from.\<close>

lemma plan_state_page:
  assumes plan: "plan_state limit st = Inr p" and ok: "snapshot_ok (ss_snapshot st)"
  shows "pl_decisions p = map decided (take (nat limit) (records_after (ss_after st) (sn_records (ss_snapshot st))))"
    and "pl_has_more p \<longleftrightarrow> nat limit < length (records_after (ss_after st) (sn_records (ss_snapshot st)))"
    and "pl_next p = (if pl_has_more p then Some \<lparr>rc_tenant_id = sn_tenant_id (ss_snapshot st),
        rc_snapshot_id = sn_snapshot_id (ss_snapshot st),
        rc_after = rp_candidate_id (last (take (nat limit) (records_after (ss_after st) (sn_records (ss_snapshot st)))))\<rparr> else None)"
    and "pl_tenant_id p = sn_tenant_id (ss_snapshot st)" and "pl_snapshot_id p = sn_snapshot_id (ss_snapshot st)"
    and "0 < nat limit"
proof -
  let ?rs = "sn_records (ss_snapshot st)"
  obtain c where c: "state_cursor st = Inr c" using plan by (auto simp: plan_state_def rbind_Inr_iff)
  let ?q = "\<lparr>rq_tenant_id = sn_tenant_id (ss_snapshot st), rq_snapshot_id = sn_snapshot_id (ss_snapshot st),
    rq_as_of = sn_as_of (ss_snapshot st), rq_records = ?rs, rq_cursor = c, rq_limit = limit\<rparr>"
  have made: "repair_request_make ?q = Inr ?q" "plan_repairs ?q = Inr p"
    using plan c by (auto simp: plan_state_def rbind_Inr_iff repair_request_make_def split: if_splits)
  have ready: "request_ok ?q"
    using ok made(1) sorted_records_distinct [OF ok]
    by (auto simp: request_ok_def snapshot_ok_def planning_snapshot_make_def split: if_splits)
  have fits: "cursor_fits ?q" by (simp add: cursor_fits_def state_cursor_Inr [OF c] split: option.splits)
  have "sort_key rp_candidate_id ?rs = ?rs"
    by (rule sort_key_id_if_sorted [OF sorted_records [OF ok]])
  then have left: "left_to_plan ?q = records_after (ss_after st) ?rs"
    by (simp add: left_to_plan_def records_after_def state_cursor_Inr [OF c] split: option.splits)
  note run = plan_run [OF ready fits, unfolded left made(2)]
  show "pl_decisions p = map decided (take (nat limit) (records_after (ss_after st) ?rs))"
    "pl_has_more p \<longleftrightarrow> nat limit < length (records_after (ss_after st) ?rs)"
    "pl_next p = (if pl_has_more p then Some \<lparr>rc_tenant_id = sn_tenant_id (ss_snapshot st),
        rc_snapshot_id = sn_snapshot_id (ss_snapshot st),
        rc_after = rp_candidate_id (last (take (nat limit) (records_after (ss_after st) ?rs)))\<rparr> else None)"
    "pl_tenant_id p = sn_tenant_id (ss_snapshot st)" "pl_snapshot_id p = sn_snapshot_id (ss_snapshot st)"
    using run by simp_all
  show "0 < nat limit" using made(1) by (auto simp: repair_request_make_def split: if_splits)
qed

section \<open>The invariant\<close>

definition recorded :: "planning_store \<Rightarrow> bool" where
  "recorded s \<longleftrightarrow> (\<forall>t i st os. ps_states s (t, i) = Some st \<longrightarrow> ps_outcomes s (t, i) = Some os
     \<longrightarrow> decided_by (sn_records (ss_snapshot st)) (map snd os))"

definition knows :: "planning_store \<Rightarrow> snapshot_state \<Rightarrow> bool" where
  "knows s st \<longleftrightarrow> snapshot_ok (ss_snapshot st)
     \<and> (\<exists>st0. ps_states s (sn_tenant_id (ss_snapshot st), sn_snapshot_id (ss_snapshot st)) = Some st0
          \<and> sn_records (ss_snapshot st0) = sn_records (ss_snapshot st))"

fun pc_ok :: "planning_store \<Rightarrow> runner_pc \<Rightarrow> bool" where
  "pc_ok s Stopped \<longleftrightarrow> True"
| "pc_ok s (Holding st) \<longleftrightarrow> knows s st"
| "pc_ok s (Proposing st p) \<longleftrightarrow> knows s st \<and> decided_by (sn_records (ss_snapshot st)) (pl_decisions p)"
| "pc_ok s (Reloading st) \<longleftrightarrow> knows s st"

definition fleet_ok :: "fleet \<Rightarrow> bool" where
  "fleet_ok f \<longleftrightarrow> store_ok (fl_store f) \<and> recorded (fl_store f) \<and> (\<forall>i. pc_ok (fl_store f) (fl_runner f i))"

text \<open>No operation ever changes a snapshot that is stored.\<close>

definition extends :: "planning_store \<Rightarrow> planning_store \<Rightarrow> bool" where
  "extends s s' \<longleftrightarrow> (\<forall>key st. ps_states s key = Some st
     \<longrightarrow> (\<exists>st'. ps_states s' key = Some st' \<and> ss_snapshot st' = ss_snapshot st))"

lemma extends_refl [simp]: "extends s s"
  by (simp add: extends_def)

lemma knows_extends: "extends s s' \<Longrightarrow> knows s st \<Longrightarrow> knows s' st"
  unfolding extends_def knows_def by metis

lemma pc_ok_extends: "extends s s' \<Longrightarrow> pc_ok s pc \<Longrightarrow> pc_ok s' pc"
  by (cases pc) (simp_all add: knows_extends)

lemma fleet_put_ok:
  assumes "fleet_ok f" and "extends (fl_store f) s" and "store_ok s" and "recorded s" and "pc_ok s pc"
  shows "fleet_ok (fleet_put i pc s f)"
  using assms by (simp add: fleet_ok_def fleet_put_def pc_ok_extends)

lemma load_or_create_fleet:
  assumes run: "load_or_create snap s = (Inr st, s')" and "store_ok s" and "recorded s" and "snapshot_ok snap"
  shows "extends s s' \<and> recorded s' \<and> knows s' st"
  using run
proof (cases rule: load_or_create_cases)
  case (created st')
  moreover from this have "ps_outcomes s' (sn_tenant_id snap, sn_snapshot_id snap) = Some []" by simp
  ultimately show ?thesis
    using assms(3,4) by (auto simp: extends_def recorded_def knows_def decided_by_def)
next
  case (existing st')
  then show ?thesis using assms(2,3) by (auto simp: knows_def elim!: store_okE)
qed simp

lemma advance_fleet:
  assumes run: "advance_by st p s = (r, s')" and "store_ok s" and "recorded s" and st: "knows s st"
    and p: "decided_by (sn_records (ss_snapshot st)) (pl_decisions p)"
  shows "extends s s' \<and> recorded s'"
proof -
  let ?t = "sn_tenant_id (ss_snapshot st)" and ?i = "sn_snapshot_id (ss_snapshot st)"
  obtain st0 where st0: "ps_states s (?t, ?i) = Some st0" "sn_records (ss_snapshot st0) = sn_records (ss_snapshot st)"
    using st by (auto simp: knows_def)
  obtain k os where os: "snapshot_ok (ss_snapshot st0)" "ps_outcomes s (?t, ?i) = Some os" "progressed k st0 os"
    by (rule store_okE [OF assms(2) st0(1)])
  show ?thesis
  proof (cases rule: advance_progress [OF run [unfolded advance_by_def] st0(1) os(2,1,3), case_names kept moved])
    case kept
    with assms(3) show ?thesis by simp
  next
    case (moved st')
    have "decided_by (sn_records (ss_snapshot st0)) (map snd os)"
      using assms(3) st0(1) os(2) by (auto simp: recorded_def)
    with p have "decided_by (sn_records (ss_snapshot st0)) (map snd (os @ map (\<lambda>d. (rd_candidate_id d, d)) (pl_decisions p)))"
      by (auto simp: decided_by_def st0(2))
    then show ?thesis
      using assms(3) moved(5) st0(1) unfolding moved(7) by (auto simp: recorded_def extends_def)
  qed
qed

lemma reload_fleet:
  assumes "reload_state st s = Some st'" and "store_ok s"
  shows "knows s st'"
  using assms by (auto simp: reload_state_def load_state_def knows_def elim!: store_okE)

lemma fleet_step_ok: "fleet_step limits f f' \<Longrightarrow> fleet_ok f \<Longrightarrow> fleet_ok f'"
proof (induction rule: fleet_step.induct)
  case (fleet_start snap f st s i)
  then show ?case
    using load_or_create_fleet [OF fleet_start(2)] load_or_create_store_ok [OF fleet_start(2)]
    by (intro fleet_put_ok) (auto simp: fleet_ok_def)
next
  case (fleet_plan f i st p)
  then have st: "knows (fl_store f) st" unfolding fleet_ok_def by (metis pc_ok.simps(2))
  then have "decided_by (sn_records (ss_snapshot st)) (pl_decisions p)"
    using plan_state_page(1) [OF fleet_plan(3)]
    by (auto simp: decided_by_def knows_def records_after_def dest!: in_set_takeD)
  with st fleet_plan(4) show ?case by (intro fleet_put_ok) (auto simp: fleet_ok_def)
next
  case (fleet_advance f i st p r s)
  then have st: "knows (fl_store f) st" "decided_by (sn_records (ss_snapshot st)) (pl_decisions p)"
    unfolding fleet_ok_def by (metis pc_ok.simps(3))+
  have step: "extends (fl_store f) s \<and> recorded s"
    using fleet_advance st by (intro advance_fleet) (auto simp: fleet_ok_def)
  moreover have "store_ok s"
    using fleet_advance by (intro advance_store_ok [OF fleet_advance(2) [unfolded advance_by_def]]) (auto simp: fleet_ok_def)
  ultimately show ?case
    using fleet_advance(3) st knows_extends by (intro fleet_put_ok) (auto split: sum.split)
next
  case (fleet_reload f i st st')
  then show ?case by (intro fleet_put_ok) (auto simp: fleet_ok_def reload_fleet)
next
  case (fleet_stop f i)
  then show ?case by (intro fleet_put_ok) (auto simp: fleet_ok_def)
qed

lemma reachable_fleet_ok: "reachable_fleet limits f \<Longrightarrow> fleet_ok f"
proof (induction rule: reachable_fleet.induct)
  case reach_init
  then show ?case by (simp add: fleet_ok_def fleet_init_def empty_store_ok recorded_def) (simp add: empty_planning_store_def)
qed (rule fleet_step_ok)

text \<open>Decisions of the records, in the order of the prefix, are the decisions of the prefix.\<close>

lemma decided_prefix:
  assumes "distinct (map rp_candidate_id rs)" and "decided_by rs ds" and "map rd_candidate_id ds = map rp_candidate_id (take k rs)"
  shows "ds = map decided (take k rs)"
proof (rule nth_equalityI)
  show len: "length ds = length (map decided (take k rs))" using assms(3) by (metis length_map)
  fix n
  assume n: "n < length ds"
  then have "ds ! n \<in> decided ` set rs" using assms(2) nth_mem [OF n] unfolding decided_by_def by blast
  then obtain r where r: "ds ! n = decided r" "r \<in> set rs" by blast
  have "rd_candidate_id (ds ! n) = rp_candidate_id (take k rs ! n)"
    using n len assms(3) by (metis length_map nth_map)
  moreover have "take k rs ! n \<in> set rs" using n len by (metis in_set_takeD length_map nth_mem)
  ultimately have "r = take k rs ! n" using r assms(1) by (auto simp: distinct_map inj_on_def)
  then show "ds ! n = map decided (take k rs) ! n" using r(1) n len by simp
qed

lemma outcomes_prefix:
  assumes "store_ok s" and "recorded s" and "ps_states s (t, i) = Some st"
  defines "rs \<equiv> sn_records (ss_snapshot st)"
  obtains k where "k \<le> length rs" "list_outcomes t i s = map decided (take k rs)" "ss_after st = last_id (map rp_candidate_id (take k rs))"
    "ss_completed st \<Longrightarrow> k = length rs" "k = length rs \<Longrightarrow> 0 < k \<Longrightarrow> ss_completed st"
proof -
  obtain k os where st: "snapshot_ok (ss_snapshot st)" "ps_outcomes s (t, i) = Some os" "progressed k st os"
    by (rule store_okE [OF assms(1,3)])
  note prog = progressedD [OF st(3), folded rs_def]
  have "map fst os = map rd_candidate_id (map snd os)" using prog(6) by (auto simp: list_all_iff)
  then have "map snd os = map decided (take k rs)"
    using prog(2) sorted_records_distinct [OF st(1)] assms(2,3) st(2)
    by (intro decided_prefix) (auto simp: recorded_def rs_def)
  moreover have "sort_key fst os = os"
    using sorted_records [OF st(1)] by (intro sort_key_id_if_sorted) (auto simp: prog(2) rs_def take_map [symmetric] sorted_wrt_take)
  ultimately have "list_outcomes t i s = map decided (take k rs)" by (simp add: list_outcomes_def st(2))
  with prog that show thesis by blast
qed

section \<open>The promise\<close>

text \<open>C29: However many runners plan a snapshot, with whatever page sizes, however they interleave, and
  wherever they stop and start again: what the store holds for it is the decisions of a prefix of
  its records in the order of their ids, each record decided once and by the planner's rule, the
  cursor is the last record of the prefix, and the snapshot is marked completed only when the
  prefix is all of it.
\<close>

theorem fleet_plans_once:
  assumes "reachable_fleet limits f" and "ps_states (fl_store f) (t, i) = Some st"
  shows "\<exists>k\<le>length (sn_records (ss_snapshot st)).
     list_outcomes t i (fl_store f) = map decided (take k (sn_records (ss_snapshot st)))
     \<and> ss_after st = last_id (map rp_candidate_id (take k (sn_records (ss_snapshot st))))
     \<and> sorted (map rp_candidate_id (sn_records (ss_snapshot st))) \<and> distinct (map rp_candidate_id (sn_records (ss_snapshot st)))
     \<and> (ss_completed st \<longrightarrow> k = length (sn_records (ss_snapshot st)))"
proof -
  have ok: "store_ok (fl_store f)" "recorded (fl_store f)" using reachable_fleet_ok [OF assms(1)] by (auto simp: fleet_ok_def)
  obtain k where "k \<le> length (sn_records (ss_snapshot st))"
    "list_outcomes t i (fl_store f) = map decided (take k (sn_records (ss_snapshot st)))"
    "ss_after st = last_id (map rp_candidate_id (take k (sn_records (ss_snapshot st))))"
    "ss_completed st \<Longrightarrow> k = length (sn_records (ss_snapshot st))"
    using outcomes_prefix [OF ok assms(2)] by metis
  moreover have "snapshot_ok (ss_snapshot st)" using ok(1) assms(2) by (auto elim: store_okE)
  ultimately show ?thesis using sorted_records sorted_records_distinct by blast
qed

definition sample_planning_snapshot :: planning_snapshot where
  "sample_planning_snapshot = \<lparr>sn_tenant_id = ''org'', sn_snapshot_id = ''rps_1'', sn_digest = replicate 64 (CHR ''0''), sn_as_of = 0,
     sn_source_complete = True, sn_records = [(sample_repair ''c1'')\<lparr>rp_hold := HOLD_ACTIVE\<rparr>, sample_repair ''c2'', sample_repair ''c3'']\<rparr>"

definition sample_start :: snapshot_state where
  "sample_start = \<lparr>ss_snapshot = sample_planning_snapshot, ss_after = None, ss_completed = False\<rparr>"

lemma sample_planning_snapshot_ok: "snapshot_ok sample_planning_snapshot"
proof -
  have checks: "ok (planning_snapshot_make sample_planning_snapshot)" "list_all (\<lambda>r. ok (repair_record_make r)) (sn_records sample_planning_snapshot)"
    "sorted (map rp_candidate_id (sn_records sample_planning_snapshot))" "distinct (map rp_candidate_id (sn_records sample_planning_snapshot))"
    by code_simp+
  have "planning_snapshot_make sample_planning_snapshot = Inr sample_planning_snapshot"
    using checks(1) by (auto simp: planning_snapshot_make_def split: if_splits)
  moreover have "list_all (\<lambda>r. repair_record_make r = Inr r) (sn_records sample_planning_snapshot)"
    using checks(2) unfolding list_all_iff ok_iff by (metis repair_record_make_Inr)
  moreover have "sorted_wrt (<) (map rp_candidate_id (sn_records sample_planning_snapshot))"
    using checks(3,4) by (simp add: strict_sorted_iff)
  ultimately show ?thesis unfolding snapshot_ok_def by (simp add: sorted_wrt_map)
qed

text \<open>Two runners propose pages of two and of one from the start; the second comes too late.\<close>

definition sample_plan :: "int \<Rightarrow> repair_plan" where
  "sample_plan n = (case plan_state n sample_start of Inr p \<Rightarrow> p | Inl _ \<Rightarrow> undefined)"

definition planned_store :: planning_store where
  "planned_store = snd (advance_by sample_start (sample_plan 2) (snd (load_or_create sample_planning_snapshot empty_planning_store)))"

lemma planned_store_reachable: "\<exists>limits f. reachable_fleet limits f \<and> fl_store f = planned_store"
proof -
  define limits :: "nat \<Rightarrow> int" where "limits = (\<lambda>i. if i = 0 then 2 else 1)"
  let ?s = "snd (load_or_create sample_planning_snapshot empty_planning_store)"
  have start: "load_or_create sample_planning_snapshot s = (Inr sample_start, ?s)" if "s = empty_planning_store" for s
    unfolding that by (simp add: load_or_create_def Let_def snapshot_state_make_def sample_start_def empty_planning_store_def)
  have again: "load_or_create sample_planning_snapshot ?s = (Inr sample_start, ?s)"
    by (simp add: load_or_create_def Let_def snapshot_state_make_def sample_start_def empty_planning_store_def
        same_persisted_snapshot_as_def)
  have "ok (plan_state 2 sample_start)" "ok (plan_state 1 sample_start)" by code_simp+
  then have plans: "plan_state 2 sample_start = Inr (sample_plan 2)" "plan_state 1 sample_start = Inr (sample_plan 1)"
    by (auto simp: ok_iff sample_plan_def)
  define f1 where "f1 = fleet_put 0 (Holding sample_start) ?s fleet_init"
  define f2 where "f2 = fleet_put 1 (Holding sample_start) ?s f1"
  define f3 where "f3 = fleet_put 0 (Proposing sample_start (sample_plan 2)) ?s f2"
  define f4 where "f4 = fleet_put 1 (Proposing sample_start (sample_plan 1)) ?s f3"
  define f5 where "f5 = fleet_put 0 (Reloading sample_start) planned_store f4"
  note fleets = f1_def f2_def f3_def f4_def f5_def fleet_put_def
  have first: "advance_by sample_start (sample_plan 2) ?s = (Inr True, planned_store)"
  proof -
    have "fst (advance_by sample_start (sample_plan 2) ?s) = Inr True" by code_simp
    then show ?thesis by (metis planned_store_def prod.collapse)
  qed
  have "reachable_fleet limits f1"
    unfolding f1_def by (rule reach_step [OF reach_init fleet_start [OF sample_planning_snapshot_ok start]]) (simp add: fleet_init_def)
  then have "reachable_fleet limits f2"
    unfolding f2_def by (rule reach_step [OF _ fleet_start [OF sample_planning_snapshot_ok]]) (simp add: again f1_def fleet_put_def)
  moreover have "fleet_step limits f2 f3"
    using fleet_plan [of f2 0 sample_start limits "sample_plan 2"] by (simp add: fleets sample_start_def limits_def plans(1) [unfolded sample_start_def])
  moreover have "fleet_step limits f3 f4"
    using fleet_plan [of f3 1 sample_start limits "sample_plan 1"] by (simp add: fleets sample_start_def limits_def plans(2) [unfolded sample_start_def])
  moreover have "fleet_step limits f4 f5"
    using fleet_advance [of f4 0 sample_start "sample_plan 2" "Inr True" planned_store limits] first by (simp add: fleets)
  ultimately have "reachable_fleet limits f5" by (blast intro: reach_step)
  then show ?thesis by (intro exI [of _ limits] exI [of _ f5]) (simp add: fleets)
qed

theorem fleet_plans_once_witness:
  "list_outcomes ''org'' ''rps_1'' planned_store = map decided (take 2 (sn_records sample_planning_snapshot))
   \<and> fst (advance_by sample_start (sample_plan 1) planned_store) = Inr False"
proof -
  let ?rs = "sn_records sample_planning_snapshot"
  obtain limits f where f: "reachable_fleet limits f" "fl_store f = planned_store" using planned_store_reachable by blast
  have "map_option (\<lambda>st. (ss_after st, sn_records (ss_snapshot st))) (ps_states planned_store (''org'', ''rps_1''))
      = Some (Some ''c2'', ?rs)"
    by code_simp
  then obtain st where st: "ps_states planned_store (''org'', ''rps_1'') = Some st" "ss_after st = Some ''c2''"
    "sn_records (ss_snapshot st) = ?rs"
    by auto
  have "\<exists>k\<le>length ?rs. list_outcomes ''org'' ''rps_1'' planned_store = map decided (take k ?rs)
      \<and> last_id (map rp_candidate_id (take k ?rs)) = Some ''c2''"
    using fleet_plans_once [OF f(1), unfolded f(2), OF st(1)] st(2,3) by metis
  then obtain k where k: "k \<le> length ?rs" "list_outcomes ''org'' ''rps_1'' planned_store = map decided (take k ?rs)"
    "last_id (map rp_candidate_id (take k ?rs)) = Some ''c2''"
    by blast
  have "list_all (\<lambda>k. last_id (map rp_candidate_id (take k ?rs)) = Some ''c2'' \<longrightarrow> k = 2) [0..<4]" and "length ?rs = 3"
    by code_simp+
  then have "k = 2" using k(1,3) unfolding list_all_iff by fastforce
  moreover have "fst (advance_by sample_start (sample_plan 1) planned_store) = Inr False" by code_simp
  ultimately show ?thesis using k(2) by blast
qed

end
