(* ===== verification/RepairProgress.thy ===== *)
theory RepairProgress
  imports RepairFleet
begin

text \<open>
  One runner by itself: every pass over a snapshot decides the next pages of it, never meets a
  conflict, and finishes it when the bound of a pass allows.
\<close>

section \<open>One page\<close>

lemma after_opaque:
  assumes "snapshot_ok (ss_snapshot st)" and "progressed k st os"
  shows "case ss_after st of None \<Rightarrow> True | Some a \<Rightarrow> opaque_identifier a"
proof -
  have "opaque_identifier i" if "i \<in> set (map rp_candidate_id (sn_records (ss_snapshot st)))" for i
    using assms(1) that repair_record_make_Inr by (auto simp: snapshot_ok_def list_all_iff)
  then show ?thesis
    using progressedD(3) [OF assms(2)] last_id_in [of "map rp_candidate_id (take k (sn_records (ss_snapshot st)))"]
      set_take_subset [of k "map rp_candidate_id (sn_records (ss_snapshot st))"]
    by (simp add: take_map split: option.splits) blast
qed

lemma plan_state_total:
  assumes ok: "snapshot_ok (ss_snapshot st)" and k: "progressed k st os" and limit: "1 \<le> limit" "limit \<le> 500"
  obtains p where "plan_state limit st = Inr p"
proof -
  have ids: "opaque_identifier (sn_tenant_id (ss_snapshot st))" "opaque_identifier (sn_snapshot_id (ss_snapshot st))"
    using ok by (auto simp: snapshot_ok_def planning_snapshot_make_def split: if_splits)
  define c where "c = map_option (\<lambda>a. \<lparr>rc_tenant_id = sn_tenant_id (ss_snapshot st),
     rc_snapshot_id = sn_snapshot_id (ss_snapshot st), rc_after = a\<rparr>) (ss_after st)"
  have c: "state_cursor st = Inr c"
    using after_opaque [OF ok k] ids by (auto simp: state_cursor_def c_def repair_cursor_make_def split: option.splits)
  let ?q = "\<lparr>rq_tenant_id = sn_tenant_id (ss_snapshot st), rq_snapshot_id = sn_snapshot_id (ss_snapshot st),
    rq_as_of = sn_as_of (ss_snapshot st), rq_records = sn_records (ss_snapshot st), rq_cursor = c, rq_limit = limit\<rparr>"
  have made: "repair_request_make ?q = Inr ?q" using ids limit by (simp add: repair_request_make_def)
  moreover have "request_ok ?q"
    using ok made sorted_records_distinct [OF ok]
    by (auto simp: request_ok_def snapshot_ok_def planning_snapshot_make_def split: if_splits)
  moreover have "cursor_fits ?q" by (simp add: cursor_fits_def c_def split: option.splits)
  ultimately have "\<exists>p. plan_state limit st = Inr p"
    using plan_run [of ?q] by (auto simp: plan_state_def c)
  then show thesis using that by blast
qed

lemma plan_state_exact:
  assumes plan: "plan_state limit st = Inr p" and ok: "snapshot_ok (ss_snapshot st)" and live: "\<not> ss_completed st"
  shows "validate_plan_page st (ss_after st) p = Inr ()"
proof -
  note page = plan_state_page [OF plan ok]
  let ?left = "records_after (ss_after st) (sn_records (ss_snapshot st))"
  have last: "last_id (map rp_candidate_id (take (nat limit) ?left)) = Some (rp_candidate_id (last (take (nat limit) ?left)))"
    if "nat limit < length ?left"
  proof -
    have "take (nat limit) ?left \<noteq> []" using that page(6) by auto
    then show ?thesis by (simp add: last_id_def last_map)
  qed
  have "page_exact st p"
    unfolding page_exact_def Let_def
    using last page(1-3,6) by (auto simp: min_def comp_def split: if_splits)
  then show ?thesis using page(4,5) live by (simp add: validate_plan_page_def)
qed

text \<open>What the store holds under a key, with how far it has come.\<close>

definition holds :: "planning_store \<Rightarrow> snapshot_state \<Rightarrow> nat \<Rightarrow> bool" where
  "holds s st k \<longleftrightarrow> store_ok s \<and> recorded s
     \<and> ps_states s (sn_tenant_id (ss_snapshot st), sn_snapshot_id (ss_snapshot st)) = Some st
     \<and> (\<exists>os. ps_outcomes s (sn_tenant_id (ss_snapshot st), sn_snapshot_id (ss_snapshot st)) = Some os \<and> progressed k st os)"

lemma holds_snapshot: "holds s st k \<Longrightarrow> snapshot_ok (ss_snapshot st)"
  by (auto simp: holds_def elim: store_okE)

lemma holds_outcomes:
  assumes "holds s st k"
  shows "list_outcomes (sn_tenant_id (ss_snapshot st)) (sn_snapshot_id (ss_snapshot st)) s
    = map decided (take k (sn_records (ss_snapshot st)))"
proof -
  let ?t = "sn_tenant_id (ss_snapshot st)" and ?i = "sn_snapshot_id (ss_snapshot st)" and ?rs = "sn_records (ss_snapshot st)"
  obtain os where os: "ps_outcomes s (?t, ?i) = Some os" "progressed k st os" using assms by (auto simp: holds_def)
  obtain j where j: "j \<le> length ?rs" "list_outcomes ?t ?i s = map decided (take j ?rs)"
    using assms outcomes_prefix [of s ?t ?i st] unfolding holds_def by metis
  have "length os = j" using j os(1) by (simp add: list_outcomes_def) (metis length_map length_sort length_take min.absorb2)
  moreover have "length os = k" using progressedD(1,2) [OF os(2)] by (metis length_map length_take min.absorb2)
  ultimately show ?thesis using j(2) by simp
qed

lemma advance_planned:
  assumes plan: "plan_state limit st = Inr p" and s: "holds s st k" and live: "\<not> ss_completed st"
  obtains st' s' where "advance_by st p s = (Inr True, s')" "reload_state st s' = Some st'" "ss_snapshot st' = ss_snapshot st"
    "holds s' st' (min (k + nat limit) (length (sn_records (ss_snapshot st))))"
proof -
  note ok = holds_snapshot [OF s]
  let ?t = "sn_tenant_id (ss_snapshot st)" and ?i = "sn_snapshot_id (ss_snapshot st)" and ?rs = "sn_records (ss_snapshot st)"
  obtain os where os: "ps_states s (?t, ?i) = Some st" "ps_outcomes s (?t, ?i) = Some os" "progressed k st os"
    "store_ok s" "recorded s"
    using s by (auto simp: holds_def)
  obtain r s' where run: "advance_snapshot ?t ?i (ss_after st) p s = (r, s')" by fastforce
  have left: "records_after (ss_after st) ?rs = drop k ?rs"
    using records_after_progress [OF ok] progressedD(1,3) [OF os(3)] by simp
  show thesis
  proof (cases rule: advance_progress [OF run os(1,2) ok os(3), case_names kept moved])
    case (moved st')
    have "length (pl_decisions p) = min (nat limit) (length ?rs - k)"
      using plan_state_page(1) [OF plan ok] by (simp add: left)
    then have n: "k + length (pl_decisions p) = min (k + nat limit) (length ?rs)"
      using progressedD(1) [OF os(3)] by (auto simp: min_def split: if_splits)
    have "knows s st" using os(1) ok by (simp add: knows_def)
    moreover have "decided_by ?rs (pl_decisions p)"
      using plan_state_page(1) [OF plan ok] by (auto simp: decided_by_def left dest!: in_set_takeD in_set_dropD)
    ultimately have "recorded s'" using advance_fleet [OF _ os(4,5)] run by (auto simp: advance_by_def)
    moreover have "store_ok s'" by (rule advance_store_ok [OF run os(4)])
    ultimately have "holds s' st' (min (k + nat limit) (length ?rs))"
      using moved(5-7) unfolding n [symmetric] by (simp add: holds_def)
    moreover have "reload_state st s' = Some st'" using moved(7) by (simp add: reload_state_def load_state_def)
    ultimately show thesis using that moved(1,5) run by (auto simp: advance_by_def)
  next
    case kept
    with plan_state_exact [OF plan ok live] show thesis by simp
  qed
qed

section \<open>A pass\<close>

lemma created_or_resumed:
  assumes run: "load_or_create snap s = (Inr st, s1)" and "store_ok s" and "recorded s" and "snapshot_ok snap"
  obtains k where "holds s1 st k" "sn_tenant_id (ss_snapshot st) = sn_tenant_id snap"
    "sn_snapshot_id (ss_snapshot st) = sn_snapshot_id snap" "sn_records (ss_snapshot st) = sn_records snap"
    "list_outcomes (sn_tenant_id snap) (sn_snapshot_id snap) s = map decided (take k (sn_records snap))"
proof -
  note after = load_or_create_store_ok [OF run assms(2,4)] load_or_create_fleet [OF run assms(2,3,4)]
  from run show thesis
  proof (cases rule: load_or_create_cases)
    case (created st')
    moreover have "holds s1 st 0"
      using created after by (auto simp: holds_def progressed_start)
    moreover have "list_outcomes (sn_tenant_id snap) (sn_snapshot_id snap) s = []"
      using assms(2) created(2) by (simp add: store_ok_def list_outcomes_def)
    ultimately show thesis using that [of 0] by simp
  next
    case (existing st')
    then have at: "sn_tenant_id (ss_snapshot st) = sn_tenant_id snap" "sn_snapshot_id (ss_snapshot st) = sn_snapshot_id snap"
      using assms(2) by (auto elim!: store_okE)
    obtain k os where "ps_outcomes s (sn_tenant_id snap, sn_snapshot_id snap) = Some os" "progressed k st os"
      using existing assms(2) by (auto elim!: store_okE)
    then have "holds s1 st k" using existing after at by (simp add: holds_def)
    with that [OF this at] holds_outcomes [OF this] existing at show thesis by simp
  qed simp
qed

lemma plan_loop_progress:
  assumes "holds s st k" and limit: "1 \<le> limit" "limit \<le> 500" and "d \<le> max_page_advances"
  shows "\<exists>n' s' st'. plan_loop limit (max_page_advances - d) conflicts n st s = (Inr n', s') \<and> ss_snapshot st' = ss_snapshot st
     \<and> holds s' st' (min (k + d * nat limit) (length (sn_records (ss_snapshot st))))"
  using assms(1,4)
proof (induction d arbitrary: s st k conflicts n)
  case 0
  then obtain os where "progressed k st os" by (auto simp: holds_def)
  then show ?case using 0 progressedD(1) by (auto simp: plan_loop.simps [of limit "max_page_advances"] min_def)
next
  case (Suc d)
  let ?len = "length (sn_records (ss_snapshot st))"
  from Suc.prems(1) obtain os where os: "progressed k st os" by (auto simp: holds_def)
  show ?case
  proof (cases "ss_completed st")
    case True
    then have "min (k + Suc d * nat limit) ?len = k" using progressedD(5) [OF os] by simp
    with True Suc.prems(1) show ?thesis
      by (intro exI [of _ n] exI [of _ s] exI [of _ st]) (simp add: plan_loop.simps [of limit "max_page_advances - Suc d"])
  next
    case False
    obtain p where p: "plan_state limit st = Inr p" by (rule plan_state_total [OF holds_snapshot [OF Suc.prems(1)] os limit])
    obtain st1 s1 where step: "advance_by st p s = (Inr True, s1)" "reload_state st s1 = Some st1" "ss_snapshot st1 = ss_snapshot st"
      "holds s1 st1 (min (k + nat limit) ?len)"
      by (rule advance_planned [OF p Suc.prems(1) False])
    have next_pass: "Suc (max_page_advances - Suc d) = max_page_advances - d" "\<not> max_page_advances \<le> max_page_advances - Suc d"
      using Suc.prems(2) by auto
    have "min (min (k + nat limit) ?len + d * nat limit) ?len = min (k + Suc d * nat limit) ?len" by (simp add: min_def)
    moreover have "plan_loop limit (max_page_advances - Suc d) conflicts n st s
        = plan_loop limit (max_page_advances - d) 0 (count_page p n) st1 s1"
      by (subst plan_loop.simps) (simp add: False next_pass p step(1,2))
    ultimately show ?thesis
      using Suc.IH [OF step(4), of 0 "count_page p n"] Suc.prems(2) step(3) by simp
  qed
qed

text \<open>C30: Every pass moves its snapshot. Whatever runners did and wherever they stopped before it, a pass over a
  snapshot that the store accepts, during which no other runner moves, returns without an error or a conflict; the decisions recorded
  before stay, up to eight more pages of them are recorded in order, and when the records that were left fit
  in eight pages the snapshot is completed.
\<close>

theorem pass_moves_snapshot:
  assumes "reachable_fleet limits f" and "snapshot_ok snap" and "load_or_create snap (fl_store f) = (Inr st, s1)"
    and "1 \<le> limit" and "limit \<le> 500"
  defines "rs \<equiv> sn_records snap" and "k \<equiv> length (list_outcomes (sn_tenant_id snap) (sn_snapshot_id snap) (fl_store f))"
  shows "\<exists>n s' st'. plan_snapshot limit snap (fl_store f) = (Inr n, s')
     \<and> list_outcomes (sn_tenant_id snap) (sn_snapshot_id snap) (fl_store f) = map decided (take k rs)
     \<and> list_outcomes (sn_tenant_id snap) (sn_snapshot_id snap) s' = map decided (take (k + 8 * nat limit) rs)
     \<and> load_state (sn_tenant_id snap) (sn_snapshot_id snap) s' = Some st'
     \<and> (rs \<noteq> [] \<and> length rs \<le> k + 8 * nat limit \<longrightarrow> ss_completed st')"
proof -
  let ?out = "list_outcomes (sn_tenant_id snap) (sn_snapshot_id snap)"
  have ok: "store_ok (fl_store f)" "recorded (fl_store f)" using reachable_fleet_ok [OF assms(1)] by (auto simp: fleet_ok_def)
  obtain j where j: "holds s1 st j" and at: "sn_tenant_id (ss_snapshot st) = sn_tenant_id snap"
      "sn_snapshot_id (ss_snapshot st) = sn_snapshot_id snap" "sn_records (ss_snapshot st) = rs"
      and before: "?out (fl_store f) = map decided (take j rs)"
    by (rule created_or_resumed [OF assms(3) ok assms(2), folded rs_def])
  have len: "length (take j rs) = k" using before by (simp add: k_def)
  have "j \<le> length rs" using j at(3) by (auto simp: holds_def dest: progressedD(1))
  with len have jk: "j = k" by simp
  obtain n s' st' where pass: "plan_loop limit 0 0 (0, 0) st s1 = (Inr n, s')" "ss_snapshot st' = ss_snapshot st"
      "holds s' st' (min (k + 8 * nat limit) (length rs))"
    using plan_loop_progress [OF j assms(4,5) order.refl, of 0 "(0, 0)"] by (auto simp: max_page_advances_def jk at(3))
  have "?out s' = map decided (take (k + 8 * nat limit) rs)"
    using holds_outcomes [OF pass(3)] by (simp add: pass(2) at min_def)
  moreover have "load_state (sn_tenant_id snap) (sn_snapshot_id snap) s' = Some st'"
    using pass(3) by (simp add: holds_def load_state_def pass(2) at)
  moreover have "ss_completed st'" if fits: "rs \<noteq> []" "length rs \<le> k + 8 * nat limit"
  proof -
    from pass(3) obtain os where "progressed (length rs) st' os" using fits(2) by (auto simp: holds_def min.absorb2)
    from progressedD(4) [OF this] fits(1) show ?thesis by (simp add: pass(2) at)
  qed
  ultimately show ?thesis
    using pass(1) before jk by (auto simp: plan_snapshot_def bnd_def assms(3))
qed

theorem pass_moves_snapshot_witness:
  "list_outcomes ''org'' ''rps_1'' (snd (plan_snapshot 1 sample_planning_snapshot planned_store)) = map decided (sn_records sample_planning_snapshot)
   \<and> (\<exists>st. load_state ''org'' ''rps_1'' (snd (plan_snapshot 1 sample_planning_snapshot planned_store)) = Some st \<and> ss_completed st)"
proof -
  let ?rs = "sn_records sample_planning_snapshot"
  obtain limits f where f: "reachable_fleet limits f" "fl_store f = planned_store" using planned_store_reachable by blast
  have "ok (fst (load_or_create sample_planning_snapshot planned_store))" by code_simp
  then obtain st s1 where accepted: "load_or_create sample_planning_snapshot planned_store = (Inr st, s1)"
    by (cases "load_or_create sample_planning_snapshot planned_store") (auto simp: ok_iff)
  have small: "length (list_outcomes ''org'' ''rps_1'' planned_store) = 2" "length ?rs = 3" by code_simp+
  have key: "sn_tenant_id sample_planning_snapshot = ''org''" "sn_snapshot_id sample_planning_snapshot = ''rps_1''" "?rs \<noteq> []"
    by (simp_all add: sample_planning_snapshot_def)
  show ?thesis
    using pass_moves_snapshot [OF f(1) sample_planning_snapshot_ok, unfolded f(2), OF accepted, of 1] small by (auto simp: key)
qed

end
