(* ===== verification/RepairExecution.thy ===== *)
theory RepairExecution
  imports RepairProgress ClaimProperties
begin

text \<open>
  The executor of repairs: a persisted candidate is only a reason to look again, what is queued is
  proved when it is queued, and executing the same decisions again queues nothing.
\<close>

section \<open>What is proved of a claim\<close>

text \<open>
  The facts behind a reconciliation, read from the sources as they are now: the claim is unresolved
  and old enough, its executor can reconcile, its run is over and under no hold, and the complete
  ledger of the run shows the claim.
\<close>

definition claim_proved :: "'s collector \<Rightarrow> int \<Rightarrow> 's \<Rightarrow> effect_claim \<Rightarrow> bool" where
  "claim_proved cl now s c \<longleftrightarrow> unresolved c \<and> ec_executor c \<in> set (cl_supported cl)
     \<and> quiet_period_elapsed (cl_iso cl) (ec_updated_at c) now (cl_quiet_period cl) \<and> reference_scheme cl c \<in> set known_schemes
     \<and> (\<exists>run status. cl_get_run cl (ec_org_id c) (ec_run_id c) s = Inr (Some (run, status))
          \<and> rn_org_id run = ec_org_id c \<and> rn_run_id run = ec_run_id c \<and> status \<in> set terminal_run_statuses
          \<and> cl_resolve_hold cl (ec_org_id c) (rn_user_id run) (rn_conversation_id run) s = Inr HOLD_NONE
          \<and> verify_run_graph cl c (rn_conversation_id run) (rn_latest_sequence_no run) s = Inr (GRAPH_COMPLETE, True))"

lemma fact_record_fields:
  assumes "fact_record cl c now (coverage, hold, evidence, evidence_id, owner) = Inr r"
  shows "rp_coverage r = coverage" and "rp_hold r = hold" and "rp_evidence r = evidence" and "rp_owner r = owner"
    and "rp_kind r = EFFECT_RECONCILIATION" and "rp_scheme r = reference_scheme cl c" and "rp_effect r = effect_state_of (ec_state c)"
    and "rp_supported r = Some (ec_executor c \<in> set (cl_supported cl))"
    and "rp_quiet r = Some (quiet_period_elapsed (cl_iso cl) (ec_updated_at c) now (cl_quiet_period cl))"
    and "rp_candidate_id r = ec_claim_id c" and "rp_tenant_id r = ec_org_id c" and "repair_record_make r = Inr r"
  using assms by (auto simp: fact_record_def repair_record_make_def split: if_splits)

lemma effect_state_uncertain [simp]: "uncertain_effect (effect_state_of st) \<longleftrightarrow> st = CLAIMED \<or> st = INDETERMINATE"
  by (cases st) (auto simp: uncertain_effect_def)

text \<open>A candidate record can only come from facts that were all collected.\<close>

lemma provable_record:
  assumes rec: "record_for_claim cl c now incomplete s = Inr r" and ok: "provably_repairable r"
  shows "claim_proved cl now s c"
proof -
  obtain facts where facts: "collect_facts cl c s = Inr (Some facts)" "fact_record cl c now (force_coverage incomplete facts) = Inr r"
    using rec ok
    by (auto simp: record_for_claim_def no_facts_def force_coverage_def provably_repairable_def fact_record_fields
        split: sum.splits option.splits if_splits)
  obtain coverage hold evidence evidence_id owner where shape: "facts = (coverage, hold, evidence, evidence_id, owner)"
    by (cases facts) auto
  note fields = fact_record_fields [OF facts(2) [unfolded shape force_coverage_def, simplified]]
  have all: "coverage = GRAPH_COMPLETE" "hold = HOLD_NONE" "evidence = EVIDENCE_VERIFIED" "owner = OWNER_TERMINAL"
    using ok fields(1-5) by (auto simp: provably_repairable_def split: if_splits)
  then have "\<exists>run status. cl_get_run cl (ec_org_id c) (ec_run_id c) s = Inr (Some (run, status))
      \<and> rn_org_id run = ec_org_id c \<and> rn_run_id run = ec_run_id c \<and> owner_of_status status = OWNER_TERMINAL
      \<and> cl_resolve_hold cl (ec_org_id c) (rn_user_id run) (rn_conversation_id run) s = Inr HOLD_NONE
      \<and> verify_run_graph cl c (rn_conversation_id run) (rn_latest_sequence_no run) s = Inr (GRAPH_COMPLETE, True)"
    using facts(1) unfolding shape collect_facts_def rbind_Inr_iff
    by (auto simp: rbind_Inr_iff split: option.splits if_splits)
  moreover have "status \<in> set terminal_run_statuses" if "owner_of_status status = OWNER_TERMINAL" for status
    using that by (auto split: if_splits)
  ultimately show ?thesis
    using ok fields(5-9) by (auto simp: claim_proved_def provably_repairable_def unresolved_def simp del: owner_of_status.simps)
qed

section \<open>One decision\<close>

definition registered :: "runtime_reconcile_command \<Rightarrow> ('s, 'x) repair_system \<Rightarrow> ('s, 'x) repair_system" where
  "registered q s = s\<lparr>rs_queue := register (rs_now s) (reconcile_payload q) (rs_queue s)\<rparr>"

text \<open>A decision either leaves the system alone or registers the command of a claim that is proved now.\<close>

definition queues :: "'s collector \<Rightarrow> string \<Rightarrow> int \<Rightarrow> 's \<Rightarrow> repair_decision \<Rightarrow> runtime_reconcile_command \<Rightarrow> bool" where
  "queues cl tenant now w d q \<longleftrightarrow> rd_state d = CANDIDATE \<and> rd_action d = Some EFFECT_RECONCILE_CANDIDATE
     \<and> (\<exists>c. cl_claim_by_id cl tenant (rd_candidate_id d) w = Inr (Some c) \<and> ec_org_id c = tenant \<and> ec_claim_id c = rd_candidate_id d
          \<and> (\<exists>x. record_for_claim cl c now False w = Inr x \<and> provably_repairable x)
          \<and> build_reconcile_command (cl_sha256 cl) (cl_iso cl) c = Inr (Some q))"

lemma revalidate_claim_Some:
  assumes "revalidate_claim cl tenant i now w = Inr (Some (c, r))"
  shows "cl_claim_by_id cl tenant i w = Inr (Some c)" and "record_for_claim cl c now False w = Inr r"
    and "ec_org_id c = tenant" and "ec_claim_id c = i"
  using assms by (auto simp: revalidate_claim_def rbind_Inr_iff split: sum.splits option.splits if_splits)

lemma decided_candidate: "decide_record r = Inr d \<Longrightarrow> rd_state d = CANDIDATE \<Longrightarrow> provably_repairable r"
  by (auto simp: decide_record_def repair_decision_make_def Let_def no_blockers split: if_splits)

lemma execute_decision_cases:
  assumes run: "execute_decision cl tenant now d s = (r, s')"
  obtains (kept) "s' = s" "r \<noteq> Inr QUEUED"
  | (queued) q where "queues cl tenant now (rs_world s) d q" "q_payloads (rs_queue s) (qc_command_id q) = None"
      "s' = registered q s" "r = Inr QUEUED"
proof (cases "\<exists>c. dispatch_reconcile cl c s = (r, s') \<and> rd_state d = CANDIDATE \<and> rd_action d = Some EFFECT_RECONCILE_CANDIDATE
    \<and> (\<exists>x f. revalidate_claim cl tenant (rd_candidate_id d) now (rs_world s) = Inr (Some (c, x))
        \<and> decide_record x = Inr f \<and> rd_state f = CANDIDATE)")
  case False
  then show thesis
    using run kept
    by (cases "rd_state d"; cases "rd_action d"; cases "revalidate_claim cl tenant (rd_candidate_id d) now (rs_world s)")
       (auto simp: execute_decision_def bnd_def lift_def ret_def split: option.splits sum.splits if_splits prod.splits)
next
  case True
  then obtain c x f where found: "dispatch_reconcile cl c s = (r, s')" "rd_state d = CANDIDATE"
    "rd_action d = Some EFFECT_RECONCILE_CANDIDATE" "revalidate_claim cl tenant (rd_candidate_id d) now (rs_world s) = Inr (Some (c, x))"
    "decide_record x = Inr f" "rd_state f = CANDIDATE"
    by blast
  note claim = revalidate_claim_Some [OF found(4)]
  have proved: "provably_repairable x" by (rule decided_candidate [OF found(5,6)])
  show thesis
  proof (cases "build_reconcile_command (cl_sha256 cl) (cl_iso cl) c")
    case (Inl e)
    with found(1) kept show thesis by (auto simp: dispatch_reconcile_def eff_simps)
  next
    case (Inr command)
    show thesis
    proof (cases "command = None \<or> q_payloads (rs_queue s) (qc_command_id (the command)) \<noteq> None")
      case True
      with Inr found(1) kept show thesis
        by (cases command) (auto simp: dispatch_reconcile_def eff_simps catch_def enqueue_effect_reconcile_def enqueue_once_def bnd_def
            reconcile_payload_def split: if_splits)
    next
      case False
      then obtain q where q: "command = Some q" "q_payloads (rs_queue s) (qc_command_id q) = None" by auto
      have "queues cl tenant now (rs_world s) d q"
        using found(2,3) claim proved Inr q(1) by (auto simp: queues_def)
      with Inr q found(1) queued show thesis
        by (auto simp: dispatch_reconcile_def eff_simps catch_def enqueue_effect_reconcile_def enqueue_once_def bnd_def
            reconcile_payload_def registered_def)
    qed
  qed
qed

lemma queued_payload: "q_payloads (rs_queue (registered q s)) i
    = (if i = qc_command_id q then Some (reconcile_payload q) else q_payloads (rs_queue s) i)"
  and registered_rest [simp]: "rs_world (registered q s) = rs_world s" "rs_plans (registered q s) = rs_plans s"
    "rs_now (registered q s) = rs_now s"
  by (simp_all add: registered_def register_def Let_def reconcile_payload_def)

section \<open>All decisions\<close>

text \<open>Executing only adds commands to the queue, each for a decision that \<open>queues\<close> it.\<close>

definition only_queued :: "'s collector \<Rightarrow> string \<Rightarrow> int \<Rightarrow> repair_decision set \<Rightarrow> ('s, 'x) repair_system \<Rightarrow> ('s, 'x) repair_system \<Rightarrow> bool"
  where "only_queued cl tenant now ds s s' \<longleftrightarrow> rs_world s' = rs_world s \<and> rs_plans s' = rs_plans s \<and> rs_now s' = rs_now s
     \<and> (\<forall>i p. q_payloads (rs_queue s) i = Some p \<longrightarrow> q_payloads (rs_queue s') i = Some p)
     \<and> (\<forall>i p. q_payloads (rs_queue s') i = Some p \<longrightarrow> q_payloads (rs_queue s) i = Some p
          \<or> (\<exists>d\<in>ds. \<exists>q. queues cl tenant now (rs_world s) d q \<and> i = qc_command_id q \<and> p = reconcile_payload q))"

lemma only_queued_refl [simp]: "only_queued cl tenant now ds s s"
  by (simp add: only_queued_def)

lemma only_queued_trans:
  "only_queued cl tenant now ds s t \<Longrightarrow> only_queued cl tenant now ds' t u \<Longrightarrow> only_queued cl tenant now (ds \<union> ds') s u"
  unfolding only_queued_def by (metis UnI1 UnI2)

lemma execute_decision_only_queued:
  assumes "execute_decision cl tenant now d s = (r, s')"
  shows "only_queued cl tenant now {d} s s'"
  using assms
proof (cases rule: execute_decision_cases)
  case (queued q)
  then show ?thesis by (auto simp: only_queued_def queued_payload)
qed simp

lemma execute_only_queued: "execute cl tenant now ds n s = (r, s') \<Longrightarrow> only_queued cl tenant now (set ds) s s'"
proof (induction ds arbitrary: n s)
  case (Cons d ds)
  obtain x t where step: "execute_decision cl tenant now d s = (x, t)" by fastforce
  note first = execute_decision_only_queued [OF step]
  show ?case
  proof (cases x)
    case (Inl e)
    with Cons.prems step have "s' = t" by (simp add: bnd_def)
    with only_queued_trans [OF first only_queued_refl] show ?thesis by simp
  next
    case (Inr y)
    with Cons step have "only_queued cl tenant now (set ds) t s'" by (simp add: bnd_def)
    from only_queued_trans [OF first this] show ?thesis by simp
  qed
qed (simp add: ret_def)

text \<open>A decision that queues a command does so whatever the queue holds, unless its id is taken.\<close>

lemma record_for_claim_ids:
  "record_for_claim cl c now incomplete s = Inr r
   \<Longrightarrow> rp_tenant_id r = ec_org_id c \<and> rp_candidate_id r = ec_claim_id c \<and> rp_kind r = EFFECT_RECONCILIATION
     \<and> repair_record_make r = Inr r"
  by (auto simp: record_for_claim_def no_facts_def force_coverage_def fact_record_fields split: sum.splits option.splits if_splits)

lemma queues_run:
  assumes "queues cl tenant now (rs_world s) d q"
  shows "execute_decision cl tenant now d s = (case q_payloads (rs_queue s) (qc_command_id q) of
      None \<Rightarrow> (Inr QUEUED, registered q s)
    | Some p \<Rightarrow> (Inr (if p = reconcile_payload q then ALREADY_QUEUED else ENQUEUE_FAILED), s))"
proof -
  obtain c x where c: "cl_claim_by_id cl tenant (rd_candidate_id d) (rs_world s) = Inr (Some c)" "ec_org_id c = tenant"
    "ec_claim_id c = rd_candidate_id d" "record_for_claim cl c now False (rs_world s) = Inr x" "provably_repairable x"
    "build_reconcile_command (cl_sha256 cl) (cl_iso cl) c = Inr (Some q)"
    and d: "rd_state d = CANDIDATE" "rd_action d = Some EFFECT_RECONCILE_CANDIDATE"
    using assms by (auto simp: queues_def)
  note ids = record_for_claim_ids [OF c(4)]
  have "revalidate_claim cl tenant (rd_candidate_id d) now (rs_world s) = Inr (Some (c, x))"
    using c ids by (simp add: revalidate_claim_def)
  moreover have "decide_record x = Inr (decided x)" "rd_state (decided x) = CANDIDATE" "rd_candidate_id (decided x) = rd_candidate_id d"
    "rd_action (decided x) = Some EFFECT_RECONCILE_CANDIDATE"
    using c(3,5) ids repair_record_make_Inr [of x x] no_blockers [of x] by (auto simp: decide_record_decided decided_def)
  ultimately have "execute_decision cl tenant now d s = dispatch_reconcile cl c s"
    using c(2,3) d ids by (simp add: execute_decision_def bnd_def lift_def)
  then show ?thesis
    using c(6) by (auto simp: dispatch_reconcile_def eff_simps catch_def enqueue_effect_reconcile_def enqueue_once_def bnd_def
        reconcile_payload_def registered_def is_exception_def split: option.splits)
qed

text \<open>Once a decision has been executed, executing it again in any later queue changes nothing.\<close>

lemma execute_decision_again:
  assumes run: "execute_decision cl tenant now d s = (Inr y, s1)" and later: "only_queued cl tenant now ds s1 s2"
  shows "\<exists>y'. execute_decision cl tenant now d s2 = (Inr y', s2) \<and> y' \<noteq> QUEUED"
proof -
  have world: "rs_world s2 = rs_world s" using later execute_decision_only_queued [OF run] by (simp add: only_queued_def)
  obtain r s3 where again: "execute_decision cl tenant now d s2 = (r, s3)" by fastforce
  have ran: "\<exists>y'. r = Inr y'"
    using run again
    by (cases "rd_state d"; cases "rd_action d"; cases "revalidate_claim cl tenant (rd_candidate_id d) now (rs_world s)")
       (auto simp: execute_decision_def bnd_def lift_def ret_def world dispatch_reconcile_def catch_def
         enqueue_effect_reconcile_def enqueue_once_def is_exception_def
         split: option.splits sum.splits if_splits prod.splits)
  from again show ?thesis
  proof (cases rule: execute_decision_cases)
    case kept
    with ran again show ?thesis by auto
  next
    case (queued q)
    have none: "q_payloads (rs_queue s1) (qc_command_id q) = None"
      using later queued(2) unfolding only_queued_def by (metis not_None_eq)
    have q: "queues cl tenant now (rs_world s) d q" using queued(1) world by simp
    have "q_payloads (rs_queue s1) (qc_command_id q) \<noteq> None"
      using run queues_run [OF q] by (auto simp: queued_payload split: option.splits)
    with none show ?thesis by simp
  qed
qed

lemma execute_again:
  assumes "execute cl tenant now ds n s = (Inr x, s1)" and "only_queued cl tenant now ds' s1 s2"
  shows "\<exists>x'. execute cl tenant now ds m s2 = (Inr x', s2) \<and> xc_queued x' = xc_queued m"
  using assms
proof (induction ds arbitrary: n m s)
  case (Cons d ds)
  obtain y t where step: "execute_decision cl tenant now d s = (Inr y, t)" "execute cl tenant now ds (count_outcome y n) t = (Inr x, s1)"
    using Cons.prems(1) by (auto simp: bnd_def split: prod.splits sum.splits)
  have "only_queued cl tenant now (set ds \<union> ds') t s2"
    by (rule only_queued_trans [OF execute_only_queued [OF step(2)] Cons.prems(2)])
  from execute_decision_again [OF step(1) this] obtain y' where again: "execute_decision cl tenant now d s2 = (Inr y', s2)" "y' \<noteq> QUEUED"
    by blast
  then have "xc_queued (count_outcome y' m) = xc_queued m" by (cases y') auto
  with Cons.IH [OF step(2) Cons.prems(2), of "count_outcome y' m"] again(1) show ?case by (auto simp: bnd_def)
qed (simp add: ret_def)

lemma no_counts_queued: "xc_queued no_counts = 0"
  by (simp add: no_counts_def)

section \<open>The promise\<close>

text \<open>C31: The executor queues only what is proved when it queues it. Executing persisted decisions
  changes neither the claims nor the plans; every payload that was queued stays, and every payload
  it adds is the reconciliation of one of these candidates' claims, of the tenant, that the
  sources show at that moment to be unresolved, quiet, of a supported executor, of a finished run
  under no legal hold, and present in the complete ledger of that run.
\<close>

theorem executor_queues_only_proved:
  assumes "execute cl tenant now ds n s = (r, s')"
  shows "rs_world s' = rs_world s \<and> rs_plans s' = rs_plans s
     \<and> (\<forall>i p. q_payloads (rs_queue s) i = Some p \<longrightarrow> q_payloads (rs_queue s') i = Some p)
     \<and> (\<forall>i p. q_payloads (rs_queue s') i = Some p \<longrightarrow> q_payloads (rs_queue s) i = Some p
          \<or> (\<exists>d\<in>set ds. \<exists>c q. rd_state d = CANDIDATE \<and> rd_action d = Some EFFECT_RECONCILE_CANDIDATE
               \<and> cl_claim_by_id cl tenant (rd_candidate_id d) (rs_world s) = Inr (Some c) \<and> ec_org_id c = tenant
               \<and> ec_claim_id c = rd_candidate_id d \<and> claim_proved cl now (rs_world s) c
               \<and> build_reconcile_command (cl_sha256 cl) (cl_iso cl) c = Inr (Some q)
               \<and> i = qc_command_id q \<and> p = reconcile_payload q))"
    (is "_ \<and> _ \<and> _ \<and> (\<forall>i p. _ \<longrightarrow> _ \<or> ?queued_for i p)")
proof -
  have proved: "\<exists>c. rd_state d = CANDIDATE \<and> rd_action d = Some EFFECT_RECONCILE_CANDIDATE
      \<and> cl_claim_by_id cl tenant (rd_candidate_id d) (rs_world s) = Inr (Some c) \<and> ec_org_id c = tenant
      \<and> ec_claim_id c = rd_candidate_id d \<and> claim_proved cl now (rs_world s) c
      \<and> build_reconcile_command (cl_sha256 cl) (cl_iso cl) c = Inr (Some q)"
    if queued: "queues cl tenant now (rs_world s) d q" for d q
  proof -
    obtain c x where "cl_claim_by_id cl tenant (rd_candidate_id d) (rs_world s) = Inr (Some c)" "ec_org_id c = tenant"
      "ec_claim_id c = rd_candidate_id d" "record_for_claim cl c now False (rs_world s) = Inr x" "provably_repairable x"
      "build_reconcile_command (cl_sha256 cl) (cl_iso cl) c = Inr (Some q)"
      and "rd_state d = CANDIDATE" "rd_action d = Some EFFECT_RECONCILE_CANDIDATE"
      using queued by (auto simp: queues_def)
    then show ?thesis using provable_record [of cl c now False "rs_world s" x] by blast
  qed
  note added = execute_only_queued [OF assms, unfolded only_queued_def]
  have "?queued_for i p" if new: "q_payloads (rs_queue s') i = Some p" "q_payloads (rs_queue s) i \<noteq> Some p" for i p
  proof -
    obtain d q where "d \<in> set ds" "queues cl tenant now (rs_world s) d q" "i = qc_command_id q" "p = reconcile_payload q"
      using added new by blast
    with proved [of d q] show ?thesis by blast
  qed
  with added show ?thesis by blast
qed

text \<open>Executing again queues nothing. Once the decisions of a tenant have been executed, executing
  them again over the same sources, as after a crash before the cursor moved or in the next cycle,
  succeeds, queues no command and leaves the system as it is.
\<close>

theorem execution_repeats_safely:
  assumes "execute cl tenant now ds no_counts s = (Inr x, s')"
  shows "\<exists>x'. execute cl tenant now ds no_counts s' = (Inr x', s') \<and> xc_queued x' = 0"
  using execute_again [OF assms only_queued_refl, of no_counts] by (simp add: no_counts_queued)

text \<open>A source with one stuck claim, its finished run, and the event that shows it.\<close>

definition claimed_event :: envelope where
  "claimed_event = \<lparr>en_event_id = ''e1'', en_run_id = ''run1'', en_conversation_id = ''conv'', en_sequence_no = 1,
     en_event_type = ''effect.claimed'', en_trace_id = ''tr'',
     en_payload = [(''claim_id'', JStr (ec_claim_id sample_claim)), (''stage_id'', JStr (ec_stage_id sample_claim)),
       (''revision'', JInt 1), (''executor'', JStr ''mcp'')],
     en_metadata = [], en_created_at = ''t3''\<rparr>"

definition finished_run :: run_record where
  "finished_run = \<lparr>rn_org_id = ''org'', rn_user_id = ''u1'', rn_run_id = ''run1'', rn_conversation_id = ''conv'',
     rn_trace_id = ''tr'', rn_latest_sequence_no = 1\<rparr>"

definition stuck_collector :: "unit collector" where
  "stuck_collector =
     \<lparr>cl_get_run = (\<lambda>_ _ _. Inr (Some (finished_run, RUN_COMPLETED))), cl_events = (\<lambda>_ _ _ _. Inr [claimed_event]),
      cl_claim_by_id = (\<lambda>org i _. Inr (if org = ''org'' \<and> i = ec_claim_id sample_claim then Some sample_claim else None)),
      cl_incomplete_after = (\<lambda>cursor limit _. scan_page (\<lambda>_. Some (Aware 0)) cursor limit [sample_claim]),
      cl_resolve_hold = (\<lambda>_ _ _ _. Inr HOLD_NONE), cl_supported = [MCP], cl_max_events = 10, cl_quiet_period = 5,
      cl_parse_reference = (\<lambda>r. Inr (if starts_with ''proposal'' r then ''proposal'' else ''mcp-target'')),
      cl_enumerate = (\<lambda>_ _. Inr ()), cl_iso = (\<lambda>_. Some (Aware 0)), cl_sha256 = (\<lambda>_. replicate 64 (CHR ''0''))\<rparr>"

definition idle_system :: "(unit, unit) repair_system" where
  "idle_system = \<lparr>rs_world = (), rs_plans = empty_planning_store, rs_queue = empty_queue, rs_now = 9\<rparr>"

definition stuck_candidate :: repair_decision where
  "stuck_candidate = \<lparr>rd_candidate_id = ec_claim_id sample_claim, rd_state = CANDIDATE,
     rd_action = Some EFFECT_RECONCILE_CANDIDATE, rd_reasons = [VERIFIED_REPAIR_SIGNAL]\<rparr>"

definition stuck_command :: runtime_reconcile_command where
  "stuck_command = \<lparr>qc_command_id = ''repair_reconcile_'' @ replicate 48 (CHR ''0''), qc_org_id = ''org'', qc_run_id = ''run1'',
     qc_claim_id = ec_claim_id sample_claim, qc_created_at = 0\<rparr>"

theorem executor_queues_only_proved_witness:
  "\<exists>s'. q_payloads (rs_queue s') (qc_command_id stuck_command) \<noteq> None \<and> claim_proved stuck_collector 9 () sample_claim
     \<and> execute stuck_collector ''org'' 9 [stuck_candidate] no_counts idle_system = (Inr (count_outcome QUEUED no_counts), s')"
proof -
  have "fst (execute stuck_collector ''org'' 9 [stuck_candidate] no_counts idle_system) = Inr (count_outcome QUEUED no_counts)"
    and payload: "map_option qp_org_id (q_payloads (rs_queue (snd (execute stuck_collector ''org'' 9 [stuck_candidate] no_counts idle_system)))
        (qc_command_id stuck_command)) = Some ''org''"
    by code_simp+
  then obtain s' where run: "execute stuck_collector ''org'' 9 [stuck_candidate] no_counts idle_system
      = (Inr (count_outcome QUEUED no_counts), s')"
    by (metis prod.collapse)
  from payload obtain p where p: "q_payloads (rs_queue s') (qc_command_id stuck_command) = Some p" unfolding run by auto
  have "q_payloads (rs_queue idle_system) (qc_command_id stuck_command) = None" by (simp add: idle_system_def empty_queue_def)
  with executor_queues_only_proved [OF run] p obtain c where "cl_claim_by_id stuck_collector ''org'' (ec_claim_id sample_claim) () = Inr (Some c)"
    "claim_proved stuck_collector 9 () c"
    by (fastforce simp: stuck_candidate_def idle_system_def)
  then have "claim_proved stuck_collector 9 () sample_claim" by (simp add: stuck_collector_def)
  with run p show ?thesis by blast
qed

theorem execution_repeats_safely_witness:
  "\<exists>s' x'. execute stuck_collector ''org'' 9 [stuck_candidate] no_counts idle_system = (Inr (count_outcome QUEUED no_counts), s')
     \<and> execute stuck_collector ''org'' 9 [stuck_candidate] no_counts s' = (Inr x', s') \<and> xc_queued x' = 0"
proof -
  have "fst (execute stuck_collector ''org'' 9 [stuck_candidate] no_counts idle_system) = Inr (count_outcome QUEUED no_counts)"
    by code_simp
  then obtain s' where run: "execute stuck_collector ''org'' 9 [stuck_candidate] no_counts idle_system
      = (Inr (count_outcome QUEUED no_counts), s')"
    by (metis prod.collapse)
  with execution_repeats_safely [OF run] show ?thesis by blast
qed

end
