(* ===== verification/RepairCycle.thy ===== *)
theory RepairCycle
  imports RepairExecution
begin

text \<open>
  A whole cycle of the repair runner: what a page covers, when the source cursor moves, that a stuck
  claim is queued, and the claim that stalls every cycle.
\<close>

section \<open>What the store keeps over a cycle\<close>

text \<open>No operation undoes what is completed.\<close>

definition settles :: "planning_store \<Rightarrow> planning_store \<Rightarrow> bool" where
  "settles s s' \<longleftrightarrow> extends s s' \<and> ps_scan s' = ps_scan s \<and> (\<forall>key st. ps_states s key = Some st \<longrightarrow> ss_completed st
     \<longrightarrow> ps_states s' key = Some st \<and> ps_outcomes s' key = ps_outcomes s key)"

lemma settles_refl [simp]: "settles s s"
  by (simp add: settles_def)

lemma settles_trans: "settles s t \<Longrightarrow> settles t u \<Longrightarrow> settles s u"
  unfolding settles_def extends_def by metis

definition plans_ok :: "planning_store \<Rightarrow> bool" where
  "plans_ok s \<longleftrightarrow> store_ok s \<and> recorded s"

lemma reachable_plans_ok: "reachable_fleet limits f \<Longrightarrow> plans_ok (fl_store f)"
  using reachable_fleet_ok by (auto simp: fleet_ok_def plans_ok_def)

lemma advance_settles:
  assumes run: "advance_by st p s = (r, s')" and ok: "plans_ok s" and st: "knows s st"
    and p: "decided_by (sn_records (ss_snapshot st)) (pl_decisions p)"
  shows "settles s s' \<and> plans_ok s'"
proof -
  let ?t = "sn_tenant_id (ss_snapshot st)" and ?i = "sn_snapshot_id (ss_snapshot st)"
  from ok have store: "store_ok s" "recorded s" by (simp_all add: plans_ok_def)
  obtain st0 where st0: "ps_states s (?t, ?i) = Some st0" using st by (auto simp: knows_def)
  obtain k os where os: "snapshot_ok (ss_snapshot st0)" "ps_outcomes s (?t, ?i) = Some os" "progressed k st0 os"
    by (rule store_okE [OF store(1) st0])
  have "settles s s'"
  proof (cases rule: advance_progress [OF run [unfolded advance_by_def] st0 os(2,1,3), case_names kept moved])
    case (moved st')
    have "ps_states s' key = ps_states s key \<and> ps_outcomes s' key = ps_outcomes s key" if "key \<noteq> (?t, ?i)" for key
      using that by (simp add: moved(7))
    moreover have "extends s s'" using advance_fleet [OF run store st p] ..
    ultimately show ?thesis using moved(3) st0 unfolding settles_def by (simp add: moved(7))
  qed simp
  with advance_fleet [OF run store st p] advance_store_ok [OF run [unfolded advance_by_def] store(1)]
  show ?thesis by (simp add: plans_ok_def)
qed

lemma plan_loop_settles:
  "plan_loop limit a c n st s = (r, s') \<Longrightarrow> plans_ok s \<Longrightarrow> knows s st \<Longrightarrow> settles s s' \<and> plans_ok s'"
proof (induction limit a c n st s rule: plan_loop.induct)
  case (1 limit a c n st s)
  show ?case
  proof (cases "max_page_advances \<le> a \<or> ss_completed st")
    case True
    with "1.prems" show ?thesis by (auto simp: plan_loop.simps [of limit a])
  next
    case go: False
    show ?thesis
    proof (cases "plan_state limit st")
      case (Inl e)
      with go "1.prems" show ?thesis by (auto simp: plan_loop.simps [of limit a])
    next
      case (Inr p)
      obtain x t where step: "advance_by st p s = (x, t)" by fastforce
      have "decided_by (sn_records (ss_snapshot st)) (pl_decisions p)"
        using plan_state_page(1) [OF Inr] "1.prems"(3)
        by (auto simp: decided_by_def knows_def records_after_def dest!: in_set_takeD)
      from advance_settles [OF step "1.prems"(2,3) this] have first: "settles s t" "plans_ok t" by simp_all
      have reloaded: "knows t st'" if "reload_state st t = Some st'" for st'
        using reload_fleet [OF that] first(2) by (simp add: plans_ok_def)
      show ?thesis
      proof (cases "x = Inr True \<or> (x = Inr False \<and> \<not> max_cas_conflicts \<le> Suc c)")
        case False
        with "1.prems"(1) go Inr step first show ?thesis
          by (cases x) (auto simp: plan_loop.simps [of limit a] split: if_splits)
      next
        case True
        show ?thesis
        proof (cases "reload_state st t")
          case None
          with True "1.prems"(1) go Inr step first show ?thesis
            by (auto simp: plan_loop.simps [of limit a] split: if_splits)
        next
          case (Some st')
          from True show ?thesis
          proof
            assume x: "x = Inr True"
            have "plan_loop limit (Suc a) 0 (count_page p n) st' t = (r, s')"
              using "1.prems"(1) go Inr step x Some by (simp add: plan_loop.simps [of limit a])
            from "1.IH"(2) [OF go Inr step [symmetric] x _ Some this first(2) reloaded [OF Some]] first(1)
            show ?thesis using settles_trans by blast
          next
            assume x: "x = Inr False \<and> \<not> max_cas_conflicts \<le> Suc c"
            have "plan_loop limit a (Suc c) n st' t = (r, s')"
              using "1.prems"(1) go Inr step x Some by (simp add: plan_loop.simps [of limit a])
            from "1.IH"(1) [OF go Inr step [symmetric] _ _ _ Some this first(2) reloaded [OF Some]] x first(1)
            show ?thesis using settles_trans by blast
          qed
        qed
      qed
    qed
  qed
qed

lemma load_or_create_settles:
  assumes run: "load_or_create snap s = (r, s')" and ok: "plans_ok s" and "snapshot_ok snap"
  shows "settles s s' \<and> plans_ok s' \<and> (\<forall>st. r = Inr st \<longrightarrow> knows s' st \<and> sn_records (ss_snapshot st) = sn_records snap
     \<and> sn_tenant_id (ss_snapshot st) = sn_tenant_id snap \<and> sn_snapshot_id (ss_snapshot st) = sn_snapshot_id snap)"
  using run
proof (cases rule: load_or_create_cases)
  case (created st)
  then have "settles s s'" by (auto simp: settles_def extends_def)
  with created load_or_create_fleet [OF run [unfolded created(1)]] load_or_create_store_ok [OF run] ok assms(3) show ?thesis
    by (auto simp: plans_ok_def)
next
  case (existing st)
  with load_or_create_fleet [OF run [unfolded existing(1)]] ok assms(3) show ?thesis
    by (auto simp: plans_ok_def elim!: store_okE)
qed (use ok in simp)

lemma plan_snapshot_settles:
  assumes run: "plan_snapshot limit snap s = (r, s')" and "plans_ok s" and "snapshot_ok snap"
  shows "settles s s' \<and> plans_ok s'"
proof (cases "fst (load_or_create snap s)")
  case (Inl e)
  with assms load_or_create_settles [of snap s] show ?thesis
    by (cases "load_or_create snap s") (auto simp: plan_snapshot_def bnd_def)
next
  case (Inr st)
  then obtain t where step: "load_or_create snap s = (Inr st, t)" by (metis prod.collapse)
  note first = load_or_create_settles [OF step assms(2,3)]
  have "plan_loop limit 0 0 (0, 0) st t = (r, s')" using run step by (simp add: plan_snapshot_def bnd_def)
  from plan_loop_settles [OF this] first show ?thesis using settles_trans by blast
qed

section \<open>One snapshot of a cycle\<close>

definition all_decided :: "planning_snapshot \<Rightarrow> planning_store \<Rightarrow> bool" where
  "all_decided snap s \<longleftrightarrow> list_outcomes (sn_tenant_id snap) (sn_snapshot_id snap) s = map decided (sn_records snap)
     \<and> (\<exists>st. ps_states s (sn_tenant_id snap, sn_snapshot_id snap) = Some st \<and> ss_completed st)"

lemma all_decided_settles: "settles s s' \<Longrightarrow> all_decided snap s \<Longrightarrow> all_decided snap s'"
  unfolding all_decided_def settles_def list_outcomes_def by metis

lemma completed_all_decided:
  assumes ok: "plans_ok s" and st: "ps_states s (sn_tenant_id snap, sn_snapshot_id snap) = Some st" "ss_completed st"
    and records: "sn_records (ss_snapshot st) = sn_records snap"
  shows "all_decided snap s"
proof -
  obtain k where "list_outcomes (sn_tenant_id snap) (sn_snapshot_id snap) s = map decided (take k (sn_records snap))"
    "k = length (sn_records snap)"
    using outcomes_prefix [of s "sn_tenant_id snap" "sn_snapshot_id snap" st] ok st records by (auto simp: plans_ok_def)
  then show ?thesis using st by (simp add: all_decided_def)
qed

text \<open>The world is only read, the source cursor stays, the queue only grows.\<close>

definition cycles :: "('s, 'x) repair_system \<Rightarrow> ('s, 'x) repair_system \<Rightarrow> bool" where
  "cycles s s' \<longleftrightarrow> rs_world s' = rs_world s \<and> settles (rs_plans s) (rs_plans s') \<and> plans_ok (rs_plans s')
     \<and> (\<forall>i p. q_payloads (rs_queue s) i = Some p \<longrightarrow> q_payloads (rs_queue s') i = Some p)"

lemma cycles_trans: "cycles s t \<Longrightarrow> cycles t u \<Longrightarrow> cycles s u"
  unfolding cycles_def using settles_trans by metis

text \<open>
  What a finished snapshot means: every decision is stored, and whatever the executor would queue
  for one of them is queued.
\<close>

definition handled :: "'s runner \<Rightarrow> int \<Rightarrow> planning_snapshot \<Rightarrow> ('s, 'x) repair_system \<Rightarrow> bool" where
  "handled ru now snap s \<longleftrightarrow> all_decided snap (rs_plans s)
     \<and> (\<forall>cl. ru_executor ru = Some cl \<longrightarrow> (\<forall>d\<in>set (map decided (sn_records snap)). \<forall>q.
          queues cl (sn_tenant_id snap) now (rs_world s) d q
          \<longrightarrow> q_payloads (rs_queue s) (qc_command_id q) = Some (reconcile_payload q)))"

lemma handled_cycles: "cycles s s' \<Longrightarrow> handled ru now snap s \<Longrightarrow> handled ru now snap s'"
  by (auto simp: handled_def cycles_def dest: all_decided_settles)

lemma execute_failed_le: "execute cl tenant now ds n s = (Inr x, s') \<Longrightarrow> xc_failed n \<le> xc_failed x"
proof (induction ds arbitrary: n s)
  case (Cons d ds)
  then obtain y t where "execute cl tenant now ds (count_outcome y n) t = (Inr x, s')"
    by (auto simp: bnd_def split: prod.splits sum.splits)
  from Cons.IH [OF this] show ?case by (cases y) auto
qed (simp add: ret_def)

lemma execute_handles:
  assumes "execute cl tenant now ds n s = (Inr x, s')" and "xc_failed x = 0"
    and "d \<in> set ds" and "queues cl tenant now (rs_world s) d q"
  shows "q_payloads (rs_queue s') (qc_command_id q) = Some (reconcile_payload q)"
  using assms
proof (induction ds arbitrary: n s)
  case (Cons e ds)
  obtain y t where step: "execute_decision cl tenant now e s = (Inr y, t)" "execute cl tenant now ds (count_outcome y n) t = (Inr x, s')"
    using Cons.prems(1) by (auto simp: bnd_def split: prod.splits sum.splits)
  have world: "rs_world t = rs_world s" using execute_decision_only_queued [OF step(1)] by (simp add: only_queued_def)
  show ?case
  proof (cases "d \<in> set ds")
    case True
    with Cons.IH [OF step(2) Cons.prems(2)] Cons.prems(4) show ?thesis by (simp add: world)
  next
    case False
    then have "execute_decision cl tenant now d s = (Inr y, t)" using Cons.prems(3) step(1) by simp
    moreover have "y \<noteq> ENQUEUE_FAILED" using execute_failed_le [OF step(2)] Cons.prems(2) by auto
    ultimately have "q_payloads (rs_queue t) (qc_command_id q) = Some (reconcile_payload q)"
      using queues_run [OF Cons.prems(4)] by (auto simp: queued_payload split: option.splits if_splits)
    then show ?thesis using execute_only_queued [OF step(2)] by (simp add: only_queued_def)
  qed
qed simp

lemma execute_snapshot_handles:
  assumes run: "execute_snapshot ru snap now s = (Inr x, s')" and "xc_failed x = 0" and decided: "all_decided snap (rs_plans s)"
    and "plans_ok (rs_plans s)"
  shows "handled ru now snap s'"
proof -
  have same: "rs_plans s' = rs_plans s" "rs_world s' = rs_world s" 
    using run by (auto simp: execute_snapshot_def ret_def Let_def only_queued_def split: option.splits if_splits
        dest!: execute_only_queued)
  have "q_payloads (rs_queue s') (qc_command_id q) = Some (reconcile_payload q)"
    if "ru_executor ru = Some cl" "d \<in> set (map decided (sn_records snap))" "queues cl (sn_tenant_id snap) now (rs_world s) d q"
    for cl d q
  proof -
    let ?ds = "filter (\<lambda>d. rd_state d = CANDIDATE) (map decided (sn_records snap))"
    have d: "d \<in> set ?ds" using that(2,3) by (auto simp: queues_def)
    then have "execute cl (sn_tenant_id snap) now ?ds no_counts s = (Inr x, s')"
      using run decided that(1) by (auto simp: execute_snapshot_def all_decided_def Let_def ret_def split: if_splits)
    from execute_handles [OF this assms(2) d that(3)] show ?thesis .
  qed
  with decided show ?thesis by (auto simp: handled_def same)
qed

lemma execute_snapshot_cycles:
  assumes "execute_snapshot ru snap now s = (r, s')" and "plans_ok (rs_plans s)"
  shows "cycles s s' \<and> rs_plans s' = rs_plans s"
  using assms
  by (auto simp: execute_snapshot_def ret_def cycles_def Let_def only_queued_def split: option.splits if_splits
      dest!: execute_only_queued)

lemma planned_cycles:
  assumes "plans_ok (rs_plans s)" and "snapshot_ok snap" and "on_plans (plan_snapshot limit snap) s = (r, s')"
  shows "cycles s s'"
  using assms plan_snapshot_settles [of limit snap "rs_plans s"] by (auto simp: on_plans_def cycles_def split: prod.splits)

lemma plan_snapshot_accepted:
  assumes run: "plan_snapshot limit snap s = (Inr n, s')" and "plans_ok s" and "snapshot_ok snap"
    and st: "ps_states s' (sn_tenant_id snap, sn_snapshot_id snap) = Some st"
  shows "sn_records (ss_snapshot st) = sn_records snap"
proof -
  obtain st0 t where step: "load_or_create snap s = (Inr st0, t)" "plan_loop limit 0 0 (0, 0) st0 t = (Inr n, s')"
    using run by (auto simp: plan_snapshot_def bnd_def split: prod.splits sum.splits)
  note first = load_or_create_settles [OF step(1) assms(2,3)]
  then obtain st1 where st1: "ps_states t (sn_tenant_id snap, sn_snapshot_id snap) = Some st1"
    "sn_records (ss_snapshot st1) = sn_records snap"
    by (auto simp: knows_def)
  have "settles t s'" using plan_loop_settles [OF step(2)] first by blast
  with st1 st show ?thesis unfolding settles_def extends_def by (metis option.inject)
qed

lemma run_snapshot_cycles:
  assumes run: "run_snapshot ru now snap res s = (r, s')" and ok: "plans_ok (rs_plans s)" and snap: "snapshot_ok snap"
  shows "cycles s s'" and "r = Inr (res', True) \<Longrightarrow> handled ru now snap s'"
    and "r = Inr (res', True) \<Longrightarrow> xc_failed (cy_execution res) = 0 \<Longrightarrow> xc_failed (cy_execution res') = 0"
proof -
  obtain x t where plan: "on_plans (plan_snapshot (ru_page_size ru) snap) s = (x, t)" by fastforce
  note first = planned_cycles [OF ok snap plan]
  have "cycles s s' \<and> (r = Inr (res', True) \<longrightarrow> handled ru now snap s'
      \<and> (xc_failed (cy_execution res) = 0 \<longrightarrow> xc_failed (cy_execution res') = 0))"
  proof (cases x)
    case (Inl e)
    with run plan first show ?thesis by (auto simp: run_snapshot_def catch_def bnd_def ret_def split: if_splits)
  next
    case (Inr n)
    obtain y u where exec: "execute_snapshot ru snap now t = (y, u)" by fastforce
    from first have "plans_ok (rs_plans t)" by (simp add: cycles_def)
    note second = execute_snapshot_cycles [OF exec this]
    have both: "cycles s u" using cycles_trans [OF first] second by blast
    have accepted: "sn_records (ss_snapshot st) = sn_records snap"
      if "ps_states (rs_plans t) (sn_tenant_id snap, sn_snapshot_id snap) = Some st" for st
    proof -
      have "plan_snapshot (ru_page_size ru) snap (rs_plans s) = (Inr n, rs_plans t)"
        using plan Inr by (auto simp: on_plans_def split: prod.splits)
      from plan_snapshot_accepted [OF this ok snap that] show ?thesis .
    qed
    show ?thesis
    proof (cases y)
      case (Inl e)
      with run plan Inr exec both show ?thesis
        by (auto simp: run_snapshot_def catch_def bnd_def ret_def split: if_splits prod.splits)
    next
      case (Inr z)
      then have "s' = u" using run plan \<open>x = Inr n\<close> exec
        by (auto simp: run_snapshot_def catch_def bnd_def ret_def split: prod.splits)
      moreover have "handled ru now snap u \<and> (xc_failed (cy_execution res) = 0 \<longrightarrow> xc_failed (cy_execution res') = 0)"
        if finished: "r = Inr (res', True)"
      proof -
        obtain st where st: "ps_states (rs_plans u) (sn_tenant_id snap, sn_snapshot_id snap) = Some st" "ss_completed st" "xc_failed z = 0"
          and res': "cy_execution res' = add_counts (cy_execution res) z"
          using finished run plan \<open>x = Inr n\<close> exec Inr
          by (auto simp: run_snapshot_def catch_def bnd_def ret_def load_state_def split: prod.splits option.splits)
        have "plans_ok (rs_plans u)" using both by (simp add: cycles_def)
        from completed_all_decided [OF this st(1,2)] accepted st(1) second have "all_decided snap (rs_plans t)" by simp
        from execute_snapshot_handles [OF exec [unfolded Inr] st(3) this \<open>plans_ok (rs_plans t)\<close>]
        show ?thesis using st(3) res' by (simp add: add_counts_def)
      qed
      ultimately show ?thesis using both by blast
    qed
  qed
  then show "cycles s s'" and "r = Inr (res', True) \<Longrightarrow> handled ru now snap s'"
    and "r = Inr (res', True) \<Longrightarrow> xc_failed (cy_execution res) = 0 \<Longrightarrow> xc_failed (cy_execution res') = 0"
    by blast+
qed

section \<open>All snapshots of a cycle\<close>

lemma run_snapshots_cycles:
  assumes "run_snapshots ru now snaps res fin s = (r, s')" and "plans_ok (rs_plans s)" and "list_all snapshot_ok snaps"
  shows "cycles s s' \<and> (\<forall>res'. r = Inr (res', True) \<longrightarrow> fin \<and> list_all (\<lambda>snap. handled ru now snap s') snaps
     \<and> (xc_failed (cy_execution res) = 0 \<longrightarrow> xc_failed (cy_execution res') = 0))"
  using assms
proof (induction snaps arbitrary: res fin s)
  case Nil
  then show ?case by (auto simp: ret_def cycles_def)
next
  case (Cons snap snaps)
  obtain x t where step: "run_snapshot ru now snap res s = (x, t)" by fastforce
  have snap: "snapshot_ok snap" "list_all snapshot_ok snaps" using Cons.prems(3) by simp_all
  note first = run_snapshot_cycles [OF step Cons.prems(2) snap(1)]
  show ?case
  proof (cases x)
    case (Inl e)
    with Cons.prems(1) step first(1) show ?thesis by (auto simp: bnd_def)
  next
    case (Inr y)
    obtain res1 full where y: "y = (res1, full)" by fastforce
    have rest: "run_snapshots ru now snaps res1 (fin \<and> full) t = (r, s')" using Cons.prems(1) step Inr y by (simp add: bnd_def)
    have "plans_ok (rs_plans t)" using first(1) by (simp add: cycles_def)
    note second = Cons.IH [OF rest this snap(2)]
    have "handled ru now snap s'" if "full"
      using first(2) [of res1] second Inr y that handled_cycles by blast
    moreover have "xc_failed (cy_execution res1) = 0" if "full" "xc_failed (cy_execution res) = 0"
      using first(3) [of res1] Inr y that by auto
    ultimately show ?thesis using cycles_trans [OF first(1)] second by auto
  qed
qed

section \<open>What a page covers\<close>

lemma rmap_from: "rmap f xs = Inr ys \<Longrightarrow> y \<in> set ys \<Longrightarrow> \<exists>x\<in>set xs. f x = Inr y"
  by (induction xs arbitrary: ys) (auto simp: rbind_Inr_iff)

lemma rmap_to: "rmap f xs = Inr ys \<Longrightarrow> x \<in> set xs \<Longrightarrow> \<exists>y\<in>set ys. f x = Inr y"
  by (induction xs arbitrary: ys) (auto simp: rbind_Inr_iff)

lemma tenant_snapshot_ok:
  assumes "tenant_snapshot cl complete now w claims tenant = Inr snap"
  shows "snapshot_ok snap" and "sn_tenant_id snap = tenant"
    and "c \<in> set claims \<Longrightarrow> ec_org_id c = tenant \<Longrightarrow> \<exists>r\<in>set (sn_records snap). record_for_claim cl c now (\<not> complete) w = Inr r"
proof -
  let ?mine = "filter (\<lambda>c. ec_org_id c = tenant) claims"
  obtain rs where rs: "rmap (\<lambda>c. record_for_claim cl c now (\<not> complete) w) ?mine = Inr rs"
    "build_planning_snapshot (cl_sha256 cl) tenant rs complete now = Inr snap"
    using assms by (auto simp: tenant_snapshot_def rbind_Inr_iff)
  note made = rmap_from [OF rs(1)] and all = rmap_to [OF rs(1)]
  have "list_all (\<lambda>r. repair_record_make r = Inr r) rs"
    using made record_for_claim_ids by (fastforce simp: list_all_iff)
  note built = build_planning_snapshot_ok [OF rs(2) this]
  then show "snapshot_ok snap" and "sn_tenant_id snap = tenant" by simp_all
  show "\<exists>r\<in>set (sn_records snap). record_for_claim cl c now (\<not> complete) w = Inr r" if "c \<in> set claims" "ec_org_id c = tenant"
    using all [of c] that built by simp
qed

lemma collect_page:
  assumes "collect cl limit cursor now w = Inr page"
  obtains listed cursors complete where "cl_incomplete_after cl cursor (limit + 1) w = Inr listed" "1 \<le> limit"
    "page_cursors (cl_iso cl) cursor (int (length listed) \<le> limit + 1) (take (nat (limit + 1)) listed) = Inr (cursors, complete)"
    "rmap (tenant_snapshot cl complete now w (take (nat limit) listed)) (sort (remdups (map ec_org_id (take (nat limit) listed))))
      = Inr (sp_snapshots page)"
    "sp_next page = (if complete \<and> limit < int (length (take (nat (limit + 1)) listed)) \<and> take (nat limit) listed \<noteq> []
      then Some (cursors ! (length (take (nat limit) listed) - 1)) else None)"
    "sp_expected page = cursor" "sp_advance page \<longleftrightarrow> complete \<and> sp_next page \<noteq> cursor"
proof -
  have "take (nat limit) (take (nat (limit + 1)) l) = take (nat limit) l" for l :: "effect_claim list"
    by (simp add: min_def)
  with assms that show thesis
    by (auto simp: collect_def rbind_Inr_iff Let_def split: prod.splits)
qed

lemma collect_snapshots:
  assumes "collect cl limit cursor now w = Inr page"
  shows "list_all snapshot_ok (sp_snapshots page)" and "sp_expected page = cursor"
proof -
  obtain listed complete ts where "rmap (tenant_snapshot cl complete now w listed) ts = Inr (sp_snapshots page)" "sp_expected page = cursor"
    by (rule collect_page [OF assms])
  then show "list_all snapshot_ok (sp_snapshots page)" and "sp_expected page = cursor"
    using tenant_snapshot_ok(1) by (auto simp: list_all_iff dest!: rmap_from)
qed

text \<open>The order of the scan: what it leaves out comes after everything it returns.\<close>

lemma scan_page_covers:
  assumes page: "scan_page fromiso cursor limit cs = Inr listed" and limit: "1 \<le> limit"
    and c: "c \<in> set cs" "unresolved c" "scan_key_of fromiso c = Inr k"
    and after: "case cursor of None \<Rightarrow> True | Some x \<Rightarrow> cursor_key x < k"
  shows "c \<in> set listed \<or> (length listed = nat limit \<and> (\<forall>d\<in>set listed. \<exists>j. scan_key_of fromiso d = Inr j \<and> j \<le> k))"
proof -
  let ?keyed = "\<lambda>c. rbind (scan_key_of fromiso c) (\<lambda>k. Inr (k, c))"
  obtain keyed where keyed: "rmap ?keyed (filter unresolved cs) = Inr keyed"
    using page limit by (auto simp: scan_page_def split: sum.splits if_splits)
  define beyond where "beyond = (case cursor of None \<Rightarrow> sort_key fst keyed
    | Some x \<Rightarrow> filter (\<lambda>(j, _). cursor_key x < j) (sort_key fst keyed))"
  have listed: "listed = map snd (take (nat limit) beyond)"
    using page limit by (simp add: scan_page_def keyed beyond_def Let_def)
  have key_of: "scan_key_of fromiso d = Inr j" if "(j, d) \<in> set keyed" for j d
    using rmap_from [OF keyed that] by (auto simp: rbind_Inr_iff)
  have "(k, c) \<in> set keyed" using rmap_to [OF keyed, of c] c by auto
  then have here: "(k, c) \<in> set beyond" using after by (auto simp: beyond_def split: option.splits)
  have "sorted (map fst beyond)"
    by (auto simp: beyond_def sorted_filter split: option.splits)
  show ?thesis
  proof (cases "(k, c) \<in> set (take (nat limit) beyond)")
    case True
    then show ?thesis unfolding listed by force
  next
    case False
    with here have left: "(k, c) \<in> set (drop (nat limit) beyond)" by (metis Un_iff append_take_drop_id set_append)
    then have "length listed = nat limit" by (auto simp: listed min_def)
    moreover have "\<exists>j. scan_key_of fromiso d = Inr j \<and> j \<le> k" if d: "d \<in> set listed" for d
    proof -
      obtain j where j: "(j, d) \<in> set (take (nat limit) beyond)" using d by (auto simp: listed)
      then have "(j, d) \<in> set keyed" by (auto simp: beyond_def dest!: in_set_takeD split: option.splits)
      moreover have "sorted (map fst (take (nat limit) beyond @ drop (nat limit) beyond))"
        using \<open>sorted (map fst beyond)\<close> by simp
      then have "j \<le> k" using j left unfolding map_append sorted_append by force
      ultimately show ?thesis using key_of by blast
    qed
    ultimately show ?thesis by blast
  qed
qed

text \<open>A claim that the cursor of the page passes is one of the claims of the page.\<close>

lemma scan_cursor_key: "scan_cursor_for fromiso c = Inr x \<Longrightarrow> scan_key_of fromiso c = Inr (cursor_key x)"
  by (auto simp: scan_cursor_for_def scan_key_of_def scan_cursor_make_def cursor_key_def rbind_Inr_iff split: if_splits)

lemma rmap_nth: "rmap f xs = Inr ys \<Longrightarrow> length ys = length xs \<and> (\<forall>i<length xs. f (xs ! i) = Inr (ys ! i))"
proof (induction xs arbitrary: ys)
  case (Cons x xs)
  then obtain z zs where "f x = Inr z" "rmap f xs = Inr zs" "ys = z # zs" by (auto simp: rbind_Inr_iff)
  with Cons.IH [of zs] show ?case by (auto simp: nth_Cons split: nat.splits)
qed simp

lemma page_cursors_rise:
  assumes "page_cursors fromiso cursor bounded ds = Inr (xs, True)" and "Suc i < length ds"
  shows "scan_key_of fromiso (ds ! Suc i) = Inr (cursor_key (xs ! Suc i)) \<and> cursor_key (xs ! i) < cursor_key (xs ! Suc i)"
proof -
  have made: "rmap (scan_cursor_for fromiso) ds = Inr xs"
    and rising: "map cursor_key xs = sort (map cursor_key xs)" "distinct (map cursor_key xs)"
    using assms(1) by (auto simp: page_cursors_def Let_def split: sum.splits if_splits)
  note at = rmap_nth [OF made]
  have "sorted (map cursor_key xs)" using rising(1) by (metis sorted_sort)
  from sorted_nth_mono [OF this, of i "Suc i"] have "cursor_key (xs ! i) \<le> cursor_key (xs ! Suc i)" using assms(2) at by simp
  moreover have "cursor_key (xs ! i) \<noteq> cursor_key (xs ! Suc i)"
    using nth_eq_iff_index_eq [OF rising(2), of i "Suc i"] assms(2) at by simp
  ultimately show ?thesis using at assms(2) scan_cursor_key by (auto simp: order_less_le)
qed

lemma scan_page_length: "scan_page fromiso cursor limit cs = Inr listed \<Longrightarrow> length listed \<le> nat limit"
  by (auto simp: scan_page_def Let_def min_def split: sum.splits if_splits)

lemma page_holds_claim:
  assumes collect: "collect cl limit cursor now w = Inr page" and moves: "sp_advance page"
    and source: "\<And>n. cl_incomplete_after cl cursor n w = scan_page (cl_iso cl) cursor n cs"
    and c: "c \<in> set cs" "unresolved c" "scan_key_of (cl_iso cl) c = Inr k"
    and after: "case cursor of None \<Rightarrow> True | Some x \<Rightarrow> cursor_key x < k"
    and until: "case sp_next page of None \<Rightarrow> True | Some y \<Rightarrow> k \<le> cursor_key y"
  obtains snap f where "snap \<in> set (sp_snapshots page)" and "sn_tenant_id snap = ec_org_id c"
    and "f \<in> set (sn_records snap)" and "record_for_claim cl c now False w = Inr f"
proof -
  obtain listed cursors complete where page: "cl_incomplete_after cl cursor (limit + 1) w = Inr listed" "1 \<le> limit"
    "page_cursors (cl_iso cl) cursor (int (length listed) \<le> limit + 1) (take (nat (limit + 1)) listed) = Inr (cursors, complete)"
    "rmap (tenant_snapshot cl complete now w (take (nat limit) listed)) (sort (remdups (map ec_org_id (take (nat limit) listed))))
      = Inr (sp_snapshots page)"
    "sp_next page = (if complete \<and> limit < int (length (take (nat (limit + 1)) listed)) \<and> take (nat limit) listed \<noteq> []
      then Some (cursors ! (length (take (nat limit) listed) - 1)) else None)"
    "sp_advance page \<longleftrightarrow> complete \<and> sp_next page \<noteq> cursor"
    by (rule collect_page [OF collect])
  have complete: "complete" using moves page(6) by simp
  have scan: "scan_page (cl_iso cl) cursor (limit + 1) cs = Inr listed" using page(1) source by simp
  note short = scan_page_length [OF scan]
  then have all: "take (nat (limit + 1)) listed = listed" by simp
  have here: "c \<in> set (take (nat limit) listed)"
  proof (rule ccontr)
    assume out: "c \<notin> set (take (nat limit) listed)"
    let ?last = "listed ! nat limit"
    have full: "length listed = Suc (nat limit) \<and> (\<exists>j. scan_key_of (cl_iso cl) ?last = Inr j \<and> j \<le> k)"
    proof (cases "c \<in> set listed")
      case True
      then obtain i where i: "i < length listed" "listed ! i = c" by (auto simp: in_set_conv_nth)
      with out nth_mem [of i "take (nat limit) listed"] have "\<not> i < nat limit" by auto
      with i short page(2) have "i = nat limit" "length listed = Suc (nat limit)" by auto
      with i c(3) show ?thesis by auto
    next
      case False
      with scan_page_covers [OF scan _ c after] page(2) have "length listed = nat (limit + 1)"
        "\<forall>d\<in>set listed. \<exists>j. scan_key_of (cl_iso cl) d = Inr j \<and> j \<le> k" by auto
      moreover from this page(2) have "?last \<in> set listed" "length listed = Suc (nat limit)" by auto
      ultimately show ?thesis by auto
    qed
    let ?i = "nat limit - 1"
    have i: "Suc ?i = nat limit" using page(2) by simp
    have "scan_key_of (cl_iso cl) (listed ! Suc ?i) = Inr (cursor_key (cursors ! Suc ?i)) \<and> cursor_key (cursors ! ?i) < cursor_key (cursors ! Suc ?i)"
      by (rule page_cursors_rise [of _ cursor "int (length listed) \<le> limit + 1"]) (use page(3) complete all full i in simp_all)
    moreover have "sp_next page = Some (cursors ! ?i)" using page(5) full complete all page(2) by (auto simp: min_def)
    ultimately show False using until full i by auto
  qed
  then have "ec_org_id c \<in> set (sort (remdups (map ec_org_id (take (nat limit) listed))))" by simp
  from rmap_to [OF page(4) this] obtain snap where snap: "snap \<in> set (sp_snapshots page)"
    "tenant_snapshot cl complete now w (take (nat limit) listed) (ec_org_id c) = Inr snap" by blast
  obtain f where "f \<in> set (sn_records snap)" "record_for_claim cl c now False w = Inr f"
    using tenant_snapshot_ok(3) [OF snap(2) here] complete by auto
  then show thesis using that [OF snap(1)] tenant_snapshot_ok(2) [OF snap(2)] by blast
qed

section \<open>From cycle to cycle\<close>

text \<open>
  A system whose planner started empty and ran any cycles since, of any runner at any time, while
  everything else changed the claims and the queue at will.
\<close>

inductive repaired :: "('s, 'x) repair_system \<Rightarrow> bool" where
  repaired_start: "rs_plans s = empty_planning_store \<Longrightarrow> repaired s"
| repaired_cycle: "repaired s \<Longrightarrow> repair_cycle ru now s = (r, s') \<Longrightarrow> repaired s'"
| repaired_outside: "repaired s \<Longrightarrow> rs_plans s' = rs_plans s \<Longrightarrow> repaired s'"

lemma plans_ok_scan [simp]: "plans_ok (s\<lparr>ps_scan := x\<rparr>) \<longleftrightarrow> plans_ok s"
  by (simp add: plans_ok_def store_ok_def recorded_def)

lemma repair_cycle_cases:
  assumes run: "repair_cycle ru now s = (r, s')" and ok: "plans_ok (rs_plans s)"
  obtains (kept) "cycles s s'"
  | (moved) page res t where "collect (ru_collector ru) (ru_max_claims ru) (ps_scan (rs_plans s)) now (rs_world s) = Inr page"
      "sp_advance page" "cycles s t" "list_all (\<lambda>snap. handled ru now snap t) (sp_snapshots page)"
      "r = Inr res" "xc_failed (cy_execution res) = 0" "s' = t\<lparr>rs_plans := (rs_plans t)\<lparr>ps_scan := sp_next page\<rparr>\<rparr>"
proof (cases "collect (ru_collector ru) (ru_max_claims ru) (ps_scan (rs_plans s)) now (rs_world s)")
  case (Inl e)
  with run ok kept show thesis by (auto simp: repair_cycle_def cycles_def split: if_splits)
next
  case (Inr page)
  obtain x t where step: "run_snapshots ru now (sp_snapshots page) (cycle_start (length (sp_snapshots page)) 0) True s = (x, t)"
    by fastforce
  note ran = run_snapshots_cycles [OF step ok collect_snapshots(1) [OF Inr]]
  show thesis
  proof (cases "\<exists>res. x = Inr (res, True) \<and> sp_advance page")
    case False
    then have "s' = t" using run Inr step by (auto simp: repair_cycle_def bnd_def ret_def split: sum.splits)
    with ran kept show thesis by blast
  next
    case True
    then obtain res where x: "x = Inr (res, True)" "sp_advance page" by blast
    have "ps_scan (rs_plans t) = sp_expected page"
      using ran collect_snapshots(2) [OF Inr] by (simp add: cycles_def settles_def)
    then have "r = Inr res" "s' = t\<lparr>rs_plans := (rs_plans t)\<lparr>ps_scan := sp_next page\<rparr>\<rparr>"
      using run Inr step x by (auto simp: repair_cycle_def bnd_def ret_def catch_def on_plans_def advance_scan_cursor_def)
    moreover have "xc_failed (cy_execution res) = 0" using ran x by (simp add: cycle_start_def no_counts_def)
    ultimately show thesis using moved [OF Inr x(2)] ran x(1) by blast
  qed
qed

lemma repaired_plans_ok: "repaired s \<Longrightarrow> plans_ok (rs_plans s)"
proof (induction rule: repaired.induct)
  case (repaired_start s)
  then show ?case using reachable_plans_ok [OF reach_init] by (simp add: fleet_init_def)
next
  case (repaired_cycle s ru now r s')
  from repaired_cycle.hyps(2) repaired_cycle.IH show ?case
    by (cases rule: repair_cycle_cases) (simp_all add: cycles_def)
qed simp

lemma cursor_move:
  assumes "repaired s" and run: "repair_cycle ru now s = (r, s')" and moved: "ps_scan (rs_plans s') \<noteq> ps_scan (rs_plans s)"
  obtains page res t where "collect (ru_collector ru) (ru_max_claims ru) (ps_scan (rs_plans s)) now (rs_world s) = Inr page"
      "sp_advance page" "cycles s t" "list_all (\<lambda>snap. handled ru now snap t) (sp_snapshots page)"
      "r = Inr res" "xc_failed (cy_execution res) = 0" "s' = t\<lparr>rs_plans := (rs_plans t)\<lparr>ps_scan := sp_next page\<rparr>\<rparr>"
  using run repaired_plans_ok [OF assms(1)]
proof (cases rule: repair_cycle_cases)
  case kept
  with moved show thesis by (simp add: cycles_def settles_def)
qed (use that in blast)

text \<open>What is proved of a claim makes its record a candidate.\<close>

lemma proved_record:
  assumes "claim_proved cl now s c" and rec: "record_for_claim cl c now False s = Inr f"
  shows "provably_repairable f"
proof -
  obtain run status where run: "cl_get_run cl (ec_org_id c) (ec_run_id c) s = Inr (Some (run, status))"
    "rn_org_id run = ec_org_id c" "rn_run_id run = ec_run_id c" "status \<in> set terminal_run_statuses"
    "cl_resolve_hold cl (ec_org_id c) (rn_user_id run) (rn_conversation_id run) s = Inr HOLD_NONE"
    "verify_run_graph cl c (rn_conversation_id run) (rn_latest_sequence_no run) s = Inr (GRAPH_COMPLETE, True)"
    using assms(1) by (auto simp: claim_proved_def)
  let ?digest = "evidence_digest cl c (rn_latest_sequence_no run)"
  have "collect_facts cl c s = Inr (Some (GRAPH_COMPLETE, HOLD_NONE, EVIDENCE_VERIFIED, Some ?digest, OWNER_TERMINAL))"
    using run by (simp add: collect_facts_def)
  with rec have made: "fact_record cl c now (GRAPH_COMPLETE, HOLD_NONE, EVIDENCE_VERIFIED, Some ?digest, OWNER_TERMINAL) = Inr f"
    by (simp add: record_for_claim_def force_coverage_def)
  note fields = fact_record_fields [OF this]
  show ?thesis
    using assms(1) fields made
    by (auto simp: provably_repairable_def claim_proved_def unresolved_def fact_record_def repair_record_make_def split: if_splits)
qed

text \<open>C34: The source cursor only moves past claims that are decided. Whatever cycles ran before, a cycle
  that moves the cursor has recorded, for every unresolved claim of the scan between the old cursor
  and the new one (to the end when it starts over), the decision on the facts of that claim, and no
  command of the cycle failed to be queued.
\<close>

theorem cursor_moves_past_decided:
  fixes ru now s
  defines "cl \<equiv> ru_collector ru" and "w \<equiv> rs_world s"
  assumes "repaired s" and "repair_cycle ru now s = (r, s')" and "ps_scan (rs_plans s') \<noteq> ps_scan (rs_plans s)"
    and "\<And>n. cl_incomplete_after cl (ps_scan (rs_plans s)) n w = scan_page (cl_iso cl) (ps_scan (rs_plans s)) n cs"
    and "c \<in> set cs" and "unresolved c" and "scan_key_of (cl_iso cl) c = Inr k"
    and "case ps_scan (rs_plans s) of None \<Rightarrow> True | Some x \<Rightarrow> cursor_key x < k"
    and "case ps_scan (rs_plans s') of None \<Rightarrow> True | Some y \<Rightarrow> k \<le> cursor_key y"
  shows "(\<exists>i f. record_for_claim cl c now False w = Inr f \<and> decided f \<in> set (list_outcomes (ec_org_id c) i (rs_plans s')))
     \<and> (\<exists>res. r = Inr res \<and> xc_failed (cy_execution res) = 0)"
proof -
  obtain page res t where moved: "collect cl (ru_max_claims ru) (ps_scan (rs_plans s)) now w = Inr page"
      "sp_advance page" "list_all (\<lambda>snap. handled ru now snap t) (sp_snapshots page)"
      "r = Inr res" "xc_failed (cy_execution res) = 0" "s' = t\<lparr>rs_plans := (rs_plans t)\<lparr>ps_scan := sp_next page\<rparr>\<rparr>"
    unfolding cl_def w_def by (rule cursor_move [OF assms(3-5)])
  obtain snap f where "snap \<in> set (sp_snapshots page)" "sn_tenant_id snap = ec_org_id c" "f \<in> set (sn_records snap)"
    "record_for_claim cl c now False w = Inr f"
    by (rule page_holds_claim [OF moved(1,2) assms(6-10)]) (use assms(11) moved(6) in simp)
  moreover from this(1) moved(3) have "list_outcomes (sn_tenant_id snap) (sn_snapshot_id snap) (rs_plans t) = map decided (sn_records snap)"
    by (auto simp: list_all_iff handled_def all_decided_def)
  ultimately have "decided f \<in> set (list_outcomes (ec_org_id c) (sn_snapshot_id snap) (rs_plans s'))"
    by (simp add: moved(6) list_outcomes_def)
  with \<open>record_for_claim cl c now False w = Inr f\<close> moved(4,5) show ?thesis by blast
qed

text \<open>C35: The source cursor only moves past stuck claims that are queued. A cycle that moves the cursor
  leaves registered in the queue the reconciliation of every claim it passes that the sources prove
  stuck and that the executor reads back, so that no such claim waits for the next turn of the scan. (The
  queue keeps what it has registered: an earlier registration counts, and a worker may have finished it.)
\<close>

theorem cursor_moves_past_queued:
  fixes ru now s
  defines "cl \<equiv> ru_collector ru" and "w \<equiv> rs_world s"
  assumes "repaired s" and "repair_cycle ru now s = (r, s')" and "ps_scan (rs_plans s') \<noteq> ps_scan (rs_plans s)"
    and "ru_executor ru = Some cl"
    and "\<And>n. cl_incomplete_after cl (ps_scan (rs_plans s)) n w = scan_page (cl_iso cl) (ps_scan (rs_plans s)) n cs"
    and "c \<in> set cs" and "scan_key_of (cl_iso cl) c = Inr k"
    and "case ps_scan (rs_plans s) of None \<Rightarrow> True | Some x \<Rightarrow> cursor_key x < k"
    and "case ps_scan (rs_plans s') of None \<Rightarrow> True | Some y \<Rightarrow> k \<le> cursor_key y"
    and "claim_proved cl now w c" and "cl_claim_by_id cl (ec_org_id c) (ec_claim_id c) w = Inr (Some c)"
    and "build_reconcile_command (cl_sha256 cl) (cl_iso cl) c = Inr (Some q)"
  shows "q_payloads (rs_queue s') (qc_command_id q) = Some (reconcile_payload q)"
proof -
  obtain page res t where moved: "collect cl (ru_max_claims ru) (ps_scan (rs_plans s)) now w = Inr page"
      "sp_advance page" "cycles s t" "list_all (\<lambda>snap. handled ru now snap t) (sp_snapshots page)"
      "s' = t\<lparr>rs_plans := (rs_plans t)\<lparr>ps_scan := sp_next page\<rparr>\<rparr>"
    unfolding cl_def w_def by (rule cursor_move [OF assms(3-5)])
  have "unresolved c" using assms(12) by (simp add: claim_proved_def)
  then obtain snap f where snap: "snap \<in> set (sp_snapshots page)" "sn_tenant_id snap = ec_org_id c" "f \<in> set (sn_records snap)"
    "record_for_claim cl c now False w = Inr f"
    by (rule page_holds_claim [OF moved(1,2) assms(7,8) _ assms(9,10)]) (use assms(11) moved(5) in simp)
  have "queues cl (sn_tenant_id snap) now (rs_world t) (decided f) q"
    using proved_record [OF assms(12) snap(4)] record_for_claim_ids [OF snap(4)] snap moved(3) assms(13,14)
    by (auto simp: queues_def decided_def cycles_def no_blockers w_def)
  then show ?thesis using moved(4,5) snap(1,3) assms(6) by (auto simp: list_all_iff handled_def)
qed

section \<open>A concrete cycle\<close>

definition second_claim :: effect_claim where
  "second_claim = sample_claim\<lparr>ec_claim_id := ''clm_00000000-0000-4000-8000-000000000002''\<rparr>"

definition scanning_collector :: "unit collector" where
  "scanning_collector = stuck_collector
     \<lparr>cl_incomplete_after := (\<lambda>cursor limit _. scan_page (\<lambda>_. Some (Aware 0)) cursor limit [sample_claim, second_claim])\<rparr>"

definition sample_runner :: "unit runner" where
  "sample_runner = \<lparr>ru_collector = scanning_collector, ru_executor = Some scanning_collector, ru_page_size = 10, ru_max_claims = 1\<rparr>"

lemma sample_cycle:
  obtains s' where "repair_cycle sample_runner 9 idle_system = (fst (repair_cycle sample_runner 9 idle_system), s')"
    and "ps_scan (rs_plans s') = Some \<lparr>sk_created_at = 0, sk_org_id = ''org'', sk_claim_id = ec_claim_id sample_claim\<rparr>"
proof -
  have "ps_scan (rs_plans (snd (repair_cycle sample_runner 9 idle_system)))
      = Some \<lparr>sk_created_at = 0, sk_org_id = ''org'', sk_claim_id = ec_claim_id sample_claim\<rparr>"
    by code_simp
  then show thesis using that [OF prod.collapse [symmetric]] by simp
qed

lemma idle_repaired: "repaired idle_system" "ps_scan (rs_plans idle_system) = None" "rs_world idle_system = ()"
  by (simp_all add: repaired_start idle_system_def empty_planning_store_def)

lemma sample_scan: "cl_incomplete_after scanning_collector cursor n w = scan_page (cl_iso scanning_collector) cursor n [sample_claim, second_claim]"
  by (simp add: scanning_collector_def stuck_collector_def)

lemma sample_scan_key: "unresolved sample_claim"
    "scan_key_of (cl_iso scanning_collector) sample_claim = Inr (0, ''org'', ec_claim_id sample_claim)"
  by (simp_all add: scanning_collector_def stuck_collector_def scan_key_of_def aware_instant_def sample_claim_def unresolved_def)

theorem cursor_moves_past_decided_witness:
  "\<exists>i f. decided f \<in> set (list_outcomes ''org'' i (rs_plans (snd (repair_cycle sample_runner 9 idle_system))))
     \<and> rp_candidate_id f = ec_claim_id sample_claim"
proof -
  obtain s' where run: "repair_cycle sample_runner 9 idle_system = (fst (repair_cycle sample_runner 9 idle_system), s')"
    "ps_scan (rs_plans s') = Some \<lparr>sk_created_at = 0, sk_org_id = ''org'', sk_claim_id = ec_claim_id sample_claim\<rparr>"
    by (rule sample_cycle)
  have "ru_collector sample_runner = scanning_collector" "ec_org_id sample_claim = ''org''"
    by (simp_all add: sample_runner_def sample_claim_def)
  with cursor_moves_past_decided [OF idle_repaired(1) run(1), of "[sample_claim, second_claim]" sample_claim] run idle_repaired
    sample_scan sample_scan_key
  obtain i f where "record_for_claim scanning_collector sample_claim 9 False () = Inr f"
    "decided f \<in> set (list_outcomes ''org'' i (rs_plans s'))"
    by (auto simp: cursor_key_def)
  with record_for_claim_ids [of scanning_collector sample_claim 9 False "()" f] show ?thesis by (subst run(1)) auto
qed

theorem cursor_moves_past_queued_witness:
  "\<exists>s'. repair_cycle sample_runner 9 idle_system = (fst (repair_cycle sample_runner 9 idle_system), s')
     \<and> q_payloads (rs_queue s') (qc_command_id stuck_command) = Some (reconcile_payload stuck_command)"
proof -
  obtain s' where run: "repair_cycle sample_runner 9 idle_system = (fst (repair_cycle sample_runner 9 idle_system), s')"
    "ps_scan (rs_plans s') = Some \<lparr>sk_created_at = 0, sk_org_id = ''org'', sk_claim_id = ec_claim_id sample_claim\<rparr>"
    by (rule sample_cycle)
  have same: "ru_collector sample_runner = scanning_collector" "ru_executor sample_runner = Some scanning_collector"
    by (simp_all add: sample_runner_def)
  have made: "record_for_claim scanning_collector sample_claim 9 False () = Inr (projr (record_for_claim scanning_collector sample_claim 9 False ()))"
    "provably_repairable (projr (record_for_claim scanning_collector sample_claim 9 False ()))"
    "build_reconcile_command (cl_sha256 scanning_collector) (cl_iso scanning_collector) sample_claim = Inr (Some stuck_command)"
    "cl_claim_by_id scanning_collector (ec_org_id sample_claim) (ec_claim_id sample_claim) () = Inr (Some sample_claim)"
    by code_simp+
  have "q_payloads (rs_queue s') (qc_command_id stuck_command) = Some (reconcile_payload stuck_command)"
    by (rule cursor_moves_past_queued [OF idle_repaired(1) run(1), of "[sample_claim, second_claim]" sample_claim])
       (use run idle_repaired sample_scan sample_scan_key same made provable_record [OF made(1,2)] in \<open>auto simp: cursor_key_def\<close>)
  with run(1) show ?thesis by blast
qed

section \<open>The claim that stalls every cycle\<close>

text \<open>C36: One claim can stall the repair of all tenants. The claims, the scan cursor and the queue accept
  an organisation whose name is not an opaque token, as one with a colon; the planner does not, and
  raises outside the handling of a single tenant. A page with such a claim makes every cycle, at
  any time, report one failure and change nothing: no claim of the page is planned, none is
  queued, and the cursor stays, so that the next cycle reads the same page.
\<close>

theorem poisoned_claim_stalls_cycle:
  assumes "cl_incomplete_after (ru_collector ru) (ps_scan (rs_plans s)) (ru_max_claims ru + 1) (rs_world s) = Inr listed"
    and "c \<in> set (take (nat (ru_max_claims ru)) listed)" and "\<not> opaque_identifier (ec_org_id c)"
    and "collect (ru_collector ru) (ru_max_claims ru) (ps_scan (rs_plans s)) now (rs_world s) \<noteq> Inl CancelledError"
  shows "repair_cycle ru now s = (Inr (cycle_start 0 1), s)"
proof -
  have "collect (ru_collector ru) (ru_max_claims ru) (ps_scan (rs_plans s)) now (rs_world s) \<noteq> Inr page" for page
  proof
    assume "collect (ru_collector ru) (ru_max_claims ru) (ps_scan (rs_plans s)) now (rs_world s) = Inr page"
    then obtain complete where "rmap (tenant_snapshot (ru_collector ru) complete now (rs_world s) (take (nat (ru_max_claims ru)) listed))
        (sort (remdups (map ec_org_id (take (nat (ru_max_claims ru)) listed)))) = Inr (sp_snapshots page)"
      by (rule collect_page) (use assms(1) in simp)
    from rmap_to [OF this, of "ec_org_id c"] assms(2,3) show False
      by (auto simp: tenant_snapshot_def build_planning_snapshot_def rbind_Inr_iff split: if_splits)
  qed
  with assms(4) show ?thesis by (auto simp: repair_cycle_def is_exception_def split: sum.splits)
qed

definition poisoned_claim :: effect_claim where
  "poisoned_claim = sample_claim\<lparr>ec_org_id := ''eu:org''\<rparr>"

definition poisoned_collector :: "unit collector" where
  "poisoned_collector = stuck_collector
     \<lparr>cl_incomplete_after := (\<lambda>cursor limit _. scan_page (\<lambda>_. Some (Aware 0)) cursor limit [sample_claim, poisoned_claim])\<rparr>"

definition poisoned_runner :: "unit runner" where
  "poisoned_runner = \<lparr>ru_collector = poisoned_collector, ru_executor = Some poisoned_collector, ru_page_size = 10, ru_max_claims = 2\<rparr>"

theorem poisoned_claim_stalls_cycle_witness:
  "claim_ok poisoned_claim \<and> ok (scan_cursor_for (\<lambda>_. Some (Aware 0)) poisoned_claim)
   \<and> repair_cycle poisoned_runner 9 idle_system = (Inr (cycle_start 0 1), idle_system)"
proof -
  have "claim_ok poisoned_claim" "ok (scan_cursor_for (\<lambda>_. Some (Aware 0)) poisoned_claim)" by code_simp+
  moreover have "scan_page (\<lambda>_. Some (Aware 0)) None 3 [sample_claim, poisoned_claim] = Inr [poisoned_claim, sample_claim]"
    and "\<not> opaque_identifier (ec_org_id poisoned_claim)"
    and "collect poisoned_collector 2 None 9 () = Inl ValidationError" by code_simp+
  then have "repair_cycle poisoned_runner 9 idle_system = (Inr (cycle_start 0 1), idle_system)"
    by (intro poisoned_claim_stalls_cycle [where c = poisoned_claim and listed = "[poisoned_claim, sample_claim]"])
       (simp_all add: idle_repaired poisoned_runner_def poisoned_collector_def)
  ultimately show ?thesis by blast
qed

end
