(* ===== verification/LedgerVocabulary.thy ===== *)
theory LedgerVocabulary
  imports RolloutModes
begin

text \<open>
  The rest of the event vocabulary of \<open>agent_runtime/surfaces_v2/ledger_models.py\<close>: the payload
  models of the gate, action, read, surface, view, shape, write, usage, receipt, operation and
  artifact events, and the validation chokepoint over all thirty-four event types. The models
  have the form of those in \<open>LedgerModels\<close>. A float is the text of its \<open>repr\<close>.
\<close>

section \<open>Checks\<close>

definition any_string :: "json \<Rightarrow> bool" where
  "any_string = str_such (\<lambda>s. True)"

definition one_of :: "string list \<Rightarrow> json \<Rightarrow> bool" where
  "one_of values = str_such (\<lambda>s. s \<in> set values)"

fun non_negative_int :: "json \<Rightarrow> bool" where
  "non_negative_int (JInt i) = (0 \<le> i)"
| "non_negative_int _ = False"

fun positive_int :: "json \<Rightarrow> bool" where
  "positive_int (JInt i) = (1 \<le> i)"
| "positive_int _ = False"

fun safe_non_negative_int :: "json \<Rightarrow> bool" where
  "safe_non_negative_int (JInt i) = (0 \<le> i \<and> i \<le> MAX_SAFE_INTEGER)"
| "safe_non_negative_int _ = False"

text \<open>A number between 0 and 1: the text of such a float starts with \<open>0.\<close> or has a negative exponent.\<close>

fun unit_number :: "json \<Rightarrow> bool" where
  "unit_number (JInt i) = (i = 0 \<or> i = 1)"
| "unit_number (JFloat t) = (t = ''1.0'' \<or> t = ''-0.0'' \<or> starts_with ''0.'' t \<or> (contains ''e-'' t \<and> \<not> starts_with ''-'' t))"
| "unit_number _ = False"

fun string_array :: "json \<Rightarrow> bool" where
  "string_array (JArr js) = (json_strs js \<noteq> None)"
| "string_array _ = False"

fun object_such :: "(dict \<Rightarrow> bool) \<Rightarrow> json \<Rightarrow> bool" where
  "object_such p (JObj d) = p d"
| "object_such p _ = False"

fun array_such :: "(json \<Rightarrow> bool) \<Rightarrow> json \<Rightarrow> bool" where
  "array_such p (JArr js) = list_all p js"
| "array_such p _ = False"

text \<open>A value of one of the shared object shapes, and an array of them.\<close>

definition shaped :: "field_spec list \<Rightarrow> json \<Rightarrow> bool" where
  "shaped specs = object_such (fields_ok specs)"

definition any_object :: "json \<Rightarrow> bool" where
  "any_object = object_such (\<lambda>d. True)"

definition op_ref_fields :: "field_spec list" where
  "op_ref_fields = [(''connector'', True, any_string), (''op'', True, any_string)]"

definition agent_hold_fields :: "field_spec list" where
  "agent_hold_fields = [(''row_key'', True, any_string), (''reason'', True, any_string)]"

definition row_field_change_fields :: "field_spec list" where
  "row_field_change_fields = [(''field'', True, any_string), (''old'', False, \<lambda>j. True), (''new'', False, \<lambda>j. True)]"

definition staged_row_fields :: "field_spec list" where
  "staged_row_fields = [(''row_key'', True, any_string), (''title'', True, any_string), (''target_args'', False, any_object),
     (''changes'', True, array_such (shaped row_field_change_fields))]"

definition revision_rowset_fields :: "field_spec list" where
  "revision_rowset_fields = [(''rows'', True, array_such (shaped staged_row_fields))]"

definition view_gen_fields :: "field_spec list" where
  "view_gen_fields = [(''model'', True, any_string), (''ms'', True, non_negative_int)]"

text \<open>Exactly one of the two fields of a decision scope is set.\<close>

definition decision_scope_fields :: "field_spec list" where
  "decision_scope_fields = [(''rev'', False, positive_int), (''row_keys'', False, string_array)]"

definition decision_scope_ok :: "dict \<Rightarrow> bool" where
  "decision_scope_ok d \<longleftrightarrow> fields_ok decision_scope_fields d
     \<and> (dget d ''rev'' JNull = JNull \<longleftrightarrow> dget d ''row_keys'' JNull \<noteq> JNull)"

definition authorship_span_fields :: "field_spec list" where
  "authorship_span_fields = [(''start'', True, non_negative_int), (''end'', True, non_negative_int),
     (''author'', True, one_of [''agent'', ''user''])]"

definition write_failure_fields :: "field_spec list" where
  "write_failure_fields = [(''code'', True, one_of [''precondition_drift'', ''connector_error'', ''attempt_indeterminate'']),
     (''detail'', False, any_string)]"

definition decided_by_fields :: "field_spec list" where
  "decided_by_fields = [(''actor'', True, one_of [''user'']), (''decision_seq'', True, non_negative_int)]"

text \<open>The mark of a governed lane: at least one capability, each once.\<close>

definition lane_capabilities_ok :: "json \<Rightarrow> bool" where
  "lane_capabilities_ok j = (case j of JArr js \<Rightarrow> (case json_strs js of
       None \<Rightarrow> False
     | Some cs \<Rightarrow> cs \<noteq> [] \<and> distinct cs \<and> list_all (\<lambda>c. c \<in> set (map capability_value rollout_capabilities)) cs) | _ \<Rightarrow> False)"

definition lane_fields :: "field_spec list" where
  "lane_fields = [(''capabilities'', True, lane_capabilities_ok)]"

text \<open>\<open>_validate_non_physical_reference\<close>\<close>

definition non_physical_reference :: "string \<Rightarrow> bool" where
  "non_physical_reference v \<longleftrightarrow> v \<noteq> [] \<and> length v \<le> MAX_REFERENCE_LENGTH \<and> v = strip v
     \<and> \<not> starts_any [''/'', ''~'', [CHR 0x5C]] v \<and> \<not> starts_any [''file://'', ''filesystem://''] (lower v) \<and> \<not> drive_path v"

section \<open>Gates, actions and reads\<close>

definition gate_opened_fields :: "field_spec list" where
  "gate_opened_fields = base_fields @
     [(''gate_id'', True, any_string), (''connector'', True, any_string), (''purpose'', True, any_string),
      (''scopes'', True, string_array), (''auth_state'', True, one_of [''missing'', ''expired'', ''insufficient'']),
      (''display_title'', False, any_string)]"

definition gate_resolved_fields :: "field_spec list" where
  "gate_resolved_fields = base_fields @
     [(''gate_id'', True, any_string), (''outcome'', True, one_of [''connected'', ''cancelled'']),
      (''write_policy'', False, one_of [''ask_first'', ''allow_always''])]"

definition gate_opened_v2_fields :: "field_spec list" where
  "gate_opened_v2_fields = base_fields @
     [(''gate_id'', True, any_string), (''operation_id'', True, str_such (\<lambda>s. ok (operation_id_parse s))),
      (''gate_kind'', True, one_of [''authentication'', ''grant'', ''capability'', ''policy'']),
      (''capability'', True, any_string), (''reason'', True, short_text 512)]"

definition gate_resolved_v2_fields :: "field_spec list" where
  "gate_resolved_v2_fields = base_fields @
     [(''gate_id'', True, any_string), (''decision'', True, one_of [''granted'', ''denied'', ''cancelled'']),
      (''actor'', True, str_such (\<lambda>s. ok (effect_actor_of s)))]"

text \<open>The wire key \<open>class\<close> may also be given by the name of its attribute, but not both.\<close>

definition action_classified_fields :: "field_spec list" where
  "action_classified_fields = base_fields @
     [(''call_id'', True, any_string), (''connector'', True, any_string), (''op'', True, any_string),
      (''class'', True, one_of [''read'', ''write'', ''unknown'']),
      (''basis'', True, one_of [''catalog'', ''annotation'', ''default''])]"

definition by_alias :: "dict \<Rightarrow> dict" where
  "by_alias d = (if map_of d ''class'' = None then map (\<lambda>(k, v). (if k = ''action_class'' then ''class'' else k, v)) d else d)"

definition read_executed_fields :: "field_spec list" where
  "read_executed_fields = base_fields @
     [(''call_id'', True, any_string), (''connector'', True, any_string), (''op'', True, any_string),
      (''latency_ms'', True, non_negative_int), (''payload_ref'', True, any_string)]"

section \<open>Surfaces, views and shapes\<close>

definition surface_created_fields :: "field_spec list" where
  "surface_created_fields = base_fields @
     [(''surface_id'', True, any_string),
      (''kind'', True, one_of [''record'', ''message'', ''table'', ''call'', ''raw'', ''receipt'', ''gate'']),
      (''source'', True, shaped op_ref_fields), (''title'', True, any_string), (''payload_ref'', True, any_string),
      (''state'', False, any_object), (''write_ops'', False, array_such any_object)]"

definition view_derived_fields :: "field_spec list" where
  "view_derived_fields = base_fields @
     [(''surface_id'', True, any_string), (''tier'', True, one_of [''raw'', ''generic'', ''shaped'']),
      (''basis'', True, one_of [''schema'', ''registry'', ''generated'', ''selected'']),
      (''spec_ref'', False, any_string), (''gen'', False, shaped view_gen_fields)]"

definition view_preference_fields :: "field_spec list" where
  "view_preference_fields = base_fields @
     [(''surface_id'', True, any_string), (''keep'', True, one_of [''generic'', ''shaped'']), (''actor'', True, one_of [''user''])]"

definition shape_requested_fields :: "field_spec list" where
  "shape_requested_fields = base_fields @ [(''surface_id'', True, any_string), (''actor'', True, one_of [''user''])]"

definition shape_resolved_fields :: "field_spec list" where
  "shape_resolved_fields = base_fields @
     [(''surface_id'', True, any_string), (''outcome'', True, one_of [''shaped'', ''no_fit'']), (''reason'', False, any_string)]"

section \<open>Writes, usage and receipts\<close>

definition write_staged_fields :: "field_spec list" where
  "write_staged_fields = base_fields @
     [(''stage_id'', True, any_string), (''surface_id'', True, any_string), (''target'', True, shaped op_ref_fields),
      (''proposal_ref'', True, any_string), (''rows'', False, non_negative_int),
      (''agent_holds'', False, array_such (shaped agent_hold_fields)), (''rollout'', False, shaped lane_fields)]"

definition revision_added_fields :: "field_spec list" where
  "revision_added_fields = base_fields @
     [(''stage_id'', True, any_string), (''rev'', True, positive_int), (''author'', True, one_of [''agent'', ''user'']),
      (''diff_ref'', True, any_string), (''proposal_ref'', False, any_string),
      (''authorship_spans'', False, array_such (shaped authorship_span_fields)),
      (''rowset'', False, shaped revision_rowset_fields)]"

definition write_decision_fields :: "field_spec list" where
  "write_decision_fields = base_fields @
     [(''stage_id'', True, any_string), (''decision'', True, one_of [''approve'', ''reject'', ''hold'', ''restore'']),
      (''scope'', True, object_such decision_scope_ok), (''actor'', True, one_of [''user'', ''policy'']),
      (''apply'', False, is_jbool)]"

definition write_applied_fields :: "field_spec list" where
  "write_applied_fields = base_fields @
     [(''stage_id'', True, any_string), (''rev'', True, positive_int), (''result'', True, one_of [''applied'', ''partial'', ''failed'']),
      (''row_keys'', False, string_array), (''connector_receipt_ref'', False, any_string),
      (''failure'', False, shaped write_failure_fields), (''decided_by'', False, shaped decided_by_fields),
      (''row_results'', False, row_results_ok)]"

definition usage_recorded_fields :: "field_spec list" where
  "usage_recorded_fields = base_fields @
     [(''purpose'', True, one_of [''run'', ''subagent'', ''view_shaping'', ''shape_request'']), (''model'', True, any_string),
      (''tokens_in'', True, non_negative_int), (''tokens_out'', True, non_negative_int), (''surface_id'', False, any_string)]"

definition receipt_emitted_fields :: "field_spec list" where
  "receipt_emitted_fields = base_fields @ [(''surface_id'', True, any_string), (''fold_ref'', True, any_string)]"

section \<open>Operations and artifacts\<close>

definition operation_id_field :: "string \<Rightarrow> bool \<Rightarrow> field_spec" where
  "operation_id_field k needed = (k, needed, str_such (\<lambda>s. ok (operation_id_parse s)))"

definition operation_requested_fields :: "field_spec list" where
  "operation_requested_fields = base_fields @
     [operation_id_field ''operation_id'' True, (''producer'', True, one_of [''model'', ''subagent'', ''user'', ''system'']),
      (''capability'', True, any_string), (''op'', True, any_string), digest_field ''args_digest'' True,
      operation_id_field ''parent_operation_id'' False]"

definition operation_classified_fields :: "field_spec list" where
  "operation_classified_fields = base_fields @
     [operation_id_field ''operation_id'' True, (''effect_class'', True, str_such (\<lambda>s. ok (effect_class_of s))),
      (''basis'', True, one_of [''descriptor'', ''catalog'', ''provider_annotation'', ''policy_override'', ''default'']),
      (''confidence'', True, unit_number)]"

definition operation_completed_fields :: "field_spec list" where
  "operation_completed_fields = base_fields @
     [operation_id_field ''operation_id'' True,
      (''outcome'', True, one_of [''succeeded'', ''staged'', ''blocked'', ''cancelled'', ''failed'']),
      (''result_ref'', False, str_such non_physical_reference), (''latency_ms'', False, safe_non_negative_int)]"

definition operation_failed_fields :: "field_spec list" where
  "operation_failed_fields = base_fields @
     [operation_id_field ''operation_id'' True, (''failure_code'', True, short_text 128), (''retryable'', True, is_jbool)]"

definition artifact_kinds :: "string list" where
  "artifact_kinds = [''code'', ''document'', ''dataset'', ''file'']"

definition artifact_id_field :: "field_spec" where
  "artifact_id_field = (''artifact_id'', True, str_such (\<lambda>s. ok (artifact_id_parse s)))"

definition artifact_created_fields :: "field_spec list" where
  "artifact_created_fields = base_fields @
     [artifact_id_field, (''kind'', True, one_of artifact_kinds), (''revision'', True, safe_positive_int),
      (''content_ref'', True, any_string), digest_field ''content_digest'' True, (''author'', True, one_of artifact_authors)]"

definition content_ref_matches :: "dict \<Rightarrow> bool" where
  "content_ref_matches d = (case artifact_ref_parse (str_field d ''content_ref'') of
     Inl _ \<Rightarrow> False | Inr (artifact, revision) \<Rightarrow> artifact = str_field d ''artifact_id'' \<and> revision = int_field d ''revision'')"

definition artifact_created_ok :: "dict \<Rightarrow> bool" where
  "artifact_created_ok d \<longleftrightarrow> fields_ok artifact_created_fields d \<and> content_ref_matches d"

definition artifact_revised_fields :: "field_spec list" where
  "artifact_revised_fields = base_fields @
     [artifact_id_field, (''revision'', True, safe_positive_int), (''parent_revision'', True, safe_positive_int),
      (''content_ref'', True, any_string), digest_field ''content_digest'' True, (''author'', True, one_of artifact_authors)]"

definition artifact_revised_ok :: "dict \<Rightarrow> bool" where
  "artifact_revised_ok d \<longleftrightarrow> fields_ok artifact_revised_fields d
     \<and> int_field d ''parent_revision'' < int_field d ''revision'' \<and> content_ref_matches d"

definition artifact_promoted_fields :: "field_spec list" where
  "artifact_promoted_fields = base_fields @
     [artifact_id_field, (''source_ref'', True, str_such non_physical_reference), (''kind'', True, one_of artifact_kinds),
      (''revision'', True, safe_positive_int)]"

definition artifact_presentation_fields :: "field_spec list" where
  "artifact_presentation_fields = base_fields @
     [artifact_id_field, (''decision'', True, one_of [''canvas'', ''chat_card'', ''activity_only'', ''none'']),
      (''basis'', True, short_text 128), (''surface_id'', False, any_string)]"

section \<open>The chokepoint\<close>

definition other_models :: "(string \<times> field_spec list \<times> (dict \<Rightarrow> bool)) list" where
  "other_models =
     [(''gate.opened'', gate_opened_fields, fields_ok gate_opened_fields),
      (''gate.resolved'', gate_resolved_fields, fields_ok gate_resolved_fields),
      (''action.classified'', action_classified_fields, \<lambda>d. fields_ok action_classified_fields (by_alias d)),
      (''read.executed'', read_executed_fields, fields_ok read_executed_fields),
      (''surface.created'', surface_created_fields, fields_ok surface_created_fields),
      (''view.derived'', view_derived_fields, fields_ok view_derived_fields),
      (''view.preference'', view_preference_fields, fields_ok view_preference_fields),
      (''shape.requested'', shape_requested_fields, fields_ok shape_requested_fields),
      (''shape.resolved'', shape_resolved_fields, fields_ok shape_resolved_fields),
      (''write.staged'', write_staged_fields, fields_ok write_staged_fields),
      (''revision.added'', revision_added_fields, fields_ok revision_added_fields),
      (''decision.recorded'', write_decision_fields, fields_ok write_decision_fields),
      (''write.applied'', write_applied_fields, fields_ok write_applied_fields),
      (''usage.recorded'', usage_recorded_fields, fields_ok usage_recorded_fields),
      (''receipt.emitted'', receipt_emitted_fields, fields_ok receipt_emitted_fields),
      (''operation.requested'', operation_requested_fields, fields_ok operation_requested_fields),
      (''operation.classified'', operation_classified_fields, fields_ok operation_classified_fields),
      (''operation.completed'', operation_completed_fields, fields_ok operation_completed_fields),
      (''operation.failed'', operation_failed_fields, fields_ok operation_failed_fields),
      (''artifact.created'', artifact_created_fields, artifact_created_ok),
      (''artifact.revised'', artifact_revised_fields, artifact_revised_ok),
      (''artifact.promoted'', artifact_promoted_fields, fields_ok artifact_promoted_fields),
      (''artifact.presentation_decided'', artifact_presentation_fields, fields_ok artifact_presentation_fields),
      (''gate.opened.v2'', gate_opened_v2_fields, fields_ok gate_opened_v2_fields),
      (''gate.resolved.v2'', gate_resolved_v2_fields, fields_ok gate_resolved_v2_fields)]"

definition vocabulary_model :: "string \<Rightarrow> (field_spec list \<times> (dict \<Rightarrow> bool)) option" where
  "vocabulary_model ty = (case payload_model ty of Some m \<Rightarrow> Some m | None \<Rightarrow> map_of other_models ty)"

text \<open>
  \<open>validate_payload\<close> and the dump without nulls: the declared fields that are set. Nulls inside a
  value stay here, which the readers of the dump, who only look at strings, do not see.
\<close>

definition set_fields :: "field_spec list \<Rightarrow> dict \<Rightarrow> dict" where
  "set_fields specs d = concat (map (\<lambda>(k, _). case map_of d k of
       None \<Rightarrow> [] | Some v \<Rightarrow> if v = JNull then [] else [(k, v)]) specs)"

definition validated_fields :: "string \<Rightarrow> dict \<Rightarrow> dict result" where
  "validated_fields ty d = (case vocabulary_model ty of
       None \<Rightarrow> Inl ValueError
     | Some (specs, valid) \<Rightarrow> if valid d then Inr (set_fields specs (by_alias d)) else Inl ValidationError)"

end
