(* ===== verification/LifecycleRefs.thy ===== *)
theory LifecycleRefs
  imports LedgerVocabulary RepairPlanning CommandQueue
begin

text \<open>
  The registry of lifecycle references of \<open>agent_runtime/surfaces_v2/lifecycle_refs.py\<close>: the
  closed list of schemes with one owner each, and the strict parser of references and surface ids.
  A refusal is the diagnostic that the source raises, its code and the scheme it names. Parts have
  passed the token pattern when the shape of a scheme is checked, so that they hold no slash.
\<close>

section \<open>Schemes and owners\<close>

datatype reference_owner =
    OWN_ARTIFACT_REPOSITORY | OWN_OPERATION_GATEWAY | OWN_SURFACE_PRESENTATION | OWN_EFFECT_STAGE
  | OWN_WORKSPACE_AUTHORITY | OWN_BROWSER_AUTHORITY | OWN_SANDBOX_RUNTIME | OWN_RUNTIME_EVENT_STORE
  | OWN_POLICY_ENGINE | OWN_IDENTITY | OWN_RECEIPT_LIFECYCLE | OWN_LEGACY_STAGE

datatype lifecycle_scheme =
    REF_ACTIVITY | REF_ARTIFACT | REF_ARTIFACT_BLOB | REF_ARTIFACT_CODE_SURFACE |
    REF_ARTIFACT_DATASET_SURFACE | REF_ARTIFACT_DOCUMENT_SURFACE | REF_ARTIFACT_FILE_SURFACE |
    REF_BARE_SURFACE | REF_BROWSER_PAGE | REF_BROWSER_PLAN | REF_BROWSER_PRECONDITION |
    REF_BROWSER_PREPARED | REF_BROWSER_RECEIPT | REF_BROWSER_SESSION | REF_BROWSER_TARGET | REF_CALL |
    REF_CHAT | REF_COMMIT | REF_DASHBOARD_SURFACE | REF_DOC_SURFACE | REF_DRAFT | REF_EFFECT_STAGE_SURFACE |
    REF_EVENT_SURFACE | REF_FILE_SURFACE | REF_FORM_SURFACE | REF_LEDGER | REF_MCP_TARGET | REF_MESSAGE |
    REF_MESSAGE_SURFACE | REF_OPERATION | REF_PAYLOAD | REF_POLICY | REF_PREPARED | REF_PRINCIPAL |
    REF_PROPOSAL | REF_RECEIPT | REF_RECORD_SURFACE | REF_ROWSET_TARGET | REF_SANDBOX | REF_SPEC |
    REF_STAGE | REF_TABLE_SURFACE | REF_TIMELINE_SURFACE | REF_WORKSPACE_MATERIAL | REF_WORKSPACE_OVERLAY |
    REF_WORKSPACE_PRECONDITION | REF_WORKSPACE_PREPARED | REF_WORKSPACE_RECEIPT | REF_WORKSPACE_TARGET |
    REF_BOARD_SURFACE

fun scheme_value :: "lifecycle_scheme \<Rightarrow> string" where
  "scheme_value REF_ACTIVITY = ''activity''"
| "scheme_value REF_ARTIFACT = ''artifact''"
| "scheme_value REF_ARTIFACT_BLOB = ''artifact-blob''"
| "scheme_value REF_ARTIFACT_CODE_SURFACE = ''artifact-code''"
| "scheme_value REF_ARTIFACT_DATASET_SURFACE = ''artifact-dataset''"
| "scheme_value REF_ARTIFACT_DOCUMENT_SURFACE = ''artifact-document''"
| "scheme_value REF_ARTIFACT_FILE_SURFACE = ''artifact-file''"
| "scheme_value REF_BARE_SURFACE = ''bare_surface''"
| "scheme_value REF_BROWSER_PAGE = ''browser-page''"
| "scheme_value REF_BROWSER_PLAN = ''browser-plan''"
| "scheme_value REF_BROWSER_PRECONDITION = ''browser-precondition''"
| "scheme_value REF_BROWSER_PREPARED = ''browser-prepared''"
| "scheme_value REF_BROWSER_RECEIPT = ''browser-receipt''"
| "scheme_value REF_BROWSER_SESSION = ''browser-session''"
| "scheme_value REF_BROWSER_TARGET = ''browser-target''"
| "scheme_value REF_CALL = ''call''"
| "scheme_value REF_CHAT = ''chat''"
| "scheme_value REF_COMMIT = ''commit''"
| "scheme_value REF_DASHBOARD_SURFACE = ''dashboard''"
| "scheme_value REF_DOC_SURFACE = ''doc''"
| "scheme_value REF_DRAFT = ''draft''"
| "scheme_value REF_EFFECT_STAGE_SURFACE = ''effect-stage''"
| "scheme_value REF_EVENT_SURFACE = ''event''"
| "scheme_value REF_FILE_SURFACE = ''file''"
| "scheme_value REF_FORM_SURFACE = ''form''"
| "scheme_value REF_LEDGER = ''ledger''"
| "scheme_value REF_MCP_TARGET = ''mcp-target''"
| "scheme_value REF_MESSAGE = ''message''"
| "scheme_value REF_MESSAGE_SURFACE = ''message_surface''"
| "scheme_value REF_OPERATION = ''operation''"
| "scheme_value REF_PAYLOAD = ''payload''"
| "scheme_value REF_POLICY = ''policy''"
| "scheme_value REF_PREPARED = ''prepared''"
| "scheme_value REF_PRINCIPAL = ''principal''"
| "scheme_value REF_PROPOSAL = ''proposal''"
| "scheme_value REF_RECEIPT = ''receipt''"
| "scheme_value REF_RECORD_SURFACE = ''record''"
| "scheme_value REF_ROWSET_TARGET = ''rowset-target''"
| "scheme_value REF_SANDBOX = ''sandbox''"
| "scheme_value REF_SPEC = ''spec''"
| "scheme_value REF_STAGE = ''stage''"
| "scheme_value REF_TABLE_SURFACE = ''table''"
| "scheme_value REF_TIMELINE_SURFACE = ''timeline''"
| "scheme_value REF_WORKSPACE_MATERIAL = ''workspace-material''"
| "scheme_value REF_WORKSPACE_OVERLAY = ''workspace-overlay''"
| "scheme_value REF_WORKSPACE_PRECONDITION = ''workspace-precondition''"
| "scheme_value REF_WORKSPACE_PREPARED = ''workspace-prepared''"
| "scheme_value REF_WORKSPACE_RECEIPT = ''workspace-receipt''"
| "scheme_value REF_WORKSPACE_TARGET = ''workspace-target''"
| "scheme_value REF_BOARD_SURFACE = ''board''"

definition lifecycle_schemes :: "lifecycle_scheme list" where
  "lifecycle_schemes =
     [REF_ACTIVITY, REF_ARTIFACT, REF_ARTIFACT_BLOB, REF_ARTIFACT_CODE_SURFACE, REF_ARTIFACT_DATASET_SURFACE,
      REF_ARTIFACT_DOCUMENT_SURFACE, REF_ARTIFACT_FILE_SURFACE, REF_BARE_SURFACE, REF_BROWSER_PAGE,
      REF_BROWSER_PLAN, REF_BROWSER_PRECONDITION, REF_BROWSER_PREPARED, REF_BROWSER_RECEIPT,
      REF_BROWSER_SESSION, REF_BROWSER_TARGET, REF_CALL, REF_CHAT, REF_COMMIT, REF_DASHBOARD_SURFACE,
      REF_DOC_SURFACE, REF_DRAFT, REF_EFFECT_STAGE_SURFACE, REF_EVENT_SURFACE, REF_FILE_SURFACE,
      REF_FORM_SURFACE, REF_LEDGER, REF_MCP_TARGET, REF_MESSAGE, REF_MESSAGE_SURFACE, REF_OPERATION,
      REF_PAYLOAD, REF_POLICY, REF_PREPARED, REF_PRINCIPAL, REF_PROPOSAL, REF_RECEIPT, REF_RECORD_SURFACE,
      REF_ROWSET_TARGET, REF_SANDBOX, REF_SPEC, REF_STAGE, REF_TABLE_SURFACE, REF_TIMELINE_SURFACE,
      REF_WORKSPACE_MATERIAL, REF_WORKSPACE_OVERLAY, REF_WORKSPACE_PRECONDITION, REF_WORKSPACE_PREPARED,
      REF_WORKSPACE_RECEIPT, REF_WORKSPACE_TARGET, REF_BOARD_SURFACE]"

datatype node_kind =
    NODE_RUN | NODE_EVENT | NODE_OPERATION | NODE_ARTIFACT | NODE_EFFECT_STAGE | NODE_SURFACE | NODE_GATE | NODE_CALL
  | NODE_REFERENCE

fun node_kind_value :: "node_kind \<Rightarrow> string" where
  "node_kind_value NODE_RUN = ''run''"
| "node_kind_value NODE_EVENT = ''event''"
| "node_kind_value NODE_OPERATION = ''operation''"
| "node_kind_value NODE_ARTIFACT = ''artifact''"
| "node_kind_value NODE_EFFECT_STAGE = ''effect_stage''"
| "node_kind_value NODE_SURFACE = ''surface''"
| "node_kind_value NODE_GATE = ''gate''"
| "node_kind_value NODE_CALL = ''call''"
| "node_kind_value NODE_REFERENCE = ''reference''"

datatype diagnostic_code =
    INVALID_RUN_ID | INVALID_LEDGER_EVENT | INVALID_SEQUENCE | DUPLICATE_SEQUENCE | UNKNOWN_SCHEME
  | MALFORMED_REFERENCE | FORBIDDEN_REFERENCE | UNMAPPED_CONTRACT_REFERENCE | DUPLICATE_SCHEME_OWNER

record registration =
  rg_scheme :: lifecycle_scheme
  rg_wire :: string
  rg_owner :: reference_owner
  rg_kind :: node_kind
  rg_example :: string
  rg_surface_only :: bool

record lifecycle_reference =
  lr_reference :: string
  lr_scheme :: lifecycle_scheme
  lr_owner :: reference_owner
  lr_kind :: node_kind
  lr_parts :: "string list"

section \<open>The shipped registry\<close>

definition plain_registration :: "lifecycle_scheme \<Rightarrow> reference_owner \<Rightarrow> node_kind \<Rightarrow> string \<Rightarrow> registration" where
  "plain_registration s w k x = \<lparr>rg_scheme = s, rg_wire = scheme_value s, rg_owner = w, rg_kind = k, rg_example = x,
     rg_surface_only = False\<rparr>"

definition surface_registration :: "lifecycle_scheme \<Rightarrow> string \<Rightarrow> registration" where
  "surface_registration s wire = \<lparr>rg_scheme = s, rg_wire = wire, rg_owner = OWN_SURFACE_PRESENTATION, rg_kind = NODE_SURFACE,
     rg_example = wire @ ''://linear/get_issue/ENG_1'', rg_surface_only = True\<rparr>"

definition artifact_surface_registration :: "lifecycle_scheme \<Rightarrow> registration" where
  "artifact_surface_registration s = \<lparr>rg_scheme = s, rg_wire = scheme_value s, rg_owner = OWN_ARTIFACT_REPOSITORY,
     rg_kind = NODE_SURFACE, rg_example = scheme_value s @ ''://art_018f47a6-7b2c-7b10-8f21-12345678b002@1'',
     rg_surface_only = True\<rparr>"

definition default_registry :: "registration list" where
  "default_registry =
     [\<lparr>rg_scheme = REF_BARE_SURFACE, rg_wire = ''bare-surface-id'', rg_owner = OWN_SURFACE_PRESENTATION,
        rg_kind = NODE_SURFACE, rg_example = ''surface_01'', rg_surface_only = True\<rparr>,
      plain_registration REF_ACTIVITY OWN_RUNTIME_EVENT_STORE NODE_REFERENCE ''activity://run_01/1'',
      plain_registration REF_ARTIFACT OWN_ARTIFACT_REPOSITORY NODE_ARTIFACT
        ''artifact://art_018f47a6-7b2c-7b10-8f21-12345678b002/revisions/1'',
      plain_registration REF_ARTIFACT_BLOB OWN_WORKSPACE_AUTHORITY NODE_REFERENCE
        (''artifact-blob://sha256/'' @ replicate 64 (CHR ''a'')),
      artifact_surface_registration REF_ARTIFACT_CODE_SURFACE,
      artifact_surface_registration REF_ARTIFACT_DOCUMENT_SURFACE,
      artifact_surface_registration REF_ARTIFACT_DATASET_SURFACE,
      artifact_surface_registration REF_ARTIFACT_FILE_SURFACE,
      plain_registration REF_BROWSER_PAGE OWN_BROWSER_AUTHORITY NODE_REFERENCE ''browser-page://pg_01'',
      plain_registration REF_BROWSER_PLAN OWN_BROWSER_AUTHORITY NODE_REFERENCE
        (''browser-plan://'' @ replicate 64 (CHR ''b'')),
      plain_registration REF_BROWSER_PRECONDITION OWN_BROWSER_AUTHORITY NODE_REFERENCE
        (''browser-precondition://'' @ replicate 64 (CHR ''c'')),
      plain_registration REF_BROWSER_PREPARED OWN_BROWSER_AUTHORITY NODE_REFERENCE ''browser-prepared://ses_01/one'',
      plain_registration REF_BROWSER_RECEIPT OWN_BROWSER_AUTHORITY NODE_REFERENCE ''browser-receipt://ses_01/one'',
      plain_registration REF_BROWSER_SESSION OWN_BROWSER_AUTHORITY NODE_REFERENCE ''browser-session://ses_01'',
      plain_registration REF_BROWSER_TARGET OWN_BROWSER_AUTHORITY NODE_REFERENCE
        (''browser-target://'' @ replicate 64 (CHR ''d'')),
      plain_registration REF_CALL OWN_RUNTIME_EVENT_STORE NODE_CALL ''call:call_01'',
      plain_registration REF_CHAT OWN_RUNTIME_EVENT_STORE NODE_REFERENCE ''chat://run_01/final'',
      plain_registration REF_COMMIT OWN_LEGACY_STAGE NODE_REFERENCE ''commit://stage_01/1'',
      surface_registration REF_BOARD_SURFACE (scheme_value REF_BOARD_SURFACE),
      surface_registration REF_DASHBOARD_SURFACE (scheme_value REF_DASHBOARD_SURFACE),
      surface_registration REF_DOC_SURFACE (scheme_value REF_DOC_SURFACE),
      plain_registration REF_DRAFT OWN_LEGACY_STAGE NODE_REFERENCE ''draft://draft_01/v1'',
      (plain_registration REF_EFFECT_STAGE_SURFACE OWN_EFFECT_STAGE NODE_SURFACE
        (''effect-stage://stg_01''))\<lparr>rg_surface_only := True\<rparr>,
      surface_registration REF_EVENT_SURFACE (scheme_value REF_EVENT_SURFACE),
      surface_registration REF_FILE_SURFACE (scheme_value REF_FILE_SURFACE),
      surface_registration REF_FORM_SURFACE (scheme_value REF_FORM_SURFACE),
      plain_registration REF_LEDGER OWN_RUNTIME_EVENT_STORE NODE_REFERENCE ''ledger://run_01@1'',
      plain_registration REF_MCP_TARGET OWN_OPERATION_GATEWAY NODE_REFERENCE ''mcp-target://linear/issue_ENG_1'',
      plain_registration REF_MESSAGE OWN_RUNTIME_EVENT_STORE NODE_REFERENCE ''message://msg_01'',
      surface_registration REF_MESSAGE_SURFACE ''message'',
      plain_registration REF_OPERATION OWN_OPERATION_GATEWAY NODE_OPERATION
        ''operation://op_018f47a6-7b2c-7a10-8f21-12345678a004/args'',
      plain_registration REF_PAYLOAD OWN_RUNTIME_EVENT_STORE NODE_REFERENCE ''payload://evt_01'',
      plain_registration REF_POLICY OWN_POLICY_ENGINE NODE_REFERENCE ''policy://runs/run_01/mcp'',
      plain_registration REF_PREPARED OWN_EFFECT_STAGE NODE_REFERENCE ''prepared://effects/stg_01/idem_01'',
      plain_registration REF_PRINCIPAL OWN_IDENTITY NODE_REFERENCE ''principal://users/user_01'',
      plain_registration REF_PROPOSAL OWN_EFFECT_STAGE NODE_EFFECT_STAGE
        ''proposal://stg_018f47a6-7b2c-7c10-8f21-12345678c005/revisions/1'',
      plain_registration REF_RECEIPT OWN_RECEIPT_LIFECYCLE NODE_REFERENCE
        ''receipt://effects/stg_018f47a6-7b2c-7c10-8f21-12345678c006/claim_06'',
      surface_registration REF_RECORD_SURFACE (scheme_value REF_RECORD_SURFACE),
      plain_registration REF_ROWSET_TARGET OWN_EFFECT_STAGE NODE_REFERENCE
        (''rowset-target://'' @ replicate 64 (CHR ''e'')),
      plain_registration REF_SANDBOX OWN_SANDBOX_RUNTIME NODE_REFERENCE ''sandbox://objects/csv_01'',
      plain_registration REF_SPEC OWN_SURFACE_PRESENTATION NODE_REFERENCE ''spec:linear/get_issue'',
      plain_registration REF_STAGE OWN_LEGACY_STAGE NODE_EFFECT_STAGE ''stage://stage_01/v1'',
      surface_registration REF_TABLE_SURFACE (scheme_value REF_TABLE_SURFACE),
      surface_registration REF_TIMELINE_SURFACE (scheme_value REF_TIMELINE_SURFACE),
      plain_registration REF_WORKSPACE_MATERIAL OWN_WORKSPACE_AUTHORITY NODE_REFERENCE
        (''workspace-material://sha256/'' @ replicate 64 (CHR ''f'')),
      plain_registration REF_WORKSPACE_OVERLAY OWN_WORKSPACE_AUTHORITY NODE_REFERENCE
        ''workspace-overlay://runs/run_01/versions/1'',
      plain_registration REF_WORKSPACE_PRECONDITION OWN_WORKSPACE_AUTHORITY NODE_REFERENCE
        (''workspace-precondition://sha256/'' @ replicate 64 (CHR ''a'')),
      plain_registration REF_WORKSPACE_PREPARED OWN_WORKSPACE_AUTHORITY NODE_REFERENCE
        ''workspace-prepared://prepared_01'',
      plain_registration REF_WORKSPACE_RECEIPT OWN_WORKSPACE_AUTHORITY NODE_REFERENCE
        ''workspace-receipt://claim_01'',
      plain_registration REF_WORKSPACE_TARGET OWN_WORKSPACE_AUTHORITY NODE_REFERENCE
        ''workspace-target://grant_01/pathToken_01'']"

definition registration_of :: "lifecycle_scheme \<Rightarrow> registration" where
  "registration_of s = the (find (\<lambda>r. rg_scheme r = s) default_registry)"

definition registrations_of_wire :: "string \<Rightarrow> registration list" where
  "registrations_of_wire w = filter (\<lambda>r. rg_wire r = w) default_registry"

definition artifact_surface_schemes :: "lifecycle_scheme list" where
  "artifact_surface_schemes = [REF_ARTIFACT_CODE_SURFACE, REF_ARTIFACT_DATASET_SURFACE, REF_ARTIFACT_DOCUMENT_SURFACE,
     REF_ARTIFACT_FILE_SURFACE]"

definition surface_schemes :: "lifecycle_scheme list" where
  "surface_schemes = artifact_surface_schemes @
     [REF_BOARD_SURFACE, REF_DASHBOARD_SURFACE, REF_DOC_SURFACE, REF_EVENT_SURFACE, REF_FILE_SURFACE, REF_FORM_SURFACE,
      REF_MESSAGE_SURFACE, REF_RECORD_SURFACE, REF_TABLE_SURFACE, REF_TIMELINE_SURFACE]"

section \<open>Patterns\<close>

definition safe_token :: "string \<Rightarrow> bool" where
  "safe_token s \<longleftrightarrow> id_pattern s \<and> length s \<le> 256"

definition remove_prefix :: "string \<Rightarrow> string \<Rightarrow> string" where
  "remove_prefix p s = (if starts_with p s then drop (length p) s else s)"

text \<open>\<open>v\<close> and a positive number, and \<open>v<n>..v<m>\<close>.\<close>

definition is_version :: "string \<Rightarrow> bool" where
  "is_version s = (case s of [] \<Rightarrow> False | c # r \<Rightarrow> c = CHR ''v'' \<and> is_pos_dec r)"

definition version_range :: "string \<Rightarrow> (nat \<times> nat) option" where
  "version_range s = (case s of [] \<Rightarrow> None | c # r \<Rightarrow>
     (let d = takeWhile is_digit r; e = dropWhile is_digit r in
      if c = CHR ''v'' \<and> is_pos_dec d \<and> starts_with ''..v'' e \<and> is_pos_dec (drop 3 e)
      then Some (nat_of_dec d, nat_of_dec (drop 3 e)) else None))"

text \<open>\<open>LEDGER_FOLD\<close> and \<open>ARTIFACT_SURFACE\<close>: a name, an at sign and a positive number.\<close>

definition at_number :: "(string \<Rightarrow> bool) \<Rightarrow> string \<Rightarrow> (string \<times> string) option" where
  "at_number nm s = (case partition_at (CHR ''@'') s of (a, found, d) \<Rightarrow>
     if found \<and> nm a \<and> is_pos_dec d then Some (a, d) else None)"

definition artifact_surface_name :: "string \<Rightarrow> bool" where
  "artifact_surface_name s \<longleftrightarrow> starts_with ''art_'' s \<and> 4 < length s \<and> CHR ''/'' \<notin> set s"

section \<open>The shape of a scheme\<close>

type_synonym ref_fault = "diagnostic_code \<times> lifecycle_scheme option"

text \<open>A shape check ends with a fault or with none; the length checks do not name the scheme.\<close>

definition named :: "lifecycle_scheme \<Rightarrow> bool \<Rightarrow> ref_fault option" where
  "named s p = (if p then None else Some (MALFORMED_REFERENCE, Some s))"

definition unnamed :: "bool \<Rightarrow> ref_fault option" where
  "unnamed p = (if p then None else Some (MALFORMED_REFERENCE, None))"

definition exact_parts :: "nat \<Rightarrow> string list \<Rightarrow> ref_fault option" where
  "exact_parts n parts = unnamed (length parts = n)"

definition artifact_surface_fault :: "lifecycle_scheme \<Rightarrow> string list \<Rightarrow> ref_fault option" where
  "artifact_surface_fault s parts = (case parts of
       [a, n] \<Rightarrow> named s (ok (artifact_id_parse a) \<and> is_pos_dec n \<and> int (nat_of_dec n) \<le> MAX_SAFE_INTEGER)
     | _ \<Rightarrow> unnamed False)"

definition operation_fault :: "string \<Rightarrow> string list \<Rightarrow> ref_fault option" where
  "operation_fault v parts = (case parts of
       [i, word] \<Rightarrow> named REF_OPERATION
         (if word = ''args'' then ok (operation_args_parse v) else word = ''result'' \<and> ok (operation_id_parse i))
     | _ \<Rightarrow> unnamed False)"

definition receipt_fault :: "string \<Rightarrow> string list \<Rightarrow> ref_fault option" where
  "receipt_fault v parts =
     (if length parts = 3 \<and> hd parts = ''effects'' then named REF_RECEIPT (ok (receipt_parse v)) else exact_parts 1 parts)"

definition overlay_fault :: "string list \<Rightarrow> ref_fault option" where
  "overlay_fault parts = (case parts of
       [a, i, b, n] \<Rightarrow> named REF_WORKSPACE_OVERLAY (a = ''runs'' \<and> b = ''versions'' \<and> is_pos_dec n)
     | _ \<Rightarrow> unnamed False)"

definition digest_fault :: "string list \<Rightarrow> ref_fault option" where
  "digest_fault parts = (case parts of [a, d] \<Rightarrow> unnamed (a = ''sha256'' \<and> is_sha256_hex d) | _ \<Rightarrow> unnamed False)"

definition digest_only_fault :: "string list \<Rightarrow> ref_fault option" where
  "digest_only_fault parts = (case parts of [d] \<Rightarrow> unnamed (is_sha256_hex d) | _ \<Rightarrow> unnamed False)"

definition browser_target_fault :: "string list \<Rightarrow> ref_fault option" where
  "browser_target_fault parts = (case parts of [d] \<Rightarrow> unnamed (is_sha256_hex d) | _ \<Rightarrow> exact_parts 2 parts)"

definition draft_fault :: "string list \<Rightarrow> ref_fault option" where
  "draft_fault parts = named REF_DRAFT (case parts of
       [d] \<Rightarrow> length d = 32 \<and> list_all is_lower_hex d
     | [i, v] \<Rightarrow> is_version v \<or> (case version_range v of None \<Rightarrow> False | Some (n, m) \<Rightarrow> n < m)
     | _ \<Rightarrow> False)"

definition numbered_fault :: "lifecycle_scheme \<Rightarrow> string list \<Rightarrow> ref_fault option" where
  "numbered_fault s parts = (case parts of [i, n] \<Rightarrow> named s (is_pos_dec n) | _ \<Rightarrow> unnamed False)"

definition ledger_fault :: "string \<Rightarrow> string list \<Rightarrow> ref_fault option" where
  "ledger_fault v parts = (if length parts \<noteq> 2 then unnamed False
     else named REF_LEDGER (at_number safe_token (remove_prefix ''ledger://'' v) \<noteq> None))"

definition path_fault :: "lifecycle_scheme \<Rightarrow> string list \<Rightarrow> ref_fault option" where
  "path_fault s parts = named s (parts \<noteq> [] \<and> list_all opaque_identifier parts)"

definition policy_fault :: "string list \<Rightarrow> ref_fault option" where
  "policy_fault parts = named REF_POLICY (2 \<le> length parts \<and> length parts \<le> 4 \<and> hd parts \<in> {''run'', ''runs''})"

definition shape_fault :: "lifecycle_scheme \<Rightarrow> string \<Rightarrow> string list \<Rightarrow> ref_fault option" where
  "shape_fault s v parts =
     (if s = REF_ARTIFACT then named s (ok (artifact_ref_parse v))
      else if s \<in> set artifact_surface_schemes then artifact_surface_fault s parts
      else if s = REF_OPERATION then operation_fault v parts
      else if s = REF_PROPOSAL then named s (ok (proposal_parse v))
      else if s = REF_RECEIPT then receipt_fault v parts
      else if s = REF_WORKSPACE_TARGET then named s (ok (workspace_target_parse v))
      else if s = REF_WORKSPACE_OVERLAY then overlay_fault parts
      else if s \<in> {REF_ARTIFACT_BLOB, REF_WORKSPACE_MATERIAL, REF_WORKSPACE_PRECONDITION} then digest_fault parts
      else if s \<in> {REF_BROWSER_PLAN, REF_BROWSER_PRECONDITION} then digest_only_fault parts
      else if s = REF_BROWSER_TARGET then browser_target_fault parts
      else if s \<in> {REF_BROWSER_PREPARED, REF_BROWSER_RECEIPT} then exact_parts 2 parts
      else if s = REF_PREPARED then exact_parts 3 parts
      else if s \<in> {REF_BROWSER_PAGE, REF_BROWSER_SESSION, REF_WORKSPACE_PREPARED, REF_WORKSPACE_RECEIPT, REF_MESSAGE,
                  REF_CALL, REF_EFFECT_STAGE_SURFACE} then exact_parts 1 parts
      else if s = REF_CHAT then (case parts of [i, word] \<Rightarrow> named s (word = ''final'') | _ \<Rightarrow> unnamed False)
      else if s = REF_COMMIT then numbered_fault s parts
      else if s = REF_DRAFT then draft_fault parts
      else if s = REF_LEDGER then ledger_fault v parts
      else if s = REF_MCP_TARGET then exact_parts 2 parts
      else if s \<in> {REF_PAYLOAD, REF_SPEC} then path_fault s parts
      else if s = REF_POLICY then policy_fault parts
      else if s = REF_PRINCIPAL then (case parts of [a, i] \<Rightarrow> named s (a \<in> {''system'', ''users''}) | _ \<Rightarrow> unnamed False)
      else if s = REF_ROWSET_TARGET then digest_only_fault parts
      else if s = REF_SANDBOX then (case parts of [a, i] \<Rightarrow> named s (a = ''objects'') | _ \<Rightarrow> unnamed False)
      else if s = REF_STAGE then (case parts of [i, v'] \<Rightarrow> named s (is_version v') | _ \<Rightarrow> unnamed False)
      else if s = REF_ACTIVITY then numbered_fault s parts
      else if s \<in> set surface_schemes then exact_parts 3 parts
      else Some (UNKNOWN_SCHEME, None))"

section \<open>The parser\<close>

fun decode_up_to :: "nat \<Rightarrow> string \<Rightarrow> string" where
  "decode_up_to 0 s = s"
| "decode_up_to (Suc n) s = (if unquote s = s then s else decode_up_to n (unquote s))"

lemma decode_up_to_no_percent: "CHR ''%'' \<notin> set s \<Longrightarrow> decode_up_to n s = s"
  by (cases n) (simp_all add: unquote_no_percent)

lemma decode_up_to_code [code]:
  "decode_up_to n s = (if CHR ''%'' \<notin> set s then s else if n = 0 then s
     else (let t = unquote s in if t = s then s else decode_up_to (n - 1) t))"
  by (cases n) (auto simp: decode_up_to_no_percent unquote_no_percent Let_def)

definition outer_reference_ok :: "string \<Rightarrow> bool" where
  "outer_reference_ok s \<longleftrightarrow> s \<noteq> [] \<and> length s \<le> MAX_REFERENCE_LENGTH \<and> s = strip s
     \<and> list_all (\<lambda>c. c \<notin> {CHR 0x00, CHR 0x0A, CHR 0x0D, CHR 0x5C}) s \<and> \<not> starts_any [''/'', ''~''] s \<and> \<not> drive_path s
     \<and> s = decode_up_to 4 s \<and> \<not> has_dot_segment s"

definition validated_reference ::
  "bool \<Rightarrow> registration \<Rightarrow> string \<Rightarrow> string list \<Rightarrow> ref_fault + lifecycle_reference" where
  "validated_reference surfaces r v parts =
     (if rg_surface_only r \<and> \<not> surfaces then Inl (FORBIDDEN_REFERENCE, Some (rg_scheme r))
      else if parts = [] \<or> \<not> list_all safe_token parts then Inl (MALFORMED_REFERENCE, Some (rg_scheme r))
      else case shape_fault (rg_scheme r) v parts of
          Some e \<Rightarrow> Inl e
        | None \<Rightarrow> Inr \<lparr>lr_reference = v, lr_scheme = rg_scheme r, lr_owner = rg_owner r, lr_kind = rg_kind r, lr_parts = parts\<rparr>)"

definition choose_registration :: "bool \<Rightarrow> string list \<Rightarrow> registration list \<Rightarrow> ref_fault + registration" where
  "choose_registration surfaces parts rs = (case rs of
       [r] \<Rightarrow> Inr r
     | _ \<Rightarrow> (case filter rg_surface_only rs of
           [r] \<Rightarrow> if surfaces \<and> length parts = 3 then Inr r
             else (case filter (\<lambda>r. \<not> rg_surface_only r) rs of [r'] \<Rightarrow> Inr r' | _ \<Rightarrow> Inl (MALFORMED_REFERENCE, None))
         | _ \<Rightarrow> (case filter (\<lambda>r. \<not> rg_surface_only r) rs of [r'] \<Rightarrow> Inr r' | _ \<Rightarrow> Inl (MALFORMED_REFERENCE, None))))"

definition uri_parts :: "string \<Rightarrow> string \<Rightarrow> string list" where
  "uri_parts netloc path = netloc # filter (\<lambda>p. p \<noteq> []) (split_on (CHR ''/'') path)"

definition scheme_parts :: "string \<Rightarrow> url \<Rightarrow> ref_fault + string list" where
  "scheme_parts v p =
     (if u_scheme p = ''ledger'' then (case at_number safe_token (remove_prefix ''ledger://'' v) of
          None \<Rightarrow> Inl (MALFORMED_REFERENCE, Some REF_LEDGER) | Some (a, n) \<Rightarrow> Inr [a, n])
      else if u_scheme p \<in> set (map scheme_value artifact_surface_schemes) then
        (case at_number artifact_surface_name (remove_prefix (u_scheme p @ ''://'') v) of
          None \<Rightarrow> Inl (MALFORMED_REFERENCE, None) | Some (a, n) \<Rightarrow> Inr [a, n])
      else Inr (uri_parts (u_netloc p) (u_path p)))"

definition uri_ok :: "url \<Rightarrow> bool" where
  "uri_ok p \<longleftrightarrow> u_scheme p \<noteq> [] \<and> u_scheme p = lower (u_scheme p) \<and> u_netloc p \<noteq> [] \<and> u_query p = [] \<and> u_fragment p = []
     \<and> (u_scheme p \<in> set (''ledger'' # map scheme_value artifact_surface_schemes) \<or> CHR ''@'' \<notin> set (u_netloc p))"

definition parse_uri :: "bool \<Rightarrow> string \<Rightarrow> ref_fault + lifecycle_reference" where
  "parse_uri surfaces v =
     (if starts_any [''filesystem:'', ''data:'', ''http:'', ''https:''] (lower v) then Inl (FORBIDDEN_REFERENCE, None)
      else if starts_with ''file:'' (lower v) \<and> \<not> (surfaces \<and> starts_with ''file://'' v) then Inl (FORBIDDEN_REFERENCE, None)
      else if \<not> contains ''://'' v then Inl (MALFORMED_REFERENCE, None)
      else case urlsplit v of
          Inl _ \<Rightarrow> Inl (MALFORMED_REFERENCE, None)
        | Inr p \<Rightarrow>
            if \<not> uri_ok p then Inl (MALFORMED_REFERENCE, None)
            else if u_scheme p \<in> set forbidden_schemes \<and> \<not> (surfaces \<and> u_scheme p = ''file'') then Inl (FORBIDDEN_REFERENCE, None)
            else if registrations_of_wire (u_scheme p) = [] then Inl (UNKNOWN_SCHEME, None)
            else (case scheme_parts v p of
                Inl e \<Rightarrow> Inl e
              | Inr parts \<Rightarrow> (case choose_registration surfaces parts (registrations_of_wire (u_scheme p)) of
                    Inl e \<Rightarrow> Inl e
                  | Inr r \<Rightarrow> validated_reference surfaces r v parts)))"

definition parse_any :: "bool \<Rightarrow> string \<Rightarrow> ref_fault + lifecycle_reference" where
  "parse_any surfaces v =
     (if \<not> outer_reference_ok v then Inl (FORBIDDEN_REFERENCE, None)
      else if starts_with ''call:'' v \<and> \<not> starts_with ''call://'' v then
        validated_reference surfaces (registration_of REF_CALL) v [drop 5 v]
      else if starts_with ''spec:'' v \<and> \<not> starts_with ''spec://'' v then
        validated_reference surfaces (registration_of REF_SPEC) v (split_on (CHR ''/'') (drop 5 v))
      else if starts_with ''payload/'' v then
        validated_reference surfaces (registration_of REF_PAYLOAD) v (split_on (CHR ''/'') (drop 8 v))
      else if starts_with ''spec/'' v then
        validated_reference surfaces (registration_of REF_SPEC) v (split_on (CHR ''/'') (drop 5 v))
      else parse_uri surfaces v)"

definition parse_reference :: "string \<Rightarrow> ref_fault + lifecycle_reference" where
  "parse_reference = parse_any False"

definition parse_bare_surface_id :: "string \<Rightarrow> ref_fault + lifecycle_reference" where
  "parse_bare_surface_id v =
     (if CHR '':'' \<in> set v then
        (if lower (hd (split_on (CHR '':'') v)) \<in> set forbidden_schemes then Inl (FORBIDDEN_REFERENCE, None)
         else Inl (UNKNOWN_SCHEME, None))
      else if \<not> opaque_identifier v then Inl (MALFORMED_REFERENCE, None)
      else (let r = registration_of REF_BARE_SURFACE in
        Inr \<lparr>lr_reference = v, lr_scheme = rg_scheme r, lr_owner = rg_owner r, lr_kind = rg_kind r, lr_parts = [v]\<rparr>))"

definition parse_surface_id :: "string \<Rightarrow> ref_fault + lifecycle_reference" where
  "parse_surface_id v = (if \<not> contains ''://'' v then parse_bare_surface_id v else parse_any True v)"

text \<open>\<open>assert_registered_examples\<close>\<close>

definition example_parses :: "registration \<Rightarrow> bool" where
  "example_parses r = (case (if rg_scheme r = REF_BARE_SURFACE then parse_surface_id (rg_example r)
       else parse_any (rg_surface_only r) (rg_example r)) of
     Inl _ \<Rightarrow> False | Inr p \<Rightarrow> lr_owner p = rg_owner r \<and> lr_scheme p = rg_scheme r)"

end
