(* ===== verification/LifecycleGraph.thy ===== *)
theory LifecycleGraph
  imports LifecycleRefs RepairCollector
begin

text \<open>
  The enumerator of \<open>agent_runtime/surfaces_v2/lifecycle_refs.py\<close>: it folds the ledger of a run
  into a graph of the run, its events, the entities they identify and the references they carry,
  reading declared fields only, and gives no graph at all when anything is refused. A reference
  field is its wire name. Dictionaries of nodes and edges are lists in order of insertion.
\<close>

section \<open>The graph\<close>

datatype edge_kind = CONTAINS_EVENT | IDENTIFIES | REFERENCES

record graph_node =
  gn_id :: string
  gn_kind :: node_kind
  gn_identifier :: string
  gn_owner :: reference_owner

record graph_edge =
  ge_from :: string
  ge_to :: string
  ge_kind :: edge_kind
  ge_field :: "string option"

record reference_graph =
  lg_run_id :: string
  lg_nodes :: "graph_node list"
  lg_edges :: "graph_edge list"

record ref_diagnostic =
  dg_code :: diagnostic_code
  dg_event_type :: "string option"
  dg_sequence_no :: "int option"
  dg_field :: "string option"
  dg_scheme :: "lifecycle_scheme option"

text \<open>What the fold has so far: nodes, edges, sequence numbers and diagnostics.\<close>

record graph_state =
  gs_nodes :: "graph_node list"
  gs_edges :: "graph_edge list"
  gs_seen :: "int list"
  gs_faults :: "ref_diagnostic list"

definition empty_graph :: graph_state where
  "empty_graph = \<lparr>gs_nodes = [], gs_edges = [], gs_seen = [], gs_faults = []\<rparr>"

definition node_id :: "node_kind \<Rightarrow> string \<Rightarrow> string" where
  "node_id k i = node_kind_value k @ '':'' @ i"

definition add_node :: "node_kind \<Rightarrow> string \<Rightarrow> reference_owner \<Rightarrow> graph_state \<Rightarrow> graph_state" where
  "add_node k i w g = (if list_ex (\<lambda>n. gn_id n = node_id k i) (gs_nodes g) then g
     else g\<lparr>gs_nodes := gs_nodes g @ [\<lparr>gn_id = node_id k i, gn_kind = k, gn_identifier = i, gn_owner = w\<rparr>]\<rparr>)"

definition add_edge :: "string \<Rightarrow> string \<Rightarrow> edge_kind \<Rightarrow> string option \<Rightarrow> graph_state \<Rightarrow> graph_state" where
  "add_edge a b k f g = (let e = \<lparr>ge_from = a, ge_to = b, ge_kind = k, ge_field = f\<rparr> in
     if e \<in> set (gs_edges g) then g else g\<lparr>gs_edges := gs_edges g @ [e]\<rparr>)"

definition add_fault :: "ref_diagnostic \<Rightarrow> graph_state \<Rightarrow> graph_state" where
  "add_fault d g = g\<lparr>gs_faults := gs_faults g @ [d]\<rparr>"

definition plain_fault :: "diagnostic_code \<Rightarrow> string option \<Rightarrow> int option \<Rightarrow> ref_diagnostic" where
  "plain_fault c ty n = \<lparr>dg_code = c, dg_event_type = ty, dg_sequence_no = n, dg_field = None, dg_scheme = None\<rparr>"

text \<open>A fault of the parser, with the event, its position and the field.\<close>

definition parse_fault :: "ref_fault \<Rightarrow> string \<Rightarrow> int \<Rightarrow> string option \<Rightarrow> ref_diagnostic" where
  "parse_fault e ty n f =
     \<lparr>dg_code = fst e, dg_event_type = Some ty, dg_sequence_no = Some n, dg_field = f, dg_scheme = snd e\<rparr>"

section \<open>The fields that are read\<close>

definition reference_fields :: "string \<Rightarrow> string list" where
  "reference_fields ty = (case map_of
     [(''read.executed'', [''payload_ref'']), (''surface.created'', [''payload_ref'']), (''view.derived'', [''spec_ref'']),
      (''write.staged'', [''proposal_ref'']), (''revision.added'', [''diff_ref'', ''proposal_ref'']),
      (''write.applied'', [''connector_receipt_ref'']), (''receipt.emitted'', [''fold_ref'']),
      (''operation.completed'', [''result_ref'']), (''artifact.created'', [''content_ref'']),
      (''artifact.revised'', [''content_ref'']), (''artifact.promoted'', [''source_ref'']),
      (''effect.staged'', [''target_ref'', ''proposal_ref'', ''proposal_content_ref'', ''precondition_ref'',
         ''policy_snapshot_ref'', ''safe_summary_ref'', ''owner_ref'', ''author_ref'']),
      (''effect.projection_bound'', [''projection_ref'']),
      (''effect.revised'', [''proposal_ref'', ''proposal_content_ref'', ''target_ref'', ''precondition_ref'',
         ''safe_diff_ref'', ''author_ref'']),
      (''effect.decision_recorded'', [''actor_ref'']), (''effect.row_decisions_recorded'', [''actor_ref'']),
      (''effect.applied'', [''receipt_ref'']), (''effect.reconciled'', [''receipt_ref''])] ty of
     None \<Rightarrow> [] | Some fs \<Rightarrow> fs)"

definition entity_fields :: "(string \<times> node_kind \<times> reference_owner) list" where
  "entity_fields =
     [(''artifact_id'', NODE_ARTIFACT, OWN_ARTIFACT_REPOSITORY), (''call_id'', NODE_CALL, OWN_RUNTIME_EVENT_STORE),
      (''gate_id'', NODE_GATE, OWN_OPERATION_GATEWAY), (''operation_id'', NODE_OPERATION, OWN_OPERATION_GATEWAY),
      (''parent_operation_id'', NODE_OPERATION, OWN_OPERATION_GATEWAY), (''stage_id'', NODE_EFFECT_STAGE, OWN_EFFECT_STAGE),
      (''surface_id'', NODE_SURFACE, OWN_SURFACE_PRESENTATION)]"

section \<open>One event\<close>

definition validated_event :: "int \<Rightarrow> dict \<Rightarrow> ref_diagnostic + (string \<times> int \<times> dict)" where
  "validated_event fallback e = (case dget e ''event_type'' JNull of
       JStr ty \<Rightarrow>
         if ty \<notin> set ledger_event_types then Inl (plain_fault INVALID_LEDGER_EVENT None None)
         else (case dget e ''sequence_no'' (JInt fallback) of
             JInt n \<Rightarrow>
               if n < 1 then Inl (plain_fault INVALID_SEQUENCE (Some ty) None)
               else (case dget e ''payload'' JNull of
                   JObj d \<Rightarrow> (case validated_fields ty d of
                       Inl _ \<Rightarrow> Inl (plain_fault INVALID_LEDGER_EVENT (Some ty) (Some n))
                     | Inr p \<Rightarrow> Inr (ty, n, p))
                 | _ \<Rightarrow> Inl (plain_fault INVALID_LEDGER_EVENT (Some ty) (Some n)))
           | _ \<Rightarrow> Inl (plain_fault INVALID_SEQUENCE (Some ty) None))
     | _ \<Rightarrow> Inl (plain_fault INVALID_LEDGER_EVENT None None))"

text \<open>The parsers on any value: what is no string is refused.\<close>

definition parse_value :: "json \<Rightarrow> ref_fault + lifecycle_reference" where
  "parse_value j = (case j of JStr s \<Rightarrow> parse_reference s | _ \<Rightarrow> Inl (FORBIDDEN_REFERENCE, None))"

definition parse_surface_value :: "json \<Rightarrow> ref_fault + lifecycle_reference" where
  "parse_surface_value j = (case j of JStr s \<Rightarrow> parse_surface_id s | _ \<Rightarrow> Inl (MALFORMED_REFERENCE, None))"

definition link_reference ::
  "string \<Rightarrow> edge_kind \<Rightarrow> string option \<Rightarrow> node_kind \<Rightarrow> lifecycle_reference \<Rightarrow> graph_state \<Rightarrow> graph_state" where
  "link_reference event_id ek f k r g =
     add_edge event_id (node_id k (lr_reference r)) ek f (add_node k (lr_reference r) (lr_owner r) g)"

definition add_entity :: "string \<Rightarrow> int \<Rightarrow> dict \<Rightarrow> string \<Rightarrow> string \<times> node_kind \<times> reference_owner \<Rightarrow> graph_state \<Rightarrow> graph_state" where
  "add_entity ty n payload event_id field g = (case field of (nm, k, w) \<Rightarrow>
     (let v = dget payload nm JNull in
      if v = JNull then g
      else if nm = ''surface_id'' then
        (case parse_surface_value v of
           Inl e \<Rightarrow> add_fault (parse_fault e ty n None) g
         | Inr r \<Rightarrow> link_reference event_id IDENTIFIES None NODE_SURFACE r g)
      else (case v of
          JStr s \<Rightarrow> if safe_token s then add_edge event_id (node_id k s) IDENTIFIES None (add_node k s w g)
            else add_fault (plain_fault INVALID_LEDGER_EVENT (Some ty) (Some n)) g
        | _ \<Rightarrow> add_fault (plain_fault INVALID_LEDGER_EVENT (Some ty) (Some n)) g)))"

definition add_reference :: "string \<Rightarrow> int \<Rightarrow> dict \<Rightarrow> string \<Rightarrow> string \<Rightarrow> graph_state \<Rightarrow> graph_state" where
  "add_reference ty n payload event_id field g =
     (let v = dget payload field JNull in
      if v = JNull then g
      else (case parse_value v of
          Inl e \<Rightarrow> add_fault (parse_fault e ty n (Some field)) g
        | Inr r \<Rightarrow> link_reference event_id REFERENCES (Some field) (lr_kind r) r g))"

definition add_derived :: "string \<Rightarrow> int \<Rightarrow> dict \<Rightarrow> string \<Rightarrow> graph_state \<Rightarrow> graph_state" where
  "add_derived ty n payload event_id g =
     (if ty \<noteq> ''operation.requested'' then g
      else (case dget payload ''operation_id'' JNull of
          JStr i \<Rightarrow> (case parse_reference (''operation://'' @ i @ ''/args'') of
              Inl e \<Rightarrow> add_fault (parse_fault e ty n None) g
            | Inr r \<Rightarrow> link_reference event_id REFERENCES None (lr_kind r) r g)
        | _ \<Rightarrow> add_fault (plain_fault INVALID_LEDGER_EVENT (Some ty) (Some n)) g))"

definition event_node_id :: "string \<Rightarrow> int \<Rightarrow> string" where
  "event_node_id run n = node_id NODE_EVENT (run @ '':'' @ dec (nat n))"

definition add_contents :: "string \<Rightarrow> string \<Rightarrow> int \<Rightarrow> dict \<Rightarrow> graph_state \<Rightarrow> graph_state" where
  "add_contents run ty n payload g =
     add_derived ty n payload (event_node_id run n)
       (fold (add_reference ty n payload (event_node_id run n)) (reference_fields ty)
         (fold (add_entity ty n payload (event_node_id run n)) entity_fields g))"

definition enumerate_event :: "string \<Rightarrow> int \<times> dict \<Rightarrow> graph_state \<Rightarrow> graph_state" where
  "enumerate_event run item g = (case item of (index, e) \<Rightarrow> (case validated_event index e of
       Inl d \<Rightarrow> add_fault d g
     | Inr (ty, n, payload) \<Rightarrow>
         if n \<in> set (gs_seen g) then add_fault (plain_fault DUPLICATE_SEQUENCE (Some ty) (Some n)) g
         else add_contents run ty n payload
           (add_edge (node_id NODE_RUN run) (event_node_id run n) CONTAINS_EVENT None
             (add_node NODE_EVENT (run @ '':'' @ dec (nat n)) OWN_RUNTIME_EVENT_STORE (g\<lparr>gs_seen := n # gs_seen g\<rparr>)))))"

section \<open>The order of the edges\<close>

text \<open>\<open>repr\<close> of a string: what reaches it is ASCII and holds neither a quote nor a backslash.\<close>

definition repr_char :: "char \<Rightarrow> string" where
  "repr_char c = (if c = CHR 0x09 then [CHR 0x5C, CHR ''t'']
     else if code c < 32 \<or> code c = 127 then [CHR 0x5C, CHR ''x'', hex_digit (code c div 16), hex_digit (code c mod 16)]
     else [c])"

definition py_repr :: "string \<Rightarrow> string" where
  "py_repr s = [CHR 0x27] @ concat (map repr_char s) @ [CHR 0x27]"

definition enum_repr :: "string \<Rightarrow> string \<Rightarrow> string" where
  "enum_repr cls v = ''<'' @ cls @ ''.'' @ map (\<lambda>c. if is_lower c then char_of (code c - 32) else c) v @ '': '' @ py_repr v @ ''>''"

fun edge_kind_value :: "edge_kind \<Rightarrow> string" where
  "edge_kind_value CONTAINS_EVENT = ''contains_event''"
| "edge_kind_value IDENTIFIES = ''identifies''"
| "edge_kind_value REFERENCES = ''references''"

text \<open>\<open>str\<close> of the key of an edge, by which the edges are sorted.\<close>

definition edge_text :: "graph_edge \<Rightarrow> string" where
  "edge_text e = ''('' @ py_repr (ge_from e) @ '', '' @ py_repr (ge_to e) @ '', ''
     @ enum_repr ''LifecycleEdgeKind'' (edge_kind_value (ge_kind e)) @ '', ''
     @ (case ge_field e of None \<Rightarrow> ''None'' | Some f \<Rightarrow> enum_repr ''LifecycleReferenceField'' f) @ '')''"

section \<open>A run\<close>

fun number_from :: "int \<Rightarrow> 'a list \<Rightarrow> (int \<times> 'a) list" where
  "number_from n [] = []"
| "number_from n (x # xs) = (n, x) # number_from (n + 1) xs"

definition fold_run :: "string \<Rightarrow> dict list \<Rightarrow> graph_state" where
  "fold_run run events = fold (enumerate_event run) (number_from 1 events)
     (add_node NODE_RUN run OWN_RUNTIME_EVENT_STORE empty_graph)"

definition enumerate_run :: "string \<Rightarrow> dict list \<Rightarrow> ref_diagnostic list + reference_graph" where
  "enumerate_run run events =
     (if \<not> safe_token run then Inl [plain_fault INVALID_RUN_ID None None]
      else (let g = fold_run run events in
        if gs_faults g \<noteq> [] then Inl (gs_faults g)
        else Inr \<lparr>lg_run_id = run, lg_nodes = sort_key gn_id (gs_nodes g), lg_edges = sort_key edge_text (gs_edges g)\<rparr>))"

section \<open>The collector over the shipped registry\<close>

text \<open>An event as the collector hands it to the enumerator, and its two calls.\<close>

definition event_object :: "string \<times> int \<times> dict \<Rightarrow> dict" where
  "event_object e = (case e of (ty, n, d) \<Rightarrow>
     [(''event_type'', JStr ty), (''sequence_no'', JInt n), (''payload'', JObj d)])"

definition enumerate_ledger :: "string \<Rightarrow> (string \<times> int \<times> dict) list \<Rightarrow> unit result" where
  "enumerate_ledger run es = (case enumerate_run run (map event_object es) of Inl _ \<Rightarrow> Inl ValueError | Inr _ \<Rightarrow> Inr ())"

definition parsed_scheme :: "string \<Rightarrow> string result" where
  "parsed_scheme v = (case parse_reference v of Inl _ \<Rightarrow> Inl ValueError | Inr r \<Rightarrow> Inr (scheme_value (lr_scheme r)))"

definition registry_collector :: "'s collector \<Rightarrow> 's collector" where
  "registry_collector cl = cl\<lparr>cl_parse_reference := parsed_scheme, cl_enumerate := enumerate_ledger\<rparr>"

end
