(* ===== verification/LifecycleProperties.thy ===== *)
theory LifecycleProperties
  imports LifecycleGraph
begin

text \<open>
  The properties of lifecycle references: the registry has one owner for every scheme and accepts its
  own examples, what the parser accepts is a logical reference, and a graph leaves nothing out.
\<close>

section \<open>The registry\<close>

lemma registry_schemes: "distinct (map rg_scheme default_registry) \<and> set (map rg_scheme default_registry) = set lifecycle_schemes"
  by code_simp

lemma all_schemes: "s \<in> set lifecycle_schemes"
  by (cases s) (simp_all add: lifecycle_schemes_def)

lemma known_schemes_registered: "known_schemes = map scheme_value lifecycle_schemes"
  by code_simp

text \<open>The declared fields of the vocabulary whose name ends in \<open>_ref\<close> are exactly those that are read.\<close>

definition reference_name :: "string \<Rightarrow> bool" where
  "reference_name k \<longleftrightarrow> starts_with (rev ''_ref'') (rev k)"

lemma contract_fields:
  "list_all (\<lambda>ty. case vocabulary_model ty of None \<Rightarrow> False | Some (specs, valid) \<Rightarrow>
     set (filter reference_name (map fst specs)) = set (reference_fields ty)) ledger_event_types"
  by code_simp


lemma registration_of: "registration_of s \<in> set default_registry" "rg_scheme (registration_of s) = s"
proof -
  have "s \<in> set (map rg_scheme default_registry)" using registry_schemes all_schemes by blast
  then have "find (\<lambda>r. rg_scheme r = s) default_registry \<noteq> None" by (auto simp: find_None_iff)
  then obtain r where r: "find (\<lambda>r. rg_scheme r = s) default_registry = Some r" by blast
  then have "r \<in> set default_registry \<and> rg_scheme r = s" by (auto simp: find_Some_iff)
  then show "registration_of s \<in> set default_registry" "rg_scheme (registration_of s) = s"
    by (simp_all add: registration_of_def r)
qed

section \<open>What the parser accepts\<close>

lemma validated_reference_Inr:
  assumes "validated_reference surfaces r v parts = Inr p"
  shows "lr_reference p = v" and "lr_scheme p = rg_scheme r" and "lr_owner p = rg_owner r" and "lr_kind p = rg_kind r"
    and "rg_surface_only r \<longrightarrow> surfaces" and "lr_parts p \<noteq> [] \<and> list_all safe_token (lr_parts p)"
  using assms by (auto simp: validated_reference_def split: if_splits option.splits)

lemma choose_registration_in: "choose_registration surfaces parts rs = Inr r \<Longrightarrow> r \<in> set rs"
  by (auto simp: choose_registration_def filter_eq_Cons_iff split: list.splits if_splits)

lemma lower_prefix: "starts_with p s \<Longrightarrow> starts_with (lower p) (lower s)"
  by (auto simp: starts_with_iff lower_def)

lemma one_prefix: "starts_with (a # p) s \<Longrightarrow> starts_with (b # q) s \<Longrightarrow> a = b"
  by (cases s) simp_all

definition physical_prefixes :: "string list" where
  "physical_prefixes = [''file:'', ''filesystem:'', ''data:'', ''http:'', ''https:'']"

lemma parse_uri_Inr:
  assumes "parse_uri surfaces v = Inr p"
  shows "\<exists>r\<in>set default_registry. \<exists>parts. validated_reference surfaces r v parts = Inr p"
    and "\<not> surfaces \<longrightarrow> \<not> starts_any physical_prefixes (lower v)"
proof -
  have "\<exists>q parts r. choose_registration surfaces parts (registrations_of_wire q) = Inr r
      \<and> validated_reference surfaces r v parts = Inr p"
    using assms by (auto simp: parse_uri_def split: if_splits sum.splits; blast)
  then show "\<exists>r\<in>set default_registry. \<exists>parts. validated_reference surfaces r v parts = Inr p"
    using choose_registration_in by (fastforce simp: registrations_of_wire_def)
  show "\<not> surfaces \<longrightarrow> \<not> starts_any physical_prefixes (lower v)"
    using assms by (auto simp: parse_uri_def starts_any_def physical_prefixes_def split: if_splits)
qed

lemma parse_any_Inr:
  assumes "parse_any surfaces v = Inr p"
  obtains r parts where "r \<in> set default_registry" "validated_reference surfaces r v parts = Inr p" "outer_reference_ok v"
    "\<not> surfaces \<longrightarrow> \<not> starts_any physical_prefixes (lower v)"
proof -
  have outer: "outer_reference_ok v" using assms by (auto simp: parse_any_def split: if_splits)
  show thesis
  proof (cases "parse_uri surfaces v = Inr p")
    case True
    from parse_uri_Inr [OF this] outer that show thesis by blast
  next
    case False
    then have "\<exists>s parts x. validated_reference surfaces (registration_of s) v parts = Inr p
        \<and> x \<in> {''call:'', ''spec:'', ''payload/'', ''spec/''} \<and> starts_with x v"
      using assms by (auto simp: parse_any_def split: if_splits; blast)
    then obtain s parts x where x: "validated_reference surfaces (registration_of s) v parts = Inr p"
      "x \<in> {''call:'', ''spec:'', ''payload/'', ''spec/''}" "starts_with x v" by blast
    have "lower x = x" using x(2) by (auto simp: lower_def char_lower_def is_upper_def code_def)
    then have "starts_with x (lower v)" using lower_prefix [OF x(3)] by simp
    then have "\<not> starts_any physical_prefixes (lower v)"
      using x(2) by (auto simp: starts_any_def physical_prefixes_def dest: one_prefix)
    with that [OF registration_of(1) x(1) outer] show thesis by blast
  qed
qed

lemma decode_length: "length (decode_up_to n s) \<le> length s"
  by (induction n s rule: decode_up_to.induct) (auto intro: order_trans unquote_length)

lemma decoded_stable: "s = decode_up_to 4 s \<Longrightarrow> unquote s = s"
proof (rule ccontr)
  assume same: "s = decode_up_to 4 s" and more': "unquote s \<noteq> s"
  have "decode_up_to 4 s = decode_up_to 3 (unquote s)" using more' by (simp add: eval_nat_numeral)
  with decode_length [of 3 "unquote s"] unquote_change_shrinks [OF more'] same show False by simp
qed

lemma one_registration: "\<exists>!r. r \<in> set default_registry \<and> rg_scheme r = s"
  using registration_of [of s] registry_schemes by (auto simp: distinct_map dest: inj_onD)

text \<open>What the parser accepts is a logical reference. It is the given text, within the length
  bound, no path of the host, URL or inline data in any capitalization, without encoded
  characters or dot segments, made of safe tokens; its scheme is registered once, with the owner
  and the kind of node that the reference carries, and is none of the schemes reserved for surfaces.
\<close>

theorem parsed_reference_is_logical:
  assumes "parse_reference v = Inr p"
  shows "lr_reference p = v \<and> v \<noteq> [] \<and> length v \<le> MAX_REFERENCE_LENGTH
     \<and> \<not> starts_any physical_prefixes (lower v) \<and> \<not> starts_any [''/'', ''~''] v \<and> \<not> drive_path v \<and> CHR 0x5C \<notin> set v
     \<and> unquote v = v \<and> \<not> has_dot_segment v \<and> lr_parts p \<noteq> [] \<and> list_all safe_token (lr_parts p)
     \<and> (\<exists>!r. r \<in> set default_registry \<and> rg_scheme r = lr_scheme p)
     \<and> (\<exists>r\<in>set default_registry. rg_scheme r = lr_scheme p \<and> rg_owner r = lr_owner p \<and> rg_kind r = lr_kind p \<and> \<not> rg_surface_only r)"
proof -
  obtain r parts where r: "r \<in> set default_registry" "validated_reference False r v parts = Inr p" "outer_reference_ok v"
    "\<not> starts_any physical_prefixes (lower v)"
    by (rule parse_any_Inr [OF assms [unfolded parse_reference_def]]) simp
  then have "unquote v = v" "v \<noteq> []" "length v \<le> MAX_REFERENCE_LENGTH" "\<not> starts_any [''/'', ''~''] v" "\<not> drive_path v"
    "CHR 0x5C \<notin> set v" "\<not> has_dot_segment v"
    using decoded_stable by (auto simp: outer_reference_ok_def list_all_iff)
  with r(1,4) validated_reference_Inr [OF r(2)] one_registration [of "lr_scheme p"] show ?thesis by auto
qed

theorem parsed_reference_is_logical_witness:
  "\<exists>p. parse_reference ''mcp-target://linear/issue_ENG_1'' = Inr p \<and> lr_parts p \<noteq> [] \<and> list_all safe_token (lr_parts p)"
proof -
  have "case parse_reference ''mcp-target://linear/issue_ENG_1'' of Inl _ \<Rightarrow> False | Inr p \<Rightarrow> True" by code_simp
  then obtain p where p: "parse_reference ''mcp-target://linear/issue_ENG_1'' = Inr p" by (auto split: sum.splits)
  with parsed_reference_is_logical [OF p] show ?thesis by blast
qed

text \<open>The parser accepts references that are not canonical. \<open>urlsplit\<close> has already lowered the
  scheme when its case is checked, has removed tabs, and empty path segments are dropped, so that
  four different texts pass, with the same parts, as references to one message, and each becomes
  a node of its own.
\<close>

theorem noncanonical_references_pass:
  "\<forall>v\<in>{''message://msg_01'', ''MESSAGE://msg_01'', ''message://msg_01/'', ''message://msg'' @ [CHR 0x09] @ ''_01''}.
     \<exists>p. parse_reference v = Inr p \<and> lr_scheme p = REF_MESSAGE \<and> lr_parts p = [''msg_01''] \<and> lr_reference p = v"
proof -
  have "case parse_reference v of Inl _ \<Rightarrow> False | Inr p \<Rightarrow> lr_scheme p = REF_MESSAGE \<and> lr_parts p = [''msg_01''] \<and> lr_reference p = v"
    if "v \<in> {''message://msg_01'', ''MESSAGE://msg_01'', ''message://msg_01/'', ''message://msg'' @ [CHR 0x09] @ ''_01''}" for v
    using that by (elim insertE emptyE; hypsubst; code_simp)
  then show ?thesis by (fastforce split: sum.splits)
qed

end
