(* ===== verification/LifecycleEnumeration.thy ===== *)
theory LifecycleEnumeration
  imports LifecycleProperties RepairExecution
begin

text \<open>
  What a graph of lifecycle references holds: everything the ledger declares, nothing that is not
  reached from its run, and what that means for the claims the repair runner proves.
\<close>

section \<open>The fold only grows\<close>

definition grows :: "graph_state \<Rightarrow> graph_state \<Rightarrow> bool" where
  "grows g g' \<longleftrightarrow> set (gs_nodes g) \<subseteq> set (gs_nodes g') \<and> set (gs_edges g) \<subseteq> set (gs_edges g')
     \<and> set (gs_faults g) \<subseteq> set (gs_faults g') \<and> set (gs_seen g) \<subseteq> set (gs_seen g')"

lemma grows_refl [simp]: "grows g g"
  by (simp add: grows_def)

lemma grows_trans: "grows g h \<Longrightarrow> grows h k \<Longrightarrow> grows g k"
  by (auto simp: grows_def)

lemma grows_faults: "grows g h \<Longrightarrow> gs_faults h = [] \<Longrightarrow> gs_faults g = []"
  unfolding grows_def by (metis set_empty subset_empty)

lemma grows_simple [simp]: "grows g (add_node k i w g)" "grows g (add_edge a b ek f g)" "grows g (add_fault d g)"
    "grows g (g\<lparr>gs_seen := n # gs_seen g\<rparr>)"
  by (auto simp: grows_def add_node_def add_edge_def add_fault_def Let_def)

lemma grows_link [simp]: "grows g (link_reference ev ek f k r g)"
  unfolding link_reference_def using grows_simple grows_trans by blast

lemma grows_contents [simp]: "grows g (add_entity ty n d ev x g)" "grows g (add_reference ty n d ev fld g)"
    "grows g (add_derived ty n d ev g)"
proof -
  have linked: "grows g (add_edge ev b ek f (add_node k i w g))" for b ek f k i w
    using grows_simple grows_trans by blast
  show "grows g (add_entity ty n d ev x g)"
    by (auto simp: add_entity_def Let_def linked split: prod.split sum.split json.split)
  show "grows g (add_reference ty n d ev fld g)" "grows g (add_derived ty n d ev g)"
    by (auto simp: add_reference_def add_derived_def Let_def split: sum.split json.split)
qed

lemma grows_fold: "(\<And>x g. grows g (f x g)) \<Longrightarrow> grows g (fold f xs g)"
proof (induction xs arbitrary: g)
  case (Cons x xs)
  from Cons.prems have "grows g (f x g)" .
  with Cons.IH [OF Cons.prems, of "f x g"] show ?case using grows_trans by auto
qed simp

lemma grows_event [simp]: "grows g (enumerate_event run x g)"
proof -
  have contents: "grows g (add_contents run ty n d g)" for ty n d g
    unfolding add_contents_def
    by (intro grows_trans [OF grows_fold grows_trans [OF grows_fold grows_contents(3)]]) simp_all
  have head: "grows g (add_edge a b ek f (add_node k i w (g\<lparr>gs_seen := n # gs_seen g\<rparr>)))" for a b ek f k i w n
    by (rule grows_trans [OF grows_simple(4) grows_trans [OF grows_simple(1) grows_simple(2)]])
  show ?thesis
    by (auto simp: enumerate_event_def split: prod.split sum.split intro: grows_trans [OF head contents])
qed

text \<open>A step of a fold that ends without a fault had none itself, and what it added is there at the end.\<close>

lemma fold_step:
  assumes "x \<in> set xs" and "\<And>x g. grows g (f x g)" and "gs_faults (fold f xs g) = []"
  shows "\<exists>h. gs_faults (f x h) = [] \<and> grows (f x h) (fold f xs g)"
proof -
  obtain ys zs where xs: "xs = ys @ x # zs" using assms(1) by (auto simp: in_set_conv_decomp)
  have "grows (f x (fold f ys g)) (fold f xs g)" using grows_fold [of f "f x (fold f ys g)" zs] assms(2) by (simp add: xs)
  with grows_faults [OF this assms(3)] show ?thesis by blast
qed

section \<open>Nothing is left out\<close>

definition linked :: "string \<Rightarrow> string \<Rightarrow> edge_kind \<Rightarrow> string option \<Rightarrow> graph_state \<Rightarrow> bool" where
  "linked a b k f g \<longleftrightarrow> \<lparr>ge_from = a, ge_to = b, ge_kind = k, ge_field = f\<rparr> \<in> set (gs_edges g) \<and> (\<exists>x\<in>set (gs_nodes g). gn_id x = b)"

lemma linked_grows: "grows g h \<Longrightarrow> linked a b k f g \<Longrightarrow> linked a b k f h"
  unfolding linked_def grows_def by blast

lemma add_node_id: "\<exists>x\<in>set (gs_nodes (add_node k i w g)). gn_id x = node_id k i"
  by (auto simp: add_node_def list_ex_iff)

lemma linked_added [simp]: "linked a (node_id k i) ek f (add_edge a (node_id k i) ek f (add_node k i w g))"
  using add_node_id by (auto simp: linked_def add_edge_def Let_def)

lemma linked_reference [simp]: "linked a (node_id k (lr_reference r)) ek f (link_reference a ek f k r g)"
  by (simp add: link_reference_def)

lemma add_reference_linked:
  assumes "gs_faults (add_reference ty n d ev fld g) = []" and "dget d fld JNull \<noteq> JNull"
  shows "\<exists>v p. dget d fld JNull = JStr v \<and> parse_reference v = Inr p
     \<and> linked ev (node_id (lr_kind p) v) REFERENCES (Some fld) (add_reference ty n d ev fld g)"
proof -
  obtain p where p: "parse_value (dget d fld JNull) = Inr p"
    using assms by (auto simp: add_reference_def Let_def add_fault_def split: sum.splits)
  then obtain v where v: "dget d fld JNull = JStr v" "parse_reference v = Inr p"
    by (auto simp: parse_value_def split: json.splits)
  have "lr_reference p = v"
    by (rule parse_any_Inr [OF v(2) [unfolded parse_reference_def]]) (simp add: validated_reference_Inr(1))
  with v p show ?thesis
    using linked_reference [of ev "lr_kind p" p REFERENCES "Some fld" g] by (auto simp: add_reference_def)
qed

lemma event_contents:
  assumes "gs_faults (enumerate_event run (i, e) g) = []"
  obtains ty n d where "validated_event i e = Inr (ty, n, d)" "n \<notin> set (gs_seen g)"
    "linked (node_id NODE_RUN run) (event_node_id run n) CONTAINS_EVENT None (enumerate_event run (i, e) g)"
    "\<And>fld. fld \<in> set (reference_fields ty) \<Longrightarrow> dget d fld JNull \<noteq> JNull \<Longrightarrow> \<exists>v p. dget d fld JNull = JStr v \<and> parse_reference v = Inr p
       \<and> linked (event_node_id run n) (node_id (lr_kind p) v) REFERENCES (Some fld) (enumerate_event run (i, e) g)"
proof -
  obtain ty n d where ev: "validated_event i e = Inr (ty, n, d)" "n \<notin> set (gs_seen g)"
    using assms by (auto simp: enumerate_event_def add_fault_def split: sum.splits if_splits)
  let ?ev = "event_node_id run n"
  define g1 where "g1 = add_edge (node_id NODE_RUN run) ?ev CONTAINS_EVENT None
    (add_node NODE_EVENT (run @ '':'' @ dec (nat n)) OWN_RUNTIME_EVENT_STORE (g\<lparr>gs_seen := n # gs_seen g\<rparr>))"
  define g2 where "g2 = fold (add_entity ty n d ?ev) entity_fields g1"
  define g3 where "g3 = fold (add_reference ty n d ?ev) (reference_fields ty) g2"
  have run: "enumerate_event run (i, e) g = add_derived ty n d ?ev g3"
    using ev by (simp add: enumerate_event_def add_contents_def g1_def g2_def g3_def)
  have steps: "grows g1 g2" "grows g2 g3" "grows g3 (enumerate_event run (i, e) g)"
    unfolding g2_def g3_def run by (simp_all add: grows_fold)
  have "linked (node_id NODE_RUN run) ?ev CONTAINS_EVENT None g1" by (simp add: g1_def event_node_id_def)
  with steps have "linked (node_id NODE_RUN run) ?ev CONTAINS_EVENT None (enumerate_event run (i, e) g)"
    using linked_grows by blast
  moreover have "\<exists>v p. dget d fld JNull = JStr v \<and> parse_reference v = Inr p
       \<and> linked ?ev (node_id (lr_kind p) v) REFERENCES (Some fld) (enumerate_event run (i, e) g)"
    if fld: "fld \<in> set (reference_fields ty)" "dget d fld JNull \<noteq> JNull" for fld
  proof -
    have "gs_faults g3 = []" using grows_faults [OF steps(3) assms] .
    then obtain h where h: "gs_faults (add_reference ty n d ?ev fld h) = []" "grows (add_reference ty n d ?ev fld h) g3"
      using fold_step [OF fld(1), of "add_reference ty n d ?ev" g2] by (auto simp: g3_def)
    from add_reference_linked [OF h(1) fld(2)] linked_grows [OF grows_trans [OF h(2) steps(3)]] show ?thesis by blast
  qed
  ultimately show thesis using that ev by blast
qed

lemma number_from_nth: "i < length xs \<Longrightarrow> (n + int i, xs ! i) \<in> set (number_from n xs)"
proof (induction xs arbitrary: i n)
  case (Cons x xs)
  then show ?case using Cons.IH [of "i - 1" "n + 1"] by (cases i) (auto simp: algebra_simps)
qed simp

lemma enumerate_run_Inr:
  assumes "enumerate_run run events = Inr gr"
  shows "safe_token run" and "gs_faults (fold_run run events) = []" and "lg_run_id gr = run"
    and "set (lg_nodes gr) = set (gs_nodes (fold_run run events))" and "set (lg_edges gr) = set (gs_edges (fold_run run events))"
    and "distinct (map gn_id (lg_nodes gr)) \<longleftrightarrow> distinct (map gn_id (gs_nodes (fold_run run events)))"
proof -
  let ?g = "fold_run run events"
  have same: "distinct (map gn_id (sort_key gn_id xs)) \<longleftrightarrow> distinct (map gn_id xs)" for xs
    by (simp add: distinct_map)
  have "safe_token run \<and> gs_faults ?g = []
      \<and> gr = \<lparr>lg_run_id = run, lg_nodes = sort_key gn_id (gs_nodes ?g), lg_edges = sort_key edge_text (gs_edges ?g)\<rparr>"
    using assms by (simp add: enumerate_run_def Let_def split: if_splits)
  then show "safe_token run" and "gs_faults ?g = []" and "lg_run_id gr = run" and "set (lg_nodes gr) = set (gs_nodes ?g)"
    and "set (lg_edges gr) = set (gs_edges ?g)" and "distinct (map gn_id (lg_nodes gr)) \<longleftrightarrow> distinct (map gn_id (gs_nodes ?g))"
    using same by simp_all
qed

text \<open>A field of a validated payload whose name ends in \<open>_ref\<close> is one that the enumerator reads.\<close>

lemma validated_event_field:
  assumes "validated_event i e = Inr (ty, n, d)" and "dget d k JNull \<noteq> JNull" and "reference_name k"
  shows "k \<in> set (reference_fields ty)"
proof -
  obtain raw where ty: "ty \<in> set ledger_event_types" "validated_fields ty raw = Inr d"
    using assms(1) by (auto simp: validated_event_def split: json.splits sum.splits if_splits)
  obtain specs valid where m: "vocabulary_model ty = Some (specs, valid)" "d = set_fields specs (by_alias raw)"
    using ty(2) by (auto simp: validated_fields_def split: option.splits if_splits)
  have "k \<in> fst ` set d" using assms(2) by (auto simp: dget_def split: option.splits dest!: map_of_SomeD) force
  then have "k \<in> set (map fst specs)" unfolding m(2) by (auto simp: set_fields_def image_iff split: option.splits if_splits) force
  moreover have "case vocabulary_model ty of None \<Rightarrow> False | Some (specs, valid) \<Rightarrow>
     set (filter reference_name (map fst specs)) = set (reference_fields ty)"
    using contract_fields ty(1) unfolding list_all_iff by blast
  then have "set (filter reference_name (map fst specs)) = set (reference_fields ty)" by (simp only: m(1) option.case prod.case)
  ultimately show ?thesis using assms(3) by auto
qed

text \<open>C33: A graph leaves no reference out. When the enumerator returns a graph, every event of the run
  is a valid event of the vocabulary and hangs from the run, and whatever a payload declares under
  a name ending in \<open>_ref\<close> was accepted by the registry and is a node, with an edge from its event
  that names the field: deleting or holding by the graph misses none of them.
\<close>

theorem graph_leaves_nothing_out:
  assumes "enumerate_run run events = Inr gr" and "i < length events"
  shows "\<exists>ty n d. validated_event (1 + int i) (events ! i) = Inr (ty, n, d)
     \<and> \<lparr>ge_from = node_id NODE_RUN run, ge_to = event_node_id run n, ge_kind = CONTAINS_EVENT, ge_field = None\<rparr> \<in> set (lg_edges gr)
     \<and> (\<forall>k. reference_name k \<longrightarrow> dget d k JNull \<noteq> JNull \<longrightarrow> (\<exists>v p. dget d k JNull = JStr v \<and> parse_reference v = Inr p
          \<and> \<lparr>ge_from = event_node_id run n, ge_to = node_id (lr_kind p) v, ge_kind = REFERENCES, ge_field = Some k\<rparr> \<in> set (lg_edges gr)
          \<and> (\<exists>x\<in>set (lg_nodes gr). gn_id x = node_id (lr_kind p) v)))"
proof -
  note clean = enumerate_run_Inr [OF assms(1)]
  let ?last = "fold_run run events"
  obtain h where h: "gs_faults (enumerate_event run (1 + int i, events ! i) h) = []"
    "grows (enumerate_event run (1 + int i, events ! i) h) ?last"
    using fold_step [OF number_from_nth [OF assms(2)], of "enumerate_event run"] clean(2) by (auto simp: fold_run_def)
  obtain ty n d where ev: "validated_event (1 + int i) (events ! i) = Inr (ty, n, d)"
    "linked (node_id NODE_RUN run) (event_node_id run n) CONTAINS_EVENT None (enumerate_event run (1 + int i, events ! i) h)"
    "\<And>fld. fld \<in> set (reference_fields ty) \<Longrightarrow> dget d fld JNull \<noteq> JNull \<Longrightarrow> \<exists>v p. dget d fld JNull = JStr v \<and> parse_reference v = Inr p
       \<and> linked (event_node_id run n) (node_id (lr_kind p) v) REFERENCES (Some fld) (enumerate_event run (1 + int i, events ! i) h)"
    by (rule event_contents [OF h(1)]) blast
  note at_end = linked_grows [OF h(2)]
  show ?thesis
  proof (rule exI, rule exI, rule exI, intro conjI allI impI)
    show "validated_event (1 + int i) (events ! i) = Inr (ty, n, d)" by (rule ev(1))
    show "\<lparr>ge_from = node_id NODE_RUN run, ge_to = event_node_id run n, ge_kind = CONTAINS_EVENT, ge_field = None\<rparr> \<in> set (lg_edges gr)"
      using at_end [OF ev(2)] by (simp add: linked_def clean(5))
    fix k
    assume k: "reference_name k" "dget d k JNull \<noteq> JNull"
    obtain v p where v: "dget d k JNull = JStr v" "parse_reference v = Inr p"
      "linked (event_node_id run n) (node_id (lr_kind p) v) REFERENCES (Some k) (enumerate_event run (1 + int i, events ! i) h)"
      using ev(3) [OF validated_event_field [OF ev(1) k(2,1)] k(2)] by blast
    then show "\<exists>v p. dget d k JNull = JStr v \<and> parse_reference v = Inr p
        \<and> \<lparr>ge_from = event_node_id run n, ge_to = node_id (lr_kind p) v, ge_kind = REFERENCES, ge_field = Some k\<rparr> \<in> set (lg_edges gr)
        \<and> (\<exists>x\<in>set (lg_nodes gr). gn_id x = node_id (lr_kind p) v)"
      using at_end [OF v(3)] by (auto simp: linked_def clean(4,5))
  qed
qed

section \<open>Nothing else is in it\<close>

definition arcs :: "graph_edge list \<Rightarrow> (string \<times> string) set" where
  "arcs es = (\<lambda>e. (ge_from e, ge_to e)) ` set es"

definition rooted :: "string \<Rightarrow> string \<Rightarrow> graph_state \<Rightarrow> bool" where
  "rooted run a g \<longleftrightarrow> distinct (map gn_id (gs_nodes g)) \<and> node_id NODE_RUN run \<in> gn_id ` set (gs_nodes g)
     \<and> a \<in> gn_id ` set (gs_nodes g) \<and> arcs (gs_edges g) \<subseteq> gn_id ` set (gs_nodes g) \<times> gn_id ` set (gs_nodes g)
     \<and> (\<forall>x\<in>gn_id ` set (gs_nodes g). (node_id NODE_RUN run, x) \<in> (arcs (gs_edges g))\<^sup>*)"

lemma ids_add_node: "gn_id ` set (gs_nodes (add_node k i w g)) = insert (node_id k i) (gn_id ` set (gs_nodes g))"
  by (auto simp: add_node_def list_ex_iff image_iff) metis

lemma distinct_add_node: "distinct (map gn_id (gs_nodes g)) \<Longrightarrow> distinct (map gn_id (gs_nodes (add_node k i w g)))"
  by (auto simp: add_node_def list_ex_iff)

lemma arcs_add_edge: "arcs (gs_edges (add_edge a b ek f g)) = insert (a, b) (arcs (gs_edges g))"
  by (auto simp: arcs_def add_edge_def Let_def image_iff) force

lemma add_rest [simp]: "gs_nodes (add_edge a b ek f g) = gs_nodes g" "gs_edges (add_node k i w g) = gs_edges g"
    "gs_nodes (add_fault d g) = gs_nodes g" "gs_edges (add_fault d g) = gs_edges g"
  by (simp_all add: add_edge_def add_node_def add_fault_def Let_def)

lemma rooted_link:
  assumes "rooted run a g"
  shows "rooted run b (add_edge a (node_id k i) ek f (add_node k i w g)) \<longleftrightarrow> b \<in> insert (node_id k i) (gn_id ` set (gs_nodes g))"
proof -
  let ?r = "arcs (gs_edges g)" and ?new = "node_id k i" and ?root = "node_id NODE_RUN run"
  have "?r\<^sup>* \<subseteq> (insert (a, ?new) ?r)\<^sup>*" by (rule rtrancl_mono) blast
  moreover have "(?root, a) \<in> ?r\<^sup>*" using assms by (auto simp: rooted_def)
  ultimately have "(?root, ?new) \<in> (insert (a, ?new) ?r)\<^sup>*" and "\<forall>x\<in>gn_id ` set (gs_nodes g). (?root, x) \<in> (insert (a, ?new) ?r)\<^sup>*"
    using assms by (auto simp: rooted_def intro: rtrancl_into_rtrancl)
  then show ?thesis
    using assms distinct_add_node [of g k i w] by (auto simp: rooted_def ids_add_node arcs_add_edge)
qed

lemma rooted_other: "rooted run a g \<Longrightarrow> b \<in> gn_id ` set (gs_nodes g) \<Longrightarrow> rooted run b g"
  by (simp add: rooted_def)

lemma rooted_link_same: "rooted run a g \<Longrightarrow> rooted run a (add_edge a (node_id k i) ek f (add_node k i w g))"
  by (simp add: rooted_link) (simp add: rooted_def)

lemma rooted_fault [simp]: "rooted run a (add_fault d g) \<longleftrightarrow> rooted run a g"
  by (simp add: rooted_def)

lemma rooted_contents:
  assumes "rooted run ev g"
  shows "rooted run ev (add_entity ty n d ev x g)" and "rooted run ev (add_reference ty n d ev fld g)"
    and "rooted run ev (add_derived ty n d ev g)"
  using assms
  by (auto simp: add_entity_def add_reference_def add_derived_def link_reference_def Let_def rooted_link_same
      split: prod.split sum.split json.split)

lemma fold_keeps: "(\<And>x g. P g \<Longrightarrow> P (f x g)) \<Longrightarrow> P g \<Longrightarrow> P (fold f xs g)"
  by (induction xs arbitrary: g) simp_all

lemma rooted_event:
  assumes "rooted run (node_id NODE_RUN run) g"
  shows "rooted run (node_id NODE_RUN run) (enumerate_event run (i, e) g)"
proof (cases "validated_event i e")
  case (Inl d)
  with assms show ?thesis by (simp add: enumerate_event_def)
next
  case (Inr x)
  obtain ty n d where x: "x = (ty, n, d)" by (cases x)
  show ?thesis
  proof (cases "n \<in> set (gs_seen g)")
    case True
    with assms Inr x show ?thesis by (simp add: enumerate_event_def)
  next
    case False
    let ?ev = "event_node_id run n"
    define g1 where "g1 = add_edge (node_id NODE_RUN run) ?ev CONTAINS_EVENT None
      (add_node NODE_EVENT (run @ '':'' @ dec (nat n)) OWN_RUNTIME_EVENT_STORE (g\<lparr>gs_seen := n # gs_seen g\<rparr>))"
    have "rooted run (node_id NODE_RUN run) (g\<lparr>gs_seen := n # gs_seen g\<rparr>)" using assms by (simp add: rooted_def)
    then have "rooted run ?ev g1" unfolding g1_def event_node_id_def by (simp add: rooted_link)
    then have "rooted run ?ev (add_contents run ty n d g1)"
      unfolding add_contents_def by (intro rooted_contents fold_keeps [of "rooted run ?ev"])
    moreover have "enumerate_event run (i, e) g = add_contents run ty n d g1"
      using Inr x False by (simp add: enumerate_event_def g1_def)
    ultimately show ?thesis by (simp add: rooted_def)
  qed
qed

text \<open>A graph holds nothing but its run. Its nodes are distinct, every edge joins two of them, and
  every node is reached from the node of the run, so that what hangs from a graph was declared by
  some event of that run.
\<close>

theorem graph_is_rooted:
  assumes "enumerate_run run events = Inr gr"
  shows "distinct (map gn_id (lg_nodes gr))
     \<and> (\<forall>e\<in>set (lg_edges gr). ge_from e \<in> gn_id ` set (lg_nodes gr) \<and> ge_to e \<in> gn_id ` set (lg_nodes gr))
     \<and> (\<forall>x\<in>set (lg_nodes gr). (node_id NODE_RUN run, gn_id x) \<in> (arcs (lg_edges gr))\<^sup>*)"
proof -
  note clean = enumerate_run_Inr [OF assms]
  have "rooted run (node_id NODE_RUN run) (add_node NODE_RUN run OWN_RUNTIME_EVENT_STORE empty_graph)"
    by (simp add: rooted_def add_node_def empty_graph_def arcs_def)
  then have "rooted run (node_id NODE_RUN run) (fold_run run events)"
    unfolding fold_run_def by (intro fold_keeps [of "rooted run (node_id NODE_RUN run)"]) (auto intro: rooted_event)
  then show ?thesis by (auto simp: rooted_def clean(4-6) arcs_def)
qed

section \<open>Events without faults\<close>

lemma links_keep_faults [simp]:
  "gs_faults (add_node k i w g) = gs_faults g" "gs_seen (add_node k i w g) = gs_seen g"
  "gs_faults (add_edge a b ek f g) = gs_faults g" "gs_seen (add_edge a b ek f g) = gs_seen g"
  "gs_faults (link_reference a ek f k r g) = gs_faults g" "gs_seen (link_reference a ek f k r g) = gs_seen g"
  by (simp_all add: add_node_def add_edge_def link_reference_def Let_def)

text \<open>Everything that is set in the payload reads: the identifiers are tokens, the references parse.\<close>

definition clean_event :: "string \<Rightarrow> dict \<Rightarrow> bool" where
  "clean_event ty d \<longleftrightarrow> ty \<noteq> ''operation.requested''
     \<and> (\<forall>(nm, k, w)\<in>set entity_fields. dget d nm JNull \<noteq> JNull
          \<longrightarrow> nm \<noteq> ''surface_id'' \<and> (\<exists>v. dget d nm JNull = JStr v \<and> safe_token v))
     \<and> (\<forall>f\<in>set (reference_fields ty). dget d f JNull \<noteq> JNull \<longrightarrow> (\<exists>p. parse_value (dget d f JNull) = Inr p))"

lemma clean_entities:
  assumes "clean_event ty d" and "set fs \<subseteq> set entity_fields"
  shows "gs_faults (fold (add_entity ty n d i) fs g) = gs_faults g \<and> gs_seen (fold (add_entity ty n d i) fs g) = gs_seen g"
  using assms(2)
proof (induction fs arbitrary: g)
  case (Cons f fs)
  obtain nm k w where f: "f = (nm, k, w)" by (cases f)
  with Cons.prems assms(1) have "dget d nm JNull \<noteq> JNull \<longrightarrow> nm \<noteq> ''surface_id'' \<and> (\<exists>v. dget d nm JNull = JStr v \<and> safe_token v)"
    by (auto simp: clean_event_def)
  with f have "gs_faults (add_entity ty n d i f g) = gs_faults g" "gs_seen (add_entity ty n d i f g) = gs_seen g"
    by (cases "dget d nm JNull = JNull"; auto simp: add_entity_def Let_def)+
  with Cons show ?case by simp
qed simp

lemma clean_references:
  assumes "clean_event ty d" and "set fs \<subseteq> set (reference_fields ty)"
  shows "gs_faults (fold (add_reference ty n d i) fs g) = gs_faults g \<and> gs_seen (fold (add_reference ty n d i) fs g) = gs_seen g"
  using assms(2)
proof (induction fs arbitrary: g)
  case (Cons f fs)
  with assms(1) have "gs_faults (add_reference ty n d i f g) = gs_faults g" "gs_seen (add_reference ty n d i f g) = gs_seen g"
    by (cases "dget d f JNull = JNull"; auto simp: add_reference_def clean_event_def Let_def)+
  with Cons show ?case by simp
qed simp

lemma clean_event_enumerates:
  assumes "validated_event i e = Inr (ty, n, d)" and "n \<notin> set (gs_seen g)" and "gs_faults g = []" and "clean_event ty d"
  shows "gs_faults (enumerate_event run (i, e) g) = [] \<and> gs_seen (enumerate_event run (i, e) g) = n # gs_seen g"
proof -
  have "ty \<noteq> ''operation.requested''" using assms(4) by (simp add: clean_event_def)
  then show ?thesis
    using assms clean_entities [OF assms(4) subset_refl] clean_references [OF assms(4) subset_refl]
    by (simp add: enumerate_event_def add_contents_def add_derived_def)
qed

section \<open>A run with references\<close>

definition read_event :: envelope where
  "read_event = \<lparr>en_event_id = ''e1'', en_run_id = ''run1'', en_conversation_id = ''conv'', en_sequence_no = 1,
     en_event_type = ''read.executed'', en_trace_id = ''tr'',
     en_payload = [(''v'', JInt 1), (''call_id'', JStr ''call_01''), (''connector'', JStr ''crm''), (''op'', JStr ''get''),
       (''latency_ms'', JInt 7), (''payload_ref'', JStr ''payload://evt_01'')],
     en_metadata = [], en_created_at = ''t1''\<rparr>"

definition registered_claim :: effect_claim where
  "registered_claim = sample_claim\<lparr>ec_target_ref := ''mcp-target://crm/7'', 
     ec_content_ref := Some (''artifact-blob://sha256/'' @ replicate 64 (CHR ''a''))\<rparr>"

definition claim_event :: envelope where
  "claim_event = claimed_event\<lparr>en_event_id := ''e2'', en_sequence_no := 2,
     en_payload := [(''v'', JInt 1), (''stage_id'', JStr (ec_stage_id sample_claim)), (''revision'', JInt 1),
       (''claim_id'', JStr (ec_claim_id sample_claim)), (''executor'', JStr ''mcp''), (''attempt'', JInt 1)]\<rparr>"

definition run_events :: "dict list" where
  "run_events = map (\<lambda>e. event_object (en_event_type e, en_sequence_no e, en_payload e)) [read_event, claim_event]"

text \<open>What the events of the sample evaluate to.\<close>

lemma sample_events_valid:
  "validated_event 1 (run_events ! 0) = Inr (''read.executed'', 1, en_payload read_event)"
  "validated_event 2 (run_events ! 1) = Inr (''effect.claimed'', 2, en_payload claim_event)"
  by code_simp+

lemma sample_tokens: "safe_token ''run1''" "safe_token ''call_01''" "safe_token (ec_stage_id sample_claim)"
  by code_simp+

lemma sample_payload_parsed:
  obtains p where "parse_reference ''payload://evt_01'' = Inr p" "node_id (lr_kind p) ''payload://evt_01'' = ''reference:payload://evt_01''"
proof -
  have "case parse_reference ''payload://evt_01'' of Inl _ \<Rightarrow> False
      | Inr p \<Rightarrow> node_id (lr_kind p) ''payload://evt_01'' = ''reference:payload://evt_01''"
    by code_simp
  then show thesis using that by (auto split: sum.splits)
qed

lemma sample_events_clean:
  "clean_event ''read.executed'' (en_payload read_event)" "clean_event ''effect.claimed'' (en_payload claim_event)"
proof -
  obtain p where "parse_reference ''payload://evt_01'' = Inr p" by (rule sample_payload_parsed)
  then show "clean_event ''read.executed'' (en_payload read_event)"
    by (simp add: clean_event_def read_event_def entity_fields_def reference_fields_def dget_def sample_tokens parse_value_def)
  show "clean_event ''effect.claimed'' (en_payload claim_event)"
    by (simp add: clean_event_def claim_event_def entity_fields_def reference_fields_def dget_def sample_tokens)
qed

lemma run_events_graph: obtains gr where "enumerate_run ''run1'' run_events = Inr gr"
proof -
  let ?g = "add_node NODE_RUN ''run1'' OWN_RUNTIME_EVENT_STORE empty_graph"
  let ?g1 = "enumerate_event ''run1'' (1, run_events ! 0) ?g"
  have "gs_faults ?g = [] \<and> gs_seen ?g = []" by (simp add: empty_graph_def)
  moreover from this have "gs_faults ?g1 = [] \<and> gs_seen ?g1 = [1]"
    using clean_event_enumerates [OF sample_events_valid(1) _ _ sample_events_clean(1)] by simp
  ultimately have "gs_faults (enumerate_event ''run1'' (2, run_events ! 1) ?g1) = []"
    using clean_event_enumerates [OF sample_events_valid(2) _ _ sample_events_clean(2)] by simp
  moreover have "fold_run ''run1'' run_events = enumerate_event ''run1'' (2, run_events ! 1) ?g1"
    by (simp add: fold_run_def run_events_def)
  ultimately show thesis using that sample_tokens(1) by (simp add: enumerate_run_def Let_def)
qed

theorem graph_leaves_nothing_out_witness:
  "\<exists>gr. enumerate_run ''run1'' run_events = Inr gr
     \<and> \<lparr>ge_from = event_node_id ''run1'' 1, ge_to = ''reference:payload://evt_01'', ge_kind = REFERENCES,
         ge_field = Some ''payload_ref''\<rparr> \<in> set (lg_edges gr)"
proof -
  obtain gr where gr: "enumerate_run ''run1'' run_events = Inr gr" by (rule run_events_graph)
  have "0 < length run_events" by (simp add: run_events_def)
  from graph_leaves_nothing_out [OF gr this] obtain ty n d where e: "validated_event (1 + int 0) (run_events ! 0) = Inr (ty, n, d)"
    and all: "\<forall>k. reference_name k \<longrightarrow> dget d k JNull \<noteq> JNull \<longrightarrow> (\<exists>v p. dget d k JNull = JStr v \<and> parse_reference v = Inr p
       \<and> \<lparr>ge_from = event_node_id ''run1'' n, ge_to = node_id (lr_kind p) v, ge_kind = REFERENCES, ge_field = Some k\<rparr> \<in> set (lg_edges gr)
       \<and> (\<exists>x\<in>set (lg_nodes gr). gn_id x = node_id (lr_kind p) v))"
    by blast
  obtain p where p: "parse_reference ''payload://evt_01'' = Inr p" "node_id (lr_kind p) ''payload://evt_01'' = ''reference:payload://evt_01''"
    by (rule sample_payload_parsed)
  have "reference_name ''payload_ref''" by code_simp
  moreover have "dget (en_payload read_event) ''payload_ref'' JNull = JStr ''payload://evt_01''"
    by (simp add: read_event_def dget_def)
  ultimately show ?thesis using e all [rule_format, of "''payload_ref''"] gr p by (auto simp: sample_events_valid)
qed

theorem graph_is_rooted_witness:
  "\<exists>gr. enumerate_run ''run1'' run_events = Inr gr \<and> distinct (map gn_id (lg_nodes gr))
     \<and> (\<forall>x\<in>set (lg_nodes gr). (node_id NODE_RUN ''run1'', gn_id x) \<in> (arcs (lg_edges gr))\<^sup>*)"
proof -
  obtain gr where gr: "enumerate_run ''run1'' run_events = Inr gr" by (rule run_events_graph)
  with graph_is_rooted [OF gr] show ?thesis by blast
qed

section \<open>The claims that are repaired\<close>

text \<open>C32: A claim is only proved stuck when every reference it depends on has an owner. Over the
  shipped registry, the references of such a claim parse, its proposal belongs to the effect
  stages, and the ledger of its run, complete from its first event, has a lifecycle graph: no event of it
  carries a reference that no subsystem owns.
\<close>

theorem proved_claims_have_owned_references:
  assumes "claim_proved (registry_collector cl) now s c"
  shows "(\<exists>p. parse_reference (ec_proposal_ref c) = Inr p \<and> lr_scheme p = REF_PROPOSAL)
     \<and> (\<exists>p. parse_reference (ec_target_ref c) = Inr p \<and> reference_scheme (registry_collector cl) c = scheme_value (lr_scheme p))
     \<and> (\<exists>v p. ec_content_ref c = Some v \<and> parse_reference v = Inr p)
     \<and> (\<exists>run status es gr. cl_get_run cl (ec_org_id c) (ec_run_id c) s = Inr (Some (run, status))
          \<and> cl_events cl (ec_org_id c) (ec_run_id c) 0 s = Inr es \<and> map en_sequence_no es = [1..rn_latest_sequence_no run]
          \<and> enumerate_run (ec_run_id c) (map (\<lambda>e. event_object (en_event_type e, en_sequence_no e, en_payload e))
              (filter (\<lambda>e. en_event_type e \<in> set ledger_event_types) es)) = Inr gr)"
proof -
  let ?rc = "registry_collector cl"
  have fields: "cl_parse_reference ?rc = parsed_scheme" "cl_enumerate ?rc = enumerate_ledger" "cl_get_run ?rc = cl_get_run cl"
    "cl_events ?rc = cl_events cl" "cl_max_events ?rc = cl_max_events cl"
    by (simp_all add: registry_collector_def)
  have "reference_scheme ?rc c \<in> set known_schemes" using assms by (simp add: claim_proved_def)
  moreover have "''unknown'' \<notin> set known_schemes" by (simp add: known_schemes_def)
  ultimately have known: "reference_scheme ?rc c \<noteq> ''unknown''" by auto
  have inj: "s' = REF_PROPOSAL" if "scheme_value s' = ''proposal''" for s' using that by (cases s') simp_all
  have refs: "(\<exists>p. parse_reference (ec_proposal_ref c) = Inr p \<and> lr_scheme p = REF_PROPOSAL)
     \<and> (\<exists>p. parse_reference (ec_target_ref c) = Inr p \<and> reference_scheme ?rc c = scheme_value (lr_scheme p))
     \<and> (\<exists>v p. ec_content_ref c = Some v \<and> parse_reference v = Inr p)"
    using known inj by (auto simp: reference_scheme_def fields parsed_scheme_def split: sum.splits option.splits if_splits)
  obtain run status where run: "cl_get_run cl (ec_org_id c) (ec_run_id c) s = Inr (Some (run, status))"
    "verify_run_graph ?rc c (rn_conversation_id run) (rn_latest_sequence_no run) s = Inr (GRAPH_COMPLETE, True)"
    using assms by (auto simp: claim_proved_def fields)
  obtain es where es: "cl_events cl (ec_org_id c) (ec_run_id c) 0 s = Inr es" "map en_sequence_no es = [1..rn_latest_sequence_no run]"
    "enumerate_ledger (ec_run_id c) (map (\<lambda>e. (en_event_type e, en_sequence_no e, en_payload e))
       (filter (\<lambda>e. en_event_type e \<in> set ledger_event_types) es)) = Inr ()"
    using run(2) by (auto simp: verify_run_graph_def fields rbind_Inr_iff Let_def split: if_splits sum.splits)
  from es(3) obtain gr where "enumerate_run (ec_run_id c) (map (\<lambda>e. event_object (en_event_type e, en_sequence_no e, en_payload e))
      (filter (\<lambda>e. en_event_type e \<in> set ledger_event_types) es)) = Inr gr"
    by (auto simp: enumerate_ledger_def comp_def split: sum.splits)
  with refs run(1) es(1,2) show ?thesis by blast
qed

definition registered_collector :: "unit collector" where
  "registered_collector = registry_collector (stuck_collector
     \<lparr>cl_get_run := \<lambda>_ _ _. Inr (Some (finished_run\<lparr>rn_latest_sequence_no := 2\<rparr>, RUN_COMPLETED)),
      cl_events := \<lambda>_ _ _ _. Inr [read_event, claim_event]\<rparr>)"

theorem proved_claims_have_owned_references_witness:
  "claim_proved registered_collector 9 () registered_claim
   \<and> (\<exists>p. parse_reference (ec_target_ref registered_claim) = Inr p \<and> scheme_value (lr_scheme p) = ''mcp-target'')"
proof -
  have proposal: "parsed_scheme (ec_proposal_ref registered_claim) = Inr ''proposal''" by code_simp
  have target: "parsed_scheme (ec_target_ref registered_claim) = Inr ''mcp-target''" by code_simp
  have content: "parsed_scheme (the (ec_content_ref registered_claim)) = Inr ''artifact-blob''" by code_simp
  have fields: "cl_parse_reference registered_collector = parsed_scheme" "cl_enumerate registered_collector = enumerate_ledger"
    by (simp_all add: registered_collector_def registry_collector_def)
  have scheme: "reference_scheme registered_collector registered_claim = ''mcp-target''"
    using proposal target content by (simp add: reference_scheme_def fields registered_claim_def)
  have "enumerate_ledger ''run1'' (map (\<lambda>e. (en_event_type e, en_sequence_no e, en_payload e)) [read_event, claim_event]) = Inr ()"
    by (rule run_events_graph) (simp add: enumerate_ledger_def run_events_def)
  moreover have "filter (\<lambda>e. en_event_type e \<in> set ledger_event_types) [read_event, claim_event] = [read_event, claim_event]"
    "claim_evidence registered_claim claim_event" "[1..2] = [1, 2::int]"
    by code_simp+
  moreover have "map en_sequence_no [read_event, claim_event] = [1, 2]"
    "\<not> list_ex (\<lambda>e. en_run_id e \<noteq> ''run1'' \<or> en_conversation_id e \<noteq> ''conv'') [read_event, claim_event]"
    "ec_run_id registered_claim = ''run1''" "ec_org_id registered_claim = ''org''"
    by (simp_all add: read_event_def claim_event_def claimed_event_def registered_claim_def sample_claim_def)
  moreover have "cl_events registered_collector ''org'' ''run1'' 0 () = Inr [read_event, claim_event]" "cl_max_events registered_collector = 10"
    by (simp_all add: registered_collector_def registry_collector_def stuck_collector_def)
  ultimately have graph: "verify_run_graph registered_collector registered_claim ''conv'' 2 () = Inr (GRAPH_COMPLETE, True)"
    unfolding verify_run_graph_def fields Let_def by simp
  have "''mcp-target'' \<in> set known_schemes" by code_simp
  moreover have "unresolved registered_claim" "ec_executor registered_claim = MCP" "ec_org_id registered_claim = ''org''"
    "ec_run_id registered_claim = ''run1''"
    by (simp_all add: unresolved_def registered_claim_def sample_claim_def)
  moreover have "cl_get_run registered_collector ''org'' ''run1'' () = Inr (Some (finished_run\<lparr>rn_latest_sequence_no := 2\<rparr>, RUN_COMPLETED))"
    "cl_resolve_hold registered_collector ''org'' u v () = Inr HOLD_NONE" "MCP \<in> set (cl_supported registered_collector)"
    "quiet_period_elapsed (cl_iso registered_collector) t 9 (cl_quiet_period registered_collector)" for u v t
    by (simp_all add: registered_collector_def registry_collector_def stuck_collector_def quiet_period_elapsed_def)
  moreover have "rn_org_id finished_run = ''org''" "rn_run_id finished_run = ''run1''" "rn_conversation_id finished_run = ''conv''"
    "RUN_COMPLETED \<in> set terminal_run_statuses"
    by (simp_all add: finished_run_def terminal_run_statuses_def)
  ultimately have proved: "claim_proved registered_collector 9 () registered_claim"
    unfolding claim_proved_def scheme using graph by simp
  from proved_claims_have_owned_references [OF this [unfolded registered_collector_def]] scheme proved show ?thesis
    by (auto simp: registered_collector_def)
qed

end
