(* ===== verification/Spec2Isabelle.thy ===== *)
theory Spec2Isabelle
  imports EffectPolicy StageProperties LedgerProperties StagingProperties ClaimProperties StoreAgreement
    DispatchProperties CoordinatorProperties RolloutProperties DecisionProperties
    FileQueueProperties RedeliveryProperties RepairCycle LifecycleEnumeration
begin

text \<open>
  A verification library for the effect pipeline of the AI backend
  (\<open>services/ai-backend/src\<close>): how a proposed external effect is staged, decided on, queued,
  admitted, claimed, applied and reconciled, and how claims that got stuck are repaired. Paths below are relative to that directory.

  \<^bold>\<open>The program.\<close> An agent run proposes effects. \<open>agent_runtime/effects/staging.py\<close> records each as
  events of the run's ledger (\<open>api/effect_ledger.py\<close> over the event producer and store), and
  \<open>effects/fold.py\<close> folds those events into the state of a stage. A person decides through
  \<open>api/effect_stage_decision_service.py\<close>; an approval puts a command on a queue
  (\<open>api/effect_commit_queue.py\<close>). The loop of a worker (\<open>runtime_worker/loop.py\<close>) claims the command
  and hands it (\<open>runtime_worker/handlers/effect_commit.py\<close>) past the rollout gate
  (\<open>runtime_worker/e2_rollout_admission.py\<close>) to \<open>effects/coordinator.py\<close>, which checks it against
  the ledger and the referenced bytes and hands it to \<open>effects/dispatch.py\<close>: prepare, durable
  claim, authorize, apply, record. \<open>effects/claims.py\<close> and its two stores hold the claims. A repair
  runner (\<open>runtime_worker/jobs/repair_planning.py\<close>) scans the unresolved claims, collects what is
  known of each, plans over it (\<open>surfaces_v2/repair_reconciliation.py\<close>), and its executor
  (\<open>repair_execution.py\<close>) queues a reconciliation for those that are provably stuck. What a run
  refers to is enumerated by \<open>surfaces_v2/lifecycle_refs.py\<close>, over the payload models of
  \<open>ledger_models.py\<close>. The older staged writes (\<open>runtime_worker/handlers/stage_commit.py\<close>) reach the
  same dispatch and claim store through \<open>runtime_worker/staged_write_effect_dispatch.py\<close>.

  \<^bold>\<open>State and effects.\<close> An effect is a function from a state to a result and a state
  (\<open>eff\<close> in \<open>Prelude\<close>); an exception is \<open>Inl\<close> of \<open>exn\<close>, so that every raise and early return is a
  branch. The world is a record that grows with the components: \<open>event_world\<close> (runs, events,
  seals, clock), \<open>commit_world\<close> (the queue), \<open>recorder_world\<close> (what executors were asked),
  and \<open>memory_world\<close> or \<open>file_world\<close> (the claims). Python objects are records, enumerations are
  datatypes with their values as \<open>_value\<close> functions, JSON documents are the datatype \<open>json\<close> with
  objects as association lists, unbounded integers are \<open>int\<close>, strings are \<open>string\<close>.

  \<^bold>\<open>Theories.\<close>
  \<^item> \<open>Prelude\<close>, \<open>PyText\<close>: results, effects, JSON and the Python text functions the source calls.
  \<^item> \<open>LedgerIds\<close>, \<open>LedgerModels\<close>: identifiers and event payloads (\<open>surfaces_v2\<close>).
  \<^item> \<open>EffectContracts\<close>, \<open>EffectPolicy\<close>: the models of \<open>effects/contracts.py\<close>; the policy resolver
    and its refinement of an order-theoretic specification.
  \<^item> \<open>EffectFold\<close>, \<open>StageInvariant\<close>, \<open>StageSamples\<close>, \<open>StageProperties\<close>: the fold, its invariant, order
    and redelivery.
  \<^item> \<open>EffectLedger\<close>, \<open>StagePorts\<close>, \<open>LedgerLaws\<close>, \<open>LedgerProperties\<close>: the runtime ledger with its store,
    producer, seal and redelivery; the interface \<open>stage_ledger\<close> and its interpretation.
  \<^item> \<open>EffectStaging\<close>, \<open>StagingLaws\<close>, \<open>EffectOutbox\<close>, \<open>StagingProperties\<close>: the stager over the interface
    \<open>effect_stager\<close>, the queue, and the stager as composed.
  \<^item> \<open>EffectClaims\<close>, \<open>ClaimPorts\<close>, \<open>MemoryClaimStore\<close>, \<open>FileClaimStore\<close>, \<open>ClaimProperties\<close>,
    \<open>StoreAgreement\<close>: claims, the interface \<open>claim_store\<close>, both stores as interpretations, the file store
    under faults of its host, and its agreement with the in-memory store.
  \<^item> \<open>EffectExecutor\<close>, \<open>EffectDispatch\<close>, \<open>DispatchLaws\<close>, \<open>DispatchMachine\<close>, \<open>DispatchInterleaving\<close>,
    \<open>DispatchWorlds\<close>, \<open>DispatchProperties\<close>: the executor protocol and registry, the dispatch as one
    effect and as a machine that stops at every await, and any number of crashing workers.
  \<^item> \<open>EffectCoordinator\<close>, \<open>CoordinatorLaws\<close>, \<open>CoordinatorWorlds\<close>, \<open>CoordinatorChecks\<close>,
    \<open>CoordinatorSamples\<close>, \<open>CoordinatorProperties\<close>: the coordinator, its result recorder and
    reconciliation over the interface \<open>coordinating\<close>; its composition for a run
    (\<open>runtime_worker/mcp_operation_storage.py\<close>).
  \<^item> \<open>RolloutModes\<close>, \<open>RolloutAdmission\<close>, \<open>EffectWorkers\<close>, \<open>WorkerLaws\<close>, \<open>RolloutProperties\<close>: the rollout
    from the environment to the worker's gate, the two worker handlers, and the gated delivery.
  \<^item> \<open>EffectDecisions\<close>, \<open>DecisionSamples\<close>, \<open>DecisionProperties\<close>: the decision service.
  \<^item> \<open>CommandQueue\<close>, \<open>CommandQueueLaws\<close>, \<open>CommandQueueProperties\<close>: the queue the workers poll
    (\<open>runtime_adapters/in_memory/runtime_api_store.py\<close>): registration, claims with locks, settlement.
  \<^item> \<open>FileCommandQueue\<close>, \<open>FileQueueProperties\<close>: the same queue over the operation log of
    \<open>runtime_adapters/file/runtime_api_store.py\<close>, its replay when the store opens, and its compaction.
  \<^item> \<open>WorkerLoop\<close>, \<open>WorkerLoopProperties\<close>: the loop with its retries and its batches, whose tasks
    move in any order.
  \<^item> \<open>StagedDispatch\<close>, \<open>RedeliveryProperties\<close>: the dispatcher of staged writes with the send loop of its
    handler, and the whole of loop, queue, handlers and claim store under redelivery.
  \<^item> \<open>RepairPlanning\<close>, \<open>RepairPlanningProperties\<close>: the pure planner of repairs; decisions and pages.
  \<^item> \<open>RepairStore\<close>, \<open>RepairStoreLaws\<close>: snapshots and their store
    (\<open>runtime_adapters/in_memory/repair_planning_store.py\<close>), and what every operation of it keeps.
  \<^item> \<open>RepairCollector\<close>, \<open>RepairRunner\<close>: the scan of the claims, the collector, the runner and the executor.
  \<^item> \<open>RepairFleet\<close>, \<open>RepairProgress\<close>: any number of runners over one store, and a pass of one.
  \<^item> \<open>RepairExecution\<close>, \<open>RepairCycle\<close>: what the executor queues, and whole cycles with their cursor.
  \<^item> \<open>LedgerVocabulary\<close>, \<open>LifecycleRefs\<close>, \<open>LifecycleGraph\<close>: the payload models of every ledger event,
    the registry of lifecycle references with its parser, and the enumerator of a run.
  \<^item> \<open>LifecycleProperties\<close>, \<open>LifecycleEnumeration\<close>: what the parser accepts, what a graph holds, and
    what that means for the claims the repair runner proves.

  \<^bold>\<open>What is shown.\<close> Each interface of the program is a locale whose laws are proved once for the
  code's own implementations, so that what a client proves inside it holds of the composition. The
  invariants: the fold yields only well-formed stages, whatever the history; the ledger is
  append-only and refuses after its seal; a claim key is created at most once and its claim moves
  only forward. The safety chain: a command reaches the queue only behind a recorded approval; what
  the service queues is what the coordinator and the gate accept; a delivery reaches an executor
  only for its own run, past an open lane, for exactly the approved request over bytes with the
  approved digests, once per key, after its claim is durable, however workers interleave and crash;
  reconciliation applies nothing. The queue: a lock excludes other workers while it lasts, a restart
  rebuilds from the log the work that was there, the loop works a queue off in batches of any size
  and order, what a sealed ledger or a foreign scope refuses is never retried, and however commands
  are redelivered no effect is applied twice, by the effect families or by staged writes. The repair: only what is proved is a candidate,
  runners that interleave and crash record every decision of a snapshot once and in order, the
  executor queues only what is still proved, and the source cursor passes a claim only when it is
  decided and, when provably stuck, queued. The lifecycle graph of a run leaves out no event and no
  reference its payloads declare, holds nothing that is not reached from the run, and a claim is
  proved stuck only when its references have owners and its run has such a graph. The error behaviour: what a caller may not see is not
  found and leaves no trace; unapproved deliveries are refused without a change; exceptions of \<open>apply\<close> become
  indeterminate claims. Some theorems state what the code does where that is not what it means to
  do: an approval whose enqueue failed is never queued by its retry, row decisions are refused by
  the runtime ledger, a denied row-set effect raises, a sealed run strands its claims, a late report
  reopens a completed command, compaction forgets which commands were finished, and one claim of
  an organisation the planner does not name stalls the repair of all.

  \<^bold>\<open>Bounds.\<close> The model needs no fuel: every loop of the source is over a list it holds, and the
  recursion is structural or, for percent-decoding, by the length of the rest; the worker's loop
  until idle may run for ever, is a partial function, and is shown to return; the planning loop is
  bounded by the code's own eight pages and eight conflicts. Following cursors is a function with
  fuel, which needs one call more than there are records. The await machine
  has at most eight steps per worker, which \<open>dispatch_in_eight_steps\<close> proves. Length limits of
  fields are the source's.

  \<^bold>\<open>Parameters.\<close> SHA-256, the clock, the generators of ids, the reader of a startup variable's JSON and the
  bytes behind a reference are arguments of the definitions, and so are \<open>datetime.fromisoformat\<close>, the
  legal holds of the repair collector; its registry and enumerator of lifecycle references are
  arguments too, which \<open>registry_collector\<close> instantiates with the shipped ones. The digest of
  canonical JSON and the MCP executor are arguments of the staged-write dispatch, the upkeep of a
  pass and the choice of the event loop are arguments of the worker. Faults of the host are a
  function of the number of the operation, for each of lock, open, read, write and release. The
  handlers of the command families other than the effect families are arguments of the loop. The
  theorems over it ask them to leave the queue alone, or to apply an effect only under a key they
  take, as the dispatcher of staged writes and its send loop are proved to.

  \<^bold>\<open>Not modelled.\<close> Of the modelled modules: presentation fields of events, the fence for legacy
  materialization, trace propagation of commands and the creation time of a commit command, the soak evaluation with its floating-point
  rates and the telemetry of the rollout, and of the older staged writes their fold, their gates,
  drafts and emitted events; of the worker loop, \<open>run_forever\<close> with its stop and control lanes,
  tracing, and what the sandbox and projection upkeep of a pass does; \<open>assert_contract_coverage\<close>
  of the lifecycle enumerator; of the file store, all but the queue, and writes
  that fail. The
  transport executors (\<open>runtime_worker/mcp_effect_executor.py\<close> and its siblings) and the stores of
  argument, workspace and browser material call remote services; a recording executor with
  arbitrary answers, which may raise at every call, stands for them. The Postgres store
  implements the operations of the in-memory store, which is the one modelled. The
  API routes, the agent loop, the operation-descriptor catalogue, the shadow comparison, the
  surface and artifact subsystems and the other services of the repository are outside.
\<close>

end
